(* ===== verification/PyStr.thy ===== *)
theory PyStr
  imports Prelude
begin

text \<open>
  The part of Python's \<open>str\<close> the program uses. A \<open>str\<close> is a \<open>string\<close> of code points
  below 256: what an HTTP header can carry (they arrive decoded as Latin-1), and the
  ASCII of ids, scopes and tokens. On these code points the functions below agree with
  CPython: \<open>strip\<close> and \<open>int\<close> skip the same white space, \<open>lower\<close> maps the Latin-1
  capitals, \<open>int\<close> accepts a sign, single underscores between digits and at most 4300
  digits, and a pattern ending in \<open>$\<close> also matches before one final newline.
\<close>

type_synonym str = string

definition ord :: "char \<Rightarrow> nat" where
  "ord c = of_char c"

definition newline :: char where
  "newline = CHR 0x0A"

subsection \<open>Character classes\<close>

definition is_digit :: "char \<Rightarrow> bool" where
  "is_digit c \<longleftrightarrow> 48 \<le> ord c \<and> ord c \<le> 57"

definition is_alpha :: "char \<Rightarrow> bool" where
  "is_alpha c \<longleftrightarrow> 65 \<le> ord c \<and> ord c \<le> 90 \<or> 97 \<le> ord c \<and> ord c \<le> 122"

definition is_alnum :: "char \<Rightarrow> bool" where
  "is_alnum c \<longleftrightarrow> is_alpha c \<or> is_digit c"

definition is_lower_hex :: "char \<Rightarrow> bool" where
  "is_lower_hex c \<longleftrightarrow> is_digit c \<or> 97 \<le> ord c \<and> ord c \<le> 102"

definition is_hex :: "char \<Rightarrow> bool" where
  "is_hex c \<longleftrightarrow> is_lower_hex c \<or> 65 \<le> ord c \<and> ord c \<le> 70"

definition is_ascii :: "char \<Rightarrow> bool" where
  "is_ascii c \<longleftrightarrow> ord c < 128"

definition is_space :: "char \<Rightarrow> bool" where
  "is_space c \<longleftrightarrow> 9 \<le> ord c \<and> ord c \<le> 13 \<or> 28 \<le> ord c \<and> ord c \<le> 32
     \<or> ord c = 133 \<or> ord c = 160"

definition isascii :: "str \<Rightarrow> bool" where
  "isascii s \<longleftrightarrow> list_all is_ascii s"

subsection \<open>Case, white space, prefixes\<close>

definition lower_char :: "char \<Rightarrow> char" where
  "lower_char c =
     (if 65 \<le> ord c \<and> ord c \<le> 90 \<or> 192 \<le> ord c \<and> ord c \<le> 222 \<and> ord c \<noteq> 215
      then char_of (ord c + 32) else c)"

definition lower :: "str \<Rightarrow> str" where
  "lower s = map lower_char s"

definition upper_ascii_char :: "char \<Rightarrow> char" where
  "upper_ascii_char c = (if 97 \<le> ord c \<and> ord c \<le> 122 then char_of (ord c - 32) else c)"

definition upper_ascii :: "str \<Rightarrow> str" where
  "upper_ascii s = map upper_ascii_char s"

definition lstrip_by :: "(char \<Rightarrow> bool) \<Rightarrow> str \<Rightarrow> str" where
  "lstrip_by P s = dropWhile P s"

definition rstrip_by :: "(char \<Rightarrow> bool) \<Rightarrow> str \<Rightarrow> str" where
  "rstrip_by P s = rev (dropWhile P (rev s))"

definition strip :: "str \<Rightarrow> str" where
  "strip s = rstrip_by is_space (lstrip_by is_space s)"

fun startswith :: "str \<Rightarrow> str \<Rightarrow> bool" where
  "startswith s [] = True"
| "startswith [] (p # ps) = False"
| "startswith (c # cs) (p # ps) = (c = p \<and> startswith cs ps)"

definition endswith :: "str \<Rightarrow> str \<Rightarrow> bool" where
  "endswith s p = startswith (rev s) (rev p)"

fun contains_sub :: "str \<Rightarrow> str \<Rightarrow> bool" where
  "contains_sub [] p = (p = [])"
| "contains_sub (c # cs) p = (startswith (c # cs) p \<or> contains_sub cs p)"

subsection \<open>Splitting and joining\<close>

text \<open>\<open>s.split(c)\<close> for a one-character separator, never empty.\<close>

fun split :: "char \<Rightarrow> str \<Rightarrow> str list" where
  "split c [] = [[]]"
| "split c (x # xs) =
     (if x = c then [] # split c xs
      else (case split c xs of [] \<Rightarrow> [[x]] | w # ws \<Rightarrow> (x # w) # ws))"

text \<open>\<open>sep.join(parts)\<close>.\<close>

fun join :: "str \<Rightarrow> str list \<Rightarrow> str" where
  "join sep [] = []"
| "join sep [w] = w"
| "join sep (w # v # ws) = w @ sep @ join sep (v # ws)"

text \<open>\<open>s.partition(c)\<close>: before, whether the separator was there, after.\<close>

definition partition :: "char \<Rightarrow> str \<Rightarrow> str \<times> bool \<times> str" where
  "partition c s =
     (let h = takeWhile (\<lambda>x. x \<noteq> c) s; t = dropWhile (\<lambda>x. x \<noteq> c) s
      in case t of [] \<Rightarrow> (s, False, []) | _ # r \<Rightarrow> (h, True, r))"

lemma split_not_Nil [simp]: "split c s \<noteq> []"
  by (cases s) (auto split: list.splits)

lemma split_parts: "w \<in> set (split c s) \<Longrightarrow> c \<notin> set w"
  by (induction s arbitrary: w) (auto split: list.splits if_splits)

lemma join_Cons: "ws \<noteq> [] \<Longrightarrow> join sep (w # ws) = w @ sep @ join sep ws"
  by (cases ws) simp_all

lemma join_split: "join [c] (split c s) = s"
proof (induction s)
  case (Cons x s)
  obtain w ws where "split c s = w # ws" by (cases "split c s") simp_all
  then show ?case using Cons by (cases ws) (simp_all add: join_Cons)
qed simp

lemma split_absent: "c \<notin> set w \<Longrightarrow> split c w = [w]"
  by (induction w) auto

lemma split_append: "c \<notin> set w \<Longrightarrow> split c (w @ c # s) = w # split c s"
  by (induction w) auto

lemma split_join: "\<forall>w \<in> set ws. c \<notin> set w \<Longrightarrow> ws \<noteq> [] \<Longrightarrow> split c (join [c] ws) = ws"
proof (induction ws)
  case (Cons w ws)
  then show ?case
    by (cases "ws = []") (simp_all add: split_absent split_append join_Cons)
qed simp

lemma partition_absent: "c \<notin> set s \<Longrightarrow> partition c s = (s, False, [])"
proof -
  assume "c \<notin> set s"
  then have "dropWhile (\<lambda>x. x \<noteq> c) s = []" by (induction s) auto
  then show ?thesis unfolding partition_def Let_def by (simp only: list.case)
qed

lemma partition_append: "c \<notin> set s \<Longrightarrow> partition c (s @ c # t) = (s, True, t)"
proof -
  assume "c \<notin> set s"
  then have "takeWhile (\<lambda>x. x \<noteq> c) (s @ c # t) = s" "dropWhile (\<lambda>x. x \<noteq> c) (s @ c # t) = c # t"
    by (induction s) auto
  then show ?thesis by (simp add: partition_def)
qed

text \<open>A pattern anchored as \<open>^...$\<close>, tried with \<open>match\<close>.\<close>

definition re_dollar :: "(str \<Rightarrow> bool) \<Rightarrow> str \<Rightarrow> bool" where
  "re_dollar P s \<longleftrightarrow> P s \<or> (s \<noteq> [] \<and> last s = newline \<and> P (butlast s))"

text \<open>The pattern \<open>[class]{lo,hi}\<close> against a whole string.\<close>

definition class_between :: "(char \<Rightarrow> bool) \<Rightarrow> nat \<Rightarrow> nat \<Rightarrow> str \<Rightarrow> bool" where
  "class_between C lo hi s \<longleftrightarrow> list_all C s \<and> lo \<le> length s \<and> length s \<le> hi"

definition class_plus :: "(char \<Rightarrow> bool) \<Rightarrow> str \<Rightarrow> bool" where
  "class_plus C s \<longleftrightarrow> list_all C s \<and> s \<noteq> []"


text \<open>\<open>s.splitlines()\<close>: every line boundary Python knows, \<open>\r\n\<close> as one.\<close>

definition is_line_end :: "char \<Rightarrow> bool" where
  "is_line_end c \<longleftrightarrow> 10 \<le> ord c \<and> ord c \<le> 13 \<or> 28 \<le> ord c \<and> ord c \<le> 30 \<or> ord c = 133"

fun lines_from :: "str \<Rightarrow> str \<Rightarrow> str list" where
  "lines_from cur [] = (if cur = [] then [] else [rev cur])"
| "lines_from cur [c] = (if is_line_end c then [rev cur] else [rev (c # cur)])"
| "lines_from cur (c # d # s) =
     (if ord c = 13 \<and> ord d = 10 then rev cur # lines_from [] s
      else if is_line_end c then rev cur # lines_from [] (d # s)
      else lines_from (c # cur) (d # s))"

definition splitlines :: "str \<Rightarrow> str list" where
  "splitlines s = lines_from [] s"

text \<open>The suffixes of a text, longest first: where \<open>re.search\<close> looks.\<close>

fun suffixes_of :: "str \<Rightarrow> str list" where
  "suffixes_of [] = [[]]"
| "suffixes_of (c # s) = (c # s) # suffixes_of s"

end
