(* ===== verification/Sql.thy ===== *)
theory Sql
  imports Prelude
begin

text \<open>
  The SQL the program runs, over a table as the list of its rows in insertion order:
  \<open>SELECT\<close> is \<open>filter\<close>, \<open>fetchone\<close> of it \<open>find\<close>; \<open>delete_where\<close>, \<open>update_where\<close>
  and \<open>upsert\<close> are the statements that write. A \<open>PRIMARY KEY\<close> or \<open>UNIQUE\<close>
  constraint is \<open>uniq\<close>, and every table of the schema keeps it. \<open>sql_int\<close> is what
  SQLite's 64-bit INTEGER holds: binding anything else raises in the driver.
\<close>

definition sql_int :: "int \<Rightarrow> bool" where
  "sql_int n \<longleftrightarrow> - (2 ^ 63) \<le> n \<and> n < 2 ^ 63"

definition delete_where :: "('r \<Rightarrow> bool) \<Rightarrow> 'r list \<Rightarrow> 'r list" where
  "delete_where P t = filter (\<lambda>r. \<not> P r) t"

definition update_where :: "('r \<Rightarrow> bool) \<Rightarrow> ('r \<Rightarrow> 'r) \<Rightarrow> 'r list \<Rightarrow> 'r list" where
  "update_where P f t = map (\<lambda>r. if P r then f r else r) t"

text \<open>\<open>cursor.rowcount\<close> of a DELETE or an UPDATE: the rows that matched.\<close>

definition rowcount :: "('r \<Rightarrow> bool) \<Rightarrow> 'r list \<Rightarrow> nat" where
  "rowcount P t = length (filter P t)"

definition lookup_key :: "('r \<Rightarrow> 'k) \<Rightarrow> 'k \<Rightarrow> 'r list \<Rightarrow> 'r option" where
  "lookup_key key k t = find (\<lambda>r. key r = k) t"

definition has_key :: "('r \<Rightarrow> 'k) \<Rightarrow> 'k \<Rightarrow> 'r list \<Rightarrow> bool" where
  "has_key key k t \<longleftrightarrow> list_ex (\<lambda>r. key r = k) t"

text \<open>\<open>INSERT ... ON CONFLICT(key) DO UPDATE SET ...\<close>: \<open>f\<close> is the SET clause.\<close>

definition upsert :: "('r \<Rightarrow> 'k) \<Rightarrow> 'r \<Rightarrow> ('r \<Rightarrow> 'r) \<Rightarrow> 'r list \<Rightarrow> 'r list" where
  "upsert key r f t =
     (if has_key key (key r) t then update_where (\<lambda>x. key x = key r) f t else t @ [r])"

definition uniq :: "('r \<Rightarrow> 'k) \<Rightarrow> 'r list \<Rightarrow> bool" where
  "uniq key t \<longleftrightarrow> distinct (map key t)"

lemma has_key_iff [table_simps]: "has_key key k t \<longleftrightarrow> k \<in> key ` set t"
  by (auto simp: has_key_def list_ex_iff)

lemma has_key_lookup: "has_key key k t \<longleftrightarrow> lookup_key key k t \<noteq> None"
  by (induction t) (auto simp: has_key_def lookup_key_def)

lemma uniq_Nil [simp]: "uniq key []"
  by (simp add: uniq_def)

lemma set_delete_where [simp, table_simps]: "set (delete_where P t) = {r \<in> set t. \<not> P r}"
  by (simp add: delete_where_def)

lemma set_update_where [table_simps]:
  "set (update_where P f t) = {r \<in> set t. \<not> P r} \<union> f ` {r \<in> set t. P r}"
  by (auto simp: update_where_def)

lemma rowcount_0 [simp]: "rowcount P t = 0 \<longleftrightarrow> (\<forall>r \<in> set t. \<not> P r)"
  by (simp add: rowcount_def filter_empty_conv)

lemma uniq_delete_where [intro, simp]: "uniq key t \<Longrightarrow> uniq key (delete_where P t)"
  by (simp add: uniq_def delete_where_def distinct_map_filterI)

lemma uniq_update_where:
  assumes "uniq key t" and "\<And>r. P r \<Longrightarrow> key (f r) = key r"
  shows "uniq key (update_where P f t)"
proof -
  have "map key (update_where P f t) = map key t"
    using assms(2) by (simp add: update_where_def)
  with assms(1) show ?thesis by (simp add: uniq_def)
qed

lemma uniq_append: "uniq key t \<Longrightarrow> \<not> has_key key (key r) t \<Longrightarrow> uniq key (t @ [r])"
  by (auto simp: uniq_def has_key_iff)

lemma uniq_upsert:
  assumes "uniq key t" and "\<And>x. key x = key r \<Longrightarrow> key (f x) = key r"
  shows "uniq key (upsert key r f t)"
  unfolding upsert_def using assms by (auto intro: uniq_append uniq_update_where)

lemma lookup_key_Some: "lookup_key key k t = Some r \<Longrightarrow> r \<in> set t \<and> key r = k"
  by (auto simp: lookup_key_def dest: find_Some_in)

lemma lookup_key_None: "lookup_key key k t = None \<longleftrightarrow> k \<notin> key ` set t"
  by (auto simp: lookup_key_def find_None_iff)

lemma lookup_key_in: "uniq key t \<Longrightarrow> r \<in> set t \<Longrightarrow> lookup_key key (key r) t = Some r"
  by (simp add: lookup_key_def uniq_def find_unique_key)

lemma uniq_eq: "uniq key t \<Longrightarrow> r \<in> set t \<Longrightarrow> r' \<in> set t \<Longrightarrow> key r = key r' \<Longrightarrow> r = r'"
  by (metis lookup_key_in option.inject)

lemma lookup_key_delete_where:
  assumes "\<And>r. r \<in> set t \<Longrightarrow> key r = k \<Longrightarrow> P r \<longleftrightarrow> b"
  shows "lookup_key key k (delete_where P t) = (if b then None else lookup_key key k t)"
  using assms by (induction t) (auto simp: lookup_key_def delete_where_def)

lemma lookup_key_update_where:
  assumes "\<And>r. key (f r) = key r"
  shows "lookup_key key k (update_where P f t) =
     map_option (\<lambda>r. if P r then f r else r) (lookup_key key k t)"
  using assms by (induction t) (auto simp: lookup_key_def update_where_def)

lemma lookup_key_append:
  "lookup_key key k (t @ [r]) =
     (case lookup_key key k t of None \<Rightarrow> if key r = k then Some r else None | Some x \<Rightarrow> Some x)"
  by (auto simp: lookup_key_def find_append split: option.splits)

lemma lookup_key_upsert_same:
  assumes "\<And>x. key x = key r \<Longrightarrow> key (f x) = key r"
  shows "lookup_key key (key r) (upsert key r f t) =
     Some (case lookup_key key (key r) t of None \<Rightarrow> r | Some x \<Rightarrow> f x)"
proof (cases "has_key key (key r) t")
  case True
  then have "lookup_key key (key r) (update_where (\<lambda>x. key x = key r) f t) =
      map_option f (lookup_key key (key r) t)"
    using assms by (induction t) (auto simp: lookup_key_def update_where_def has_key_def)
  with True show ?thesis
    by (auto simp: upsert_def has_key_lookup split: option.split)
next
  case False
  then show ?thesis
    by (simp add: upsert_def lookup_key_append has_key_lookup split: option.split)
qed

lemma lookup_key_upsert_other:
  assumes "\<And>x. key x = key r \<Longrightarrow> key (f x) = key r" and "k \<noteq> key r"
  shows "lookup_key key k (upsert key r f t) = lookup_key key k t"
proof (cases "has_key key (key r) t")
  case True
  have "lookup_key key k (update_where (\<lambda>x. key x = key r) f t) = lookup_key key k t"
    using assms by (induction t) (auto simp: lookup_key_def update_where_def)
  with True show ?thesis by (simp add: upsert_def)
next
  case False
  with assms(2) show ?thesis
    by (simp add: upsert_def lookup_key_append split: option.split)
qed

text \<open>
  A statement leaves alone the rows it does not match. \<open>Q\<close> is what the other rows are
  read by (another user's, another collection's).
\<close>

lemma filter_delete_where [frame_simps]:
  "(\<And>r. Q r \<Longrightarrow> \<not> P r) \<Longrightarrow> filter Q (delete_where P t) = filter Q t"
  unfolding delete_where_def by (induction t) auto

lemma filter_update_where [frame_simps]:
  "(\<And>r. P r \<Longrightarrow> \<not> Q r \<and> \<not> Q (f r)) \<Longrightarrow> filter Q (update_where P f t) = filter Q t"
  unfolding update_where_def by (induction t) auto

lemma filter_upsert [frame_simps]:
  assumes "\<And>x. key x = key r \<Longrightarrow> \<not> Q x" and "\<And>x. key x = key r \<Longrightarrow> key (f x) = key r"
  shows "filter Q (upsert key r f t) = filter Q t"
  using assms by (simp add: upsert_def filter_update_where)

lemma set_upsert_sub: "set (upsert key r f t) \<subseteq> insert r (set t \<union> f ` set t)"
  by (auto simp: upsert_def set_update_where)

lemma keys_upsert:
  assumes "\<And>x. key x = key r \<Longrightarrow> key (f x) = key r"
  shows "key ` set (upsert key r f t) = insert (key r) (key ` set t)"
proof (cases "has_key key (key r) t")
  case True
  have "map key (update_where (\<lambda>x. key x = key r) f t) = map key t"
    using assms by (simp add: update_where_def)
  then have "key ` set (update_where (\<lambda>x. key x = key r) f t) = key ` set t"
    by (metis set_map)
  with True show ?thesis by (auto simp: upsert_def has_key_iff)
next
  case False
  then show ?thesis by (auto simp: upsert_def)
qed

subsection \<open>The contract of an upsert statement run over a list of commands\<close>

text \<open>
  A loop such as \<open>for bso in bsos: connection.execute(upsert, ...)\<close> runs one statement
  per command: \<open>row c\<close> are the VALUES of command \<open>c\<close>, \<open>change c\<close> its SET clause. The
  only law the provider owes is that the SET clause does not touch the key.
\<close>

locale upsert_statement =
  fixes key :: "'r \<Rightarrow> 'k"
    and row :: "'c \<Rightarrow> 'r"
    and change :: "'c \<Rightarrow> 'r \<Rightarrow> 'r"
  assumes change_key: "key (change c r) = key r"
begin

lemma exec_uniq: "uniq key t \<Longrightarrow> uniq key (upsert key (row c) (change c) t)"
  by (rule uniq_upsert) (simp_all add: change_key)

lemma exec_same:
  "lookup_key key (key (row c)) (upsert key (row c) (change c) t) =
     Some (case lookup_key key (key (row c)) t of None \<Rightarrow> row c | Some x \<Rightarrow> change c x)"
  by (rule lookup_key_upsert_same) (simp add: change_key)

lemma exec_other:
  "k \<noteq> key (row c) \<Longrightarrow>
     lookup_key key k (upsert key (row c) (change c) t) = lookup_key key k t"
  by (rule lookup_key_upsert_other) (simp_all add: change_key)

lemma exec_keys: "key ` set (upsert key (row c) (change c) t) = insert (key (row c)) (key ` set t)"
  by (rule keys_upsert) (simp add: change_key)

lemma exec_frame:
  "(\<And>x. key x = key (row c) \<Longrightarrow> \<not> Q x) \<Longrightarrow>
     filter Q (upsert key (row c) (change c) t) = filter Q t"
  by (rule filter_upsert) (simp_all add: change_key)

lemma execs_uniq: "uniq key t \<Longrightarrow> uniq key (fold (\<lambda>c. upsert key (row c) (change c)) cs t)"
  by (induction cs arbitrary: t) (simp_all add: exec_uniq)

lemma execs_other:
  "(\<And>c. c \<in> set cs \<Longrightarrow> key (row c) \<noteq> k) \<Longrightarrow>
     lookup_key key k (fold (\<lambda>c. upsert key (row c) (change c)) cs t) = lookup_key key k t"
  by (induction cs arbitrary: t) (fastforce simp: exec_other)+

lemma execs_once:
  assumes "c \<in> set cs" and "distinct (map (key \<circ> row) cs)"
  shows "lookup_key key (key (row c)) (fold (\<lambda>c. upsert key (row c) (change c)) cs t) =
     Some (case lookup_key key (key (row c)) t of None \<Rightarrow> row c | Some x \<Rightarrow> change c x)"
  using assms
proof (induction cs arbitrary: t)
  case Nil
  then show ?case by simp
next
  case (Cons d ds)
  show ?case
  proof (cases "c = d")
    case True
    with Cons.prems(2) have "\<And>e. e \<in> set ds \<Longrightarrow> key (row e) \<noteq> key (row c)"
      by (auto simp: image_iff)
    then have "lookup_key key (key (row c)) (fold (\<lambda>c. upsert key (row c) (change c)) ds
        (upsert key (row c) (change c) t)) =
        lookup_key key (key (row c)) (upsert key (row c) (change c) t)"
      by (rule execs_other)
    then show ?thesis by (simp add: True [symmetric] exec_same)
  next
    case False
    with Cons.prems(1) have c: "c \<in> set ds" by simp
    then have "(key \<circ> row) c \<in> set (map (key \<circ> row) ds)" by (metis image_eqI list.set_map)
    with Cons.prems(2) have "key (row c) \<noteq> key (row d)" by auto
    with c Cons.prems(2) show ?thesis by (simp add: Cons.IH exec_other)
  qed
qed

lemma execs_frame:
  "(\<And>c x. c \<in> set cs \<Longrightarrow> key x = key (row c) \<Longrightarrow> \<not> Q x) \<Longrightarrow>
     filter Q (fold (\<lambda>c. upsert key (row c) (change c)) cs t) = filter Q t"
proof (induction cs arbitrary: t)
  case Nil
  then show ?case by simp
next
  case (Cons d ds)
  have "filter Q (upsert key (row d) (change d) t) = filter Q t"
    by (rule exec_frame) (metis Cons.prems list.set_intros(1))
  moreover have "\<And>c x. c \<in> set ds \<Longrightarrow> key x = key (row c) \<Longrightarrow> \<not> Q x"
    by (metis Cons.prems list.set_intros(2))
  ultimately show ?case using Cons.IH by simp
qed

lemma execs_all:
  assumes "\<forall>r \<in> set t. P r" and "\<And>c. c \<in> set cs \<Longrightarrow> P (row c)"
    and "\<And>c r. c \<in> set cs \<Longrightarrow> key r = key (row c) \<Longrightarrow> P r \<Longrightarrow> P (change c r)"
  shows "\<forall>r \<in> set (fold (\<lambda>c. upsert key (row c) (change c)) cs t). P r"
  using assms
proof (induction cs arbitrary: t)
  case Nil
  then show ?case by simp
next
  case (Cons d ds)
  have "\<forall>r \<in> set (upsert key (row d) (change d) t). P r"
    using Cons.prems by (auto simp: upsert_def set_update_where)
  with Cons show ?case by simp
qed

end

end
