(* ===== verification/Db.thy ===== *)
theory Db
  imports PyStr Sql
begin

text \<open>
  The schema of \<open>db.py\<close> and the statements the class \<open>Database\<close> runs: a record per
  table row, the whole database as one record \<open>database\<close>, one definition per method.
  A constraint a statement violates is \<open>IntegrityError\<close>; a row a statement removes
  takes with it what the foreign keys declare \<open>ON DELETE CASCADE\<close>. \<open>wf_db\<close> is what
  the schema promises, and every statement keeps it.
\<close>

subsection \<open>Rows\<close>

record account =
  acc_uid :: str
  acc_email :: str
  acc_normalized_email :: str
  acc_email_code :: str
  acc_ka :: str
  acc_wrap_wrap_kb :: str
  acc_auth_salt :: str
  acc_verify_hash :: str
  acc_verifier_version :: int
  acc_verifier_set_at :: int
  acc_created_at :: int
  acc_keys_changed_at :: int
  acc_profile_changed_at :: int
  acc_locale :: "str option"

record session_token =
  st_token_id :: str
  st_uid :: str
  st_auth_key :: str
  st_created_at :: int
  st_auth_at :: int
  st_last_access_time :: int
  st_user_agent :: str

record key_fetch_token =
  kf_token_id :: str
  kf_uid :: str
  kf_auth_key :: str
  kf_key_bundle :: str
  kf_created_at :: int

record oauth_code =
  oc_code :: str
  oc_uid :: str
  oc_client_id :: str
  oc_scope :: str
  oc_created_at :: int
  oc_auth_at :: int
  oc_code_challenge :: "str option"
  oc_code_challenge_method :: "str option"
  oc_keys_jwe :: "str option"
  oc_session_token_id :: "str option"
  oc_offline :: bool

record refresh_token =
  rt_token_id :: str
  rt_uid :: str
  rt_client_id :: str
  rt_scope :: str
  rt_created_at :: int
  rt_last_used_at :: int

record sync_user =
  su_uid :: int
  su_fxa_uid :: str
  su_client_state :: str
  su_generation :: int
  su_keys_changed_at :: "int option"
  su_created_at :: int
  su_replaced_at :: "int option"

text \<open>
  \<open>available_commands\<close> is a JSON object of strings, written with \<open>json.dumps\<close> and read
  back with \<open>json.loads\<close>: here the object itself, as its list of members.
\<close>

record device =
  dv_id :: str
  dv_uid :: str
  dv_session_token_id :: "str option"
  dv_refresh_token_id :: "str option"
  dv_name :: str
  dv_type :: str
  dv_created_at :: int
  dv_push_callback :: str
  dv_push_public_key :: str
  dv_push_auth_key :: str
  dv_push_endpoint_expired :: bool
  dv_available_commands :: "(str \<times> str) list"

record user_collection =
  uc_uid :: int
  uc_collection_id :: int
  uc_modified :: int

record bso_row =
  br_uid :: int
  br_collection_id :: int
  br_id :: str
  br_sortindex :: "int option"
  br_payload :: str
  br_modified :: int
  br_expiry :: int

record batch_row =
  ba_uid :: int
  ba_batch_id :: int
  ba_collection_id :: int

record batch_item =
  bi_uid :: int
  bi_batch_id :: int
  bi_id :: str
  bi_sortindex :: "int option"
  bi_payload :: "str option"
  bi_ttl_offset :: "int option"

text \<open>\<open>sync_collections\<close> rows are \<open>(id, name)\<close>; a \<open>_seq\<close> is the AUTOINCREMENT counter.\<close>

record database =
  db_accounts :: "account list"
  db_session_tokens :: "session_token list"
  db_key_fetch_tokens :: "key_fetch_token list"
  db_devices :: "device list"
  db_oauth_codes :: "oauth_code list"
  db_refresh_tokens :: "refresh_token list"
  db_sync_users :: "sync_user list"
  db_sync_users_seq :: int
  db_collections :: "(int \<times> str) list"
  db_collections_seq :: int
  db_user_collections :: "user_collection list"
  db_bso :: "bso_row list"
  db_batches :: "batch_row list"
  db_batch_items :: "batch_item list"

text \<open>The migrations run on an empty file: collection 0, with the empty name, is seeded.\<close>

definition empty_database :: database where
  "empty_database =
     \<lparr>db_accounts = [], db_session_tokens = [], db_key_fetch_tokens = [], db_devices = [],
      db_oauth_codes = [], db_refresh_tokens = [], db_sync_users = [], db_sync_users_seq = 0,
      db_collections = [(0, [])], db_collections_seq = 0, db_user_collections = [],
      db_bso = [], db_batches = [], db_batch_items = []\<rparr>"

subsection \<open>Keys\<close>

definition uc_key :: "user_collection \<Rightarrow> int \<times> int" where
  "uc_key r = (uc_uid r, uc_collection_id r)"

definition br_key :: "bso_row \<Rightarrow> int \<times> int \<times> str" where
  "br_key r = (br_uid r, br_collection_id r, br_id r)"

definition ba_key :: "batch_row \<Rightarrow> int \<times> int" where
  "ba_key r = (ba_uid r, ba_batch_id r)"

definition bi_key :: "batch_item \<Rightarrow> int \<times> int \<times> str" where
  "bi_key r = (bi_uid r, bi_batch_id r, bi_id r)"

definition bi_batch :: "batch_item \<Rightarrow> int \<times> int" where
  "bi_batch r = (bi_uid r, bi_batch_id r)"

lemmas key_defs = uc_key_def br_key_def ba_key_def bi_key_def bi_batch_def

datatype db_error = IntegrityError | OverflowError

subsection \<open>What the schema promises\<close>

text \<open>A foreign key: the child's column names a row of the parent.\<close>

definition refs :: "('c \<Rightarrow> 'k) \<Rightarrow> 'c list \<Rightarrow> ('p \<Rightarrow> 'k) \<Rightarrow> 'p list \<Rightarrow> bool" where
  "refs ck child pk parent \<longleftrightarrow> (\<forall>c \<in> set child. ck c \<in> pk ` set parent)"

text \<open>A nullable foreign key, and a partial unique index (NULLs do not count).\<close>

definition refs_opt :: "('c \<Rightarrow> 'k option) \<Rightarrow> 'c list \<Rightarrow> ('p \<Rightarrow> 'k) \<Rightarrow> 'p list \<Rightarrow> bool" where
  "refs_opt ck child pk parent \<longleftrightarrow>
     (\<forall>c \<in> set child. \<forall>k. ck c = Some k \<longrightarrow> k \<in> pk ` set parent)"

definition uniq_opt :: "('r \<Rightarrow> 'k option) \<Rightarrow> 'r list \<Rightarrow> bool" where
  "uniq_opt key t \<longleftrightarrow> uniq key (filter (\<lambda>r. key r \<noteq> None) t)"

definition wf_keys :: "database \<Rightarrow> bool" where
  "wf_keys db \<longleftrightarrow>
     uniq acc_uid (db_accounts db) \<and> uniq acc_normalized_email (db_accounts db) \<and>
     uniq st_token_id (db_session_tokens db) \<and> uniq kf_token_id (db_key_fetch_tokens db) \<and>
     uniq dv_id (db_devices db) \<and> uniq_opt dv_session_token_id (db_devices db) \<and>
     uniq_opt dv_refresh_token_id (db_devices db) \<and>
     uniq oc_code (db_oauth_codes db) \<and> uniq rt_token_id (db_refresh_tokens db) \<and>
     uniq su_uid (db_sync_users db) \<and> uniq fst (db_collections db) \<and>
     uniq snd (db_collections db) \<and> uniq uc_key (db_user_collections db) \<and>
     uniq br_key (db_bso db) \<and> uniq ba_key (db_batches db) \<and> uniq bi_key (db_batch_items db)"

definition wf_refs :: "database \<Rightarrow> bool" where
  "wf_refs db \<longleftrightarrow>
     refs st_uid (db_session_tokens db) acc_uid (db_accounts db) \<and>
     refs kf_uid (db_key_fetch_tokens db) acc_uid (db_accounts db) \<and>
     refs dv_uid (db_devices db) acc_uid (db_accounts db) \<and>
     refs_opt dv_session_token_id (db_devices db) st_token_id (db_session_tokens db) \<and>
     refs oc_uid (db_oauth_codes db) acc_uid (db_accounts db) \<and>
     refs rt_uid (db_refresh_tokens db) acc_uid (db_accounts db) \<and>
     refs su_fxa_uid (db_sync_users db) acc_uid (db_accounts db) \<and>
     refs uc_uid (db_user_collections db) su_uid (db_sync_users db) \<and>
     refs uc_collection_id (db_user_collections db) fst (db_collections db) \<and>
     refs br_uid (db_bso db) su_uid (db_sync_users db) \<and>
     refs br_collection_id (db_bso db) fst (db_collections db) \<and>
     refs ba_uid (db_batches db) su_uid (db_sync_users db) \<and>
     refs ba_collection_id (db_batches db) fst (db_collections db) \<and>
     refs bi_batch (db_batch_items db) ba_key (db_batches db)"

definition wf_seq :: "database \<Rightarrow> bool" where
  "wf_seq db \<longleftrightarrow>
     (0, []) \<in> set (db_collections db) \<and>
     (\<forall>u \<in> set (db_sync_users db). su_uid u \<le> db_sync_users_seq db) \<and>
     (\<forall>c \<in> set (db_collections db). 0 \<le> fst c \<and> fst c \<le> db_collections_seq db)"

definition wf_db :: "database \<Rightarrow> bool" where
  "wf_db db \<longleftrightarrow> wf_keys db \<and> wf_refs db \<and> wf_seq db"

subsection \<open>Accounts and session tokens\<close>

definition normalize_email :: "str \<Rightarrow> str" where
  "normalize_email email = lower (strip email)"

definition create_account :: "account \<Rightarrow> database \<Rightarrow> database option" where
  "create_account a db =
     (if has_key acc_uid (acc_uid a) (db_accounts db) \<or>
         has_key acc_normalized_email (acc_normalized_email a) (db_accounts db)
      then None
      else Some (db\<lparr>db_accounts := db_accounts db @ [a]\<rparr>))"

definition get_account :: "str \<Rightarrow> database \<Rightarrow> account option" where
  "get_account uid db = lookup_key acc_uid uid (db_accounts db)"

definition account_by_email :: "str \<Rightarrow> database \<Rightarrow> account option" where
  "account_by_email email db =
     lookup_key acc_normalized_email (normalize_email email) (db_accounts db)"

definition accounts :: "database \<Rightarrow> account list" where
  "accounts db = sort_key acc_created_at (db_accounts db)"

text \<open>
  The cascades, parents first: an account's tokens, codes, devices and Sync users go with
  it, a session token's device, and a Sync user's collections, records and batches.
\<close>

definition cascade_sync_users :: "int set \<Rightarrow> database \<Rightarrow> database" where
  "cascade_sync_users uids db =
     db\<lparr>db_sync_users := delete_where (\<lambda>r. su_uid r \<in> uids) (db_sync_users db),
        db_user_collections := delete_where (\<lambda>r. uc_uid r \<in> uids) (db_user_collections db),
        db_bso := delete_where (\<lambda>r. br_uid r \<in> uids) (db_bso db),
        db_batches := delete_where (\<lambda>r. ba_uid r \<in> uids) (db_batches db),
        db_batch_items := delete_where (\<lambda>r. bi_uid r \<in> uids) (db_batch_items db)\<rparr>"

definition cascade_session_tokens :: "str set \<Rightarrow> database \<Rightarrow> database" where
  "cascade_session_tokens ids db =
     db\<lparr>db_session_tokens := delete_where (\<lambda>r. st_token_id r \<in> ids) (db_session_tokens db),
        db_devices :=
          delete_where (\<lambda>r. case dv_session_token_id r of None \<Rightarrow> False | Some i \<Rightarrow> i \<in> ids)
            (db_devices db)\<rparr>"

definition delete_account :: "str \<Rightarrow> database \<Rightarrow> bool \<times> database" where
  "delete_account uid db =
     (let db1 = cascade_sync_users
            (su_uid ` set (filter (\<lambda>r. su_fxa_uid r = uid) (db_sync_users db))) db;
          db2 = cascade_session_tokens
            (st_token_id ` set (filter (\<lambda>r. st_uid r = uid) (db_session_tokens db1))) db1
      in (0 < rowcount (\<lambda>r. acc_uid r = uid) (db_accounts db),
          db2\<lparr>db_accounts := delete_where (\<lambda>r. acc_uid r = uid) (db_accounts db2),
              db_key_fetch_tokens :=
                delete_where (\<lambda>r. kf_uid r = uid) (db_key_fetch_tokens db2),
              db_devices := delete_where (\<lambda>r. dv_uid r = uid) (db_devices db2),
              db_oauth_codes := delete_where (\<lambda>r. oc_uid r = uid) (db_oauth_codes db2),
              db_refresh_tokens :=
                delete_where (\<lambda>r. rt_uid r = uid) (db_refresh_tokens db2)\<rparr>))"

definition touch_profile :: "str \<Rightarrow> int \<Rightarrow> database \<Rightarrow> database" where
  "touch_profile uid moment db =
     db\<lparr>db_accounts := update_where (\<lambda>r. acc_uid r = uid)
          (\<lambda>r. r\<lparr>acc_profile_changed_at := moment\<rparr>) (db_accounts db)\<rparr>"

definition has_account :: "str \<Rightarrow> database \<Rightarrow> bool" where
  "has_account uid db = has_key acc_uid uid (db_accounts db)"

definition create_session_token :: "session_token \<Rightarrow> database \<Rightarrow> db_error + database" where
  "create_session_token tok db =
     (if has_account (st_uid tok) db \<and>
         \<not> has_key st_token_id (st_token_id tok) (db_session_tokens db)
      then Inr (db\<lparr>db_session_tokens := db_session_tokens db @ [tok]\<rparr>)
      else Inl IntegrityError)"

definition get_session_token :: "str \<Rightarrow> database \<Rightarrow> session_token option" where
  "get_session_token token_id db = lookup_key st_token_id token_id (db_session_tokens db)"

definition session_tokens :: "str \<Rightarrow> database \<Rightarrow> session_token list" where
  "session_tokens uid db =
     sort_key st_created_at (filter (\<lambda>r. st_uid r = uid) (db_session_tokens db))"

definition touch_session_token :: "str \<Rightarrow> int \<Rightarrow> database \<Rightarrow> database" where
  "touch_session_token token_id moment db =
     db\<lparr>db_session_tokens := update_where (\<lambda>r. st_token_id r = token_id)
          (\<lambda>r. r\<lparr>st_last_access_time := moment\<rparr>) (db_session_tokens db)\<rparr>"

definition reauthenticate_session_token :: "str \<Rightarrow> int \<Rightarrow> database \<Rightarrow> database" where
  "reauthenticate_session_token token_id moment db =
     db\<lparr>db_session_tokens := update_where (\<lambda>r. st_token_id r = token_id)
          (\<lambda>r. r\<lparr>st_auth_at := moment, st_last_access_time := moment\<rparr>) (db_session_tokens db)\<rparr>"

definition delete_session_token :: "str \<Rightarrow> database \<Rightarrow> bool \<times> database" where
  "delete_session_token token_id db =
     (0 < rowcount (\<lambda>r. st_token_id r = token_id) (db_session_tokens db),
      cascade_session_tokens {token_id} db)"

definition last_auth_at :: "session_token \<Rightarrow> int" where
  "last_auth_at tok = (if st_auth_at tok \<noteq> 0 then st_auth_at tok else st_created_at tok) div 1000"

subsection \<open>Key fetch tokens, authorization codes, refresh tokens\<close>

definition create_key_fetch_token :: "key_fetch_token \<Rightarrow> database \<Rightarrow> db_error + database" where
  "create_key_fetch_token tok db =
     (if has_account (kf_uid tok) db \<and>
         \<not> has_key kf_token_id (kf_token_id tok) (db_key_fetch_tokens db)
      then Inr (db\<lparr>db_key_fetch_tokens := db_key_fetch_tokens db @ [tok]\<rparr>)
      else Inl IntegrityError)"

definition get_key_fetch_token :: "str \<Rightarrow> database \<Rightarrow> key_fetch_token option" where
  "get_key_fetch_token token_id db = lookup_key kf_token_id token_id (db_key_fetch_tokens db)"

definition delete_key_fetch_token :: "str \<Rightarrow> database \<Rightarrow> bool \<times> database" where
  "delete_key_fetch_token token_id db =
     (0 < rowcount (\<lambda>r. kf_token_id r = token_id) (db_key_fetch_tokens db),
      db\<lparr>db_key_fetch_tokens :=
         delete_where (\<lambda>r. kf_token_id r = token_id) (db_key_fetch_tokens db)\<rparr>)"

definition create_oauth_code :: "oauth_code \<Rightarrow> database \<Rightarrow> db_error + database" where
  "create_oauth_code c db =
     (if has_account (oc_uid c) db \<and> \<not> has_key oc_code (oc_code c) (db_oauth_codes db)
      then Inr (db\<lparr>db_oauth_codes := db_oauth_codes db @ [c]\<rparr>)
      else Inl IntegrityError)"

definition get_oauth_code :: "str \<Rightarrow> database \<Rightarrow> oauth_code option" where
  "get_oauth_code code_id db = lookup_key oc_code code_id (db_oauth_codes db)"

definition delete_oauth_code :: "str \<Rightarrow> database \<Rightarrow> bool \<times> database" where
  "delete_oauth_code code_id db =
     (0 < rowcount (\<lambda>r. oc_code r = code_id) (db_oauth_codes db),
      db\<lparr>db_oauth_codes := delete_where (\<lambda>r. oc_code r = code_id) (db_oauth_codes db)\<rparr>)"

definition delete_expired_oauth_codes :: "int \<Rightarrow> database \<Rightarrow> nat \<times> database" where
  "delete_expired_oauth_codes before db =
     (rowcount (\<lambda>r. oc_created_at r < before) (db_oauth_codes db),
      db\<lparr>db_oauth_codes := delete_where (\<lambda>r. oc_created_at r < before) (db_oauth_codes db)\<rparr>)"

definition create_refresh_token :: "refresh_token \<Rightarrow> database \<Rightarrow> db_error + database" where
  "create_refresh_token tok db =
     (if has_account (rt_uid tok) db \<and>
         \<not> has_key rt_token_id (rt_token_id tok) (db_refresh_tokens db)
      then Inr (db\<lparr>db_refresh_tokens := db_refresh_tokens db @ [tok]\<rparr>)
      else Inl IntegrityError)"

definition get_refresh_token :: "str \<Rightarrow> database \<Rightarrow> refresh_token option" where
  "get_refresh_token token_id db = lookup_key rt_token_id token_id (db_refresh_tokens db)"

definition refresh_tokens :: "str \<Rightarrow> database \<Rightarrow> refresh_token list" where
  "refresh_tokens uid db =
     sort_key rt_created_at (filter (\<lambda>r. rt_uid r = uid) (db_refresh_tokens db))"

definition touch_refresh_token :: "str \<Rightarrow> int \<Rightarrow> database \<Rightarrow> database" where
  "touch_refresh_token token_id moment db =
     db\<lparr>db_refresh_tokens := update_where (\<lambda>r. rt_token_id r = token_id)
          (\<lambda>r. r\<lparr>rt_last_used_at := moment\<rparr>) (db_refresh_tokens db)\<rparr>"

definition delete_refresh_token :: "str \<Rightarrow> database \<Rightarrow> bool \<times> database" where
  "delete_refresh_token token_id db =
     (0 < rowcount (\<lambda>r. rt_token_id r = token_id) (db_refresh_tokens db),
      db\<lparr>db_refresh_tokens :=
         delete_where (\<lambda>r. rt_token_id r = token_id) (db_refresh_tokens db)\<rparr>)"

subsection \<open>Sync users\<close>

text \<open>\<open>ORDER BY generation DESC, created_at DESC, uid DESC\<close>: the greatest first.\<close>

definition sync_users :: "str \<Rightarrow> database \<Rightarrow> sync_user list" where
  "sync_users fxa_uid db =
     rev (sort_key (\<lambda>r. [su_generation r, su_created_at r, su_uid r])
       (filter (\<lambda>r. su_fxa_uid r = fxa_uid) (db_sync_users db)))"

definition get_sync_user :: "int \<Rightarrow> database \<Rightarrow> sync_user option" where
  "get_sync_user uid db = lookup_key su_uid uid (db_sync_users db)"

definition create_sync_user ::
  "str \<Rightarrow> str \<Rightarrow> int \<Rightarrow> int option \<Rightarrow> int \<Rightarrow> database \<Rightarrow> db_error + (sync_user \<times> database)" where
  "create_sync_user fxa_uid client_state generation keys_changed_at created_at db =
     (if has_account fxa_uid db then
        (let uid = db_sync_users_seq db + 1;
             u = \<lparr>su_uid = uid, su_fxa_uid = fxa_uid, su_client_state = client_state,
                  su_generation = generation, su_keys_changed_at = keys_changed_at,
                  su_created_at = created_at, su_replaced_at = None\<rparr>
         in Inr (u, db\<lparr>db_sync_users := db_sync_users db @ [u], db_sync_users_seq := uid\<rparr>))
      else Inl IntegrityError)"

definition update_sync_user :: "int \<Rightarrow> int \<Rightarrow> int option \<Rightarrow> database \<Rightarrow> database" where
  "update_sync_user uid generation keys_changed_at db =
     db\<lparr>db_sync_users := update_where (\<lambda>r. su_uid r = uid)
          (\<lambda>r. r\<lparr>su_generation := generation, su_keys_changed_at := keys_changed_at\<rparr>)
          (db_sync_users db)\<rparr>"

definition replace_sync_user :: "int \<Rightarrow> int \<Rightarrow> database \<Rightarrow> database" where
  "replace_sync_user uid replaced_at db =
     db\<lparr>db_sync_users := update_where (\<lambda>r. su_uid r = uid \<and> su_replaced_at r = None)
          (\<lambda>r. r\<lparr>su_replaced_at := Some replaced_at\<rparr>) (db_sync_users db)\<rparr>"

definition replace_other_sync_users ::
  "str \<Rightarrow> int \<Rightarrow> int \<Rightarrow> database \<Rightarrow> nat \<times> database" where
  "replace_other_sync_users fxa_uid keep replaced_at db =
     (let stale = (\<lambda>r. su_fxa_uid r = fxa_uid \<and> su_uid r \<noteq> keep \<and> su_replaced_at r = None)
      in (rowcount stale (db_sync_users db),
          db\<lparr>db_sync_users := update_where stale
               (\<lambda>r. r\<lparr>su_replaced_at := Some replaced_at\<rparr>) (db_sync_users db)\<rparr>))"

subsection \<open>Devices\<close>

text \<open>
  \<open>INSERT ... ON CONFLICT(id) DO UPDATE\<close>: an existing row keeps its \<open>uid\<close> and
  \<open>created_at\<close>. The two partial unique indexes and the session token's foreign key
  hold for the row as it will be.
\<close>

definition device_change :: "device \<Rightarrow> device \<Rightarrow> device" where
  "device_change d x =
     x\<lparr>dv_session_token_id := dv_session_token_id d, dv_refresh_token_id := dv_refresh_token_id d,
       dv_name := dv_name d, dv_type := dv_type d, dv_push_callback := dv_push_callback d,
       dv_push_public_key := dv_push_public_key d, dv_push_auth_key := dv_push_auth_key d,
       dv_push_endpoint_expired := dv_push_endpoint_expired d,
       dv_available_commands := dv_available_commands d\<rparr>"

definition clashes :: "(device \<Rightarrow> str option) \<Rightarrow> device \<Rightarrow> device list \<Rightarrow> bool" where
  "clashes col d t \<longleftrightarrow>
     (\<exists>x \<in> set t. dv_id x \<noteq> dv_id d \<and> col d \<noteq> None \<and> col x = col d)"

definition upsert_device :: "device \<Rightarrow> database \<Rightarrow> db_error + database" where
  "upsert_device d db =
     (if clashes dv_session_token_id d (db_devices db) \<or>
         clashes dv_refresh_token_id d (db_devices db) \<or>
         \<not> (has_account (dv_uid d) db \<or> has_key dv_id (dv_id d) (db_devices db)) \<or>
         (case dv_session_token_id d of
            None \<Rightarrow> False
          | Some i \<Rightarrow> \<not> has_key st_token_id i (db_session_tokens db))
      then Inl IntegrityError
      else Inr (db\<lparr>db_devices := upsert dv_id d (device_change d) (db_devices db)\<rparr>))"

definition get_device :: "str \<Rightarrow> str \<Rightarrow> database \<Rightarrow> device option" where
  "get_device uid device_id db =
     find (\<lambda>r. dv_uid r = uid \<and> dv_id r = device_id) (db_devices db)"

definition device_by_session_token :: "str \<Rightarrow> database \<Rightarrow> device option" where
  "device_by_session_token token_id db =
     find (\<lambda>r. dv_session_token_id r = Some token_id) (db_devices db)"

definition device_by_refresh_token :: "str \<Rightarrow> database \<Rightarrow> device option" where
  "device_by_refresh_token token_id db =
     find (\<lambda>r. dv_refresh_token_id r = Some token_id) (db_devices db)"

definition devices :: "str \<Rightarrow> database \<Rightarrow> device list" where
  "devices uid db = sort_key dv_created_at (filter (\<lambda>r. dv_uid r = uid) (db_devices db))"

definition truthy :: "str option \<Rightarrow> bool" where
  "truthy s \<longleftrightarrow> s \<noteq> None \<and> s \<noteq> Some []"

definition delete_device :: "str \<Rightarrow> str \<Rightarrow> database \<Rightarrow> device option \<times> database" where
  "delete_device uid device_id db =
     (case get_device uid device_id db of
        None \<Rightarrow> (None, db)
      | Some d \<Rightarrow>
          (let db1 = db\<lparr>db_devices :=
                 delete_where (\<lambda>r. dv_uid r = uid \<and> dv_id r = device_id) (db_devices db)\<rparr>;
               db2 = (if truthy (dv_session_token_id d)
                      then snd (delete_session_token (the (dv_session_token_id d)) db1) else db1);
               db3 = (if truthy (dv_refresh_token_id d)
                      then snd (delete_refresh_token (the (dv_refresh_token_id d)) db2) else db2)
           in (Some d, db3)))"

end
