(* ===== verification/PyInt.thy ===== *)
theory PyInt
  imports PyStr
begin

text \<open>
  Python's \<open>int(s)\<close> and \<open>str(n)\<close>. \<open>int\<close> of a string is \<open>None\<close> where Python raises
  \<open>ValueError\<close>. The lemmas at the end are the two facts the protocol's round trips
  rest on: printing a number and reading it back gives the number, and a printed
  number is a non-empty run of digits after an optional minus sign.
\<close>

definition digit_val :: "char \<Rightarrow> int" where
  "digit_val c = int (ord c) - 48"

definition digit_char :: "nat \<Rightarrow> char" where
  "digit_char d = char_of (48 + d)"

subsection \<open>Printing\<close>

fun show_nat :: "nat \<Rightarrow> str" where
  "show_nat n = (if n < 10 then [digit_char n] else show_nat (n div 10) @ [digit_char (n mod 10)])"

declare show_nat.simps [simp del]

definition show_int :: "int \<Rightarrow> str" where
  "show_int n = (if n < 0 then CHR ''-'' # show_nat (nat (- n)) else show_nat (nat n))"

subsection \<open>Reading\<close>

text \<open>The digits after the first one; an underscore must have a digit on its right.\<close>

fun digit_run :: "int \<Rightarrow> str \<Rightarrow> int option" where
  "digit_run acc [] = Some acc"
| "digit_run acc (c # cs) =
     (if is_digit c then digit_run (10 * acc + digit_val c) cs
      else if c = CHR ''_'' then
        (case cs of [] \<Rightarrow> None
         | d # ds \<Rightarrow> if is_digit d then digit_run (10 * acc + digit_val d) ds else None)
      else None)"

definition unsigned_int :: "str \<Rightarrow> int option" where
  "unsigned_int s =
     (case s of [] \<Rightarrow> None
      | c # cs \<Rightarrow> if is_digit c then digit_run (digit_val c) cs else None)"

definition max_str_digits :: nat where
  "max_str_digits = 4300"

definition py_int :: "str \<Rightarrow> int option" where
  "py_int raw =
     (let s = strip raw in
      if max_str_digits < length (filter is_digit s) then None
      else (case s of [] \<Rightarrow> None
            | c # cs \<Rightarrow>
                if c = CHR ''-'' then map_option uminus (unsigned_int cs)
                else if c = CHR ''+'' then unsigned_int cs
                else unsigned_int s))"

subsection \<open>Characters of a printed number\<close>

lemma ord_less_256 [simp]: "ord c < 256"
  by (simp add: ord_def)

lemma ord_digit_char: "d < 10 \<Longrightarrow> ord (digit_char d) = 48 + d"
  by (simp add: ord_def digit_char_def of_char_of take_bit_eq_mod)

lemma is_digit_digit_char [simp]: "d < 10 \<Longrightarrow> is_digit (digit_char d)"
  by (simp add: is_digit_def ord_digit_char)

lemma digit_val_digit_char [simp]: "d < 10 \<Longrightarrow> digit_val (digit_char d) = int d"
  by (simp add: digit_val_def ord_digit_char)

lemma show_nat_digits: "\<forall>c \<in> set (show_nat n). is_digit c"
proof (induction n rule: show_nat.induct)
  case (1 n)
  then show ?case by (subst show_nat.simps) auto
qed

lemma show_nat_nonempty [simp]: "show_nat n \<noteq> []"
  by (subst show_nat.simps) simp

lemma is_digit_not_space: "is_digit c \<Longrightarrow> \<not> is_space c"
  by (auto simp: is_digit_def is_space_def)

lemma is_digit_chars [simp]: "\<not> is_digit (CHR ''-'')" "\<not> is_digit (CHR ''+'')"
    "\<not> is_digit (CHR '':'')" "\<not> is_digit (CHR ''_'')" "\<not> is_digit (CHR ''.'')"
  by (simp_all add: is_digit_def ord_def)

lemma strip_id:
  assumes "s = [] \<or> \<not> is_space (hd s) \<and> \<not> is_space (last s)"
  shows "strip s = s"
proof (cases "s = []")
  case True
  then show ?thesis by (simp add: strip_def lstrip_by_def rstrip_by_def)
next
  case False
  with assms have a: "dropWhile is_space s = s" and b: "dropWhile is_space (rev s) = rev s"
    by (auto simp: dropWhile_eq_self_iff hd_rev)
  then show ?thesis by (simp add: strip_def lstrip_by_def rstrip_by_def)
qed

lemma strip_show_nat [simp]: "strip (show_nat n) = show_nat n"
  using show_nat_digits [of n] by (intro strip_id) (auto dest: is_digit_not_space)

subsection \<open>Reading back a printed number\<close>

lemma digit_run_append_digits:
  "\<forall>c \<in> set cs. is_digit c \<Longrightarrow> digit_run acc cs = Some a \<Longrightarrow> is_digit d
    \<Longrightarrow> digit_run acc (cs @ [d]) = Some (10 * a + digit_val d)"
  by (induction cs arbitrary: acc) auto

lemma unsigned_int_snoc:
  assumes "\<forall>c \<in> set s. is_digit c" and "unsigned_int s = Some a" and "is_digit d"
  shows "unsigned_int (s @ [d]) = Some (10 * a + digit_val d)"
  using assms by (cases s) (auto simp: unsigned_int_def digit_run_append_digits)

lemma unsigned_int_show_nat: "unsigned_int (show_nat n) = Some (int n)"
proof (induction n rule: show_nat.induct)
  case (1 n)
  show ?case
  proof (cases "n < 10")
    case True
    then show ?thesis by (subst show_nat.simps) (simp add: unsigned_int_def)
  next
    case False
    then have ih: "unsigned_int (show_nat (n div 10)) = Some (int (n div 10))"
      using "1" by simp
    have "unsigned_int (show_nat (n div 10) @ [digit_char (n mod 10)])
      = Some (10 * int (n div 10) + int (n mod 10))"
      using unsigned_int_snoc [OF show_nat_digits ih, of "digit_char (n mod 10)"] by simp
    moreover have "10 * int (n div 10) + int (n mod 10) = int n"
      by presburger
    ultimately show ?thesis using False by (subst show_nat.simps) simp
  qed
qed

lemma length_show_nat: "n < 10 ^ k \<Longrightarrow> 0 < k \<Longrightarrow> length (show_nat n) \<le> k"
proof (induction n arbitrary: k rule: show_nat.induct)
  case (1 n)
  show ?case
  proof (cases "n < 10")
    case True
    with "1.prems" show ?thesis by (subst show_nat.simps) simp
  next
    case False
    with "1.prems" have "k \<noteq> 1" by (intro notI) simp
    with "1.prems" obtain j where k: "k = Suc j" and j: "0 < j"
      by (cases k) auto
    have "n div 10 < 10 ^ j"
      using "1.prems"(1) by (simp add: k div_less_iff_less_mult mult.commute)
    then have "length (show_nat (n div 10)) \<le> j"
      using "1.IH" False j by blast
    with False show ?thesis by (subst show_nat.simps) (simp add: k)
  qed
qed

lemma hd_show_nat_digit: "is_digit (hd (show_nat n))"
  using show_nat_digits [of n] by (meson hd_in_set show_nat_nonempty)

lemma hd_show_nat_neq [simp]:
  "hd (show_nat n) \<noteq> CHR ''-''" "hd (show_nat n) \<noteq> CHR ''+''"
  using hd_show_nat_digit [of n] by (metis is_digit_chars(1), metis is_digit_chars(2))

lemma py_int_show_nat:
  assumes "n < 10 ^ 4000"
  shows "py_int (show_nat n) = Some (int n)"
proof -
  have "length (filter is_digit (show_nat n)) \<le> length (show_nat n)" by simp
  also have "length (show_nat n) \<le> 4000"
    by (rule length_show_nat [OF assms]) simp
  finally have len: "\<not> max_str_digits < length (filter is_digit (show_nat n))"
    by (simp add: max_str_digits_def)
  obtain c cs where s: "show_nat n = c # cs" by (cases "show_nat n") auto
  then have "c \<noteq> CHR ''-''" "c \<noteq> CHR ''+''"
    using hd_show_nat_neq [of n] by auto
  then show ?thesis
    using len strip_show_nat [of n] unsigned_int_show_nat [of n]
    unfolding py_int_def Let_def strip_show_nat s by (simp del: strip_show_nat)
qed

text \<open>
  The bound is far above every number the program prints: timestamps, offsets and
  batch ids are SQLite integers, below \<open>2 ^ 63\<close>.
\<close>

lemma sql_bound_small: "n < 2 ^ 63 \<Longrightarrow> nat n < 10 ^ 4000"
proof -
  assume "n < 2 ^ 63"
  then have "nat n < 2 ^ 63" by simp
  also have "(2::nat) ^ 63 \<le> 10 ^ 63" by (rule power_mono) simp_all
  also have "(10::nat) ^ 63 \<le> 10 ^ 4000" by (rule power_increasing) simp_all
  finally show ?thesis .
qed

lemma py_int_show_int:
  assumes "0 \<le> n" and "n < 2 ^ 63"
  shows "py_int (show_int n) = Some n"
  using assms py_int_show_nat [OF sql_bound_small [OF assms(2)]] by (simp add: show_int_def)

lemma show_nat_inj: "show_nat m = show_nat n \<Longrightarrow> m = n"
  by (metis of_nat_eq_iff option.inject unsigned_int_show_nat)

lemma show_int_inj: "show_int m = show_int n \<Longrightarrow> m = n"
proof -
  assume eq: "show_int m = show_int n"
  have sgn: "(m < 0) = (n < 0)"
    using arg_cong [OF eq, of hd] by (auto simp: show_int_def split: if_splits)
      (metis hd_show_nat_neq(1))+
  from eq sgn show ?thesis
    by (auto simp: show_int_def split: if_splits dest!: show_nat_inj)
qed

lemma show_int_no_newline: "newline \<notin> set (show_int n)"
  using show_nat_digits [of "nat n"] show_nat_digits [of "nat (- n)"]
  by (auto simp: show_int_def newline_def is_digit_def ord_def)

end
