(* ===== verification/PyFloat.thy ===== *)
theory PyFloat
  imports PyInt "HOL-Library.Log_Nat"
begin

text \<open>
  Python's \<open>float\<close>, exactly: a finite \<open>float\<close> is a rational with a 53-bit
  significand, every operation rounds its exact result half to even
  (\<open>binary64\<close>), and \<open>float(s)\<close>, \<open>round(x, 2)\<close> and \<open>f"{x:.2f}"\<close> are computed
  from exact values as CPython does. Subnormal numbers keep more digits here than in
  the machine; what the program does with one (compare it with 0, truncate it to an
  integer) does not depend on them, and a value that underflows to zero is zero.
\<close>

datatype pyfloat = PFin rat | PInf | PNegInf | PNaN

definition round_half_even :: "rat \<Rightarrow> int" where
  "round_half_even r =
     (let f = \<lfloor>r\<rfloor>; d = r - of_int f
      in if d < 1 / 2 then f else if 1 / 2 < d then f + 1 else if even f then f else f + 1)"

text \<open>The binary exponent of a positive rational, from the bit lengths of its parts.\<close>

definition exp2_of :: "rat \<Rightarrow> int" where
  "exp2_of r =
     (let (p, q) = quotient_of r; b = bitlen p - bitlen q
      in if 2 powi b \<le> r then b else b - 1)"

definition ulp :: "rat \<Rightarrow> rat" where
  "ulp r = 2 powi (exp2_of r - 52)"

definition binary64 :: "rat \<Rightarrow> rat" where
  "binary64 r =
     (if r = 0 then 0
      else let u = ulp \<bar>r\<bar> in sgn r * (of_int (round_half_even (\<bar>r\<bar> / u)) * u))"

definition to_float :: "rat \<Rightarrow> pyfloat" where
  "to_float r =
     (let v = binary64 r
      in if \<bar>r\<bar> \<le> 2 powi (-1075) then PFin 0
         else if 2 powi 1024 \<le> \<bar>v\<bar> then (if r < 0 then PNegInf else PInf)
         else PFin v)"

subsection \<open>Reading and printing\<close>

definition digitpart :: "str \<Rightarrow> (int \<times> nat) option" where
  "digitpart s =
     (if s = [] then Some (0, 0)
      else map_option (\<lambda>v. (v, length (filter is_digit s))) (unsigned_int s))"

definition signed_int :: "str \<Rightarrow> int option" where
  "signed_int s =
     (case s of [] \<Rightarrow> None
      | c # cs \<Rightarrow> if c = CHR ''-'' then map_option uminus (unsigned_int cs)
                 else if c = CHR ''+'' then unsigned_int cs else unsigned_int s)"

definition is_e :: "char \<Rightarrow> bool" where
  "is_e c \<longleftrightarrow> c = CHR ''e'' \<or> c = CHR ''E''"

definition unsigned_decimal :: "str \<Rightarrow> rat option" where
  "unsigned_decimal s =
     (let m = takeWhile (\<lambda>c. \<not> is_e c) s;
          x = (case dropWhile (\<lambda>c. \<not> is_e c) s of [] \<Rightarrow> Some 0 | _ # e \<Rightarrow> signed_int e);
          (i, dot, f) = partition (CHR ''.'') m
      in case (digitpart i, digitpart f, x) of
           (Some (iv, il), Some (fv, fl), Some ev) \<Rightarrow>
             if il = 0 \<and> fl = 0 then None
             else Some ((of_int iv + of_int fv / 10 ^ fl) * 10 powi ev)
         | _ \<Rightarrow> None)"

definition unsigned_float :: "str \<Rightarrow> pyfloat option" where
  "unsigned_float s =
     (if lower s = ''inf'' \<or> lower s = ''infinity'' then Some PInf
      else if lower s = ''nan'' then Some PNaN
      else map_option to_float (unsigned_decimal s))"

fun neg_float :: "pyfloat \<Rightarrow> pyfloat" where
  "neg_float (PFin r) = PFin (- r)"
| "neg_float PInf = PNegInf"
| "neg_float PNegInf = PInf"
| "neg_float PNaN = PNaN"

definition py_float :: "str \<Rightarrow> pyfloat option" where
  "py_float raw =
     (let s = strip raw
      in case s of [] \<Rightarrow> None
         | c # cs \<Rightarrow> if c = CHR ''-'' then map_option neg_float (unsigned_float cs)
                    else if c = CHR ''+'' then unsigned_float cs else unsigned_float s)"

text \<open>\<open>f"{x:.2f}"\<close> of a finite \<open>float\<close>.\<close>

definition show_hundredths :: "nat \<Rightarrow> str" where
  "show_hundredths n =
     show_nat (n div 100) @ [CHR ''.'', digit_char (n div 10 mod 10), digit_char (n mod 10)]"

definition fmt2 :: "rat \<Rightarrow> str" where
  "fmt2 r = (if r < 0 then CHR ''-'' # show_hundredths (nat (round_half_even (\<bar>r\<bar> * 100)))
             else show_hundredths (nat (round_half_even (r * 100))))"

text \<open>\<open>round(x, 2)\<close>: the \<open>float\<close> nearest to the value rounded to hundredths.\<close>

definition round2 :: "rat \<Rightarrow> rat" where
  "round2 r = binary64 (of_int (round_half_even (r * 100)) / 100)"

text \<open>\<open>int(x)\<close> of a finite \<open>float\<close> truncates towards zero.\<close>

definition py_trunc :: "rat \<Rightarrow> int" where
  "py_trunc r = (if r < 0 then - \<lfloor>- r\<rfloor> else \<lfloor>r\<rfloor>)"

subsection \<open>The exponent\<close>

lemma pow2_mono: "i \<le> j \<Longrightarrow> (2::rat) powi i \<le> 2 powi j"
  by (rule power_int_increasing) simp_all

lemma bitlen_pow2_bounds:
  assumes "0 < n"
  shows "(2::rat) powi (bitlen n - 1) \<le> of_int n" and "of_int n < (2::rat) powi (bitlen n)"
proof -
  have pos: "0 < bitlen n"
    using assms bitlen_nonneg [of n] bitlen_eq_zero_iff [of n] by linarith
  have "of_int (2 ^ nat (bitlen n - 1)) \<le> (of_int n :: rat)"
    using bitlen_bounds [OF assms] by (simp only: of_int_le_iff)
  then show "(2::rat) powi (bitlen n - 1) \<le> of_int n"
    using pos by (simp add: power_int_def)
  have "(of_int n :: rat) < of_int (2 ^ nat (bitlen n))"
    using bitlen_bounds [OF assms] by (simp only: of_int_less_iff)
  then show "of_int n < (2::rat) powi (bitlen n)"
    using pos by (simp add: power_int_def)
qed

lemma exp2_of_bounds:
  assumes "0 < r"
  shows "2 powi (exp2_of r) \<le> r" and "r < 2 powi (exp2_of r + 1)"
proof -
  obtain p q where pq: "quotient_of r = (p, q)" by (cases "quotient_of r")
  have q: "0 < q" using quotient_of_denom_pos [OF pq] .
  have r: "r = of_int p / of_int q" using quotient_of_div [OF pq] .
  have p: "0 < p" using assms q unfolding r by (simp add: zero_less_divide_iff)
  define b where "b = bitlen p - bitlen q"
  note P = bitlen_pow2_bounds [OF p] and Q = bitlen_pow2_bounds [OF q]
  have "of_int p / of_int q < (2::rat) powi (bitlen p) / 2 powi (bitlen q - 1)"
    using P Q p q by (intro frac_less) auto
  also have "\<dots> = 2 powi (bitlen p - (bitlen q - 1))"
    by (rule power_int_diff [symmetric]) simp
  finally have up: "r < 2 powi (b + 1)" by (simp add: r b_def algebra_simps)
  have "(2::rat) powi (bitlen p - 1 - bitlen q) = 2 powi (bitlen p - 1) / 2 powi (bitlen q)"
    by (rule power_int_diff) simp
  also have "\<dots> < of_int p / of_int q"
    using P Q p q by (intro frac_less2) auto
  finally have lo: "2 powi (b - 1) < r" by (simp add: r b_def algebra_simps)
  have e: "exp2_of r = (if 2 powi b \<le> r then b else b - 1)"
    by (simp add: exp2_of_def pq b_def Let_def)
  show "2 powi (exp2_of r) \<le> r" using lo by (simp add: e)
  show "r < 2 powi (exp2_of r + 1)" using up by (simp add: e)
qed

lemma exp2_of_unique:
  assumes "2 powi e \<le> r" and "r < 2 powi (e + 1)"
  shows "exp2_of r = e"
proof -
  have "(0::rat) < 2 powi e" by simp
  with assms(1) have r: "0 < r" by linarith
  have "\<not> exp2_of r < e"
  proof
    assume "exp2_of r < e"
    then have "(2::rat) powi (exp2_of r + 1) \<le> 2 powi e" by (intro pow2_mono) simp
    with assms(1) exp2_of_bounds(2) [OF r] show False by linarith
  qed
  moreover have "\<not> e < exp2_of r"
  proof
    assume "e < exp2_of r"
    then have "(2::rat) powi (e + 1) \<le> 2 powi (exp2_of r)" by (intro pow2_mono) simp
    with assms(2) exp2_of_bounds(1) [OF r] show False by linarith
  qed
  ultimately show ?thesis by simp
qed

subsection \<open>Rounding errors\<close>

lemma round_half_even_nearest:
  assumes "\<bar>x - of_int n\<bar> < 1 / 2"
  shows "round_half_even x = n"
proof -
  consider "of_int n \<le> x" | "x < of_int n" by linarith
  then show ?thesis
  proof cases
    case 1
    with assms have "\<lfloor>x\<rfloor> = n" by (intro floor_unique) auto
    with assms 1 show ?thesis by (simp add: round_half_even_def Let_def)
  next
    case 2
    with assms have "\<lfloor>x\<rfloor> = n - 1" by (intro floor_unique) auto
    with assms 2 show ?thesis by (simp add: round_half_even_def Let_def)
  qed
qed

lemma round_half_even_error: "\<bar>of_int (round_half_even x) - x\<bar> \<le> 1 / 2"
proof -
  have "of_int \<lfloor>x\<rfloor> \<le> x" "x < of_int \<lfloor>x\<rfloor> + 1" by linarith+
  then show ?thesis by (auto simp: round_half_even_def Let_def)
qed

lemma ulp_pos [simp]: "0 < ulp r"
  by (simp add: ulp_def)

lemma binary64_pos_eq:
  "0 < r \<Longrightarrow> binary64 r = of_int (round_half_even (r / ulp r)) * ulp r"
  by (simp add: binary64_def Let_def)

lemma binary64_error:
  assumes "0 < r"
  shows "\<bar>binary64 r - r\<bar> \<le> ulp r / 2"
proof -
  let ?k = "of_int (round_half_even (r / ulp r)) :: rat"
  have "binary64 r - r = (?k - r / ulp r) * ulp r"
    using ulp_pos [of r] by (simp add: binary64_pos_eq [OF assms] left_diff_distrib less_imp_neq [symmetric])
  then have "\<bar>binary64 r - r\<bar> = \<bar>?k - r / ulp r\<bar> * ulp r"
    using ulp_pos [of r] by (simp add: abs_mult abs_of_pos)
  also have "\<dots> \<le> 1 / 2 * ulp r"
    by (rule mult_right_mono [OF round_half_even_error]) (simp add: less_imp_le)
  finally show ?thesis by simp
qed

lemma binary64_eqI:
  assumes "0 < x" and "ulp x = u" and "of_int k * u = y" and "\<bar>x - y\<bar> < u / 2"
  shows "binary64 x = y"
proof -
  have u: "0 < u" using assms(2) ulp_pos by blast
  have "x / u - of_int k = (x - y) / u"
    using u assms(3) by (simp add: field_simps)
  then have "\<bar>x / u - of_int k\<bar> = \<bar>x - y\<bar> / u"
    using u by (simp add: abs_divide)
  also have "\<dots> < 1 / 2" using assms(4) u by (simp add: field_simps)
  finally have "round_half_even (x / u) = k" by (rule round_half_even_nearest)
  then show ?thesis using assms(1-3) by (simp add: binary64_pos_eq)
qed

lemma to_float_mid:
  assumes "1 \<le> r" and "binary64 r < 2 powi 1024"
  shows "to_float r = PFin (binary64 r)"
proof -
  have "(2::rat) powi (-1075) \<le> 2 powi (-1)" by (rule pow2_mono) simp
  then have "\<not> \<bar>r\<bar> \<le> 2 powi (-1075)" using assms(1) by (simp add: power_int_minus)
  moreover have "0 \<le> binary64 r"
  proof -
    have "0 < r / ulp r" using assms(1) by simp
    then have "0 \<le> round_half_even (r / ulp r)"
      using round_half_even_error [of "r / ulp r"] by (simp add: round_half_even_def Let_def)
    then show ?thesis using assms(1) by (simp add: binary64_pos_eq less_imp_le)
  qed
  ultimately show ?thesis using assms(2) by (simp add: to_float_def Let_def)
qed

subsection \<open>Reading a printed number of hundredths\<close>

lemma partition_dot:
  "c \<notin> set a \<Longrightarrow> partition c (a @ c # b) = (a, True, b)"
  by (auto simp: partition_def Let_def takeWhile_append dropWhile_append)

lemma digit_not_e: "is_digit c \<Longrightarrow> \<not> is_e c"
  by (auto simp: is_digit_def is_e_def ord_def)

lemma digitpart_show_nat: "\<exists>l > 0. digitpart (show_nat n) = Some (int n, l)"
proof -
  have "filter is_digit (show_nat n) = show_nat n"
    using show_nat_digits by (intro filter_id_all) auto
  then show ?thesis by (simp add: digitpart_def unsigned_int_show_nat)
qed

lemma unsigned_decimal_hundredths:
  "unsigned_decimal (show_hundredths n) = Some (of_nat n / 100)"
proof -
  let ?f = "[digit_char (n div 10 mod 10), digit_char (n mod 10)]"
  have s: "show_hundredths n = show_nat (n div 100) @ CHR ''.'' # ?f"
    by (simp add: show_hundredths_def)
  have ne: "\<forall>c \<in> set (show_hundredths n). \<not> is_e c"
    using show_nat_digits [of "n div 100"] digit_not_e [of "digit_char (n div 10 mod 10)"]
      digit_not_e [of "digit_char (n mod 10)"]
    by (auto simp: s digit_not_e) (simp add: is_e_def)
  have "CHR ''.'' \<notin> set (show_nat (n div 100))"
    using show_nat_digits [of "n div 100"] by auto
  then have p: "partition (CHR ''.'') (show_hundredths n) = (show_nat (n div 100), True, ?f)"
    unfolding s by (rule partition_dot)
  have f: "digitpart ?f = Some (int (n mod 100), 2)"
  proof -
    have "n mod 100 = 10 * (n div 10 mod 10) + n mod 10"
      using mod_mult2_eq [of n 10 10] by simp
    then show ?thesis by (simp add: digitpart_def unsigned_int_def)
  qed
  obtain l where l: "0 < l" "digitpart (show_nat (n div 100)) = Some (int (n div 100), l)"
    using digitpart_show_nat by blast
  have "(of_int (int (n div 100)) + of_int (int (n mod 100)) / 10 ^ 2 :: rat) = of_nat n / 100"
  proof -
    have "n = 100 * (n div 100) + n mod 100" by simp
    then have "(of_nat n :: rat) = 100 * of_nat (n div 100) + of_nat (n mod 100)"
      by (metis of_nat_add of_nat_mult of_nat_numeral)
    then show ?thesis by simp
  qed
  then have v: "(of_int (int (n div 100)) + of_int (int (n mod 100)) / 10 ^ 2) * 10 powi 0
      = (of_nat n / 100 :: rat)" by simp
  have tw: "takeWhile (\<lambda>c. \<not> is_e c) (show_hundredths n) = show_hundredths n"
    and dw: "dropWhile (\<lambda>c. \<not> is_e c) (show_hundredths n) = []"
    using ne by (simp_all add: takeWhile_eq_all_conv)
  show ?thesis
    unfolding unsigned_decimal_def Let_def tw dw p
    using l(1) v by (simp add: l(2) f del: of_int_of_nat_eq)
qed

lemma py_float_hundredths: "py_float (show_hundredths n) = Some (to_float (of_nat n / 100))"
proof -
  have sp: "strip (show_hundredths n) = show_hundredths n"
    by (rule strip_id)
      (simp add: show_hundredths_def hd_show_nat_digit is_digit_not_space)
  obtain c cs where s: "show_hundredths n = c # cs" and c: "is_digit c"
    using hd_show_nat_digit [of "n div 100"]
    by (cases "show_nat (n div 100)") (auto simp: show_hundredths_def)
  have "lower_char c = c" using c by (auto simp: is_digit_def lower_char_def)
  then have "lower (c # cs) \<noteq> ''inf''" "lower (c # cs) \<noteq> ''infinity''" "lower (c # cs) \<noteq> ''nan''"
    using c by (auto simp: lower_def is_digit_def ord_def)
  then show ?thesis
    using c unsigned_decimal_hundredths [of n]
    using sp unfolding py_float_def Let_def s
    by (auto simp: unsigned_float_def)
qed

end
