(* ===== verification/SyncErrors.thy ===== *)
theory SyncErrors
  imports PyInt
begin

text \<open>
  Sync 1.5's error envelope (\<open>syncstorage/errors.py\<close>): an HTTP status, a Weave code
  which alone is the response body, and headers. \<open>Crash\<close> is an exception none of
  the handlers of the tier expects (Python's \<open>OverflowError\<close> from binding an integer
  SQLite cannot hold): the application answers it with a 500.
\<close>

datatype weave_error =
    UNKNOWN | ILLEGAL_METHOD | MALFORMED_JSON | INVALID_WBO | OVER_QUOTA | SIZE_LIMIT_EXCEEDED

fun weave_code :: "weave_error \<Rightarrow> int" where
  "weave_code UNKNOWN = 0"
| "weave_code ILLEGAL_METHOD = 1"
| "weave_code MALFORMED_JSON = 6"
| "weave_code INVALID_WBO = 8"
| "weave_code OVER_QUOTA = 14"
| "weave_code SIZE_LIMIT_EXCEEDED = 17"

definition RETRY_AFTER :: int where
  "RETRY_AFTER = 10"

record sync_storage_error =
  err_status :: int
  err_weave :: weave_error
  err_headers :: "(str \<times> str) list"

definition err_payload :: "sync_storage_error \<Rightarrow> int" where
  "err_payload e = weave_code (err_weave e)"

definition sync_unauthorized :: sync_storage_error where
  "sync_unauthorized = \<lparr>err_status = 401, err_weave = UNKNOWN, err_headers = []\<rparr>"

definition invalid_wbo :: sync_storage_error where
  "invalid_wbo = \<lparr>err_status = 400, err_weave = INVALID_WBO, err_headers = []\<rparr>"

definition bad_request :: sync_storage_error where
  "bad_request = \<lparr>err_status = 400, err_weave = UNKNOWN, err_headers = []\<rparr>"

definition not_found :: sync_storage_error where
  "not_found = \<lparr>err_status = 404, err_weave = UNKNOWN, err_headers = []\<rparr>"

definition not_acceptable :: sync_storage_error where
  "not_acceptable = \<lparr>err_status = 406, err_weave = UNKNOWN, err_headers = []\<rparr>"

definition unsupported_media_type :: sync_storage_error where
  "unsupported_media_type = \<lparr>err_status = 415, err_weave = UNKNOWN, err_headers = []\<rparr>"

definition request_too_large :: sync_storage_error where
  "request_too_large =
     \<lparr>err_status = 413, err_weave = SIZE_LIMIT_EXCEEDED, err_headers = []\<rparr>"

definition over_quota :: sync_storage_error where
  "over_quota = \<lparr>err_status = 403, err_weave = OVER_QUOTA, err_headers = []\<rparr>"

definition conflict :: sync_storage_error where
  "conflict = \<lparr>err_status = 503, err_weave = UNKNOWN,
     err_headers = [(''Retry-After'', show_int RETRY_AFTER)]\<rparr>"

definition internal_error :: sync_storage_error where
  "internal_error = \<lparr>err_status = 500, err_weave = UNKNOWN, err_headers = []\<rparr>"

lemmas sync_error_defs = sync_unauthorized_def invalid_wbo_def bad_request_def not_found_def
  not_acceptable_def unsupported_media_type_def request_too_large_def over_quota_def
  conflict_def internal_error_def

text \<open>What a request may end in besides a response.\<close>

datatype sync_exn = Http sync_storage_error | Crash

end
