(* ===== verification/Timestamps.thy ===== *)
theory Timestamps
  imports PyFloat SyncErrors
begin

text \<open>
  Sync timestamps: milliseconds in the database, seconds with two decimals on the wire
  (\<open>quantize\<close>, \<open>timestamp_header\<close>, \<open>timestamp_json\<close> of \<open>syncstorage/store.py\<close> and
  \<open>parse_timestamp\<close> of \<open>syncstorage/models.py\<close>). Both directions go through a
  \<open>float\<close>; the lemmas say for which instants the way there and back is exact.
\<close>

definition quantize :: "int \<Rightarrow> int" where
  "quantize milliseconds = milliseconds - milliseconds mod 10"

definition timestamp_header :: "int \<Rightarrow> str" where
  "timestamp_header milliseconds = fmt2 (binary64 (of_int milliseconds / 1000))"

definition timestamp_json :: "int \<Rightarrow> rat" where
  "timestamp_json milliseconds = round2 (binary64 (of_int milliseconds / 1000))"

text \<open>\<open>(2**64 - 1) / 1000\<close>, the largest timestamp a request may name.\<close>

definition max_timestamp_seconds :: rat where
  "max_timestamp_seconds = binary64 ((2 ^ 64 - 1) / 1000)"

definition parse_timestamp :: "str \<Rightarrow> sync_exn + int" where
  "parse_timestamp raw =
     (case py_float raw of
        None \<Rightarrow> Inl (Http bad_request)
      | Some (PFin seconds) \<Rightarrow>
          if seconds < 0 \<or> max_timestamp_seconds < seconds then Inl (Http bad_request)
          else Inr (quantize (py_trunc (binary64 (seconds * 1000))))
      | Some _ \<Rightarrow> Inl (Http bad_request))"

lemma quantize_mod [simp]: "quantize n mod 10 = 0"
  by (simp add: quantize_def)

lemma quantize_id [simp]: "n mod 10 = 0 \<Longrightarrow> quantize n = n"
  by (simp add: quantize_def)

lemma quantize_idem [simp]: "quantize (quantize n) = quantize n"
  by simp

lemma quantize_le: "quantize n \<le> n" and quantize_gt: "n < quantize n + 10"
  by (simp_all add: quantize_def pos_mod_sign pos_mod_bound)

lemma quantize_nonneg: "0 \<le> n \<Longrightarrow> 0 \<le> quantize n"
  by (simp add: quantize_def zmod_le_nonneg_dividend)

lemma quantize_mono: "m \<le> n \<Longrightarrow> quantize m \<le> quantize n"
  unfolding quantize_def by presburger

subsection \<open>The way to the wire and back\<close>

text \<open>
  The instants between 3 November 2004 and 19 January 2038: seconds have 30 binary
  digits before the point, milliseconds 40, and the error a \<open>float\<close> of seconds makes
  is less than half a unit in the last place of the \<open>float\<close> of milliseconds.
\<close>

definition exact_window :: "int \<Rightarrow> bool" where
  "exact_window ms \<longleftrightarrow> 2 ^ 40 < ms \<and> ms < 2 ^ 31 * 1000 \<and> ms mod 10 = 0"

lemma seconds_error:
  assumes "exact_window ms"
  shows "\<bar>binary64 (of_int ms / 1000) - of_int ms / 1000\<bar> \<le> 1 / 8388608"
proof -
  have lo: "(2 ^ 40 :: rat) < of_int ms" and hi: "of_int ms < (2 ^ 31 * 1000 :: rat)"
    using assms by (simp_all add: exact_window_def)
  then have "exp2_of (of_int ms / 1000) = 30"
    by (intro exp2_of_unique) (simp_all add: power_int_def)
  then have "ulp (of_int ms / 1000) = 1 / 4194304"
    by (simp add: ulp_def power_int_def power_divide)
  then show ?thesis using binary64_error [of "of_int ms / 1000"] lo by simp
qed

lemma hundredths_of_ms:
  assumes "exact_window ms"
  shows "(of_nat (nat (ms div 10)) / 100 :: rat) = of_int ms / 1000"
proof -
  have "ms mod 10 = 0" using assms by (simp add: exact_window_def)
  then have "ms = 10 * (ms div 10)" using mult_div_mod_eq [of 10 ms] by simp
  then have "(of_int ms :: rat) = 10 * of_int (ms div 10)"
    by (metis of_int_mult of_int_numeral)
  moreover have "0 \<le> ms div 10"
    using assms unfolding exact_window_def by (intro div_int_pos_iff [THEN iffD2]) auto
  ultimately show ?thesis by (simp add: of_nat_nat)
qed

lemma timestamp_header_hundredths:
  assumes "exact_window ms"
  shows "timestamp_header ms = show_hundredths (nat (ms div 10))"
proof -
  let ?d = "binary64 (of_int ms / 1000)"
  have lo: "(2 ^ 40 :: rat) < of_int ms" using assms by (simp add: exact_window_def)
  have e: "\<bar>?d - of_int ms / 1000\<bar> \<le> 1 / 8388608" by (rule seconds_error [OF assms])
  have h: "of_int (ms div 10) = (of_int ms / 10 :: rat)"
  proof -
    have "0 \<le> ms div 10"
      using assms unfolding exact_window_def by (intro div_int_pos_iff [THEN iffD2]) auto
    then show ?thesis using hundredths_of_ms [OF assms] by (simp add: of_nat_nat)
  qed
  have "round_half_even (?d * 100) = ms div 10"
    by (rule round_half_even_nearest) (unfold h, use e in linarith)
  moreover have "\<not> ?d < 0" using e lo by (simp, linarith)
  ultimately show ?thesis by (simp add: timestamp_header_def fmt2_def)
qed

lemma max_timestamp_large: "2 ^ 32 < max_timestamp_seconds"
proof -
  let ?r = "(2 ^ 64 - 1) / 1000 :: rat"
  have "exp2_of ?r = 54" by (intro exp2_of_unique) (simp_all add: power_int_def)
  then have "ulp ?r = 4" by (simp add: ulp_def power_int_def)
  then have "\<bar>binary64 ?r - ?r\<bar> \<le> 2" using binary64_error [of ?r] by simp
  then show ?thesis by (simp add: max_timestamp_seconds_def abs_le_iff)
qed

lemma millis_exact:
  assumes "exact_window ms"
  shows "binary64 (binary64 (of_int ms / 1000) * 1000) = of_int ms"
proof -
  let ?x = "binary64 (of_int ms / 1000) * 1000"
  have m: "1099511627776 < ms" "ms mod 10 = 0" using assms by (simp_all add: exact_window_def)
  have "ms = 10 * (ms div 10)" using mult_div_mod_eq [of 10 ms] m(2) by linarith
  moreover have "109951162777 < ms div 10"
  proof (rule ccontr)
    assume "\<not> 109951162777 < ms div 10"
    with \<open>ms = 10 * (ms div 10)\<close> m(1) show False by linarith
  qed
  ultimately have "1099511627780 \<le> ms" by linarith
  then have lo: "(1099511627780 :: rat) \<le> of_int ms" by simp
  have hi: "of_int ms < (2 ^ 31 * 1000 :: rat)" using assms by (simp add: exact_window_def)
  have e: "\<bar>?x - of_int ms\<bar> \<le> 1000 / 8388608"
    using seconds_error [OF assms] by linarith
  have "(2 ^ 40 :: rat) \<le> ?x" "?x < 2 ^ 41" using e lo hi by (simp, linarith)+
  then have "exp2_of ?x = 40"
    by (intro exp2_of_unique) (simp_all add: power_int_def)
  then have u: "ulp ?x = 1 / 4096" by (simp add: ulp_def power_int_def power_divide)
  have "0 < ?x" using e lo by linarith
  then show ?thesis
    by (rule binary64_eqI [OF _ u, of "4096 * ms"]) (simp, use e in linarith)
qed

lemma parse_timestamp_header:
  assumes "exact_window ms"
  shows "parse_timestamp (timestamp_header ms) = Inr ms"
proof -
  let ?d = "binary64 (of_int ms / 1000)"
  have lo: "(2 ^ 40 :: rat) < of_int ms" and hi: "of_int ms < (2 ^ 31 * 1000 :: rat)"
    using assms by (simp_all add: exact_window_def)
  have e: "\<bar>?d - of_int ms / 1000\<bar> \<le> 1 / 8388608" by (rule seconds_error [OF assms])
  have d: "0 \<le> ?d" "?d < 2 ^ 32" using e lo hi by (simp, linarith)+
  have "(2::rat) ^ 32 \<le> 2 powi 1024"
    using pow2_mono [of 32 1024] by (simp add: power_int_def)
  with d have "to_float (of_int ms / 1000) = PFin ?d"
    using lo by (intro to_float_mid) simp_all
  then have "py_float (timestamp_header ms) = Some (PFin ?d)"
    using timestamp_header_hundredths [OF assms] py_float_hundredths [of "nat (ms div 10)"]
    by (simp add: hundredths_of_ms [OF assms])
  moreover have "\<not> max_timestamp_seconds < ?d" using d max_timestamp_large by simp
  ultimately show ?thesis
    using d(1) lo millis_exact [OF assms] assms
    by (simp add: parse_timestamp_def py_trunc_def exact_window_def)
qed

end
