(* ===== verification/Base64.thy ===== *)
theory Base64
  imports PyStr
begin

text \<open>
  Python's \<open>base64\<close>: \<open>b64encode\<close> and \<open>urlsafe_b64encode\<close>, and decoding that refuses
  every character outside the alphabet and every padding but the canonical one
  (\<open>b64decode(..., validate=True)\<close>). Bytes are natural numbers below 256. The two
  alphabets differ in their last two characters. Left-over bits of the last quantum are
  dropped, as \<open>binascii\<close> drops them.
\<close>

type_synonym bytes = "nat list"

definition bytes_ok :: "bytes \<Rightarrow> bool" where
  "bytes_ok bs \<longleftrightarrow> (\<forall>b \<in> set bs. b < 256)"

definition std_alphabet :: str where
  "std_alphabet = ''ABCDEFGHIJKLMNOPQRSTUVWXYZabcdefghijklmnopqrstuvwxyz0123456789+/''"

definition url_alphabet :: str where
  "url_alphabet = ''ABCDEFGHIJKLMNOPQRSTUVWXYZabcdefghijklmnopqrstuvwxyz0123456789-_''"

fun index_of :: "'a \<Rightarrow> 'a list \<Rightarrow> nat option" where
  "index_of x [] = None"
| "index_of x (y # ys) = (if x = y then Some 0 else map_option Suc (index_of x ys))"

fun b64enc :: "str \<Rightarrow> bytes \<Rightarrow> str" where
  "b64enc al [] = []"
| "b64enc al [a] = [al ! (a div 4), al ! (a mod 4 * 16), CHR ''='', CHR ''='']"
| "b64enc al [a, b] =
     [al ! (a div 4), al ! (a mod 4 * 16 + b div 16), al ! (b mod 16 * 4), CHR ''='']"
| "b64enc al (a # b # c # rest) =
     al ! (a div 4) # al ! (a mod 4 * 16 + b div 16) # al ! (b mod 16 * 4 + c div 64) #
     al ! (c mod 64) # b64enc al rest"

fun b64dec :: "str \<Rightarrow> str \<Rightarrow> bytes option" where
  "b64dec al [] = Some []"
| "b64dec al (c0 # c1 # c2 # c3 # rest) =
     (case (index_of c0 al, index_of c1 al) of
        (Some v0, Some v1) \<Rightarrow>
          (if c2 = CHR ''='' then
             (if c3 = CHR ''='' \<and> rest = [] then Some [v0 * 4 + v1 div 16] else None)
           else
             (case index_of c2 al of
                None \<Rightarrow> None
              | Some v2 \<Rightarrow>
                  (if c3 = CHR ''='' then
                     (if rest = [] then Some [v0 * 4 + v1 div 16, v1 mod 16 * 16 + v2 div 4]
                      else None)
                   else
                     (case (index_of c3 al, b64dec al rest) of
                        (Some v3, Some bs) \<Rightarrow>
                          Some ((v0 * 4 + v1 div 16) # (v1 mod 16 * 16 + v2 div 4) #
                            (v2 mod 4 * 64 + v3) # bs)
                      | _ \<Rightarrow> None))))
      | _ \<Rightarrow> None)"
| "b64dec al _ = None"

definition b64encode :: "bytes \<Rightarrow> str" where
  "b64encode = b64enc std_alphabet"

definition b64decode_strict :: "str \<Rightarrow> bytes option" where
  "b64decode_strict = b64dec std_alphabet"

definition urlsafe_b64encode :: "bytes \<Rightarrow> str" where
  "urlsafe_b64encode = b64enc url_alphabet"

text \<open>\<open>str.encode("ascii")\<close> and \<open>bytes.decode("ascii")\<close>; \<open>None\<close> is the UnicodeError.\<close>

definition encode_ascii :: "str \<Rightarrow> bytes option" where
  "encode_ascii s = (if isascii s then Some (map ord s) else None)"

definition decode_ascii :: "bytes \<Rightarrow> str option" where
  "decode_ascii bs = (if \<forall>b \<in> set bs. b < 128 then Some (map char_of bs) else None)"

subsection \<open>Round trip\<close>

definition alphabet_ok :: "str \<Rightarrow> bool" where
  "alphabet_ok al \<longleftrightarrow> length al = 64 \<and> distinct al \<and> CHR ''='' \<notin> set al"

lemma std_alphabet_ok [simp]: "alphabet_ok std_alphabet"
  unfolding alphabet_ok_def std_alphabet_def by simp

lemma url_alphabet_ok [simp]: "alphabet_ok url_alphabet"
  unfolding alphabet_ok_def url_alphabet_def by simp

lemma index_of_nth: "distinct xs \<Longrightarrow> i < length xs \<Longrightarrow> index_of (xs ! i) xs = Some i"
proof (induction xs arbitrary: i)
  case Nil
  then show ?case by simp
next
  case (Cons x xs)
  then show ?case by (cases i) auto
qed

lemma index_of_Some: "index_of x xs = Some i \<Longrightarrow> i < length xs \<and> xs ! i = x"
  by (induction xs arbitrary: i) (auto split: if_splits)

lemma alphabet_index: "alphabet_ok al \<Longrightarrow> i < 64 \<Longrightarrow> index_of (al ! i) al = Some i"
  by (simp add: alphabet_ok_def index_of_nth)

lemma alphabet_not_pad: "alphabet_ok al \<Longrightarrow> i < 64 \<Longrightarrow> al ! i \<noteq> CHR ''=''"
  by (metis alphabet_ok_def nth_mem)

lemma sextets:
  assumes "a < 256" "b < 256" "c < (256::nat)"
  shows "a div 4 < 64" "a mod 4 * 16 < 64" "a mod 4 * 16 + b div 16 < 64"
    "b mod 16 * 4 < 64" "b mod 16 * 4 + c div 64 < 64" "c mod 64 < 64"
proof -
  have "a div 4 < 64" "b div 16 < 16" "c div 64 < 4" using assms by simp_all
  moreover have "a mod 4 < 4" "b mod 16 < 16" "c mod 64 < 64" by simp_all
  ultimately show "a div 4 < 64" "a mod 4 * 16 < 64" "a mod 4 * 16 + b div 16 < 64"
    "b mod 16 * 4 < 64" "b mod 16 * 4 + c div 64 < 64" "c mod 64 < 64" by linarith+
qed

lemma sextets_join1: "a div 4 * 4 + a mod 4 * 16 div 16 = (a::nat)"
  by (simp add: div_mult_mod_eq)

lemma sextets_join2:
  assumes "b < (256::nat)"
  shows "a div 4 * 4 + (a mod 4 * 16 + b div 16) div 16 = a"
    and "(a mod 4 * 16 + b div 16) mod 16 * 16 + (b mod 16 * 4) div 4 = b"
proof -
  have "b div 16 < 16" using assms by simp
  then show "a div 4 * 4 + (a mod 4 * 16 + b div 16) div 16 = a"
    "(a mod 4 * 16 + b div 16) mod 16 * 16 + (b mod 16 * 4) div 4 = b"
    by (simp_all add: div_mult_mod_eq)
qed

lemma sextets_join3:
  assumes "b < (256::nat)" "c < (256::nat)"
  shows "(a mod 4 * 16 + b div 16) mod 16 * 16 + (b mod 16 * 4 + c div 64) div 4 = b"
    and "(b mod 16 * 4 + c div 64) mod 4 * 64 + c mod 64 = c"
proof -
  have "b div 16 < 16" "c div 64 < 4" using assms by simp_all
  then show "(a mod 4 * 16 + b div 16) mod 16 * 16 + (b mod 16 * 4 + c div 64) div 4 = b"
    "(b mod 16 * 4 + c div 64) mod 4 * 64 + c mod 64 = c"
    by (simp_all add: div_mult_mod_eq)
qed

lemma b64dec_b64enc: "alphabet_ok al \<Longrightarrow> bytes_ok bs \<Longrightarrow> b64dec al (b64enc al bs) = Some bs"
proof (induction al bs rule: b64enc.induct [case_names nil one two more])
  case (nil al)
  then show ?case by simp
next
  case (one al a)
  then have "a < 256" by (simp add: bytes_ok_def)
  note b = sextets [OF this this this]
  show ?case using one(1) b(1,2) sextets_join1 [of a]
    by (simp add: alphabet_index)
next
  case (two al a b)
  then have ab: "a < 256" "b < 256" by (simp_all add: bytes_ok_def)
  note v = sextets [OF ab(1) ab(2) ab(2)]
  show ?case
    using two(1) v(1,3,4) sextets_join2 [OF ab(2), of a]
    by (simp add: alphabet_index alphabet_not_pad)
next
  case (more al a b c rest)
  then have abc: "a < 256" "b < 256" "c < 256" and rest: "bytes_ok rest"
    by (simp_all add: bytes_ok_def)
  note v = sextets [OF abc]
  show ?case
    using more.prems(1) v(1,3,5,6) sextets_join2 [OF abc(2), of a]
      sextets_join3(1) [OF abc(2,3), of a] sextets_join3(2) [OF abc(2,3)] more.IH [OF more.prems(1) rest]
    by (simp add: alphabet_index alphabet_not_pad)
qed

lemma b64decode_encode: "bytes_ok bs \<Longrightarrow> b64decode_strict (b64encode bs) = Some bs"
  by (simp add: b64decode_strict_def b64encode_def b64dec_b64enc)

lemma decode_encode_ascii: "isascii s \<Longrightarrow> decode_ascii (map ord s) = Some s"
  by (auto simp: decode_ascii_def isascii_def is_ascii_def ord_def list_all_iff comp_def)

lemma bytes_ok_ord: "isascii s \<Longrightarrow> bytes_ok (map ord s)"
  by (fastforce simp: bytes_ok_def isascii_def is_ascii_def list_all_iff)

text \<open>
  A text of decimal digits never decodes to ASCII: the first character of a quantum is
  worth at least 52, so the first byte at least 208.
\<close>

lemma digit_cases:
  assumes "is_digit c"
  shows "c \<in> set ''0123456789''"
proof -
  have "ord c \<in> {48, 49, 50, 51, 52, 53, 54, 55, 56, 57}"
    using assms unfolding is_digit_def insert_iff empty_iff by presburger
  then have "ord c \<in> set [48..<58]" by simp
  then have "char_of (ord c) \<in> set (map char_of [48..<58])" by (metis image_eqI list.set_map)
  moreover have "map char_of [48..<58] = ''0123456789''" by code_simp
  ultimately show ?thesis by (simp add: ord_def)
qed

lemma index_of_digit: "is_digit c \<Longrightarrow> \<exists>v. index_of c std_alphabet = Some v \<and> 52 \<le> v"
  using digit_cases [of c] by (auto simp: std_alphabet_def)

lemma b64decode_digits_not_ascii:
  assumes "is_digit c" and "b64decode_strict (c # s) = Some bs"
  shows "decode_ascii bs = None"
proof -
  obtain c1 c2 c3 rest where s: "s = c1 # c2 # c3 # rest"
    using assms(2) unfolding b64decode_strict_def
    by (cases "(std_alphabet, c # s)" rule: b64dec.cases) auto
  obtain v where v: "index_of c std_alphabet = Some v" "52 \<le> v"
    using index_of_digit [OF assms(1)] by blast
  have "bs \<noteq> [] \<and> 128 \<le> hd bs"
    using assms(2) v unfolding b64decode_strict_def s
    by (auto split: option.splits if_splits)
  then show ?thesis by (cases bs) (auto simp: decode_ascii_def)
qed

end
