(* ===== verification/SyncStore.thy ===== *)
theory SyncStore
  imports Db Timestamps Base64
begin

text \<open>
  Sync 1.5 storage (\<open>syncstorage/store.py\<close>): the class \<open>SyncStore\<close>, one user's storage
  for the duration of one request. \<open>sync_store\<close> is its two immutable fields; every
  method takes it and the database, and returns what it returns beside the database it
  leaves, or the exception it raises.
\<close>

subsection \<open>Constants and data\<close>

definition DEFAULT_BSO_TTL :: int where "DEFAULT_BSO_TTL = 2100000000"
definition MAX_TTL :: int where "MAX_TTL = 2100000000"
definition BATCH_LIFETIME_MS :: int where "BATCH_LIFETIME_MS = 2 * 60 * 60 * 1000"
definition DEFAULT_LIMIT :: int where "DEFAULT_LIMIT = 10000"
definition TOMBSTONE :: int where "TOMBSTONE = 0"
definition MAX_BATCH_CREATE_RETRY :: nat where "MAX_BATCH_CREATE_RETRY = 5"

datatype store_error =
    CollectionNotFound | BsoNotFound | BatchNotFound | ConflictError | SqlError db_error

record bso =
  b_id :: str
  b_modified :: int
  b_payload :: str
  b_sortindex :: "int option"
  b_expiry :: int

record 'a page =
  pg_items :: "'a list"
  pg_offset :: "str option"

datatype sorting = Newest | Oldest | Index

record offset =
  off_timestamp :: "int option"
  off_offset :: int

record bso_query =
  q_newer :: "int option"
  q_older :: "int option"
  q_sort :: "sorting option"
  q_limit :: "int option"
  q_offset :: "offset option"
  q_ids :: "str list"

text \<open>A record of a POST or PUT body (\<open>PostedBso\<close> of \<open>models.py\<close>), as the store takes it.\<close>

record posted_bso =
  pb_id :: str
  pb_payload :: "str option"
  pb_sortindex :: "int option"
  pb_ttl :: "int option"

record sync_store =
  ss_uid :: int
  ss_now :: int

type_synonym 'a store_res = "store_error + 'a \<times> database"

definition offset_str :: "offset \<Rightarrow> str" where
  "offset_str o1 =
     (case off_timestamp o1 of
        None \<Rightarrow> show_int (off_offset o1)
      | Some t \<Rightarrow> show_int t @ '':'' @ show_int (off_offset o1))"

text \<open>\<open>None\<close> is the \<open>ValueError\<close> of \<open>int\<close> and of a negative component.\<close>

definition non_negative :: "str \<Rightarrow> int option" where
  "non_negative value =
     (case py_int value of None \<Rightarrow> None | Some parsed \<Rightarrow> if parsed < 0 then None else Some parsed)"

definition offset_parse :: "str \<Rightarrow> offset option" where
  "offset_parse value =
     (case partition (CHR '':'') value of
        (head, colon, tail) \<Rightarrow>
          if \<not> colon then
            map_option (\<lambda>n. \<lparr>off_timestamp = None, off_offset = n\<rparr>) (non_negative value)
          else
            (case non_negative head of
               None \<Rightarrow> None
             | Some t \<Rightarrow>
                 map_option (\<lambda>n. \<lparr>off_timestamp = Some (quantize t), off_offset = n\<rparr>)
                   (non_negative tail)))"

definition encode_next_offset ::
  "sorting option \<Rightarrow> int \<Rightarrow> int option \<Rightarrow> int list \<Rightarrow> str" where
  "encode_next_offset sorting prev_offset prev_timestamp modified =
     (if sorting = Some Index then show_int (prev_offset + int (length modified))
      else if modified = [] then show_int prev_offset
      else
        (let bound = last modified;
             skip = 1 + length (takeWhile (\<lambda>v. v = bound) (rev (butlast modified)));
             skip' = (if skip = length modified \<and> prev_timestamp = Some bound
                      then int skip + prev_offset else int skip)
         in offset_str \<lparr>off_timestamp = Some (quantize bound), off_offset = skip'\<rparr>))"

subsection \<open>Collections and timestamps\<close>

definition collection_id :: "str \<Rightarrow> database \<Rightarrow> store_error + int" where
  "collection_id name db =
     of_option CollectionNotFound (map_option fst (lookup_key snd name (db_collections db)))"

definition insert_or_ignore_collection :: "str \<Rightarrow> database \<Rightarrow> database" where
  "insert_or_ignore_collection name db =
     (if has_key snd name (db_collections db) then db
      else db\<lparr>db_collections := db_collections db @ [(db_collections_seq db + 1, name)],
              db_collections_seq := db_collections_seq db + 1\<rparr>)"

definition get_or_create_collection_id :: "str \<Rightarrow> database \<Rightarrow> int store_res" where
  "get_or_create_collection_id name db =
     (case collection_id name db of
        Inr cid \<Rightarrow> Inr (cid, db)
      | Inl _ \<Rightarrow>
          (let db' = insert_or_ignore_collection name db
           in bindr (collection_id name db') (\<lambda>cid. Inr (cid, db'))))"

definition collection_names :: "int list \<Rightarrow> database \<Rightarrow> (int \<times> str) list" where
  "collection_names ids db = filter (\<lambda>c. fst c \<in> set ids) (db_collections db)"

definition storage_timestamp :: "sync_store \<Rightarrow> database \<Rightarrow> int" where
  "storage_timestamp s db =
     (case map uc_modified (filter (\<lambda>r. uc_uid r = ss_uid s) (db_user_collections db)) of
        [] \<Rightarrow> 0
      | m # ms \<Rightarrow> fold max ms m)"

definition user_collection_row :: "sync_store \<Rightarrow> int \<Rightarrow> database \<Rightarrow> user_collection option" where
  "user_collection_row s cid db = lookup_key uc_key (ss_uid s, cid) (db_user_collections db)"

definition collection_timestamp :: "sync_store \<Rightarrow> str \<Rightarrow> database \<Rightarrow> store_error + int" where
  "collection_timestamp s name db =
     bindr (collection_id name db) (\<lambda>cid.
       of_option CollectionNotFound (map_option uc_modified (user_collection_row s cid db)))"

definition bso_timestamp :: "sync_store \<Rightarrow> str \<Rightarrow> str \<Rightarrow> database \<Rightarrow> store_error + int" where
  "bso_timestamp s collection bso_id db =
     bindr (collection_id collection db) (\<lambda>cid.
       Inr (case lookup_key br_key (ss_uid s, cid, bso_id) (db_bso db) of
              None \<Rightarrow> 0 | Some r \<Rightarrow> br_modified r))"

text \<open>
  \<open>names[...]\<close> raises \<open>KeyError\<close> for an id without a name, which the foreign key rules
  out; \<open>None\<close> here.
\<close>

definition collection_timestamps :: "sync_store \<Rightarrow> database \<Rightarrow> (str \<times> int) list option" where
  "collection_timestamps s db =
     (let rows = filter (\<lambda>r. uc_uid r = ss_uid s \<and> uc_collection_id r \<noteq> TOMBSTONE)
            (db_user_collections db);
          names = map_of (collection_names (map uc_collection_id rows) db)
      in those (map (\<lambda>r. map_option (\<lambda>n. (n, uc_modified r)) (names (uc_collection_id r))) rows))"

text \<open>The live rows of a user, and what \<open>GROUP BY collection_id\<close> makes of them.\<close>

definition live_rows :: "sync_store \<Rightarrow> database \<Rightarrow> bso_row list" where
  "live_rows s db = filter (\<lambda>r. br_uid r = ss_uid s \<and> ss_now s < br_expiry r) (db_bso db)"

definition by_collection ::
  "sync_store \<Rightarrow> (bso_row list \<Rightarrow> int) \<Rightarrow> database \<Rightarrow> (str \<times> int) list option" where
  "by_collection s f db =
     (let rows = live_rows s db;
          cids = sort (remdups (map br_collection_id rows));
          names = map_of (collection_names cids db)
      in those (map (\<lambda>c. map_option (\<lambda>n. (n, f (filter (\<lambda>r. br_collection_id r = c) rows)))
                 (names c)) cids))"

definition collection_counts :: "sync_store \<Rightarrow> database \<Rightarrow> (str \<times> int) list option" where
  "collection_counts s db = by_collection s (\<lambda>rows. int (length rows)) db"

text \<open>SQLite's \<open>LENGTH\<close> of a text counts the characters before the first NUL.\<close>

definition sql_length :: "str \<Rightarrow> int" where
  "sql_length t = int (length (takeWhile (\<lambda>c. ord c \<noteq> 0) t))"

definition collection_usage :: "sync_store \<Rightarrow> database \<Rightarrow> (str \<times> int) list option" where
  "collection_usage s db =
     by_collection s (\<lambda>rows. sum_list (map (\<lambda>r. sql_length (br_payload r)) rows)) db"

definition storage_usage :: "sync_store \<Rightarrow> database \<Rightarrow> int" where
  "storage_usage s db = sum_list (map (\<lambda>r. sql_length (br_payload r)) (live_rows s db))"

subsection \<open>Reads\<close>

definition bso_of_row :: "bso_row \<Rightarrow> bso" where
  "bso_of_row r =
     \<lparr>b_id = br_id r, b_modified = br_modified r, b_payload = br_payload r,
      b_sortindex = br_sortindex r, b_expiry = br_expiry r\<rparr>"

definition get_bso :: "sync_store \<Rightarrow> str \<Rightarrow> str \<Rightarrow> database \<Rightarrow> store_error + bso option" where
  "get_bso s collection bso_id db =
     bindr (collection_id collection db) (\<lambda>cid.
       Inr (map_option bso_of_row
         (find (\<lambda>r. br_key r = (ss_uid s, cid, bso_id) \<and> ss_now s < br_expiry r) (db_bso db))))"

datatype page_item = Record bso | RecordId str

definition query_bound :: "bso_query \<Rightarrow> int option" where
  "query_bound q = (case q_offset q of None \<Rightarrow> None | Some f \<Rightarrow> off_timestamp f)"

definition numeric_offset :: "bso_query \<Rightarrow> int" where
  "numeric_offset q = (case q_offset q of None \<Rightarrow> 0 | Some f \<Rightarrow> off_offset f)"

definition effective_limit :: "bso_query \<Rightarrow> int" where
  "effective_limit q = max (case q_limit q of None \<Rightarrow> DEFAULT_LIMIT | Some l \<Rightarrow> l) 0"

text \<open>The WHERE clause: its fixed part, the resume bound, the window and the ids.\<close>

definition in_bound :: "bool \<Rightarrow> bso_query \<Rightarrow> bso_row \<Rightarrow> bool" where
  "in_bound full q r =
     (case (full, query_bound q) of
        (True, Some bound) \<Rightarrow>
          (case q_sort q of
             Some Oldest \<Rightarrow> bound \<le> br_modified r
           | Some Index \<Rightarrow> True
           | _ \<Rightarrow> br_modified r \<le> bound)
      | _ \<Rightarrow> True)"

definition in_window :: "bso_query \<Rightarrow> bso_row \<Rightarrow> bool" where
  "in_window q r \<longleftrightarrow>
     (case q_older q of None \<Rightarrow> True | Some t \<Rightarrow> br_modified r < t) \<and>
     (case q_newer q of None \<Rightarrow> True | Some t \<Rightarrow> t < br_modified r) \<and>
     (q_ids q = [] \<or> br_id r \<in> set (q_ids q))"

definition bso_where :: "sync_store \<Rightarrow> int \<Rightarrow> bool \<Rightarrow> bso_query \<Rightarrow> bso_row \<Rightarrow> bool" where
  "bso_where s cid full q r \<longleftrightarrow>
     br_uid r = ss_uid s \<and> br_collection_id r = cid \<and> ss_now s < br_expiry r \<and>
     in_bound full q r \<and> in_window q r"

text \<open>
  \<open>ORDER BY\<close>. NULL sorts below every value, so it comes last in \<open>sortindex DESC\<close>. Rows
  the ORDER BY leaves tied come in the order SQLite's plan visits them, \<open>scan\<close>: the
  statement promises no order there, and neither does the model.
\<close>

definition order_rows :: "bool \<Rightarrow> sorting option \<Rightarrow> bso_row list \<Rightarrow> bso_row list" where
  "order_rows full sorting rows =
     (case (if sorting = None \<and> full then Some Newest else sorting) of
        None \<Rightarrow> rows
      | Some Index \<Rightarrow>
          sort_key (\<lambda>r. case br_sortindex r of None \<Rightarrow> [] | Some i \<Rightarrow> [- i])
            (filter (\<lambda>r. br_sortindex r \<noteq> None) rows) @
          filter (\<lambda>r. br_sortindex r = None) rows
      | Some Newest \<Rightarrow> rev (sort_key (\<lambda>r. br_modified r) (sort_key br_id rows))
      | Some Oldest \<Rightarrow> sort_key (\<lambda>r. br_modified r) (sort_key br_id rows))"

definition params_fit :: "bool \<Rightarrow> bso_query \<Rightarrow> bool" where
  "params_fit full q \<longleftrightarrow>
     (full \<and> q_sort q \<noteq> Some Index \<longrightarrow> (case query_bound q of None \<Rightarrow> True | Some t \<Rightarrow> sql_int t)) \<and>
     (case q_older q of None \<Rightarrow> True | Some t \<Rightarrow> sql_int t) \<and>
     (case q_newer q of None \<Rightarrow> True | Some t \<Rightarrow> sql_int t) \<and>
     sql_int (if 0 < effective_limit q then effective_limit q + 1 else effective_limit q) \<and>
     sql_int (numeric_offset q)"

definition get_bsos ::
  "(bso_row list \<Rightarrow> bso_row list) \<Rightarrow> sync_store \<Rightarrow> str \<Rightarrow> bso_query \<Rightarrow> bool \<Rightarrow> database \<Rightarrow>
     store_error + page_item page" where
  "get_bsos scan s collection q full db =
     bindr (collection_id collection db) (\<lambda>cid.
     bindr (guardr (params_fit full q) (SqlError OverflowError)) (\<lambda>_.
       (let limit = effective_limit q;
            fetch = (if 0 < limit then limit + 1 else limit);
            rows = take (nat fetch) (drop (nat (numeric_offset q))
              (order_rows full (q_sort q) (scan (filter (bso_where s cid full q) (db_bso db)))));
            item = (\<lambda>r. if full then Record (bso_of_row r) else RecordId (br_id r))
        in if limit < int (length rows) then
             Inr \<lparr>pg_items = map item (butlast rows),
                  pg_offset = Some (if full then
                      encode_next_offset (q_sort q) (numeric_offset q) (query_bound q)
                        (map br_modified (butlast rows))
                    else show_int (limit + numeric_offset q))\<rparr>
           else
             Inr \<lparr>pg_items = map item rows,
                  pg_offset = (if limit = 0 \<and> full then Some ''0'' else None)\<rparr>)))"

subsection \<open>Writes\<close>

definition user_exists :: "sync_store \<Rightarrow> database \<Rightarrow> bool" where
  "user_exists s db = has_key su_uid (ss_uid s) (db_sync_users db)"

definition check_write :: "sync_store \<Rightarrow> int \<Rightarrow> database \<Rightarrow> store_error + unit" where
  "check_write s cid db =
     (case user_collection_row s cid db of
        None \<Rightarrow> Inr ()
      | Some r \<Rightarrow> guardr (\<not> ss_now s \<le> uc_modified r) ConflictError)"

definition stamp_row :: "sync_store \<Rightarrow> int \<Rightarrow> user_collection" where
  "stamp_row s cid = \<lparr>uc_uid = ss_uid s, uc_collection_id = cid, uc_modified = ss_now s\<rparr>"

definition stamp_change :: "sync_store \<Rightarrow> int \<Rightarrow> user_collection \<Rightarrow> user_collection" where
  "stamp_change s cid r = r\<lparr>uc_modified := ss_now s\<rparr>"

definition update_collection :: "sync_store \<Rightarrow> int \<Rightarrow> database \<Rightarrow> int store_res" where
  "update_collection s cid db =
     (if has_key uc_key (ss_uid s, cid) (db_user_collections db) \<or>
         user_exists s db \<and> has_key fst cid (db_collections db)
      then Inr (ss_now s, db\<lparr>db_user_collections :=
             upsert uc_key (stamp_row s cid) (stamp_change s cid) (db_user_collections db)\<rparr>)
      else Inl (SqlError IntegrityError))"

definition put_expiry :: "sync_store \<Rightarrow> posted_bso \<Rightarrow> int" where
  "put_expiry s b =
     ss_now s + (case pb_ttl b of None \<Rightarrow> DEFAULT_BSO_TTL | Some ttl \<Rightarrow> ttl) * 1000"

definition put_row :: "sync_store \<Rightarrow> int \<Rightarrow> posted_bso \<Rightarrow> bso_row" where
  "put_row s cid b =
     \<lparr>br_uid = ss_uid s, br_collection_id = cid, br_id = pb_id b, br_sortindex = pb_sortindex b,
      br_payload = (case pb_payload b of None \<Rightarrow> [] | Some p \<Rightarrow> p), br_modified = ss_now s,
      br_expiry = put_expiry s b\<rparr>"

definition put_change :: "sync_store \<Rightarrow> posted_bso \<Rightarrow> bso_row \<Rightarrow> bso_row" where
  "put_change s b r =
     r\<lparr>br_sortindex := (case pb_sortindex b of None \<Rightarrow> br_sortindex r | Some i \<Rightarrow> Some i),
       br_payload := (case pb_payload b of None \<Rightarrow> br_payload r | Some p \<Rightarrow> p),
       br_expiry := (case pb_ttl b of None \<Rightarrow> br_expiry r | Some _ \<Rightarrow> put_expiry s b),
       br_modified :=
         (if pb_payload b = None \<and> pb_sortindex b = None then br_modified r else ss_now s)\<rparr>"

definition put_fits :: "sync_store \<Rightarrow> posted_bso \<Rightarrow> bool" where
  "put_fits s b \<longleftrightarrow>
     sql_int (put_expiry s b) \<and>
     (case pb_sortindex b of None \<Rightarrow> True | Some i \<Rightarrow> sql_int i)"

definition upsert_bso :: "sync_store \<Rightarrow> int \<Rightarrow> posted_bso \<Rightarrow> database \<Rightarrow> store_error + database" where
  "upsert_bso s cid b db =
     (if \<not> put_fits s b then Inl (SqlError OverflowError)
      else if has_key br_key (ss_uid s, cid, pb_id b) (db_bso db) \<or>
              user_exists s db \<and> has_key fst cid (db_collections db)
      then Inr (db\<lparr>db_bso := upsert br_key (put_row s cid b) (put_change s b) (db_bso db)\<rparr>)
      else Inl (SqlError IntegrityError))"

definition put_bso ::
  "sync_store \<Rightarrow> str \<Rightarrow> posted_bso \<Rightarrow> int option \<Rightarrow> bool \<Rightarrow> database \<Rightarrow> int store_res" where
  "put_bso s collection b given_id touch_collection db =
     bindr (case given_id of
              None \<Rightarrow> get_or_create_collection_id collection db
            | Some cid \<Rightarrow> Inr (cid, db)) (\<lambda>(cid, db1).
     bindr (upsert_bso s cid b db1) (\<lambda>db2.
       if \<not> touch_collection then Inr (ss_now s, db2) else update_collection s cid db2))"

definition post_bsos ::
  "sync_store \<Rightarrow> str \<Rightarrow> posted_bso list \<Rightarrow> bool \<Rightarrow> database \<Rightarrow> int store_res" where
  "post_bsos s collection bsos stamped db =
     bindr (get_or_create_collection_id collection db) (\<lambda>(cid, db1).
     bindr (if stamped then Inr () else check_write s cid db1) (\<lambda>_.
     bindr (foldr_exn (\<lambda>b d. bindr (put_bso s collection b (Some cid) False d) (\<lambda>(_, d').
              Inr d')) bsos db1) (\<lambda>db2.
       update_collection s cid db2)))"

definition delete_bso :: "sync_store \<Rightarrow> str \<Rightarrow> str \<Rightarrow> database \<Rightarrow> int store_res" where
  "delete_bso s collection bso_id db =
     bindr (collection_id collection db) (\<lambda>cid.
       (let gone = (\<lambda>r. br_key r = (ss_uid s, cid, bso_id) \<and> ss_now s < br_expiry r)
        in if rowcount gone (db_bso db) = 0 then Inl BsoNotFound
           else update_collection s cid (db\<lparr>db_bso := delete_where gone (db_bso db)\<rparr>)))"

definition delete_bsos :: "sync_store \<Rightarrow> str \<Rightarrow> str list \<Rightarrow> database \<Rightarrow> int store_res" where
  "delete_bsos s collection ids db =
     bindr (collection_id collection db) (\<lambda>cid.
       (let db1 = (if ids = [] then db else db\<lparr>db_bso :=
              delete_where (\<lambda>r. br_uid r = ss_uid s \<and> br_collection_id r = cid \<and>
                br_id r \<in> set ids) (db_bso db)\<rparr>)
        in update_collection s cid db1))"

definition erect_tombstone :: "sync_store \<Rightarrow> database \<Rightarrow> store_error + database" where
  "erect_tombstone s db = bindr (update_collection s TOMBSTONE db) (\<lambda>(_, db'). Inr db')"

definition delete_collection :: "sync_store \<Rightarrow> str \<Rightarrow> database \<Rightarrow> int store_res" where
  "delete_collection s collection db =
     bindr (collection_id collection db) (\<lambda>cid.
       (let mine = (\<lambda>r. br_uid r = ss_uid s \<and> br_collection_id r = cid);
            stamp = (\<lambda>r. uc_uid r = ss_uid s \<and> uc_collection_id r = cid);
            db1 = db\<lparr>db_bso := delete_where mine (db_bso db),
                     db_user_collections := delete_where stamp (db_user_collections db)\<rparr>
        in if rowcount mine (db_bso db) + rowcount stamp (db_user_collections db) = 0
           then Inl CollectionNotFound
           else bindr (erect_tombstone s db1) (\<lambda>db2. Inr (storage_timestamp s db2, db2))))"

definition delete_storage :: "sync_store \<Rightarrow> database \<Rightarrow> database" where
  "delete_storage s db =
     db\<lparr>db_bso := delete_where (\<lambda>r. br_uid r = ss_uid s) (db_bso db),
        db_user_collections := delete_where (\<lambda>r. uc_uid r = ss_uid s) (db_user_collections db),
        db_batch_items := delete_where (\<lambda>r. bi_uid r = ss_uid s) (db_batch_items db),
        db_batches := delete_where (\<lambda>r. ba_uid r = ss_uid s) (db_batches db)\<rparr>"

subsection \<open>Batches\<close>

definition encode_batch_id :: "int \<Rightarrow> str" where
  "encode_batch_id batch_id = b64encode (map ord (show_int batch_id))"

definition decode_batch_id :: "str \<Rightarrow> store_error + int" where
  "decode_batch_id value =
     (let decoded = (case b64decode_strict value of
            None \<Rightarrow> value
          | Some bs \<Rightarrow> (case decode_ascii bs of None \<Rightarrow> value | Some t \<Rightarrow> t))
      in of_option BatchNotFound (py_int decoded))"

text \<open>The retry loop of \<open>create_batch\<close>: an id already taken walks forward by one.\<close>

fun allocate_batch ::
  "nat \<Rightarrow> sync_store \<Rightarrow> int \<Rightarrow> int \<Rightarrow> database \<Rightarrow> int store_res" where
  "allocate_batch 0 s cid batch_id db = Inl ConflictError"
| "allocate_batch (Suc n) s cid batch_id db =
     (if has_key ba_key (ss_uid s, batch_id) (db_batches db) \<or>
         \<not> (user_exists s db \<and> has_key fst cid (db_collections db))
      then allocate_batch n s cid (batch_id + 1) db
      else Inr (batch_id, db\<lparr>db_batches := db_batches db @
             [\<lparr>ba_uid = ss_uid s, ba_batch_id = batch_id, ba_collection_id = cid\<rparr>]\<rparr>))"

definition create_batch :: "sync_store \<Rightarrow> str \<Rightarrow> database \<Rightarrow> str store_res" where
  "create_batch s collection db =
     bindr (get_or_create_collection_id collection db) (\<lambda>(cid, db1).
     bindr (allocate_batch MAX_BATCH_CREATE_RETRY s cid (ss_now s) db1) (\<lambda>(batch_id, db2).
       Inr (encode_batch_id batch_id, db2)))"

definition validate_batch :: "sync_store \<Rightarrow> str \<Rightarrow> str \<Rightarrow> database \<Rightarrow> store_error + bool" where
  "validate_batch s collection batch db =
     bindr (decode_batch_id batch) (\<lambda>batch_id.
       if batch_id + BATCH_LIFETIME_MS < ss_now s then Inr False
       else
         (case collection_id collection db of
            Inl _ \<Rightarrow> Inr False
          | Inr cid \<Rightarrow>
              if \<not> sql_int batch_id then Inl (SqlError OverflowError)
              else Inr (list_ex (\<lambda>r. ba_uid r = ss_uid s \<and> ba_batch_id r = batch_id \<and>
                     ba_collection_id r = cid) (db_batches db))))"

definition item_row :: "sync_store \<Rightarrow> int \<Rightarrow> posted_bso \<Rightarrow> batch_item" where
  "item_row s batch_id b =
     \<lparr>bi_uid = ss_uid s, bi_batch_id = batch_id, bi_id = pb_id b, bi_sortindex = pb_sortindex b,
      bi_payload = pb_payload b, bi_ttl_offset = pb_ttl b\<rparr>"

definition item_change :: "posted_bso \<Rightarrow> batch_item \<Rightarrow> batch_item" where
  "item_change b r =
     r\<lparr>bi_sortindex := pb_sortindex b, bi_payload := pb_payload b, bi_ttl_offset := pb_ttl b\<rparr>"

definition stage_item ::
  "sync_store \<Rightarrow> int \<Rightarrow> posted_bso \<Rightarrow> database \<Rightarrow> store_error + database" where
  "stage_item s batch_id b db =
     (if \<not> (case pb_sortindex b of None \<Rightarrow> True | Some i \<Rightarrow> sql_int i) \<or>
         \<not> (case pb_ttl b of None \<Rightarrow> True | Some i \<Rightarrow> sql_int i)
      then Inl (SqlError OverflowError)
      else if has_key bi_key (ss_uid s, batch_id, pb_id b) (db_batch_items db) \<or>
              has_key ba_key (ss_uid s, batch_id) (db_batches db)
      then Inr (db\<lparr>db_batch_items :=
             upsert bi_key (item_row s batch_id b) (item_change b) (db_batch_items db)\<rparr>)
      else Inl (SqlError IntegrityError))"

definition append_to_batch ::
  "sync_store \<Rightarrow> str \<Rightarrow> str \<Rightarrow> posted_bso list \<Rightarrow> database \<Rightarrow> store_error + database" where
  "append_to_batch s collection batch bsos db =
     bindr (validate_batch s collection batch db) (\<lambda>ok.
       if \<not> ok then Inl BatchNotFound
       else bindr (decode_batch_id batch) (\<lambda>batch_id.
         foldr_exn (stage_item s batch_id) bsos db))"

definition commit_expiry :: "sync_store \<Rightarrow> batch_item \<Rightarrow> int" where
  "commit_expiry s item =
     (case bi_ttl_offset item of None \<Rightarrow> MAX_TTL * 1000 | Some t \<Rightarrow> ss_now s + t * 1000)"

definition commit_row :: "sync_store \<Rightarrow> int \<Rightarrow> batch_item \<Rightarrow> bso_row" where
  "commit_row s cid item =
     \<lparr>br_uid = ss_uid s, br_collection_id = cid, br_id = bi_id item,
      br_sortindex = bi_sortindex item,
      br_payload = (case bi_payload item of None \<Rightarrow> [] | Some p \<Rightarrow> p),
      br_modified = ss_now s, br_expiry = commit_expiry s item\<rparr>"

definition commit_change :: "sync_store \<Rightarrow> batch_item \<Rightarrow> bso_row \<Rightarrow> bso_row" where
  "commit_change s item r =
     r\<lparr>br_modified := ss_now s,
       br_sortindex := (case bi_sortindex item of None \<Rightarrow> br_sortindex r | Some i \<Rightarrow> Some i),
       br_payload := (case bi_payload item of None \<Rightarrow> br_payload r | Some p \<Rightarrow> p),
       br_expiry :=
         (case bi_ttl_offset item of None \<Rightarrow> br_expiry r | Some _ \<Rightarrow> commit_expiry s item)\<rparr>"

definition commit_item ::
  "sync_store \<Rightarrow> int \<Rightarrow> batch_item \<Rightarrow> database \<Rightarrow> store_error + database" where
  "commit_item s cid item db =
     (if \<not> sql_int (commit_expiry s item) then Inl (SqlError OverflowError)
      else if has_key br_key (ss_uid s, cid, bi_id item) (db_bso db) \<or>
              user_exists s db \<and> has_key fst cid (db_collections db)
      then Inr (db\<lparr>db_bso :=
             upsert br_key (commit_row s cid item) (commit_change s item) (db_bso db)\<rparr>)
      else Inl (SqlError IntegrityError))"

definition staged_items :: "sync_store \<Rightarrow> int \<Rightarrow> database \<Rightarrow> batch_item list" where
  "staged_items s batch_id db =
     sort_key bi_id (filter (\<lambda>r. bi_uid r = ss_uid s \<and> bi_batch_id r = batch_id)
       (db_batch_items db))"

definition delete_batch_rows :: "sync_store \<Rightarrow> int \<Rightarrow> database \<Rightarrow> database" where
  "delete_batch_rows s batch_id db =
     db\<lparr>db_batch_items := delete_where (\<lambda>r. bi_uid r = ss_uid s \<and> bi_batch_id r = batch_id)
          (db_batch_items db),
        db_batches := delete_where (\<lambda>r. ba_uid r = ss_uid s \<and> ba_batch_id r = batch_id)
          (db_batches db)\<rparr>"

definition delete_batch :: "sync_store \<Rightarrow> str \<Rightarrow> database \<Rightarrow> store_error + database" where
  "delete_batch s batch db =
     bindr (decode_batch_id batch) (\<lambda>batch_id.
       if \<not> sql_int batch_id then Inl (SqlError OverflowError)
       else Inr (delete_batch_rows s batch_id db))"

definition commit_batch :: "sync_store \<Rightarrow> str \<Rightarrow> str \<Rightarrow> database \<Rightarrow> int store_res" where
  "commit_batch s collection batch db =
     bindr (decode_batch_id batch) (\<lambda>batch_id.
     bindr (get_or_create_collection_id collection db) (\<lambda>(cid, db1).
     if \<not> sql_int batch_id then Inl (SqlError OverflowError)
     else
       bindr (foldr_exn (commit_item s cid) (staged_items s batch_id db1) db1) (\<lambda>db2.
       bindr (update_collection s cid db2) (\<lambda>(_, db3).
       bindr (delete_batch s batch db3) (\<lambda>db4. Inr (ss_now s, db4))))))"

end
