(* ===== verification/Json.thy ===== *)
theory Json
  imports PyFloat
begin

text \<open>
  What \<open>json.loads\<close> returns and \<open>json.dumps\<close> takes: Python's \<open>None\<close>, \<open>bool\<close>, \<open>int\<close>,
  \<open>float\<close>, \<open>str\<close>, \<open>list\<close> and \<open>dict\<close>. A dict is the list of its items in insertion
  order; reading a key takes the first entry, and no dict here has a key twice. An
  integer and a float are different values, and so are a boolean and an integer.
\<close>

datatype json =
    JNull
  | JBool bool
  | JInt int
  | JFloat pyfloat
  | JStr str
  | JArr "json list"
  | JObj "(str \<times> json) list"

text \<open>\<open>d.get(key)\<close>, with \<open>None\<close> for an absent key and for a JSON null alike.\<close>

definition obj_get :: "(str \<times> json) list \<Rightarrow> str \<Rightarrow> json" where
  "obj_get d k = (case map_of d k of None \<Rightarrow> JNull | Some v \<Rightarrow> v)"

text \<open>\<open>d[key] = value\<close>: in place when the key is there, at the end otherwise.\<close>

fun dict_set :: "'k \<Rightarrow> 'v \<Rightarrow> ('k \<times> 'v) list \<Rightarrow> ('k \<times> 'v) list" where
  "dict_set k v [] = [(k, v)]"
| "dict_set k v ((k', v') # d) = (if k = k' then (k, v) # d else (k', v') # dict_set k v d)"

lemma map_of_dict_set: "map_of (dict_set k v d) = (map_of d)(k \<mapsto> v)"
  by (induction d) (auto simp: fun_eq_iff)

lemma keys_dict_set: "set (map fst (dict_set k v d)) = insert k (set (map fst d))"
  by (induction k v d rule: dict_set.induct) (simp_all add: insert_commute)

lemma distinct_dict_set: "distinct (map fst d) \<Longrightarrow> distinct (map fst (dict_set k v d))"
proof (induction d)
  case Nil
  then show ?case by simp
next
  case (Cons x d)
  then show ?case using keys_dict_set [of k v d] by (cases x) auto
qed

lemma dict_set_new: "k \<notin> set (map fst d) \<Longrightarrow> dict_set k v d = d @ [(k, v)]"
  by (induction d) auto

text \<open>Request parameters: \<open>get\<close> takes the last value given, \<open>in\<close> asks for any.\<close>

type_synonym params = "(str \<times> str) list"

definition param_get :: "params \<Rightarrow> str \<Rightarrow> str option" where
  "param_get ps name = map_of (rev ps) name"

text \<open>Headers, names in lower case: \<open>get\<close> takes the first.\<close>

definition header_get :: "(str \<times> str) list \<Rightarrow> str \<Rightarrow> str option" where
  "header_get hs name = map_of hs name"

end
