(* ===== verification/SyncModels.thy ===== *)
theory SyncModels
  imports SyncStore Json
begin

text \<open>
  Reading a Sync 1.5 request (\<open>syncstorage/models.py\<close>): names, the query string, the
  headers and the record bodies. What \<open>json.loads\<close> and \<open>bytes.decode\<close> make of a body
  is \<open>codec\<close>, an argument of the definitions that read one.
\<close>

record codec =
  loads_bytes :: "bytes \<Rightarrow> json option"
  loads_str :: "str \<Rightarrow> json option"
  decode_utf8_replace :: "bytes \<Rightarrow> str"

subsection \<open>Limits and names\<close>

definition MAX_IDS :: nat where "MAX_IDS = 100"
definition BSO_MAX_TTL :: int where "BSO_MAX_TTL = 999999999"
definition MAX_SORTINDEX :: int where "MAX_SORTINDEX = 999999999"
definition MIN_SORTINDEX :: int where "MIN_SORTINDEX = -999999999"

definition CONTENT_TYPES :: "str list" where
  "CONTENT_TYPES = [''application/json'', ''text/plain'', ''application/newlines'']"

record limits =
  max_post_bytes :: int
  max_post_records :: int
  max_record_payload_bytes :: int
  max_request_bytes :: int
  max_total_bytes :: int
  max_total_records :: int
  max_quota_limit :: int

definition LIMITS :: limits where
  "LIMITS =
     \<lparr>max_post_bytes = 2621440, max_post_records = 100, max_record_payload_bytes = 2621440,
      max_request_bytes = 2621440 + 4096, max_total_bytes = 100 * 2621440,
      max_total_records = 10000, max_quota_limit = 2097152000\<rparr>"

definition limits_as_json :: "limits \<Rightarrow> json" where
  "limits_as_json l = JObj
     [(''max_post_bytes'', JInt (max_post_bytes l)),
      (''max_post_records'', JInt (max_post_records l)),
      (''max_record_payload_bytes'', JInt (max_record_payload_bytes l)),
      (''max_request_bytes'', JInt (max_request_bytes l)),
      (''max_total_bytes'', JInt (max_total_bytes l)),
      (''max_total_records'', JInt (max_total_records l)),
      (''max_quota_limit'', JInt (max_quota_limit l))]"

text \<open>\<open>^[ -~]{1,64}$\<close> and \<open>^[a-zA-Z0-9._-]{1,32}$\<close>, with \<open>match\<close>.\<close>

definition is_printable :: "char \<Rightarrow> bool" where
  "is_printable c \<longleftrightarrow> 32 \<le> ord c \<and> ord c \<le> 126"

definition BSO_ID_RE :: "str \<Rightarrow> bool" where
  "BSO_ID_RE s = re_dollar (class_between is_printable 1 64) s"

definition is_collection_char :: "char \<Rightarrow> bool" where
  "is_collection_char c \<longleftrightarrow> is_alnum c \<or> c \<in> {CHR ''.'', CHR ''_'', CHR ''-''}"

definition COLLECTION_RE :: "str \<Rightarrow> bool" where
  "COLLECTION_RE s = re_dollar (class_between is_collection_char 1 32) s"

definition TRUE_RE :: "str \<Rightarrow> bool" where
  "TRUE_RE s = re_dollar (\<lambda>t. lower t = ''true'') s"

text \<open>\<open>IV":\s*"AAAAAAAAAAAAAAAAAAAAAA==\<close>, with \<open>search\<close>.\<close>

definition known_bad_at :: "str \<Rightarrow> bool" where
  "known_bad_at t \<longleftrightarrow>
     startswith t ''IV\":'' \<and>
     startswith (dropWhile is_space (drop 4 t)) ''\"AAAAAAAAAAAAAAAAAAAAAA==''"

definition KNOWN_BAD_PAYLOAD_RE :: "str \<Rightarrow> bool" where
  "KNOWN_BAD_PAYLOAD_RE s = list_ex known_bad_at (suffixes_of s)"

definition validate_collection :: "str \<Rightarrow> sync_exn + str" where
  "validate_collection name = (if COLLECTION_RE name then Inr name else Inl (Http not_found))"

definition validate_bso_id :: "str \<Rightarrow> sync_exn + str" where
  "validate_bso_id bso_id = (if BSO_ID_RE bso_id then Inr bso_id else Inl (Http not_found))"

subsection \<open>The query string\<close>

definition timestamp_param :: "params \<Rightarrow> str \<Rightarrow> sync_exn + int option" where
  "timestamp_param ps name =
     (case param_get ps name of
        None \<Rightarrow> Inr None
      | Some raw \<Rightarrow> bindr (parse_timestamp raw) (\<lambda>t. Inr (Some t)))"

definition sort_param :: "params \<Rightarrow> sync_exn + sorting option" where
  "sort_param ps =
     (case param_get ps ''sort'' of
        None \<Rightarrow> Inr None
      | Some raw \<Rightarrow>
          (if raw = ''none'' then Inr None
           else if raw = ''newest'' then Inr (Some Newest)
           else if raw = ''oldest'' then Inr (Some Oldest)
           else if raw = ''index'' then Inr (Some Index)
           else Inl (Http bad_request)))"

definition limit_param :: "params \<Rightarrow> sync_exn + int option" where
  "limit_param ps =
     (case param_get ps ''limit'' of
        None \<Rightarrow> Inr None
      | Some raw \<Rightarrow>
          (case py_int raw of
             None \<Rightarrow> Inl (Http bad_request)
           | Some n \<Rightarrow> if n < 0 then Inl (Http bad_request) else Inr (Some n)))"

definition offset_param :: "params \<Rightarrow> sync_exn + offset option" where
  "offset_param ps =
     (case param_get ps ''offset'' of
        None \<Rightarrow> Inr None
      | Some raw \<Rightarrow>
          (case offset_parse raw of
             None \<Rightarrow> Inl (Http bad_request)
           | Some f \<Rightarrow> Inr (Some f)))"

definition ids_param :: "params \<Rightarrow> str list" where
  "ids_param ps =
     filter (\<lambda>i. i \<noteq> [])
       (map strip (split (CHR '','') (case param_get ps ''ids'' of None \<Rightarrow> [] | Some v \<Rightarrow> v)))"

definition bound_in_window :: "bso_query \<Rightarrow> bool" where
  "bound_in_window q \<longleftrightarrow>
     (if q_sort q = Some Index then True
      else
        (case query_bound q of
           None \<Rightarrow> True
         | Some bound \<Rightarrow>
             (case (q_newer q, q_older q) of
                (Some newer, _) \<Rightarrow> \<not> bound < newer
              | (None, Some older) \<Rightarrow> \<not> older < bound
              | (None, None) \<Rightarrow> True)))"

definition parse_query :: "params \<Rightarrow> sync_exn + bso_query" where
  "parse_query ps =
     bindr (timestamp_param ps ''newer'') (\<lambda>newer.
     bindr (timestamp_param ps ''older'') (\<lambda>older.
     bindr (sort_param ps) (\<lambda>sorting.
     bindr (limit_param ps) (\<lambda>limit.
     bindr (offset_param ps) (\<lambda>offs.
     bindr (guardr (length (ids_param ps) \<le> MAX_IDS) (Http bad_request)) (\<lambda>_.
     bindr (guardr (list_all BSO_ID_RE (ids_param ps)) (Http bad_request)) (\<lambda>_.
       (let q = \<lparr>q_newer = newer, q_older = older, q_sort = sorting, q_limit = limit,
                 q_offset = offs, q_ids = ids_param ps\<rparr>
        in if bound_in_window q then Inr q else Inl (Http bad_request)))))))))"

subsection \<open>Headers\<close>

text \<open>The last \<open>q\<close> parameter wins, and an unreadable one counts as 1.\<close>

definition media_quality :: "str \<Rightarrow> pyfloat" where
  "media_quality parameters =
     fold (\<lambda>p q. case partition (CHR ''='') p of (key, _, v) \<Rightarrow>
             if strip key = ''q'' then (case py_float v of None \<Rightarrow> PFin 1 | Some f \<Rightarrow> f) else q)
       (split (CHR '';'') parameters) (PFin 1)"

text \<open>\<open>a < b\<close> on floats: false whenever either is NaN.\<close>

fun pyfloat_less :: "pyfloat \<Rightarrow> pyfloat \<Rightarrow> bool" where
  "pyfloat_less (PFin a) (PFin b) \<longleftrightarrow> a < b"
| "pyfloat_less (PFin _) PInf \<longleftrightarrow> True"
| "pyfloat_less PNegInf (PFin _) \<longleftrightarrow> True"
| "pyfloat_less PNegInf PInf \<longleftrightarrow> True"
| "pyfloat_less _ _ \<longleftrightarrow> False"

text \<open>
  \<open>sorted\<close> of \<open>(-quality, index, media)\<close>: stable insertion by falling quality, the index
  settling ties. A quality that is NaN compares with nothing and stays where it is.
\<close>

fun insert_media :: "pyfloat \<times> str \<Rightarrow> (pyfloat \<times> str) list \<Rightarrow> (pyfloat \<times> str) list" where
  "insert_media c [] = [c]"
| "insert_media c (d # ds) =
     (if pyfloat_less (fst d) (fst c) then c # d # ds else d # insert_media c ds)"

definition accept_candidates :: "str \<Rightarrow> (pyfloat \<times> str) list" where
  "accept_candidates accept =
     filter (\<lambda>c. snd c \<noteq> [])
       (map (\<lambda>part. case partition (CHR '';'') (strip part) of (media, _, parameters) \<Rightarrow>
               (media_quality parameters, lower (strip media)))
         (split (CHR '','') accept))"

fun first_acceptable :: "(pyfloat \<times> str) list \<Rightarrow> bool option" where
  "first_acceptable [] = None"
| "first_acceptable (c # cs) =
     (if snd c = ''*/*'' then Some False
      else if snd c \<in> set CONTENT_TYPES then Some (snd c = ''application/newlines'')
      else first_acceptable cs)"

definition wants_newlines :: "str option \<Rightarrow> sync_exn + bool" where
  "wants_newlines accept =
     (case accept of
        None \<Rightarrow> Inr False
      | Some a \<Rightarrow>
          (if a = [] then Inr False
           else
             (let candidates = accept_candidates a in
              case first_acceptable (fold insert_media candidates []) of
                Some b \<Rightarrow> Inr b
              | None \<Rightarrow> if candidates \<noteq> [] then Inl (Http not_acceptable) else Inr False)))"

definition check_content_type :: "str option \<Rightarrow> sync_exn + str" where
  "check_content_type content_type =
     (let given = (case content_type of None \<Rightarrow> ''application/json''
            | Some t \<Rightarrow> if t = [] then ''application/json'' else t);
          media = lower (strip (fst (partition (CHR '';'') given)))
      in if media \<in> set CONTENT_TYPES then Inr media else Inl (Http unsupported_media_type))"

definition check_batch_headers :: "(str \<times> str) list \<Rightarrow> sync_exn + unit" where
  "check_batch_headers headers =
     foldr_exn (\<lambda>(header, limit) _.
        case header_get headers header of
          None \<Rightarrow> Inr ()
        | Some raw \<Rightarrow>
            (case py_int raw of
               None \<Rightarrow> Inl (Http bad_request)
             | Some declared \<Rightarrow>
                 if limit < declared then Inl (Http request_too_large) else Inr ()))
       [(''x-weave-records'', max_post_records LIMITS),
        (''x-weave-bytes'', max_post_bytes LIMITS),
        (''x-weave-total-records'', max_total_records LIMITS),
        (''x-weave-total-bytes'', max_total_bytes LIMITS)] ()"

definition check_content_length :: "(str \<times> str) list \<Rightarrow> sync_exn + unit" where
  "check_content_length headers =
     (case header_get headers ''content-length'' of
        None \<Rightarrow> Inr ()
      | Some raw \<Rightarrow>
          (case py_int raw of
             None \<Rightarrow> Inr ()
           | Some len \<Rightarrow>
               if max_request_bytes LIMITS < len then Inl (Http request_too_large) else Inr ()))"

subsection \<open>Record bodies\<close>

definition payload_size :: "posted_bso \<Rightarrow> int" where
  "payload_size b = int (length (case pb_payload b of None \<Rightarrow> [] | Some p \<Rightarrow> p))"

record posted_bsos =
  ps_valid :: "posted_bso list"
  ps_invalid :: "(str \<times> str) list"

definition known_fields :: "str list" where
  "known_fields = [''id'', ''sortindex'', ''payload'', ''ttl'', ''modified'', ''collection'']"

text \<open>The four fields, each its value or the reason it is refused.\<close>

definition id_field :: "bool \<Rightarrow> json \<Rightarrow> str + str" where
  "id_field require_id v =
     (if \<not> require_id \<and> v = JNull then Inr []
      else
        (case v of
           JStr s \<Rightarrow> if BSO_ID_RE s then Inr s else Inl ''invalid bso: id''
         | _ \<Rightarrow> Inl ''invalid bso: id''))"

definition payload_field :: "json \<Rightarrow> str + str option" where
  "payload_field v =
     (case v of
        JNull \<Rightarrow> Inr None
      | JStr s \<Rightarrow> Inr (Some s)
      | _ \<Rightarrow> Inl ''invalid bso: payload'')"

definition sortindex_field :: "json \<Rightarrow> str + int option" where
  "sortindex_field v =
     (case v of
        JNull \<Rightarrow> Inr None
      | JInt i \<Rightarrow>
          if MIN_SORTINDEX \<le> i \<and> i \<le> MAX_SORTINDEX then Inr (Some i)
          else Inl ''invalid bso: sortindex''
      | _ \<Rightarrow> Inl ''invalid bso: sortindex'')"

definition ttl_field :: "json \<Rightarrow> str + int option" where
  "ttl_field v =
     (case v of
        JNull \<Rightarrow> Inr None
      | JInt i \<Rightarrow> if 0 \<le> i \<and> i \<le> BSO_MAX_TTL then Inr (Some i) else Inl ''invalid bso: ttl''
      | _ \<Rightarrow> Inl ''invalid bso: ttl'')"

definition bso_from_object :: "(str \<times> json) list \<Rightarrow> bool \<Rightarrow> str + posted_bso" where
  "bso_from_object value require_id =
     (case filter (\<lambda>k. k \<notin> set known_fields) (map fst value) of
        u # us \<Rightarrow> Inl (''unknown field '' @ fold min us u)
      | [] \<Rightarrow>
          bindr (id_field require_id (obj_get value ''id'')) (\<lambda>i.
          bindr (payload_field (obj_get value ''payload'')) (\<lambda>payload.
          bindr (sortindex_field (obj_get value ''sortindex'')) (\<lambda>sortindex.
          bindr (ttl_field (obj_get value ''ttl'')) (\<lambda>ttl.
            Inr \<lparr>pb_id = i, pb_payload = payload, pb_sortindex = sortindex, pb_ttl = ttl\<rparr>)))))"

definition parse_bso_body :: "codec \<Rightarrow> bytes \<Rightarrow> str option \<Rightarrow> sync_exn + posted_bso" where
  "parse_bso_body cd body content_type =
     bindr (check_content_type content_type) (\<lambda>_.
       (case loads_bytes cd (if body = [] then [123, 125] else body) of
          Some (JObj value) \<Rightarrow>
            (case bso_from_object value False of
               Inl _ \<Rightarrow> Inl (Http invalid_wbo)
             | Inr b \<Rightarrow>
                 if max_record_payload_bytes LIMITS < payload_size b
                 then Inl (Http request_too_large) else Inr b)
        | _ \<Rightarrow> Inl (Http invalid_wbo)))"

text \<open>The raw items of a POST: a JSON list, or one value per line that is not blank.\<close>

definition raw_items :: "codec \<Rightarrow> str \<Rightarrow> str \<Rightarrow> sync_exn + json list" where
  "raw_items cd media txt =
     (if media = ''application/newlines'' then
        mapr (\<lambda>line. of_option (Http invalid_wbo) (loads_str cd line))
          (filter (\<lambda>line. strip line \<noteq> []) (splitlines txt))
      else
        (case loads_str cd (if txt = [] then ''[]'' else txt) of
           Some (JArr items) \<Rightarrow> Inr items
         | _ \<Rightarrow> Inl (Http invalid_wbo)))"

text \<open>The loop's state: the result so far, the ids seen and the payload counted.\<close>

record bodies_state =
  bs_result :: posted_bsos
  bs_seen :: "str list"
  bs_total :: int

definition take_item :: "json \<Rightarrow> bodies_state \<Rightarrow> sync_exn + bodies_state" where
  "take_item item st =
     (case item of
        JObj value \<Rightarrow>
          (case obj_get value ''id'' of
             JStr i \<Rightarrow>
               (if i \<in> set (bs_seen st) then Inl (Http invalid_wbo)
                else
                  (let st1 = st\<lparr>bs_seen := i # bs_seen st\<rparr>; r = bs_result st in
                   case bso_from_object value True of
                     Inl why \<Rightarrow>
                       Inr (st1\<lparr>bs_result := r\<lparr>ps_invalid := dict_set i why (ps_invalid r)\<rparr>\<rparr>)
                   | Inr b \<Rightarrow>
                       (let total = bs_total st + payload_size b; st2 = st1\<lparr>bs_total := total\<rparr> in
                        if max_record_payload_bytes LIMITS < payload_size b \<or>
                           max_post_bytes LIMITS < total
                        then Inr (st2\<lparr>bs_result :=
                            r\<lparr>ps_invalid := dict_set (pb_id b) ''retry bytes'' (ps_invalid r)\<rparr>\<rparr>)
                        else Inr (st2\<lparr>bs_result := r\<lparr>ps_valid := ps_valid r @ [b]\<rparr>\<rparr>))))
           | _ \<Rightarrow> Inl (Http invalid_wbo))
      | _ \<Rightarrow> Inl (Http invalid_wbo))"

text \<open>\<open>while len(result.valid) > max_post_records\<close>: the last ones are deferred.\<close>

fun drop_excess :: "nat \<Rightarrow> posted_bso list \<Rightarrow> (str \<times> str) list \<Rightarrow> posted_bsos" where
  "drop_excess cap valid invalid =
     (if length valid \<le> cap \<or> valid = [] then \<lparr>ps_valid = valid, ps_invalid = invalid\<rparr>
      else drop_excess cap (butlast valid)
        (dict_set (pb_id (last valid)) ''retry bso'' invalid))"

declare drop_excess.simps [simp del]

definition parse_bso_bodies :: "codec \<Rightarrow> bytes \<Rightarrow> str option \<Rightarrow> sync_exn + posted_bsos" where
  "parse_bso_bodies cd body content_type =
     bindr (check_content_type content_type) (\<lambda>media.
     bindr (raw_items cd media (decode_utf8_replace cd body)) (\<lambda>raw.
     bindr (foldr_exn take_item raw
        \<lparr>bs_result = \<lparr>ps_valid = [], ps_invalid = []\<rparr>, bs_seen = [], bs_total = 0\<rparr>) (\<lambda>st.
       Inr (drop_excess (nat (max_post_records LIMITS)) (ps_valid (bs_result st))
         (ps_invalid (bs_result st))))))"

definition check_known_bad_payload :: "posted_bso list \<Rightarrow> str \<Rightarrow> sync_exn + unit" where
  "check_known_bad_payload bsos collection =
     (if collection \<noteq> ''crypto'' then Inr ()
      else if list_ex (\<lambda>b. case pb_payload b of
             None \<Rightarrow> False | Some p \<Rightarrow> p \<noteq> [] \<and> KNOWN_BAD_PAYLOAD_RE p) bsos
      then Inl (Http invalid_wbo) else Inr ())"

subsection \<open>Batches\<close>

record batch_request =
  br_batch :: "str option"
  br_commit :: bool

definition parse_batch :: "params \<Rightarrow> sync_exn + batch_request option" where
  "parse_batch ps =
     (case (param_get ps ''batch'', param_get ps ''commit'') of
        (None, None) \<Rightarrow> Inr None
      | (None, Some _) \<Rightarrow> Inl (Http bad_request)
      | (Some batch, commit) \<Rightarrow>
          (if (case commit of None \<Rightarrow> False | Some c \<Rightarrow> \<not> TRUE_RE c) then Inl (Http bad_request)
           else Inr (Some \<lparr>br_batch = (if batch = [] \<or> TRUE_RE batch then None else Some batch),
                           br_commit = commit \<noteq> None\<rparr>)))"

subsection \<open>What a parsed body promises\<close>

definition well_formed_bso :: "posted_bso \<Rightarrow> bool" where
  "well_formed_bso b \<longleftrightarrow>
     (case pb_sortindex b of None \<Rightarrow> True | Some i \<Rightarrow> MIN_SORTINDEX \<le> i \<and> i \<le> MAX_SORTINDEX) \<and>
     (case pb_ttl b of None \<Rightarrow> True | Some t \<Rightarrow> 0 \<le> t \<and> t \<le> BSO_MAX_TTL)"

lemma bso_from_object_Inr:
  assumes "bso_from_object value require_id = Inr b"
  shows "well_formed_bso b"
    and "require_id \<Longrightarrow> obj_get value ''id'' = JStr (pb_id b) \<and> BSO_ID_RE (pb_id b)"
    and "set (map fst value) \<subseteq> set known_fields"
proof -
  obtain i p x t where f: "id_field require_id (obj_get value ''id'') = Inr i"
      "payload_field (obj_get value ''payload'') = Inr p"
      "sortindex_field (obj_get value ''sortindex'') = Inr x"
      "ttl_field (obj_get value ''ttl'') = Inr t"
    and b: "b = \<lparr>pb_id = i, pb_payload = p, pb_sortindex = x, pb_ttl = t\<rparr>"
    and known: "filter (\<lambda>k. k \<notin> set known_fields) (map fst value) = []"
    using assms by (auto simp: bso_from_object_def bindr_eq_Inr split: list.splits)
  show "well_formed_bso b"
    using f(3,4) unfolding b well_formed_bso_def sortindex_field_def ttl_field_def
    by (auto split: json.splits if_splits)
  show "require_id \<Longrightarrow> obj_get value ''id'' = JStr (pb_id b) \<and> BSO_ID_RE (pb_id b)"
    using f(1) unfolding b id_field_def by (auto split: json.splits if_splits)
  show "set (map fst value) \<subseteq> set known_fields"
    using known by (auto simp: filter_empty_conv)
qed

definition item_id :: "json \<Rightarrow> str" where
  "item_id v =
     (case v of JObj d \<Rightarrow> (case obj_get d ''id'' of JStr i \<Rightarrow> i | _ \<Rightarrow> []) | _ \<Rightarrow> [])"

definition result_ids :: "posted_bsos \<Rightarrow> str list" where
  "result_ids r = map pb_id (ps_valid r) @ map fst (ps_invalid r)"

definition total_size :: "posted_bso list \<Rightarrow> int" where
  "total_size bs = sum_list (map payload_size bs)"

definition bodies_ok :: "bodies_state \<Rightarrow> bool" where
  "bodies_ok st \<longleftrightarrow>
     distinct (bs_seen st) \<and> distinct (result_ids (bs_result st)) \<and>
     set (result_ids (bs_result st)) = set (bs_seen st) \<and>
     (\<forall>b \<in> set (ps_valid (bs_result st)). well_formed_bso b \<and> BSO_ID_RE (pb_id b)) \<and>
     total_size (ps_valid (bs_result st)) \<le> bs_total st \<and>
     total_size (ps_valid (bs_result st)) \<le> max_post_bytes LIMITS"

lemma payload_size_nonneg [simp]: "0 \<le> payload_size b"
  by (simp add: payload_size_def)

text \<open>What one item does: refused with a reason, deferred, or taken.\<close>

lemma take_item_Inr:
  assumes "take_item item st = Inr st'"
  obtains (invalid) why n where "item_id item \<notin> set (bs_seen st)" "0 \<le> n"
      "st' = \<lparr>bs_result = (bs_result st)\<lparr>ps_invalid :=
         dict_set (item_id item) why (ps_invalid (bs_result st))\<rparr>,
       bs_seen = item_id item # bs_seen st, bs_total = bs_total st + n\<rparr>"
  | (valid) b where "item_id item \<notin> set (bs_seen st)" "pb_id b = item_id item"
      "well_formed_bso b" "BSO_ID_RE (pb_id b)"
      "bs_total st + payload_size b \<le> max_post_bytes LIMITS"
      "st' = \<lparr>bs_result = (bs_result st)\<lparr>ps_valid := ps_valid (bs_result st) @ [b]\<rparr>,
       bs_seen = item_id item # bs_seen st, bs_total = bs_total st + payload_size b\<rparr>"
proof -
  obtain d where d: "item = JObj d" using assms by (auto simp: take_item_def split: json.splits)
  obtain i where i: "obj_get d ''id'' = JStr i"
    using assms d by (auto simp: take_item_def split: json.splits)
  then have id: "item_id item = i" by (simp add: item_id_def d)
  have new: "i \<notin> set (bs_seen st)"
    using assms d i by (auto simp: take_item_def split: if_splits)
  show thesis
  proof (cases "bso_from_object d True")
    case (Inl why)
    then show thesis
      using assms d i new id invalid [of 0 why] by (cases st) (simp add: take_item_def Let_def)
  next
    case (Inr b)
    note b = bso_from_object_Inr [OF Inr]
    have bid: "pb_id b = i" using b(2) i by simp
    show thesis
    proof (cases "max_record_payload_bytes LIMITS < payload_size b \<or>
        max_post_bytes LIMITS < bs_total st + payload_size b")
      case True
      then show thesis
        using assms d i new id Inr bid invalid [of "payload_size b" "''retry bytes''"]
        by (cases st) (simp add: take_item_def Let_def)
    next
      case False
      then show thesis
        using assms d i new id Inr bid b valid [of b]
        by (cases st) (simp add: take_item_def Let_def)
    qed
  qed
qed

lemma take_item_ok:
  assumes "bodies_ok st" and "take_item item st = Inr st'"
  shows "bodies_ok st'"
  using assms(2)
proof (cases rule: take_item_Inr)
  case (invalid why n)
  let ?inv = "ps_invalid (bs_result st)"
  have "item_id item \<notin> set (map fst ?inv)"
    using assms(1) invalid(1) by (auto simp: bodies_ok_def result_ids_def)
  with assms(1) invalid show ?thesis
    by (auto simp: bodies_ok_def result_ids_def dict_set_new)
next
  case (valid b)
  with assms(1) show ?thesis
    by (auto simp: bodies_ok_def result_ids_def total_size_def)
qed

lemma take_items_ok:
  "foldr_exn take_item raw st = Inr st' \<Longrightarrow> bodies_ok st \<Longrightarrow>
     bodies_ok st' \<and> bs_seen st' = rev (map item_id raw) @ bs_seen st"
proof (induction raw arbitrary: st)
  case Nil
  then show ?case by simp
next
  case (Cons item raw)
  then obtain st1 where st1: "take_item item st = Inr st1" "foldr_exn take_item raw st1 = Inr st'"
    by (auto simp: bindr_eq_Inr)
  have "bs_seen st1 = item_id item # bs_seen st" by (rule take_item_Inr [OF st1(1)]) simp_all
  then show ?case using Cons.IH [OF st1(2) take_item_ok [OF Cons.prems(2) st1(1)]] by simp
qed

lemma drop_excess_props:
  "distinct (map pb_id valid @ map fst invalid) \<Longrightarrow>
     distinct (result_ids (drop_excess cap valid invalid)) \<and>
     set (result_ids (drop_excess cap valid invalid)) =
       set (map pb_id valid) \<union> set (map fst invalid) \<and>
     (\<exists>rest. valid = ps_valid (drop_excess cap valid invalid) @ rest) \<and>
     length (ps_valid (drop_excess cap valid invalid)) \<le> cap"
proof (induction cap valid invalid rule: drop_excess.induct)
  case (1 cap valid invalid)
  show ?case
  proof (cases "length valid \<le> cap \<or> valid = []")
    case True
    with 1(2) show ?thesis by (auto simp: drop_excess.simps [of cap valid] result_ids_def)
  next
    case False
    then obtain bs b where v: "valid = bs @ [b]" by (cases valid rule: rev_cases) auto
    let ?inv = "invalid @ [(pb_id b, ''retry bso'')]"
    have "pb_id b \<notin> set (map fst invalid)" using 1(2) v by auto
    then have inv: "dict_set (pb_id b) ''retry bso'' invalid = ?inv" by (rule dict_set_new)
    then have step: "drop_excess cap valid invalid = drop_excess cap bs ?inv"
      by (subst drop_excess.simps) (use False v in simp)
    have "distinct (map pb_id bs @ map fst ?inv)" using 1(2) v by auto
    then have ih: "distinct (result_ids (drop_excess cap bs ?inv)) \<and>
        set (result_ids (drop_excess cap bs ?inv)) = set (map pb_id bs) \<union> set (map fst ?inv) \<and>
        (\<exists>rest. bs = ps_valid (drop_excess cap bs ?inv) @ rest) \<and>
        length (ps_valid (drop_excess cap bs ?inv)) \<le> cap"
      using 1(1) [OF False] inv v by simp
    then obtain rest where rest: "bs = ps_valid (drop_excess cap bs ?inv) @ rest" by blast
    then have ex: "\<exists>rest. valid = ps_valid (drop_excess cap bs ?inv) @ rest"
      unfolding v by (metis append.assoc)
    have "set (map pb_id bs) \<union> set (map fst ?inv) = set (map pb_id valid) \<union> set (map fst invalid)"
      by (auto simp: v)
    then show ?thesis unfolding step using ih ex by simp
  qed
qed

lemma total_size_append: "total_size (xs @ ys) = total_size xs + total_size ys"
  by (simp add: total_size_def)

lemma total_size_nonneg: "0 \<le> total_size bs"
  by (induction bs) (simp_all add: total_size_def)

definition empty_bodies :: bodies_state where
  "empty_bodies = \<lparr>bs_result = \<lparr>ps_valid = [], ps_invalid = []\<rparr>, bs_seen = [], bs_total = 0\<rparr>"

lemma empty_bodies_ok [simp]: "bodies_ok empty_bodies"
  by (simp add: bodies_ok_def empty_bodies_def result_ids_def total_size_def LIMITS_def)

lemma parse_bso_bodies_Inr:
  assumes "parse_bso_bodies cd body content_type = Inr r"
  obtains media raw st where "check_content_type content_type = Inr media"
    "raw_items cd media (decode_utf8_replace cd body) = Inr raw"
    "foldr_exn take_item raw empty_bodies = Inr st"
    "r = drop_excess 100 (ps_valid (bs_result st)) (ps_invalid (bs_result st))"
  using assms by (auto simp: parse_bso_bodies_def bindr_eq_Inr empty_bodies_def LIMITS_def)

text \<open>
  C4: The records of a POST body fall into exactly two groups, those that will be stored and
  those reported as \<open>failed\<close>: every id of the body is in one of them and in only one, no id
  is there twice. At most 100 records are stored, at most 2,621,440 characters of payload in
  all, and each has an id, a sortindex and a ttl the protocol allows.
\<close>

theorem parse_bso_bodies_partition:
  assumes "parse_bso_bodies cd body content_type = Inr r"
    and "check_content_type content_type = Inr media"
    and "raw_items cd media (decode_utf8_replace cd body) = Inr raw"
  shows "distinct (map item_id raw) \<and> distinct (map pb_id (ps_valid r) @ map fst (ps_invalid r)) \<and>
    set (map pb_id (ps_valid r) @ map fst (ps_invalid r)) = set (map item_id raw) \<and>
    length (ps_valid r) \<le> 100 \<and> sum_list (map payload_size (ps_valid r)) \<le> 2621440 \<and>
    (\<forall>b \<in> set (ps_valid r). well_formed_bso b \<and> BSO_ID_RE (pb_id b))"
proof (rule parse_bso_bodies_Inr [OF assms(1)])
  fix media' raw' st
  assume "check_content_type content_type = Inr media'"
    and "raw_items cd media' (decode_utf8_replace cd body) = Inr raw'"
    and st: "foldr_exn take_item raw' empty_bodies = Inr st"
    and r: "r = drop_excess 100 (ps_valid (bs_result st)) (ps_invalid (bs_result st))"
  then have raw: "raw' = raw" using assms(2,3) by simp
  from take_items_ok [OF st empty_bodies_ok]
  have ok: "bodies_ok st" and seen: "bs_seen st = rev (map item_id raw)"
    by (simp_all add: raw empty_bodies_def)
  note d = drop_excess_props [of "ps_valid (bs_result st)" "ps_invalid (bs_result st)" 100]
  from ok have "distinct (map pb_id (ps_valid (bs_result st)) @ map fst (ps_invalid (bs_result st)))"
    by (simp add: bodies_ok_def result_ids_def)
  note d = d [OF this, folded r]
  then obtain rest where rest: "ps_valid (bs_result st) = ps_valid r @ rest" by blast
  have "total_size (ps_valid r) \<le> 2621440"
    using ok rest total_size_nonneg [of rest]
    by (simp add: bodies_ok_def total_size_append LIMITS_def)
  moreover have "\<forall>b \<in> set (ps_valid r). well_formed_bso b \<and> BSO_ID_RE (pb_id b)"
    using ok rest by (simp add: bodies_ok_def)
  moreover have "set (result_ids r) = set (map item_id raw)"
    using d ok seen by (simp add: bodies_ok_def result_ids_def)
  moreover have "distinct (map item_id raw)" using ok seen by (simp add: bodies_ok_def)
  ultimately show ?thesis using d by (simp add: result_ids_def total_size_def)
qed

text \<open>A codec for concrete bodies: two records, the second with a ttl that is no number.\<close>

definition sample_codec :: codec where
  "sample_codec = \<lparr>loads_bytes = \<lambda>_. Some (JObj [(''payload'', JStr ''p'')]),
     loads_str = \<lambda>_. Some (JArr [JObj [(''id'', JStr ''a''), (''payload'', JStr ''p'')],
        JObj [(''id'', JStr ''b''), (''ttl'', JStr ''x'')]]),
     decode_utf8_replace = map char_of\<rparr>"

lemma sample_bodies:
  "parse_bso_bodies sample_codec [91, 93] None =
     Inr \<lparr>ps_valid = [\<lparr>pb_id = ''a'', pb_payload = Some ''p'', pb_sortindex = None, pb_ttl = None\<rparr>],
          ps_invalid = [(''b'', ''invalid bso: ttl'')]\<rparr>"
  by code_simp

theorem parse_bso_bodies_partition_witness:
  "\<exists>r. parse_bso_bodies sample_codec [91, 93] None = Inr r \<and> length (ps_valid r) \<le> 100 \<and>
     set (map pb_id (ps_valid r) @ map fst (ps_invalid r)) = {''a'', ''b''}"
proof -
  have m: "check_content_type None = Inr ''application/json''" by code_simp
  have r: "raw_items sample_codec ''application/json''
      (decode_utf8_replace sample_codec [91, 93]) =
      Inr [JObj [(''id'', JStr ''a''), (''payload'', JStr ''p'')],
        JObj [(''id'', JStr ''b''), (''ttl'', JStr ''x'')]]"
    by (simp add: raw_items_def sample_codec_def)
  show ?thesis
    using parse_bso_bodies_partition [OF sample_bodies m r] sample_bodies
    by (auto simp: item_id_def obj_get_def)
qed

end
