(* ===== verification/DbFacts.thy ===== *)
theory DbFacts
  imports Db
begin

text \<open>
  Every statement of \<open>db.py\<close> keeps what the schema promises (\<open>wf_db\<close>). A lemma per table
  says what replacing its rows owes; the statements are instances of them.
\<close>

subsection \<open>Foreign keys and unique columns\<close>

lemma refs_Nil [simp]: "refs ck [] pk p" "refs_opt ok [] pk p"
  by (simp_all add: refs_def refs_opt_def)

lemma refs_append [simp]: "refs ck (t @ [r]) pk p \<longleftrightarrow> refs ck t pk p \<and> ck r \<in> pk ` set p"
  by (auto simp: refs_def)

lemma refs_mono_child: "refs ck t pk p \<Longrightarrow> set t' \<subseteq> set t \<Longrightarrow> refs ck t' pk p"
  by (auto simp: refs_def)

lemma refs_mono_parent: "refs ck t pk p \<Longrightarrow> pk ` set p \<subseteq> pk ` set p' \<Longrightarrow> refs ck t pk p'"
  unfolding refs_def by blast

lemma refs_opt_mono_child: "refs_opt ck t pk p \<Longrightarrow> set t' \<subseteq> set t \<Longrightarrow> refs_opt ck t' pk p"
  unfolding refs_opt_def by blast

lemma refs_opt_mono_parent:
  "refs_opt ck t pk p \<Longrightarrow> pk ` set p \<subseteq> pk ` set p' \<Longrightarrow> refs_opt ck t pk p'"
  unfolding refs_opt_def by blast

lemma refs_delete [intro]: "refs ck t pk p \<Longrightarrow> refs ck (delete_where P t) pk p"
  by (rule refs_mono_child) auto

lemma refs_opt_delete [intro]: "refs_opt ck t pk p \<Longrightarrow> refs_opt ck (delete_where P t) pk p"
  by (rule refs_opt_mono_child) auto

lemma map_update_where:
  assumes "\<And>r. P r \<Longrightarrow> k (f r) = k r"
  shows "map k (update_where P f t) = map k t"
  using assms by (simp add: update_where_def)

lemma image_update_where:
  assumes "\<And>r. P r \<Longrightarrow> k (f r) = k r"
  shows "k ` set (update_where P f t) = k ` set t"
  using map_update_where [of P k f t] assms by (metis list.set_map)

lemma refs_update_child:
  assumes "refs ck t pk p" and "\<And>r. P r \<Longrightarrow> ck (f r) = ck r"
  shows "refs ck (update_where P f t) pk p"
  using assms by (auto simp: refs_def set_update_where)

lemma refs_update_parent:
  assumes "refs ck t pk p" and "\<And>r. P r \<Longrightarrow> pk (f r) = pk r"
  shows "refs ck t pk (update_where P f p)"
  using assms(1) image_update_where [of P pk f p] assms(2) by (simp add: refs_def)

lemma refs_upsert:
  assumes "refs ck t pk p" and "\<And>x. ck (f x) = ck x"
    and "has_key key (key r) t \<or> ck r \<in> pk ` set p"
  shows "refs ck (upsert key r f t) pk p"
  using assms by (cases "has_key key (key r) t") (simp_all add: upsert_def refs_update_child)

lemma refs_opt_update_child:
  assumes "refs_opt ck t pk p" and "\<And>r. P r \<Longrightarrow> ck (f r) = ck r"
  shows "refs_opt ck (update_where P f t) pk p"
  using assms by (auto simp: refs_opt_def set_update_where)

lemma refs_opt_update_parent:
  assumes "refs_opt ck t pk p" and "\<And>r. P r \<Longrightarrow> pk (f r) = pk r"
  shows "refs_opt ck t pk (update_where P f p)"
  using assms(1) image_update_where [of P pk f p] assms(2) by (simp add: refs_opt_def)

text \<open>Deleting parents and, by the cascade, the children that name them.\<close>

lemma refs_cascade:
  assumes "refs ck t pk p" and "\<And>r. D (ck r) \<Longrightarrow> P r" and "\<And>r. Q r \<Longrightarrow> D (pk r)"
  shows "refs ck (delete_where P t) pk (delete_where Q p)"
  unfolding refs_def
proof
  fix c assume "c \<in> set (delete_where P t)"
  then have c: "c \<in> set t" "\<not> P c" by auto
  then obtain x where "x \<in> set p" "ck c = pk x" using assms(1) by (auto simp: refs_def)
  moreover have "\<not> Q x" using assms(2,3) c(2) \<open>ck c = pk x\<close> by metis
  ultimately show "ck c \<in> pk ` set (delete_where Q p)" by auto
qed

lemma refs_opt_cascade:
  assumes "refs_opt ck t pk p" and "\<And>r k. ck r = Some k \<Longrightarrow> D k \<Longrightarrow> P r"
    and "\<And>r. Q r \<Longrightarrow> D (pk r)"
  shows "refs_opt ck (delete_where P t) pk (delete_where Q p)"
  unfolding refs_opt_def
proof (intro ballI allI impI)
  fix c k assume "c \<in> set (delete_where P t)" and k: "ck c = Some k"
  then have c: "c \<in> set t" "\<not> P c" by auto
  then obtain x where x: "x \<in> set p" "k = pk x" using assms(1) k by (auto simp: refs_opt_def)
  moreover have "\<not> Q x" using assms(2) [OF k] assms(3) c(2) x(2) by metis
  ultimately show "k \<in> pk ` set (delete_where Q p)" by auto
qed

lemma uniq_optI:
  "uniq key (filter (\<lambda>r. key r \<noteq> None) t) \<Longrightarrow> uniq_opt key t"
  by (simp add: uniq_opt_def)

lemma uniq_opt_delete [intro]: "uniq_opt key t \<Longrightarrow> uniq_opt key (delete_where P t)"
proof -
  have "filter (\<lambda>r. key r \<noteq> None) (delete_where P t) =
      delete_where P (filter (\<lambda>r. key r \<noteq> None) t)"
    by (simp add: delete_where_def conj_commute)
  then show "uniq_opt key t \<Longrightarrow> uniq_opt key (delete_where P t)"
    by (simp add: uniq_opt_def)
qed

lemma uniq_opt_update:
  assumes "uniq_opt key t" and "\<And>r. P r \<Longrightarrow> key (f r) = key r"
  shows "uniq_opt key (update_where P f t)"
proof -
  have "map key (filter (\<lambda>r. key r \<noteq> None) (update_where P f t)) =
      map key (filter (\<lambda>r. key r \<noteq> None) t)"
    using assms(2) by (induction t) (auto simp: update_where_def)
  with assms(1) show ?thesis by (simp add: uniq_opt_def uniq_def)
qed

lemma uniq_opt_Nil [simp]: "uniq_opt key []"
  by (simp add: uniq_opt_def)

lemma uniq_opt_unique:
  assumes "uniq_opt key t" "x \<in> set t" "y \<in> set t" "key x = Some k" "key y = Some k"
  shows "x = y"
proof -
  have "x \<in> set (filter (\<lambda>r. key r \<noteq> None) t)" "y \<in> set (filter (\<lambda>r. key r \<noteq> None) t)"
    using assms by auto
  then show ?thesis using assms(1,4,5) uniq_eq [of key] unfolding uniq_opt_def by metis
qed

lemma empty_database_wf: "wf_db empty_database"
  by (simp add: wf_db_def wf_keys_def wf_refs_def wf_seq_def empty_database_def uniq_def)

lemmas wf_defs = wf_db_def wf_keys_def wf_refs_def wf_seq_def

lemma wf_parts:
  assumes "wf_db db"
  shows "uniq acc_uid (db_accounts db)" "uniq acc_normalized_email (db_accounts db)"
    "uniq st_token_id (db_session_tokens db)" "uniq kf_token_id (db_key_fetch_tokens db)"
    "uniq dv_id (db_devices db)" "uniq_opt dv_session_token_id (db_devices db)"
    "uniq_opt dv_refresh_token_id (db_devices db)" "uniq oc_code (db_oauth_codes db)"
    "uniq rt_token_id (db_refresh_tokens db)" "uniq su_uid (db_sync_users db)"
    "uniq fst (db_collections db)" "uniq snd (db_collections db)"
    "uniq uc_key (db_user_collections db)" "uniq br_key (db_bso db)"
    "uniq ba_key (db_batches db)" "uniq bi_key (db_batch_items db)"
    "refs st_uid (db_session_tokens db) acc_uid (db_accounts db)"
    "refs kf_uid (db_key_fetch_tokens db) acc_uid (db_accounts db)"
    "refs dv_uid (db_devices db) acc_uid (db_accounts db)"
    "refs_opt dv_session_token_id (db_devices db) st_token_id (db_session_tokens db)"
    "refs oc_uid (db_oauth_codes db) acc_uid (db_accounts db)"
    "refs rt_uid (db_refresh_tokens db) acc_uid (db_accounts db)"
    "refs su_fxa_uid (db_sync_users db) acc_uid (db_accounts db)"
    "refs uc_uid (db_user_collections db) su_uid (db_sync_users db)"
    "refs uc_collection_id (db_user_collections db) fst (db_collections db)"
    "refs br_uid (db_bso db) su_uid (db_sync_users db)"
    "refs br_collection_id (db_bso db) fst (db_collections db)"
    "refs ba_uid (db_batches db) su_uid (db_sync_users db)"
    "refs ba_collection_id (db_batches db) fst (db_collections db)"
    "refs bi_batch (db_batch_items db) ba_key (db_batches db)"
    "(0, []) \<in> set (db_collections db)"
  using assms by (simp_all add: wf_defs)

lemma wf_sync_users_seq: "wf_db db \<Longrightarrow> u \<in> set (db_sync_users db) \<Longrightarrow> su_uid u \<le> db_sync_users_seq db"
  by (simp add: wf_defs)

lemma wf_collections_seq:
  "wf_db db \<Longrightarrow> c \<in> set (db_collections db) \<Longrightarrow> 0 \<le> fst c \<and> fst c \<le> db_collections_seq db"
  by (simp add: wf_defs)

subsection \<open>What replacing the rows of one table owes\<close>

lemma wf_set_bso:
  assumes "wf_db db" and "uniq br_key t"
    and "refs br_uid t su_uid (db_sync_users db)"
    and "refs br_collection_id t fst (db_collections db)"
  shows "wf_db (db\<lparr>db_bso := t\<rparr>)"
  using assms by (simp add: wf_defs)

lemma wf_set_user_collections:
  assumes "wf_db db" and "uniq uc_key t"
    and "refs uc_uid t su_uid (db_sync_users db)"
    and "refs uc_collection_id t fst (db_collections db)"
  shows "wf_db (db\<lparr>db_user_collections := t\<rparr>)"
  using assms by (simp add: wf_defs)

lemma wf_set_batches:
  assumes "wf_db db" and "uniq ba_key t"
    and "refs ba_uid t su_uid (db_sync_users db)"
    and "refs ba_collection_id t fst (db_collections db)"
    and "refs bi_batch (db_batch_items db) ba_key t"
  shows "wf_db (db\<lparr>db_batches := t\<rparr>)"
  using assms by (simp add: wf_defs)

lemma wf_set_batch_items:
  assumes "wf_db db" and "uniq bi_key t" and "refs bi_batch t ba_key (db_batches db)"
  shows "wf_db (db\<lparr>db_batch_items := t\<rparr>)"
  using assms by (simp add: wf_defs)

lemma wf_set_sync_users:
  assumes "wf_db db" and "uniq su_uid t"
    and "refs su_fxa_uid t acc_uid (db_accounts db)"
    and "su_uid ` set (db_sync_users db) \<subseteq> su_uid ` set t"
    and "\<forall>u \<in> set t. su_uid u \<le> n"
  shows "wf_db (db\<lparr>db_sync_users := t, db_sync_users_seq := n\<rparr>)"
  using assms by (simp add: wf_defs) (blast intro: refs_mono_parent)

lemma wf_set_devices:
  assumes "wf_db db" and "uniq dv_id t" and "uniq_opt dv_session_token_id t"
    and "uniq_opt dv_refresh_token_id t"
    and "refs dv_uid t acc_uid (db_accounts db)"
    and "refs_opt dv_session_token_id t st_token_id (db_session_tokens db)"
  shows "wf_db (db\<lparr>db_devices := t\<rparr>)"
  using assms by (simp add: wf_defs)

lemma wf_set_accounts:
  assumes "wf_db db" and "uniq acc_uid t" and "uniq acc_normalized_email t"
    and "acc_uid ` set (db_accounts db) \<subseteq> acc_uid ` set t"
  shows "wf_db (db\<lparr>db_accounts := t\<rparr>)"
  using assms by (simp add: wf_defs) (blast intro: refs_mono_parent)

lemma wf_set_session_tokens:
  assumes "wf_db db" and "uniq st_token_id t"
    and "refs st_uid t acc_uid (db_accounts db)"
    and "st_token_id ` set (db_session_tokens db) \<subseteq> st_token_id ` set t"
  shows "wf_db (db\<lparr>db_session_tokens := t\<rparr>)"
  using assms by (simp add: wf_defs) (blast intro: refs_opt_mono_parent)

lemma wf_set_key_fetch_tokens:
  assumes "wf_db db" and "uniq kf_token_id t" and "refs kf_uid t acc_uid (db_accounts db)"
  shows "wf_db (db\<lparr>db_key_fetch_tokens := t\<rparr>)"
  using assms by (simp add: wf_defs)

lemma wf_set_oauth_codes:
  assumes "wf_db db" and "uniq oc_code t" and "refs oc_uid t acc_uid (db_accounts db)"
  shows "wf_db (db\<lparr>db_oauth_codes := t\<rparr>)"
  using assms by (simp add: wf_defs)

lemma wf_set_refresh_tokens:
  assumes "wf_db db" and "uniq rt_token_id t" and "refs rt_uid t acc_uid (db_accounts db)"
  shows "wf_db (db\<lparr>db_refresh_tokens := t\<rparr>)"
  using assms by (simp add: wf_defs)

lemma wf_set_collections:
  assumes "wf_db db" and "uniq fst t" and "uniq snd t"
    and "set (db_collections db) \<subseteq> set t"
    and "\<forall>c \<in> set t. 0 \<le> fst c \<and> fst c \<le> n"
  shows "wf_db (db\<lparr>db_collections := t, db_collections_seq := n\<rparr>)"
  using assms by (simp add: wf_defs) (blast intro: refs_mono_parent image_mono)

subsection \<open>The statements\<close>

lemma create_account_wf: "wf_db db \<Longrightarrow> create_account a db = Some db' \<Longrightarrow> wf_db db'"
  by (auto simp: create_account_def wf_parts split: if_splits
      intro!: wf_set_accounts uniq_append)

lemma touch_profile_wf: "wf_db db \<Longrightarrow> wf_db (touch_profile uid moment db)"
  unfolding touch_profile_def
  by (rule wf_set_accounts)
    (auto simp: wf_parts image_update_where intro: uniq_update_where)

lemma create_session_token_wf:
  "wf_db db \<Longrightarrow> create_session_token tok db = Inr db' \<Longrightarrow> wf_db db'"
  by (auto simp: create_session_token_def has_account_def has_key_iff wf_parts split: if_splits intro!: wf_set_session_tokens uniq_append)

lemma update_session_token_wf:
  assumes "wf_db db" and "\<And>r. st_token_id (f r) = st_token_id r \<and> st_uid (f r) = st_uid r"
  shows "wf_db (db\<lparr>db_session_tokens := update_where P f (db_session_tokens db)\<rparr>)"
  using assms
  by (intro wf_set_session_tokens)
    (auto simp: wf_parts image_update_where
      intro: uniq_update_where refs_update_child)

lemma touch_session_token_wf: "wf_db db \<Longrightarrow> wf_db (touch_session_token i moment db)"
  unfolding touch_session_token_def by (rule update_session_token_wf) simp_all

lemma reauthenticate_session_token_wf:
  "wf_db db \<Longrightarrow> wf_db (reauthenticate_session_token i moment db)"
  unfolding reauthenticate_session_token_def by (rule update_session_token_wf) simp_all

lemma cascade_session_tokens_wf:
  assumes "wf_db db" shows "wf_db (cascade_session_tokens ids db)"
proof -
  have "refs_opt dv_session_token_id (delete_where (\<lambda>r. case dv_session_token_id r of
        None \<Rightarrow> False | Some i \<Rightarrow> i \<in> ids) (db_devices db)) st_token_id
      (delete_where (\<lambda>r. st_token_id r \<in> ids) (db_session_tokens db))"
    using assms by (intro refs_opt_cascade [where D = "\<lambda>i. i \<in> ids"]) (auto simp: wf_defs)
  with assms show ?thesis
    by (auto simp: cascade_session_tokens_def wf_defs)
qed

lemma cascade_sync_users_wf:
  assumes "wf_db db" shows "wf_db (cascade_sync_users uids db)"
proof -
  let ?su = "delete_where (\<lambda>r. su_uid r \<in> uids) (db_sync_users db)"
  have "refs uc_uid (delete_where (\<lambda>r. uc_uid r \<in> uids) (db_user_collections db)) su_uid ?su"
    "refs br_uid (delete_where (\<lambda>r. br_uid r \<in> uids) (db_bso db)) su_uid ?su"
    "refs ba_uid (delete_where (\<lambda>r. ba_uid r \<in> uids) (db_batches db)) su_uid ?su"
    using assms by (auto simp: wf_defs intro!: refs_cascade [where D = "\<lambda>i. i \<in> uids"])
  moreover have "refs bi_batch (delete_where (\<lambda>r. bi_uid r \<in> uids) (db_batch_items db)) ba_key
      (delete_where (\<lambda>r. ba_uid r \<in> uids) (db_batches db))"
    using assms
    by (intro refs_cascade [where D = "\<lambda>k. fst k \<in> uids"]) (auto simp: wf_defs key_defs)
  ultimately show ?thesis
    using assms by (auto simp: cascade_sync_users_def wf_defs)
qed

lemma delete_session_token_wf: "wf_db db \<Longrightarrow> wf_db (snd (delete_session_token i db))"
  by (simp add: delete_session_token_def cascade_session_tokens_wf)

lemma create_key_fetch_token_wf:
  "wf_db db \<Longrightarrow> create_key_fetch_token tok db = Inr db' \<Longrightarrow> wf_db db'"
  by (auto simp: create_key_fetch_token_def has_account_def has_key_iff wf_parts split: if_splits intro!: wf_set_key_fetch_tokens uniq_append)

lemma delete_key_fetch_token_wf: "wf_db db \<Longrightarrow> wf_db (snd (delete_key_fetch_token i db))"
  by (auto simp: delete_key_fetch_token_def wf_parts
      intro!: wf_set_key_fetch_tokens)

lemma create_oauth_code_wf: "wf_db db \<Longrightarrow> create_oauth_code c db = Inr db' \<Longrightarrow> wf_db db'"
  by (auto simp: create_oauth_code_def has_account_def has_key_iff wf_parts split: if_splits intro!: wf_set_oauth_codes uniq_append)

lemma delete_oauth_code_wf: "wf_db db \<Longrightarrow> wf_db (snd (delete_oauth_code i db))"
  by (auto simp: delete_oauth_code_def wf_parts
      intro!: wf_set_oauth_codes)

lemma delete_expired_oauth_codes_wf:
  "wf_db db \<Longrightarrow> wf_db (snd (delete_expired_oauth_codes before db))"
  by (auto simp: delete_expired_oauth_codes_def wf_parts
      intro!: wf_set_oauth_codes)

lemma create_refresh_token_wf:
  "wf_db db \<Longrightarrow> create_refresh_token tok db = Inr db' \<Longrightarrow> wf_db db'"
  by (auto simp: create_refresh_token_def has_account_def has_key_iff wf_parts split: if_splits intro!: wf_set_refresh_tokens uniq_append)

lemma touch_refresh_token_wf: "wf_db db \<Longrightarrow> wf_db (touch_refresh_token i moment db)"
  unfolding touch_refresh_token_def
  by (rule wf_set_refresh_tokens)
    (auto simp: wf_parts intro: uniq_update_where refs_update_child)

lemma delete_refresh_token_wf: "wf_db db \<Longrightarrow> wf_db (snd (delete_refresh_token i db))"
  by (auto simp: delete_refresh_token_def wf_parts
      intro!: wf_set_refresh_tokens)

lemma create_sync_user_wf:
  assumes "wf_db db" and "create_sync_user f c g k moment db = Inr (u, db')"
  shows "wf_db db'"
proof -
  have le: "su_uid r \<le> db_sync_users_seq db" if "r \<in> set (db_sync_users db)" for r
    using assms(1) that by (rule wf_sync_users_seq)
  have f: "f \<in> acc_uid ` set (db_accounts db)"
    and u: "su_uid u = db_sync_users_seq db + 1" "su_fxa_uid u = f"
    and db': "db' = db\<lparr>db_sync_users := db_sync_users db @ [u],
      db_sync_users_seq := db_sync_users_seq db + 1\<rparr>"
    using assms(2)
    by (auto simp: create_sync_user_def has_account_def has_key_iff Let_def split: if_splits)
  have "\<not> has_key su_uid (su_uid u) (db_sync_users db)"
    using le u(1) by (force simp: has_key_iff)
  moreover have "\<forall>r \<in> set (db_sync_users db @ [u]). su_uid r \<le> db_sync_users_seq db + 1"
    using le u(1) by fastforce
  ultimately show ?thesis
    unfolding db' using assms(1) f u(2)
    by (intro wf_set_sync_users) (auto simp: wf_parts intro: uniq_append)
qed

lemma update_sync_users_wf:
  assumes "wf_db db" and f: "\<And>r. su_uid (f r) = su_uid r \<and> su_fxa_uid (f r) = su_fxa_uid r"
  shows "wf_db (db\<lparr>db_sync_users := update_where P f (db_sync_users db)\<rparr>)"
proof -
  have "\<forall>u \<in> set (update_where P f (db_sync_users db)). su_uid u \<le> db_sync_users_seq db"
    using assms by (auto simp: set_update_where wf_sync_users_seq)
  moreover have "su_uid ` set (update_where P f (db_sync_users db)) = su_uid ` set (db_sync_users db)"
    using f by (simp add: image_update_where)
  ultimately have "wf_db (db\<lparr>db_sync_users := update_where P f (db_sync_users db),
      db_sync_users_seq := db_sync_users_seq db\<rparr>)"
    using assms
    by (intro wf_set_sync_users)
      (simp_all add: wf_parts uniq_update_where refs_update_child)
  then show ?thesis by simp
qed

lemma update_sync_user_wf: "wf_db db \<Longrightarrow> wf_db (update_sync_user uid g k db)"
  unfolding update_sync_user_def by (rule update_sync_users_wf) simp_all

lemma replace_sync_user_wf: "wf_db db \<Longrightarrow> wf_db (replace_sync_user uid moment db)"
  unfolding replace_sync_user_def by (rule update_sync_users_wf) simp_all

lemma replace_other_sync_users_wf:
  "wf_db db \<Longrightarrow> wf_db (snd (replace_other_sync_users f keep moment db))"
  unfolding replace_other_sync_users_def Let_def snd_conv
  by (rule update_sync_users_wf) simp_all

lemma refs_drop:
  "refs ck t pk p \<Longrightarrow> \<forall>c \<in> set t. ck c \<noteq> k \<Longrightarrow> refs ck t pk (delete_where (\<lambda>r. pk r = k) p)"
  unfolding refs_def by auto

text \<open>An account none of whose children are left can go.\<close>

lemma drop_account_wf:
  assumes "wf_db db"
    and "\<forall>r \<in> set (db_session_tokens db). st_uid r \<noteq> uid"
    and "\<forall>r \<in> set (db_sync_users db). su_fxa_uid r \<noteq> uid"
  shows "wf_db (db\<lparr>db_accounts := delete_where (\<lambda>r. acc_uid r = uid) (db_accounts db),
      db_key_fetch_tokens := delete_where (\<lambda>r. kf_uid r = uid) (db_key_fetch_tokens db),
      db_devices := delete_where (\<lambda>r. dv_uid r = uid) (db_devices db),
      db_oauth_codes := delete_where (\<lambda>r. oc_uid r = uid) (db_oauth_codes db),
      db_refresh_tokens := delete_where (\<lambda>r. rt_uid r = uid) (db_refresh_tokens db)\<rparr>)"
proof -
  let ?p = "delete_where (\<lambda>r. acc_uid r = uid) (db_accounts db)"
  have "refs st_uid (db_session_tokens db) acc_uid ?p"
    "refs su_fxa_uid (db_sync_users db) acc_uid ?p"
    using assms by (auto simp: wf_parts intro!: refs_drop)
  moreover have
    "refs kf_uid (delete_where (\<lambda>r. kf_uid r = uid) (db_key_fetch_tokens db)) acc_uid ?p"
    "refs dv_uid (delete_where (\<lambda>r. dv_uid r = uid) (db_devices db)) acc_uid ?p"
    "refs oc_uid (delete_where (\<lambda>r. oc_uid r = uid) (db_oauth_codes db)) acc_uid ?p"
    "refs rt_uid (delete_where (\<lambda>r. rt_uid r = uid) (db_refresh_tokens db)) acc_uid ?p"
    using assms(1) by (rule_tac refs_drop, rule_tac refs_delete, simp_all add: wf_parts)+
  ultimately show ?thesis
    using assms(1) unfolding wf_defs by (simp add: uniq_opt_delete refs_opt_delete)
qed

lemma delete_account_wf:
  assumes "wf_db db" shows "wf_db (snd (delete_account uid db))"
proof -
  let ?d1 = "cascade_sync_users
      (su_uid ` set (filter (\<lambda>r. su_fxa_uid r = uid) (db_sync_users db))) db"
  let ?d2 = "cascade_session_tokens
      (st_token_id ` set (filter (\<lambda>r. st_uid r = uid) (db_session_tokens ?d1))) ?d1"
  have "wf_db ?d2" using assms by (simp add: cascade_sync_users_wf cascade_session_tokens_wf)
  moreover have "\<forall>r \<in> set (db_session_tokens ?d2). st_uid r \<noteq> uid"
    by (auto simp: cascade_session_tokens_def)
  moreover have "\<forall>r \<in> set (db_sync_users ?d2). su_fxa_uid r \<noteq> uid"
    by (auto simp: cascade_session_tokens_def cascade_sync_users_def)
  ultimately show ?thesis
    unfolding delete_account_def Let_def snd_conv by (rule drop_account_wf)
qed

lemma device_change_keeps [simp]:
  "dv_id (device_change d x) = dv_id x" "dv_uid (device_change d x) = dv_uid x"
  "dv_session_token_id (device_change d x) = dv_session_token_id d"
  "dv_refresh_token_id (device_change d x) = dv_refresh_token_id d"
  by (simp_all add: device_change_def)

interpretation device_upsert: upsert_statement dv_id "\<lambda>d. d" device_change
  by unfold_locales simp

lemma uniq_opt_upsert_device:
  assumes "uniq_opt col t" and "uniq dv_id t" and "\<not> clashes col d t"
    and col: "\<And>x. col (device_change d x) = col d"
  shows "uniq_opt col (upsert dv_id d (device_change d) t)"
proof (cases "has_key dv_id (dv_id d) t")
  case False
  have "\<forall>x \<in> set t. dv_id x \<noteq> dv_id d" using False unfolding has_key_iff by (metis image_eqI)
  then have "col d \<noteq> None \<longrightarrow> (\<forall>x \<in> set t. col x \<noteq> col d)"
    using assms(3) by (auto simp: clashes_def)
  with False assms(1) show ?thesis
    by (auto simp: upsert_def uniq_opt_def uniq_def)
next
  case True
  have other: "col d = None \<or> (\<forall>x \<in> set t. dv_id x \<noteq> dv_id d \<longrightarrow> col x \<noteq> col d)"
    using assms(3) by (auto simp: clashes_def)
  have "uniq_opt col (update_where (\<lambda>x. dv_id x = dv_id d) (device_change d) t)"
    using assms(1,2) other
  proof (induction t)
    case Nil
    then show ?case by (simp add: update_where_def uniq_opt_def uniq_def)
  next
    case (Cons y t)
    show ?case
    proof (cases "dv_id y = dv_id d")
      case True
      then have "dv_id d \<notin> dv_id ` set t" using Cons.prems(2) by (simp add: uniq_def)
      then have "\<forall>x \<in> set t. dv_id x \<noteq> dv_id d" by (metis image_eqI)
      then have "update_where (\<lambda>x. dv_id x = dv_id d) (device_change d) t = t"
        by (simp add: update_where_def map_idI)
      with True Cons.prems \<open>\<forall>x \<in> set t. dv_id x \<noteq> dv_id d\<close> show ?thesis
        by (auto simp: update_where_def uniq_opt_def uniq_def col split: if_splits)
    next
      case False
      have "uniq_opt col (update_where (\<lambda>x. dv_id x = dv_id d) (device_change d) t)"
        using Cons.prems by (intro Cons.IH) (auto simp: uniq_opt_def uniq_def split: if_splits)
      moreover have "col y \<noteq> None \<longrightarrow>
          col y \<notin> col ` set (update_where (\<lambda>x. dv_id x = dv_id d) (device_change d) t)"
        using Cons.prems(1,3) False
        by (auto simp: set_update_where uniq_opt_def uniq_def col image_iff split: if_splits)
      ultimately show ?thesis
        using False by (auto simp: update_where_def uniq_opt_def uniq_def)
    qed
  qed
  with True show ?thesis by (simp add: upsert_def)
qed

lemma upsert_device_wf:
  assumes "wf_db db" and "upsert_device d db = Inr db'"
  shows "wf_db db'"
proof -
  let ?t = "upsert dv_id d (device_change d) (db_devices db)"
  have clash: "\<not> clashes dv_session_token_id d (db_devices db)"
      "\<not> clashes dv_refresh_token_id d (db_devices db)"
    and acc: "has_account (dv_uid d) db \<or> has_key dv_id (dv_id d) (db_devices db)"
    and st: "\<And>i. dv_session_token_id d = Some i \<Longrightarrow> i \<in> st_token_id ` set (db_session_tokens db)"
    and db': "db' = db\<lparr>db_devices := ?t\<rparr>"
    using assms(2)
    by (auto simp: upsert_device_def has_key_iff split: if_splits option.splits)
  have "uniq dv_id ?t"
    using assms(1) by (simp add: device_upsert.exec_uniq wf_parts)
  moreover have "uniq_opt dv_session_token_id ?t" "uniq_opt dv_refresh_token_id ?t"
    using assms(1) clash by (simp_all add: uniq_opt_upsert_device wf_parts)
  moreover have "refs dv_uid ?t acc_uid (db_accounts db)"
    using wf_parts(19) [OF assms(1)] acc
    by (auto simp: upsert_def refs_def set_update_where has_account_def has_key_iff)
  moreover have "refs_opt dv_session_token_id ?t st_token_id (db_session_tokens db)"
    using wf_parts(20) [OF assms(1)] st
    by (auto simp: upsert_def refs_opt_def set_update_where)
  ultimately show ?thesis unfolding db' by (rule wf_set_devices [OF assms(1)])
qed

lemma delete_device_wf:
  assumes "wf_db db" shows "wf_db (snd (delete_device uid device_id db))"
proof -
  let ?d1 = "db\<lparr>db_devices :=
      delete_where (\<lambda>r. dv_uid r = uid \<and> dv_id r = device_id) (db_devices db)\<rparr>"
  have "wf_db ?d1"
    by (rule wf_set_devices [OF assms])
      (simp_all add: wf_parts assms refs_delete refs_opt_delete uniq_opt_delete)
  then show ?thesis
    by (auto simp: delete_device_def assms delete_session_token_wf delete_refresh_token_wf Let_def
        split: option.split)
qed

lemmas statement_wf = create_account_wf delete_account_wf touch_profile_wf
  create_session_token_wf touch_session_token_wf reauthenticate_session_token_wf
  delete_session_token_wf create_key_fetch_token_wf delete_key_fetch_token_wf
  create_oauth_code_wf delete_oauth_code_wf delete_expired_oauth_codes_wf
  create_refresh_token_wf touch_refresh_token_wf delete_refresh_token_wf
  create_sync_user_wf update_sync_user_wf replace_sync_user_wf replace_other_sync_users_wf
  upsert_device_wf delete_device_wf


subsection \<open>A small database\<close>

text \<open>
  One account with one Sync user (uid 7), who has stored three bookmarks, two of them at
  one instant, and holds one open batch. The concrete inputs of the development start here.
\<close>

definition sample_account :: account where
  "sample_account =
     \<lparr>acc_uid = ''u1'', acc_email = ''A@x'', acc_normalized_email = ''a@x'', acc_email_code = ''c'',
      acc_ka = ''ka'', acc_wrap_wrap_kb = ''kb'', acc_auth_salt = ''s'', acc_verify_hash = ''h'',
      acc_verifier_version = 1, acc_verifier_set_at = 1, acc_created_at = 1,
      acc_keys_changed_at = 1, acc_profile_changed_at = 1, acc_locale = None\<rparr>"

definition sample_user :: sync_user where
  "sample_user =
     \<lparr>su_uid = 7, su_fxa_uid = ''u1'', su_client_state = ''aa'', su_generation = 5,
      su_keys_changed_at = Some 5, su_created_at = 1, su_replaced_at = None\<rparr>"

definition sample_row :: "str \<Rightarrow> int \<Rightarrow> bso_row" where
  "sample_row i m =
     \<lparr>br_uid = 7, br_collection_id = 1, br_id = i, br_sortindex = None, br_payload = ''p'',
      br_modified = m, br_expiry = 3800000000000\<rparr>"

definition sample_database :: database where
  "sample_database = empty_database
     \<lparr>db_accounts := [sample_account], db_sync_users := [sample_user], db_sync_users_seq := 7,
      db_collections := [(0, []), (1, ''bookmarks'')], db_collections_seq := 1,
      db_user_collections := [\<lparr>uc_uid = 7, uc_collection_id = 1, uc_modified = 1700000000020\<rparr>],
      db_bso := [sample_row ''a'' 1700000000010, sample_row ''b'' 1700000000020,
        sample_row ''c'' 1700000000020],
      db_batches := [\<lparr>ba_uid = 7, ba_batch_id = 1700000000500, ba_collection_id = 1\<rparr>]\<rparr>"

lemmas sample_defs = sample_database_def sample_row_def sample_user_def sample_account_def
  empty_database_def

lemma sample_wf: "wf_db sample_database"
  by (simp add: sample_defs wf_defs uniq_def refs_def key_defs)

end
