(* ===== verification/SyncStoreFacts.thy ===== *)
theory SyncStoreFacts
  imports SyncStore DbFacts
begin

text \<open>
  What the methods of \<open>SyncStore\<close> do to the tables, method by method: the shape of a
  successful call (\<open>..._Inr\<close>), that the schema's constraints survive it (\<open>..._wf\<close>), and
  the statement contracts of the four upserts as interpretations of \<open>upsert_statement\<close>.
\<close>

subsection \<open>The upserts\<close>

lemma stamp_key [simp]:
  "uc_key (stamp_row s cid) = (ss_uid s, cid)" "uc_key (stamp_change s cid r) = uc_key r"
  by (simp_all add: stamp_row_def stamp_change_def uc_key_def)

lemma stamp_fields [simp]:
  "uc_uid (stamp_row s cid) = ss_uid s" "uc_collection_id (stamp_row s cid) = cid"
  "uc_modified (stamp_row s cid) = ss_now s" "uc_uid (stamp_change s cid r) = uc_uid r"
  "uc_collection_id (stamp_change s cid r) = uc_collection_id r"
  "uc_modified (stamp_change s cid r) = ss_now s"
  by (simp_all add: stamp_row_def stamp_change_def)

lemma put_key [simp]:
  "br_key (put_row s cid b) = (ss_uid s, cid, pb_id b)" "br_key (put_change s b r) = br_key r"
  by (simp_all add: put_row_def put_change_def br_key_def)

lemma item_key [simp]:
  "bi_key (item_row s batch b) = (ss_uid s, batch, pb_id b)" "bi_key (item_change b r) = bi_key r"
  by (simp_all add: item_row_def item_change_def bi_key_def)

lemma commit_key [simp]:
  "br_key (commit_row s cid i) = (ss_uid s, cid, bi_id i)" "br_key (commit_change s i r) = br_key r"
  by (simp_all add: commit_row_def commit_change_def br_key_def)

interpretation stamp: upsert_statement uc_key "stamp_row s" "stamp_change s" for s
  by unfold_locales simp

interpretation put: upsert_statement br_key "put_row s cid" "put_change s" for s cid
  by unfold_locales simp

interpretation stage: upsert_statement bi_key "item_row s batch" item_change for s batch
  by unfold_locales simp

interpretation commit: upsert_statement br_key "commit_row s cid" "commit_change s" for s cid
  by unfold_locales simp

subsection \<open>Collections\<close>

lemma collection_id_Inr:
  "collection_id name db = Inr cid \<Longrightarrow> (cid, name) \<in> set (db_collections db)"
  by (auto simp: collection_id_def dest: lookup_key_Some)

lemma collection_id_iff:
  assumes "wf_db db"
  shows "collection_id name db = Inr cid \<longleftrightarrow> (cid, name) \<in> set (db_collections db)"
  using assms lookup_key_in [of snd "db_collections db" "(cid, name)"]
  by (auto simp: collection_id_def wf_parts dest: lookup_key_Some)

lemma collection_id_inj:
  assumes "wf_db db" "collection_id n db = Inr c" "collection_id n' db = Inr c"
  shows "n = n'"
  using assms uniq_eq [of fst "db_collections db" "(c, n)" "(c, n')"]
  by (auto simp: wf_parts dest: collection_id_Inr)

lemma get_or_create_eq:
  "get_or_create_collection_id name db =
     bindr (collection_id name (insert_or_ignore_collection name db))
       (\<lambda>cid. Inr (cid, insert_or_ignore_collection name db))"
proof (cases "collection_id name db")
  case (Inl e)
  then show ?thesis by (simp add: get_or_create_collection_id_def Let_def)
next
  case (Inr cid)
  then have "has_key snd name (db_collections db)"
    by (force simp: has_key_iff dest: collection_id_Inr)
  with Inr show ?thesis
    by (simp add: get_or_create_collection_id_def insert_or_ignore_collection_def)
qed

lemma insert_or_ignore_shape:
  "\<exists>cs n. insert_or_ignore_collection name db =
     db\<lparr>db_collections := db_collections db @ cs, db_collections_seq := n\<rparr>"
proof (cases "has_key snd name (db_collections db)")
  case True
  then have "insert_or_ignore_collection name db =
      db\<lparr>db_collections := db_collections db @ [], db_collections_seq := db_collections_seq db\<rparr>"
    by (simp add: insert_or_ignore_collection_def)
  then show ?thesis by blast
qed (auto simp: insert_or_ignore_collection_def)

lemma insert_or_ignore_frame [simp]:
  "db_bso (insert_or_ignore_collection name db) = db_bso db"
  "db_user_collections (insert_or_ignore_collection name db) = db_user_collections db"
  "db_batches (insert_or_ignore_collection name db) = db_batches db"
  "db_batch_items (insert_or_ignore_collection name db) = db_batch_items db"
  "db_sync_users (insert_or_ignore_collection name db) = db_sync_users db"
  using insert_or_ignore_shape [of name db] by auto

lemma insert_or_ignore_keeps:
  assumes "collection_id n db = Inr c"
  shows "collection_id n (insert_or_ignore_collection name db) = Inr c"
proof -
  obtain cs k where d: "insert_or_ignore_collection name db =
      db\<lparr>db_collections := db_collections db @ cs, db_collections_seq := k\<rparr>"
    using insert_or_ignore_shape by blast
  show ?thesis
    using assms unfolding d
    by (cases "lookup_key snd n (db_collections db)")
      (auto simp: collection_id_def lookup_key_def find_append)
qed

lemma insert_or_ignore_wf:
  assumes "wf_db db" shows "wf_db (insert_or_ignore_collection name db)"
proof (cases "has_key snd name (db_collections db)")
  case False
  let ?c = "(db_collections_seq db + 1, name)"
  have le: "0 \<le> fst c \<and> fst c \<le> db_collections_seq db" if "c \<in> set (db_collections db)" for c
    using wf_collections_seq [OF assms that] .
  have "\<not> has_key fst (fst ?c) (db_collections db)"
    using le by (force simp: has_key_iff)
  moreover have "0 \<le> db_collections_seq db" using le wf_parts(31) [OF assms] by force
  moreover have "\<forall>c \<in> set (db_collections db). 0 \<le> fst c \<and> fst c \<le> db_collections_seq db + 1"
    using le by fastforce
  ultimately show ?thesis
    using False assms unfolding insert_or_ignore_collection_def
    by (auto simp: wf_parts intro!: wf_set_collections uniq_append)
qed (simp add: insert_or_ignore_collection_def assms)

lemma get_or_create_Inr:
  assumes "get_or_create_collection_id name db = Inr (cid, db1)"
  shows "db1 = insert_or_ignore_collection name db" "collection_id name db1 = Inr cid"
    "has_key fst cid (db_collections db1)"
  using assms collection_id_Inr [of name db1 cid]
  by (auto simp: get_or_create_eq bindr_eq_Inr has_key_iff image_iff
      intro!: bexI [of _ "(cid, name)"])

lemma get_or_create_total:
  "\<exists>cid. get_or_create_collection_id name db = Inr (cid, insert_or_ignore_collection name db)"
proof -
  have "has_key snd name (db_collections (insert_or_ignore_collection name db))"
    by (auto simp: insert_or_ignore_collection_def has_key_iff)
  then have "lookup_key snd name (db_collections (insert_or_ignore_collection name db)) \<noteq> None"
    by (simp add: has_key_lookup)
  then show ?thesis by (auto simp: get_or_create_eq collection_id_def)
qed

subsection \<open>Stamps\<close>

lemma update_collection_Inr:
  assumes "update_collection s cid db = Inr (t, db')"
  shows "t = ss_now s" "db' = db\<lparr>db_user_collections :=
      upsert uc_key (stamp_row s cid) (stamp_change s cid) (db_user_collections db)\<rparr>"
  using assms by (auto simp: update_collection_def split: if_splits)

lemma update_collection_wf:
  assumes "wf_db db" and "update_collection s cid db = Inr (t, db')"
  shows "wf_db db'"
proof -
  let ?t = "upsert uc_key (stamp_row s cid) (stamp_change s cid) (db_user_collections db)"
  have "uniq uc_key ?t" using assms(1) by (simp add: stamp.exec_uniq wf_parts)
  moreover have "refs uc_uid ?t su_uid (db_sync_users db)"
    "refs uc_collection_id ?t fst (db_collections db)"
    using wf_parts(24,25) [OF assms(1)] assms(2)
    by (auto simp: update_collection_def user_exists_def split: if_splits
        intro!: refs_upsert has_key_iff [THEN iffD1])
  ultimately show ?thesis
    unfolding update_collection_Inr(2) [OF assms(2)]
    by (rule wf_set_user_collections [OF assms(1)])
qed

lemma user_collection_row_stamped:
  "lookup_key uc_key (ss_uid s, cid)
     (upsert uc_key (stamp_row s cid) (stamp_change s cid) (db_user_collections db)) =
   Some (case user_collection_row s cid db of
       None \<Rightarrow> stamp_row s cid | Some r \<Rightarrow> stamp_change s cid r)"
  using stamp.exec_same [of s cid "db_user_collections db"]
  by (simp add: user_collection_row_def)

lemma update_collection_row:
  assumes "update_collection s cid db = Inr (t, db')"
  shows "map_option uc_modified (user_collection_row s cid db') = Some (ss_now s)"
    and "c \<noteq> cid \<Longrightarrow> user_collection_row s c db' = user_collection_row s c db"
proof -
  note d = update_collection_Inr(2) [OF assms]
  show "map_option uc_modified (user_collection_row s cid db') = Some (ss_now s)"
    unfolding d using user_collection_row_stamped [of s cid db]
    by (auto simp: user_collection_row_def stamp_row_def stamp_change_def split: option.splits)
  show "c \<noteq> cid \<Longrightarrow> user_collection_row s c db' = user_collection_row s c db"
    unfolding d user_collection_row_def by (simp add: stamp.exec_other)
qed

subsection \<open>Records\<close>

lemma put_fields [simp]:
  "br_uid (put_row s cid b) = ss_uid s" "br_collection_id (put_row s cid b) = cid"
  "br_id (put_row s cid b) = pb_id b" "br_modified (put_row s cid b) = ss_now s"
  "br_uid (put_change s b r) = br_uid r" "br_collection_id (put_change s b r) = br_collection_id r"
  "br_id (put_change s b r) = br_id r"
  by (simp_all add: put_row_def put_change_def)

lemma commit_fields [simp]:
  "br_uid (commit_row s cid i) = ss_uid s" "br_collection_id (commit_row s cid i) = cid"
  "br_id (commit_row s cid i) = bi_id i" "br_modified (commit_row s cid i) = ss_now s"
  "br_uid (commit_change s i r) = br_uid r"
  "br_collection_id (commit_change s i r) = br_collection_id r"
  "br_id (commit_change s i r) = br_id r" "br_modified (commit_change s i r) = ss_now s"
  by (simp_all add: commit_row_def commit_change_def)

lemma item_fields [simp]:
  "bi_uid (item_row s batch b) = ss_uid s" "bi_id (item_row s batch b) = pb_id b"
  "bi_batch (item_row s batch b) = (ss_uid s, batch)"
  "bi_batch (item_change b r) = bi_batch r"
  by (simp_all add: item_row_def item_change_def bi_batch_def)

lemma upsert_bso_Inr:
  assumes "upsert_bso s cid b db = Inr db'"
  shows "db' = db\<lparr>db_bso := upsert br_key (put_row s cid b) (put_change s b) (db_bso db)\<rparr>"
    and "put_fits s b"
  using assms by (auto simp: upsert_bso_def split: if_splits)

lemma upsert_bso_wf:
  assumes "wf_db db" and "upsert_bso s cid b db = Inr db'"
  shows "wf_db db'"
proof -
  let ?t = "upsert br_key (put_row s cid b) (put_change s b) (db_bso db)"
  have "uniq br_key ?t" using assms(1) by (simp add: put.exec_uniq wf_parts)
  moreover have "refs br_uid ?t su_uid (db_sync_users db)"
    "refs br_collection_id ?t fst (db_collections db)"
    using wf_parts(26,27) [OF assms(1)] assms(2)
    by (auto simp: upsert_bso_def user_exists_def split: if_splits
        intro!: refs_upsert has_key_iff [THEN iffD1])
  ultimately show ?thesis
    unfolding upsert_bso_Inr(1) [OF assms(2)] by (rule wf_set_bso [OF assms(1)])
qed

lemma commit_item_Inr:
  "commit_item s cid i db = Inr db' \<Longrightarrow>
     db' = db\<lparr>db_bso := upsert br_key (commit_row s cid i) (commit_change s i) (db_bso db)\<rparr>"
  by (auto simp: commit_item_def split: if_splits)

lemma commit_item_wf:
  assumes "wf_db db" and "commit_item s cid i db = Inr db'"
  shows "wf_db db'"
proof -
  let ?t = "upsert br_key (commit_row s cid i) (commit_change s i) (db_bso db)"
  have "uniq br_key ?t" using assms(1) by (simp add: commit.exec_uniq wf_parts)
  moreover have "refs br_uid ?t su_uid (db_sync_users db)"
    "refs br_collection_id ?t fst (db_collections db)"
    using wf_parts(26,27) [OF assms(1)] assms(2)
    by (auto simp: commit_item_def user_exists_def split: if_splits
        intro!: refs_upsert has_key_iff [THEN iffD1])
  ultimately show ?thesis
    unfolding commit_item_Inr [OF assms(2)] by (rule wf_set_bso [OF assms(1)])
qed

lemma stage_item_Inr:
  "stage_item s batch b db = Inr db' \<Longrightarrow>
     db' = db\<lparr>db_batch_items :=
       upsert bi_key (item_row s batch b) (item_change b) (db_batch_items db)\<rparr>"
  by (auto simp: stage_item_def split: if_splits)

lemma stage_item_wf:
  assumes "wf_db db" and "stage_item s batch b db = Inr db'"
  shows "wf_db db'"
proof -
  let ?t = "upsert bi_key (item_row s batch b) (item_change b) (db_batch_items db)"
  have "uniq bi_key ?t" using assms(1) by (simp add: stage.exec_uniq wf_parts)
  moreover have "refs bi_batch ?t ba_key (db_batches db)"
    using wf_parts(30) [OF assms(1)] assms(2)
    by (auto simp: stage_item_def split: if_splits
        intro!: refs_upsert has_key_iff [THEN iffD1])
  ultimately show ?thesis
    unfolding stage_item_Inr [OF assms(2)] by (rule wf_set_batch_items [OF assms(1)])
qed

text \<open>The loops: each is the fold of its upsert over one table.\<close>

abbreviation put_all :: "sync_store \<Rightarrow> int \<Rightarrow> posted_bso list \<Rightarrow> bso_row list \<Rightarrow> bso_row list" where
  "put_all s cid bsos t \<equiv> fold (\<lambda>b. upsert br_key (put_row s cid b) (put_change s b)) bsos t"

abbreviation commit_all :: "sync_store \<Rightarrow> int \<Rightarrow> batch_item list \<Rightarrow> bso_row list \<Rightarrow> bso_row list" where
  "commit_all s cid items t \<equiv>
     fold (\<lambda>i. upsert br_key (commit_row s cid i) (commit_change s i)) items t"

abbreviation stage_all ::
  "sync_store \<Rightarrow> int \<Rightarrow> posted_bso list \<Rightarrow> batch_item list \<Rightarrow> batch_item list" where
  "stage_all s batch bsos t \<equiv>
     fold (\<lambda>b. upsert bi_key (item_row s batch b) (item_change b)) bsos t"

lemma put_loop_Inr:
  "foldr_exn (\<lambda>b d. bindr (put_bso s collection b (Some cid) False d) (\<lambda>(_, d'). Inr d'))
     bsos db = Inr db' \<Longrightarrow> db' = db\<lparr>db_bso := put_all s cid bsos (db_bso db)\<rparr>"
proof (induction bsos arbitrary: db)
  case Nil
  then show ?case by simp
next
  case (Cons b bsos)
  then show ?case
    by (fastforce simp: put_bso_def bindr_eq_Inr dest!: upsert_bso_Inr(1))
qed

lemma commit_loop_Inr:
  "foldr_exn (commit_item s cid) items db = Inr db' \<Longrightarrow>
     db' = db\<lparr>db_bso := commit_all s cid items (db_bso db)\<rparr>"
proof (induction items arbitrary: db)
  case Nil
  then show ?case by simp
next
  case (Cons i items)
  then show ?case by (fastforce simp: bindr_eq_Inr dest!: commit_item_Inr)
qed

lemma stage_loop_Inr:
  "foldr_exn (stage_item s batch) bsos db = Inr db' \<Longrightarrow>
     db' = db\<lparr>db_batch_items := stage_all s batch bsos (db_batch_items db)\<rparr>"
proof (induction bsos arbitrary: db)
  case Nil
  then show ?case by simp
next
  case (Cons b bsos)
  then show ?case by (fastforce simp: bindr_eq_Inr dest!: stage_item_Inr)
qed

lemma put_bso_Inr:
  assumes "put_bso s collection b None True db = Inr (t, db')"
  obtains cid where "collection_id collection (insert_or_ignore_collection collection db) = Inr cid"
    and "t = ss_now s"
    and "db' = (insert_or_ignore_collection collection db)
       \<lparr>db_bso := upsert br_key (put_row s cid b) (put_change s b) (db_bso db),
        db_user_collections :=
          upsert uc_key (stamp_row s cid) (stamp_change s cid) (db_user_collections db)\<rparr>"
proof -
  from assms obtain cid db1 db2 where
    g: "get_or_create_collection_id collection db = Inr (cid, db1)" and
    u: "upsert_bso s cid b db1 = Inr db2" and c: "update_collection s cid db2 = Inr (t, db')"
    by (auto simp: put_bso_def bindr_eq_Inr)
  show thesis
    by (rule that [of cid])
      (use get_or_create_Inr [OF g] upsert_bso_Inr(1) [OF u] update_collection_Inr [OF c]
        in simp_all)
qed

lemma put_bso_wf:
  assumes "wf_db db" and "put_bso s collection b None True db = Inr (t, db')"
  shows "wf_db db'"
proof -
  from assms(2) obtain cid db1 db2 where
    g: "get_or_create_collection_id collection db = Inr (cid, db1)" and
    u: "upsert_bso s cid b db1 = Inr db2" and c: "update_collection s cid db2 = Inr (t, db')"
    by (auto simp: put_bso_def bindr_eq_Inr)
  have "wf_db db1" using insert_or_ignore_wf [OF assms(1)] get_or_create_Inr(1) [OF g] by simp
  then show ?thesis using update_collection_wf [OF upsert_bso_wf [OF _ u] c] by simp
qed

lemma post_bsos_Inr:
  assumes "post_bsos s collection bsos stamped db = Inr (t, db')"
  obtains cid where "collection_id collection (insert_or_ignore_collection collection db) = Inr cid"
    and "t = ss_now s"
    and "\<not> stamped \<Longrightarrow> check_write s cid (insert_or_ignore_collection collection db) = Inr ()"
    and "db' = (insert_or_ignore_collection collection db)
       \<lparr>db_bso := put_all s cid bsos (db_bso db),
        db_user_collections :=
          upsert uc_key (stamp_row s cid) (stamp_change s cid) (db_user_collections db)\<rparr>"
proof -
  from assms obtain cid db1 db2 where
    g: "get_or_create_collection_id collection db = Inr (cid, db1)" and
    k: "\<not> stamped \<Longrightarrow> check_write s cid db1 = Inr ()" and
    u: "foldr_exn (\<lambda>b d. bindr (put_bso s collection b (Some cid) False d) (\<lambda>(_, d'). Inr d'))
       bsos db1 = Inr db2" and
    c: "update_collection s cid db2 = Inr (t, db')"
    by (auto simp: post_bsos_def bindr_eq_Inr split: if_splits)
  show thesis
    by (rule that [of cid])
      (use get_or_create_Inr [OF g] put_loop_Inr [OF u] update_collection_Inr [OF c] k
        in simp_all)
qed

lemma post_bsos_wf:
  assumes "wf_db db" and "post_bsos s collection bsos stamped db = Inr (t, db')"
  shows "wf_db db'"
proof -
  from assms(2) obtain cid db1 db2 where
    g: "get_or_create_collection_id collection db = Inr (cid, db1)" and
    u: "foldr_exn (\<lambda>b d. bindr (put_bso s collection b (Some cid) False d) (\<lambda>(_, d'). Inr d'))
       bsos db1 = Inr db2" and
    c: "update_collection s cid db2 = Inr (t, db')"
    by (auto simp: post_bsos_def bindr_eq_Inr)
  have "wf_db db1" using insert_or_ignore_wf [OF assms(1)] get_or_create_Inr(1) [OF g] by simp
  then have "wf_db db2"
    by (rule foldr_exn_invariant [OF u])
      (auto simp: put_bso_def bindr_eq_Inr dest: upsert_bso_wf)
  then show ?thesis using c by (rule update_collection_wf)
qed

subsection \<open>Deletions\<close>

lemma delete_rows_wf:
  "wf_db db \<Longrightarrow> wf_db (db\<lparr>db_bso := delete_where P (db_bso db)\<rparr>)"
  by (rule wf_set_bso) (auto simp: wf_parts)

lemma delete_stamps_wf:
  "wf_db db \<Longrightarrow> wf_db (db\<lparr>db_user_collections := delete_where P (db_user_collections db)\<rparr>)"
  by (rule wf_set_user_collections) (auto simp: wf_parts)

lemma delete_bso_Inr:
  assumes "delete_bso s collection i db = Inr (t, db')"
  obtains cid where "collection_id collection db = Inr cid" "t = ss_now s"
    "\<exists>r \<in> set (db_bso db). br_key r = (ss_uid s, cid, i) \<and> ss_now s < br_expiry r"
    "db' = db\<lparr>db_bso := delete_where
        (\<lambda>r. br_key r = (ss_uid s, cid, i) \<and> ss_now s < br_expiry r) (db_bso db),
      db_user_collections :=
        upsert uc_key (stamp_row s cid) (stamp_change s cid) (db_user_collections db)\<rparr>"
  using assms
  by (fastforce simp: delete_bso_def bindr_eq_Inr Let_def split: if_splits
      dest: update_collection_Inr)

lemma delete_bso_wf:
  "wf_db db \<Longrightarrow> delete_bso s collection i db = Inr (t, db') \<Longrightarrow> wf_db db'"
  by (auto simp: delete_bso_def bindr_eq_Inr Let_def split: if_splits
      intro: update_collection_wf delete_rows_wf)

lemma delete_bsos_Inr:
  assumes "delete_bsos s collection ids db = Inr (t, db')" and "ids \<noteq> []"
  obtains cid where "collection_id collection db = Inr cid" "t = ss_now s"
    "db' = db\<lparr>db_bso := delete_where (\<lambda>r. br_uid r = ss_uid s \<and> br_collection_id r = cid \<and>
        br_id r \<in> set ids) (db_bso db),
      db_user_collections :=
        upsert uc_key (stamp_row s cid) (stamp_change s cid) (db_user_collections db)\<rparr>"
  using assms
  by (fastforce simp: delete_bsos_def bindr_eq_Inr Let_def split: if_splits
      dest: update_collection_Inr)

lemma delete_bsos_wf:
  "wf_db db \<Longrightarrow> delete_bsos s collection ids db = Inr (t, db') \<Longrightarrow> wf_db db'"
  by (auto simp: delete_bsos_def bindr_eq_Inr Let_def split: if_splits
      intro: update_collection_wf delete_rows_wf)

lemma delete_collection_Inr:
  assumes "delete_collection s collection db = Inr (t, db')"
  obtains cid where "collection_id collection db = Inr cid" "t = storage_timestamp s db'"
    "(\<exists>r \<in> set (db_bso db). br_uid r = ss_uid s \<and> br_collection_id r = cid) \<or>
     (\<exists>u \<in> set (db_user_collections db). uc_key u = (ss_uid s, cid))"
    "db' = db\<lparr>db_bso := delete_where
        (\<lambda>r. br_uid r = ss_uid s \<and> br_collection_id r = cid) (db_bso db),
      db_user_collections :=
        upsert uc_key (stamp_row s TOMBSTONE) (stamp_change s TOMBSTONE)
          (delete_where (\<lambda>r. uc_uid r = ss_uid s \<and> uc_collection_id r = cid)
            (db_user_collections db))\<rparr>"
  using assms
  by (fastforce simp: delete_collection_def erect_tombstone_def bindr_eq_Inr Let_def uc_key_def
      split: if_splits dest: update_collection_Inr)

lemma delete_collection_wf:
  "wf_db db \<Longrightarrow> delete_collection s collection db = Inr (t, db') \<Longrightarrow> wf_db db'"
  using delete_stamps_wf [OF delete_rows_wf]
  by (auto simp: delete_collection_def erect_tombstone_def bindr_eq_Inr Let_def split: if_splits
      intro: update_collection_wf)

lemma delete_batches_wf:
  assumes "wf_db db" and "\<And>b. Q b \<Longrightarrow> D (ba_key b)" and "\<And>i. D (bi_batch i) \<Longrightarrow> P i"
  shows "wf_db (db\<lparr>db_batch_items := delete_where P (db_batch_items db),
     db_batches := delete_where Q (db_batches db)\<rparr>)"
proof -
  have "refs bi_batch (delete_where P (db_batch_items db)) ba_key
      (delete_where Q (db_batches db))"
    using assms(2,3) wf_parts(30) [OF assms(1)] by (intro refs_cascade [where D = D]) auto
  with assms(1) show ?thesis unfolding wf_defs by (simp add: refs_delete)
qed

lemma delete_storage_wf: "wf_db db \<Longrightarrow> wf_db (delete_storage s db)"
  using delete_batches_wf [OF delete_stamps_wf [OF delete_rows_wf],
      where Q = "\<lambda>r. ba_uid r = ss_uid s" and D = "\<lambda>k. fst k = ss_uid s"
        and P = "\<lambda>r. bi_uid r = ss_uid s"]
  by (simp add: delete_storage_def key_defs)

lemma delete_batch_rows_wf: "wf_db db \<Longrightarrow> wf_db (delete_batch_rows s batch db)"
  unfolding delete_batch_rows_def
  by (rule delete_batches_wf [where D = "\<lambda>k. k = (ss_uid s, batch)"]) (simp_all add: key_defs)

subsection \<open>Batches\<close>

lemma allocate_batch_Inr:
  "allocate_batch n s cid from db = Inr (i, db') \<Longrightarrow>
     from \<le> i \<and> i < from + int n \<and> \<not> has_key ba_key (ss_uid s, i) (db_batches db) \<and>
     user_exists s db \<and> has_key fst cid (db_collections db) \<and>
     (\<forall>j. from \<le> j \<and> j < i \<longrightarrow> has_key ba_key (ss_uid s, j) (db_batches db)) \<and>
     db' = db\<lparr>db_batches := db_batches db @
       [\<lparr>ba_uid = ss_uid s, ba_batch_id = i, ba_collection_id = cid\<rparr>]\<rparr>"
proof (induction n arbitrary: "from")
  case 0
  then show ?case by simp
next
  case (Suc n)
  show ?case
  proof (cases "has_key ba_key (ss_uid s, from) (db_batches db) \<or>
      \<not> (user_exists s db \<and> has_key fst cid (db_collections db))")
    case True
    with Suc.prems have "allocate_batch n s cid (from + 1) db = Inr (i, db')" by simp
    note ih = Suc.IH [OF this]
    then have "has_key ba_key (ss_uid s, from) (db_batches db)" using True by blast
    moreover have "j = from \<or> from + 1 \<le> j" if "from \<le> j" for j using that by linarith
    ultimately show ?thesis using ih by auto
  next
    case False
    with Suc.prems show ?thesis by auto
  qed
qed

lemma create_batch_wf:
  assumes "wf_db db" and "create_batch s collection db = Inr (b, db')"
  shows "wf_db db'"
proof -
  from assms(2) obtain cid db1 i where
    g: "get_or_create_collection_id collection db = Inr (cid, db1)" and
    a: "allocate_batch MAX_BATCH_CREATE_RETRY s cid (ss_now s) db1 = Inr (i, db')"
    by (auto simp: create_batch_def bindr_eq_Inr)
  have w: "wf_db db1" using insert_or_ignore_wf [OF assms(1)] get_or_create_Inr(1) [OF g] by simp
  note a = allocate_batch_Inr [OF a]
  have "refs bi_batch (db_batch_items db1) ba_key (db_batches db')"
    using a wf_parts(30) [OF w] by (auto simp: refs_def)
  moreover have "db' = db1\<lparr>db_batches := db_batches db'\<rparr>" using a by simp
  moreover have "uniq ba_key (db_batches db')"
    using a w by (auto simp: ba_key_def wf_parts intro!: uniq_append)
  moreover have "refs ba_uid (db_batches db') su_uid (db_sync_users db1)"
    "refs ba_collection_id (db_batches db') fst (db_collections db1)"
    using a w by (auto simp: wf_parts user_exists_def has_key_iff)
  ultimately show ?thesis using wf_set_batches [OF w] by metis
qed

lemma append_to_batch_Inr:
  assumes "append_to_batch s collection batch bsos db = Inr db'"
  obtains i where "decode_batch_id batch = Inr i"
    "validate_batch s collection batch db = Inr True"
    "db' = db\<lparr>db_batch_items := stage_all s i bsos (db_batch_items db)\<rparr>"
  using assms
  by (auto simp: append_to_batch_def bindr_eq_Inr split: if_splits dest!: stage_loop_Inr)

lemma append_to_batch_wf:
  "wf_db db \<Longrightarrow> append_to_batch s collection batch bsos db = Inr db' \<Longrightarrow> wf_db db'"
  by (auto simp: append_to_batch_def bindr_eq_Inr split: if_splits
      elim!: foldr_exn_invariant [where P = wf_db] intro: stage_item_wf)

lemma commit_batch_Inr:
  assumes "commit_batch s collection batch db = Inr (t, db')"
  obtains cid i where "collection_id collection (insert_or_ignore_collection collection db) = Inr cid"
    "decode_batch_id batch = Inr i" "t = ss_now s"
    "db' = delete_batch_rows s i ((insert_or_ignore_collection collection db)
       \<lparr>db_bso := commit_all s cid (staged_items s i db) (db_bso db),
        db_user_collections :=
          upsert uc_key (stamp_row s cid) (stamp_change s cid) (db_user_collections db)\<rparr>)"
proof -
  from assms obtain i cid db1 db2 u db3 where
    d: "decode_batch_id batch = Inr i" and
    g: "get_or_create_collection_id collection db = Inr (cid, db1)" and
    l: "foldr_exn (commit_item s cid) (staged_items s i db1) db1 = Inr db2" and
    c: "update_collection s cid db2 = Inr (u, db3)" and
    e: "db' = delete_batch_rows s i db3" "t = ss_now s"
    by (auto simp: commit_batch_def delete_batch_def bindr_eq_Inr split: if_splits)
  have "staged_items s i db1 = staged_items s i db"
    by (simp add: staged_items_def get_or_create_Inr(1) [OF g])
  then show thesis
    by (intro that [of cid i])
      (use get_or_create_Inr [OF g] d e commit_loop_Inr [OF l] update_collection_Inr [OF c]
        in simp_all)
qed

lemma commit_batch_wf:
  assumes "wf_db db" and "commit_batch s collection batch db = Inr (t, db')"
  shows "wf_db db'"
proof -
  from assms(2) obtain i cid db1 db2 u db3 where
    g: "get_or_create_collection_id collection db = Inr (cid, db1)" and
    l: "foldr_exn (commit_item s cid) (staged_items s i db1) db1 = Inr db2" and
    c: "update_collection s cid db2 = Inr (u, db3)" and
    e: "db' = delete_batch_rows s i db3"
    by (auto simp: commit_batch_def delete_batch_def bindr_eq_Inr split: if_splits)
  have "wf_db db1" using insert_or_ignore_wf [OF assms(1)] get_or_create_Inr(1) [OF g] by simp
  then have "wf_db db2" by (rule foldr_exn_invariant [OF l]) (rule commit_item_wf)
  then show ?thesis unfolding e by (intro delete_batch_rows_wf update_collection_wf [OF _ c])
qed

subsection \<open>Other users, and the account side\<close>

definition user_slice ::
  "int \<Rightarrow> database \<Rightarrow> user_collection list \<times> bso_row list \<times> batch_row list \<times> batch_item list" where
  "user_slice uid db =
     (filter (\<lambda>r. uc_uid r = uid) (db_user_collections db),
      filter (\<lambda>r. br_uid r = uid) (db_bso db),
      filter (\<lambda>r. ba_uid r = uid) (db_batches db),
      filter (\<lambda>r. bi_uid r = uid) (db_batch_items db))"

text \<open>Everything but the storage tables: accounts, tokens, codes, devices, Sync users.\<close>

definition storage_emptied :: "database \<Rightarrow> database" where
  "storage_emptied db =
     db\<lparr>db_collections := [], db_collections_seq := 0, db_user_collections := [], db_bso := [],
        db_batches := [], db_batch_items := []\<rparr>"

definition store_frame :: "int \<Rightarrow> database \<Rightarrow> database \<Rightarrow> bool" where
  "store_frame uid db db' \<longleftrightarrow>
     storage_emptied db' = storage_emptied db \<and>
     (\<forall>other. other \<noteq> uid \<longrightarrow> user_slice other db' = user_slice other db)"

lemma store_frame_refl [simp]: "store_frame uid db db"
  by (simp add: store_frame_def)

lemma store_frame_trans:
  "store_frame uid db db' \<Longrightarrow> store_frame uid db' db'' \<Longrightarrow> store_frame uid db db''"
  by (simp add: store_frame_def)

lemma insert_or_ignore_store_frame [simp]:
  "store_frame uid db (insert_or_ignore_collection name db)"
  by (simp add: store_frame_def user_slice_def insert_or_ignore_collection_def storage_emptied_def)

lemma frame_delete_where_other:
  "(\<And>r. P r \<Longrightarrow> k r = uid) \<Longrightarrow> other \<noteq> uid \<Longrightarrow>
     filter (\<lambda>r. k r = other) (delete_where P t) = filter (\<lambda>r. k r = other) t"
  by (rule filter_delete_where) auto

lemma stamp_other:
  "other \<noteq> ss_uid s \<Longrightarrow>
     filter (\<lambda>r. uc_uid r = other) (upsert uc_key (stamp_row s cid) (stamp_change s cid) t) =
     filter (\<lambda>r. uc_uid r = other) t"
  by (rule stamp.exec_frame) (auto simp: uc_key_def)

lemma put_all_other:
  "other \<noteq> ss_uid s \<Longrightarrow>
     filter (\<lambda>r. br_uid r = other) (put_all s cid bsos t) = filter (\<lambda>r. br_uid r = other) t"
  by (rule put.execs_frame) (auto simp: br_key_def)

lemma commit_all_other:
  "other \<noteq> ss_uid s \<Longrightarrow>
     filter (\<lambda>r. br_uid r = other) (commit_all s cid items t) = filter (\<lambda>r. br_uid r = other) t"
  by (rule commit.execs_frame) (auto simp: br_key_def)

lemma stage_all_other:
  "other \<noteq> ss_uid s \<Longrightarrow>
     filter (\<lambda>r. bi_uid r = other) (stage_all s batch bsos t) = filter (\<lambda>r. bi_uid r = other) t"
  by (rule stage.execs_frame) (auto simp: bi_key_def)

lemmas frame_defs = store_frame_def user_slice_def storage_emptied_def
lemmas other_simps = stamp_other put_all_other commit_all_other stage_all_other

lemma put_bso_frame:
  assumes "put_bso s collection b None True db = Inr (t, db')"
  shows "store_frame (ss_uid s) db db'"
proof (rule put_bso_Inr [OF assms])
  fix cid
  assume "db' = (insert_or_ignore_collection collection db)
       \<lparr>db_bso := upsert br_key (put_row s cid b) (put_change s b) (db_bso db),
        db_user_collections :=
          upsert uc_key (stamp_row s cid) (stamp_change s cid) (db_user_collections db)\<rparr>"
  then have "store_frame (ss_uid s) (insert_or_ignore_collection collection db) db'"
    using put_all_other [of _ s cid "[b]" "db_bso db"] by (simp add: frame_defs stamp_other)
  then show ?thesis by (rule store_frame_trans [OF insert_or_ignore_store_frame])
qed

lemma post_bsos_frame:
  assumes "post_bsos s collection bsos stamped db = Inr (t, db')"
  shows "store_frame (ss_uid s) db db'"
proof (rule post_bsos_Inr [OF assms])
  fix cid
  assume "db' = (insert_or_ignore_collection collection db)
       \<lparr>db_bso := put_all s cid bsos (db_bso db),
        db_user_collections :=
          upsert uc_key (stamp_row s cid) (stamp_change s cid) (db_user_collections db)\<rparr>"
  then have "store_frame (ss_uid s) (insert_or_ignore_collection collection db) db'"
    by (simp add: frame_defs other_simps)
  then show ?thesis by (rule store_frame_trans [OF insert_or_ignore_store_frame])
qed

lemma delete_bso_frame:
  assumes "delete_bso s collection i db = Inr (t, db')"
  shows "store_frame (ss_uid s) db db'"
  by (rule delete_bso_Inr [OF assms])
    (auto simp: frame_defs stamp_other br_key_def intro!: frame_delete_where_other [where uid = "ss_uid s"])

lemma delete_bsos_frame:
  assumes "delete_bsos s collection ids db = Inr (t, db')" and "ids \<noteq> []"
  shows "store_frame (ss_uid s) db db'"
  by (rule delete_bsos_Inr [OF assms])
    (auto simp: frame_defs stamp_other intro!: frame_delete_where_other [where uid = "ss_uid s"])

lemma delete_collection_frame:
  assumes "delete_collection s collection db = Inr (t, db')"
  shows "store_frame (ss_uid s) db db'"
  by (rule delete_collection_Inr [OF assms])
    (auto simp: frame_defs stamp_other intro!: frame_delete_where_other [where uid = "ss_uid s"])

lemma delete_storage_frame: "store_frame (ss_uid s) db (delete_storage s db)"
  by (auto simp: frame_defs delete_storage_def
      intro!: frame_delete_where_other [where uid = "ss_uid s"])

lemma delete_batch_rows_frame: "store_frame (ss_uid s) db (delete_batch_rows s i db)"
  by (auto simp: frame_defs delete_batch_rows_def
      intro!: frame_delete_where_other [where uid = "ss_uid s"])

lemma create_batch_frame:
  assumes "create_batch s collection db = Inr (b, db')"
  shows "store_frame (ss_uid s) db db'"
proof -
  from assms obtain cid db1 i where
    g: "get_or_create_collection_id collection db = Inr (cid, db1)" and
    a: "allocate_batch MAX_BATCH_CREATE_RETRY s cid (ss_now s) db1 = Inr (i, db')"
    by (auto simp: create_batch_def bindr_eq_Inr)
  have "store_frame (ss_uid s) db1 db'"
    using allocate_batch_Inr [OF a] by (simp add: frame_defs)
  then show ?thesis
    using store_frame_trans [OF insert_or_ignore_store_frame] get_or_create_Inr(1) [OF g] by blast
qed

lemma append_to_batch_frame:
  assumes "append_to_batch s collection batch bsos db = Inr db'"
  shows "store_frame (ss_uid s) db db'"
  by (rule append_to_batch_Inr [OF assms]) (simp add: frame_defs stage_all_other)

lemma commit_batch_frame:
  assumes "commit_batch s collection batch db = Inr (t, db')"
  shows "store_frame (ss_uid s) db db'"
proof (rule commit_batch_Inr [OF assms])
  fix cid i
  let ?d = "(insert_or_ignore_collection collection db)
       \<lparr>db_bso := commit_all s cid (staged_items s i db) (db_bso db),
        db_user_collections :=
          upsert uc_key (stamp_row s cid) (stamp_change s cid) (db_user_collections db)\<rparr>"
  assume d: "db' = delete_batch_rows s i ?d"
  have "store_frame (ss_uid s) (insert_or_ignore_collection collection db) ?d"
    by (simp add: frame_defs other_simps)
  then show ?thesis
    unfolding d
    by (meson store_frame_trans insert_or_ignore_store_frame delete_batch_rows_frame)
qed

end
