(* ===== verification/SyncInvariant.thy ===== *)
theory SyncInvariant
  imports SyncStoreFacts
begin

text \<open>
  The invariant delta sync rests on: no record is newer than the stamp of its collection,
  every instant in the tables is a whole hundredth of a second that SQLite can hold, and
  the tombstone's id 0 carries no record. Every write that a collection's guard
  (\<open>check_write\<close>) let through keeps it.
\<close>

definition instant :: "int \<Rightarrow> bool" where
  "instant t \<longleftrightarrow> 0 \<le> t \<and> t mod 10 = 0 \<and> sql_int t"

definition row_stamped :: "user_collection list \<Rightarrow> bso_row \<Rightarrow> bool" where
  "row_stamped ucs r \<longleftrightarrow>
     (\<exists>u \<in> set ucs. uc_key u = (br_uid r, br_collection_id r) \<and> br_modified r \<le> uc_modified u)"

definition sync_inv :: "database \<Rightarrow> bool" where
  "sync_inv db \<longleftrightarrow>
     (\<forall>r \<in> set (db_bso db). row_stamped (db_user_collections db) r \<and> instant (br_modified r) \<and>
        br_collection_id r \<noteq> TOMBSTONE) \<and>
     (\<forall>u \<in> set (db_user_collections db). instant (uc_modified u))"

definition not_past :: "sync_store \<Rightarrow> int \<Rightarrow> database \<Rightarrow> bool" where
  "not_past s cid db \<longleftrightarrow>
     (case user_collection_row s cid db of None \<Rightarrow> True | Some u \<Rightarrow> uc_modified u \<le> ss_now s)"

lemma check_write_not_past: "check_write s cid db = Inr () \<Longrightarrow> not_past s cid db"
  by (auto simp: check_write_def not_past_def split: option.splits)

lemma check_write_Inr:
  "check_write s cid db = Inr () \<longleftrightarrow>
     (case user_collection_row s cid db of None \<Rightarrow> True | Some u \<Rightarrow> uc_modified u < ss_now s)"
  by (auto simp: check_write_def split: option.splits)

lemma user_collection_row_in:
  assumes "wf_db db" and "u \<in> set (db_user_collections db)" and "uc_key u = (ss_uid s, cid)"
  shows "user_collection_row s cid db = Some u"
  using lookup_key_in [OF wf_parts(13) [OF assms(1)] assms(2)] assms(3)
  by (simp add: user_collection_row_def)

lemma not_past_le:
  assumes "wf_db db" "not_past s cid db"
    and "u \<in> set (db_user_collections db)" "uc_key u = (ss_uid s, cid)"
  shows "uc_modified u \<le> ss_now s"
  using user_collection_row_in [OF assms(1,3,4)] assms(2) by (simp add: not_past_def)

lemma sync_inv_cong:
  "db_bso db' = db_bso db \<Longrightarrow> db_user_collections db' = db_user_collections db \<Longrightarrow>
     sync_inv db' = sync_inv db"
  by (simp add: sync_inv_def)

lemma own_rows_not_future:
  assumes "wf_db db" "sync_inv db" "not_past s cid db" "r \<in> set (db_bso db)"
    and "br_uid r = ss_uid s" "br_collection_id r = cid"
  shows "br_modified r \<le> ss_now s"
proof -
  obtain u where "u \<in> set (db_user_collections db)"
      "uc_key u = (ss_uid s, cid)" "br_modified r \<le> uc_modified u"
    using assms by (auto simp: sync_inv_def row_stamped_def)
  then show ?thesis using not_past_le [OF assms(1,3)] by fastforce
qed

abbreviation stamp_upsert :: "sync_store \<Rightarrow> int \<Rightarrow> user_collection list \<Rightarrow> user_collection list" where
  "stamp_upsert s cid t \<equiv> upsert uc_key (stamp_row s cid) (stamp_change s cid) t"

lemma stamp_upsert_here: "\<exists>u \<in> set (stamp_upsert s cid t). uc_key u = (ss_uid s, cid) \<and> uc_modified u = ss_now s"
proof -
  have "lookup_key uc_key (ss_uid s, cid) (stamp_upsert s cid t) =
      Some (case lookup_key uc_key (ss_uid s, cid) t of
          None \<Rightarrow> stamp_row s cid | Some x \<Rightarrow> stamp_change s cid x)"
    using stamp.exec_same [of s cid t] by simp
  then show ?thesis by (auto dest!: lookup_key_Some split: option.splits)
qed

lemma stamp_upsert_other:
  "u \<in> set t \<Longrightarrow> uc_key u \<noteq> (ss_uid s, cid) \<Longrightarrow> u \<in> set (stamp_upsert s cid t)"
  by (auto simp: upsert_def set_update_where)

lemma stamp_upsert_cases:
  "u \<in> set (stamp_upsert s cid t) \<Longrightarrow>
     u \<in> set t \<and> uc_key u \<noteq> (ss_uid s, cid) \<or> uc_key u = (ss_uid s, cid) \<and> uc_modified u = ss_now s"
  by (auto simp: upsert_def set_update_where has_key_def list_ex_iff split: if_splits)

text \<open>A write to one collection: rows of it at most now, everything else as it was.\<close>

lemma write_keeps_inv:
  assumes wf: "wf_db db" and inv: "sync_inv db" and now: "instant (ss_now s)"
    and past: "not_past s cid db" and cid: "cid \<noteq> TOMBSTONE"
    and rows: "\<forall>r \<in> set t. r \<in> set (db_bso db) \<or> br_uid r = ss_uid s \<and>
        br_collection_id r = cid \<and> br_modified r \<le> ss_now s \<and> instant (br_modified r)"
  shows "sync_inv (db\<lparr>db_bso := t,
      db_user_collections := stamp_upsert s cid (db_user_collections db)\<rparr>)"
proof -
  let ?ucs = "stamp_upsert s cid (db_user_collections db)"
  have "row_stamped ?ucs r \<and> instant (br_modified r) \<and> br_collection_id r \<noteq> TOMBSTONE"
    if "r \<in> set t" for r
  proof (cases "br_uid r = ss_uid s \<and> br_collection_id r = cid")
    case True
    then have "br_modified r \<le> ss_now s \<and> instant (br_modified r)"
      using rows that own_rows_not_future [OF wf inv past] inv by (auto simp: sync_inv_def)
    with True cid stamp_upsert_here [of s cid "db_user_collections db"] show ?thesis
      by (auto simp: row_stamped_def)
  next
    case False
    with rows that have r: "r \<in> set (db_bso db)" by blast
    then obtain u where "u \<in> set (db_user_collections db)"
        "uc_key u = (br_uid r, br_collection_id r)" "br_modified r \<le> uc_modified u"
      using inv by (auto simp: sync_inv_def row_stamped_def)
    with False have "row_stamped ?ucs r"
      unfolding row_stamped_def by (intro bexI [of _ u] conjI stamp_upsert_other) auto
    with r inv show ?thesis by (simp add: sync_inv_def)
  qed
  moreover have "instant (uc_modified u)" if "u \<in> set ?ucs" for u
    using stamp_upsert_cases [OF that] inv now by (auto simp: sync_inv_def)
  ultimately show ?thesis by (simp add: sync_inv_def)
qed

lemma put_all_rows:
  assumes wf: "wf_db db" and inv: "sync_inv db" and now: "instant (ss_now s)"
    and past: "not_past s cid db"
  shows "\<forall>r \<in> set (put_all s cid bsos (db_bso db)). r \<in> set (db_bso db) \<or> br_uid r = ss_uid s \<and>
      br_collection_id r = cid \<and> br_modified r \<le> ss_now s \<and> instant (br_modified r)"
proof (rule put.execs_all)
  fix b r
  assume k: "br_key r = br_key (put_row s cid b)" and
    P: "r \<in> set (db_bso db) \<or> br_uid r = ss_uid s \<and> br_collection_id r = cid \<and>
      br_modified r \<le> ss_now s \<and> instant (br_modified r)"
  have own: "br_uid r = ss_uid s" "br_collection_id r = cid"
    using k by (simp_all add: br_key_def)
  then have "br_modified r \<le> ss_now s" "instant (br_modified r)"
    using P own_rows_not_future [OF wf inv past] inv by (auto simp: sync_inv_def)
  with own now show "put_change s b r \<in> set (db_bso db) \<or> br_uid (put_change s b r) = ss_uid s \<and>
      br_collection_id (put_change s b r) = cid \<and> br_modified (put_change s b r) \<le> ss_now s \<and>
      instant (br_modified (put_change s b r))"
    by (auto simp: put_change_def)
qed (use now in auto)

lemma commit_all_rows:
  assumes "instant (ss_now s)"
  shows "\<forall>r \<in> set (commit_all s cid items t). r \<in> set t \<or> br_uid r = ss_uid s \<and>
      br_collection_id r = cid \<and> br_modified r \<le> ss_now s \<and> instant (br_modified r)"
  by (rule commit.execs_all) (use assms in \<open>auto simp: br_key_def\<close>)

subsection \<open>The methods\<close>

lemma collection_id_not_tombstone:
  assumes "wf_db db" "collection_id name db = Inr cid" "name \<noteq> []"
  shows "cid \<noteq> TOMBSTONE"
proof
  assume "cid = TOMBSTONE"
  moreover have "collection_id [] db = Inr TOMBSTONE"
    using assms(1) by (simp add: collection_id_iff wf_parts TOMBSTONE_def)
  ultimately show False using collection_id_inj [OF assms(1,2)] assms(3) by blast
qed

lemma user_collection_row_ignore [simp]:
  "user_collection_row s cid (insert_or_ignore_collection name db) = user_collection_row s cid db"
  by (simp add: user_collection_row_def)

lemma not_past_ignore [simp]:
  "not_past s cid (insert_or_ignore_collection name db) = not_past s cid db"
  by (simp add: not_past_def)

lemma sync_inv_ignore [simp]: "sync_inv (insert_or_ignore_collection name db) = sync_inv db"
  by (rule sync_inv_cong) simp_all

lemma put_bso_inv:
  assumes "wf_db db" "sync_inv db" "instant (ss_now s)" "collection \<noteq> []"
    and past: "\<And>cid. collection_id collection (insert_or_ignore_collection collection db) = Inr cid \<Longrightarrow>
      not_past s cid db"
    and put: "put_bso s collection b None True db = Inr (t, db')"
  shows "sync_inv db'"
proof (rule put_bso_Inr [OF put])
  fix cid
  let ?d = "insert_or_ignore_collection collection db"
  assume c: "collection_id collection ?d = Inr cid" and
    d: "db' = ?d\<lparr>db_bso := upsert br_key (put_row s cid b) (put_change s b) (db_bso db),
        db_user_collections := stamp_upsert s cid (db_user_collections db)\<rparr>"
  have w: "wf_db ?d" using assms(1) by (rule insert_or_ignore_wf)
  have "sync_inv (?d\<lparr>db_bso := put_all s cid [b] (db_bso ?d),
      db_user_collections := stamp_upsert s cid (db_user_collections ?d)\<rparr>)"
    using assms(2,3) past [OF c] collection_id_not_tombstone [OF w c assms(4)]
    by (intro write_keeps_inv w put_all_rows) simp_all
  then show ?thesis unfolding d by simp
qed

lemma post_bsos_inv:
  assumes "wf_db db" "sync_inv db" "instant (ss_now s)" "collection \<noteq> []"
    and past: "\<And>cid. collection_id collection (insert_or_ignore_collection collection db) = Inr cid \<Longrightarrow>
      not_past s cid db"
    and post: "post_bsos s collection bsos stamped db = Inr (t, db')"
  shows "sync_inv db'"
proof (rule post_bsos_Inr [OF post])
  fix cid
  let ?d = "insert_or_ignore_collection collection db"
  assume c: "collection_id collection ?d = Inr cid" and
    d: "db' = ?d\<lparr>db_bso := put_all s cid bsos (db_bso db),
        db_user_collections := stamp_upsert s cid (db_user_collections db)\<rparr>"
  have w: "wf_db ?d" using assms(1) by (rule insert_or_ignore_wf)
  have "sync_inv (?d\<lparr>db_bso := put_all s cid bsos (db_bso ?d),
      db_user_collections := stamp_upsert s cid (db_user_collections ?d)\<rparr>)"
    using assms(2,3) past [OF c] collection_id_not_tombstone [OF w c assms(4)]
    by (intro write_keeps_inv w put_all_rows) simp_all
  then show ?thesis unfolding d by simp
qed

lemma commit_batch_inv:
  assumes "wf_db db" "sync_inv db" "instant (ss_now s)" "collection \<noteq> []"
    and past: "\<And>cid. collection_id collection (insert_or_ignore_collection collection db) = Inr cid \<Longrightarrow>
      not_past s cid db"
    and commit: "commit_batch s collection batch db = Inr (t, db')"
  shows "sync_inv db'"
proof (rule commit_batch_Inr [OF commit])
  fix cid i
  let ?d = "insert_or_ignore_collection collection db"
  let ?e = "?d\<lparr>db_bso := commit_all s cid (staged_items s i db) (db_bso ?d),
      db_user_collections := stamp_upsert s cid (db_user_collections ?d)\<rparr>"
  assume c: "collection_id collection ?d = Inr cid" and
    d: "db' = delete_batch_rows s i (?d\<lparr>db_bso := commit_all s cid (staged_items s i db) (db_bso db),
        db_user_collections := stamp_upsert s cid (db_user_collections db)\<rparr>)"
  have w: "wf_db ?d" using assms(1) by (rule insert_or_ignore_wf)
  have "sync_inv ?e"
    using assms(2,3) past [OF c] collection_id_not_tombstone [OF w c assms(4)]
    by (intro write_keeps_inv w commit_all_rows) simp_all
  moreover have "sync_inv db' = sync_inv ?e"
    unfolding d by (rule sync_inv_cong) (simp_all add: delete_batch_rows_def)
  ultimately show ?thesis by simp
qed

lemma create_batch_inv:
  assumes "sync_inv db" "create_batch s collection db = Inr (b, db')"
  shows "sync_inv db'"
proof -
  from assms(2) obtain cid db1 i where
    g: "get_or_create_collection_id collection db = Inr (cid, db1)" and
    a: "allocate_batch MAX_BATCH_CREATE_RETRY s cid (ss_now s) db1 = Inr (i, db')"
    by (auto simp: create_batch_def bindr_eq_Inr)
  have "sync_inv db1" using assms(1) get_or_create_Inr(1) [OF g] by simp
  moreover have "sync_inv db' = sync_inv db1"
    using allocate_batch_Inr [OF a] by (intro sync_inv_cong) simp_all
  ultimately show ?thesis by simp
qed

lemma append_to_batch_inv:
  assumes "sync_inv db" "append_to_batch s collection batch bsos db = Inr db'"
  shows "sync_inv db'"
  by (rule append_to_batch_Inr [OF assms(2)]) (use assms(1) in \<open>simp add: sync_inv_def\<close>)

lemma delete_bso_inv:
  assumes "wf_db db" "sync_inv db" "instant (ss_now s)" "collection \<noteq> []"
    and "\<And>cid. collection_id collection db = Inr cid \<Longrightarrow> not_past s cid db"
    and del: "delete_bso s collection i db = Inr (t, db')"
  shows "sync_inv db'"
  by (rule delete_bso_Inr [OF del])
    (use assms in \<open>auto intro!: write_keeps_inv dest: collection_id_not_tombstone\<close>)

lemma delete_bsos_inv:
  assumes "wf_db db" "sync_inv db" "instant (ss_now s)" "collection \<noteq> []" "ids \<noteq> []"
    and "\<And>cid. collection_id collection db = Inr cid \<Longrightarrow> not_past s cid db"
    and del: "delete_bsos s collection ids db = Inr (t, db')"
  shows "sync_inv db'"
  by (rule delete_bsos_Inr [OF del assms(5)])
    (use assms in \<open>auto intro!: write_keeps_inv dest: collection_id_not_tombstone\<close>)

lemma delete_collection_inv:
  assumes "sync_inv db" "instant (ss_now s)"
    and del: "delete_collection s collection db = Inr (t, db')"
  shows "sync_inv db'"
proof (rule delete_collection_Inr [OF del])
  fix cid
  let ?ucs = "delete_where (\<lambda>r. uc_uid r = ss_uid s \<and> uc_collection_id r = cid)
      (db_user_collections db)"
  assume d: "db' = db\<lparr>db_bso := delete_where
        (\<lambda>r. br_uid r = ss_uid s \<and> br_collection_id r = cid) (db_bso db),
      db_user_collections := stamp_upsert s TOMBSTONE ?ucs\<rparr>"
  have "row_stamped (stamp_upsert s TOMBSTONE ?ucs) r"
    if r: "r \<in> set (db_bso db)" "\<not> (br_uid r = ss_uid s \<and> br_collection_id r = cid)" for r
  proof -
    obtain u where u: "u \<in> set (db_user_collections db)"
        "uc_key u = (br_uid r, br_collection_id r)" "br_modified r \<le> uc_modified u"
      using assms(1) r(1) by (auto simp: sync_inv_def row_stamped_def)
    then have "u \<in> set ?ucs" using r(2) by (auto simp: uc_key_def)
    moreover have "uc_key u \<noteq> (ss_uid s, TOMBSTONE)"
      using u(2) r(1) assms(1) by (auto simp: sync_inv_def)
    ultimately show ?thesis
      unfolding row_stamped_def using u(2,3) by (blast intro: stamp_upsert_other)
  qed
  moreover have "instant (uc_modified u)" if "u \<in> set (stamp_upsert s TOMBSTONE ?ucs)" for u
    using stamp_upsert_cases [OF that] assms(1,2) by (auto simp: sync_inv_def)
  ultimately show ?thesis using assms(1) unfolding d by (simp add: sync_inv_def)
qed

lemma delete_storage_inv:
  assumes "sync_inv db" shows "sync_inv (delete_storage s db)"
proof -
  have "row_stamped (db_user_collections (delete_storage s db)) r"
    if r: "r \<in> set (db_bso (delete_storage s db))" for r
  proof -
    have rr: "r \<in> set (db_bso db)" "br_uid r \<noteq> ss_uid s"
      using r by (auto simp: delete_storage_def)
    then obtain u where "u \<in> set (db_user_collections db)"
        "uc_key u = (br_uid r, br_collection_id r)" "br_modified r \<le> uc_modified u"
      using assms by (auto simp: sync_inv_def row_stamped_def)
    with rr show ?thesis
      unfolding row_stamped_def by (intro bexI [of _ u]) (auto simp: delete_storage_def uc_key_def)
  qed
  then show ?thesis using assms by (auto simp: sync_inv_def delete_storage_def)
qed

lemma sample_inv: "sync_inv sample_database"
  by (simp add: sample_defs sync_inv_def row_stamped_def instant_def sql_int_def key_defs
      TOMBSTONE_def)

end
