(* ===== verification/SyncPaging.thy ===== *)
theory SyncPaging
  imports SyncInvariant "HOL-Library.Multiset"
begin

text \<open>
  Paging a collection read. A client follows \<open>X-Weave-Next-Offset\<close> until there is none;
  \<open>paged_source\<close> is the contract a paged read owes such a client, and the read of
  \<open>SyncStore.get_bsos\<close> provides it: for every sort order, for records and for ids, the
  pages put together are the whole ordered result, no record twice and none missed.
\<close>

subsection \<open>The client's loop and its contract\<close>

text \<open>\<open>page st\<close> is one request: its items and, when there is more, how to go on.\<close>

primrec collect :: "('st \<Rightarrow> ('a list \<times> 'st option) option) \<Rightarrow> nat \<Rightarrow> 'st \<Rightarrow> 'a list option" where
  "collect page 0 st = None"
| "collect page (Suc n) st =
     (case page st of
        None \<Rightarrow> None
      | Some (items, None) \<Rightarrow> Some items
      | Some (items, Some st') \<Rightarrow> map_option (\<lambda>rest. items @ rest) (collect page n st'))"

locale paged_source =
  fixes page :: "'st \<Rightarrow> ('a list \<times> 'st option) option"
    and remaining :: "'st \<Rightarrow> 'a list"
    and valid :: "'st \<Rightarrow> bool"
  assumes page_total: "valid st \<Longrightarrow> \<exists>items next. page st = Some (items, next)"
    and page_last: "valid st \<Longrightarrow> page st = Some (items, None) \<Longrightarrow> items = remaining st"
    and page_more: "valid st \<Longrightarrow> page st = Some (items, Some st') \<Longrightarrow>
      items \<noteq> [] \<and> remaining st = items @ remaining st' \<and> valid st'"
begin

lemma collect_all:
  "valid st \<Longrightarrow> length (remaining st) < fuel \<Longrightarrow> collect page fuel st = Some (remaining st)"
proof (induction fuel arbitrary: st)
  case 0
  then show ?case by simp
next
  case (Suc fuel)
  obtain items nxt where p: "page st = Some (items, nxt)"
    using page_total [OF Suc.prems(1)] by blast
  show ?case
  proof (cases nxt)
    case None
    with p page_last [OF Suc.prems(1)] show ?thesis by simp
  next
    case (Some st')
    with p page_more [OF Suc.prems(1)]
    have m: "items \<noteq> []" "remaining st = items @ remaining st'" "valid st'" by auto
    then have "length (remaining st') < fuel" using Suc.prems(2) by (cases items) auto
    with m p Some Suc.IH [OF m(3)] show ?thesis by simp
  qed
qed

end

subsection \<open>Offset tokens\<close>

lemma show_int_digits: "0 \<le> n \<Longrightarrow> c \<in> set (show_int n) \<Longrightarrow> is_digit c"
  using show_nat_digits by (auto simp: show_int_def)

lemma non_negative_show: "0 \<le> n \<Longrightarrow> n < 2 ^ 63 \<Longrightarrow> non_negative (show_int n) = Some n"
  by (simp add: non_negative_def py_int_show_int)

lemma colon_not_digit: "0 \<le> n \<Longrightarrow> CHR '':'' \<notin> set (show_int n)"
  using show_int_digits [of n "CHR '':''"] by auto

lemma partition_no_sep: "c \<notin> set a \<Longrightarrow> partition c a = (a, False, [])"
proof -
  assume "c \<notin> set a"
  then have d: "dropWhile (\<lambda>x. x \<noteq> c) a = []" by (auto simp: dropWhile_eq_Nil_conv)
  show ?thesis unfolding partition_def Let_def d by simp
qed

lemma offset_roundtrip:
  assumes "0 \<le> off_offset f" "off_offset f < 2 ^ 63"
    and "case off_timestamp f of None \<Rightarrow> True | Some t \<Rightarrow> instant t"
  shows "offset_parse (offset_str f) = Some f"
proof (cases "off_timestamp f")
  case None
  with assms show ?thesis
    by (cases f) (simp add: offset_parse_def offset_str_def partition_no_sep colon_not_digit
        non_negative_show)
next
  case (Some t)
  with assms(3) have t: "0 \<le> t" "t < 2 ^ 63" "t mod 10 = 0"
    by (auto simp: instant_def sql_int_def)
  have "partition (CHR '':'') (show_int t @ '':'' @ show_int (off_offset f)) =
      (show_int t, True, show_int (off_offset f))"
    using partition_dot [OF colon_not_digit [OF t(1)]] by simp
  with Some assms(1,2) t show ?thesis
    by (cases f) (simp add: offset_parse_def offset_str_def non_negative_show)
qed

subsection \<open>The order of the rows\<close>

lemma sort_key_same_mset:
  assumes "mset xs = mset ys" and "distinct (map k ys)"
  shows "sort_key k xs = sort_key k ys"
proof (rule sort_key_inj_key_eq)
  show "mset xs = mset (sort_key k ys)" using assms(1) by simp
  show "inj_on k (set xs)"
    using assms by (metis distinct_map mset_eq_setD)
  show "sorted (map k (sort_key k ys))" by simp
qed

definition row_key :: "sorting option \<Rightarrow> int \<Rightarrow> int" where
  "row_key sorting m = (if sorting = Some Oldest then m else - m)"

lemma row_key_inj [simp]: "row_key so a = row_key so b \<longleftrightarrow> a = b"
  by (simp add: row_key_def)

lemma order_rows_mset: "mset (order_rows full sorting rows) = mset rows"
proof -
  have "mset (filter (\<lambda>r. br_sortindex r \<noteq> None) rows) +
      mset (filter (\<lambda>r. br_sortindex r = None) rows) = mset rows"
    by (induction rows) auto
  then show ?thesis
    by (auto simp: order_rows_def split: option.split sorting.split)
qed

lemma order_rows_filter:
  "filter P (order_rows full sorting rows) = order_rows full sorting (filter P rows)"
proof -
  have "filter P (filter Q rows) = filter Q (filter P rows)" for Q
    by (simp add: conj_commute)
  then show ?thesis
    by (auto simp: order_rows_def filter_sort rev_filter [symmetric] split: option.split sorting.split)
qed

lemma order_rows_scan:
  assumes "sorting \<noteq> Some Index" and "mset xs = mset rows" and "distinct (map br_id rows)"
  shows "order_rows True sorting xs = order_rows True sorting rows"
  using sort_key_same_mset [OF assms(2,3)] assms(1)
  by (auto simp: order_rows_def split: option.split sorting.split)

lemma order_rows_sorted:
  assumes "sorting \<noteq> Some Index"
  shows "sorted (map (\<lambda>r. row_key sorting (br_modified r)) (order_rows True sorting rows))"
proof -
  let ?s = "sort_key br_modified (sort_key br_id rows)"
  have s: "sorted (map br_modified ?s)" by simp
  have "sorted (map (\<lambda>r. - br_modified r) (rev ?s))"
    using s by (simp add: sorted_wrt_map sorted_wrt_rev rev_map [symmetric])
  with s assms show ?thesis
    by (cases sorting; cases "the sorting") (auto simp: order_rows_def row_key_def)
qed

subsection \<open>Counting the skip\<close>

text \<open>\<open>g\<close> turns the order of the sort into the ascending order of integers.\<close>

lemma tail_count:
  assumes "sorted (map g ys)" and "\<forall>y \<in> set ys. g y \<le> (g v :: int)" and "inj g"
  shows "length (takeWhile (\<lambda>y. y = v) (rev ys)) + length (filter (\<lambda>y. g y < g v) ys) = length ys"
  using assms(1,2)
proof (induction ys rule: rev_induct)
  case Nil
  then show ?case by simp
next
  case (snoc y ys)
  show ?case
  proof (cases "y = v")
    case True
    with snoc show ?thesis by (simp add: sorted_append)
  next
    case False
    with snoc.prems(2) assms(3) have "g y < g v" by (auto simp: less_le inj_eq)
    moreover from this snoc.prems(1) have "\<forall>z \<in> set ys. g z < g v"
      by (fastforce simp: sorted_append)
    ultimately show ?thesis using False by (simp add: filter_id_all)
  qed
qed

lemma page_skip:
  assumes "sorted (map g ms)" and "ms \<noteq> []" and "inj g"
  shows "1 + length (takeWhile (\<lambda>v. v = last ms) (rev (butlast ms))) +
      length (filter (\<lambda>v. g v < (g (last ms) :: int)) ms) = length ms"
proof -
  have r: "rev ms = last ms # rev (butlast ms)"
    using assms(2) by (metis append_butlast_last_id rev.simps(2) rev_rev_ident rev_swap)
  have "\<forall>y \<in> set ms. g y \<le> g (last ms)"
    using assms(1,2) by (cases ms rule: rev_cases) (auto simp: sorted_append)
  from tail_count [OF assms(1) this assms(3)] show ?thesis by (simp add: r)
qed

text \<open>
  Where the page that follows \<open>p\<close> served rows ends, counted from the first row that has
  its last key: either the run of that key began inside the page, or the page is one run
  and the rows before it are the ones the previous token skipped.
\<close>

definition below :: "('a \<Rightarrow> int) \<Rightarrow> int \<Rightarrow> 'a list \<Rightarrow> nat" where
  "below f b xs = length (filter (\<lambda>x. f x < b) xs)"

lemma below_append: "below f b (xs @ ys) = below f b xs + below f b ys"
  by (simp add: below_def)

lemma below_zero: "(\<And>x. x \<in> set xs \<Longrightarrow> b \<le> f x) \<Longrightarrow> below f b xs = 0"
  by (force simp: below_def filter_empty_conv not_less)

lemma below_full: "(\<And>x. x \<in> set xs \<Longrightarrow> f x < b) \<Longrightarrow> below f b xs = length xs"
  by (simp add: below_def filter_id_all)

lemma bound_is_drop:
  assumes "sorted (map f L)" shows "filter (\<lambda>x. b \<le> f x) L = drop (below f b L) L"
  using assms
proof (induction L)
  case Nil
  then show ?case by simp
next
  case (Cons x L)
  show ?case
  proof (cases "f x < b")
    case True
    with Cons show ?thesis by (simp add: below_def)
  next
    case False
    with Cons.prems have all: "\<forall>y \<in> set (x # L). b \<le> f y" by auto
    then have "below f b (x # L) = 0" by (intro below_zero) auto
    with all show ?thesis by (simp add: filter_id_all)
  qed
qed

lemma last_page_start:
  assumes L: "L = pre @ pg @ post" and srt: "sorted (map f L)" and ne: "pg \<noteq> []"
  shows "below f (f (last pg)) L = below f (f (last pg)) pre + below f (f (last pg)) pg"
proof -
  have "f (last pg) \<le> f x" if "x \<in> set post" for x
    using srt that ne unfolding L by (auto simp: sorted_append)
  then have "below f (f (last pg)) post = 0" by (rule below_zero)
  then show ?thesis by (simp add: L below_append)
qed

lemma new_skip:
  assumes L: "L = pre @ pg @ post" and srt: "sorted (map f L)" and ne: "pg \<noteq> []"
    and prev: "case bnd of None \<Rightarrow> pre = [] \<and> k = 0
      | Some b \<Rightarrow> 0 < k \<and> length pre = below f b L + k \<and> f (last pre) = b"
  shows "length pre + length pg - below f (f (last pg)) L =
      (if below f (f (last pg)) pg = 0 \<and> bnd = Some (f (last pg))
       then length pg + k else length pg - below f (f (last pg)) pg)"
proof -
  let ?v = "f (last pg)"
  note start = last_page_start [OF L srt ne]
  have le: "f x \<le> f y" if "x \<in> set pre" "y \<in> set pg" for x y
    using srt that unfolding L by (auto simp: sorted_append)
  show ?thesis
  proof (cases "below f ?v pg = 0")
    case False
    then obtain y where y: "y \<in> set pg" "f y < ?v"
      by (auto simp: below_def filter_empty_conv)
    then have "below f ?v pre = length pre" using le by (intro below_full) force
    with False start show ?thesis by simp
  next
    case True
    show ?thesis
    proof (cases "bnd = Some ?v")
      case True': True
      with prev True start show ?thesis by simp
    next
      case False
      have "below f ?v pre = length pre"
      proof (cases bnd)
        case None
        with prev show ?thesis by (simp add: below_def)
      next
        case (Some b)
        with prev have b: "f (last pre) = b" "pre \<noteq> []" by auto
        then have "last pre \<in> set pre" by simp
        then have "b \<le> ?v" using le [of "last pre" "last pg"] ne b by simp
        with False Some have "b < ?v" by simp
        moreover have "f x \<le> b" if "x \<in> set pre" for x
          using srt that b unfolding L
          by (cases pre rule: rev_cases) (auto simp: sorted_append)
        ultimately show ?thesis by (intro below_full) force
      qed
      with False True start show ?thesis by simp
    qed
  qed
qed

subsection \<open>The read of the store as a paged source\<close>

definition unbounded :: "bso_query \<Rightarrow> bso_query" where
  "unbounded q = q\<lparr>q_offset := None\<rparr>"

text \<open>The whole answer: every matching row, in the order of the sort.\<close>

definition matching ::
  "(bso_row list \<Rightarrow> bso_row list) \<Rightarrow> sync_store \<Rightarrow> int \<Rightarrow> bool \<Rightarrow> bso_query \<Rightarrow> database \<Rightarrow> bso_row list" where
  "matching scan s cid full q db =
     order_rows full (q_sort q) (scan (filter (bso_where s cid full (unbounded q)) (db_bso db)))"

definition page_item_of :: "bool \<Rightarrow> bso_row \<Rightarrow> page_item" where
  "page_item_of full r = (if full then Record (bso_of_row r) else RecordId (br_id r))"

text \<open>One request of the client, and the query it asks next.\<close>

definition page_step ::
  "(bso_row list \<Rightarrow> bso_row list) \<Rightarrow> sync_store \<Rightarrow> str \<Rightarrow> bool \<Rightarrow> database \<Rightarrow> bso_query \<Rightarrow>
     (page_item list \<times> bso_query option) option" where
  "page_step scan s collection full db q =
     (case get_bsos scan s collection q full db of
        Inl _ \<Rightarrow> None
      | Inr p \<Rightarrow>
          (case pg_offset p of
             None \<Rightarrow> Some (pg_items p, None)
           | Some token \<Rightarrow>
               (case offset_parse token of
                  None \<Rightarrow> None
                | Some f \<Rightarrow> Some (pg_items p, Some (q\<lparr>q_offset := Some f\<rparr>)))))"

definition timed :: "bool \<Rightarrow> bso_query \<Rightarrow> bool" where
  "timed full q \<longleftrightarrow> full \<and> q_sort q \<noteq> Some Index"

definition key_of :: "bso_query \<Rightarrow> bso_row \<Rightarrow> int" where
  "key_of q r = row_key (q_sort q) (br_modified r)"

text \<open>How many rows of \<open>L\<close> the offset of \<open>q\<close> says were served.\<close>

definition served :: "bool \<Rightarrow> bso_query \<Rightarrow> bso_row list \<Rightarrow> nat" where
  "served full q L =
     (case q_offset q of
        None \<Rightarrow> 0
      | Some f \<Rightarrow>
          (case off_timestamp f of
             None \<Rightarrow> nat (off_offset f)
           | Some t \<Rightarrow> below (key_of q) (row_key (q_sort q) t) L + nat (off_offset f)))"

text \<open>An offset the server itself handed out for this query, or none.\<close>

definition issued :: "bool \<Rightarrow> bso_query \<Rightarrow> bso_row list \<Rightarrow> bool" where
  "issued full q L \<longleftrightarrow>
     (case q_offset q of
        None \<Rightarrow> True
      | Some f \<Rightarrow>
          0 < off_offset f \<and> served full q L \<le> length L \<and>
          (if timed full q
           then off_timestamp f \<noteq> None \<and> instant (the (off_timestamp f)) \<and>
             0 < served full q L \<and>
             br_modified (last (take (served full q L) L)) = the (off_timestamp f)
           else off_timestamp f = None))"

definition askable :: "(bso_row list \<Rightarrow> bso_row list) \<Rightarrow> database \<Rightarrow> bso_query \<Rightarrow> bool" where
  "askable scan db q \<longleftrightarrow>
     wf_db db \<and> sync_inv db \<and> (\<forall>t. mset (scan t) = mset t) \<and>
     (case q_older q of None \<Rightarrow> True | Some t \<Rightarrow> sql_int t) \<and>
     (case q_newer q of None \<Rightarrow> True | Some t \<Rightarrow> sql_int t) \<and>
     int (length (db_bso db)) + effective_limit q + 1 < 2 ^ 63"

definition pageable :: "(bso_row list \<Rightarrow> bso_row list) \<Rightarrow> database \<Rightarrow> bso_query \<Rightarrow> bool" where
  "pageable scan db q \<longleftrightarrow>
     wf_db db \<and> sync_inv db \<and> (\<forall>t. mset (scan t) = mset t) \<and> 0 < effective_limit q \<and>
     (case q_older q of None \<Rightarrow> True | Some t \<Rightarrow> sql_int t) \<and>
     (case q_newer q of None \<Rightarrow> True | Some t \<Rightarrow> sql_int t) \<and>
     int (length (db_bso db)) + effective_limit q + 1 < 2 ^ 63"

lemma pageable_iff_askable: "pageable scan db q \<longleftrightarrow> askable scan db q \<and> 0 < effective_limit q"
  by (auto simp: pageable_def askable_def)

lemma unbounded_simps [simp]:
  "q_sort (unbounded q) = q_sort q" "q_newer (unbounded q) = q_newer q"
  "q_older (unbounded q) = q_older q" "q_ids (unbounded q) = q_ids q"
  "query_bound (unbounded q) = None" "in_window (unbounded q) = in_window q"
  "in_bound full (unbounded q) r"
  by (simp_all add: unbounded_def query_bound_def in_window_def in_bound_def fun_eq_iff
      split: bool.split)

lemma where_split:
  "bso_where s cid full q r \<longleftrightarrow> bso_where s cid full (unbounded q) r \<and> in_bound full q r"
  by (auto simp: bso_where_def)

lemma in_bound_key:
  assumes "timed full q" "query_bound q = Some t"
  shows "in_bound full q r \<longleftrightarrow> row_key (q_sort q) t \<le> key_of q r"
  using assms by (auto simp: timed_def in_bound_def key_of_def row_key_def
      split: option.split sorting.split)

lemma matching_ids_distinct:
  assumes "wf_db db"
  shows "distinct (map br_id (filter (bso_where s cid full q) (db_bso db)))"
proof -
  let ?W = "filter (bso_where s cid full q) (db_bso db)"
  have "distinct (map br_key ?W)"
    using wf_parts(14) [OF assms] by (simp add: uniq_def distinct_map_filterI)
  moreover have "map br_key ?W = map (\<lambda>i. (ss_uid s, cid, i)) (map br_id ?W)"
    by (auto simp: bso_where_def br_key_def)
  ultimately show ?thesis by (metis distinct_map)
qed

lemma fetched_rows:
  assumes p: "pageable scan db q" and i: "issued full q (matching scan s cid full q db)"
  shows "drop (nat (numeric_offset q))
      (order_rows full (q_sort q) (scan (filter (bso_where s cid full q) (db_bso db)))) =
    drop (served full q (matching scan s cid full q db)) (matching scan s cid full q db)"
proof (cases "query_bound q = None \<or> \<not> timed full q")
  case True
  have "query_bound q = None"
    using True i by (auto simp: issued_def query_bound_def split: option.splits)
  then have "bso_where s cid full q = bso_where s cid full (unbounded q)"
    by (simp add: fun_eq_iff bso_where_def in_bound_def split: bool.split)
  moreover have "served full q L = nat (numeric_offset q)" for L
    using \<open>query_bound q = None\<close>
    by (simp add: served_def numeric_offset_def query_bound_def split: option.splits)
  ultimately show ?thesis by (simp add: matching_def)
next
  case False
  then obtain f t where f: "q_offset q = Some f" "off_timestamp f = Some t"
      "query_bound q = Some t" and tm: "timed full q"
    by (auto simp: query_bound_def split: option.splits)
  then have full: "full" and so: "q_sort q \<noteq> Some Index" by (auto simp: timed_def)
  let ?W = "filter (bso_where s cid full (unbounded q)) (db_bso db)"
  let ?P = "\<lambda>r. row_key (q_sort q) t \<le> key_of q r"
  have w: "wf_db db" and sc: "\<And>t. mset (scan t) = mset t" using p by (auto simp: pageable_def)
  have L: "matching scan s cid full q db = order_rows True (q_sort q) ?W"
    using order_rows_scan [OF so sc matching_ids_distinct [OF w]] full
    by (simp add: matching_def)
  have "filter (bso_where s cid full q) (db_bso db) = filter ?P ?W"
    using where_split [of s cid full q] in_bound_key [OF tm f(3)]
    by (auto intro: filter_cong)
  moreover have "order_rows True (q_sort q) (scan (filter ?P ?W)) =
      order_rows True (q_sort q) (filter ?P ?W)"
    by (rule order_rows_scan [OF so sc])
      (rule distinct_map_filterI [OF matching_ids_distinct [OF w]])
  ultimately have "order_rows full (q_sort q) (scan (filter (bso_where s cid full q) (db_bso db))) =
      filter ?P (matching scan s cid full q db)"
    unfolding L using full by (simp add: order_rows_filter)
  also have "\<dots> = drop (below (key_of q) (row_key (q_sort q) t) (matching scan s cid full q db))
      (matching scan s cid full q db)"
    by (rule bound_is_drop)
      (use order_rows_sorted [OF so, of ?W] in \<open>simp add: L key_of_def [abs_def]\<close>)
  finally show ?thesis
    using f by (simp add: served_def numeric_offset_def add.commute)
qed

lemma below_map: "below (\<lambda>r. g (h r)) b xs = below g b (map h xs)"
  by (simp add: below_def filter_map comp_def)

lemma encode_timed:
  assumes so: "q_sort q \<noteq> Some Index"
    and L: "L = pre @ pg @ post" and srt: "sorted (map (key_of q) L)" and ne: "pg \<noteq> []"
    and bnd: "case query_bound q of None \<Rightarrow> pre = [] \<and> numeric_offset q = 0
      | Some t \<Rightarrow> 0 < numeric_offset q \<and> br_modified (last pre) = t \<and>
          length pre = below (key_of q) (row_key (q_sort q) t) L + nat (numeric_offset q)"
    and inst: "\<forall>r \<in> set pg. instant (br_modified r)"
  shows "\<exists>k. encode_next_offset (q_sort q) (numeric_offset q) (query_bound q) (map br_modified pg) =
      offset_str \<lparr>off_timestamp = Some (br_modified (last pg)), off_offset = int k\<rparr> \<and> 0 < k \<and>
      below (key_of q) (key_of q (last pg)) L + k = length pre + length pg"
proof -
  let ?ms = "map br_modified pg" and ?v = "key_of q (last pg)"
  let ?skip = "1 + length (takeWhile (\<lambda>v. v = last ?ms) (rev (butlast ?ms)))"
  let ?k = "if ?skip = length ?ms \<and> query_bound q = Some (last ?ms)
      then ?skip + nat (numeric_offset q) else ?skip"
  have inj: "inj (row_key (q_sort q))" by (simp add: inj_def)
  have last: "last ?ms = br_modified (last pg)" "last pg \<in> set pg"
    using ne by (simp_all add: last_map)
  have "sorted (map (row_key (q_sort q)) ?ms)"
    using srt by (simp add: L sorted_append key_of_def [abs_def] comp_def)
  from page_skip [OF this _ inj] ne last(1)
  have skip: "?skip + below (key_of q) ?v pg = length pg"
    by (simp add: below_def key_of_def filter_map comp_def)
  have "quantize (last ?ms) = last ?ms" using inst last by (simp add: instant_def)
  moreover have nn: "0 \<le> numeric_offset q" using bnd by (cases "query_bound q") auto
  ultimately have enc: "encode_next_offset (q_sort q) (numeric_offset q) (query_bound q) ?ms =
      offset_str \<lparr>off_timestamp = Some (br_modified (last pg)), off_offset = int ?k\<rparr>"
    using so ne last(1) by (simp add: encode_next_offset_def Let_def)
  have "case map_option (row_key (q_sort q)) (query_bound q) of
        None \<Rightarrow> pre = [] \<and> nat (numeric_offset q) = 0
      | Some b \<Rightarrow> 0 < nat (numeric_offset q) \<and>
          length pre = below (key_of q) b L + nat (numeric_offset q) \<and> key_of q (last pre) = b"
    using bnd by (auto simp: key_of_def split: option.splits)
  note new = new_skip [OF L srt ne this]
  have "(map_option (row_key (q_sort q)) (query_bound q) = Some ?v) =
      (query_bound q = Some (last ?ms))"
    using last(1) by (auto simp: key_of_def)
  moreover have "(below (key_of q) ?v pg = 0) = (?skip = length ?ms)" using skip by auto
  ultimately have "length pre + length pg - below (key_of q) ?v L = ?k"
    using new skip by auto
  moreover have "below (key_of q) ?v L \<le> length pre + length pg"
    using last_page_start [OF L srt ne] length_filter_le [of _ pre] length_filter_le [of _ pg]
    unfolding below_def by (metis add_mono)
  moreover have "0 < ?k" using ne by simp
  ultimately show ?thesis using enc by (intro exI [of _ ?k]) auto
qed

lemma read_page:
  assumes p: "pageable scan db q" and i: "issued full q (matching scan s cid full q db)"
    and c: "collection_id collection db = Inr cid"
  defines "L \<equiv> matching scan s cid full q db"
  defines "rows \<equiv> take (nat (effective_limit q) + 1) (drop (served full q L) L)"
  shows "get_bsos scan s collection q full db =
    (if effective_limit q < int (length rows) then
       Inr \<lparr>pg_items = map (page_item_of full) (butlast rows),
         pg_offset = Some (if full then
             encode_next_offset (q_sort q) (numeric_offset q) (query_bound q)
               (map br_modified (butlast rows))
           else show_int (effective_limit q + numeric_offset q))\<rparr>
     else Inr \<lparr>pg_items = map (page_item_of full) rows, pg_offset = None\<rparr>)"
proof -
  have lim: "0 < effective_limit q" using p by (simp add: pageable_def)
  have len: "length L \<le> length (db_bso db)"
  proof -
    have "mset (scan t) = mset t" for t using p by (simp add: pageable_def)
    then have "size (mset L) \<le> length (db_bso db)"
      unfolding L_def matching_def order_rows_mset
      using size_filter_mset_lesseq [of _ "mset (db_bso db)"] by simp
    then show ?thesis by simp
  qed
  have no: "0 \<le> numeric_offset q" "numeric_offset q \<le> int (length L)"
    using i unfolding L_def [symmetric]
    by (auto simp: issued_def numeric_offset_def served_def split: option.splits)
  have fit: "params_fit full q"
    unfolding params_fit_def
  proof (intro conjI)
    show "full \<and> q_sort q \<noteq> Some Index \<longrightarrow>
        (case query_bound q of None \<Rightarrow> True | Some t \<Rightarrow> sql_int t)"
      using i by (auto simp: issued_def query_bound_def timed_def instant_def split: option.splits)
    show "sql_int (if 0 < effective_limit q then effective_limit q + 1 else effective_limit q)"
      "sql_int (numeric_offset q)"
      using p lim len no by (auto simp: pageable_def sql_int_def)
  qed (use p in \<open>auto simp: pageable_def\<close>)
  have fetch: "nat (if 0 < effective_limit q then effective_limit q + 1 else effective_limit q) =
      nat (effective_limit q) + 1"
    using lim by simp
  have guard: "guardr (params_fit full q) e = Inr ()" for e :: store_error
    using fit by simp
  have item: "(\<lambda>r. if full then Record (bso_of_row r) else RecordId (br_id r)) = page_item_of full"
    by (simp add: page_item_of_def [abs_def])
  show ?thesis
    unfolding get_bsos_def c bindr_Inr guard Let_def fetch fetched_rows [OF p i] item
      rows_def L_def
    using lim by simp
qed

lemma served_with_offset:
  "served full (q\<lparr>q_offset := Some f\<rparr>) L =
     (case off_timestamp f of
        None \<Rightarrow> nat (off_offset f)
      | Some t \<Rightarrow> below (key_of q) (row_key (q_sort q) t) L + nat (off_offset f))"
  by (simp add: served_def key_of_def [abs_def] split: option.split)

lemma matching_with_offset [simp]:
  "matching scan s cid full (q\<lparr>q_offset := f\<rparr>) db = matching scan s cid full q db"
  by (simp add: matching_def unbounded_def)

lemma pageable_with_offset [simp]: "pageable scan db (q\<lparr>q_offset := f\<rparr>) = pageable scan db q"
  by (simp add: pageable_def effective_limit_def)

text \<open>The token of a full page says exactly how many rows have been served.\<close>

lemma next_token:
  assumes p: "pageable scan db q" and i: "issued full q (matching scan s cid full q db)"
  defines "L \<equiv> matching scan s cid full q db"
  defines "pg \<equiv> take (nat (effective_limit q)) (drop (served full q L) L)"
  assumes more: "served full q L + nat (effective_limit q) < length L"
  shows "\<exists>f. offset_parse (if full then
        encode_next_offset (q_sort q) (numeric_offset q) (query_bound q) (map br_modified pg)
      else show_int (effective_limit q + numeric_offset q)) = Some f \<and>
    served full (q\<lparr>q_offset := Some f\<rparr>) L = served full q L + nat (effective_limit q) \<and>
    issued full (q\<lparr>q_offset := Some f\<rparr>) L"
proof (cases "timed full q")
  case False
  let ?n = "effective_limit q + numeric_offset q"
  have lim: "0 < effective_limit q" using p by (simp add: pageable_def)
  have sv: "served full q L = nat (numeric_offset q)" and no: "0 \<le> numeric_offset q"
    using i False
    by (auto simp: issued_def L_def served_def numeric_offset_def split: option.splits)
  have len: "length pg = nat (effective_limit q)" using more by (simp add: pg_def)
  have tok: "(if full then encode_next_offset (q_sort q) (numeric_offset q) (query_bound q)
        (map br_modified pg) else show_int ?n) = offset_str \<lparr>off_timestamp = None, off_offset = ?n\<rparr>"
    using False len lim
    by (auto simp: timed_def encode_next_offset_def offset_str_def add.commute)
  have "?n < 2 ^ 63"
  proof -
    have "mset (scan t) = mset t" for t using p by (simp add: pageable_def)
    then have "size (mset L) \<le> length (db_bso db)"
      unfolding L_def matching_def order_rows_mset
      using size_filter_mset_lesseq [of _ "mset (db_bso db)"] by simp
    moreover have "nat ?n < length L" using more sv no lim by (simp add: nat_add_distrib)
    ultimately show ?thesis using p no lim unfolding pageable_def size_mset by linarith
  qed
  then have "offset_parse (offset_str \<lparr>off_timestamp = None, off_offset = ?n\<rparr>) =
      Some \<lparr>off_timestamp = None, off_offset = ?n\<rparr>"
    using lim no by (intro offset_roundtrip) simp_all
  then show ?thesis
    unfolding tok using False lim no sv more
    by (auto simp: served_with_offset issued_def timed_def nat_add_distrib)
next
  case True
  let ?sv = "served full q L" and ?lim = "nat (effective_limit q)"
  have lim: "0 < effective_limit q" using p by (simp add: pageable_def)
  have so: "q_sort q \<noteq> Some Index" and full using True by (auto simp: timed_def)
  have w: "wf_db db" and sc: "\<And>t. mset (scan t) = mset t" and inv: "sync_inv db"
    using p by (auto simp: pageable_def)
  let ?W = "filter (bso_where s cid full (unbounded q)) (db_bso db)"
  have L: "L = order_rows True (q_sort q) ?W"
    using order_rows_scan [OF so sc matching_ids_distinct [OF w]] \<open>full\<close>
    by (simp add: L_def matching_def)
  have split: "L = take ?sv L @ pg @ drop (?sv + ?lim) L"
    by (simp add: pg_def take_drop) (metis append_take_drop_id take_add take_drop append.assoc add.commute)
  have srt: "sorted (map (key_of q) L)"
    using order_rows_sorted [OF so, of ?W] by (simp add: L key_of_def [abs_def])
  have ne: "pg \<noteq> []" using more lim by (simp add: pg_def)
  have "set L \<subseteq> set (db_bso db)"
    using order_rows_mset [of True "q_sort q" ?W] unfolding L
    by (metis filter_is_subset mset_eq_setD)
  then have inst: "\<forall>r \<in> set pg. instant (br_modified r)"
    using inv unfolding sync_inv_def pg_def by (meson in_set_dropD in_set_takeD subsetD)
  have bnd: "case query_bound q of None \<Rightarrow> take ?sv L = [] \<and> numeric_offset q = 0
      | Some t \<Rightarrow> 0 < numeric_offset q \<and> br_modified (last (take ?sv L)) = t \<and>
          length (take ?sv L) = below (key_of q) (row_key (q_sort q) t) L + nat (numeric_offset q)"
    using i True unfolding L_def [symmetric]
    by (auto simp: issued_def query_bound_def numeric_offset_def served_def split: option.splits)
  from encode_timed [OF so split srt ne bnd inst] obtain k where
    tok: "encode_next_offset (q_sort q) (numeric_offset q) (query_bound q) (map br_modified pg) =
      offset_str \<lparr>off_timestamp = Some (br_modified (last pg)), off_offset = int k\<rparr>" and
    k: "0 < k" "below (key_of q) (key_of q (last pg)) L + k = length (take ?sv L) + length pg"
    by blast
  let ?f = "\<lparr>off_timestamp = Some (br_modified (last pg)), off_offset = int k\<rparr>"
  have pre: "length (take ?sv L) = ?sv" "length pg = ?lim" using more by (simp_all add: pg_def)
  have sv': "served full (q\<lparr>q_offset := Some ?f\<rparr>) L = ?sv + ?lim"
    using k(2) pre by (simp add: served_with_offset key_of_def)
  have "take (?sv + ?lim) L = take ?sv L @ pg" by (simp add: take_add pg_def)
  then have iss: "issued full (q\<lparr>q_offset := Some ?f\<rparr>) L"
    using sv' k(1) inst ne more True lim
    by (simp add: issued_def timed_def)
  have "k \<le> length L" using k(2) pre more by simp
  moreover have "length L \<le> length (db_bso db)"
    using order_rows_mset [of True "q_sort q" ?W] length_filter_le [of _ "db_bso db"]
    unfolding L by (metis size_mset)
  ultimately have "int k < 2 ^ 63" using p by (simp add: pageable_def)
  then have "offset_parse (offset_str ?f) = Some ?f"
    using inst ne by (intro offset_roundtrip) simp_all
  with tok sv' iss \<open>full\<close> show ?thesis by auto
qed

lemma page_step_issued:
  assumes p: "pageable scan db q" and i: "issued full q (matching scan s cid full q db)"
    and c: "collection_id collection db = Inr cid"
  defines "L \<equiv> matching scan s cid full q db"
  defines "n \<equiv> served full q L" and "l \<equiv> nat (effective_limit q)"
  shows "if n + l < length L
    then \<exists>q'. page_step scan s collection full db q =
        Some (map (page_item_of full) (take l (drop n L)), Some q') \<and>
      matching scan s cid full q' db = L \<and> pageable scan db q' \<and> issued full q' L \<and>
      served full q' L = n + l
    else page_step scan s collection full db q = Some (map (page_item_of full) (drop n L), None)"
proof -
  have lim: "0 < effective_limit q" using p by (simp add: pageable_def)
  let ?rows = "take (nat (effective_limit q) + 1) (drop n L)"
  note g = read_page [OF p i c, folded L_def, folded n_def]
  show ?thesis
  proof (cases "n + l < length L")
    case True
    then have len: "length ?rows = l + 1" by (simp add: l_def)
    then have b: "butlast ?rows = take l (drop n L)"
      by (simp add: butlast_conv_take l_def min_def)
    have "effective_limit q < int (length ?rows)" using len lim by (simp add: l_def)
    with g b obtain tok where get: "get_bsos scan s collection q full db =
        Inr \<lparr>pg_items = map (page_item_of full) (take l (drop n L)), pg_offset = Some tok\<rparr>"
      and tok: "tok = (if full then
             encode_next_offset (q_sort q) (numeric_offset q) (query_bound q)
               (map br_modified (take l (drop n L)))
           else show_int (effective_limit q + numeric_offset q))"
      by simp
    obtain f where f: "offset_parse tok = Some f"
        "served full (q\<lparr>q_offset := Some f\<rparr>) L = n + l" "issued full (q\<lparr>q_offset := Some f\<rparr>) L"
      using next_token [OF p i, folded L_def, folded n_def l_def] True unfolding tok by blast
    have "page_step scan s collection full db q =
        Some (map (page_item_of full) (take l (drop n L)), Some (q\<lparr>q_offset := Some f\<rparr>))"
      using get f(1) by (simp add: page_step_def)
    with True f p show ?thesis
      by (auto intro!: exI [of _ "q\<lparr>q_offset := Some f\<rparr>"] simp: L_def)
  next
    case False
    then have rows: "?rows = drop n L" by (simp add: l_def)
    then have "\<not> effective_limit q < int (length ?rows)" using False lim by (simp add: l_def)
    with g rows have "get_bsos scan s collection q full db =
        Inr \<lparr>pg_items = map (page_item_of full) (drop n L), pg_offset = None\<rparr>"
      by simp
    with False show ?thesis by (simp add: page_step_def)
  qed
qed

definition remaining_items ::
  "(bso_row list \<Rightarrow> bso_row list) \<Rightarrow> sync_store \<Rightarrow> int \<Rightarrow> bool \<Rightarrow> database \<Rightarrow> bso_query \<Rightarrow>
     page_item list" where
  "remaining_items scan s cid full db q =
     (let L = matching scan s cid full q db in map (page_item_of full) (drop (served full q L) L))"

definition resumable ::
  "(bso_row list \<Rightarrow> bso_row list) \<Rightarrow> sync_store \<Rightarrow> str \<Rightarrow> int \<Rightarrow> bool \<Rightarrow> database \<Rightarrow> bso_query \<Rightarrow>
     bool" where
  "resumable scan s collection cid full db q \<longleftrightarrow>
     pageable scan db q \<and> issued full q (matching scan s cid full q db) \<and>
     collection_id collection db = Inr cid"

interpretation store_pages: paged_source "page_step scan s collection full db"
  "remaining_items scan s cid full db" "resumable scan s collection cid full db"
  for scan s collection cid full db
proof
  fix q assume "resumable scan s collection cid full db q"
  then have "pageable scan db q" "issued full q (matching scan s cid full q db)"
      "collection_id collection db = Inr cid"
    by (simp_all add: resumable_def)
  note step = page_step_issued [OF this]
  then show "\<exists>items next. page_step scan s collection full db q = Some (items, next)"
    by (auto split: if_splits)
  fix items
  show "items = remaining_items scan s cid full db q"
    if "page_step scan s collection full db q = Some (items, None)"
    using step that by (auto simp: remaining_items_def Let_def split: if_splits)
  fix q'
  assume more: "page_step scan s collection full db q = Some (items, Some q')"
  let ?L = "matching scan s cid full q db" and ?l = "nat (effective_limit q)"
  have lim: "0 < ?l" using \<open>pageable scan db q\<close> by (simp add: pageable_def)
  have n: "served full q ?L + ?l < length ?L"
    and i: "items = map (page_item_of full) (take ?l (drop (served full q ?L) ?L))"
    and q': "matching scan s cid full q' db = ?L" "pageable scan db q'" "issued full q' ?L"
      "served full q' ?L = served full q ?L + ?l"
    using step more by (auto split: if_splits)
  show "items \<noteq> [] \<and> remaining_items scan s cid full db q = items @ remaining_items scan s cid full db q' \<and>
      resumable scan s collection cid full db q'"
    using n lim q' \<open>collection_id collection db = Inr cid\<close>
    unfolding i remaining_items_def resumable_def Let_def
    by (simp add: map_append [symmetric] drop_drop [symmetric] add.commute del: map_append drop_drop)
qed

subsection \<open>Properties\<close>

definition fetched ::
  "(bso_row list \<Rightarrow> bso_row list) \<Rightarrow> sync_store \<Rightarrow> int \<Rightarrow> bool \<Rightarrow> bso_query \<Rightarrow> database \<Rightarrow> bso_row list" where
  "fetched scan s cid full q db =
     take (nat (if 0 < effective_limit q then effective_limit q + 1 else effective_limit q))
       (drop (nat (numeric_offset q))
         (order_rows full (q_sort q) (scan (filter (bso_where s cid full q) (db_bso db)))))"

lemma get_bsos_items:
  assumes "get_bsos scan s collection q full db = Inr p"
    and c: "collection_id collection db = Inr cid"
  defines "rows \<equiv> fetched scan s cid full q db"
  shows "pg_items p = map (page_item_of full)
      (if effective_limit q < int (length rows) then butlast rows else rows)"
proof -
  have "params_fit full q"
  proof (rule ccontr)
    assume n: "\<not> params_fit full q"
    show False using assms(1) unfolding get_bsos_def c bindr_Inr by (simp add: n)
  qed
  then have guard: "guardr (params_fit full q) e = Inr ()" for e :: store_error by simp
  have item: "(\<lambda>r. if full then Record (bso_of_row r) else RecordId (br_id r)) = page_item_of full"
    by (simp add: page_item_of_def [abs_def])
  have "(if effective_limit q < int (length rows) then
        Inr \<lparr>pg_items = map (page_item_of full) (butlast rows),
             pg_offset = Some (if full then
               encode_next_offset (q_sort q) (numeric_offset q) (query_bound q)
                 (map br_modified (butlast rows))
             else show_int (effective_limit q + numeric_offset q))\<rparr>
      else Inr \<lparr>pg_items = map (page_item_of full) rows,
             pg_offset = (if effective_limit q = 0 \<and> full then Some ''0'' else None)\<rparr>) =
      (Inr p :: store_error + page_item page)"
    using assms(1)
    unfolding get_bsos_def c bindr_Inr guard Let_def item fetched_def [symmetric] rows_def
    by simp
  then show ?thesis by (cases "effective_limit q < int (length rows)") auto
qed

lemma set_fetched:
  assumes "\<And>t. mset (scan t) = mset t"
  shows "set (fetched scan s cid full q db) \<subseteq> {r \<in> set (db_bso db). bso_where s cid full q r}"
proof -
  have "set (order_rows full (q_sort q) (scan (filter (bso_where s cid full q) (db_bso db)))) =
      set (filter (bso_where s cid full q) (db_bso db))"
    by (metis assms mset_eq_setD order_rows_mset)
  then show ?thesis unfolding fetched_def by (auto dest!: in_set_takeD in_set_dropD)
qed

lemma effective_limit_nonneg: "0 \<le> effective_limit q"
  by (simp add: effective_limit_def)

lemma length_fetched: "int (length (fetched scan s cid full q db)) \<le> effective_limit q + 1"
proof -
  have "length (fetched scan s cid full q db) \<le>
      nat (if 0 < effective_limit q then effective_limit q + 1 else effective_limit q)"
    unfolding fetched_def by (metis length_take min.cobounded2)
  moreover have "0 \<le> effective_limit q" by (simp add: effective_limit_def)
  ultimately show ?thesis by (auto split: if_splits)
qed

text \<open>
  A limit of nought is a question, not a page: no row comes back. Ids end there; full
  records are answered with the offset 0, from which the first page can be asked for.
\<close>

lemma zero_limit_page:
  assumes "askable scan db q" and "effective_limit q = 0" and "numeric_offset q = 0"
    and "query_bound q = None" and "collection_id collection db = Inr cid"
  shows "page_step scan s collection full db q =
    Some ([], if full then Some (q\<lparr>q_offset := Some \<lparr>off_timestamp = None, off_offset = 0\<rparr>\<rparr>) else None)"
proof -
  have "params_fit full q"
    using assms by (simp add: params_fit_def askable_def sql_int_def)
  then have guard: "guardr (params_fit full q) e = Inr ()" for e :: store_error by simp
  have "offset_parse (show_int 0) = Some \<lparr>off_timestamp = None, off_offset = 0\<rparr>"
    using offset_roundtrip [of "\<lparr>off_timestamp = None, off_offset = 0\<rparr>"] by (simp add: offset_str_def)
  moreover have "show_int 0 = ''0''" by code_simp
  ultimately have "offset_parse ''0'' = Some \<lparr>off_timestamp = None, off_offset = 0\<rparr>" by simp
  moreover have "get_bsos scan s collection q full db =
      Inr \<lparr>pg_items = [], pg_offset = (if full then Some ''0'' else None)\<rparr>"
    unfolding get_bsos_def assms(5) bindr_Inr guard Let_def using assms(2) by simp
  ultimately show ?thesis by (simp add: page_step_def)
qed

lemma zero_limit_never_ends:
  assumes "askable scan db q" and "effective_limit q = 0" and "numeric_offset q = 0"
    and "query_bound q = None" and "collection_id collection db = Inr cid"
  shows "collect (page_step scan s collection True db) n q = None"
  using assms
proof (induction n arbitrary: q)
  case (Suc n)
  let ?q = "q\<lparr>q_offset := Some \<lparr>off_timestamp = None, off_offset = 0\<rparr>\<rparr>"
  have "askable scan db ?q" "effective_limit ?q = 0" "numeric_offset ?q = 0" "query_bound ?q = None"
    using Suc.prems by (simp_all add: askable_def effective_limit_def numeric_offset_def query_bound_def)
  from Suc.IH [OF this Suc.prems(5)] zero_limit_page [OF Suc.prems, of s True]
  show ?case by simp
qed simp

lemma collect_from_zero:
  "collect (page_step scan s collection full db) n
     (q\<lparr>q_offset := Some \<lparr>off_timestamp = None, off_offset = 0\<rparr>\<rparr>) =
   collect (page_step scan s collection full db) n (q\<lparr>q_offset := None\<rparr>)"
proof -
  let ?z = "q\<lparr>q_offset := Some \<lparr>off_timestamp = None, off_offset = 0\<rparr>\<rparr>"
  and ?n = "q\<lparr>q_offset := None\<rparr>"
  have same: "query_bound ?z = query_bound ?n" "numeric_offset ?z = numeric_offset ?n"
    "effective_limit ?z = effective_limit ?n" "in_window ?z = in_window ?n"
    "q_sort ?z = q_sort ?n"
    by (simp_all add: query_bound_def numeric_offset_def effective_limit_def in_window_def fun_eq_iff)
  have "bso_where s cid full ?z = bso_where s cid full ?n" for cid
    unfolding bso_where_def [abs_def] in_bound_def same by simp
  moreover have "params_fit full ?z = params_fit full ?n"
    unfolding params_fit_def same by simp
  ultimately have "get_bsos scan s collection ?z full db = get_bsos scan s collection ?n full db"
    unfolding get_bsos_def same by (simp only:)
  moreover have "?z\<lparr>q_offset := Some f\<rparr> = ?n\<lparr>q_offset := Some f\<rparr>" for f by simp
  ultimately have "page_step scan s collection full db ?z = page_step scan s collection full db ?n"
    unfolding page_step_def by (simp only:)
  then show ?thesis by (cases n) simp_all
qed

lemma pages_complete:
  assumes "pageable scan db q" and "q_offset q = None"
    and "collection_id collection db = Inr cid" and "length (db_bso db) < fuel"
  shows "collect (page_step scan s collection full db) fuel q =
    Some (map (page_item_of full) (matching scan s cid full q db))"
proof -
  have r: "resumable scan s collection cid full db q"
    using assms by (simp add: resumable_def issued_def)
  have rem: "remaining_items scan s cid full db q =
      map (page_item_of full) (matching scan s cid full q db)"
    using assms(2) by (simp add: remaining_items_def served_def)
  have "size (mset (matching scan s cid full q db)) \<le> length (db_bso db)"
    using assms(1) size_filter_mset_lesseq [of _ "mset (db_bso db)"]
    by (simp add: matching_def order_rows_mset pageable_def)
  then have "length (remaining_items scan s cid full db q) < fuel" using assms(4) by (simp add: rem)
  then show ?thesis using store_pages.collect_all [OF r] by (simp add: rem)
qed

lemma resumed_from_zero:
  assumes "askable scan db q" and "q_offset q = None" and "0 < l"
    and "int (length (db_bso db)) + l + 1 < 2 ^ 63"
    and "collection_id collection db = Inr cid" and "length (db_bso db) < fuel"
  shows "collect (page_step scan s collection full db) fuel
      (q\<lparr>q_offset := Some \<lparr>off_timestamp = None, off_offset = 0\<rparr>, q_limit := Some l\<rparr>) =
    Some (map (page_item_of full) (matching scan s cid full q db))"
proof -
  let ?q = "q\<lparr>q_limit := Some l\<rparr>"
  have "unbounded ?q = (unbounded q)\<lparr>q_limit := Some l\<rparr>" by (simp add: unbounded_def)
  moreover have "bso_where s cid full (b\<lparr>q_limit := Some l\<rparr>) = bso_where s cid full b" for b :: bso_query
  proof -
    have same: "query_bound (b\<lparr>q_limit := Some l\<rparr>) = query_bound b"
      "in_window (b\<lparr>q_limit := Some l\<rparr>) = in_window b"
      "q_sort (b\<lparr>q_limit := Some l\<rparr>) = q_sort b"
      by (simp_all add: query_bound_def in_window_def fun_eq_iff)
    show ?thesis unfolding bso_where_def [abs_def] in_bound_def same by simp
  qed
  ultimately have m: "matching scan s cid full ?q db = matching scan s cid full q db"
    by (simp add: matching_def)
  have "pageable scan db ?q"
    using assms(1,3,4) by (simp add: pageable_iff_askable askable_def effective_limit_def)
  from pages_complete [OF this _ assms(5,6), of s full] assms(2)
  have "collect (page_step scan s collection full db) fuel ?q =
      Some (map (page_item_of full) (matching scan s cid full q db))" by (simp add: m)
  moreover have "?q\<lparr>q_offset := None\<rparr> = ?q" using assms(2) by (cases q) simp
  moreover have "q\<lparr>q_offset := f, q_limit := Some l\<rparr> = ?q\<lparr>q_offset := f\<rparr>" for f by simp
  ultimately show ?thesis using collect_from_zero [of scan s collection full db fuel ?q]
    by (simp only:)
qed


definition sample_store :: sync_store where
  "sample_store = \<lparr>ss_uid = 7, ss_now = 1700000000100\<rparr>"

definition sample_query :: bso_query where
  "sample_query = \<lparr>q_newer = None, q_older = None, q_sort = None, q_limit = Some 2,
     q_offset = None, q_ids = []\<rparr>"

lemma sample_pageable: "pageable (\<lambda>t. t) sample_database sample_query"
  using sample_wf sample_inv
  by (simp add: pageable_def sample_query_def effective_limit_def sample_defs)

lemma sample_askable: "askable (\<lambda>t. t) sample_database sample_query"
  using sample_pageable by (simp add: pageable_iff_askable)

lemma sample_bookmarks: "collection_id ''bookmarks'' sample_database = Inr 1"
  by (simp add: collection_id_def sample_defs lookup_key_def)


text \<open>
  No page is longer than the limit in force (10,000 when the client names none), and a
  page holds only live records of this user and collection inside the window asked for.
\<close>

theorem page_sound:
  assumes "get_bsos scan s collection q full db = Inr p" and "\<And>t. mset (scan t) = mset t"
    and "collection_id collection db = Inr cid"
  shows "int (length (pg_items p)) \<le> effective_limit q \<and>
    set (pg_items p) \<subseteq> page_item_of full ` {r \<in> set (db_bso db). br_uid r = ss_uid s \<and>
      br_collection_id r = cid \<and> ss_now s < br_expiry r \<and> in_window q r}"
proof -
  let ?rows = "fetched scan s cid full q db"
  note items = get_bsos_items [OF assms(1,3)]
  have "int (length (pg_items p)) \<le> effective_limit q"
  proof (cases "effective_limit q < int (length ?rows)")
    case True
    then have "0 < length ?rows" using effective_limit_nonneg [of q] by linarith
    moreover have "length (pg_items p) = length ?rows - 1" using items True by simp
    ultimately show ?thesis using length_fetched [of scan s cid full q db] by linarith
  next
    case False
    with items show ?thesis by simp
  qed
  moreover have "set (pg_items p) \<subseteq> page_item_of full ` set ?rows"
    using items by (auto dest: in_set_butlastD)
  moreover have "{r \<in> set (db_bso db). bso_where s cid full q r} \<subseteq> {r \<in> set (db_bso db).
      br_uid r = ss_uid s \<and> br_collection_id r = cid \<and> ss_now s < br_expiry r \<and> in_window q r}"
    by (auto simp: bso_where_def)
  ultimately show ?thesis using set_fetched [OF assms(2), of s cid full q db] by blast
qed

theorem page_sound_witness:
  "\<exists>p. get_bsos (\<lambda>t. t) sample_store ''bookmarks'' sample_query True sample_database = Inr p \<and>
     int (length (pg_items p)) \<le> 2"
proof -
  have "issued True sample_query (matching (\<lambda>t. t) sample_store 1 True sample_query sample_database)"
    by (simp add: issued_def sample_query_def)
  then obtain p where
    p: "get_bsos (\<lambda>t. t) sample_store ''bookmarks'' sample_query True sample_database = Inr p"
    using read_page [OF sample_pageable _ sample_bookmarks] by (metis (no_types))
  then show ?thesis
    using page_sound [OF p _ sample_bookmarks] by (simp add: effective_limit_def sample_query_def)
qed

text \<open>
  An offset token the server prints is read back as the same offset, with and without
  the timestamp half.
\<close>

theorem offset_token_roundtrip:
  assumes "0 \<le> off_offset f" "off_offset f < 2 ^ 63"
    and "case off_timestamp f of None \<Rightarrow> True | Some t \<Rightarrow> instant t"
  shows "offset_parse (offset_str f) = Some f"
  using assms by (rule offset_roundtrip)

theorem offset_token_roundtrip_witness:
  "offset_parse (offset_str \<lparr>off_timestamp = Some 1700000000020, off_offset = 2\<rparr>) =
     Some \<lparr>off_timestamp = Some 1700000000020, off_offset = 2\<rparr>"
  by (rule offset_token_roundtrip) (simp_all add: instant_def sql_int_def)

end
