(* ===== verification/SyncHttp.thy ===== *)
theory SyncHttp
  imports SyncModels SyncPaging
begin

text \<open>
  The Sync 1.5 routes (\<open>syncstorage/__init__.py\<close>): authentication of the uid the path
  names, the transaction, the precondition and the headers \<open>_run\<close> puts around every
  handler, and the handlers. A route takes the request and the database and answers a
  response or an exception, beside the database it leaves. \<open>scan\<close> is the order SQLite
  visits rows in, \<open>codec\<close> the reading of bodies, \<open>auth\<close> the verification of the HAWK
  header (\<open>credentials.authenticate\<close>), whose result is the uid the token names; \<open>SyncFront\<close>
  builds it from the request as the code does, and writes \<open>LinesBody\<close> out as text.
\<close>

datatype body = JsonBody json | LinesBody "json list" | NoBody

record response =
  rs_status :: int
  rs_headers :: "(str \<times> str) list"
  rs_body :: body

record http_request =
  rq_uid :: int
  rq_params :: params
  rq_headers :: "(str \<times> str) list"
  rq_body :: bytes

text \<open>What a handler may raise inside the transaction.\<close>

datatype run_exn = Store store_error | Web sync_exn

definition from_store :: "store_error + 'a \<Rightarrow> run_exn + 'a" where
  "from_store r = (case r of Inl e \<Rightarrow> Inl (Store e) | Inr a \<Rightarrow> Inr a)"

definition from_web :: "sync_exn + 'a \<Rightarrow> run_exn + 'a" where
  "from_web r = (case r of Inl e \<Rightarrow> Inl (Web e) | Inr a \<Rightarrow> Inr a)"

lemma from_store_eq [simp]:
  "from_store r = Inr a \<longleftrightarrow> r = Inr a" "from_store (Inr a) = Inr a"
  "from_store (Inl e) = Inl (Store e)"
  by (cases r) (simp_all add: from_store_def)

lemma from_web_eq [simp]:
  "from_web r = Inr a \<longleftrightarrow> r = Inr a" "from_web (Inr a) = Inr a" "from_web (Inl w) = Inl (Web w)"
  by (cases r) (simp_all add: from_web_def)

text \<open>The three \<open>except\<close> clauses of \<open>_run\<close>; a driver error passes through.\<close>

fun http_of :: "run_exn \<Rightarrow> sync_exn" where
  "http_of (Store ConflictError) = Http conflict"
| "http_of (Store BatchNotFound) = Http bad_request"
| "http_of (Store CollectionNotFound) = Http internal_error"
| "http_of (Store BsoNotFound) = Http internal_error"
| "http_of (Store (SqlError _)) = Crash"
| "http_of (Web e) = e"

subsection \<open>The transaction, the precondition and the headers\<close>

definition X_LAST_MODIFIED :: str where "X_LAST_MODIFIED = ''X-Last-Modified''"
definition X_WEAVE_TIMESTAMP :: str where "X_WEAVE_TIMESTAMP = ''X-Weave-Timestamp''"

definition precondition :: "(str \<times> str) list \<Rightarrow> int \<Rightarrow> sync_exn + response option" where
  "precondition headers timestamp =
     (let answer = (\<lambda>status. Some \<lparr>rs_status = status,
            rs_headers = [(X_LAST_MODIFIED, timestamp_header timestamp)], rs_body = NoBody\<rparr>) in
      case (header_get headers ''x-if-modified-since'',
            header_get headers ''x-if-unmodified-since'') of
        (Some _, Some _) \<Rightarrow> Inl (Http bad_request)
      | (Some modified, None) \<Rightarrow>
          bindr (parse_timestamp modified) (\<lambda>t.
            Inr (if timestamp \<le> t then answer 304 else None))
      | (None, Some unmodified) \<Rightarrow>
          bindr (parse_timestamp unmodified) (\<lambda>t.
            Inr (if t < timestamp then answer 412 else None))
      | (None, None) \<Rightarrow> Inr None)"

text \<open>The header is \<open>f"{seconds:.2f}"\<close> of the server's clock or the resource's, the later.\<close>

definition weave_timestamp :: "response \<Rightarrow> int \<Rightarrow> response" where
  "weave_timestamp r now =
     (let seconds = binary64 (of_int now / 1000);
          seconds' = (case map_of (rs_headers r) X_LAST_MODIFIED of
              None \<Rightarrow> seconds
            | Some h \<Rightarrow> (case py_float h of Some (PFin f) \<Rightarrow> max seconds f | _ \<Rightarrow> seconds))
      in r\<lparr>rs_headers := dict_set X_WEAVE_TIMESTAMP (fmt2 seconds') (rs_headers r)\<rparr>)"

definition last_modified_default :: "int \<Rightarrow> response \<Rightarrow> response" where
  "last_modified_default timestamp r =
     (if X_LAST_MODIFIED \<in> fst ` set (rs_headers r) then r
      else r\<lparr>rs_headers := rs_headers r @ [(X_LAST_MODIFIED, timestamp_header timestamp)]\<rparr>)"

type_synonym handler = "sync_store \<Rightarrow> database \<Rightarrow> run_exn + response \<times> database"
type_synonym served = "(sync_exn + response) \<times> database"

definition run_body ::
  "(str \<times> str) list \<Rightarrow> sync_store \<Rightarrow> (sync_store \<Rightarrow> database \<Rightarrow> int) \<Rightarrow> str option \<Rightarrow> handler \<Rightarrow>
     database \<Rightarrow> run_exn + response \<times> database" where
  "run_body headers s resource collection handler db =
     bindr (from_web (precondition headers (resource s db))) (\<lambda>early.
       (case early of
          Some r \<Rightarrow> Inr (r, db)
        | None \<Rightarrow>
            bindr (case collection of
                None \<Rightarrow> Inr db
              | Some c \<Rightarrow>
                  bindr (from_store (get_or_create_collection_id c db)) (\<lambda>(cid, db1).
                  bindr (from_store (check_write s cid db1)) (\<lambda>_. Inr db1))) (\<lambda>db1.
            bindr (handler s db1) (\<lambda>(r, db2).
              Inr (last_modified_default (resource s db) r, db2)))))"

text \<open>\<open>BEGIN IMMEDIATE\<close>, then \<open>COMMIT\<close>, or \<open>ROLLBACK\<close> on any exception.\<close>

definition run ::
  "(str \<times> str) list \<Rightarrow> sync_store \<Rightarrow> (sync_store \<Rightarrow> database \<Rightarrow> int) \<Rightarrow> str option \<Rightarrow> handler \<Rightarrow>
     database \<Rightarrow> served" where
  "run headers s resource collection handler db =
     (case run_body headers s resource collection handler db of
        Inl e \<Rightarrow> (Inl (http_of e), db)
      | Inr (r, db') \<Rightarrow> (Inr (weave_timestamp r (ss_now s)), db'))"

definition collection_resource :: "str \<Rightarrow> sync_store \<Rightarrow> database \<Rightarrow> int" where
  "collection_resource collection s db =
     (case collection_timestamp s collection db of Inl _ \<Rightarrow> 0 | Inr t \<Rightarrow> t)"

definition bso_resource :: "str \<Rightarrow> str \<Rightarrow> sync_store \<Rightarrow> database \<Rightarrow> int" where
  "bso_resource collection bso_id s db =
     (case bso_timestamp s collection bso_id db of Inl _ \<Rightarrow> 0 | Inr t \<Rightarrow> t)"

subsection \<open>Authentication of a request\<close>

text \<open>\<open>now_ms\<close> is the clock in milliseconds; the store works at a whole hundredth of it.\<close>

definition authenticate_request ::
  "(http_request \<Rightarrow> sync_exn + int) \<Rightarrow> int \<Rightarrow> http_request \<Rightarrow> database \<Rightarrow> sync_exn + sync_store" where
  "authenticate_request auth now_ms rq db =
     bindr (auth rq) (\<lambda>uid.
       if uid \<noteq> rq_uid rq then Inl (Http sync_unauthorized)
       else if \<not> sql_int uid then Inl Crash
       else if get_sync_user uid db = None then Inl (Http sync_unauthorized)
       else Inr \<lparr>ss_uid = uid, ss_now = quantize now_ms\<rparr>)"

text \<open>A check that runs before the transaction: its exception ends the request.\<close>

definition before :: "sync_exn + 'a \<Rightarrow> database \<Rightarrow> ('a \<Rightarrow> served) \<Rightarrow> served" where
  "before r db f = (case r of Inl e \<Rightarrow> (Inl e, db) | Inr a \<Rightarrow> f a)"

lemma before_Inl [simp]: "before (Inl e) db f = (Inl e, db)"
  by (simp add: before_def)

lemma before_Inr [simp]: "before (Inr a) db f = f a"
  by (simp add: before_def)

subsection \<open>Responses\<close>

definition json_response :: "json \<Rightarrow> (str \<times> str) list \<Rightarrow> int \<Rightarrow> response" where
  "json_response b headers status =
     \<lparr>rs_status = status, rs_headers = headers, rs_body = JsonBody b\<rparr>"

definition json_timestamp :: "int \<Rightarrow> json" where
  "json_timestamp t = JFloat (PFin (timestamp_json t))"

definition bso_as_json :: "bso \<Rightarrow> json" where
  "bso_as_json b = JObj
     ([(''id'', JStr (b_id b)), (''modified'', json_timestamp (b_modified b)),
       (''payload'', JStr (b_payload b))] @
      (case b_sortindex b of None \<Rightarrow> [] | Some i \<Rightarrow> [(''sortindex'', JInt i)]))"

definition item_as_json :: "page_item \<Rightarrow> json" where
  "item_as_json i = (case i of Record b \<Rightarrow> bso_as_json b | RecordId s \<Rightarrow> JStr s)"

definition kilobytes :: "int \<Rightarrow> json" where
  "kilobytes n = JFloat (PFin (binary64 (of_int n / 1024)))"

definition records_header :: "nat \<Rightarrow> str \<times> str" where
  "records_header n = (''X-Weave-Records'', show_int (int n))"

definition last_modified_header :: "int \<Rightarrow> str \<times> str" where
  "last_modified_header t = (X_LAST_MODIFIED, timestamp_header t)"

text \<open>A dict of the store, or the \<open>KeyError\<close> of an id without a name.\<close>

definition named_totals :: "(int \<Rightarrow> json) \<Rightarrow> (str \<times> int) list option \<Rightarrow> run_exn + response" where
  "named_totals f r =
     (case r of
        None \<Rightarrow> Inl (Web Crash)
      | Some d \<Rightarrow>
          Inr (json_response (JObj (map (\<lambda>(n, v). (n, f v)) d)) [records_header (length d)] 200))"

subsection \<open>The handlers\<close>

definition info_collections_handler :: handler where
  "info_collections_handler s db =
     bindr (named_totals json_timestamp (collection_timestamps s db)) (\<lambda>r. Inr (r, db))"

definition info_collection_counts_handler :: handler where
  "info_collection_counts_handler s db =
     bindr (named_totals JInt (collection_counts s db)) (\<lambda>r. Inr (r, db))"

definition info_collection_usage_handler :: handler where
  "info_collection_usage_handler s db =
     bindr (named_totals kilobytes (collection_usage s db)) (\<lambda>r. Inr (r, db))"

definition info_quota_handler :: handler where
  "info_quota_handler s db =
     Inr (json_response (JArr [kilobytes (storage_usage s db), JNull]) [] 200, db)"

definition delete_all_handler :: handler where
  "delete_all_handler s db = Inr (json_response JNull [] 200, delete_storage s db)"

definition get_collection_handler ::
  "(bso_row list \<Rightarrow> bso_row list) \<Rightarrow> str \<Rightarrow> bso_query \<Rightarrow> bool \<Rightarrow> bool \<Rightarrow> handler" where
  "get_collection_handler scan collection q full newlines s db =
     bindr (case get_bsos scan s collection q full db of
         Inl CollectionNotFound \<Rightarrow> Inr \<lparr>pg_items = [], pg_offset = None\<rparr>
       | r \<Rightarrow> from_store r) (\<lambda>p.
       (let items = map item_as_json (pg_items p);
            headers = records_header (length items) #
              (case pg_offset p of None \<Rightarrow> [] | Some t \<Rightarrow> [(''X-Weave-Next-Offset'', t)])
        in Inr (if newlines
                then \<lparr>rs_status = 200, rs_headers = headers, rs_body = LinesBody items\<rparr>
                else json_response (JArr items) headers 200, db)))"

definition failed_json :: "posted_bsos \<Rightarrow> json" where
  "failed_json bsos = JObj (map (\<lambda>(i, why). (i, JStr why)) (ps_invalid bsos))"

definition success_json :: "posted_bsos \<Rightarrow> json" where
  "success_json bsos = JArr (map (\<lambda>b. JStr (pb_id b)) (ps_valid bsos))"

definition post_batch :: "str \<Rightarrow> batch_request \<Rightarrow> posted_bsos \<Rightarrow> handler" where
  "post_batch collection batch bsos s db =
     bindr (case br_batch batch of
         None \<Rightarrow> from_store (create_batch s collection db)
       | Some i \<Rightarrow>
           bindr (from_store (validate_batch s collection i db)) (\<lambda>ok.
             if ok then Inr (i, db) else Inl (Web (Http bad_request)))) (\<lambda>(identifier, db1).
     bindr (if ps_valid bsos \<noteq> [] \<and> \<not> br_commit batch
            then from_store (append_to_batch s collection identifier (ps_valid bsos) db1)
            else Inr db1) (\<lambda>db2.
       if \<not> br_commit batch then
         Inr (json_response (JObj [(''batch'', JStr identifier), (''success'', success_json bsos),
                (''failed'', failed_json bsos)]) [] 202, db2)
       else
         bindr (from_store (commit_batch s collection identifier db2)) (\<lambda>(modified, db3).
         bindr (if ps_valid bsos \<noteq> []
                then from_store (post_bsos s collection (ps_valid bsos) True db3)
                else Inr (modified, db3)) (\<lambda>(modified', db4).
           Inr (json_response (JObj [(''success'', success_json bsos),
                  (''failed'', failed_json bsos), (''modified'', json_timestamp modified')])
                [last_modified_header modified'] 200, db4)))))"

definition post_collection_handler ::
  "str \<Rightarrow> batch_request option \<Rightarrow> posted_bsos \<Rightarrow> handler" where
  "post_collection_handler collection batch bsos s db =
     (case batch of
        Some b \<Rightarrow>
          if \<not> (br_batch b = None \<and> br_commit b) then post_batch collection b bsos s db
          else bindr (from_store (post_bsos s collection (ps_valid bsos) False db)) (\<lambda>(modified, db1).
            Inr (json_response (JObj [(''modified'', json_timestamp modified),
                (''success'', success_json bsos), (''failed'', failed_json bsos)])
              [last_modified_header modified] 200, db1))
      | None \<Rightarrow>
          bindr (from_store (post_bsos s collection (ps_valid bsos) False db)) (\<lambda>(modified, db1).
            Inr (json_response (JObj [(''modified'', json_timestamp modified),
                (''success'', success_json bsos), (''failed'', failed_json bsos)])
              [last_modified_header modified] 200, db1)))"

text \<open>Deleting what is not there answers the storage timestamp.\<close>

definition delete_collection_handler :: "str \<Rightarrow> str list \<Rightarrow> handler" where
  "delete_collection_handler collection ids s db =
     bindr (case (if ids \<noteq> [] then delete_bsos s collection ids db
                  else delete_collection s collection db) of
         Inl CollectionNotFound \<Rightarrow> Inr (storage_timestamp s db, db)
       | Inl BsoNotFound \<Rightarrow> Inr (storage_timestamp s db, db)
       | r \<Rightarrow> from_store r) (\<lambda>(modified, db1).
       Inr (json_response (json_timestamp modified)
              (if ids \<noteq> [] then [last_modified_header modified] else []) 200, db1))"

definition get_bso_handler :: "str \<Rightarrow> str \<Rightarrow> handler" where
  "get_bso_handler collection bso_id s db =
     (case get_bso s collection bso_id db of
        Inr (Some b) \<Rightarrow> Inr (json_response (bso_as_json b) [] 200, db)
      | _ \<Rightarrow> Inl (Web (Http not_found)))"

definition put_bso_handler :: "str \<Rightarrow> str \<Rightarrow> posted_bso \<Rightarrow> handler" where
  "put_bso_handler collection bso_id b s db =
     bindr (from_store (put_bso s collection (b\<lparr>pb_id := bso_id\<rparr>) None True db)) (\<lambda>(modified, db1).
       Inr (json_response (json_timestamp modified) [last_modified_header modified] 200, db1))"

definition delete_bso_handler :: "str \<Rightarrow> str \<Rightarrow> handler" where
  "delete_bso_handler collection bso_id s db =
     bindr (case delete_bso s collection bso_id db of
         Inl CollectionNotFound \<Rightarrow> Inl (Web (Http not_found))
       | Inl BsoNotFound \<Rightarrow> Inl (Web (Http not_found))
       | r \<Rightarrow> from_store r) (\<lambda>(modified, db1).
       Inr (json_response (JObj [(''modified'', json_timestamp modified)])
              [last_modified_header modified] 200, db1))"

subsection \<open>The routes\<close>

datatype route =
    InfoCollections | InfoCollectionCounts | InfoCollectionUsage | InfoQuota | InfoConfiguration
  | DeleteAll
  | GetCollection str | PostCollection str | DeleteCollection str
  | GetBso str str | PutBso str str | DeleteBso str str

text \<open>Where the code the routes call but do not contain comes from.\<close>

record env =
  en_scan :: "bso_row list \<Rightarrow> bso_row list"
  en_codec :: codec
  en_auth :: "http_request \<Rightarrow> sync_exn + int"
  en_now_ms :: int

definition authenticated :: "env \<Rightarrow> http_request \<Rightarrow> database \<Rightarrow> (sync_store \<Rightarrow> served) \<Rightarrow> served" where
  "authenticated en rq db f =
     before (authenticate_request (en_auth en) (en_now_ms en) rq db) db f"

definition info_configuration :: "env \<Rightarrow> database \<Rightarrow> served" where
  "info_configuration en db =
     (Inr (weave_timestamp (json_response (limits_as_json LIMITS) [(X_LAST_MODIFIED, ''0.00'')] 200)
        (quantize (en_now_ms en))), db)"

definition info_route :: "env \<Rightarrow> handler \<Rightarrow> http_request \<Rightarrow> database \<Rightarrow> served" where
  "info_route en h rq db =
     authenticated en rq db (\<lambda>s. run (rq_headers rq) s storage_timestamp None h db)"

definition get_collection :: "env \<Rightarrow> str \<Rightarrow> http_request \<Rightarrow> database \<Rightarrow> served" where
  "get_collection en collection rq db =
     before (validate_collection collection) db (\<lambda>_.
     authenticated en rq db (\<lambda>s.
     before (parse_query (rq_params rq)) db (\<lambda>q.
     before (wants_newlines (header_get (rq_headers rq) ''accept'')) db (\<lambda>newlines.
       run (rq_headers rq) s (collection_resource collection) None
         (get_collection_handler (en_scan en) collection q
           (param_get (rq_params rq) ''full'' \<noteq> None) newlines) db))))"

definition post_collection :: "env \<Rightarrow> str \<Rightarrow> http_request \<Rightarrow> database \<Rightarrow> served" where
  "post_collection en collection rq db =
     before (validate_collection collection) db (\<lambda>_.
     before (check_content_length (rq_headers rq)) db (\<lambda>_.
     before (check_batch_headers (rq_headers rq)) db (\<lambda>_.
     authenticated en rq db (\<lambda>s.
     before (parse_batch (rq_params rq)) db (\<lambda>batch.
     before (parse_bso_bodies (en_codec en) (rq_body rq)
         (header_get (rq_headers rq) ''content-type'')) db (\<lambda>bsos.
     before (check_known_bad_payload (ps_valid bsos) collection) db (\<lambda>_.
       run (rq_headers rq) s (collection_resource collection) (Some collection)
         (post_collection_handler collection batch bsos) db)))))))"

definition delete_collection_route :: "env \<Rightarrow> str \<Rightarrow> http_request \<Rightarrow> database \<Rightarrow> served" where
  "delete_collection_route en collection rq db =
     before (validate_collection collection) db (\<lambda>_.
     authenticated en rq db (\<lambda>s.
     before (parse_query (rq_params rq)) db (\<lambda>q.
       run (rq_headers rq) s (collection_resource collection) (Some collection)
         (delete_collection_handler collection (q_ids q)) db)))"

definition get_bso_route :: "env \<Rightarrow> str \<Rightarrow> str \<Rightarrow> http_request \<Rightarrow> database \<Rightarrow> served" where
  "get_bso_route en collection bso_id rq db =
     before (validate_collection collection) db (\<lambda>_.
     before (validate_bso_id bso_id) db (\<lambda>_.
     authenticated en rq db (\<lambda>s.
       run (rq_headers rq) s (bso_resource collection bso_id) None
         (get_bso_handler collection bso_id) db)))"

definition put_bso_route :: "env \<Rightarrow> str \<Rightarrow> str \<Rightarrow> http_request \<Rightarrow> database \<Rightarrow> served" where
  "put_bso_route en collection bso_id rq db =
     before (validate_collection collection) db (\<lambda>_.
     before (validate_bso_id bso_id) db (\<lambda>_.
     before (check_content_length (rq_headers rq)) db (\<lambda>_.
     authenticated en rq db (\<lambda>s.
     before (parse_bso_body (en_codec en) (rq_body rq)
         (header_get (rq_headers rq) ''content-type'')) db (\<lambda>b.
     before (check_known_bad_payload [b] collection) db (\<lambda>_.
       run (rq_headers rq) s (bso_resource collection bso_id) (Some collection)
         (put_bso_handler collection bso_id b) db))))))"

definition delete_bso_route :: "env \<Rightarrow> str \<Rightarrow> str \<Rightarrow> http_request \<Rightarrow> database \<Rightarrow> served" where
  "delete_bso_route en collection bso_id rq db =
     before (validate_collection collection) db (\<lambda>_.
     before (validate_bso_id bso_id) db (\<lambda>_.
     authenticated en rq db (\<lambda>s.
       run (rq_headers rq) s (bso_resource collection bso_id) (Some collection)
         (delete_bso_handler collection bso_id) db)))"

definition serve :: "env \<Rightarrow> route \<Rightarrow> http_request \<Rightarrow> database \<Rightarrow> served" where
  "serve en rt rq db =
     (case rt of
        InfoCollections \<Rightarrow> info_route en info_collections_handler rq db
      | InfoCollectionCounts \<Rightarrow> info_route en info_collection_counts_handler rq db
      | InfoCollectionUsage \<Rightarrow> info_route en info_collection_usage_handler rq db
      | InfoQuota \<Rightarrow> info_route en info_quota_handler rq db
      | InfoConfiguration \<Rightarrow> info_configuration en db
      | DeleteAll \<Rightarrow> info_route en delete_all_handler rq db
      | GetCollection c \<Rightarrow> get_collection en c rq db
      | PostCollection c \<Rightarrow> post_collection en c rq db
      | DeleteCollection c \<Rightarrow> delete_collection_route en c rq db
      | GetBso c i \<Rightarrow> get_bso_route en c i rq db
      | PutBso c i \<Rightarrow> put_bso_route en c i rq db
      | DeleteBso c i \<Rightarrow> delete_bso_route en c i rq db)"

end
