(* ===== verification/SyncHttpFacts.thy ===== *)
theory SyncHttpFacts
  imports SyncHttp
begin

text \<open>
  What every route keeps, whatever the request: no
  request reads or writes another user's storage, and the invariant of delta sync holds
  before and after. The routes are taken apart once (\<open>serve_cases\<close>): either the database is
  as it was, or one handler ran to its end inside the transaction.
\<close>

subsection \<open>The transaction\<close>

text \<open>The guard of a write: the collection exists now, and its stamp is in the past.\<close>

definition guarded :: "sync_store \<Rightarrow> str option \<Rightarrow> database \<Rightarrow> database \<Rightarrow> bool" where
  "guarded s collection db db1 \<longleftrightarrow>
     (case collection of
        None \<Rightarrow> db1 = db
      | Some c \<Rightarrow>
          db1 = insert_or_ignore_collection c db \<and>
          (\<exists>cid. collection_id c db1 = Inr cid \<and> check_write s cid db1 = Inr ()))"

lemma run_body_cases:
  assumes "run_body headers s resource collection handler db = Inr (r, db')"
  obtains (early) "precondition headers (resource s db) = Inr (Some r)" "db' = db"
  | (completed) db1 r1 where "precondition headers (resource s db) = Inr None"
      "guarded s collection db db1" "handler s db1 = Inr (r1, db')"
      "r = last_modified_default (resource s db) r1"
proof -
  obtain early where p: "precondition headers (resource s db) = Inr early"
    using assms by (auto simp: run_body_def bindr_eq_Inr)
  show thesis
  proof (cases early)
    case (Some x)
    with p assms show thesis by (intro that(1)) (simp_all add: run_body_def)
  next
    case None
    with p assms obtain db1 r1 where
      g: "(case collection of
                None \<Rightarrow> Inr db
              | Some c \<Rightarrow>
                  bindr (from_store (get_or_create_collection_id c db)) (\<lambda>(cid, db1).
                  bindr (from_store (check_write s cid db1)) (\<lambda>_. Inr db1))) =
          (Inr db1 :: run_exn + database)" and
      h: "handler s db1 = Inr (r1, db')" "r = last_modified_default (resource s db) r1"
      by (auto simp: run_body_def bindr_eq_Inr)
    have "guarded s collection db db1"
      using g by (cases collection)
        (auto simp: guarded_def bindr_eq_Inr dest: get_or_create_Inr(1,2))
    with p None h show thesis by (intro that(2)) simp_all
  qed
qed

lemma run_cases:
  obtains (unchanged) "snd (run headers s resource collection handler db) = db"
  | (completed) db1 db2 r1 where "precondition headers (resource s db) = Inr None"
      "guarded s collection db db1" "handler s db1 = Inr (r1, db2)"
      "run headers s resource collection handler db =
         (Inr (weave_timestamp (last_modified_default (resource s db) r1) (ss_now s)), db2)"
proof (cases "run_body headers s resource collection handler db")
  case (Inl e)
  then show thesis by (intro unchanged) (simp add: run_def)
next
  case (Inr x)
  obtain r db' where x: "x = (r, db')" by (cases x)
  with Inr have b: "run_body headers s resource collection handler db = Inr (r, db')" by simp
  show thesis
    using b
  proof (cases rule: run_body_cases)
    case early
    with b show thesis by (intro unchanged) (simp add: run_def)
  next
    case (completed db1 r1)
    with b show thesis by (intro that(2) [of db1 r1 db']) (simp_all add: run_def)
  qed
qed

lemma run_error: "fst (run headers s resource collection handler db) = Inl e \<Longrightarrow>
    snd (run headers s resource collection handler db) = db"
  by (auto simp: run_def split: sum.splits)

subsection \<open>The handler of a route\<close>

definition handler_of :: "env \<Rightarrow> route \<Rightarrow> handler \<Rightarrow> str option \<Rightarrow> bool" where
  "handler_of en rt h collection \<longleftrightarrow>
     (case rt of
        InfoCollections \<Rightarrow> h = info_collections_handler \<and> collection = None
      | InfoCollectionCounts \<Rightarrow> h = info_collection_counts_handler \<and> collection = None
      | InfoCollectionUsage \<Rightarrow> h = info_collection_usage_handler \<and> collection = None
      | InfoQuota \<Rightarrow> h = info_quota_handler \<and> collection = None
      | InfoConfiguration \<Rightarrow> False
      | DeleteAll \<Rightarrow> h = delete_all_handler \<and> collection = None
      | GetCollection c \<Rightarrow>
          (\<exists>q full nl. h = get_collection_handler (en_scan en) c q full nl) \<and> collection = None
      | PostCollection c \<Rightarrow>
          (\<exists>batch bsos. h = post_collection_handler c batch bsos) \<and> collection = Some c \<and> c \<noteq> []
      | DeleteCollection c \<Rightarrow>
          (\<exists>ids. h = delete_collection_handler c ids) \<and> collection = Some c \<and> c \<noteq> []
      | GetBso c i \<Rightarrow> h = get_bso_handler c i \<and> collection = None
      | PutBso c i \<Rightarrow>
          (\<exists>b. h = put_bso_handler c i b) \<and> collection = Some c \<and> c \<noteq> []
      | DeleteBso c i \<Rightarrow> h = delete_bso_handler c i \<and> collection = Some c \<and> c \<noteq> [])"

lemma validate_collection_nonempty: "validate_collection c = Inr x \<Longrightarrow> c \<noteq> []"
  by (auto simp: validate_collection_def COLLECTION_RE_def re_dollar_def class_between_def
      split: if_splits)

lemma before_cases:
  "P (before r db f) \<longleftrightarrow> (\<forall>e. r = Inl e \<longrightarrow> P (Inl e, db)) \<and> (\<forall>a. r = Inr a \<longrightarrow> P (f a))"
  by (cases r) simp_all

lemma authenticate_request_Inr:
  assumes "authenticate_request auth now_ms rq db = Inr s"
  shows "auth rq = Inr (rq_uid rq)" "s = \<lparr>ss_uid = rq_uid rq, ss_now = quantize now_ms\<rparr>"
    "has_key su_uid (rq_uid rq) (db_sync_users db)"
  using assms
  by (auto simp: authenticate_request_def bindr_eq_Inr get_sync_user_def has_key_lookup
      split: if_splits)

lemma serve_cases:
  obtains (unchanged) "snd (serve en rt rq db) = db"
  | (ran) s resource collection h where
      "authenticate_request (en_auth en) (en_now_ms en) rq db = Inr s"
      "handler_of en rt h collection"
      "serve en rt rq db = run (rq_headers rq) s resource collection h db"
proof (cases "\<exists>s resource collection h.
      authenticate_request (en_auth en) (en_now_ms en) rq db = Inr s \<and>
      handler_of en rt h collection \<and>
      serve en rt rq db = run (rq_headers rq) s resource collection h db")
  case True
  then show thesis using ran by blast
next
  case False
  have "snd (serve en rt rq db) = db"
  proof (cases rt)
    case (PostCollection c)
    with False show ?thesis
      by (fastforce simp: serve_def post_collection_def authenticated_def before_def handler_of_def
          dest: validate_collection_nonempty split: sum.splits)
  next
    case (PutBso c i)
    with False show ?thesis
      by (fastforce simp: serve_def put_bso_route_def authenticated_def before_def handler_of_def
          dest: validate_collection_nonempty split: sum.splits)
  next
    case (DeleteBso c i)
    with False show ?thesis
      by (fastforce simp: serve_def delete_bso_route_def authenticated_def before_def handler_of_def
          dest: validate_collection_nonempty split: sum.splits)
  next
    case (DeleteCollection c)
    with False show ?thesis
      by (fastforce simp: serve_def delete_collection_route_def authenticated_def before_def
          handler_of_def dest: validate_collection_nonempty split: sum.splits)
  next
    case (GetCollection c)
    with False show ?thesis
      by (fastforce simp: serve_def get_collection_def authenticated_def before_def handler_of_def
          split: sum.splits)
  next
    case (GetBso c i)
    with False show ?thesis
      by (fastforce simp: serve_def get_bso_route_def authenticated_def before_def handler_of_def
          split: sum.splits)
  qed (use False in \<open>fastforce simp: serve_def info_route_def info_configuration_def
      authenticated_def before_def handler_of_def split: sum.splits\<close>)+
  then show thesis by (rule unchanged)
qed

subsection \<open>Handlers that only read\<close>

lemma read_handlers_same:
  "info_collections_handler s db = Inr (r, db') \<Longrightarrow> db' = db"
  "info_collection_counts_handler s db = Inr (r, db') \<Longrightarrow> db' = db"
  "info_collection_usage_handler s db = Inr (r, db') \<Longrightarrow> db' = db"
  "info_quota_handler s db = Inr (r, db') \<Longrightarrow> db' = db"
  "get_collection_handler scan c q full nl s db = Inr (r, db') \<Longrightarrow> db' = db"
  "get_bso_handler c i s db = Inr (r, db') \<Longrightarrow> db' = db"
  by (auto simp: info_collections_handler_def info_collection_counts_handler_def
      info_collection_usage_handler_def info_quota_handler_def get_collection_handler_def
      get_bso_handler_def bindr_eq_Inr Let_def split: sum.splits option.splits)

subsection \<open>What the writing handlers do\<close>

lemma post_collection_handler_Inr:
  assumes "post_collection_handler c batch bsos s db = Inr (r, db')"
  obtains (plain) t where "post_bsos s c (ps_valid bsos) False db = Inr (t, db')"
  | (batched) b where "batch = Some b" "post_batch c b bsos s db = Inr (r, db')"
  using assms
  by (auto simp: post_collection_handler_def bindr_eq_Inr split: option.splits if_splits)

text \<open>
  A batch request: perhaps a new batch, perhaps an append, and with \<open>commit\<close> the commit and
  then the records sent along with it.
\<close>

lemma post_batch_Inr:
  assumes "post_batch c b bsos s db = Inr (r, db')"
  obtains i db1 db2 where
    "create_batch s c db = Inr (i, db1) \<or> validate_batch s c i db = Inr True \<and> db1 = db"
    "append_to_batch s c i (ps_valid bsos) db1 = Inr db2 \<and> ps_valid bsos \<noteq> [] \<and> \<not> br_commit b
       \<or> db2 = db1"
    "if br_commit b
     then \<exists>t db3. commit_batch s c i db2 = Inr (t, db3) \<and>
       (if ps_valid bsos = [] then db' = db3
        else \<exists>t'. post_bsos s c (ps_valid bsos) True db3 = Inr (t', db'))
     else db' = db2"
proof -
  from assms obtain i db1 where
    open_b: "(case br_batch b of
         None \<Rightarrow> from_store (create_batch s c db)
       | Some i \<Rightarrow>
           bindr (from_store (validate_batch s c i db)) (\<lambda>ok.
             if ok then Inr (i, db) else Inl (Web (Http bad_request)))) = Inr (i, db1)"
    by (auto simp: post_batch_def bindr_eq_Inr)
  from assms open_b obtain db2 where
    app: "(if ps_valid bsos \<noteq> [] \<and> \<not> br_commit b
            then from_store (append_to_batch s c i (ps_valid bsos) db1)
            else Inr db1) = Inr db2" and
    rest: "(if \<not> br_commit b then
         Inr (json_response (JObj [(''batch'', JStr i), (''success'', success_json bsos),
                (''failed'', failed_json bsos)]) [] 202, db2)
       else
         bindr (from_store (commit_batch s c i db2)) (\<lambda>(modified, db3).
         bindr (if ps_valid bsos \<noteq> []
                then from_store (post_bsos s c (ps_valid bsos) True db3)
                else Inr (modified, db3)) (\<lambda>(modified', db4).
           Inr (json_response (JObj [(''success'', success_json bsos),
                  (''failed'', failed_json bsos), (''modified'', json_timestamp modified')])
                [last_modified_header modified'] 200, db4)))) = Inr (r, db')"
    unfolding post_batch_def by (auto simp: bindr_eq_Inr)
  show thesis
  proof (rule that)
    show "create_batch s c db = Inr (i, db1) \<or> validate_batch s c i db = Inr True \<and> db1 = db"
      using open_b by (auto simp: bindr_eq_Inr split: option.splits if_splits)
    show "append_to_batch s c i (ps_valid bsos) db1 = Inr db2 \<and> ps_valid bsos \<noteq> [] \<and>
        \<not> br_commit b \<or> db2 = db1"
      using app by (auto split: if_splits)
    show "if br_commit b
      then \<exists>t db3. commit_batch s c i db2 = Inr (t, db3) \<and>
        (if ps_valid bsos = [] then db' = db3
        else \<exists>t'. post_bsos s c (ps_valid bsos) True db3 = Inr (t', db'))
      else db' = db2"
      using rest
      by (fastforce simp: bindr_eq_Inr split: if_splits)
  qed
qed

subsection \<open>What every handler keeps\<close>

definition clear_of :: "sync_store \<Rightarrow> str \<Rightarrow> database \<Rightarrow> bool" where
  "clear_of s c db \<longleftrightarrow>
     (\<forall>cid. collection_id c (insert_or_ignore_collection c db) = Inr cid \<longrightarrow> not_past s cid db)"

lemma insert_or_ignore_idem [simp]:
  "insert_or_ignore_collection c (insert_or_ignore_collection c db) = insert_or_ignore_collection c db"
  by (auto simp: insert_or_ignore_collection_def has_key_iff)

lemma insert_or_ignore_collections:
  "db_collections db' = db_collections db \<Longrightarrow>
     db_collections_seq db' = db_collections_seq db \<Longrightarrow>
     collection_id n (insert_or_ignore_collection c db') =
     collection_id n (insert_or_ignore_collection c db)"
  by (simp add: insert_or_ignore_collection_def collection_id_def)

lemma not_past_cong:
  "db_user_collections db' = db_user_collections db \<Longrightarrow> not_past s cid db' = not_past s cid db"
  by (simp add: not_past_def user_collection_row_def)

lemma guarded_clear:
  assumes "guarded s (Some c) db db1" shows "clear_of s c db1"
proof -
  from assms obtain cid where "db1 = insert_or_ignore_collection c db"
      "collection_id c db1 = Inr cid" "check_write s cid db1 = Inr ()"
    by (auto simp: guarded_def)
  then show ?thesis using check_write_not_past [of s cid db1] by (simp add: clear_of_def)
qed

lemma clear_of_known: "clear_of s c db \<Longrightarrow> collection_id c db = Inr cid \<Longrightarrow> not_past s cid db"
  by (simp add: clear_of_def insert_or_ignore_keeps)

lemma create_batch_shape:
  assumes "create_batch s c db = Inr (i, db')"
  shows "db_user_collections db' = db_user_collections db" "db_bso db' = db_bso db"
    "db_batch_items db' = db_batch_items db"
    "collection_id n (insert_or_ignore_collection c db') =
     collection_id n (insert_or_ignore_collection c db)"
proof -
  from assms obtain cid db1 j where
    g: "get_or_create_collection_id c db = Inr (cid, db1)" and
    a: "allocate_batch MAX_BATCH_CREATE_RETRY s cid (ss_now s) db1 = Inr (j, db')"
    by (auto simp: create_batch_def bindr_eq_Inr)
  note a = allocate_batch_Inr [OF a] and d = get_or_create_Inr(1) [OF g]
  show "db_user_collections db' = db_user_collections db" "db_bso db' = db_bso db"
    "db_batch_items db' = db_batch_items db"
    using a d by simp_all
  have "collection_id n (insert_or_ignore_collection c db') =
      collection_id n (insert_or_ignore_collection c db1)"
    using a by (intro insert_or_ignore_collections) simp_all
  then show "collection_id n (insert_or_ignore_collection c db') =
      collection_id n (insert_or_ignore_collection c db)"
    by (simp add: d)
qed

lemma append_to_batch_shape:
  assumes "append_to_batch s c i bsos db = Inr db'"
  shows "db_user_collections db' = db_user_collections db" "db_bso db' = db_bso db"
    "db_collections db' = db_collections db" "db_collections_seq db' = db_collections_seq db"
    "db_batches db' = db_batches db"
  by (rule append_to_batch_Inr [OF assms], simp)+

lemma commit_batch_stamped:
  assumes "commit_batch s c i db = Inr (t, db')"
  shows "clear_of s c db'"
proof (rule commit_batch_Inr [OF assms])
  fix cid j
  let ?d = "insert_or_ignore_collection c db"
  assume c: "collection_id c ?d = Inr cid" and
    d: "db' = delete_batch_rows s j (?d
       \<lparr>db_bso := commit_all s cid (staged_items s j db) (db_bso db),
        db_user_collections := stamp_upsert s cid (db_user_collections db)\<rparr>)"
  have "collection_id c (insert_or_ignore_collection c db') = collection_id c ?d"
    using insert_or_ignore_collections [of db' ?d c c] d by (simp add: delete_batch_rows_def)
  moreover have "not_past s cid db'"
    using user_collection_row_stamped [of s cid db]
    by (auto simp: not_past_def user_collection_row_def d delete_batch_rows_def split: option.splits)
  ultimately show ?thesis using c by (simp add: clear_of_def)
qed

text \<open>What a handler owes for a request of its route.\<close>

definition kept :: "sync_store \<Rightarrow> database \<Rightarrow> database \<Rightarrow> bool" where
  "kept s db db' \<longleftrightarrow>
     store_frame (ss_uid s) db db' \<and> (wf_db db \<longrightarrow> wf_db db') \<and>
     (wf_db db \<longrightarrow> sync_inv db \<longrightarrow> instant (ss_now s) \<longrightarrow> sync_inv db')"

lemma kept_refl [simp]: "kept s db db"
  by (simp add: kept_def)

lemma kept_trans: "kept s db db' \<Longrightarrow> kept s db' db'' \<Longrightarrow> kept s db db''"
  unfolding kept_def by (blast intro: store_frame_trans)

lemma kept_ignore [simp]: "kept s db (insert_or_ignore_collection c db)"
  by (simp add: kept_def insert_or_ignore_wf)

lemma put_bso_kept:
  "clear_of s c db \<Longrightarrow> c \<noteq> [] \<Longrightarrow> put_bso s c b None True db = Inr (t, db') \<Longrightarrow> kept s db db'"
  unfolding kept_def clear_of_def by (auto intro: put_bso_frame put_bso_wf put_bso_inv)

lemma post_bsos_kept:
  "clear_of s c db \<Longrightarrow> c \<noteq> [] \<Longrightarrow> post_bsos s c bsos stamped db = Inr (t, db') \<Longrightarrow> kept s db db'"
  unfolding kept_def clear_of_def by (auto intro: post_bsos_frame post_bsos_wf post_bsos_inv)

lemma commit_batch_kept:
  "clear_of s c db \<Longrightarrow> c \<noteq> [] \<Longrightarrow> commit_batch s c i db = Inr (t, db') \<Longrightarrow> kept s db db'"
  unfolding kept_def clear_of_def
  by (auto intro: commit_batch_frame commit_batch_wf commit_batch_inv)

lemma create_batch_kept: "create_batch s c db = Inr (i, db') \<Longrightarrow> kept s db db'"
  unfolding kept_def by (auto intro: create_batch_frame create_batch_wf create_batch_inv)

lemma append_to_batch_kept: "append_to_batch s c i bsos db = Inr db' \<Longrightarrow> kept s db db'"
  unfolding kept_def
  by (auto intro: append_to_batch_frame append_to_batch_wf append_to_batch_inv)

lemma delete_bso_kept:
  "clear_of s c db \<Longrightarrow> c \<noteq> [] \<Longrightarrow> delete_bso s c i db = Inr (t, db') \<Longrightarrow> kept s db db'"
  unfolding kept_def
  by (auto intro: delete_bso_frame delete_bso_wf delete_bso_inv dest: clear_of_known)

lemma delete_bsos_kept:
  "clear_of s c db \<Longrightarrow> c \<noteq> [] \<Longrightarrow> ids \<noteq> [] \<Longrightarrow> delete_bsos s c ids db = Inr (t, db') \<Longrightarrow>
     kept s db db'"
  unfolding kept_def
  by (auto intro: delete_bsos_frame delete_bsos_wf delete_bsos_inv dest: clear_of_known)

lemma delete_collection_kept: "delete_collection s c db = Inr (t, db') \<Longrightarrow> kept s db db'"
  unfolding kept_def
  by (auto intro: delete_collection_frame delete_collection_wf delete_collection_inv)

lemma delete_storage_kept: "kept s db (delete_storage s db)"
  unfolding kept_def by (simp add: delete_storage_frame delete_storage_wf delete_storage_inv)

lemma post_batch_kept:
  assumes clear: "clear_of s c db" "c \<noteq> []" and post: "post_batch c b bsos s db = Inr (r, db')"
  shows "kept s db db'"
proof (rule post_batch_Inr [OF post])
  fix i db1 db2
  assume o: "create_batch s c db = Inr (i, db1) \<or> validate_batch s c i db = Inr True \<and> db1 = db"
    and a: "append_to_batch s c i (ps_valid bsos) db1 = Inr db2 \<and> ps_valid bsos \<noteq> [] \<and>
      \<not> br_commit b \<or> db2 = db1"
    and f: "if br_commit b
     then \<exists>t db3. commit_batch s c i db2 = Inr (t, db3) \<and>
       (if ps_valid bsos = [] then db' = db3
        else \<exists>t'. post_bsos s c (ps_valid bsos) True db3 = Inr (t', db'))
     else db' = db2"
  have k1: "kept s db db1" using o by (auto dest: create_batch_kept)
  have k2: "kept s db1 db2" using a by (auto dest: append_to_batch_kept)
  have c1: "clear_of s c db1"
    using o clear(1) create_batch_shape(1,4) [of s c db i db1]
    by (auto simp: clear_of_def not_past_def user_collection_row_def)
  have c2: "clear_of s c db2"
    using a c1 append_to_batch_shape [of s c i "ps_valid bsos" db1 db2]
      insert_or_ignore_collections [of db2 db1 c c] not_past_cong [of db2 db1 s]
    by (auto simp: clear_of_def)
  show ?thesis
  proof (cases "br_commit b")
    case False
    with f k1 k2 show ?thesis by (auto intro: kept_trans)
  next
    case True
    then obtain t db3 where c: "commit_batch s c i db2 = Inr (t, db3)"
      and p: "if ps_valid bsos = [] then db' = db3
        else \<exists>t'. post_bsos s c (ps_valid bsos) True db3 = Inr (t', db')"
      using f by auto
    have k3: "kept s db2 db3" using c2 clear(2) c by (rule commit_batch_kept)
    have "kept s db3 db'"
      using p post_bsos_kept [OF commit_batch_stamped [OF c] clear(2)] by (auto split: if_splits)
    with k1 k2 k3 show ?thesis by (blast intro: kept_trans)
  qed
qed

lemma handler_kept:
  assumes h: "handler_of en rt h collection" and g: "guarded s collection db db1"
    and run: "h s db1 = Inr (r, db2)"
  shows "kept s db db2"
proof -
  have k1: "kept s db db1" using g by (cases collection) (auto simp: guarded_def)
  have clear: "clear_of s c db1" if "collection = Some c" for c
    using g that guarded_clear by simp
  have "kept s db1 db2"
  proof (cases rt)
    case DeleteAll
    with h run show ?thesis
      by (auto simp: handler_of_def delete_all_handler_def delete_storage_kept)
  next
    case (PostCollection c)
    then obtain batch bsos where hh: "h = post_collection_handler c batch bsos"
      and c: "collection = Some c" "c \<noteq> []" using h by (auto simp: handler_of_def)
    show ?thesis
      by (rule post_collection_handler_Inr [OF run [unfolded hh]])
        (use clear [OF c(1)] c(2) in \<open>auto intro: post_bsos_kept post_batch_kept\<close>)
  next
    case (DeleteCollection c)
    then obtain ids where hh: "h = delete_collection_handler c ids"
      and c: "collection = Some c" "c \<noteq> []" using h by (auto simp: handler_of_def)
    show ?thesis
      using run clear [OF c(1)] c(2) unfolding hh delete_collection_handler_def
      by (auto simp: bindr_eq_Inr split: sum.splits store_error.splits if_splits
          intro: delete_bsos_kept delete_collection_kept)
  next
    case (PutBso c i)
    with h run clear show ?thesis
      by (auto simp: handler_of_def put_bso_handler_def bindr_eq_Inr intro: put_bso_kept)
  next
    case (DeleteBso c i)
    with h run clear show ?thesis
      by (auto simp: handler_of_def delete_bso_handler_def bindr_eq_Inr
          split: sum.splits store_error.splits intro: delete_bso_kept)
  qed (use h run read_handlers_same in \<open>fastforce simp: handler_of_def\<close>)+
  with k1 show ?thesis by (rule kept_trans)
qed

subsection \<open>Properties of every request\<close>

definition no_token_env :: env where
  "no_token_env = \<lparr>en_scan = (\<lambda>t. t), en_codec = sample_codec,
     en_auth = (\<lambda>_. Inl (Http sync_unauthorized)), en_now_ms = 1700000000105\<rparr>"

definition bare_request :: http_request where
  "bare_request = \<lparr>rq_uid = 7, rq_params = [], rq_headers = [], rq_body = []\<rparr>"

text \<open>
  C5: Whatever a request asks, the storage of every user but the one its path names (and its
  token proves) is unchanged: stamps, records, open batches and staged items. Nor does the
  storage tier change an account, a token, a device or a Sync user.
\<close>

theorem other_users_untouched:
  "store_frame (rq_uid rq) db (snd (serve en rt rq db))"
proof (rule serve_cases [of en rt rq db])
  assume "snd (serve en rt rq db) = db"
  then show ?thesis by simp
next
  fix s resource collection h
  assume a: "authenticate_request (en_auth en) (en_now_ms en) rq db = Inr s"
    and h: "handler_of en rt h collection"
    and sv: "serve en rt rq db = run (rq_headers rq) s resource collection h db"
  have "store_frame (ss_uid s) db (snd (run (rq_headers rq) s resource collection h db))"
    by (rule run_cases [of "rq_headers rq" s resource collection h db])
      (use handler_kept [OF h] in \<open>auto simp: kept_def\<close>)
  then show ?thesis using authenticate_request_Inr(2) [OF a] sv by simp
qed

lemma serve_kept:
  assumes "authenticate_request (en_auth en) (en_now_ms en) rq db = Inr s"
  shows "kept s db (snd (serve en rt rq db))"
proof (rule serve_cases [of en rt rq db])
  assume "snd (serve en rt rq db) = db"
  then show ?thesis by simp
next
  fix s' resource collection h
  assume "authenticate_request (en_auth en) (en_now_ms en) rq db = Inr s'"
    and h: "handler_of en rt h collection"
    and sv: "serve en rt rq db = run (rq_headers rq) s' resource collection h db"
  with assms have [simp]: "s' = s" by simp
  show ?thesis
    unfolding sv
    by (rule run_cases [of "rq_headers rq" s resource collection h db])
      (use handler_kept [OF h] in auto)
qed

text \<open>
  C6: Every request keeps the schema's constraints and the invariant of delta sync: after
  it, as before it, no record is newer than the stamp of its collection, and every stamp is
  a whole hundredth of a second.
\<close>

theorem requests_keep_invariant:
  assumes "wf_db db" "sync_inv db" "0 \<le> en_now_ms en" "en_now_ms en < 2 ^ 62"
  shows "wf_db (snd (serve en rt rq db)) \<and> sync_inv (snd (serve en rt rq db))"
proof (cases "authenticate_request (en_auth en) (en_now_ms en) rq db")
  case (Inl e)
  have "snd (serve en rt rq db) = db" by (rule serve_cases [of en rt rq db]) (use Inl in auto)
  with assms show ?thesis by simp
next
  case (Inr s)
  have "instant (quantize (en_now_ms en))"
    using assms(3,4) quantize_nonneg [of "en_now_ms en"] quantize_le [of "en_now_ms en"]
    by (simp add: instant_def sql_int_def)
  then have "instant (ss_now s)" using authenticate_request_Inr(2) [OF Inr] by simp
  then show ?thesis using serve_kept [OF Inr, of rt] assms(1,2) by (simp add: kept_def)
qed

definition token_env :: env where
  "token_env = no_token_env\<lparr>en_auth := (\<lambda>_. Inr 7)\<rparr>"

theorem requests_keep_invariant_witness:
  "wf_db (snd (serve token_env DeleteAll bare_request sample_database)) \<and>
   sync_inv (snd (serve token_env DeleteAll bare_request sample_database))"
proof -
  have "0 \<le> en_now_ms token_env" "en_now_ms token_env < 2 ^ 62"
    by (simp_all add: token_env_def no_token_env_def)
  from requests_keep_invariant [OF sample_wf sample_inv this] show ?thesis .
qed

end
