(* ===== verification/SyncStoreProps.thy ===== *)
theory SyncStoreProps
  imports SyncPaging
begin

text \<open>
  The functional properties of \<open>SyncStore\<close>: partial updates, batches that land at one
  instant, deletions that leave no way back, expiry, and batch ids.
\<close>

definition row_of :: "sync_store \<Rightarrow> int \<Rightarrow> str \<Rightarrow> database \<Rightarrow> bso_row option" where
  "row_of s cid i db = lookup_key br_key (ss_uid s, cid, i) (db_bso db)"

lemma insert_or_ignore_row_of [simp]:
  "row_of s cid i (insert_or_ignore_collection c db) = row_of s cid i db"
  by (simp add: row_of_def)

subsection \<open>Partial updates\<close>

text \<open>The two rows a PUT can leave, field by field.\<close>

lemma put_row_fields:
  "put_row s cid b =
     \<lparr>br_uid = ss_uid s, br_collection_id = cid, br_id = pb_id b,
      br_sortindex = pb_sortindex b,
      br_payload = (case pb_payload b of None \<Rightarrow> [] | Some p \<Rightarrow> p),
      br_modified = ss_now s,
      br_expiry = ss_now s + (case pb_ttl b of None \<Rightarrow> 2100000000 | Some ttl \<Rightarrow> ttl) * 1000\<rparr>"
  by (simp add: put_row_def put_expiry_def DEFAULT_BSO_TTL_def split: option.split)

lemma put_change_fields:
  "put_change s b r =
     \<lparr>br_uid = br_uid r, br_collection_id = br_collection_id r, br_id = br_id r,
      br_sortindex = (case pb_sortindex b of None \<Rightarrow> br_sortindex r | Some i \<Rightarrow> Some i),
      br_payload = (case pb_payload b of None \<Rightarrow> br_payload r | Some p \<Rightarrow> p),
      br_modified =
        (if pb_payload b = None \<and> pb_sortindex b = None then br_modified r else ss_now s),
      br_expiry = (case pb_ttl b of None \<Rightarrow> br_expiry r | Some ttl \<Rightarrow> ss_now s + ttl * 1000)\<rparr>"
  by (cases r) (simp add: put_change_def put_expiry_def split: option.split)

lemma put_bso_rows:
  assumes "put_bso s c b None True db = Inr (t, db')"
  shows "\<exists>cid. collection_id c db' = Inr cid \<and> t = ss_now s \<and>
    row_of s cid (pb_id b) db' = Some (case row_of s cid (pb_id b) db of
        None \<Rightarrow> put_row s cid b | Some r \<Rightarrow> put_change s b r) \<and>
    (\<forall>cid' i. (cid', i) \<noteq> (cid, pb_id b) \<longrightarrow> row_of s cid' i db' = row_of s cid' i db) \<and>
    map_option uc_modified (user_collection_row s cid db') = Some (ss_now s)"
proof (rule put_bso_Inr [OF assms])
  fix cid
  let ?d = "insert_or_ignore_collection c db"
  assume c: "collection_id c ?d = Inr cid" and t: "t = ss_now s"
    and d: "db' = ?d\<lparr>db_bso := upsert br_key (put_row s cid b) (put_change s b) (db_bso db),
        db_user_collections := stamp_upsert s cid (db_user_collections db)\<rparr>"
  have "collection_id c db' = Inr cid" using c unfolding d by (simp add: collection_id_def)
  moreover have "row_of s cid (pb_id b) db' = Some (case row_of s cid (pb_id b) db of
        None \<Rightarrow> put_row s cid b | Some r \<Rightarrow> put_change s b r)"
    using put.exec_same [of s cid b "db_bso db"] by (simp add: row_of_def d)
  moreover have "row_of s cid' i db' = row_of s cid' i db" if "(cid', i) \<noteq> (cid, pb_id b)" for cid' i
    using put.exec_other [of "(ss_uid s, cid', i)" s cid b "db_bso db"] that
    by (auto simp: row_of_def d)
  moreover have "map_option uc_modified (user_collection_row s cid db') = Some (ss_now s)"
    using user_collection_row_stamped [of s cid db]
    by (auto simp: user_collection_row_def d split: option.splits)
  ultimately show ?thesis using t by blast
qed

text \<open>
  C7: A PUT writes one record. A new one gets the fields given, an empty payload when none
  is, the request's instant, and the default ttl of 2,100,000,000 seconds when none is given.
  An existing one has each field given replaced and each other kept, and its \<open>modified\<close> moved
  to the request's instant exactly when a payload or a sortindex was given. Every other
  record of every collection is as it was, and the collection's stamp is the request's
  instant.
\<close>

theorem put_bso_partial_update:
  assumes "put_bso s c b None True db = Inr (t, db')"
  shows "\<exists>cid. collection_id c db' = Inr cid \<and> t = ss_now s \<and>
    row_of s cid (pb_id b) db' = Some (case row_of s cid (pb_id b) db of
        None \<Rightarrow>
          \<lparr>br_uid = ss_uid s, br_collection_id = cid, br_id = pb_id b,
           br_sortindex = pb_sortindex b,
           br_payload = (case pb_payload b of None \<Rightarrow> [] | Some p \<Rightarrow> p),
           br_modified = ss_now s,
           br_expiry = ss_now s + (case pb_ttl b of None \<Rightarrow> 2100000000 | Some ttl \<Rightarrow> ttl) * 1000\<rparr>
      | Some r \<Rightarrow>
          \<lparr>br_uid = br_uid r, br_collection_id = br_collection_id r, br_id = br_id r,
           br_sortindex = (case pb_sortindex b of None \<Rightarrow> br_sortindex r | Some i \<Rightarrow> Some i),
           br_payload = (case pb_payload b of None \<Rightarrow> br_payload r | Some p \<Rightarrow> p),
           br_modified =
             (if pb_payload b = None \<and> pb_sortindex b = None then br_modified r else ss_now s),
           br_expiry =
             (case pb_ttl b of None \<Rightarrow> br_expiry r | Some ttl \<Rightarrow> ss_now s + ttl * 1000)\<rparr>) \<and>
    (\<forall>cid' i. (cid', i) \<noteq> (cid, pb_id b) \<longrightarrow> row_of s cid' i db' = row_of s cid' i db) \<and>
    map_option uc_modified (user_collection_row s cid db') = Some (ss_now s)"
  using put_bso_rows [OF assms] unfolding put_row_fields put_change_fields .

definition sample_put :: posted_bso where
  "sample_put = \<lparr>pb_id = ''a'', pb_payload = None, pb_sortindex = Some 5, pb_ttl = None\<rparr>"

lemma sample_put_runs:
  "\<exists>db'. put_bso sample_store ''bookmarks'' sample_put None True sample_database =
     Inr (1700000000100, db')"
  by (simp add: put_bso_def get_or_create_collection_id_def upsert_bso_def update_collection_def
      put_fits_def put_expiry_def sql_int_def sample_store_def sample_put_def sample_defs
      collection_id_def lookup_key_def user_exists_def has_key_iff key_defs put_row_def
      DEFAULT_BSO_TTL_def)

theorem put_bso_partial_update_witness:
  "\<exists>db' r. put_bso sample_store ''bookmarks'' sample_put None True sample_database =
      Inr (1700000000100, db') \<and>
    row_of sample_store 1 ''a'' db' = Some r \<and> br_payload r = ''p'' \<and> br_sortindex r = Some 5 \<and>
    br_modified r = 1700000000100"
proof -
  obtain db' where p: "put_bso sample_store ''bookmarks'' sample_put None True sample_database =
      Inr (1700000000100, db')" using sample_put_runs by blast
  have c: "collection_id ''bookmarks'' (insert_or_ignore_collection ''bookmarks'' sample_database) =
      Inr 1"
    by (rule insert_or_ignore_keeps [OF sample_bookmarks])
  note now = put_bso_partial_update [OF p]
  obtain cid where cid: "collection_id ''bookmarks'' db' = Inr cid"
    and r: "row_of sample_store cid (pb_id sample_put) db' =
      Some (case row_of sample_store cid (pb_id sample_put) sample_database of
        None \<Rightarrow> put_row sample_store cid sample_put | Some r \<Rightarrow> put_change sample_store sample_put r)"
    using now unfolding put_row_fields [symmetric] put_change_fields [symmetric]
    by blast
  have "collection_id ''bookmarks'' db' = Inr 1"
    by (rule put_bso_Inr [OF p]) (use c in \<open>simp add: collection_id_def\<close>)
  then have "cid = 1" using cid by simp
  with r p show ?thesis
    by (simp add: row_of_def sample_defs sample_put_def sample_store_def lookup_key_def key_defs
        put_change_def)
qed

text \<open>
  A POST of records with different ids does for each of them what a PUT does, all at the
  request's one instant; records it does not name are as they were.
\<close>

theorem post_bsos_each_once:
  assumes "post_bsos s c bsos stamped db = Inr (t, db')" and "distinct (map pb_id bsos)"
  shows "\<exists>cid. collection_id c db' = Inr cid \<and> t = ss_now s \<and>
    (\<forall>b \<in> set bsos. row_of s cid (pb_id b) db' = Some (case row_of s cid (pb_id b) db of
        None \<Rightarrow> put_row s cid b | Some r \<Rightarrow> put_change s b r)) \<and>
    (\<forall>cid' i. cid' \<noteq> cid \<or> i \<notin> pb_id ` set bsos \<longrightarrow> row_of s cid' i db' = row_of s cid' i db) \<and>
    map_option uc_modified (user_collection_row s cid db') = Some (ss_now s)"
proof (rule post_bsos_Inr [OF assms(1)])
  fix cid
  let ?d = "insert_or_ignore_collection c db"
  assume c: "collection_id c ?d = Inr cid" and t: "t = ss_now s"
    and d: "db' = ?d\<lparr>db_bso := put_all s cid bsos (db_bso db),
        db_user_collections := stamp_upsert s cid (db_user_collections db)\<rparr>"
  have "distinct (map (br_key \<circ> put_row s cid) bsos)"
    using assms(2) by (simp add: distinct_map comp_def inj_on_def)
  then have "row_of s cid (pb_id b) db' = Some (case row_of s cid (pb_id b) db of
        None \<Rightarrow> put_row s cid b | Some r \<Rightarrow> put_change s b r)" if "b \<in> set bsos" for b
    using put.execs_once [OF that, of s cid "db_bso db"] by (simp add: row_of_def d)
  moreover have "row_of s cid' i db' = row_of s cid' i db"
    if "cid' \<noteq> cid \<or> i \<notin> pb_id ` set bsos" for cid' i
    using put.execs_other [of bsos s cid "(ss_uid s, cid', i)" "db_bso db"] that
    by (auto simp: row_of_def d)
  moreover have "collection_id c db' = Inr cid" using c unfolding d by (simp add: collection_id_def)
  moreover have "map_option uc_modified (user_collection_row s cid db') = Some (ss_now s)"
    using user_collection_row_stamped [of s cid db]
    by (auto simp: user_collection_row_def d split: option.splits)
  ultimately show ?thesis using t by blast
qed

definition sample_post :: "posted_bso list" where
  "sample_post = [sample_put, \<lparr>pb_id = ''d'', pb_payload = Some ''q'', pb_sortindex = None,
     pb_ttl = Some 60\<rparr>]"

lemma sample_post_runs:
  "\<exists>db'. post_bsos sample_store ''bookmarks'' sample_post False sample_database =
     Inr (1700000000100, db')"
proof -
  have "(case post_bsos sample_store ''bookmarks'' sample_post False sample_database of
      Inl _ \<Rightarrow> False | Inr (t, _) \<Rightarrow> t = 1700000000100)" by code_simp
  then show ?thesis by (auto split: sum.splits prod.splits)
qed

theorem post_bsos_each_once_witness:
  "\<exists>db' cid r. post_bsos sample_store ''bookmarks'' sample_post False sample_database =
      Inr (1700000000100, db') \<and> row_of sample_store cid ''d'' db' = Some r"
proof -
  obtain db' where p: "post_bsos sample_store ''bookmarks'' sample_post False sample_database =
      Inr (1700000000100, db')" using sample_post_runs by blast
  have "distinct (map pb_id sample_post)" by (simp add: sample_post_def sample_put_def)
  from post_bsos_each_once [OF p this] obtain cid where
    "\<forall>b \<in> set sample_post. row_of sample_store cid (pb_id b) db' =
      Some (case row_of sample_store cid (pb_id b) sample_database of
        None \<Rightarrow> put_row sample_store cid b | Some r \<Rightarrow> put_change sample_store b r)" by blast
  then have "\<exists>r. row_of sample_store cid ''d'' db' = Some r"
    by (simp add: sample_post_def)
  with p show ?thesis by blast
qed

subsection \<open>Batches\<close>

lemma staged_ids_distinct:
  assumes "wf_db db" shows "distinct (map bi_id (staged_items s i db))"
proof -
  let ?W = "filter (\<lambda>r. bi_uid r = ss_uid s \<and> bi_batch_id r = i) (db_batch_items db)"
  have "distinct (map bi_key ?W)"
    using wf_parts(16) [OF assms] by (simp add: uniq_def distinct_map_filterI)
  moreover have "map bi_key ?W = map (\<lambda>x. (ss_uid s, i, x)) (map bi_id ?W)"
    by (auto simp: bi_key_def)
  ultimately have "distinct (map (\<lambda>x. (ss_uid s, i, x)) (map bi_id ?W))" by simp
  then have "distinct (map bi_id ?W)" using distinct_map by blast
  then show ?thesis
    unfolding staged_items_def distinct_map by simp
qed

lemma set_staged_items:
  "set (staged_items s i db) =
     {r \<in> set (db_batch_items db). bi_uid r = ss_uid s \<and> bi_batch_id r = i}"
  by (auto simp: staged_items_def)

lemma deleted_batch_invalid:
  assumes "ss_uid s' = ss_uid s" "decode_batch_id batch = Inr i"
  shows "validate_batch s' c batch (delete_batch_rows s i db) \<noteq> Inr True"
  using assms
  by (auto simp: validate_batch_def delete_batch_rows_def list_ex_iff split: sum.splits if_splits)

text \<open>The two rows a commit can leave, field by field.\<close>

lemma commit_row_fields:
  "commit_row s cid item =
     \<lparr>br_uid = ss_uid s, br_collection_id = cid, br_id = bi_id item,
      br_sortindex = bi_sortindex item,
      br_payload = (case bi_payload item of None \<Rightarrow> [] | Some p \<Rightarrow> p),
      br_modified = ss_now s,
      br_expiry = (case bi_ttl_offset item of None \<Rightarrow> 2100000000000 | Some ttl \<Rightarrow> ss_now s + ttl * 1000)\<rparr>"
  by (simp add: commit_row_def commit_expiry_def MAX_TTL_def split: option.split)

lemma commit_change_fields:
  "commit_change s item r =
     \<lparr>br_uid = br_uid r, br_collection_id = br_collection_id r, br_id = br_id r,
      br_sortindex = (case bi_sortindex item of None \<Rightarrow> br_sortindex r | Some i \<Rightarrow> Some i),
      br_payload = (case bi_payload item of None \<Rightarrow> br_payload r | Some p \<Rightarrow> p),
      br_modified = ss_now s,
      br_expiry =
        (case bi_ttl_offset item of None \<Rightarrow> br_expiry r | Some ttl \<Rightarrow> ss_now s + ttl * 1000)\<rparr>"
  by (cases r) (simp add: commit_change_def commit_expiry_def split: option.split)

lemma commit_batch_rows:
  assumes "commit_batch s c batch db = Inr (t, db')" and "wf_db db"
    and "decode_batch_id batch = Inr i"
  shows "\<exists>cid. collection_id c db' = Inr cid \<and> t = ss_now s \<and>
    (\<forall>item \<in> set (staged_items s i db).
       row_of s cid (bi_id item) db' = Some (case row_of s cid (bi_id item) db of
         None \<Rightarrow> commit_row s cid item | Some r \<Rightarrow> commit_change s item r)) \<and>
    (\<forall>cid' x. cid' \<noteq> cid \<or> x \<notin> bi_id ` set (staged_items s i db) \<longrightarrow>
       row_of s cid' x db' = row_of s cid' x db) \<and>
    map_option uc_modified (user_collection_row s cid db') = Some (ss_now s) \<and>
    staged_items s i db' = [] \<and> (\<forall>c'. validate_batch s c' batch db' \<noteq> Inr True)"
proof (rule commit_batch_Inr [OF assms(1)])
  fix cid j
  let ?d = "insert_or_ignore_collection c db" and ?items = "staged_items s i db"
  assume c: "collection_id c ?d = Inr cid" and "decode_batch_id batch = Inr j" and t: "t = ss_now s"
    and "db' = delete_batch_rows s j (?d
       \<lparr>db_bso := commit_all s cid (staged_items s j db) (db_bso db),
        db_user_collections := stamp_upsert s cid (db_user_collections db)\<rparr>)"
  with assms(3) have d: "db' = delete_batch_rows s i (?d
       \<lparr>db_bso := commit_all s cid ?items (db_bso db),
        db_user_collections := stamp_upsert s cid (db_user_collections db)\<rparr>)" by simp
  have bso: "db_bso db' = commit_all s cid ?items (db_bso db)"
    and ucs: "db_user_collections db' = stamp_upsert s cid (db_user_collections db)"
    and cols: "db_collections db' = db_collections ?d"
    by (simp_all add: d delete_batch_rows_def)
  have "distinct (map (br_key \<circ> commit_row s cid) ?items)"
    using staged_ids_distinct [OF assms(2)] by (simp add: distinct_map comp_def inj_on_def)
  then have "row_of s cid (bi_id item) db' = Some (case row_of s cid (bi_id item) db of
         None \<Rightarrow> commit_row s cid item | Some r \<Rightarrow> commit_change s item r)"
    if "item \<in> set ?items" for item
    using commit.execs_once [OF that, of s cid "db_bso db"] by (simp add: row_of_def bso)
  moreover have "row_of s cid' x db' = row_of s cid' x db"
    if "cid' \<noteq> cid \<or> x \<notin> bi_id ` set ?items" for cid' x
    using commit.execs_other [of ?items s cid "(ss_uid s, cid', x)" "db_bso db"] that
    by (auto simp: row_of_def bso)
  moreover have "map_option uc_modified (user_collection_row s cid db') = Some (ss_now s)"
    using user_collection_row_stamped [of s cid db]
    by (auto simp: user_collection_row_def ucs split: option.splits)
  moreover have "staged_items s i db' = []"
    by (simp add: staged_items_def d delete_batch_rows_def delete_where_def filter_empty_conv)
  moreover have "\<forall>c'. validate_batch s c' batch db' \<noteq> Inr True"
    using deleted_batch_invalid [OF refl assms(3)] d by simp
  moreover have "collection_id c db' = Inr cid" using c cols by (simp add: collection_id_def)
  ultimately show ?thesis using t by blast
qed

text \<open>
  C8: A commit lands every staged record in the collection, all at the commit's instant. A
  new one gets the fields staged, an empty payload when none is, and without a ttl the
  fixed expiry of 2,100,000,000 seconds after the epoch; an existing one has each field staged replaced
  and each other kept. Records outside the batch are as they were, and the batch is gone:
  nothing of it is left staged, and its id is no longer accepted. The database is one of the
  schema, where an item's id is staged once in a batch.
\<close>

theorem commit_lands_whole_batch:
  assumes "commit_batch s c batch db = Inr (t, db')" and "wf_db db"
    and "decode_batch_id batch = Inr i"
  shows "\<exists>cid. collection_id c db' = Inr cid \<and> t = ss_now s \<and>
    (\<forall>item \<in> set (staged_items s i db).
       row_of s cid (bi_id item) db' = Some (case row_of s cid (bi_id item) db of
         None \<Rightarrow>
           \<lparr>br_uid = ss_uid s, br_collection_id = cid, br_id = bi_id item,
            br_sortindex = bi_sortindex item,
            br_payload = (case bi_payload item of None \<Rightarrow> [] | Some p \<Rightarrow> p),
            br_modified = ss_now s,
            br_expiry = (case bi_ttl_offset item of None \<Rightarrow> 2100000000000 | Some ttl \<Rightarrow> ss_now s + ttl * 1000)\<rparr>
       | Some r \<Rightarrow>
           \<lparr>br_uid = br_uid r, br_collection_id = br_collection_id r, br_id = br_id r,
            br_sortindex = (case bi_sortindex item of None \<Rightarrow> br_sortindex r | Some i \<Rightarrow> Some i),
            br_payload = (case bi_payload item of None \<Rightarrow> br_payload r | Some p \<Rightarrow> p),
            br_modified = ss_now s,
            br_expiry =
              (case bi_ttl_offset item of None \<Rightarrow> br_expiry r | Some ttl \<Rightarrow> ss_now s + ttl * 1000)\<rparr>)) \<and>
    (\<forall>cid' x. cid' \<noteq> cid \<or> x \<notin> bi_id ` set (staged_items s i db) \<longrightarrow>
       row_of s cid' x db' = row_of s cid' x db) \<and>
    map_option uc_modified (user_collection_row s cid db') = Some (ss_now s) \<and>
    staged_items s i db' = [] \<and> (\<forall>c'. validate_batch s c' batch db' \<noteq> Inr True)"
  using commit_batch_rows [OF assms] unfolding commit_row_fields commit_change_fields .

text \<open>
  C9: A wipe of the whole storage leaves nothing of the user's and no way back: no record,
  a storage timestamp of zero, and no open batch. An id opened before the wipe is not
  accepted after it, so its commit cannot bring the records back.
\<close>

theorem wipe_leaves_no_way_back:
  assumes "ss_uid s' = ss_uid s"
  shows "(\<forall>cid i. row_of s' cid i (delete_storage s db) = None) \<and>
    storage_timestamp s' (delete_storage s db) = 0 \<and>
    (\<forall>c batch. validate_batch s' c batch (delete_storage s db) \<noteq> Inr True) \<and>
    (\<forall>c batch bsos db'. append_to_batch s' c batch bsos (delete_storage s db) \<noteq> Inr db') \<and>
    (\<forall>i. staged_items s' i (delete_storage s db) = [])"
proof -
  have v: "validate_batch s' c batch (delete_storage s db) \<noteq> Inr True" for c batch
    using assms
    by (auto simp: validate_batch_def delete_storage_def bindr_eq_Inr list_ex_iff
        split: sum.splits if_splits)
  then have "append_to_batch s' c batch bsos (delete_storage s db) \<noteq> Inr db'" for c batch bsos db'
    using append_to_batch_Inr by metis
  moreover have "row_of s' cid i (delete_storage s db) = None" for cid i
    using assms by (auto simp: row_of_def lookup_key_None delete_storage_def br_key_def)
  moreover have "storage_timestamp s' (delete_storage s db) = 0"
    using assms
    by (simp add: storage_timestamp_def delete_storage_def delete_where_def conj_commute filter_none)
  moreover have "staged_items s' i (delete_storage s db) = []" for i
    using assms
    by (auto simp: staged_items_def delete_storage_def delete_where_def filter_empty_conv)
  ultimately show ?thesis using v by blast
qed

theorem wipe_leaves_no_way_back_witness:
  "row_of sample_store 1 ''a'' (delete_storage sample_store sample_database) = None \<and>
   row_of sample_store 1 ''a'' sample_database \<noteq> None"
  using wipe_leaves_no_way_back [of sample_store sample_store sample_database]
  by (simp add: row_of_def sample_defs sample_store_def lookup_key_def key_defs)

subsection \<open>Batch ids\<close>

lemma isascii_digits: "(\<And>c. c \<in> set t \<Longrightarrow> is_digit c) \<Longrightarrow> isascii t"
  by (force simp: isascii_def list_all_iff is_ascii_def is_digit_def)

text \<open>
  A batch id the server hands out reads back as the id it stands for, and so does the
  bare decimal of the servers before it: no decimal text is mistaken for base64.
\<close>

theorem batch_id_roundtrip:
  assumes "0 \<le> n" and "n < 2 ^ 63"
  shows "decode_batch_id (encode_batch_id n) = Inr n \<and> decode_batch_id (show_int n) = Inr n"
proof
  let ?t = "show_int n"
  have dig: "\<And>c. c \<in> set ?t \<Longrightarrow> is_digit c" using show_int_digits [OF assms(1)] .
  then have asc: "isascii ?t" by (rule isascii_digits)
  have ne: "?t \<noteq> []" using assms(1) by (simp add: show_int_def)
  have "b64decode_strict (encode_batch_id n) = Some (map ord ?t)"
    unfolding encode_batch_id_def by (rule b64decode_encode [OF bytes_ok_ord [OF asc]])
  then show "decode_batch_id (encode_batch_id n) = Inr n"
    by (simp add: decode_batch_id_def decode_encode_ascii [OF asc] py_int_show_int [OF assms])
  have "(case b64decode_strict ?t of None \<Rightarrow> ?t
      | Some bs \<Rightarrow> (case decode_ascii bs of None \<Rightarrow> ?t | Some u \<Rightarrow> u)) = ?t"
  proof (cases "b64decode_strict ?t")
    case (Some bs)
    obtain c u where "?t = c # u" using ne by (cases ?t) auto
    then have "decode_ascii bs = None"
      using b64decode_digits_not_ascii [of c u bs] Some dig [of c] by simp
    with Some show ?thesis by simp
  qed simp
  then show "decode_batch_id ?t = Inr n"
    by (simp add: decode_batch_id_def py_int_show_int [OF assms])
qed

theorem batch_id_roundtrip_witness:
  "decode_batch_id (encode_batch_id 1700000000500) = Inr 1700000000500"
  using batch_id_roundtrip [of 1700000000500] by simp

lemma sample_batch_id: "decode_batch_id (show_int 1700000000500) = Inr 1700000000500"
proof -
  have "(0::int) \<le> 1700000000500" "(1700000000500::int) < 2 ^ 63" by simp_all
  have dig: "\<And>c. c \<in> set (show_int 1700000000500) \<Longrightarrow> is_digit c"
    by (rule show_int_digits) simp_all
  have "show_int 1700000000500 \<noteq> []" by (simp add: show_int_def)
  then obtain c u where t: "show_int 1700000000500 = c # u" by (cases "show_int 1700000000500") auto
  have "decode_ascii bs = None" if "b64decode_strict (c # u) = Some bs" for bs
    using b64decode_digits_not_ascii [OF _ that] dig [of c] t by simp
  then show ?thesis
    using py_int_show_int [of 1700000000500] t
    by (auto simp: decode_batch_id_def Let_def split: option.splits)
qed

text \<open>A database whose open batch holds one staged record, an update of record \<open>a\<close>.\<close>

definition staged_database :: database where
  "staged_database = sample_database
     \<lparr>db_batch_items := [\<lparr>bi_uid = 7, bi_batch_id = 1700000000500, bi_id = ''a'',
        bi_sortindex = None, bi_payload = Some ''new'', bi_ttl_offset = None\<rparr>]\<rparr>"

lemma staged_wf: "wf_db staged_database"
  by (simp add: staged_database_def sample_defs wf_defs uniq_def refs_def key_defs)

definition late_store :: sync_store where
  "late_store = \<lparr>ss_uid = 7, ss_now = 1700000000900\<rparr>"

lemma staged_commit_runs:
  "\<exists>db'. commit_batch late_store ''bookmarks'' (show_int 1700000000500) staged_database =
     Inr (1700000000900, db')"
  by (simp add: commit_batch_def sample_batch_id delete_batch_def sql_int_def staged_items_def
      get_or_create_collection_id_def collection_id_def commit_item_def commit_expiry_def
      MAX_TTL_def update_collection_def user_exists_def has_key_iff key_defs lookup_key_def
      staged_database_def sample_defs late_store_def)

theorem commit_lands_whole_batch_witness:
  "\<exists>db' cid r. commit_batch late_store ''bookmarks'' (show_int 1700000000500) staged_database =
      Inr (1700000000900, db') \<and> row_of late_store cid ''a'' db' = Some r"
proof -
  obtain db' where c: "commit_batch late_store ''bookmarks'' (show_int 1700000000500)
      staged_database = Inr (1700000000900, db')" using staged_commit_runs by blast
  note landed = commit_lands_whole_batch [OF c staged_wf sample_batch_id,
      folded commit_row_fields commit_change_fields]
  then obtain cid where
    "\<forall>item \<in> set (staged_items late_store 1700000000500 staged_database).
       row_of late_store cid (bi_id item) db' =
         Some (case row_of late_store cid (bi_id item) staged_database of
           None \<Rightarrow> commit_row late_store cid item | Some r \<Rightarrow> commit_change late_store item r)"
    by blast
  moreover have "\<lparr>bi_uid = 7, bi_batch_id = 1700000000500, bi_id = ''a'', bi_sortindex = None,
      bi_payload = Some ''new'', bi_ttl_offset = None\<rparr>
      \<in> set (staged_items late_store 1700000000500 staged_database)"
    by (simp add: staged_items_def staged_database_def late_store_def)
  ultimately have "\<exists>r. row_of late_store cid ''a'' db' = Some r" by fastforce
  with c show ?thesis by blast
qed

subsection \<open>Expiry\<close>

text \<open>
  A read never shows a record that has expired. And an update without a ttl does not
  bring one back: it lands in the expired row, answers success and moves the collection's
  stamp, but the record stays invisible to every later read.
\<close>

theorem expired_stays_invisible:
  assumes "put_bso s c b None True db = Inr (t, db')"
    and "collection_id c db = Inr cid" and "row_of s cid (pb_id b) db = Some r"
    and "br_expiry r \<le> ss_now s" and "pb_ttl b = None"
    and "ss_uid s' = ss_uid s" and "ss_now s \<le> ss_now s'" and "wf_db db"
  shows "t = ss_now s \<and> get_bso s' c (pb_id b) db' = Inr None"
proof (rule put_bso_Inr [OF assms(1)])
  fix cid'
  let ?d = "insert_or_ignore_collection c db"
  assume c': "collection_id c ?d = Inr cid'" and t: "t = ss_now s"
    and d: "db' = ?d\<lparr>db_bso := upsert br_key (put_row s cid' b) (put_change s b) (db_bso db),
        db_user_collections := stamp_upsert s cid' (db_user_collections db)\<rparr>"
  have [simp]: "cid' = cid" using c' insert_or_ignore_keeps [OF assms(2)] by simp
  have c: "collection_id c db' = Inr cid" using c' unfolding d by (simp add: collection_id_def)
  let ?P = "\<lambda>r. br_key r = (ss_uid s', cid, pb_id b) \<and> ss_now s' < br_expiry r"
  have has: "has_key br_key (br_key (put_row s cid b)) (db_bso db)"
    using assms(3) by (simp add: has_key_lookup row_of_def)
  have "\<not> ?P x" if x: "x \<in> set (db_bso db')" for x
  proof
    assume P: "?P x"
    then have k: "br_key x = br_key (put_row s cid b)" using assms(6) by simp
    then obtain y where y: "y \<in> set (db_bso db)" "br_key y = br_key x" "x = put_change s b y"
      using x has by (auto simp: d upsert_def set_update_where)
    have "lookup_key br_key (br_key y) (db_bso db) = Some y"
      using lookup_key_in [OF wf_parts(14) [OF assms(8)] y(1)] .
    then have "y = r" using y(2) k assms(3) by (simp add: row_of_def)
    then have "br_expiry x = br_expiry r" using y(3) assms(5) by (simp add: put_change_def)
    then show False using P assms(4,7) by simp
  qed
  then have "find ?P (db_bso db') = None" by (auto simp: find_None_iff)
  with c t show ?thesis by (simp add: get_bso_def)
qed

text \<open>The sample database long after its records have expired.\<close>

definition ancient_store :: sync_store where
  "ancient_store = \<lparr>ss_uid = 7, ss_now = 3900000000000\<rparr>"

lemma ancient_put_runs:
  "\<exists>db'. put_bso ancient_store ''bookmarks'' sample_put None True sample_database =
     Inr (3900000000000, db')"
proof -
  have "(case put_bso ancient_store ''bookmarks'' sample_put None True sample_database of
      Inl _ \<Rightarrow> False | Inr (t, _) \<Rightarrow> t = 3900000000000)" by code_simp
  then show ?thesis by (auto split: sum.splits prod.splits)
qed

theorem expired_stays_invisible_witness:
  "\<exists>db'. put_bso ancient_store ''bookmarks'' sample_put None True sample_database =
      Inr (3900000000000, db') \<and> get_bso ancient_store ''bookmarks'' ''a'' db' = Inr None"
proof -
  obtain db' where p: "put_bso ancient_store ''bookmarks'' sample_put None True sample_database =
      Inr (3900000000000, db')" using ancient_put_runs by blast
  have r: "row_of ancient_store 1 (pb_id sample_put) sample_database =
      Some (sample_row ''a'' 1700000000010)"
    by (simp add: row_of_def lookup_key_def sample_defs key_defs ancient_store_def sample_put_def)
  from expired_stays_invisible [OF p sample_bookmarks r _ _ refl order_refl sample_wf] p
  show ?thesis by (simp add: sample_row_def ancient_store_def sample_put_def)
qed

subsection \<open>The storage timestamp\<close>

definition own_stamps :: "sync_store \<Rightarrow> database \<Rightarrow> int list" where
  "own_stamps s db =
     map uc_modified (filter (\<lambda>r. uc_uid r = ss_uid s) (db_user_collections db))"

lemma storage_timestamp_Max:
  "storage_timestamp s db = (if own_stamps s db = [] then 0 else Max (set (own_stamps s db)))"
  unfolding storage_timestamp_def own_stamps_def [symmetric]
  by (cases "own_stamps s db") (simp_all del: list.set add: Max.set_eq_fold)

lemma storage_timestamp_ge: "t \<in> set (own_stamps s db) \<Longrightarrow> t \<le> storage_timestamp s db"
  by (auto simp: storage_timestamp_Max)

lemma storage_timestamp_le:
  "(\<And>t. t \<in> set (own_stamps s db) \<Longrightarrow> t \<le> m) \<Longrightarrow> own_stamps s db \<noteq> [] \<Longrightarrow> storage_timestamp s db \<le> m"
  by (simp add: storage_timestamp_Max)

text \<open>
  Deleting a collection removes its records and its stamp and answers the storage
  timestamp. As long as no stamp of the user's is ahead of the clock, that is the request's
  own instant, and so no earlier than the storage timestamp before.
\<close>

theorem delete_collection_moves_storage:
  assumes "delete_collection s c db = Inr (t, db')" and "wf_db db" and "c \<noteq> []"
    and "\<forall>u \<in> set (own_stamps s db). u \<le> ss_now s" and "0 \<le> ss_now s"
  shows "t = ss_now s \<and> storage_timestamp s db \<le> t \<and> t = storage_timestamp s db' \<and>
    collection_timestamp s c db' = Inl CollectionNotFound \<and>
    (\<forall>i cid. collection_id c db = Inr cid \<longrightarrow> row_of s cid i db' = None)"
proof (rule delete_collection_Inr [OF assms(1)])
  fix cid
  let ?ucs = "delete_where (\<lambda>r. uc_uid r = ss_uid s \<and> uc_collection_id r = cid)
            (db_user_collections db)"
  assume c: "collection_id c db = Inr cid" and t: "t = storage_timestamp s db'"
    and d: "db' = db\<lparr>db_bso := delete_where
        (\<lambda>r. br_uid r = ss_uid s \<and> br_collection_id r = cid) (db_bso db),
      db_user_collections := stamp_upsert s TOMBSTONE ?ucs\<rparr>"
  have ucs: "db_user_collections db' = stamp_upsert s TOMBSTONE ?ucs" by (simp add: d)
  obtain u where u: "u \<in> set (db_user_collections db')" "uc_key u = (ss_uid s, TOMBSTONE)"
      "uc_modified u = ss_now s"
    using stamp_upsert_here [of s TOMBSTONE ?ucs] unfolding ucs by blast
  then have now: "ss_now s \<in> set (own_stamps s db')"
    unfolding own_stamps_def uc_key_def by (auto intro!: image_eqI [of _ _ u])
  have "x \<le> ss_now s" if "x \<in> set (own_stamps s db')" for x
  proof -
    from that obtain v where v: "v \<in> set (stamp_upsert s TOMBSTONE ?ucs)" "uc_uid v = ss_uid s"
        "x = uc_modified v"
      by (auto simp: own_stamps_def ucs)
    from stamp_upsert_cases [OF v(1)] show ?thesis
      using assms(4) v(2,3) by (auto simp: own_stamps_def)
  qed
  moreover have "own_stamps s db' \<noteq> []" using now by auto
  ultimately have "storage_timestamp s db' \<le> ss_now s" by (rule storage_timestamp_le)
  then have eq: "t = ss_now s" using t storage_timestamp_ge [OF now] by simp
  have "storage_timestamp s db \<le> ss_now s"
    using assms(4,5) storage_timestamp_le [of s db "ss_now s"] by (auto simp: storage_timestamp_Max)
  moreover have "user_collection_row s cid db' = None"
  proof -
    have "cid \<noteq> TOMBSTONE" by (rule collection_id_not_tombstone [OF assms(2) c assms(3)])
    then have "lookup_key uc_key (ss_uid s, cid) (stamp_upsert s TOMBSTONE ?ucs) =
        lookup_key uc_key (ss_uid s, cid) ?ucs"
      by (intro stamp.exec_other) simp
    also have "\<dots> = None" by (auto simp: lookup_key_None uc_key_def)
    finally show ?thesis by (simp add: user_collection_row_def ucs)
  qed
  moreover have "collection_id c db' = Inr cid" using c by (simp add: d collection_id_def)
  moreover have "row_of s cid i db' = None" for i
    by (auto simp: row_of_def d lookup_key_None br_key_def)
  ultimately show ?thesis using eq t c by (simp add: collection_timestamp_def)
qed

lemma sample_delete_runs:
  "\<exists>db'. delete_collection sample_store ''bookmarks'' sample_database = Inr (1700000000100, db')"
proof -
  have "(case delete_collection sample_store ''bookmarks'' sample_database of
      Inl _ \<Rightarrow> False | Inr (t, _) \<Rightarrow> t = 1700000000100)" by code_simp
  then show ?thesis by (auto split: sum.splits prod.splits)
qed

theorem delete_collection_moves_storage_witness:
  "\<exists>db'. delete_collection sample_store ''bookmarks'' sample_database = Inr (1700000000100, db') \<and>
     storage_timestamp sample_store db' = 1700000000100"
proof -
  obtain db' where d: "delete_collection sample_store ''bookmarks'' sample_database =
      Inr (1700000000100, db')" using sample_delete_runs by blast
  from delete_collection_moves_storage [OF d sample_wf] d show ?thesis
    by (simp add: own_stamps_def sample_store_def sample_defs)
qed

definition two_collections :: database where
  "two_collections = sample_database
     \<lparr>db_collections := [(0, []), (1, ''bookmarks''), (2, ''history'')], db_collections_seq := 2,
      db_user_collections :=
        [\<lparr>uc_uid = 7, uc_collection_id = 1, uc_modified = 1700000000020\<rparr>,
         \<lparr>uc_uid = 7, uc_collection_id = 0, uc_modified = 1700000000300\<rparr>]\<rparr>"

text \<open>
  The condition on the clock matters. The guard of a write looks at one collection's
  stamp, and a deletion records itself under the tombstone, which nothing guards: when an
  earlier deletion was stamped by a request with a later clock, a deletion that passes its
  own guard moves the storage timestamp backwards.
\<close>

theorem storage_timestamp_can_move_back:
  "wf_db two_collections \<and> sync_inv two_collections \<and>
   (\<exists>db'. delete_collection sample_store ''bookmarks'' two_collections = Inr (1700000000100, db') \<and>
     storage_timestamp sample_store db' < storage_timestamp sample_store two_collections)"
proof (intro conjI)
  show "wf_db two_collections"
    by (simp add: two_collections_def sample_defs wf_defs uniq_def refs_def key_defs)
  show "sync_inv two_collections"
    by (simp add: two_collections_def sample_defs sync_inv_def row_stamped_def instant_def
        sql_int_def key_defs TOMBSTONE_def)
  have "(case delete_collection sample_store ''bookmarks'' two_collections of
      Inl _ \<Rightarrow> False
    | Inr (t, db') \<Rightarrow> t = 1700000000100 \<and>
        storage_timestamp sample_store db' < storage_timestamp sample_store two_collections)"
    by code_simp
  then show "\<exists>db'. delete_collection sample_store ''bookmarks'' two_collections =
      Inr (1700000000100, db') \<and>
     storage_timestamp sample_store db' < storage_timestamp sample_store two_collections"
    by (auto split: sum.splits prod.splits)
qed

end
