(* ===== verification/SyncDelta.thy ===== *)
theory SyncDelta
  imports SyncHttpFacts SyncStoreProps
begin

text \<open>
  What a client that syncs by asking for what is newer can rely on: a write that cannot move
  its collection's stamp forward is refused, every change carries an instant later than the
  stamp before it, staged records are invisible until their commit, and the preconditions
  protect a client from overwriting what it has not seen.
\<close>

subsection \<open>Writes\<close>

definition written_collection :: "route \<Rightarrow> str option" where
  "written_collection rt =
     (case rt of
        PostCollection c \<Rightarrow> Some c
      | DeleteCollection c \<Rightarrow> Some c
      | PutBso c i \<Rightarrow> Some c
      | DeleteBso c i \<Rightarrow> Some c
      | _ \<Rightarrow> None)"

text \<open>
  What the checks before the transaction of a write come to: an error that is the same
  whatever is stored, or the same guarded run whatever is stored. They look only at the
  request and at the Sync users \<open>us\<close>.
\<close>

definition decided :: "env \<Rightarrow> http_request \<Rightarrow> str \<Rightarrow> sync_user list \<Rightarrow> (database \<Rightarrow> served) \<Rightarrow> bool" where
  "decided en rq c us f \<longleftrightarrow>
     (\<exists>e. \<forall>db. db_sync_users db = us \<longrightarrow> f db = (Inl e, db)) \<or>
     (\<exists>resource h. \<forall>db. db_sync_users db = us \<longrightarrow>
        f db = run (rq_headers rq) \<lparr>ss_uid = rq_uid rq, ss_now = quantize (en_now_ms en)\<rparr> resource
          (Some c) h db)"

lemma decided_before:
  "(\<And>a. r = Inr a \<Longrightarrow> decided en rq c us (f a)) \<Longrightarrow> decided en rq c us (\<lambda>db. before r db (\<lambda>a. f a db))"
  by (cases r) (auto simp: decided_def)

lemma decided_authenticated:
  assumes "decided en rq c us (f \<lparr>ss_uid = rq_uid rq, ss_now = quantize (en_now_ms en)\<rparr>)"
  shows "decided en rq c us (\<lambda>db. authenticated en rq db (\<lambda>s. f s db))"
proof -
  define r where "r = authenticate_request (en_auth en) (en_now_ms en) rq
    (sample_database\<lparr>db_sync_users := us\<rparr>)"
  have r: "authenticate_request (en_auth en) (en_now_ms en) rq db = r"
    if "db_sync_users db = us" for db :: database
    using that by (simp add: r_def authenticate_request_def get_sync_user_def)
  show ?thesis
  proof (cases r)
    case (Inl e)
    with r show ?thesis by (auto simp: decided_def authenticated_def)
  next
    case (Inr s)
    have "s = \<lparr>ss_uid = rq_uid rq, ss_now = quantize (en_now_ms en)\<rparr>"
      if "db_sync_users db = us" for db :: database
      using authenticate_request_Inr(2) [of _ _ rq db s] r [OF that] Inr by simp
    with assms r Inr show ?thesis by (auto simp: decided_def authenticated_def)
  qed
qed

lemma decided_run:
  "decided en rq c us
     (run (rq_headers rq) \<lparr>ss_uid = rq_uid rq, ss_now = quantize (en_now_ms en)\<rparr> resource (Some c) h)"
  by (auto simp: decided_def)

lemma writes_decided:
  assumes "written_collection rt = Some c"
  shows "decided en rq c us (serve en rt rq)"
proof (cases rt)
  case (PostCollection d)
  with assms have "serve en rt rq = post_collection en c rq"
    by (simp add: serve_def fun_eq_iff written_collection_def)
  then show ?thesis
    by (simp only: post_collection_def [abs_def])
      (intro decided_before decided_authenticated decided_run)
next
  case (DeleteCollection d)
  with assms have "serve en rt rq = delete_collection_route en c rq"
    by (simp add: serve_def fun_eq_iff written_collection_def)
  then show ?thesis
    by (simp only: delete_collection_route_def [abs_def])
      (intro decided_before decided_authenticated decided_run)
next
  case (PutBso d i)
  with assms have "serve en rt rq = put_bso_route en c i rq"
    by (simp add: serve_def fun_eq_iff written_collection_def)
  then show ?thesis
    by (simp only: put_bso_route_def [abs_def])
      (intro decided_before decided_authenticated decided_run)
next
  case (DeleteBso d i)
  with assms have "serve en rt rq = delete_bso_route en c i rq"
    by (simp add: serve_def fun_eq_iff written_collection_def)
  then show ?thesis
    by (simp only: delete_bso_route_def [abs_def])
      (intro decided_before decided_authenticated decided_run)
qed (use assms in \<open>simp_all add: written_collection_def\<close>)

lemma precondition_error: "precondition headers t = Inl e \<Longrightarrow> precondition headers t' = Inl e"
  by (auto simp: precondition_def Let_def bindr_def split: option.splits sum.splits)

lemma precondition_answer:
  assumes "precondition headers t = Inr (Some r)"
  shows "rs_status r = 304 \<and> header_get headers ''x-if-modified-since'' \<noteq> None \<or>
    rs_status r = 412 \<and> header_get headers ''x-if-unmodified-since'' \<noteq> None"
  using assms
  by (auto simp: precondition_def Let_def bindr_eq_Inr split: option.splits if_splits)

lemma run_stale:
  assumes "collection_id c db = Inr cid" and "user_collection_row s cid db = Some u"
    and "ss_now s \<le> uc_modified u"
  shows "run headers s resource (Some c) h db =
    (case precondition headers (resource s db) of
       Inl e \<Rightarrow> Inl e
     | Inr None \<Rightarrow> Inl (Http conflict)
     | Inr (Some r) \<Rightarrow> Inr (weave_timestamp r (ss_now s)), db)"
proof -
  have "get_or_create_collection_id c db = Inr (cid, db)"
    using assms(1) by (simp add: get_or_create_collection_id_def)
  moreover have "check_write s cid db = Inl ConflictError"
    using assms(2,3) by (simp add: check_write_def)
  ultimately show ?thesis
    by (simp add: run_def run_body_def split: sum.split option.split)
qed

text \<open>
  C10: No write route changes a collection already stamped at the request's instant or
  later, whatever it asks for. The database is unchanged and the answer is one of three: the
  503 of a conflict; an error that has nothing to do with what is stored (no good token, a
  malformed header or body), which the request gets on every database with the same Sync
  users; or, for a request that sent \<open>X-If-Modified-Since\<close> or \<open>X-If-Unmodified-Since\<close>, the 304
  or 412 its precondition answers before the conflict is looked for. So a write without those
  headers that any other state of the storage would have taken is answered 503 in this one.
\<close>

theorem stale_write_conflicts:
  assumes "written_collection rt = Some c" and "collection_id c db = Inr cid"
    and "lookup_key uc_key (rq_uid rq, cid) (db_user_collections db) = Some u"
    and "quantize (en_now_ms en) \<le> uc_modified u"
  shows "snd (serve en rt rq db) = db \<and>
    (fst (serve en rt rq db) = Inl (Http conflict) \<or>
     (\<exists>e. fst (serve en rt rq db) = Inl e \<and>
        (\<forall>db1. db_sync_users db1 = db_sync_users db \<longrightarrow> fst (serve en rt rq db1) = Inl e)) \<or>
     (\<exists>r. fst (serve en rt rq db) = Inr r \<and>
        (rs_status r = 304 \<and> header_get (rq_headers rq) ''x-if-modified-since'' \<noteq> None \<or>
         rs_status r = 412 \<and> header_get (rq_headers rq) ''x-if-unmodified-since'' \<noteq> None)))"
proof -
  let ?s = "\<lparr>ss_uid = rq_uid rq, ss_now = quantize (en_now_ms en)\<rparr>"
  have u: "user_collection_row ?s cid db = Some u"
    using assms(3) by (simp add: user_collection_row_def)
  consider (early) e where "\<And>db1. db_sync_users db1 = db_sync_users db \<Longrightarrow> serve en rt rq db1 = (Inl e, db1)"
    | (ran) resource h where "\<And>db1. db_sync_users db1 = db_sync_users db \<Longrightarrow>
        serve en rt rq db1 = run (rq_headers rq) ?s resource (Some c) h db1"
    using writes_decided [OF assms(1), of en rq "db_sync_users db"] unfolding decided_def by blast
  then show ?thesis
  proof cases
    case early
    then show ?thesis by simp
  next
    case ran
    note here = ran [OF refl] run_stale [OF assms(2) u, of "rq_headers rq" resource h]
    show ?thesis
    proof (cases "precondition (rq_headers rq) (resource ?s db)")
      case (Inl e)
      have "fst (serve en rt rq db1) = Inl e" if "db_sync_users db1 = db_sync_users db" for db1
        using ran [OF that] precondition_error [OF Inl] by (simp add: run_def run_body_def)
      then show ?thesis using here Inl assms(4) by simp
    next
      case (Inr answer)
      then show ?thesis
        using here assms(4) precondition_answer [of "rq_headers rq" "resource ?s db"]
        by (cases answer) (auto simp: weave_timestamp_def Let_def)
    qed
  qed
qed

text \<open>A clock that has not moved past the stamp of the sample collection.\<close>

definition late_env :: env where
  "late_env = \<lparr>en_scan = (\<lambda>t. t), en_codec = sample_codec, en_auth = (\<lambda>_. Inr 7),
     en_now_ms = 1700000000020\<rparr>"

theorem stale_write_conflicts_witness:
  "serve late_env (DeleteBso ''bookmarks'' ''a'') bare_request sample_database =
     (Inl (Http conflict), sample_database)"
proof -
  have k: "lookup_key uc_key (rq_uid bare_request, 1) (db_user_collections sample_database) =
      Some \<lparr>uc_uid = 7, uc_collection_id = 1, uc_modified = 1700000000020\<rparr>"
    by (simp add: lookup_key_def sample_defs key_defs bare_request_def)
  have "snd (serve late_env (DeleteBso ''bookmarks'' ''a'') bare_request sample_database) =
      sample_database"
    using stale_write_conflicts [of "DeleteBso ''bookmarks'' ''a''", OF _ sample_bookmarks k,
        of late_env] by (simp add: written_collection_def late_env_def quantize_def)
  moreover have "fst (serve late_env (DeleteBso ''bookmarks'' ''a'') bare_request sample_database) =
      Inl (Http conflict)"
  proof -
    have checks: "validate_collection ''bookmarks'' = Inr ''bookmarks''"
      "validate_bso_id ''a'' = Inr ''a''" by code_simp+
    have a: "authenticate_request (\<lambda>_. Inr 7) 1700000000020 bare_request sample_database =
        Inr \<lparr>ss_uid = 7, ss_now = 1700000000020\<rparr>"
      by (simp add: authenticate_request_def bare_request_def sql_int_def get_sync_user_def
          lookup_key_def sample_defs quantize_def)
    have u: "user_collection_row \<lparr>ss_uid = 7, ss_now = 1700000000020\<rparr> 1 sample_database =
        Some \<lparr>uc_uid = 7, uc_collection_id = 1, uc_modified = 1700000000020\<rparr>"
      by (simp add: user_collection_row_def lookup_key_def sample_defs key_defs)
    show ?thesis
      using checks a run_stale [OF sample_bookmarks u]
      by (simp add: serve_def delete_bso_route_def authenticated_def late_env_def bare_request_def
          precondition_def header_get_def)
  qed
  ultimately show ?thesis by (metis prod.collapse)
qed

lemma upsert_rows_changed:
  assumes "r' \<in> set (put_all s cid bsos t)"
  shows "r' \<in> set t \<or> br_uid r' = ss_uid s \<and> br_collection_id r' = cid \<and>
    (br_modified r' = ss_now s \<or> (\<exists>r \<in> set t. \<exists>e. r' = r\<lparr>br_expiry := e\<rparr>))"
proof -
  let ?P = "\<lambda>r'. r' \<in> set t \<or> br_uid r' = ss_uid s \<and> br_collection_id r' = cid \<and>
    (br_modified r' = ss_now s \<or> (\<exists>r \<in> set t. \<exists>e. r' = r\<lparr>br_expiry := e\<rparr>))"
  have "\<forall>r' \<in> set (put_all s cid bsos t). ?P r'"
  proof (rule put.execs_all)
    fix b r assume k: "br_key r = br_key (put_row s cid b)" and P: "?P r"
    have own: "br_uid r = ss_uid s" "br_collection_id r = cid" using k by (simp_all add: br_key_def)
    show "?P (put_change s b r)"
    proof (cases "pb_payload b = None \<and> pb_sortindex b = None")
      case False
      have "br_modified (put_change s b r) =
          (if pb_payload b = None \<and> pb_sortindex b = None then br_modified r else ss_now s)"
        by (simp add: put_change_def)
      also have "\<dots> = ss_now s" using False by (simp only: if_False)
      finally have "br_modified (put_change s b r) = ss_now s" .
      with own show ?thesis by simp
    next
      case True
      then obtain e where e: "put_change s b r = r\<lparr>br_expiry := e\<rparr>"
        by (cases r) (auto simp: put_change_def)
      from P own consider "r \<in> set t" | "br_modified r = ss_now s"
        | x e' where "x \<in> set t" "r = x\<lparr>br_expiry := e'\<rparr>" by blast
      then show ?thesis
      proof cases
        case 1
        with e own show ?thesis by auto
      next
        case 2
        with e own show ?thesis by auto
      next
        case 3
        then have "put_change s b r = x\<lparr>br_expiry := e\<rparr>" using e by simp
        with 3 own show ?thesis by auto
      qed
    qed
  qed auto
  with assms show ?thesis by blast
qed

definition fresh_rows :: "sync_store \<Rightarrow> str \<Rightarrow> database \<Rightarrow> database \<Rightarrow> bool" where
  "fresh_rows s c db db' \<longleftrightarrow>
     (\<forall>r' \<in> set (db_bso db'). r' \<in> set (db_bso db) \<or>
        br_uid r' = ss_uid s \<and> collection_id c db' = Inr (br_collection_id r') \<and>
        (br_modified r' = ss_now s \<or> (\<exists>r \<in> set (db_bso db). \<exists>e. r' = r\<lparr>br_expiry := e\<rparr>)))"

definition grows :: "database \<Rightarrow> database \<Rightarrow> bool" where
  "grows db db' \<longleftrightarrow> (\<forall>n cid. collection_id n db = Inr cid \<longrightarrow> collection_id n db' = Inr cid)"

lemma grows_refl [simp]: "grows db db"
  by (simp add: grows_def)

lemma grows_trans: "grows db db' \<Longrightarrow> grows db' db'' \<Longrightarrow> grows db db''"
  by (simp add: grows_def)

lemma grows_ignore: "grows db (insert_or_ignore_collection c db)"
  by (simp add: grows_def insert_or_ignore_keeps)

lemma grows_same: "db_collections db' = db_collections db \<Longrightarrow> grows db db'"
  by (simp add: grows_def collection_id_def)

lemma grows_ignored:
  "db_collections db' = db_collections (insert_or_ignore_collection c db) \<Longrightarrow> grows db db'"
  by (rule grows_trans [OF grows_ignore grows_same])

lemma fresh_rows_subset: "set (db_bso db') \<subseteq> set (db_bso db) \<Longrightarrow> fresh_rows s c db db'"
  by (auto simp: fresh_rows_def)

lemma fresh_rows_trans:
  assumes "fresh_rows s c db db'" "fresh_rows s c db' db''" "grows db' db''"
  shows "fresh_rows s c db db''"
  unfolding fresh_rows_def
proof
  fix r'' assume r'': "r'' \<in> set (db_bso db'')"
  let ?ok = "\<lambda>r. r \<in> set (db_bso db) \<or> br_uid r = ss_uid s \<and>
      collection_id c db'' = Inr (br_collection_id r) \<and>
      (br_modified r = ss_now s \<or> (\<exists>x \<in> set (db_bso db). \<exists>e. r = x\<lparr>br_expiry := e\<rparr>))"
  have old: "?ok r" if "r \<in> set (db_bso db')" for r
    using assms(1,3) that unfolding fresh_rows_def grows_def by blast
  have "r'' \<in> set (db_bso db') \<or> br_uid r'' = ss_uid s \<and>
      collection_id c db'' = Inr (br_collection_id r'') \<and>
      (br_modified r'' = ss_now s \<or> (\<exists>r \<in> set (db_bso db'). \<exists>e. r'' = r\<lparr>br_expiry := e\<rparr>))"
    using assms(2) r'' by (auto simp: fresh_rows_def)
  then consider "r'' \<in> set (db_bso db')"
    | "br_uid r'' = ss_uid s" "collection_id c db'' = Inr (br_collection_id r'')"
      "br_modified r'' = ss_now s"
    | r e where "br_uid r'' = ss_uid s" "collection_id c db'' = Inr (br_collection_id r'')"
      "r \<in> set (db_bso db')" "r'' = r\<lparr>br_expiry := e\<rparr>" by blast
  then show "?ok r''"
  proof cases
    case 1
    then show ?thesis by (rule old)
  next
    case 2
    then show ?thesis by simp
  next
    case 3
    from old [OF 3(3)] show ?thesis
    proof
      assume "r \<in> set (db_bso db)"
      with 3 show ?thesis by blast
    next
      assume o: "br_uid r = ss_uid s \<and> collection_id c db'' = Inr (br_collection_id r) \<and>
        (br_modified r = ss_now s \<or> (\<exists>x \<in> set (db_bso db). \<exists>e. r = x\<lparr>br_expiry := e\<rparr>))"
      then have "br_modified r'' = ss_now s \<or> (\<exists>x \<in> set (db_bso db). \<exists>e. r'' = x\<lparr>br_expiry := e\<rparr>)"
      proof (cases "br_modified r = ss_now s")
        case False
        with o obtain x e' where "x \<in> set (db_bso db)" "r = x\<lparr>br_expiry := e'\<rparr>" by blast
        moreover from this 3(4) have "r'' = x\<lparr>br_expiry := e\<rparr>" by simp
        ultimately show ?thesis by blast
      qed (simp add: 3(4))
      with 3(1,2) show ?thesis by blast
    qed
  qed
qed

lemma put_rows_fresh:
  assumes "collection_id c db' = Inr cid" and "db_bso db' = put_all s cid bsos (db_bso db)"
  shows "fresh_rows s c db db'"
  unfolding fresh_rows_def assms(2) using upsert_rows_changed [of _ s cid bsos "db_bso db"] assms(1)
  by blast

lemma put_bso_fresh:
  assumes "put_bso s c b None True db = Inr (t, db')" shows "fresh_rows s c db db'"
  by (rule put_bso_Inr [OF assms], rule put_rows_fresh [where bsos = "[b]"])
    (simp_all add: collection_id_def)

lemma post_bsos_fresh:
  assumes "post_bsos s c bsos stamped db = Inr (t, db')"
  shows "fresh_rows s c db db'" "grows db db'"
proof -
  show "fresh_rows s c db db'"
    by (rule post_bsos_Inr [OF assms], rule put_rows_fresh) (simp_all add: collection_id_def)
  show "grows db db'"
    by (rule post_bsos_Inr [OF assms]) (rule grows_ignored [of _ c], simp)
qed

lemma commit_batch_fresh:
  assumes "commit_batch s c i db = Inr (t, db')"
  shows "fresh_rows s c db db'" "grows db db'"
proof -
  show "grows db db'"
    by (rule commit_batch_Inr [OF assms])
      (rule grows_ignored [of _ c], simp add: delete_batch_rows_def)
  show "fresh_rows s c db db'"
  proof (rule commit_batch_Inr [OF assms])
    fix cid j
    let ?d = "insert_or_ignore_collection c db" and ?items = "staged_items s j db"
    assume c: "collection_id c ?d = Inr cid" and
      d: "db' = delete_batch_rows s j (?d\<lparr>db_bso := commit_all s cid ?items (db_bso db),
        db_user_collections := stamp_upsert s cid (db_user_collections db)\<rparr>)"
    have "\<forall>r \<in> set (commit_all s cid ?items (db_bso db)). r \<in> set (db_bso db) \<or>
        br_uid r = ss_uid s \<and> br_collection_id r = cid \<and> br_modified r = ss_now s"
      by (rule commit.execs_all) (auto simp: br_key_def)
    then show ?thesis
      using c unfolding fresh_rows_def by (fastforce simp: d delete_batch_rows_def collection_id_def)
  qed
qed

lemma create_batch_fresh:
  assumes "create_batch s c db = Inr (i, db')"
  shows "fresh_rows s c db db'"
  using create_batch_shape(2) [OF assms] by (intro fresh_rows_subset) simp

lemma post_batch_fresh:
  assumes "post_batch c b bsos s db = Inr (r, db')"
  shows "fresh_rows s c db db'"
proof (rule post_batch_Inr [OF assms])
  fix i db1 db2
  assume o: "create_batch s c db = Inr (i, db1) \<or> validate_batch s c i db = Inr True \<and> db1 = db"
    and a: "append_to_batch s c i (ps_valid bsos) db1 = Inr db2 \<and> ps_valid bsos \<noteq> [] \<and>
      \<not> br_commit b \<or> db2 = db1"
    and f: "if br_commit b
     then \<exists>t db3. commit_batch s c i db2 = Inr (t, db3) \<and>
       (if ps_valid bsos = [] then db' = db3
        else \<exists>t'. post_bsos s c (ps_valid bsos) True db3 = Inr (t', db'))
     else db' = db2"
  have bso: "db_bso db2 = db_bso db"
    using o a create_batch_shape(2) [of s c db i db1]
      append_to_batch_shape(2) [of s c i "ps_valid bsos" db1 db2] by auto
  have sub: "fresh_rows s c db2 x \<Longrightarrow> fresh_rows s c db x" for x
    using bso by (simp add: fresh_rows_def)
  show ?thesis
  proof (cases "br_commit b")
    case False
    with f bso show ?thesis by (auto intro: fresh_rows_subset)
  next
    case True
    then obtain t db3 where c: "commit_batch s c i db2 = Inr (t, db3)"
      and p: "if ps_valid bsos = [] then db' = db3
        else \<exists>t'. post_bsos s c (ps_valid bsos) True db3 = Inr (t', db')"
      using f by auto
    note c = commit_batch_fresh [OF c]
    show ?thesis
    proof (cases "ps_valid bsos = []")
      case True
      with p c sub show ?thesis by simp
    next
      case False
      with p obtain t' where p: "post_bsos s c (ps_valid bsos) True db3 = Inr (t', db')" by auto
      show ?thesis
        by (rule sub, rule fresh_rows_trans [OF c(1) post_bsos_fresh [OF p]])
    qed
  qed
qed

lemma put_bso_grows:
  assumes "put_bso s c b None True db = Inr (t, db')" shows "grows db db'"
  by (rule put_bso_Inr [OF assms]) (rule grows_ignored [of _ c], simp)

lemma create_batch_grows:
  assumes "create_batch s c db = Inr (i, db')" shows "grows db db'"
proof -
  from assms obtain cid db1 j where
    g: "get_or_create_collection_id c db = Inr (cid, db1)" and
    a: "allocate_batch MAX_BATCH_CREATE_RETRY s cid (ss_now s) db1 = Inr (j, db')"
    by (auto simp: create_batch_def bindr_eq_Inr)
  show ?thesis
    by (rule grows_ignored [of _ c]) (use allocate_batch_Inr [OF a] get_or_create_Inr(1) [OF g] in simp)
qed

lemma post_batch_grows:
  assumes "post_batch c b bsos s db = Inr (r, db')" shows "grows db db'"
proof (rule post_batch_Inr [OF assms])
  fix i db1 db2
  assume o: "create_batch s c db = Inr (i, db1) \<or> validate_batch s c i db = Inr True \<and> db1 = db"
    and a: "append_to_batch s c i (ps_valid bsos) db1 = Inr db2 \<and> ps_valid bsos \<noteq> [] \<and>
      \<not> br_commit b \<or> db2 = db1"
    and f: "if br_commit b
     then \<exists>t db3. commit_batch s c i db2 = Inr (t, db3) \<and>
       (if ps_valid bsos = [] then db' = db3
        else \<exists>t'. post_bsos s c (ps_valid bsos) True db3 = Inr (t', db'))
     else db' = db2"
  have "grows db db1" using o by (auto dest: create_batch_grows)
  moreover have "grows db1 db2" using a by (auto dest!: append_to_batch_shape(3) intro: grows_same)
  moreover have "grows db2 db'"
    using f by (auto split: if_splits dest: commit_batch_fresh(2) post_bsos_fresh(2) intro: grows_trans)
  ultimately show ?thesis by (blast intro: grows_trans)
qed

lemma fresh_refl [simp]: "fresh_rows s c db db"
  by (simp add: fresh_rows_subset)

lemma handler_fresh:
  assumes h: "handler_of en rt h (Some c)" and run: "h s db1 = Inr (r, db2)"
  shows "fresh_rows s c db1 db2"
proof (cases rt)
  case (PostCollection c')
  then obtain batch bsos where hh: "h = post_collection_handler c batch bsos"
    using h by (auto simp: handler_of_def)
  show ?thesis
    by (rule post_collection_handler_Inr [OF run [unfolded hh]])
      (auto intro: post_bsos_fresh post_batch_fresh)
next
  case (PutBso c' i)
  with h run show ?thesis
    by (auto simp: handler_of_def put_bso_handler_def bindr_eq_Inr intro: put_bso_fresh)
next
  case (DeleteBso c' i)
  with h have hh: "h = delete_bso_handler c i" by (auto simp: handler_of_def)
  then obtain t where "delete_bso s c i db1 = Inr (t, db2)"
    using run by (auto simp: delete_bso_handler_def bindr_eq_Inr split: sum.splits store_error.splits)
  then show ?thesis by (rule delete_bso_Inr, intro fresh_rows_subset) auto
next
  case (DeleteCollection c')
  then obtain ids where hh: "h = delete_collection_handler c ids"
    using h by (auto simp: handler_of_def)
  then have "db2 = db1 \<or> (\<exists>t. ids \<noteq> [] \<and> delete_bsos s c ids db1 = Inr (t, db2)) \<or>
      (\<exists>t. delete_collection s c db1 = Inr (t, db2))"
    using run
    by (auto simp: delete_collection_handler_def bindr_eq_Inr
        split: sum.splits store_error.splits if_splits)
  then show ?thesis
  proof (elim disjE exE conjE)
    fix t assume d: "ids \<noteq> []" "delete_bsos s c ids db1 = Inr (t, db2)"
    show ?thesis by (rule delete_bsos_Inr [OF d(2,1)], rule fresh_rows_subset) auto
  next
    fix t assume d: "delete_collection s c db1 = Inr (t, db2)"
    show ?thesis by (rule delete_collection_Inr [OF d], rule fresh_rows_subset) auto
  qed simp
qed (use h in \<open>auto simp: handler_of_def\<close>)

lemma deletions_grow:
  "delete_bso s c i db = Inr (t, db') \<Longrightarrow> grows db db'"
  "ids \<noteq> [] \<Longrightarrow> delete_bsos s c ids db = Inr (t, db') \<Longrightarrow> grows db db'"
  "delete_collection s c db = Inr (t, db') \<Longrightarrow> grows db db'"
proof -
  show "delete_bso s c i db = Inr (t, db') \<Longrightarrow> grows db db'"
    by (erule delete_bso_Inr) (rule grows_same, simp)
  show "grows db db'" if "ids \<noteq> []" "delete_bsos s c ids db = Inr (t, db')"
    by (rule delete_bsos_Inr [OF that(2,1)]) (rule grows_same, simp)
  show "delete_collection s c db = Inr (t, db') \<Longrightarrow> grows db db'"
    by (erule delete_collection_Inr) (rule grows_same, simp)
qed

lemma handler_grows:
  assumes h: "handler_of en rt h (Some c)" and run: "h s db1 = Inr (r, db2)"
  shows "grows db1 db2"
proof (cases rt)
  case (PostCollection c')
  then obtain batch bsos where hh: "h = post_collection_handler c batch bsos"
    using h by (auto simp: handler_of_def)
  show ?thesis
    by (rule post_collection_handler_Inr [OF run [unfolded hh]])
      (auto intro: post_bsos_fresh post_batch_grows)
next
  case (PutBso c' i)
  with h run show ?thesis
    by (auto simp: handler_of_def put_bso_handler_def bindr_eq_Inr intro: put_bso_grows)
next
  case (DeleteBso c' i)
  with h have hh: "h = delete_bso_handler c i" by (auto simp: handler_of_def)
  then obtain t where "delete_bso s c i db1 = Inr (t, db2)"
    using run by (auto simp: delete_bso_handler_def bindr_eq_Inr split: sum.splits store_error.splits)
  then show ?thesis by (rule deletions_grow)
next
  case (DeleteCollection c')
  then obtain ids where hh: "h = delete_collection_handler c ids"
    using h by (auto simp: handler_of_def)
  then have "db2 = db1 \<or> (\<exists>t. ids \<noteq> [] \<and> delete_bsos s c ids db1 = Inr (t, db2)) \<or>
      (\<exists>t. delete_collection s c db1 = Inr (t, db2))"
    using run
    by (auto simp: delete_collection_handler_def bindr_eq_Inr
        split: sum.splits store_error.splits if_splits)
  then show ?thesis using deletions_grow(2,3) grows_refl by blast
qed (use h in \<open>auto simp: handler_of_def\<close>)

lemma guarded_change_newer:
  assumes h: "handler_of en rt h collection" and g: "guarded s collection db db1" and hr: "h s db1 = Inr (r1, db')"
    and new: "r' \<in> set (db_bso db')" "r' \<notin> set (db_bso db)"
  shows "br_uid r' = ss_uid s \<and>
    ((\<exists>r \<in> set (db_bso db). \<exists>e. r' = r\<lparr>br_expiry := e\<rparr>) \<or> br_modified r' = ss_now s) \<and>
    (\<forall>u. lookup_key uc_key (ss_uid s, br_collection_id r') (db_user_collections db) = Some u \<longrightarrow>
      uc_modified u < ss_now s)"
proof (cases collection)
  case None
  with g have "db1 = db" by (simp add: guarded_def)
  have "set (db_bso db') \<subseteq> set (db_bso db)"
    using h hr None \<open>db1 = db\<close>
    by (cases rt) (auto simp: handler_of_def delete_all_handler_def delete_storage_def dest!: read_handlers_same)
  with new show ?thesis by blast
next
  case (Some c)
  with g obtain cid where db1: "db1 = insert_or_ignore_collection c db"
    and cid: "collection_id c db1 = Inr cid" and cw: "check_write s cid db1 = Inr ()"
    by (auto simp: guarded_def)
  have f: "br_uid r' = ss_uid s" "collection_id c db' = Inr (br_collection_id r')"
      "br_modified r' = ss_now s \<or> (\<exists>r \<in> set (db_bso db). \<exists>e. r' = r\<lparr>br_expiry := e\<rparr>)"
    using handler_fresh [OF h [unfolded Some] hr] new by (auto simp: fresh_rows_def db1)
  have "br_collection_id r' = cid" using f(2) cid handler_grows [OF h [unfolded Some] hr] by (simp add: grows_def)
  then have "\<forall>u. lookup_key uc_key (ss_uid s, br_collection_id r') (db_user_collections db) = Some u \<longrightarrow>
      uc_modified u < ss_now s"
    using cw by (auto simp: check_write_Inr user_collection_row_def db1)
  with f show ?thesis by auto
qed


abbreviation sample_put :: posted_bso where
  "sample_put \<equiv> \<lparr>pb_id = [], pb_payload = Some ''p'', pb_sortindex = None, pb_ttl = None\<rparr>"

abbreviation put_store :: sync_store where
  "put_store \<equiv> \<lparr>ss_uid = 7, ss_now = 1700000000100\<rparr>"

lemma sample_put_stored:
  "\<exists>db'. put_bso put_store ''bookmarks'' (sample_put\<lparr>pb_id := ''z''\<rparr>) None True sample_database =
     Inr (1700000000100, db') \<and> (\<exists>r \<in> set (db_bso db'). br_id r = ''z'')"
proof -
  have "case put_bso put_store ''bookmarks'' (sample_put\<lparr>pb_id := ''z''\<rparr>) None True sample_database of
     Inr (t, db') \<Rightarrow> t = 1700000000100 \<and> list_ex (\<lambda>r. br_id r = ''z'') (db_bso db') | Inl _ \<Rightarrow> False"
    by code_simp
  then show ?thesis by (auto simp: list_ex_iff split: sum.splits)
qed

lemma sample_put_serves:
  assumes "put_bso put_store ''bookmarks'' (sample_put\<lparr>pb_id := ''z''\<rparr>) None True sample_database =
     Inr (t, db')"
  shows "snd (serve token_env (PutBso ''bookmarks'' ''z'') bare_request sample_database) = db'"
proof -
  have checks: "validate_collection ''bookmarks'' = Inr ''bookmarks''" "validate_bso_id ''z'' = Inr ''z''"
    "check_content_length [] = Inr ()" "check_known_bad_payload [sample_put] ''bookmarks'' = Inr ()"
    "parse_bso_body sample_codec [] None = Inr sample_put"
    by code_simp+
  have a: "authenticate_request (\<lambda>_. Inr 7) 1700000000105 bare_request sample_database =
      Inr put_store"
    by (simp add: authenticate_request_def bare_request_def sql_int_def get_sync_user_def
        lookup_key_def sample_defs quantize_def)
  have "check_write put_store 1 sample_database = Inr ()"
    by (simp add: check_write_def user_collection_row_def lookup_key_def sample_defs key_defs)
  moreover have "get_or_create_collection_id ''bookmarks'' sample_database =
      Inr (1, sample_database)"
    by (simp add: get_or_create_collection_id_def sample_bookmarks)
  ultimately show ?thesis using checks a assms
    by (simp add: serve_def put_bso_route_def authenticated_def token_env_def no_token_env_def
        bare_request_def run_def run_body_def precondition_def header_get_def put_bso_handler_def
        from_store_def Let_def)
qed


subsection \<open>Staging and preconditions\<close>

text \<open>
  A batch request without \<open>commit\<close> is invisible: it answers 202, and no record, no stamp
  and so no read of any client differs after it. Only the commit makes the upload real.
\<close>

theorem staging_is_invisible:
  assumes "post_batch c b bsos s db = Inr (r, db')" and "\<not> br_commit b"
  shows "rs_status r = 202 \<and> db_bso db' = db_bso db \<and>
    db_user_collections db' = db_user_collections db"
proof -
  have "rs_status r = 202"
    using assms by (auto simp: post_batch_def bindr_eq_Inr json_response_def split: if_splits)
  moreover have "db_bso db' = db_bso db \<and> db_user_collections db' = db_user_collections db"
  proof (rule post_batch_Inr [OF assms(1)])
    fix i db1 db2
    assume o: "create_batch s c db = Inr (i, db1) \<or> validate_batch s c i db = Inr True \<and> db1 = db"
      and a: "append_to_batch s c i (ps_valid bsos) db1 = Inr db2 \<and> ps_valid bsos \<noteq> [] \<and>
        \<not> br_commit b \<or> db2 = db1"
      and "if br_commit b
       then \<exists>t db3. commit_batch s c i db2 = Inr (t, db3) \<and>
         (if ps_valid bsos = [] then db' = db3
          else \<exists>t'. post_bsos s c (ps_valid bsos) True db3 = Inr (t', db'))
       else db' = db2"
    with assms(2) have "db' = db2" by simp
    moreover have "db_bso db1 = db_bso db \<and> db_user_collections db1 = db_user_collections db"
      using o create_batch_shape(1,2) by auto
    moreover have "db_bso db2 = db_bso db1 \<and> db_user_collections db2 = db_user_collections db1"
      using a append_to_batch_shape(1,2) by auto
    ultimately show ?thesis by simp
  qed
  ultimately show ?thesis by simp
qed

definition open_request :: batch_request where
  "open_request = \<lparr>br_batch = None, br_commit = False\<rparr>"

theorem staging_is_invisible_witness:
  "\<exists>r db'. post_batch ''bookmarks'' open_request \<lparr>ps_valid = [], ps_invalid = []\<rparr> late_store
      sample_database = Inr (r, db') \<and> rs_status r = 202 \<and> db_bso db' = db_bso sample_database"
proof -
  have "\<exists>db1. allocate_batch 1 late_store 1 1700000000900 sample_database = Inr (1700000000900, db1)"
    by (simp add: has_key_iff user_exists_def sample_defs late_store_def key_defs)
  then obtain db1 where "allocate_batch MAX_BATCH_CREATE_RETRY late_store 1 (ss_now late_store)
      sample_database = Inr (1700000000900, db1)"
    by (auto simp: MAX_BATCH_CREATE_RETRY_def numeral_eq_Suc late_store_def split: if_splits)
  then have "\<exists>i db1. create_batch late_store ''bookmarks'' sample_database = Inr (i, db1)"
    by (simp add: create_batch_def get_or_create_collection_id_def sample_bookmarks)
  then obtain i db1 where c: "create_batch late_store ''bookmarks'' sample_database = Inr (i, db1)"
    by blast
  have "\<exists>r db'. post_batch ''bookmarks'' open_request \<lparr>ps_valid = [], ps_invalid = []\<rparr>
      late_store sample_database = Inr (r, db')"
    by (simp add: post_batch_def open_request_def c from_store_def split: sum.splits)
  then obtain r db' where "post_batch ''bookmarks'' open_request \<lparr>ps_valid = [], ps_invalid = []\<rparr>
      late_store sample_database = Inr (r, db')"
    by blast
  then show ?thesis using staging_is_invisible by (fastforce simp: open_request_def)
qed

lemma header_get_Cons:
  "header_get ((n, v) # hs) m = (if m = n then Some v else header_get hs m)"
  by (simp add: header_get_def)

text \<open>
  C12: A conditional write goes ahead exactly when nothing has happened since: for an instant
  the client was told in a header (any between 2004 and 2038), sent back as
  \<open>X-If-Unmodified-Since\<close>, the answer is 412 and nothing changes when the resource has moved
  past it, and otherwise the precondition is satisfied. Sent back as
  \<open>X-If-Modified-Since\<close> it is 304 exactly when the resource has not.
\<close>

theorem precondition_exact:
  assumes "exact_window since"
  shows "(resource s db > since \<longrightarrow>
      (\<exists>r. run [(''x-if-unmodified-since'', timestamp_header since)] s resource coll h db =
         (Inr r, db) \<and> rs_status r = 412)) \<and>
    (resource s db \<le> since \<longrightarrow>
      precondition [(''x-if-unmodified-since'', timestamp_header since)] (resource s db) = Inr None) \<and>
    (resource s db \<le> since \<longrightarrow>
      (\<exists>r. run [(''x-if-modified-since'', timestamp_header since)] s resource coll h db =
         (Inr r, db) \<and> rs_status r = 304)) \<and>
    (resource s db > since \<longrightarrow>
      precondition [(''x-if-modified-since'', timestamp_header since)] (resource s db) = Inr None)"
  using parse_timestamp_header [OF assms]
  by (simp add: precondition_def header_get_def run_def run_body_def weave_timestamp_def Let_def)

theorem precondition_exact_witness:
  "\<exists>r. run [(''x-if-unmodified-since'', timestamp_header 1700000000000)] sample_store
     storage_timestamp None delete_all_handler sample_database = (Inr r, sample_database) \<and>
     rs_status r = 412"
proof -
  have "exact_window 1700000000000" by (simp add: exact_window_def)
  from precondition_exact [OF this, of storage_timestamp sample_store sample_database None
      delete_all_handler]
  show ?thesis
    by (simp add: storage_timestamp_def sample_store_def sample_defs)
qed

text \<open>
  An offset token the server issues is accepted when it comes back with the same query:
  the cross-check of its timestamp against the \<open>newer\<close> and \<open>older\<close> window never refuses the
  continuation of a page.
\<close>

theorem issued_offset_accepted:
  assumes "pageable scan db q" and "q_offset q = None"
    and "collection_id collection db = Inr cid"
    and "page_step scan s collection full db q = Some (items, Some q')"
  shows "bound_in_window q'"
proof -
  have i: "issued full q (matching scan s cid full q db)"
    using assms(2) by (simp add: issued_def)
  let ?L = "matching scan s cid full q db"
  note step = page_step_issued [OF assms(1) i assms(3)]
  have more: "matching scan s cid full q' db = ?L" "issued full q' ?L"
    using step assms(4) by (auto split: if_splits)
  obtain f where q': "q' = q\<lparr>q_offset := Some f\<rparr>"
    using assms(4) by (auto simp: page_step_def split: sum.splits option.splits)
  show ?thesis
  proof (cases "timed full q'")
    case False
    then have "off_timestamp f = None" using more(2) q' by (simp add: issued_def)
    then show ?thesis by (simp add: bound_in_window_def query_bound_def q')
  next
    case True
    let ?n = "served full q' ?L"
    have t: "off_timestamp f = Some (br_modified (last (take ?n ?L)))" "0 < ?n" "?n \<le> length ?L"
      using more(2) True q' by (auto simp: issued_def)
    then have ne: "take ?n ?L \<noteq> []" by auto
    then have "last (take ?n ?L) \<in> set ?L" by (meson in_set_takeD last_in_set)
    moreover have "mset ?L = mset (filter (bso_where s cid full (unbounded q)) (db_bso db))"
      using assms(1) by (simp add: matching_def order_rows_mset pageable_def)
    then have "set ?L = set (filter (bso_where s cid full (unbounded q)) (db_bso db))"
      by (rule mset_eq_setD)
    then have "set ?L \<subseteq> {r. in_window q r}"
      by (auto simp: bso_where_def)
    ultimately have "in_window q (last (take ?n ?L))" by blast
    then show ?thesis
      using t(1) by (auto simp: bound_in_window_def query_bound_def q' in_window_def
          split: option.splits)
  qed
qed

theorem issued_offset_accepted_witness:
  "\<exists>items q'. page_step (\<lambda>t. t) sample_store ''bookmarks'' True sample_database sample_query =
     Some (items, Some q') \<and> bound_in_window q'"
proof -
  have i: "issued True sample_query (matching (\<lambda>t. t) sample_store 1 True sample_query sample_database)"
    by (simp add: issued_def sample_query_def)
  have "length (matching (\<lambda>t. t) sample_store 1 True sample_query sample_database) = 3"
  proof -
    have "mset (matching (\<lambda>t. t) sample_store 1 True sample_query sample_database) =
        mset (filter (bso_where sample_store 1 True (unbounded sample_query)) (db_bso sample_database))"
      by (simp add: matching_def order_rows_mset)
    also have "size \<dots> = 3"
      by (simp add: bso_where_def in_window_def sample_query_def sample_store_def sample_defs)
    finally show ?thesis by (metis size_mset)
  qed
  then have "\<exists>q'. page_step (\<lambda>t. t) sample_store ''bookmarks'' True sample_database sample_query =
      Some (map (page_item_of True) (take 2 (matching (\<lambda>t. t) sample_store 1 True sample_query
        sample_database)), Some q')"
    using page_step_issued [OF sample_pageable i sample_bookmarks]
    by (auto simp: served_def sample_query_def effective_limit_def)
  then obtain items q' where p: "page_step (\<lambda>t. t) sample_store ''bookmarks'' True sample_database
      sample_query = Some (items, Some q')" by blast
  have "q_offset sample_query = None" by (simp add: sample_query_def)
  from issued_offset_accepted [OF sample_pageable this sample_bookmarks p] p show ?thesis by blast
qed

end
