(* ===== verification/Scopes.thy ===== *)
theory Scopes
  imports PyStr Json
begin

text \<open>
  \<open>oauth/scopes.py\<close>: OAuth scope values, the relation of one implying another, and
  \<open>ScopeSet\<close> with its two indexes. A dict is the list of its items in insertion order; a
  set inside one is a list without repetitions. \<open>None\<close> is \<open>InvalidScopeError\<close>. A host in
  square brackets (an IPv6 literal), which \<open>urlsplit\<close> would check with \<open>ipaddress\<close>, is
  refused here.
\<close>

subsection \<open>Values and what implies them\<close>

definition is_scope_char :: "char \<Rightarrow> bool" where
  "is_scope_char c \<longleftrightarrow> ord c = 33 \<or> 35 \<le> ord c \<and> ord c \<le> 91 \<or> 93 \<le> ord c \<and> ord c \<le> 126"

definition is_word_char :: "char \<Rightarrow> bool" where
  "is_word_char c \<longleftrightarrow> is_alnum c \<or> c = CHR ''_''"

definition VALID_SCOPE_VALUE :: "str \<Rightarrow> bool" where
  "VALID_SCOPE_VALUE = re_dollar (class_plus is_scope_char)"

definition VALID_SHORT_NAME :: "str \<Rightarrow> bool" where
  "VALID_SHORT_NAME = re_dollar (class_plus is_word_char)"

definition VALID_FRAGMENT :: "str \<Rightarrow> bool" where
  "VALID_FRAGMENT =
     re_dollar (\<lambda>s. case s of [] \<Rightarrow> False | c # w \<Rightarrow> c = CHR ''#'' \<and> class_plus is_word_char w)"

definition is_path_escape :: "char \<Rightarrow> bool" where
  "is_path_escape c \<longleftrightarrow> c \<in> {CHR ''<'', CHR ''>'', CHR 0x60, CHR ''{'', CHR ''}'', CHR 0x5C}"

definition MAX_SHORT_SCOPE_COMPONENTS :: nat where
  "MAX_SHORT_SCOPE_COMPONENTS = 32"

text \<open>The prefixes \<open>names\<close>, \<open>names[:-1]\<close>, ... down to \<open>k\<close> components, longest first.\<close>

definition prefixes_down :: "nat \<Rightarrow> 'a list \<Rightarrow> 'a list list" where
  "prefixes_down k xs = map (\<lambda>n. take n xs) (rev [k..<Suc (length xs)])"

definition short_parents :: "bool \<Rightarrow> str list \<Rightarrow> str list" where
  "short_parents has_write names =
     concat (map (\<lambda>ns. [join '':'' ns @ '':write''] @ (if has_write then [] else [join '':'' ns]))
       (prefixes_down 1 names))"

definition short_implicants :: "str \<Rightarrow> str list option" where
  "short_implicants value =
     (let names = split CHR '':'' value; has_write = last names = ''write''
      in if \<not> VALID_SCOPE_VALUE value then None
         else if MAX_SHORT_SCOPE_COMPONENTS < length names then None
         else if \<not> list_all VALID_SHORT_NAME names then None
         else if has_write then
           (if butlast names = [] then None else Some (short_parents True (butlast names)))
         else Some (short_parents False names))"

text \<open>
  \<open>urlsplit\<close> of a value that starts with \<open>https:\<close>: tabs and line breaks are dropped, then
  the authority runs to the first of \<open>/?#\<close>. The parts are netloc, path, query and fragment.
\<close>

definition urlsplit_https :: "str \<Rightarrow> (str \<times> str \<times> str \<times> str) option" where
  "urlsplit_https value =
     (let rest = filter (\<lambda>c. ord c \<notin> {9, 10, 13}) (drop 6 value);
          body = drop 2 rest;
          stops = (\<lambda>c. c \<notin> {CHR ''/'', CHR ''?'', CHR ''#''});
          (netloc, tail) = (if startswith rest ''//'' then (takeWhile stops body, dropWhile stops body)
                            else ([], rest))
      in if CHR ''['' \<in> set netloc \<or> CHR '']'' \<in> set netloc then None
         else
           (let (before_fragment, _, fragment) = partition CHR ''#'' tail;
                (path, _, query) = partition CHR ''?'' before_fragment
            in Some (netloc, path, query, fragment)))"

text \<open>\<open>parts.username or parts.password\<close>: something before the last \<open>@\<close> but a bare colon.\<close>

definition has_userinfo :: "str \<Rightarrow> bool" where
  "has_userinfo netloc \<longleftrightarrow>
     CHR ''@'' \<in> set netloc \<and>
     butlast (rev (dropWhile (\<lambda>c. c \<noteq> CHR ''@'') (rev netloc))) \<notin> {[], '':''}"

definition url_origin :: "str \<Rightarrow> str" where
  "url_origin netloc = ''https://'' @ netloc"

definition url_parents :: "str \<Rightarrow> str list \<Rightarrow> str \<Rightarrow> str list" where
  "url_parents netloc segments fragment =
     concat (map (\<lambda>ss. (url_origin netloc @ join ''/'' ss) #
         (if fragment \<noteq> [] then [url_origin netloc @ join ''/'' ss @ fragment] else []))
       (prefixes_down 2 segments))"

definition url_parts_ok :: "str \<Rightarrow> str \<Rightarrow> str \<Rightarrow> bool" where
  "url_parts_ok netloc path query \<longleftrightarrow>
     \<not> has_userinfo netloc \<and> query = [] \<and> netloc \<noteq> [] \<and> netloc = lower netloc \<and>
     \<not> endswith netloc '':443'' \<and> path \<noteq> [] \<and> \<not> endswith path ''/'' \<and>
     (\<forall>s \<in> set (split CHR ''/'' path). s \<notin> {''.'', ''..''}) \<and>
     \<not> list_ex is_path_escape path"

definition url_implicants :: "str \<Rightarrow> str list option" where
  "url_implicants value =
     (if \<not> VALID_SCOPE_VALUE value then None
      else
        (case urlsplit_https value of
           None \<Rightarrow> None
         | Some (netloc, path, query, frag) \<Rightarrow>
             (let fragment = (if frag \<noteq> [] then CHR ''#'' # frag else [])
              in if \<not> url_parts_ok netloc path query then None
                 else if fragment \<noteq> [] \<and> \<not> VALID_FRAGMENT fragment then None
                 else if url_origin netloc @ path @ fragment \<noteq> value then None
                 else Some (url_parents netloc (split CHR ''/'' path) fragment))))"

definition implicant_values :: "str \<Rightarrow> str list option" where
  "implicant_values value =
     (if startswith value ''https:'' then url_implicants value else short_implicants value)"

text \<open>\<open>tuple(dict.fromkeys(...))\<close>: the first occurrence of each.\<close>

definition dedup :: "'a list \<Rightarrow> 'a list" where
  "dedup xs = rev (remdups (rev xs))"

definition implicants :: "str \<Rightarrow> str list option" where
  "implicants scope = map_option dedup (implicant_values scope)"

lemma set_dedup [simp]: "set (dedup xs) = set xs"
  by (simp add: dedup_def)

definition implies :: "str \<Rightarrow> str \<Rightarrow> bool" where
  "implies a b \<longleftrightarrow> (\<exists>imps. implicants b = Some imps \<and> a \<in> set imps)"

subsection \<open>The set and its two indexes\<close>

record scope_set =
  scopes_to_implicants :: "(str \<times> str list) list"
  implicants_to_scopes :: "(str \<times> str list) list"

definition empty_scopes :: scope_set where
  "empty_scopes = \<lparr>scopes_to_implicants = [], implicants_to_scopes = []\<rparr>"

definition dict_del :: "'k \<Rightarrow> ('k \<times> 'v) list \<Rightarrow> ('k \<times> 'v) list" where
  "dict_del k d = filter (\<lambda>(k', _). k' \<noteq> k) d"

definition scope_values :: "scope_set \<Rightarrow> str list" where
  "scope_values s = map fst (scopes_to_implicants s)"

definition all_implicants :: "scope_set \<Rightarrow> str list" where
  "all_implicants s = map fst (implicants_to_scopes s)"

definition is_empty_set :: "scope_set \<Rightarrow> bool" where
  "is_empty_set s \<longleftrightarrow> scopes_to_implicants s = []"

definition scope_str :: "scope_set \<Rightarrow> str" where
  "scope_str s = join '' '' (scope_values s)"

definition has_some_scope :: "scope_set \<Rightarrow> str list \<Rightarrow> bool" where
  "has_some_scope s scopes \<longleftrightarrow> list_ex (\<lambda>x. map_of (scopes_to_implicants s) x \<noteq> None) scopes"

definition implied_by :: "(str \<times> str list) list \<Rightarrow> str \<Rightarrow> str list" where
  "implied_by d i = (case map_of d i of None \<Rightarrow> [] | Some scopes \<Rightarrow> scopes)"

definition discard_from :: "str \<Rightarrow> str \<Rightarrow> (str \<times> str list) list \<Rightarrow> (str \<times> str list) list" where
  "discard_from scope i d =
     (let rest = filter (\<lambda>x. x \<noteq> scope) (implied_by d i)
      in if rest = [] then dict_del i d else dict_set i rest d)"

definition remove_scope :: "str \<Rightarrow> scope_set \<Rightarrow> scope_set" where
  "remove_scope scope s =
     (case map_of (scopes_to_implicants s) scope of
        None \<Rightarrow> s
      | Some imps \<Rightarrow>
          \<lparr>scopes_to_implicants = dict_del scope (scopes_to_implicants s),
           implicants_to_scopes = fold (discard_from scope) imps (implicants_to_scopes s)\<rparr>)"

definition index_under :: "str \<Rightarrow> str \<Rightarrow> (str \<times> str list) list \<Rightarrow> (str \<times> str list) list" where
  "index_under scope i d =
     dict_set i (if scope \<in> set (implied_by d i) then implied_by d i else implied_by d i @ [scope]) d"

definition add_scope :: "str \<Rightarrow> str list \<Rightarrow> scope_set \<Rightarrow> scope_set" where
  "add_scope scope imps s =
     (if has_some_scope s imps then s
      else
        let t = fold remove_scope (implied_by (implicants_to_scopes s) scope) s
        in \<lparr>scopes_to_implicants = dict_set scope imps (scopes_to_implicants t),
            implicants_to_scopes = fold (index_under scope) imps (implicants_to_scopes t)\<rparr>)"

text \<open>The constructor: the first value that is not well formed raises.\<close>

fun add_values :: "str list \<Rightarrow> scope_set \<Rightarrow> scope_set option" where
  "add_values [] s = Some s"
| "add_values (v # vs) s =
     (case implicants v of None \<Rightarrow> None | Some imps \<Rightarrow> add_values vs (add_scope v imps s))"

definition from_array :: "str list \<Rightarrow> scope_set option" where
  "from_array vs = add_values vs empty_scopes"

definition from_string :: "str \<Rightarrow> scope_set option" where
  "from_string v = from_array (filter (\<lambda>w. w \<noteq> []) (split CHR '' '' v))"

definition contains :: "scope_set \<Rightarrow> scope_set \<Rightarrow> bool" where
  "contains s other \<longleftrightarrow> list_all (\<lambda>(_, imps). has_some_scope s imps) (scopes_to_implicants other)"

definition intersects :: "scope_set \<Rightarrow> scope_set \<Rightarrow> bool" where
  "intersects s other \<longleftrightarrow>
     has_some_scope s (all_implicants other) \<or> has_some_scope other (all_implicants s)"

definition add_all :: "(str \<times> str list) list \<Rightarrow> scope_set \<Rightarrow> scope_set" where
  "add_all items s = fold (\<lambda>(scope, imps). add_scope scope imps) items s"

definition filtered :: "scope_set \<Rightarrow> scope_set \<Rightarrow> scope_set" where
  "filtered s other =
     add_all (filter (\<lambda>(_, imps). has_some_scope other imps) (scopes_to_implicants s)) empty_scopes"

definition difference :: "scope_set \<Rightarrow> scope_set \<Rightarrow> scope_set" where
  "difference s other =
     add_all (filter (\<lambda>(_, imps). \<not> has_some_scope other imps) (scopes_to_implicants s)) empty_scopes"

definition union_scopes :: "scope_set \<Rightarrow> scope_set \<Rightarrow> scope_set" where
  "union_scopes s other =
     add_all (scopes_to_implicants other) (add_all (scopes_to_implicants s) empty_scopes)"

definition add_scopes :: "scope_set \<Rightarrow> scope_set \<Rightarrow> scope_set" where
  "add_scopes s other = add_all (scopes_to_implicants other) s"

subsection \<open>The laws of an implication\<close>

text \<open>
  What the set needs of the values it holds: a value is among its own implicants, and what
  implies one of them implies it. Under these laws the two indexes always agree, no member
  implies another, and every operation is the one its name says.
\<close>

definition imp_of :: "(str \<Rightarrow> str list option) \<Rightarrow> str \<Rightarrow> str \<Rightarrow> bool" where
  "imp_of f a b \<longleftrightarrow> (\<exists>imps. f b = Some imps \<and> a \<in> set imps)"

definition index_ok :: "(str \<Rightarrow> str list option) \<Rightarrow> scope_set \<Rightarrow> bool" where
  "index_ok f s \<longleftrightarrow>
     distinct (scope_values s) \<and>
     (\<forall>(x, imps) \<in> set (scopes_to_implicants s). f x = Some imps) \<and>
     (\<forall>i x. x \<in> set (implied_by (implicants_to_scopes s) i) \<longleftrightarrow> x \<in> set (scope_values s) \<and> imp_of f i x) \<and>
     (\<forall>i. map_of (implicants_to_scopes s) i \<noteq> Some [])"

definition antichain :: "(str \<Rightarrow> str list option) \<Rightarrow> str list \<Rightarrow> bool" where
  "antichain f vs \<longleftrightarrow> (\<forall>x \<in> set vs. \<forall>y \<in> set vs. imp_of f x y \<longrightarrow> x = y)"

definition set_ok :: "(str \<Rightarrow> str list option) \<Rightarrow> scope_set \<Rightarrow> bool" where
  "set_ok f s \<longleftrightarrow> index_ok f s \<and> antichain f (scope_values s)"

lemma map_of_dict_del: "map_of (dict_del k d) = (map_of d)(k := None)"
  by (induction d) (auto simp: dict_del_def fun_eq_iff)

lemma values_dict_del: "map fst (dict_del k d) = filter (\<lambda>x. x \<noteq> k) (map fst d)"
  by (induction d) (auto simp: dict_del_def)

lemma implied_by_discard:
  "implied_by (discard_from x i d) j =
     (if j = i then filter (\<lambda>y. y \<noteq> x) (implied_by d j) else implied_by d j)"
  by (simp add: discard_from_def Let_def implied_by_def map_of_dict_del map_of_dict_set)

lemma implied_by_discards:
  "implied_by (fold (discard_from x) imps d) j =
     (if j \<in> set imps then filter (\<lambda>y. y \<noteq> x) (implied_by d j) else implied_by d j)"
  by (induction imps arbitrary: d) (auto simp: implied_by_discard)

lemma no_empty_discards:
  "\<forall>i. map_of d i \<noteq> Some [] \<Longrightarrow> map_of (fold (discard_from x) imps d) i \<noteq> Some []"
proof (induction imps arbitrary: d)
  case (Cons j imps)
  have "\<forall>i. map_of (discard_from x j d) i \<noteq> Some []"
    using Cons.prems by (simp add: discard_from_def Let_def map_of_dict_del map_of_dict_set)
  then show ?case using Cons.IH by simp
qed simp

lemma implied_by_index:
  "set (implied_by (index_under x i d) j) =
     (if j = i then insert x (set (implied_by d j)) else set (implied_by d j))"
  unfolding index_under_def implied_by_def map_of_dict_set by (cases "j = i") auto

lemma implied_by_indexes:
  "set (implied_by (fold (index_under x) imps d) j) =
     (if j \<in> set imps then insert x (set (implied_by d j)) else set (implied_by d j))"
  by (induction imps arbitrary: d) (auto simp: implied_by_index)

lemma no_empty_indexes:
  "\<forall>i. map_of d i \<noteq> Some [] \<Longrightarrow> map_of (fold (index_under x) imps d) i \<noteq> Some []"
proof (induction imps arbitrary: d)
  case (Cons j imps)
  have "\<forall>i. map_of (index_under x j d) i \<noteq> Some []"
    using Cons.prems by (auto simp: index_under_def map_of_dict_set)
  then show ?case using Cons.IH by simp
qed simp

lemma index_okD:
  assumes "index_ok f s"
  shows "distinct (scope_values s)"
    and "map_of (scopes_to_implicants s) x = Some imps \<Longrightarrow> f x = Some imps"
    and "x \<in> set (implied_by (implicants_to_scopes s) i) \<longleftrightarrow> x \<in> set (scope_values s) \<and> imp_of f i x"
    and "map_of (implicants_to_scopes s) i \<noteq> Some []"
proof -
  show "distinct (scope_values s)" using assms by (simp add: index_ok_def)
  show "f x = Some imps" if "map_of (scopes_to_implicants s) x = Some imps"
    using assms map_of_SomeD [OF that] by (auto simp: index_ok_def)
  show "x \<in> set (implied_by (implicants_to_scopes s) i) \<longleftrightarrow>
      x \<in> set (scope_values s) \<and> imp_of f i x"
    using assms unfolding index_ok_def by blast
  show "map_of (implicants_to_scopes s) i \<noteq> Some []"
    using assms unfolding index_ok_def by blast
qed

lemma values_map_of: "x \<in> set (scope_values s) \<longleftrightarrow> map_of (scopes_to_implicants s) x \<noteq> None"
  by (simp add: scope_values_def map_of_eq_None_iff)

lemma has_some_scope_iff: "has_some_scope s xs \<longleftrightarrow> (\<exists>x \<in> set xs. x \<in> set (scope_values s))"
  by (auto simp: has_some_scope_def list_ex_iff values_map_of)

lemma remove_scope_ok:
  assumes "index_ok f s"
  shows "index_ok f (remove_scope x s) \<and> scope_values (remove_scope x s) = filter (\<lambda>y. y \<noteq> x) (scope_values s)"
proof (cases "map_of (scopes_to_implicants s) x")
  case None
  then have "x \<notin> set (scope_values s)" by (simp add: values_map_of)
  then have "filter (\<lambda>y. y \<noteq> x) (scope_values s) = scope_values s" by (auto intro: filter_True)
  then show ?thesis using assms None by (simp add: remove_scope_def)
next
  case (Some imps)
  let ?r = "remove_scope x s"
  have f: "f x = Some imps" using index_okD(2) [OF assms Some] .
  have v: "scope_values ?r = filter (\<lambda>y. y \<noteq> x) (scope_values s)"
    by (simp add: remove_scope_def Some scope_values_def values_dict_del)
  have "\<forall>(y, js) \<in> set (scopes_to_implicants ?r). f y = Some js"
    using assms by (auto simp: remove_scope_def Some index_ok_def dict_del_def)
  moreover have "y \<in> set (implied_by (implicants_to_scopes ?r) i) \<longleftrightarrow>
      y \<in> set (scope_values ?r) \<and> imp_of f i y" for i y
    using index_okD(3) [OF assms, of y i] f v
    by (auto simp: remove_scope_def Some implied_by_discards imp_of_def)
  moreover have "map_of (implicants_to_scopes ?r) i \<noteq> Some []" for i
    using no_empty_discards [of "implicants_to_scopes s" x imps i] index_okD(4) [OF assms]
    by (simp add: remove_scope_def Some)
  ultimately show ?thesis using v index_okD(1) [OF assms] by (simp add: index_ok_def)
qed

lemma remove_scopes_ok:
  assumes "index_ok f s"
  shows "index_ok f (fold remove_scope xs s) \<and>
    scope_values (fold remove_scope xs s) = filter (\<lambda>y. y \<notin> set xs) (scope_values s)"
  using assms
proof (induction xs arbitrary: s)
  case (Cons x xs)
  have r: "index_ok f (remove_scope x s)"
    "scope_values (remove_scope x s) = filter (\<lambda>y. y \<noteq> x) (scope_values s)"
    using remove_scope_ok [OF Cons.prems, of x] by simp_all
  show ?case using Cons.IH [OF r(1)] r(2) by (auto intro: filter_cong)
qed simp

definition covers :: "(str \<Rightarrow> str list option) \<Rightarrow> scope_set \<Rightarrow> str \<Rightarrow> bool" where
  "covers f s x \<longleftrightarrow> (\<exists>a \<in> set (scope_values s). imp_of f a x)"

definition items_ok :: "(str \<Rightarrow> str list option) \<Rightarrow> (str \<times> str list) list \<Rightarrow> bool" where
  "items_ok f items \<longleftrightarrow> (\<forall>(x, imps) \<in> set items. f x = Some imps)"

lemma set_ok_items: "set_ok f s \<Longrightarrow> items_ok f (scopes_to_implicants s)"
  by (simp add: set_ok_def index_ok_def items_ok_def)

lemma items_ok_filter: "items_ok f items \<Longrightarrow> items_ok f (filter P items)"
  by (auto simp: items_ok_def)

lemma has_some_implicant: "f x = Some imps \<Longrightarrow> has_some_scope s imps \<longleftrightarrow> covers f s x"
  by (auto simp: has_some_scope_iff covers_def imp_of_def)

lemma item_implicant:
  assumes "items_ok f items" "(x, imps) \<in> set items"
  shows "has_some_scope s imps \<longleftrightarrow> covers f s x"
  by (rule has_some_implicant) (use assms in \<open>auto simp: items_ok_def\<close>)

lemma filter_items:
  assumes "items_ok f items"
  shows "map fst (filter (\<lambda>(_, imps). has_some_scope s imps) items) =
      filter (covers f s) (map fst items)"
    and "map fst (filter (\<lambda>(_, imps). \<not> has_some_scope s imps) items) =
      filter (\<lambda>x. \<not> covers f s x) (map fst items)"
proof -
  have e: "filter (\<lambda>(_, imps). has_some_scope s imps) items = filter (\<lambda>p. covers f s (fst p)) items"
    "filter (\<lambda>(_, imps). \<not> has_some_scope s imps) items = filter (\<lambda>p. \<not> covers f s (fst p)) items"
    by (auto intro!: filter_cong simp: item_implicant [OF assms])
  show "map fst (filter (\<lambda>(_, imps). has_some_scope s imps) items) =
      filter (covers f s) (map fst items)"
    unfolding e by (simp add: filter_map comp_def)
  show "map fst (filter (\<lambda>(_, imps). \<not> has_some_scope s imps) items) =
      filter (\<lambda>x. \<not> covers f s x) (map fst items)"
    unfolding e by (simp add: filter_map comp_def)
qed

lemma contains_covers:
  assumes "set_ok f other"
  shows "contains s other \<longleftrightarrow> (\<forall>x \<in> set (scope_values other). covers f s x)"
  using item_implicant [OF set_ok_items [OF assms]]
  unfolding contains_def list_all_iff scope_values_def by fastforce

lemma empty_ok [simp]: "set_ok f empty_scopes" "scope_values empty_scopes = []"
  by (simp_all add: set_ok_def index_ok_def antichain_def scope_values_def empty_scopes_def
      implied_by_def)

locale implication =
  fixes f :: "str \<Rightarrow> str list option"
  assumes self: "f b = Some bs \<Longrightarrow> b \<in> set bs"
    and step: "f c = Some cs \<Longrightarrow> b \<in> set cs \<Longrightarrow> f b = Some bs \<Longrightarrow> set bs \<subseteq> set cs"
begin

lemma imp_trans: "imp_of f a b \<Longrightarrow> imp_of f b c \<Longrightarrow> imp_of f a c"
  using step by (fastforce simp: imp_of_def)

lemma covers_imp: "covers f s a \<Longrightarrow> imp_of f a b \<Longrightarrow> covers f s b"
  using imp_trans by (auto simp: covers_def)

lemma valid_value:
  assumes "set_ok f s" "a \<in> set (scope_values s)"
  obtains imps where "f a = Some imps" "a \<in> set imps"
  using assms self by (auto simp: set_ok_def index_ok_def scope_values_def)

lemma covers_member: "set_ok f s \<Longrightarrow> a \<in> set (scope_values s) \<Longrightarrow> covers f s a"
  by (rule valid_value [of s a]) (auto simp: covers_def imp_of_def)

lemma add_scope_ok:
  assumes ok: "set_ok f s" and x: "f x = Some imps"
  shows "set_ok f (add_scope x imps s) \<and> scope_values (add_scope x imps s) =
    (if covers f s x then scope_values s
     else filter (\<lambda>t. \<not> imp_of f x t) (scope_values s) @ [x])"
proof (cases "covers f s x")
  case True
  then show ?thesis using ok by (simp add: add_scope_def has_some_implicant [of f, OF x])
next
  case False
  have i: "index_ok f s" and anti: "antichain f (scope_values s)"
    using ok by (simp_all add: set_ok_def)
  have gone: "set (implied_by (implicants_to_scopes s) x) =
      {t \<in> set (scope_values s). imp_of f x t}"
    using index_okD(3) [OF i] by blast
  define t where "t = fold remove_scope (implied_by (implicants_to_scopes s) x) s"
  have t: "index_ok f t" "scope_values t = filter (\<lambda>y. \<not> imp_of f x y) (scope_values s)"
    using remove_scopes_ok [OF i] gone unfolding t_def by (auto intro: filter_cong)
  define r where "r = add_scope x imps s"
  have xs: "x \<notin> set (scope_values s)" using False covers_member [OF ok] by blast
  then have xt: "x \<notin> set (map fst (scopes_to_implicants t))"
    using t(2) by (simp add: scope_values_def)
  have r: "scopes_to_implicants r = scopes_to_implicants t @ [(x, imps)]"
    "implicants_to_scopes r = fold (index_under x) imps (implicants_to_scopes t)"
    using False dict_set_new [OF xt]
    by (simp_all add: r_def add_scope_def has_some_implicant [of f, OF x] t_def [symmetric] Let_def)
  have v: "scope_values r = filter (\<lambda>y. \<not> imp_of f x y) (scope_values s) @ [x]"
    using r(1) t(2) by (simp add: scope_values_def)
  have "y \<in> set (implied_by (implicants_to_scopes r) j) \<longleftrightarrow> y \<in> set (scope_values r) \<and> imp_of f j y"
    for y j
    using index_okD(3) [OF t(1), of y j] x v t(2)
    by (auto simp: r(2) implied_by_indexes imp_of_def)
  moreover have "map_of (implicants_to_scopes r) j \<noteq> Some []" for j
    using no_empty_indexes index_okD(4) [OF t(1)] by (auto simp: r(2))
  moreover have "\<forall>(y, js) \<in> set (scopes_to_implicants r). f y = Some js"
    using t(1) x by (auto simp: r(1) index_ok_def)
  moreover have "distinct (scope_values r)" using v xs index_okD(1) [OF i] by simp
  ultimately have "index_ok f r" by (simp add: index_ok_def)
  moreover have "antichain f (scope_values r)"
    using anti False v by (auto simp: antichain_def covers_def)
  ultimately show ?thesis using v False by (simp add: set_ok_def r_def)
qed

lemma covers_add:
  assumes "set_ok f s" and "f x = Some imps"
  shows "covers f (add_scope x imps s) z \<longleftrightarrow> covers f s z \<or> imp_of f x z"
proof (cases "covers f s x")
  case True
  then show ?thesis
    using add_scope_ok [OF assms] covers_imp [OF True] by (auto simp: covers_def)
next
  case False
  have v: "scope_values (add_scope x imps s) =
      filter (\<lambda>t. \<not> imp_of f x t) (scope_values s) @ [x]"
    using add_scope_ok [OF assms] False by simp
  show ?thesis
  proof
    assume "covers f (add_scope x imps s) z"
    then show "covers f s z \<or> imp_of f x z" by (auto simp: covers_def v)
  next
    assume "covers f s z \<or> imp_of f x z"
    then show "covers f (add_scope x imps s) z"
      using imp_trans by (fastforce simp: covers_def v)
  qed
qed

lemma add_all_ok:
  assumes "set_ok f s" and "items_ok f items"
  shows "set_ok f (add_all items s)"
    and "covers f (add_all items s) z \<longleftrightarrow> covers f s z \<or> (\<exists>x \<in> set (map fst items). imp_of f x z)"
    and "set (scope_values (add_all items s)) \<subseteq> set (scope_values s) \<union> set (map fst items)"
proof -
  have "set_ok f (add_all items s) \<and>
    (\<forall>z. covers f (add_all items s) z \<longleftrightarrow>
       covers f s z \<or> (\<exists>x \<in> set (map fst items). imp_of f x z)) \<and>
    set (scope_values (add_all items s)) \<subseteq> set (scope_values s) \<union> set (map fst items)"
    using assms
  proof (induction items arbitrary: s)
    case Nil
    then show ?case by (simp add: add_all_def)
  next
    case (Cons p items)
    obtain x imps where p: "p = (x, imps)" by (cases p)
    have x: "f x = Some imps" and it: "items_ok f items"
      using Cons.prems(2) by (simp_all add: items_ok_def p)
    have ok: "set_ok f (add_scope x imps s)" using add_scope_ok [OF Cons.prems(1) x] by simp
    have vs: "set (scope_values (add_scope x imps s)) \<subseteq> insert x (set (scope_values s))"
      using add_scope_ok [OF Cons.prems(1) x] by (auto split: if_splits)
    have "add_all (p # items) s = add_all items (add_scope x imps s)" by (simp add: add_all_def p)
    then show ?case
      using Cons.IH [OF ok it] covers_add [OF Cons.prems(1) x] vs p by auto
  qed
  then show "set_ok f (add_all items s)"
    "covers f (add_all items s) z \<longleftrightarrow> covers f s z \<or> (\<exists>x \<in> set (map fst items). imp_of f x z)"
    "set (scope_values (add_all items s)) \<subseteq> set (scope_values s) \<union> set (map fst items)" by auto
qed

lemma add_all_antichain:
  assumes "set_ok f s" "items_ok f items" "distinct (scope_values s @ map fst items)"
    "antichain f (scope_values s @ map fst items)"
  shows "scope_values (add_all items s) = scope_values s @ map fst items"
  using assms
proof (induction items arbitrary: s)
  case Nil
  then show ?case by (simp add: add_all_def)
next
  case (Cons p items)
  obtain x imps where p: "p = (x, imps)" by (cases p)
  have x: "f x = Some imps" and it: "items_ok f items"
    using Cons.prems(2) by (simp_all add: items_ok_def p)
  have "\<not> covers f s x" and "filter (\<lambda>t. \<not> imp_of f x t) (scope_values s) = scope_values s"
    using Cons.prems(3,4) by (auto simp: covers_def antichain_def p intro!: filter_True)
  then have v: "set_ok f (add_scope x imps s)"
    "scope_values (add_scope x imps s) = scope_values s @ [x]"
    using add_scope_ok [OF Cons.prems(1) x] by simp_all
  have "add_all (p # items) s = add_all items (add_scope x imps s)" by (simp add: add_all_def p)
  then show ?case using Cons.IH [OF v(1) it] Cons.prems(3,4) v(2) p by simp
qed

end

lemma antichain_filter: "antichain f vs \<Longrightarrow> antichain f (filter P vs)"
  by (simp add: antichain_def)

lemma set_okD: "set_ok f s \<Longrightarrow> distinct (scope_values s)" "set_ok f s \<Longrightarrow> antichain f (scope_values s)"
  by (simp_all add: set_ok_def index_ok_def)

context implication
begin

lemma rebuild_ok:
  assumes "set_ok f s" and "map fst items = filter P (scope_values s)" and "items_ok f items"
  shows "set_ok f (add_all items empty_scopes) \<and>
    scope_values (add_all items empty_scopes) = filter P (scope_values s)"
  using add_all_ok(1) [OF empty_ok(1) assms(3)] add_all_antichain [OF empty_ok(1) assms(3)]
    set_okD [OF assms(1)] antichain_filter [of f "scope_values s" P] assms(2)
  by simp

lemma filtered_ok:
  assumes "set_ok f s"
  shows "set_ok f (filtered s other)"
    and "scope_values (filtered s other) = filter (covers f other) (scope_values s)"
  using rebuild_ok [OF assms, where P = "covers f other"] filter_items(1) [OF set_ok_items [OF assms]]
    items_ok_filter [OF set_ok_items [OF assms]]
  by (simp_all add: filtered_def scope_values_def)

lemma difference_ok:
  assumes "set_ok f s"
  shows "set_ok f (difference s other)"
    and "scope_values (difference s other) = filter (\<lambda>x. \<not> covers f other x) (scope_values s)"
  using rebuild_ok [OF assms, where P = "\<lambda>x. \<not> covers f other x"]
    filter_items(2) [OF set_ok_items [OF assms]] items_ok_filter [OF set_ok_items [OF assms]]
  by (simp_all add: difference_def scope_values_def)

lemma covers_items:
  assumes "set_ok f s"
  shows "(\<exists>x \<in> set (map fst (scopes_to_implicants s)). imp_of f x z) \<longleftrightarrow> covers f s z"
  by (simp add: covers_def scope_values_def)

lemma union_ok:
  assumes "set_ok f s" "set_ok f other"
  shows "set_ok f (union_scopes s other)"
    and "covers f (union_scopes s other) z \<longleftrightarrow> covers f s z \<or> covers f other z"
    and "set (scope_values (union_scopes s other)) \<subseteq> set (scope_values s) \<union> set (scope_values other)"
proof -
  let ?s = "add_all (scopes_to_implicants s) empty_scopes"
  note i = add_all_ok [OF empty_ok(1) set_ok_items [OF assms(1)]]
  note o = add_all_ok [OF i(1) set_ok_items [OF assms(2)]]
  show "set_ok f (union_scopes s other)" using o(1) by (simp add: union_scopes_def)
  have "covers f empty_scopes z = False" by (simp add: covers_def)
  then show "covers f (union_scopes s other) z \<longleftrightarrow> covers f s z \<or> covers f other z"
    using o(2) [of z] i(2) [of z] covers_items [OF assms(1)] covers_items [OF assms(2)]
    by (simp add: union_scopes_def)
  show "set (scope_values (union_scopes s other)) \<subseteq> set (scope_values s) \<union> set (scope_values other)"
    using o(3) i(3) empty_ok(2)
    unfolding union_scopes_def scope_values_def [of s] scope_values_def [of other] by auto
qed

lemma contains_refl: "set_ok f s \<Longrightarrow> contains s s"
  using covers_member by (simp add: contains_covers)

lemma covers_contains:
  assumes "set_ok f other" "contains s other" "covers f other z"
  shows "covers f s z"
  using assms covers_imp [of s] by (auto simp: contains_covers covers_def [of f other])

lemma contains_trans:
  assumes "set_ok f b" "set_ok f c" "contains a b" "contains b c"
  shows "contains a c"
  using assms covers_contains [OF assms(1,3)] by (simp add: contains_covers)

lemma contains_filtered:
  assumes "set_ok f s"
  shows "contains other (filtered s other)" "contains s (filtered s other)"
  using filtered_ok(2) [OF assms, of other] covers_member [OF assms]
  unfolding contains_covers [OF filtered_ok(1) [OF assms]] by simp_all

end

subsection \<open>Parsing back\<close>

lemma add_values_all:
  "add_values vs s =
     (if \<forall>v \<in> set vs. implicants v \<noteq> None
      then Some (add_all (map (\<lambda>v. (v, the (implicants v))) vs) s) else None)"
  by (induction vs arbitrary: s) (auto simp: add_all_def split: option.splits)

lemma short_parents_mem:
  "a \<in> set (short_parents w names) \<longleftrightarrow>
     (\<exists>n. 1 \<le> n \<and> n \<le> length names \<and>
        (a = join '':'' (take n names) @ '':write'' \<or> \<not> w \<and> a = join '':'' (take n names)))"
  by (auto simp: short_parents_def prefixes_down_def)

lemma url_parents_mem:
  "a \<in> set (url_parents netloc segs frag) \<longleftrightarrow>
     (\<exists>n. 2 \<le> n \<and> n \<le> length segs \<and>
        (a = url_origin netloc @ join ''/'' (take n segs) \<or>
         frag \<noteq> [] \<and> a = url_origin netloc @ join ''/'' (take n segs) @ frag))"
  by (auto simp: url_parents_def prefixes_down_def)

lemma join_snoc: "ws \<noteq> [] \<Longrightarrow> join sep (ws @ [w]) = join sep ws @ sep @ w"
proof (induction ws)
  case (Cons v ws)
  then show ?case by (cases "ws = []") (simp_all add: join_Cons)
qed simp

lemma startswith_append_iff: "startswith s p \<longleftrightarrow> (\<exists>t. s = p @ t)"
  by (induction s p rule: startswith.induct) auto

lemma join_colon_https:
  assumes "\<forall>w \<in> set ws. CHR '':'' \<notin> set w" "startswith (join '':'' ws) ''https:''"
  shows "2 \<le> length ws \<and> hd ws = ''https''"
proof (cases ws)
  case Nil
  then show ?thesis using assms(2) by simp
next
  case (Cons w vs)
  obtain t where t: "join '':'' ws = ''https'' @ CHR '':'' # t"
    using assms(2) by (auto simp: startswith_append_iff)
  have "split CHR '':'' (join '':'' ws) = ws"
    by (rule split_join) (use assms(1) Cons in auto)
  then have "ws = ''https'' # split CHR '':'' t" using split_append [of "CHR '':''" "''https''" t] t by simp
  then show ?thesis by (cases "split CHR '':'' t") simp_all
qed

lemma partition_parts:
  assumes "partition c s = (a, b, r)"
  shows "c \<notin> set a" "set r \<subseteq> set s" "set a \<subseteq> set s" "b \<longleftrightarrow> c \<in> set s"
    "s = a \<and> r = [] \<or> s = a @ c # r"
proof -
  have "c \<notin> set a \<and> set r \<subseteq> set s \<and> set a \<subseteq> set s \<and> (b \<longleftrightarrow> c \<in> set s) \<and>
    (s = a \<and> r = [] \<or> s = a @ c # r)"
  proof (cases "c \<in> set s")
    case False
    then show ?thesis using assms by (auto simp: partition_absent)
  next
    case True
    then obtain u v where uv: "s = u @ c # v" "c \<notin> set u"
      by (rule split_list_first [THEN exE]) blast
    have "partition c s = (u, True, v)" unfolding uv(1) by (rule partition_append) (rule uv(2))
    then have "a = u" "b" "r = v" using assms by simp_all
    then show ?thesis using uv by (simp add: subset_insertI2)
  qed
  then show "c \<notin> set a" "set r \<subseteq> set s" "set a \<subseteq> set s" "b \<longleftrightarrow> c \<in> set s"
    "s = a \<and> r = [] \<or> s = a @ c # r" by auto
qed

definition plain_char :: "char \<Rightarrow> bool" where
  "plain_char c \<longleftrightarrow> ord c \<notin> {9, 10, 13}"

definition stop_char :: "char \<Rightarrow> bool" where
  "stop_char c \<longleftrightarrow> c \<in> {CHR ''/'', CHR ''?'', CHR ''#''}"

definition parts_shape :: "str \<Rightarrow> str \<Rightarrow> str \<Rightarrow> bool" where
  "parts_shape netloc path frag \<longleftrightarrow>
     list_all plain_char (netloc @ path @ frag) \<and>
     (\<forall>c \<in> set netloc. \<not> stop_char c \<and> c \<notin> {CHR ''['', CHR '']''}) \<and>
     CHR ''?'' \<notin> set path \<and> CHR ''#'' \<notin> set path"

lemma urlsplit_https_shape:
  assumes "urlsplit_https v = Some (netloc, path, query, frag)"
  shows "parts_shape netloc path frag" "netloc \<noteq> [] \<Longrightarrow> path = [] \<or> hd path = CHR ''/''"
proof -
  define rest where "rest = filter (\<lambda>c. ord c \<notin> {9, 10, 13}) (drop 6 v)"
  define body where "body = drop 2 rest"
  let ?stops = "\<lambda>c. c \<notin> {CHR ''/'', CHR ''?'', CHR ''#''}"
  obtain nl tl where nt: "(nl, tl) = (if startswith rest ''//''
      then (takeWhile ?stops body, dropWhile ?stops body) else ([], rest))"
    by (cases "startswith rest ''//''") auto
  have v: "urlsplit_https v = (if CHR ''['' \<in> set nl \<or> CHR '']'' \<in> set nl then None
      else (let (bf, _, fragment) = partition CHR ''#'' tl; (p, _, q) = partition CHR ''?'' bf
            in Some (nl, p, q, fragment)))"
    unfolding urlsplit_https_def Let_def rest_def [symmetric] body_def [symmetric]
      nt [symmetric] by simp
  obtain bf x where bf: "partition CHR ''#'' tl = (bf, x, frag)"
    and "\<exists>x'. partition CHR ''?'' bf = (path, x', query)" and nl: "nl = netloc"
    and br: "CHR ''['' \<notin> set nl" "CHR '']'' \<notin> set nl"
    using assms unfolding v by (auto simp: Let_def split: if_splits prod.splits)
  then obtain x' where pq: "partition CHR ''?'' bf = (path, x', query)" by blast
  note b = partition_parts [OF bf] and q = partition_parts [OF pq]
  have plain: "\<forall>c \<in> set rest. plain_char c" by (auto simp: rest_def plain_char_def)
  have parts: "set nl \<subseteq> set rest" "set tl \<subseteq> set rest"
    using nt by (auto simp: body_def split: if_splits
        dest!: set_takeWhileD set_dropWhileD in_set_dropD)
  have stop: "\<forall>c \<in> set nl. \<not> stop_char c"
    using nt by (auto simp: stop_char_def split: if_splits dest!: set_takeWhileD)
  show "parts_shape netloc path frag"
    using parts plain stop b q br nl by (auto simp: parts_shape_def list_all_iff)
  show "path = [] \<or> hd path = CHR ''/''" if "netloc \<noteq> []"
  proof (cases path)
    case (Cons c w)
    then have "hd tl = c" "tl \<noteq> []" using b(5) q(5) by auto
    moreover have "tl = dropWhile ?stops body" using nt that nl by (auto split: if_splits)
    ultimately have "c \<in> {CHR ''/'', CHR ''?'', CHR ''#''}" using hd_dropWhile [of ?stops body] by auto
    then show ?thesis using Cons b(1) q(1,3) by auto
  qed simp
qed

lemma urlsplit_https_of:
  assumes "parts_shape netloc path frag" "path \<noteq> []" "hd path = CHR ''/''"
  shows "urlsplit_https (url_origin netloc @ path @ (if frag \<noteq> [] then CHR ''#'' # frag else [])) =
    Some (netloc, path, [], frag)"
proof -
  let ?h = "if frag \<noteq> [] then CHR ''#'' # frag else []"
  let ?stops = "\<lambda>c. c \<notin> {CHR ''/'', CHR ''?'', CHR ''#''}"
  obtain w where p: "path = CHR ''/'' # w" using assms(2,3) by (cases path) auto
  have pc: "(\<lambda>c. ord c \<notin> {9, 10, 13}) = plain_char" by (simp add: fun_eq_iff plain_char_def)
  have "list_all plain_char (netloc @ path @ ?h)"
    using assms(1) by (simp add: parts_shape_def plain_char_def ord_def)
  then have "filter plain_char (netloc @ path @ ?h) = netloc @ path @ ?h"
    by (intro filter_True) (simp add: list_all_iff)
  moreover have "plain_char (CHR ''/'')" by (simp add: plain_char_def ord_def)
  moreover have "drop 6 (url_origin netloc @ path @ ?h) = CHR ''/'' # CHR ''/'' # netloc @ path @ ?h"
    by (simp add: url_origin_def)
  ultimately have r: "filter (\<lambda>c. ord c \<notin> {9, 10, 13}) (drop 6 (url_origin netloc @ path @ ?h)) =
      CHR ''/'' # CHR ''/'' # netloc @ path @ ?h"
    unfolding pc by (simp only: filter.simps if_True)
  have st: "\<forall>c \<in> set netloc. ?stops c" using assms(1) by (auto simp: parts_shape_def stop_char_def)
  have tw: "takeWhile ?stops (netloc @ path @ ?h) = netloc"
    "dropWhile ?stops (netloc @ path @ ?h) = path @ ?h"
    using st by (simp_all add: p takeWhile_append2 dropWhile_append2)
  have f: "partition CHR ''#'' (path @ ?h) = (path, frag \<noteq> [], frag)"
    using assms(1) partition_append [of "CHR ''#''" path] partition_absent [of "CHR ''#''" path]
    by (simp add: parts_shape_def)
  have q: "partition CHR ''?'' path = (path, False, [])"
    using assms(1) by (intro partition_absent) (simp add: parts_shape_def)
  have br: "CHR ''['' \<notin> set netloc" "CHR '']'' \<notin> set netloc"
    using assms(1) by (auto simp: parts_shape_def)
  show ?thesis
    unfolding urlsplit_https_def Let_def r
    using tw f q br by simp
qed

subsection \<open>The implication of the code\<close>

text \<open>What a value that has implicants looks like, for both spellings.\<close>

lemma short_implicants_Some:
  assumes "short_implicants v = Some imps"
  obtains (writes) ns where "split CHR '':'' v = ns @ [''write'']" "ns \<noteq> []" "imps = short_parents True ns"
  | (plain) "last (split CHR '':'' v) \<noteq> ''write''" "imps = short_parents False (split CHR '':'' v)"
proof (cases "last (split CHR '':'' v) = ''write''")
  case True
  then have "split CHR '':'' v = butlast (split CHR '':'' v) @ [''write'']"
    using append_butlast_last_id [of "split CHR '':'' v"] by simp
  moreover have "butlast (split CHR '':'' v) \<noteq> [] \<and> imps = short_parents True (butlast (split CHR '':'' v))"
    using assms True by (simp add: short_implicants_def Let_def split: if_splits)
  ultimately show ?thesis using writes by blast
next
  case False
  then show ?thesis
    using assms plain by (simp add: short_implicants_def Let_def split: if_splits)
qed

lemma url_implicants_Some:
  assumes "url_implicants v = Some imps"
  obtains netloc path frag where "urlsplit_https v = Some (netloc, path, [], frag)"
    "parts_shape netloc path frag" "path \<noteq> []" "hd path = CHR ''/''"
    "v = url_origin netloc @ path @ (if frag \<noteq> [] then CHR ''#'' # frag else [])"
    "imps = url_parents netloc (split CHR ''/'' path) (if frag \<noteq> [] then CHR ''#'' # frag else [])"
proof -
  have "urlsplit_https v \<noteq> None"
  proof
    assume "urlsplit_https v = None"
    then have "url_implicants v = None" unfolding url_implicants_def by simp
    then show False using assms by simp
  qed
  then obtain t where t: "urlsplit_https v = Some t" by blast
  obtain netloc path query frag where "t = (netloc, path, query, frag)" by (cases t)
  with t have u: "urlsplit_https v = Some (netloc, path, query, frag)" by simp
  let ?h = "if frag \<noteq> [] then CHR ''#'' # frag else []"
  have ok: "url_parts_ok netloc path query" and v: "url_origin netloc @ path @ ?h = v"
    and i: "imps = url_parents netloc (split CHR ''/'' path) ?h"
    using assms unfolding url_implicants_def u by (simp_all add: Let_def split: if_splits)
  have q: "query = []" "netloc \<noteq> []" "path \<noteq> []" using ok by (simp_all add: url_parts_ok_def)
  show ?thesis
  proof (rule that [of netloc path frag])
    show "urlsplit_https v = Some (netloc, path, [], frag)" using u q(1) by simp
    show "parts_shape netloc path frag" by (rule urlsplit_https_shape(1) [OF u])
    show "path \<noteq> []" by (rule q(3))
    show "hd path = CHR ''/''" using urlsplit_https_shape(2) [OF u q(2)] q(3) by blast
    show "v = url_origin netloc @ path @ ?h" by (rule v [symmetric])
    show "imps = url_parents netloc (split CHR ''/'' path) ?h" by (rule i)
  qed
qed

lemma implicants_self:
  assumes "implicants b = Some bs"
  shows "b \<in> set bs"
proof (cases "startswith b ''https:''")
  case False
  then obtain imps where i: "short_implicants b = Some imps" "set bs = set imps"
    using assms by (auto simp: implicants_def implicant_values_def)
  from i(1) show ?thesis
  proof (cases rule: short_implicants_Some)
    case (writes ns)
    have "b = join '':'' (ns @ [''write''])" using join_split [of "CHR '':''" b] writes(1) by simp
    then have "b = join '':'' (take (length ns) ns) @ '':write''" using writes(2) by (simp add: join_snoc)
    moreover have "1 \<le> length ns" using writes(2) by (cases ns) simp_all
    ultimately show ?thesis using i(2) writes(3) by (auto simp: short_parents_mem)
  next
    case plain
    let ?ns = "split CHR '':'' b"
    have "b = join '':'' (take (length ?ns) ?ns)" using join_split [of "CHR '':''" b] by simp
    moreover have "1 \<le> length ?ns" by (cases ?ns) simp_all
    ultimately show ?thesis using i(2) plain(2) by (auto simp: short_parents_mem)
  qed
next
  case True
  then obtain imps where i: "url_implicants b = Some imps" "set bs = set imps"
    using assms by (auto simp: implicants_def implicant_values_def)
  from i(1) obtain netloc path frag where
    p: "path \<noteq> []" "hd path = CHR ''/''"
    and v: "b = url_origin netloc @ path @ (if frag \<noteq> [] then CHR ''#'' # frag else [])"
    and imps: "imps = url_parents netloc (split CHR ''/'' path)
      (if frag \<noteq> [] then CHR ''#'' # frag else [])"
    by (rule url_implicants_Some)
  obtain w where w: "path = CHR ''/'' # w" using p by (cases path) auto
  let ?ss = "split CHR ''/'' path"
  have "2 \<le> length ?ss" using w by (cases "split CHR ''/'' w") simp_all
  moreover have "join ''/'' (take (length ?ss) ?ss) = path" by (simp add: join_split)
  ultimately show ?thesis
    using i(2) imps v by (auto simp: url_parents_mem intro!: exI [of _ "length ?ss"])
qed

lemma implicants_cases:
  assumes "implicants b = Some bs"
  obtains (short) imps where "\<not> startswith b ''https:''" "short_implicants b = Some imps" "set bs = set imps"
  | (url) imps where "startswith b ''https:''" "url_implicants b = Some imps" "set bs = set imps"
  using assms by (cases "startswith b ''https:''") (auto simp: implicants_def implicant_values_def)

lemma short_parents_mono:
  assumes "\<exists>k. ms = take k ns" "w \<or> \<not> v"
  shows "set (short_parents w ms) \<subseteq> set (short_parents v ns)"
proof
  fix a
  assume "a \<in> set (short_parents w ms)"
  then obtain n where n: "1 \<le> n" "n \<le> length ms"
    "a = join '':'' (take n ms) @ '':write'' \<or> \<not> w \<and> a = join '':'' (take n ms)"
    unfolding short_parents_mem by blast
  moreover obtain k where "ms = take k ns" using assms(1) by blast
  ultimately have "take n ms = take n ns" "n \<le> length ns" by (simp_all add: min_def split: if_splits)
  then show "a \<in> set (short_parents v ns)"
    using n assms(2) unfolding short_parents_mem by auto
qed

lemma url_https_write: "url_implicants ''https:write'' = None"
  by code_simp

lemma split_take:
  assumes "0 < n" "n \<le> length (split c s)"
  shows "split c (join [c] (take n (split c s))) = take n (split c s)"
proof (rule split_join)
  show "\<forall>w \<in> set (take n (split c s)). c \<notin> set w" by (auto dest!: in_set_takeD split_parts)
  show "take n (split c s) \<noteq> []" using assms by simp
qed

text \<open>
  The names of a short value with a name \<open>write\<close> appended or not: whatever \<open>b\<close> is, its
  implicants lie below the prefix it was made from.
\<close>

lemma short_step:
  assumes ns: "\<forall>w \<in> set ns. CHR '':'' \<notin> set w" "ns \<noteq> []"
    and no_url: "\<not> startswith (join '':'' ns) ''https:''"
    and n: "1 \<le> n" "n \<le> length ns"
    and b: "b = join '':'' (take n ns) @ '':write'' \<or> \<not> v \<and> b = join '':'' (take n ns)"
    and bs: "implicants b = Some bs"
  shows "set bs \<subseteq> set (short_parents v ns)"
proof -
  let ?ms = "take n ns"
  have ms: "\<forall>w \<in> set ?ms. CHR '':'' \<notin> set w" "?ms \<noteq> []"
    using ns n by (auto dest: in_set_takeD)
  have sw: "split CHR '':'' (join '':'' (?ms @ [''write''])) = ?ms @ [''write'']"
    by (rule split_join) (use ms in auto)
  have sp: "split CHR '':'' (join '':'' ?ms) = ?ms" by (rule split_join) (use ms in auto)
  have jw: "join '':'' ?ms @ '':write'' = join '':'' (?ms @ [''write''])" using ms(2) by (simp add: join_snoc)
  from bs show ?thesis
  proof (cases rule: implicants_cases)
    case (short imps)
    show ?thesis
    proof (cases "b = join '':'' ?ms @ '':write''")
      case True
      then have "split CHR '':'' b = ?ms @ [''write'']" using sw jw by simp
      then have "imps = short_parents True ?ms"
        using short(2) by (simp add: short_implicants_def Let_def split: if_splits)
      then show ?thesis using short(3) short_parents_mono [of ?ms ns True v] by blast
    next
      case False
      then have v: "\<not> v" and "split CHR '':'' b = ?ms" using b sp by auto
      from short(2) show ?thesis
      proof (cases rule: short_implicants_Some)
        case (writes ks)
        then have "ks = take (n - 1) ns"
          using \<open>split CHR '':'' b = ?ms\<close> n by (metis butlast_snoc butlast_take)
        then show ?thesis using short(3) writes(3) short_parents_mono [of ks ns True v] by blast
      next
        case plain
        then show ?thesis
          using short(3) \<open>split CHR '':'' b = ?ms\<close> v short_parents_mono [of ?ms ns False v] by auto
      qed
    qed
  next
    case (url imps)
    have prefix: "\<not> (2 \<le> n \<and> hd ns = ''https'')"
    proof
      assume "2 \<le> n \<and> hd ns = ''https''"
      then obtain k ks where "ns = ''https'' # k # ks" using n by (cases ns; cases "tl ns") auto
      then show False using no_url by simp
    qed
    show ?thesis
    proof (cases "b = join '':'' ?ms @ '':write''")
      case True
      have "2 \<le> length (?ms @ [''write'']) \<and> hd (?ms @ [''write'']) = ''https''"
        by (rule join_colon_https) (use ms url(1) True jw in auto)
      then have "hd ns = ''https''" using ms(2) n by (cases ns) (auto simp: take_Cons')
      then have "n = 1" using prefix n by auto
      then have "?ms = [''https'']" using \<open>hd ns = ''https''\<close> ns(2) by (cases ns) auto
      then show ?thesis using True url(2) url_https_write by simp
    next
      case False
      then have "b = join '':'' ?ms" using b by blast
      then have "2 \<le> length ?ms \<and> hd ?ms = ''https''"
        using join_colon_https [OF ms(1)] url(1) by simp
      then show ?thesis using prefix n by (cases ns) (auto simp: take_Cons')
    qed
  qed
qed

lemma short_implicants_step:
  assumes "\<not> startswith c ''https:''" "short_implicants c = Some cs" "b \<in> set cs"
    "implicants b = Some bs"
  shows "set bs \<subseteq> set cs"
  using assms(2)
proof (cases rule: short_implicants_Some)
  case (writes ns)
  have c: "c = join '':'' ns @ '':write''"
    using join_split [of "CHR '':''" c] writes(1,2) by (simp add: join_snoc)
  have "\<forall>w \<in> set ns. CHR '':'' \<notin> set w"
    using split_parts [of _ "CHR '':''" c] writes(1) by simp
  moreover have "\<not> startswith (join '':'' ns) ''https:''"
    using assms(1) c by (auto simp: startswith_append_iff)
  ultimately show ?thesis
    using assms(3,4) writes(2,3) short_step [of ns _ b True bs]
    by (auto simp: short_parents_mem [of b])
next
  case plain
  let ?ns = "split CHR '':'' c"
  have "\<not> startswith (join '':'' ?ns) ''https:''" using assms(1) by (simp add: join_split)
  moreover have "\<forall>w \<in> set ?ns. CHR '':'' \<notin> set w" using split_parts by blast
  ultimately show ?thesis
    using assms(3,4) plain(2) short_step [of ?ns _ b False bs]
    by (auto simp: short_parents_mem [of b])
qed

lemma url_parents_mono:
  assumes "g = [] \<or> g = frag" "n \<le> length segs"
  shows "set (url_parents netloc (take n segs) g) \<subseteq> set (url_parents netloc segs frag)"
proof
  fix a
  assume "a \<in> set (url_parents netloc (take n segs) g)"
  then obtain k where k: "2 \<le> k" "k \<le> length (take n segs)"
    "a = url_origin netloc @ join ''/'' (take k (take n segs)) \<or>
     g \<noteq> [] \<and> a = url_origin netloc @ join ''/'' (take k (take n segs)) @ g"
    unfolding url_parents_mem by blast
  then have "k \<le> n" by simp
  then have "take k (take n segs) = take k segs" by (simp add: min_absorb1)
  with k have k: "2 \<le> k" "k \<le> n"
    "a = url_origin netloc @ join ''/'' (take k segs) \<or>
     g \<noteq> [] \<and> a = url_origin netloc @ join ''/'' (take k segs) @ g"
    using \<open>k \<le> n\<close> by simp_all
  then show "a \<in> set (url_parents netloc segs frag)"
    using assms unfolding url_parents_mem by (auto intro!: exI [of _ k])
qed

lemma set_join_sub: "set (join sep ws) \<subseteq> set sep \<union> (\<Union>w \<in> set ws. set w)"
proof (induction ws)
  case (Cons w ws)
  then show ?case by (cases ws) auto
qed simp

lemma set_join_split_take: "set (join [c] (take n (split c s))) \<subseteq> insert c (set s)"
proof -
  have "w \<in> set (split c s) \<Longrightarrow> set w \<subseteq> set s" for w
  proof (induction s arbitrary: w)
    case (Cons x s)
    then show ?case by (cases "split c s") (force split: if_splits)+
  qed simp
  then show ?thesis using set_join_sub [of "[c]" "take n (split c s)"]
    by (fastforce dest: in_set_takeD)
qed

lemma url_implicants_step:
  assumes "url_implicants c = Some cs" "b \<in> set cs" "implicants b = Some bs"
  shows "set bs \<subseteq> set cs"
  using assms(1)
proof (rule url_implicants_Some)
  fix netloc path frag
  let ?h = "if frag \<noteq> [] then CHR ''#'' # frag else []"
  let ?ss = "split CHR ''/'' path"
  assume shape: "parts_shape netloc path frag" and p: "path \<noteq> []" "hd path = CHR ''/''"
    and cs: "cs = url_parents netloc ?ss ?h"
  obtain n where n: "2 \<le> n" "n \<le> length ?ss"
    and b: "b = url_origin netloc @ join ''/'' (take n ?ss) \<or>
      frag \<noteq> [] \<and> b = url_origin netloc @ join ''/'' (take n ?ss) @ CHR ''#'' # frag"
    using assms(2) unfolding cs url_parents_mem by (auto split: if_splits)
  let ?p = "join ''/'' (take n ?ss)"
  obtain w where w: "path = CHR ''/'' # w" using p by (cases path) auto
  obtain m where m: "n = Suc (Suc m)" using n(1) using le_Suc_ex [of 2 n] by auto
  have take: "take n ?ss = [] # take (Suc m) (split CHR ''/'' w)" by (simp add: w m)
  have hp: "?p \<noteq> []" "hd ?p = CHR ''/''"
    by (simp_all add: take join_Cons)
  have "set ?p \<subseteq> insert (CHR ''/'') (set path)" by (rule set_join_split_take)
  then have sub: "set ?p \<subseteq> set path" using w by auto
  obtain g where g: "g = [] \<or> g = frag"
    and bg: "b = url_origin netloc @ ?p @ (if g \<noteq> [] then CHR ''#'' # g else [])"
  proof (cases "b = url_origin netloc @ ?p")
    case True
    then show ?thesis using that [of "[]"] by simp
  next
    case False
    then show ?thesis using that [of frag] b by simp
  qed
  have "parts_shape netloc ?p g"
    using shape sub g by (auto simp: parts_shape_def list_all_iff)
  from urlsplit_https_of [OF this hp] have u: "urlsplit_https b = Some (netloc, ?p, [], g)"
    unfolding bg .
  have sb: "startswith b ''https:''" unfolding bg by (simp add: url_origin_def)
  from assms(3) obtain imps where i: "url_implicants b = Some imps" "set bs = set imps"
    by (cases rule: implicants_cases) (use sb in auto)
  have "imps = url_parents netloc (split CHR ''/'' ?p) (if g \<noteq> [] then CHR ''#'' # g else [])"
    using i(1) unfolding url_implicants_def u by (simp add: Let_def split: if_splits)
  also have "split CHR ''/'' ?p = take n ?ss" by (rule split_take) (use n in auto)
  finally show ?thesis
    using url_parents_mono [of "if g \<noteq> [] then CHR ''#'' # g else []" ?h n ?ss netloc] g n(2) i(2) cs
    by auto
qed

lemma implicants_step:
  assumes "implicants c = Some cs" "b \<in> set cs" "implicants b = Some bs"
  shows "set bs \<subseteq> set cs"
  using assms(1)
proof (cases rule: implicants_cases)
  case (short imps)
  then show ?thesis using short_implicants_step [OF short(1,2) _ assms(3)] assms(2) by simp
next
  case (url imps)
  then show ?thesis using url_implicants_step [OF url(2) _ assms(3)] assms(2) by simp
qed

interpretation scopes: implication implicants
  by unfold_locales (rule implicants_self implicants_step; assumption)+

end
