(* ===== verification/ScopeProps.thy ===== *)
theory ScopeProps
  imports Scopes
begin

text \<open>
  What the OAuth tier relies on when it asks a \<open>ScopeSet\<close>: that \<open>contains\<close> is implication
  value by value, that \<open>filtered\<close>, \<open>difference\<close> and \<open>union\<close> are the operations of that
  order, and that the string a set prints is read back as the same set.
\<close>

definition scope_ok :: "scope_set \<Rightarrow> bool" where
  "scope_ok s \<longleftrightarrow> set_ok implicants s"

text \<open>Some scope of the set implies the value.\<close>

definition grants :: "scope_set \<Rightarrow> str \<Rightarrow> bool" where
  "grants s x \<longleftrightarrow> (\<exists>a \<in> set (scope_values s). implies a x)"

lemma implies_imp_of: "implies a b = imp_of implicants a b"
  by (simp add: implies_def imp_of_def)

lemma grants_covers: "grants s x = covers implicants s x"
  by (simp add: grants_def covers_def implies_imp_of)

lemma grants_fun: "grants s = covers implicants s"
  by (simp add: fun_eq_iff grants_covers)

lemma implies_trans: "implies a b \<Longrightarrow> implies b c \<Longrightarrow> implies a c"
  unfolding implies_imp_of by (rule scopes.imp_trans)

lemma implies_self: "implicants a = Some imps \<Longrightarrow> implies a a"
  using implicants_self by (auto simp: implies_def)

lemma grants_trans: "grants s a \<Longrightarrow> implies a b \<Longrightarrow> grants s b"
  using implies_trans by (auto simp: grants_def)

lemma empty_scope_ok [simp]: "scope_ok empty_scopes" "scope_values empty_scopes = []"
  "\<not> grants empty_scopes x"
  by (simp_all add: scope_ok_def grants_def)

lemma from_array_Some:
  assumes "from_array vs = Some s"
  shows "scope_ok s" "grants s x \<longleftrightarrow> (\<exists>v \<in> set vs. implies v x)"
    "set (scope_values s) \<subseteq> set vs"
proof -
  let ?items = "map (\<lambda>v. (v, the (implicants v))) vs"
  have all: "\<forall>v \<in> set vs. implicants v \<noteq> None" and s: "s = add_all ?items empty_scopes"
    using assms by (auto simp: from_array_def add_values_all split: if_splits)
  then have ok: "items_ok implicants ?items" by (auto simp: items_ok_def)
  note a = scopes.add_all_ok [OF empty_ok(1) ok]
  have keys: "map fst ?items = vs" by (simp add: comp_def)
  show "scope_ok s" using a(1) by (simp add: s scope_ok_def)
  have "\<not> covers implicants empty_scopes x" by (simp add: covers_def)
  then show "grants s x \<longleftrightarrow> (\<exists>v \<in> set vs. implies v x)"
    using a(2) [of x] unfolding keys s grants_covers implies_imp_of by simp
  show "set (scope_values s) \<subseteq> set vs" using a(3) unfolding keys s by simp
qed

lemma from_string_Some:
  assumes "from_string v = Some s"
  shows "scope_ok s"
    "grants s x \<longleftrightarrow> (\<exists>w \<in> set (split CHR '' '' v). w \<noteq> [] \<and> implies w x)"
  using from_array_Some [OF assms [unfolded from_string_def]] by auto

lemma contains_grants: "scope_ok t \<Longrightarrow> contains s t \<longleftrightarrow> (\<forall>x \<in> set (scope_values t). grants s x)"
  by (simp add: scope_ok_def contains_covers grants_covers)

lemma grants_member: "scope_ok s \<Longrightarrow> x \<in> set (scope_values s) \<Longrightarrow> grants s x"
  unfolding scope_ok_def grants_covers by (rule scopes.covers_member)

lemma contains_granted: "scope_ok t \<Longrightarrow> contains s t \<Longrightarrow> grants t x \<Longrightarrow> grants s x"
  unfolding scope_ok_def grants_covers by (rule scopes.covers_contains)

lemma contains_iff_granted:
  assumes "scope_ok t"
  shows "contains s t \<longleftrightarrow> (\<forall>x. grants t x \<longrightarrow> grants s x)"
  using contains_grants [OF assms] grants_member [OF assms] contains_granted [OF assms] by blast

lemma filtered_scopes:
  assumes "scope_ok s"
  shows "scope_ok (filtered s t)" "scope_values (filtered s t) = filter (grants t) (scope_values s)"
  using scopes.filtered_ok [OF assms [unfolded scope_ok_def], of t]
  by (simp_all add: scope_ok_def grants_fun)

lemma difference_scopes:
  assumes "scope_ok s"
  shows "scope_ok (difference s t)"
    "scope_values (difference s t) = filter (\<lambda>x. \<not> grants t x) (scope_values s)"
  using scopes.difference_ok [OF assms [unfolded scope_ok_def], of t]
  by (simp_all add: scope_ok_def grants_fun)

lemma union_grants:
  assumes "scope_ok s" "scope_ok t"
  shows "scope_ok (union_scopes s t)" "grants (union_scopes s t) x \<longleftrightarrow> grants s x \<or> grants t x"
  using scopes.union_ok [OF assms [unfolded scope_ok_def]]
  by (simp_all add: scope_ok_def grants_covers)

lemma is_empty_values: "is_empty_set s \<longleftrightarrow> scope_values s = []"
  by (simp add: is_empty_set_def scope_values_def)

lemma valid_samples:
  "implicants ''profile'' \<noteq> None" "implicants ''openid'' \<noteq> None" "implicants ''profile:email'' \<noteq> None"
  "implies ''profile'' ''profile:email''"
proof -
  show "implicants ''profile'' \<noteq> None" "implicants ''openid'' \<noteq> None"
    "implicants ''profile:email'' \<noteq> None" by code_simp+
  have "list_ex (\<lambda>x. x = ''profile'') (the (implicants ''profile:email''))" by code_simp
  then show "implies ''profile'' ''profile:email''"
    using \<open>implicants ''profile:email'' \<noteq> None\<close> by (auto simp: implies_def list_ex_iff)
qed

text \<open>
  C13: A scope set answers as the order of implication says. Built from any well-formed
  values, it contains another set built from any values exactly when each value of the other
  is implied by one of its own: dropping the redundant ones, and keeping the two indexes,
  changes no answer.
\<close>

theorem scope_contains_exact:
  assumes "from_array xs = Some s" and "from_array ys = Some t"
  shows "contains s t \<longleftrightarrow> (\<forall>y \<in> set ys. \<exists>x \<in> set xs. implies x y)"
proof -
  note s = from_array_Some [OF assms(1)] and t = from_array_Some [OF assms(2)]
  have "\<forall>y \<in> set ys. implicants y \<noteq> None"
    using assms(2) by (auto simp: from_array_def add_values_all split: if_splits)
  then have "\<forall>y \<in> set ys. implies y y" using implies_self by blast
  then have "(\<forall>x. grants t x \<longrightarrow> grants s x) \<longleftrightarrow> (\<forall>y \<in> set ys. grants s y)"
    using t(2) grants_trans [of s] by blast
  then show ?thesis using contains_iff_granted [OF t(1)] s(2) by simp
qed

theorem scope_contains_exact_witness:
  "\<exists>s t. from_array [''profile'', ''openid''] = Some s \<and> from_array [''profile:email''] = Some t \<and>
     contains s t"
proof -
  have "from_array [''profile'', ''openid''] \<noteq> None" "from_array [''profile:email''] \<noteq> None"
    unfolding from_array_def add_values_all by (simp_all add: valid_samples)
  then obtain s t where st: "from_array [''profile'', ''openid''] = Some s"
    "from_array [''profile:email''] = Some t" by auto
  show ?thesis using st scope_contains_exact [OF st] by (simp add: valid_samples)
qed

subsection \<open>The printed form\<close>

lemma re_dollar_chars: "re_dollar (class_plus P) v \<Longrightarrow> v \<noteq> [] \<and> (\<forall>c \<in> set v. P c \<or> c = CHR 0x0A)"
proof -
  assume r: "re_dollar (class_plus P) v"
  show "v \<noteq> [] \<and> (\<forall>c \<in> set v. P c \<or> c = CHR 0x0A)"
  proof (cases "class_plus P v")
    case True
    then show ?thesis by (auto simp: class_plus_def list_all_iff)
  next
    case False
    then have v: "v \<noteq> []" "last v = CHR 0x0A" "class_plus P (butlast v)"
      using r by (auto simp: re_dollar_def newline_def)
    then have "set v = set (butlast v) \<union> {last v}" using append_butlast_last_id [OF v(1)]
      by (metis list.set(1) list.simps(15) set_append)
    then show ?thesis using v by (auto simp: class_plus_def list_all_iff)
  qed
qed

lemma implicants_chars:
  assumes "implicants v \<noteq> None"
  shows "v \<noteq> []" "CHR '' '' \<notin> set v"
proof -
  have "VALID_SCOPE_VALUE v"
    using assms by (auto simp: implicants_def implicant_values_def url_implicants_def short_implicants_def
        Let_def split: if_splits)
  then have "v \<noteq> [] \<and> (\<forall>c \<in> set v. is_scope_char c \<or> c = CHR 0x0A)"
    unfolding VALID_SCOPE_VALUE_def by (rule re_dollar_chars)
  moreover have "\<not> is_scope_char CHR '' ''" by code_simp
  ultimately show "v \<noteq> []" "CHR '' '' \<notin> set v" by auto
qed

lemma scope_str_values:
  assumes "scope_ok s"
  shows "filter (\<lambda>w. w \<noteq> []) (split CHR '' '' (scope_str s)) = scope_values s"
proof -
  have v: "implicants x \<noteq> None" if "x \<in> set (scope_values s)" for x
    using assms that by (auto simp: scope_ok_def set_ok_def index_ok_def scope_values_def)
  show ?thesis
  proof (cases "scope_values s = []")
    case True
    then show ?thesis by (simp add: scope_str_def)
  next
    case False
    have "split CHR '' '' (scope_str s) = scope_values s"
      unfolding scope_str_def by (rule split_join) (use v implicants_chars False in auto)
    then show ?thesis using v implicants_chars(1) by (auto intro!: filter_True)
  qed
qed

lemma scope_reread:
  assumes ok: "scope_ok s"
  shows "\<exists>t. from_string (scope_str s) = Some t \<and> scope_values t = scope_values s"
proof -
  have "set_ok implicants s" using ok by (simp add: scope_ok_def)
  then have d: "distinct (scope_values s)" "antichain implicants (scope_values s)"
    and v: "\<And>x. x \<in> set (scope_values s) \<Longrightarrow> implicants x \<noteq> None"
    by (auto simp: set_ok_def index_ok_def scope_values_def)
  let ?items = "map (\<lambda>v. (v, the (implicants v))) (scope_values s)"
  have keys: "map fst ?items = scope_values s" by (simp add: comp_def)
  have "items_ok implicants ?items" using v by (auto simp: items_ok_def)
  moreover have "distinct (scope_values empty_scopes @ map fst ?items)"
    "antichain implicants (scope_values empty_scopes @ map fst ?items)"
    unfolding keys using d by simp_all
  ultimately have "scope_values (add_all ?items empty_scopes) = scope_values s"
    using scopes.add_all_antichain [OF empty_ok(1)] keys by simp
  moreover have "from_string (scope_str s) = Some (add_all ?items empty_scopes)"
    unfolding from_string_def scope_str_values [OF ok] from_array_def add_values_all using v by simp
  ultimately show ?thesis by blast
qed

text \<open>
  The string a scope set prints is read back as the same set: whatever array of values
  a set was built from, \<open>from_string(str(s))\<close> succeeds and holds the same values in the
  same order. Codes, refresh tokens and access tokens all keep scopes as that string.
\<close>

theorem scope_string_roundtrip:
  assumes "from_array vs = Some s"
  shows "\<exists>t. from_string (scope_str s) = Some t \<and> scope_values t = scope_values s"
  by (rule scope_reread [OF from_array_Some(1) [OF assms]])

theorem scope_string_roundtrip_witness:
  "\<exists>s t. from_array [''profile'', ''openid''] = Some s \<and> from_string (scope_str s) = Some t \<and>
     scope_values t = scope_values s"
proof -
  have "from_array [''profile'', ''openid''] \<noteq> None"
    unfolding from_array_def add_values_all by (simp add: valid_samples)
  then obtain s where s: "from_array [''profile'', ''openid''] = Some s" by auto
  show ?thesis using s scope_string_roundtrip [OF s] by blast
qed

end
