(* ===== verification/Sha256.thy ===== *)
theory Sha256
  imports Base64 "HOL-Library.Word"
begin

unbundle bit_operations_syntax

text \<open>
  The part of Python's \<open>hashlib\<close> and \<open>hmac\<close> the program rests on: SHA-256 (FIPS 180-4) on
  32-bit words that wrap, and HMAC (RFC 2104) over it, with the hex spelling of bytes.
  Nothing here is idealised: these are the functions the code computes. What cannot be
  proved of them, that nobody finds a collision or forges a MAC, is not assumed either.
\<close>

type_synonym w32 = "32 word"

subsection \<open>SHA-256\<close>

definition sha_init :: "w32 list" where
  "sha_init =
    [1779033703, 3144134277, 1013904242, 2773480762, 1359893119, 2600822924, 528734635,
     1541459225]"

definition sha_k :: "w32 list" where
  "sha_k =
    [1116352408, 1899447441, 3049323471, 3921009573, 961987163, 1508970993, 2453635748,
     2870763221, 3624381080, 310598401, 607225278, 1426881987, 1925078388, 2162078206,
     2614888103, 3248222580, 3835390401, 4022224774, 264347078, 604807628, 770255983,
     1249150122, 1555081692, 1996064986, 2554220882, 2821834349, 2952996808, 3210313671,
     3336571891, 3584528711, 113926993, 338241895, 666307205, 773529912, 1294757372,
     1396182291, 1695183700, 1986661051, 2177026350, 2456956037, 2730485921, 2820302411,
     3259730800, 3345764771, 3516065817, 3600352804, 4094571909, 275423344, 430227734,
     506948616, 659060556, 883997877, 958139571, 1322822218, 1537002063, 1747873779,
     1955562222, 2024104815, 2227730452, 2361852424, 2428436474, 2756734187, 3204031479,
     3329325298]"

definition bsig0 :: "w32 \<Rightarrow> w32" where
  "bsig0 x = word_rotr 2 x XOR word_rotr 13 x XOR word_rotr 22 x"

definition bsig1 :: "w32 \<Rightarrow> w32" where
  "bsig1 x = word_rotr 6 x XOR word_rotr 11 x XOR word_rotr 25 x"

definition ssig0 :: "w32 \<Rightarrow> w32" where
  "ssig0 x = word_rotr 7 x XOR word_rotr 18 x XOR drop_bit 3 x"

definition ssig1 :: "w32 \<Rightarrow> w32" where
  "ssig1 x = word_rotr 17 x XOR word_rotr 19 x XOR drop_bit 10 x"

text \<open>The eight working variables, and one round with its constant plus schedule word.\<close>

fun sha_round :: "w32 list \<Rightarrow> w32 \<Rightarrow> w32 list" where
  "sha_round [a, b, c, d, e, f, g, h] kw =
     (let t1 = h + bsig1 e + ((e AND f) XOR (NOT e AND g)) + kw;
          t2 = bsig0 a + ((a AND b) XOR (a AND c) XOR (b AND c))
      in [t1 + t2, a, b, c, d + t1, e, f, g])"
| "sha_round s kw = s"

text \<open>
  The message schedule, newest word first: each step reads the words 2, 7, 15 and 16 back.
\<close>

primrec schedule :: "nat \<Rightarrow> w32 list \<Rightarrow> w32 list" where
  "schedule 0 ws = ws"
| "schedule (Suc n) ws =
     schedule n ((ssig1 (ws ! 1) + ws ! 6 + ssig0 (ws ! 14) + ws ! 15) # ws)"

definition word_of_bytes :: "bytes \<Rightarrow> w32" where
  "word_of_bytes bs = word_of_nat (foldl (\<lambda>v b. v * 256 + b) 0 bs)"

definition bytes_of_word :: "w32 \<Rightarrow> bytes" where
  "bytes_of_word w = map (\<lambda>i. unat (drop_bit i w) mod 256) [24, 16, 8, 0]"

fun chunks :: "nat \<Rightarrow> 'a list \<Rightarrow> 'a list list" where
  "chunks n xs = (if n = 0 \<or> xs = [] then [] else take n xs # chunks n (drop n xs))"

declare chunks.simps [simp del]

definition compress :: "w32 list \<Rightarrow> bytes \<Rightarrow> w32 list" where
  "compress hs block =
     (let ws = rev (schedule 48 (rev (map word_of_bytes (chunks 4 block))))
      in map2 (+) hs (foldl sha_round hs (map2 (+) sha_k ws)))"

definition length_bytes :: "nat \<Rightarrow> bytes" where
  "length_bytes n = map (\<lambda>i. n div 256 ^ i mod 256) [7, 6, 5, 4, 3, 2, 1, 0]"

definition sha_pad :: "bytes \<Rightarrow> bytes" where
  "sha_pad m = m @ [128] @ replicate ((119 - length m mod 64) mod 64) 0 @
     length_bytes (8 * length m)"

definition sha256 :: "bytes \<Rightarrow> bytes" where
  "sha256 m = concat (map bytes_of_word (foldl compress sha_init (chunks 64 (sha_pad m))))"

subsection \<open>HMAC and hex\<close>

definition xor_bytes :: "bytes \<Rightarrow> bytes \<Rightarrow> bytes" where
  "xor_bytes a b = map2 (\<lambda>x y. x XOR y) a b"

definition hmac_key :: "bytes \<Rightarrow> bytes" where
  "hmac_key k = (let k' = if length k > 64 then sha256 k else k
                 in k' @ replicate (64 - length k') 0)"

definition hmac_sha256 :: "bytes \<Rightarrow> bytes \<Rightarrow> bytes" where
  "hmac_sha256 k m =
     sha256 (xor_bytes (hmac_key k) (replicate 64 0x5c) @
       sha256 (xor_bytes (hmac_key k) (replicate 64 0x36) @ m))"

definition hex_digits :: str where
  "hex_digits = ''0123456789abcdef''"

definition hex_of_byte :: "nat \<Rightarrow> str" where
  "hex_of_byte b = [hex_digits ! (b div 16 mod 16), hex_digits ! (b mod 16)]"

text \<open>\<open>bytes.hex()\<close>\<close>

definition hex_of :: "bytes \<Rightarrow> str" where
  "hex_of bs = concat (map hex_of_byte bs)"

text \<open>\<open>bytes.fromhex\<close>: pairs of hex digits of either case, white space between pairs skipped.\<close>

definition hex_val :: "char \<Rightarrow> nat option" where
  "hex_val c =
     (if is_digit c then Some (ord c - 48)
      else if 97 \<le> ord c \<and> ord c \<le> 102 then Some (ord c - 87)
      else if 65 \<le> ord c \<and> ord c \<le> 70 then Some (ord c - 55)
      else None)"

definition is_ascii_space :: "char \<Rightarrow> bool" where
  "is_ascii_space c \<longleftrightarrow> ord c = 32 \<or> 9 \<le> ord c \<and> ord c \<le> 13"

fun fromhex :: "str \<Rightarrow> bytes option" where
  "fromhex [] = Some []"
| "fromhex [c] = (if is_ascii_space c then Some [] else None)"
| "fromhex (c # d # s) =
     (if is_ascii_space c then fromhex (d # s)
      else (case (hex_val c, hex_val d) of
              (Some x, Some y) \<Rightarrow> map_option (Cons (16 * x + y)) (fromhex s)
            | _ \<Rightarrow> None))"

subsection \<open>Lengths and ranges\<close>

lemma sha_round_length [simp]: "length (sha_round s kw) = length s"
  by (cases "(s, kw)" rule: sha_round.cases) (simp_all add: Let_def)

lemma rounds_length [simp]: "length (foldl sha_round s kws) = length s"
  by (induction kws arbitrary: s) simp_all

lemma compress_length [simp]: "length (compress hs block) = length hs"
  by (simp add: compress_def Let_def)

lemma compressions_length [simp]: "length (foldl compress hs blocks) = length hs"
  by (induction blocks arbitrary: hs) simp_all

lemma bytes_of_word_length [simp]: "length (bytes_of_word w) = 4"
  by (simp add: bytes_of_word_def)

lemma concat_words_length: "length (concat (map bytes_of_word ws)) = 4 * length ws"
  by (induction ws) simp_all

lemma sha256_length [simp]: "length (sha256 m) = 32"
  by (simp add: sha256_def concat_words_length sha_init_def)

lemma sha256_bytes [simp]: "bytes_ok (sha256 m)"
  by (auto simp: sha256_def bytes_ok_def bytes_of_word_def)

lemma hmac_length [simp]: "length (hmac_sha256 k m) = 32"
  by (simp add: hmac_sha256_def)

lemma hmac_bytes [simp]: "bytes_ok (hmac_sha256 k m)"
  by (simp add: hmac_sha256_def)

lemma xor_byte:
  assumes "x < 256" "y < 256"
  shows "x XOR y < (256::nat)"
proof -
  have "take_bit 8 x = x" "take_bit 8 y = y" using assms by (simp_all add: take_bit_nat_eq_self_iff)
  then have "x XOR y = take_bit 8 (x XOR y)" by (simp add: take_bit_xor)
  then show ?thesis using take_bit_nat_less_exp [of 8 "x XOR y"] by simp
qed

lemma xor_bytes_length [simp]: "length (xor_bytes a b) = min (length a) (length b)"
  by (simp add: xor_bytes_def)

lemma xor_bytes_ok: "bytes_ok a \<Longrightarrow> bytes_ok b \<Longrightarrow> bytes_ok (xor_bytes a b)"
  by (auto simp: xor_bytes_def bytes_ok_def set_zip xor_byte)

lemma xor_bytes_cancel: "length a = length b \<Longrightarrow> xor_bytes (xor_bytes a b) b = a"
  by (induction a b rule: list_induct2) (simp_all add: xor_bytes_def xor.assoc)

lemma hex_val_digit:
  assumes "n < 16"
  shows "hex_val (hex_digits ! n) = Some n" "\<not> is_ascii_space (hex_digits ! n)"
proof -
  have "\<forall>n < 16. hex_val (hex_digits ! n) = Some n \<and> \<not> is_ascii_space (hex_digits ! n)"
    by code_simp
  then show "hex_val (hex_digits ! n) = Some n" "\<not> is_ascii_space (hex_digits ! n)"
    using assms by simp_all
qed

lemma fromhex_hex_of: "bytes_ok bs \<Longrightarrow> fromhex (hex_of bs) = Some bs"
proof (induction bs)
  case Nil
  then show ?case by (simp add: hex_of_def)
next
  case (Cons b bs)
  then have b: "b < 256" and "fromhex (hex_of bs) = Some bs" by (simp_all add: bytes_ok_def)
  moreover have "b div 16 mod 16 = b div 16" using b by (intro mod_less) linarith
  ultimately show ?case
    by (simp add: hex_of_def hex_of_byte_def hex_val_digit mult.commute)
qed

end
