(* ===== verification/Base64Url.thy ===== *)
theory Base64Url
  imports Base64
begin

text \<open>
  \<open>base64.urlsafe_b64decode\<close>, which maps \<open>-_\<close> to \<open>+/\<close> and then decodes leniently: every
  character outside the alphabet is skipped, a \<open>=\<close> ends the input once it completes a
  quantum, and what the padding leaves open is an error. And the unpadded spelling of
  \<open>crypto/jose.py\<close>, whose decoder checks the alphabet first.
\<close>

definition url_to_std :: "char \<Rightarrow> char" where
  "url_to_std c = (if c = CHR ''-'' then CHR ''+'' else if c = CHR ''_'' then CHR ''/'' else c)"

text \<open>
  The loop of \<open>binascii.a2b_base64\<close>: position in the quantum, the bits left over, and the
  pads seen. \<open>None\<close> is \<open>binascii.Error\<close>.
\<close>

fun b64lenient :: "nat \<Rightarrow> nat \<Rightarrow> nat \<Rightarrow> str \<Rightarrow> bytes option" where
  "b64lenient q left pads [] = (if q = 0 then Some [] else None)"
| "b64lenient q left pads (c # cs) =
     (if c = CHR ''='' then
        (if 2 \<le> q \<and> 4 \<le> q + (pads + 1) then Some []
         else b64lenient q left (if 2 \<le> q then pads + 1 else pads) cs)
      else
        (case index_of c std_alphabet of
           None \<Rightarrow> b64lenient q left pads cs
         | Some v \<Rightarrow>
             (if q = 0 then b64lenient 1 v 0 cs
              else if q = 1 then map_option (Cons (left * 4 + v div 16)) (b64lenient 2 (v mod 16) 0 cs)
              else if q = 2 then map_option (Cons (left * 16 + v div 4)) (b64lenient 3 (v mod 4) 0 cs)
              else map_option (Cons (left * 64 + v)) (b64lenient 0 0 0 cs))))"

definition urlsafe_b64decode :: "str \<Rightarrow> bytes option" where
  "urlsafe_b64decode s = (if isascii s then b64lenient 0 0 0 (map url_to_std s) else None)"

text \<open>\<open>s + "=" * (-len(s) % 4)\<close> and \<open>b64u_encode\<close>, \<open>b64u_decode\<close>.\<close>

definition repad :: "str \<Rightarrow> str" where
  "repad s = s @ replicate ((4 - length s mod 4) mod 4) (CHR ''='')"

definition b64u_encode :: "bytes \<Rightarrow> str" where
  "b64u_encode bs = rstrip_by (\<lambda>c. c = CHR ''='') (urlsafe_b64encode bs)"

definition is_b64url :: "char \<Rightarrow> bool" where
  "is_b64url c \<longleftrightarrow> is_alnum c \<or> c = CHR ''-'' \<or> c = CHR ''_''"

text \<open>\<open>_BASE64URL.fullmatch\<close>: the alphabet, then at most two \<open>=\<close>.\<close>

definition base64url_fullmatch :: "str \<Rightarrow> bool" where
  "base64url_fullmatch s \<longleftrightarrow>
     (let tail = dropWhile is_b64url s in length tail \<le> 2 \<and> list_all (\<lambda>c. c = CHR ''='') tail)"

definition b64u_decode :: "str \<Rightarrow> bytes option" where
  "b64u_decode s = (if base64url_fullmatch s then urlsafe_b64decode (repad s) else None)"

subsection \<open>Round trips\<close>

lemma url_to_std_nth: "i < 64 \<Longrightarrow> url_to_std (url_alphabet ! i) = std_alphabet ! i"
proof -
  have "\<forall>i < 64. url_to_std (url_alphabet ! i) = std_alphabet ! i" by code_simp
  then show "i < 64 \<Longrightarrow> url_to_std (url_alphabet ! i) = std_alphabet ! i" by blast
qed

lemma url_to_std_pad [simp]: "url_to_std (CHR ''='') = CHR ''=''"
  by (simp add: url_to_std_def)

lemma url_alphabet_chars: "list_all (\<lambda>c. is_b64url c \<and> is_ascii c \<and> c \<noteq> CHR ''='') url_alphabet"
  by (simp add: url_alphabet_def is_b64url_def is_ascii_def is_alnum_def is_alpha_def is_digit_def
      ord_def)

lemma url_alphabet_char:
  assumes "i < 64"
  shows "is_b64url (url_alphabet ! i)" "isascii [url_alphabet ! i]" "url_alphabet ! i \<noteq> CHR ''=''"
proof -
  have "url_alphabet ! i \<in> set url_alphabet"
    using assms by (intro nth_mem) (simp add: url_alphabet_def)
  then show "is_b64url (url_alphabet ! i)" "isascii [url_alphabet ! i]"
    "url_alphabet ! i \<noteq> CHR ''=''"
    using url_alphabet_chars by (simp_all add: list_all_iff isascii_def)
qed

definition pads :: "nat \<Rightarrow> str" where
  "pads n = replicate ((4 - n mod 4) mod 4) (CHR ''='')"

lemma pads_simps:
  "pads 0 = []" "pads 2 = [CHR ''='', CHR ''='']" "pads 3 = [CHR ''='']"
  "pads (Suc (Suc (Suc (Suc n)))) = pads n"
  by (simp_all add: pads_def numeral_2_eq_2)

definition digits_ok :: "str \<Rightarrow> bool" where
  "digits_ok ds \<longleftrightarrow> list_all is_b64url ds \<and> isascii ds \<and> CHR ''='' \<notin> set ds"

lemma digits_ok_simps [simp]:
  "digits_ok []"
  "digits_ok (c # ds) \<longleftrightarrow> is_b64url c \<and> isascii [c] \<and> c \<noteq> CHR ''='' \<and> digits_ok ds"
  by (auto simp: digits_ok_def isascii_def)

lemma url_digit_ok: "i < 64 \<Longrightarrow> digits_ok (url_alphabet ! i # ds) = digits_ok ds"
  by (simp add: url_alphabet_char)

text \<open>An encoded text is digits of the alphabet followed by the pads that fill its last quantum.\<close>

lemma b64enc_shape:
  assumes "bytes_ok bs"
  shows "\<exists>ds. b64enc url_alphabet bs = ds @ pads (length ds) \<and> digits_ok ds"
  using assms
proof (induction bs rule: b64enc.induct [of "\<lambda>_. _", case_names nil one two more])
  case (nil al)
  show ?case by (rule exI [of _ "[]"]) (simp add: pads_simps)
next
  case (one al a)
  then have "a < 256" by (simp add: bytes_ok_def)
  note v = sextets [OF this this this]
  let ?ds = "[url_alphabet ! (a div 4), url_alphabet ! (a mod 4 * 16)]"
  have "digits_ok ?ds" by (simp only: url_digit_ok v digits_ok_simps(1))
  moreover have "b64enc url_alphabet [a] = ?ds @ pads (length ?ds)"
    using pads_simps(2) by (simp add: numeral_2_eq_2)
  ultimately show ?case by blast
next
  case (two al a b)
  then have ab: "a < 256" "b < 256" by (simp_all add: bytes_ok_def)
  note v = sextets [OF ab ab(2)]
  let ?ds = "[url_alphabet ! (a div 4), url_alphabet ! (a mod 4 * 16 + b div 16),
    url_alphabet ! (b mod 16 * 4)]"
  have "digits_ok ?ds" by (simp only: url_digit_ok v digits_ok_simps(1))
  moreover have "b64enc url_alphabet [a, b] = ?ds @ pads (length ?ds)"
    using pads_simps(3) by (simp add: numeral_3_eq_3)
  ultimately show ?case by blast
next
  case (more al a b c rest)
  then have abc: "a < 256" "b < 256" "c < 256" and r: "bytes_ok rest"
    by (simp_all add: bytes_ok_def)
  note v = sextets [OF abc]
  from more.IH [OF r] obtain ds where
    ds: "b64enc url_alphabet rest = ds @ pads (length ds)" "digits_ok ds" by blast
  let ?ds = "url_alphabet ! (a div 4) # url_alphabet ! (a mod 4 * 16 + b div 16) #
    url_alphabet ! (b mod 16 * 4 + c div 64) # url_alphabet ! (c mod 64) # ds"
  have "digits_ok ?ds" by (simp only: url_digit_ok v ds(2))
  moreover have "b64enc url_alphabet (a # b # c # rest) = ?ds @ pads (length ?ds)"
    using ds(1) by (simp add: pads_simps)
  ultimately show ?case by blast
qed

lemma pads_ascii: "isascii (pads n)"
  by (simp add: pads_def isascii_def is_ascii_def ord_def list_all_iff)

lemma b64enc_isascii: "bytes_ok bs \<Longrightarrow> isascii (b64enc url_alphabet bs)"
  using b64enc_shape [of bs] pads_ascii by (auto simp: isascii_def digits_ok_def)

lemma b64enc_url_to_std:
  "bytes_ok bs \<Longrightarrow> map url_to_std (b64enc url_alphabet bs) = b64enc std_alphabet bs"
proof (induction bs rule: b64enc.induct [of "\<lambda>_. _", case_names nil one two more])
  case (nil al)
  then show ?case by simp
next
  case (one al a)
  then have "a < 256" by (simp add: bytes_ok_def)
  from sextets [OF this this this] show ?case by (simp add: url_to_std_nth)
next
  case (two al a b)
  then have ab: "a < 256" "b < 256" by (simp_all add: bytes_ok_def)
  from sextets [OF ab ab(2)] show ?case by (simp add: url_to_std_nth)
next
  case (more al a b c rest)
  then have abc: "a < 256" "b < 256" "c < 256" and "bytes_ok rest"
    by (simp_all add: bytes_ok_def)
  with sextets [OF abc] more.IH show ?case by (simp add: url_to_std_nth)
qed

lemma std_index: "i < 64 \<Longrightarrow> index_of (std_alphabet ! i) std_alphabet = Some i"
  by (rule alphabet_index) simp_all

lemma std_not_pad: "i < 64 \<Longrightarrow> std_alphabet ! i \<noteq> CHR ''=''"
  by (rule alphabet_not_pad) simp_all

lemma b64lenient_digit:
  "v < 64 \<Longrightarrow> b64lenient 0 l p (std_alphabet ! v # cs) = b64lenient 1 v 0 cs"
  "v < 64 \<Longrightarrow> b64lenient 1 l p (std_alphabet ! v # cs) =
     map_option (Cons (l * 4 + v div 16)) (b64lenient 2 (v mod 16) 0 cs)"
  "v < 64 \<Longrightarrow> b64lenient 2 l p (std_alphabet ! v # cs) =
     map_option (Cons (l * 16 + v div 4)) (b64lenient 3 (v mod 4) 0 cs)"
  "v < 64 \<Longrightarrow> b64lenient 3 l p (std_alphabet ! v # cs) =
     map_option (Cons (l * 64 + v)) (b64lenient 0 0 0 cs)"
  by (simp_all add: std_index std_not_pad)

lemma b64lenient_pad:
  "b64lenient 2 l 0 (CHR ''='' # CHR ''='' # cs) = Some []"
  "b64lenient 3 l 0 (CHR ''='' # cs) = Some []"
  by simp_all

lemma b64lenient_b64enc: "bytes_ok bs \<Longrightarrow> b64lenient 0 0 p (b64enc std_alphabet bs) = Some bs"
proof (induction bs arbitrary: p rule: b64enc.induct [of "\<lambda>_. _", case_names nil one two more])
  case (nil al)
  then show ?case by simp
next
  case (one al a)
  then have "a < 256" by (simp add: bytes_ok_def)
  from sextets [OF this this this] show ?case
    using sextets_join1 [of a] by (simp add: b64lenient_digit b64lenient_pad del: b64lenient.simps(2) One_nat_def)
next
  case (two al a b)
  then have ab: "a < 256" "b < 256" by (simp_all add: bytes_ok_def)
  from sextets [OF ab ab(2)] show ?case
    using sextets_join2 [OF ab(2), of a] by (simp add: b64lenient_digit b64lenient_pad del: b64lenient.simps(2) One_nat_def)
next
  case (more al a b c rest)
  then have abc: "a < 256" "b < 256" "c < 256" and "bytes_ok rest"
    by (simp_all add: bytes_ok_def)
  note v = sextets [OF abc]
  have "b64lenient 0 0 p (b64enc std_alphabet (a # b # c # rest)) =
      map_option (Cons (a div 4 * 4 + (a mod 4 * 16 + b div 16) div 16))
        (map_option (Cons ((a mod 4 * 16 + b div 16) mod 16 * 16 + (b mod 16 * 4 + c div 64) div 4))
          (map_option (Cons ((b mod 16 * 4 + c div 64) mod 4 * 64 + c mod 64))
            (b64lenient 0 0 0 (b64enc std_alphabet rest))))"
    by (simp only: b64enc.simps b64lenient_digit v)
  also have "b64lenient 0 0 0 (b64enc std_alphabet rest) = Some rest"
    by (rule more.IH) fact
  finally show ?case
    by (simp only: option.map sextets_join2(1) [OF abc(2)] sextets_join3 [OF abc(2,3)])
qed

lemma urlsafe_decode_encode:
  assumes "bytes_ok bs"
  shows "urlsafe_b64decode (urlsafe_b64encode bs) = Some bs"
  using assms
  by (simp add: urlsafe_b64decode_def urlsafe_b64encode_def b64enc_url_to_std b64lenient_b64enc
      b64enc_isascii)

lemma dropWhile_absent: "x \<notin> set xs \<Longrightarrow> dropWhile (\<lambda>c. c = x) xs = xs"
  by (cases xs) auto

lemma rstrip_pads: "CHR ''='' \<notin> set ds \<Longrightarrow>
    rstrip_by (\<lambda>c. c = CHR ''='') (ds @ replicate n (CHR ''='')) = ds"
proof -
  assume "CHR ''='' \<notin> set ds"
  then have "dropWhile (\<lambda>c. c = CHR ''='') (rev ds) = rev ds" by (intro dropWhile_absent) simp
  then have "dropWhile (\<lambda>c. c = CHR ''='') (replicate n (CHR ''='') @ rev ds) = rev ds"
    by (induction n) simp_all
  then show ?thesis by (simp add: rstrip_by_def)
qed

text \<open>
  The unpadded spelling: digits of the alphabet only, and padding it again gives the padded
  text back, so both decoders read the bytes it stands for.
\<close>

lemma b64u_encode_digits:
  assumes "bytes_ok bs"
  shows "list_all is_b64url (b64u_encode bs)" "isascii (b64u_encode bs)"
    "repad (b64u_encode bs) = urlsafe_b64encode bs"
proof -
  obtain ds where ds: "b64enc url_alphabet bs = ds @ pads (length ds)" "digits_ok ds"
    using b64enc_shape [OF assms] by blast
  then have e: "b64u_encode bs = ds"
    by (simp add: b64u_encode_def urlsafe_b64encode_def pads_def digits_ok_def rstrip_pads)
  show "list_all is_b64url (b64u_encode bs)" "isascii (b64u_encode bs)"
    using ds(2) by (simp_all add: e digits_ok_def)
  show "repad (b64u_encode bs) = urlsafe_b64encode bs"
    using ds(1) by (simp add: e repad_def urlsafe_b64encode_def pads_def)
qed

lemma repad_decode: "bytes_ok bs \<Longrightarrow> urlsafe_b64decode (repad (b64u_encode bs)) = Some bs"
  by (simp add: b64u_encode_digits urlsafe_decode_encode)

lemma b64u_decode_encode:
  assumes "bytes_ok bs" shows "b64u_decode (b64u_encode bs) = Some bs"
proof -
  have "dropWhile is_b64url (b64u_encode bs) = []"
    using b64u_encode_digits(1) [OF assms] by (simp add: list_all_iff)
  then have "base64url_fullmatch (b64u_encode bs)"
    unfolding base64url_fullmatch_def Let_def by (simp only: list.size list.pred_inject) simp
  then show ?thesis using repad_decode [OF assms] by (simp add: b64u_decode_def)
qed

end
