(* ===== verification/Kdf.thy ===== *)
theory Kdf
  imports Sha256 Base64Url
begin

text \<open>
  \<open>crypto/hkdf.py\<close>: HKDF as the code writes it, a loop that appends blocks until there
  are enough, and the info strings of the protocol. Beside it the two password hashes of
  the standard library that \<open>crypto/onepw.py\<close> calls, PBKDF2 (RFC 8018) and scrypt
  (RFC 7914), both over HMAC-SHA256.
\<close>

text \<open>\<open>str.encode()\<close>: UTF-8 of code points below 256.\<close>

definition utf8_char :: "char \<Rightarrow> bytes" where
  "utf8_char c = (if ord c < 128 then [ord c] else [192 + ord c div 64, 128 + ord c mod 64])"

definition encode_utf8 :: "str \<Rightarrow> bytes" where
  "encode_utf8 s = concat (map utf8_char s)"

subsection \<open>HKDF\<close>

definition NAMESPACE :: str where
  "NAMESPACE = ''identity.mozilla.com/picl/v1/''"

definition HASH_LENGTH :: nat where
  "HASH_LENGTH = 32"

text \<open>The loop of \<open>hkdf\<close>: the previous block, the output so far and the counter.\<close>

function hkdf_loop :: "bytes \<Rightarrow> bytes \<Rightarrow> nat \<Rightarrow> bytes \<Rightarrow> bytes \<Rightarrow> nat \<Rightarrow> bytes" where
  "hkdf_loop prk info n block out counter =
     (if length out < n
      then let block' = hmac_sha256 prk (block @ info @ [counter])
           in hkdf_loop prk info n block' (out @ block') (counter + 1)
      else take n out)"
  by pat_completeness auto
termination
  by (relation "measure (\<lambda>(_, _, n, _, out, _). n - length out)") (auto simp: Let_def)

declare hkdf_loop.simps [simp del]

text \<open>\<open>None\<close> is the \<open>ValueError\<close> for a length no HKDF can produce.\<close>

definition hkdf :: "bytes \<Rightarrow> bytes \<Rightarrow> bytes \<Rightarrow> nat \<Rightarrow> bytes option" where
  "hkdf ikm info salt n =
     (if 255 * HASH_LENGTH < n then None
      else Some (hkdf_loop
             (hmac_sha256 (if salt \<noteq> [] then salt else replicate HASH_LENGTH 0) ikm)
             info n [] [] 1))"

definition kw :: "str \<Rightarrow> bytes" where
  "kw name = encode_utf8 (NAMESPACE @ name)"

definition kwe :: "str \<Rightarrow> str \<Rightarrow> bytes" where
  "kwe name email = encode_utf8 (NAMESPACE @ name @ '':'' @ email)"

definition derive :: "bytes \<Rightarrow> str \<Rightarrow> bytes \<Rightarrow> nat \<Rightarrow> bytes option" where
  "derive ikm name salt n = hkdf ikm (kw name) salt n"

text \<open>
  RFC 5869, as its section 2.3 states it: \<open>T(i) = HMAC(PRK, T(i-1) || info || i)\<close>, and the
  output is the first bytes of \<open>T(1) || T(2) || ...\<close>
\<close>

fun rfc_t :: "bytes \<Rightarrow> bytes \<Rightarrow> nat \<Rightarrow> bytes" where
  "rfc_t prk info 0 = []"
| "rfc_t prk info (Suc i) = hmac_sha256 prk (rfc_t prk info i @ info @ [Suc i])"

definition rfc_ts :: "bytes \<Rightarrow> bytes \<Rightarrow> nat \<Rightarrow> bytes" where
  "rfc_ts prk info i = concat (map (rfc_t prk info) [1..<Suc i])"

definition rfc_okm :: "bytes \<Rightarrow> bytes \<Rightarrow> nat \<Rightarrow> bytes" where
  "rfc_okm prk info n = take n (rfc_ts prk info ((n + 31) div 32))"

lemma rfc_t_length: "0 < i \<Longrightarrow> length (rfc_t prk info i) = 32"
  by (cases i) simp_all

lemma rfc_ts_0 [simp]: "rfc_ts prk info 0 = []"
  by (simp add: rfc_ts_def)

lemma rfc_ts_Suc [simp]: "rfc_ts prk info (Suc i) = rfc_ts prk info i @ rfc_t prk info (Suc i)"
  by (simp add: rfc_ts_def)

lemma rfc_ts_length [simp]: "length (rfc_ts prk info i) = 32 * i"
  by (induction i) simp_all

lemma hkdf_loop_rfc:
  assumes "i \<le> (n + 31) div 32"
  shows "hkdf_loop prk info n (rfc_t prk info i) (rfc_ts prk info i) (Suc i) = rfc_okm prk info n"
  using assms
proof (induction "(n + 31) div 32 - i" arbitrary: i)
  case 0
  then have i: "i = (n + 31) div 32" by simp
  then have "n \<le> 32 * i" by linarith
  then show ?case
    by (subst hkdf_loop.simps) (simp add: rfc_okm_def i)
next
  case (Suc k)
  then have "i < (n + 31) div 32" by linarith
  then have "32 * i < n" by linarith
  moreover have "k = (n + 31) div 32 - Suc i" "Suc i \<le> (n + 31) div 32" using Suc by linarith+
  ultimately show ?case
    using Suc.hyps(1) [of "Suc i"] by (subst hkdf_loop.simps) (simp add: Let_def)
qed

lemma hkdf_rfc:
  "hkdf ikm info salt n =
     (if n \<le> 255 * 32
      then Some (rfc_okm (hmac_sha256 (if salt = [] then replicate 32 0 else salt) ikm) info n)
      else None)"
  using hkdf_loop_rfc [of 0 n] by (simp add: hkdf_def HASH_LENGTH_def)

lemma rfc_okm_length [simp]: "length (rfc_okm prk info n) = n"
proof -
  have "n \<le> 32 * ((n + 31) div 32)" by linarith
  then show ?thesis by (simp add: rfc_okm_def)
qed

lemma bytes_ok_append [simp]: "bytes_ok (xs @ ys) \<longleftrightarrow> bytes_ok xs \<and> bytes_ok ys"
  by (auto simp: bytes_ok_def)

lemma bytes_ok_Nil [simp]: "bytes_ok []"
  by (simp add: bytes_ok_def)

lemma bytes_ok_take: "bytes_ok xs \<Longrightarrow> bytes_ok (take n xs)"
  by (auto simp: bytes_ok_def dest: in_set_takeD)

lemma bytes_ok_drop: "bytes_ok xs \<Longrightarrow> bytes_ok (drop n xs)"
  by (auto simp: bytes_ok_def dest: in_set_dropD)

lemma rfc_ts_bytes: "bytes_ok (rfc_ts prk info i)"
  by (induction i) simp_all

lemma rfc_okm_bytes [simp]: "bytes_ok (rfc_okm prk info n)"
  by (simp add: rfc_okm_def bytes_ok_take rfc_ts_bytes)

lemma hkdf_Some:
  assumes "hkdf ikm info salt n = Some out"
  shows "length out = n" "bytes_ok out"
  using assms by (auto simp: hkdf_rfc split: if_splits)

lemma derive_total: "n \<le> 8160 \<Longrightarrow> \<exists>out. derive ikm name salt n = Some out \<and> length out = n \<and> bytes_ok out"
  by (simp add: derive_def hkdf_rfc)

subsection \<open>PBKDF2 and scrypt\<close>

definition be32 :: "nat \<Rightarrow> bytes" where
  "be32 n = map (\<lambda>i. n div 256 ^ i mod 256) [3, 2, 1, 0]"

fun pbkdf2_step :: "bytes \<Rightarrow> bytes \<times> bytes \<Rightarrow> bytes \<times> bytes" where
  "pbkdf2_step pw (u, t) = (let u' = hmac_sha256 pw u in (u', xor_bytes t u'))"

definition pbkdf2_block :: "bytes \<Rightarrow> bytes \<Rightarrow> nat \<Rightarrow> nat \<Rightarrow> bytes" where
  "pbkdf2_block pw salt iterations i =
     (let u = hmac_sha256 pw (salt @ be32 i) in snd ((pbkdf2_step pw ^^ (iterations - 1)) (u, u)))"

definition pbkdf2_hmac :: "bytes \<Rightarrow> bytes \<Rightarrow> nat \<Rightarrow> nat \<Rightarrow> bytes" where
  "pbkdf2_hmac pw salt iterations dklen =
     take dklen (concat (map (pbkdf2_block pw salt iterations) [1..<Suc ((dklen + 31) div 32)]))"

text \<open>Salsa20/8 on sixteen little-endian words; the eight quarter rounds of a double round.\<close>

definition salsa_quarter :: "w32 list \<Rightarrow> nat \<times> nat \<times> nat \<times> nat \<Rightarrow> w32 list" where
  "salsa_quarter x abcd =
     (case abcd of (a, b, c, d) \<Rightarrow>
       let x = x[b := x ! b XOR word_rotl 7 (x ! a + x ! d)];
           x = x[c := x ! c XOR word_rotl 9 (x ! b + x ! a)];
           x = x[d := x ! d XOR word_rotl 13 (x ! c + x ! b)]
       in x[a := x ! a XOR word_rotl 18 (x ! d + x ! c)])"

definition salsa_rounds :: "(nat \<times> nat \<times> nat \<times> nat) list" where
  "salsa_rounds =
     [(0, 4, 8, 12), (5, 9, 13, 1), (10, 14, 2, 6), (15, 3, 7, 11),
      (0, 1, 2, 3), (5, 6, 7, 4), (10, 11, 8, 9), (15, 12, 13, 14)]"

definition salsa20_8 :: "w32 list \<Rightarrow> w32 list" where
  "salsa20_8 x = map2 (+) x (((\<lambda>x. foldl salsa_quarter x salsa_rounds) ^^ 4) x)"

definition block_mix :: "w32 list \<Rightarrow> w32 list" where
  "block_mix b =
     (let cs = chunks 16 b;
          ys = snd (foldl (\<lambda>(x, ys) c. let y = salsa20_8 (map2 (\<lambda>v w. v XOR w) x c)
                                    in (y, ys @ [y])) (last cs, []) cs)
      in concat (map (\<lambda>i. ys ! i) (filter even [0..<length ys] @ filter odd [0..<length ys])))"

definition integerify :: "w32 list \<Rightarrow> nat" where
  "integerify b = (let c = last (chunks 16 b) in unat (c ! 0) + 2 ^ 32 * unat (c ! 1))"

definition ro_mix :: "nat \<Rightarrow> w32 list \<Rightarrow> w32 list" where
  "ro_mix n b =
     (let (x, v) = foldl (\<lambda>(x, v) _. (block_mix x, v @ [x])) (b, []) [0..<n]
      in foldl (\<lambda>x _. block_mix (map2 (\<lambda>v w. v XOR w) x (v ! (integerify x mod n)))) x [0..<n])"

definition scrypt_mix :: "nat \<Rightarrow> bytes \<Rightarrow> bytes" where
  "scrypt_mix n b =
     concat (map (\<lambda>w. rev (bytes_of_word w)) (ro_mix n (map (\<lambda>c. word_of_bytes (rev c)) (chunks 4 b))))"

definition scrypt :: "bytes \<Rightarrow> bytes \<Rightarrow> nat \<Rightarrow> nat \<Rightarrow> nat \<Rightarrow> nat \<Rightarrow> bytes" where
  "scrypt pw salt n r p dklen =
     (let b = pbkdf2_hmac pw salt 1 (p * 128 * r)
      in pbkdf2_hmac pw (concat (map (scrypt_mix n) (chunks (128 * r) b))) 1 dklen)"

lemma pbkdf2_steps_length:
  "length (snd (x :: bytes \<times> bytes)) = 32 \<Longrightarrow> length (snd ((pbkdf2_step pw ^^ k) x)) = 32"
proof (induction k)
  case (Suc k)
  then show ?case by (cases "(pbkdf2_step pw ^^ k) x") (simp add: Let_def)
qed simp

lemma pbkdf2_block_length [simp]: "length (pbkdf2_block pw salt it i) = 32"
  by (simp add: pbkdf2_block_def Let_def pbkdf2_steps_length)

lemma pbkdf2_blocks_length:
  "length (concat (map (pbkdf2_block pw salt it) xs)) = 32 * length xs"
  by (induction xs) simp_all

lemma pbkdf2_length [simp]: "length (pbkdf2_hmac pw salt it n) = n"
proof -
  have "n \<le> 32 * ((n + 31) div 32)" by linarith
  then show ?thesis by (simp add: pbkdf2_hmac_def pbkdf2_blocks_length del: upt_Suc)
qed

lemma scrypt_length [simp]: "length (scrypt pw salt n r p dklen) = dklen"
  by (simp add: scrypt_def Let_def)

end
