(* ===== verification/Jose.thy ===== *)
theory Jose
  imports Kdf Json
begin

text \<open>
  \<open>crypto/jose.py\<close>: compact RS256 tokens and \<open>ECDH-ES\<close> encryption. RSA, elliptic curves and
  AES-GCM belong to the \<open>cryptography\<close> package, and \<open>json.loads\<close> may return text this model's
  characters do not reach: they are arguments. \<open>None\<close> is a \<open>JWTError\<close> or a \<open>JWEError\<close>.
\<close>

definition ALGORITHM :: str where "ALGORITHM = ''RS256''"
definition CONTENT_ENCRYPTION :: str where "CONTENT_ENCRYPTION = ''A256GCM''"
definition IV_LENGTH :: nat where "IV_LENGTH = 12"
definition TAG_LENGTH :: nat where "TAG_LENGTH = 16"
definition CEK_LENGTH :: nat where "CEK_LENGTH = 32"
definition MAX_JWT_LENGTH :: nat where "MAX_JWT_LENGTH = 8 * 1024"
definition MAX_JWE_LENGTH :: nat where "MAX_JWE_LENGTH = 250 * 1024"
definition MAX_JWE_HEADER_LENGTH :: nat where "MAX_JWE_HEADER_LENGTH = 8 * 1024"

subsection \<open>Writing JSON\<close>

text \<open>
  \<open>json.dumps(value, separators=(",", ":"))\<close>. With \<open>ensure_ascii\<close>, everything but printable
  ASCII is escaped; without it only quotes, backslashes and control characters are. How a
  \<open>float\<close> prints is \<open>show_float\<close>.
\<close>

definition json_escape :: "bool \<Rightarrow> char \<Rightarrow> str" where
  "json_escape ensure_ascii c =
     (if c = CHR 0x22 then [CHR 0x5C, CHR 0x22]
      else if c = CHR 0x5C then [CHR 0x5C, CHR 0x5C]
      else if ord c = 10 then [CHR 0x5C, CHR ''n'']
      else if ord c = 13 then [CHR 0x5C, CHR ''r'']
      else if ord c = 9 then [CHR 0x5C, CHR ''t'']
      else if ord c = 12 then [CHR 0x5C, CHR ''f'']
      else if ord c = 8 then [CHR 0x5C, CHR ''b'']
      else if ord c < 32 \<or> ensure_ascii \<and> 126 < ord c then
        [CHR 0x5C, CHR ''u'', CHR ''0'', CHR ''0''] @ hex_of_byte (ord c)
      else [c])"

definition json_string :: "bool \<Rightarrow> str \<Rightarrow> str" where
  "json_string ensure_ascii s = [CHR 0x22] @ concat (map (json_escape ensure_ascii) s) @ [CHR 0x22]"

fun json_dumps :: "(pyfloat \<Rightarrow> str) \<Rightarrow> bool \<Rightarrow> json \<Rightarrow> str" where
  "json_dumps show_float ea JNull = ''null''"
| "json_dumps show_float ea (JBool b) = (if b then ''true'' else ''false'')"
| "json_dumps show_float ea (JInt n) = show_int n"
| "json_dumps show_float ea (JFloat x) = show_float x"
| "json_dumps show_float ea (JStr s) = json_string ea s"
| "json_dumps show_float ea (JArr vs) = ''['' @ join '','' (map (json_dumps show_float ea) vs) @ '']''"
| "json_dumps show_float ea (JObj kvs) =
     ''{'' @ join '','' (map (\<lambda>(k, v). json_string ea k @ '':'' @ json_dumps show_float ea v) kvs) @ ''}''"

text \<open>
  What the standard library does with JSON text, and how it prints a \<open>float\<close> and, for \<open>str\<close>
  of a value, a list or a dict.
\<close>

record json_lib =
  json_loads :: "bytes \<Rightarrow> json option"
  float_repr :: "pyfloat \<Rightarrow> str"
  container_repr :: "json \<Rightarrow> str"

definition b64u_json :: "json_lib \<Rightarrow> (str \<times> json) list \<Rightarrow> str" where
  "b64u_json jl v = b64u_encode (encode_utf8 (json_dumps (float_repr jl) False (JObj v)))"

definition json_object :: "json_lib \<Rightarrow> str \<Rightarrow> (str \<times> json) list option" where
  "json_object jl segment =
     (case Option.bind (b64u_decode segment) (json_loads jl) of
        Some (JObj v) \<Rightarrow> Some v
      | _ \<Rightarrow> None)"

subsection \<open>Signed tokens\<close>

record 'key rsa =
  rsa_sign :: "bytes \<Rightarrow> bytes"
  rsa_verify :: "'key \<Rightarrow> bytes \<Rightarrow> bytes \<Rightarrow> bool"

definition jwt_header :: "str \<Rightarrow> str \<Rightarrow> (str \<times> json) list" where
  "jwt_header typ kid = [(''alg'', JStr ALGORITHM), (''typ'', JStr typ), (''kid'', JStr kid)]"

definition signing_input :: "str \<Rightarrow> str \<Rightarrow> str" where
  "signing_input h p = h @ ''.'' @ p"

definition sign_jwt ::
  "json_lib \<Rightarrow> 'key rsa \<Rightarrow> (str \<times> json) list \<Rightarrow> str \<Rightarrow> str \<Rightarrow> str" where
  "sign_jwt jl rsa claims kid typ =
     (let m = signing_input (b64u_json jl (jwt_header typ kid)) (b64u_json jl claims)
      in m @ ''.'' @ b64u_encode (rsa_sign rsa (map ord m)))"

definition decode_jwt_header :: "json_lib \<Rightarrow> str \<Rightarrow> (str \<times> json) list option" where
  "decode_jwt_header jl token =
     (if MAX_JWT_LENGTH < length token then None
      else json_object jl (fst (partition CHR ''.'' token)))"

text \<open>A time claim: absent, or an \<open>int\<close> or a \<open>float\<close>, never a \<open>bool\<close>.\<close>

definition numeric_date :: "(str \<times> json) list \<Rightarrow> str \<Rightarrow> json option option" where
  "numeric_date claims name =
     (case map_of claims name of
        None \<Rightarrow> Some None
      | Some (JInt n) \<Rightarrow> Some (Some (JInt n))
      | Some (JFloat x) \<Rightarrow> Some (Some (JFloat x))
      | Some _ \<Rightarrow> None)"

text \<open>\<open>now >= expires + leeway\<close>; no comparison with a NaN holds.\<close>

fun date_past :: "int \<Rightarrow> int \<Rightarrow> json \<Rightarrow> bool" where
  "date_past now leeway (JInt e) \<longleftrightarrow> e + leeway \<le> now"
| "date_past now leeway (JFloat (PFin r)) \<longleftrightarrow>
     (case to_float (r + of_int leeway) of PFin x \<Rightarrow> x \<le> of_int now | PNegInf \<Rightarrow> True | _ \<Rightarrow> False)"
| "date_past now leeway (JFloat PNegInf) \<longleftrightarrow> True"
| "date_past now leeway _ \<longleftrightarrow> False"

datatype 'key key_set = KeyMap "(str \<times> 'key) list" | OneKey 'key

definition key_for :: "'key key_set \<Rightarrow> (str \<times> json) list \<Rightarrow> 'key option" where
  "key_for keys header =
     (case keys of
        OneKey k \<Rightarrow> Some k
      | KeyMap m \<Rightarrow> (case obj_get header ''kid'' of JStr kid \<Rightarrow> map_of m kid | _ \<Rightarrow> None))"

definition checked_claims :: "json_lib \<Rightarrow> int \<Rightarrow> int \<Rightarrow> str \<Rightarrow> (str \<times> json) list option" where
  "checked_claims jl now leeway segment =
     Option.bind (json_object jl segment) (\<lambda>claims.
     Option.bind (numeric_date claims ''exp'') (\<lambda>expires.
     Option.bind (numeric_date claims ''iat'') (\<lambda>_.
       (case expires of
          None \<Rightarrow> Some claims
        | Some e \<Rightarrow> if date_past now leeway e then None else Some claims))))"

definition verify_jwt ::
  "json_lib \<Rightarrow> 'key rsa \<Rightarrow> 'key key_set \<Rightarrow> int \<Rightarrow> int \<Rightarrow> str \<Rightarrow> (str \<times> json) list option" where
  "verify_jwt jl rsa keys now leeway token =
     (if MAX_JWT_LENGTH < length token then None
      else
        (case split CHR ''.'' token of
           [h, p, sig] \<Rightarrow>
             Option.bind (decode_jwt_header jl token) (\<lambda>header.
               if obj_get header ''alg'' \<noteq> JStr ALGORITHM then None
               else
                 Option.bind (key_for keys header) (\<lambda>key.
                 Option.bind (b64u_decode sig) (\<lambda>signature.
                 Option.bind (encode_ascii (signing_input h p)) (\<lambda>m.
                   if rsa_verify rsa key signature m then checked_claims jl now leeway p
                   else None))))
         | _ \<Rightarrow> None))"

subsection \<open>JWKs\<close>

text \<open>\<open>b64u_uint\<close> and \<open>uint_b64u\<close>: big-endian, at least one byte.\<close>

fun be_bytes :: "nat \<Rightarrow> bytes" where
  "be_bytes n = (if n < 256 then [n] else be_bytes (n div 256) @ [n mod 256])"

declare be_bytes.simps [simp del]

definition of_be_bytes :: "bytes \<Rightarrow> nat" where
  "of_be_bytes bs = foldl (\<lambda>n b. n * 256 + b) 0 bs"

definition b64u_uint :: "nat \<Rightarrow> str" where
  "b64u_uint n = b64u_encode (be_bytes n)"

definition uint_b64u :: "str \<Rightarrow> nat option" where
  "uint_b64u s = map_option of_be_bytes (b64u_decode s)"

text \<open>A private RSA key is its numbers; \<open>key_id\<close> needs a date and a PEM and is an argument.\<close>

record rsa_numbers =
  rsa_n :: nat
  rsa_e :: nat
  rsa_d :: nat
  rsa_p :: nat
  rsa_q :: nat
  rsa_dp :: nat
  rsa_dq :: nat
  rsa_qi :: nat

definition private_key_to_jwk :: "rsa_numbers \<Rightarrow> str \<Rightarrow> int \<Rightarrow> (str \<times> json) list" where
  "private_key_to_jwk k kid created_at =
     [(''kty'', JStr ''RSA''), (''kid'', JStr kid), (''alg'', JStr ''RS256''), (''use'', JStr ''sig''),
      (''fxa-createdAt'', JInt created_at), (''n'', JStr (b64u_uint (rsa_n k))),
      (''e'', JStr (b64u_uint (rsa_e k))), (''d'', JStr (b64u_uint (rsa_d k))),
      (''p'', JStr (b64u_uint (rsa_p k))), (''q'', JStr (b64u_uint (rsa_q k))),
      (''dp'', JStr (b64u_uint (rsa_dp k))), (''dq'', JStr (b64u_uint (rsa_dq k))),
      (''qi'', JStr (b64u_uint (rsa_qi k)))]"

definition get_or :: "(str \<times> json) list \<Rightarrow> str \<Rightarrow> json \<Rightarrow> json" where
  "get_or d k v = (case map_of d k of None \<Rightarrow> v | Some x \<Rightarrow> x)"

text \<open>\<open>None\<close> is the \<open>KeyError\<close> for a JWK without one of the four required members.\<close>

definition public_jwk :: "(str \<times> json) list \<Rightarrow> (str \<times> json) list option" where
  "public_jwk jwk =
     (case (map_of jwk ''kty'', map_of jwk ''kid'', map_of jwk ''n'', map_of jwk ''e'') of
        (Some kty, Some kid, Some n, Some e) \<Rightarrow>
          Some ([(''kty'', kty), (''alg'', get_or jwk ''alg'' (JStr ''RS256'')), (''kid'', kid),
              (''use'', get_or jwk ''use'' (JStr ''sig'')), (''n'', n), (''e'', e)] @
            (case map_of jwk ''fxa-createdAt'' of None \<Rightarrow> [] | Some t \<Rightarrow> [(''fxa-createdAt'', t)]))
      | _ \<Rightarrow> None)"

text \<open>A member that is not a string makes \<open>fullmatch\<close> raise: \<open>None\<close> as well.\<close>

definition uint_member :: "(str \<times> json) list \<Rightarrow> str \<Rightarrow> nat option" where
  "uint_member jwk name = (case map_of jwk name of Some (JStr s) \<Rightarrow> uint_b64u s | _ \<Rightarrow> None)"

definition jwk_to_private_key :: "(str \<times> json) list \<Rightarrow> rsa_numbers option" where
  "jwk_to_private_key jwk =
     (if obj_get jwk ''kty'' \<noteq> JStr ''RSA'' then None
      else
        (case map (uint_member jwk) [''n'', ''e'', ''d'', ''p'', ''q'', ''dp'', ''dq'', ''qi''] of
           [Some n, Some e, Some d, Some p, Some q, Some dp, Some dq, Some qi] \<Rightarrow>
             Some \<lparr>rsa_n = n, rsa_e = e, rsa_d = d, rsa_p = p, rsa_q = q, rsa_dp = dp, rsa_dq = dq,
               rsa_qi = qi\<rparr>
         | _ \<Rightarrow> None))"

definition jwk_to_public_key :: "(str \<times> json) list \<Rightarrow> (nat \<times> nat) option" where
  "jwk_to_public_key jwk =
     (if obj_get jwk ''kty'' \<noteq> JStr ''RSA'' then None
      else
        (case (uint_member jwk ''n'', uint_member jwk ''e'') of
           (Some n, Some e) \<Rightarrow> Some (n, e)
         | _ \<Rightarrow> None))"

subsection \<open>Facts\<close>

lemma utf8_bytes: "bytes_ok (encode_utf8 s)"
proof -
  have "b < 256" if "b \<in> set (utf8_char c)" for b c
  proof (cases "ord c < 128")
    case False
    have "ord c div 64 < 4" using ord_less_256 [of c] by (simp add: less_mult_imp_div_less)
    moreover have "ord c mod 64 < 64" by simp
    moreover have "b = 192 + ord c div 64 \<or> b = 128 + ord c mod 64"
      using that False by (simp add: utf8_char_def)
    ultimately show ?thesis by linarith
  qed (use that in \<open>simp add: utf8_char_def\<close>)
  then show ?thesis by (auto simp: bytes_ok_def encode_utf8_def)
qed

lemma b64u_no_dot: "bytes_ok bs \<Longrightarrow> CHR ''.'' \<notin> set (b64u_encode bs)"
proof
  assume "bytes_ok bs" "CHR ''.'' \<in> set (b64u_encode bs)"
  then have "is_b64url CHR ''.''"
    using b64u_encode_digits(1) [of bs] by (auto simp: list_all_iff)
  moreover have "\<not> is_b64url CHR ''.''" by code_simp
  ultimately show False by simp
qed

lemma b64u_json_shape:
  "CHR ''.'' \<notin> set (b64u_json jl v)" "isascii (b64u_json jl v)"
  "json_loads jl (encode_utf8 (json_dumps (float_repr jl) False (JObj v))) = Some (JObj v) \<Longrightarrow>
     json_object jl (b64u_json jl v) = Some v"
  by (simp_all add: b64u_json_def b64u_no_dot b64u_encode_digits utf8_bytes json_object_def
      b64u_decode_encode)

lemma isascii_append [simp]: "isascii (s @ t) \<longleftrightarrow> isascii s \<and> isascii t"
  by (simp add: isascii_def)

lemma split_three:
  assumes "c \<notin> set h" "c \<notin> set p" "c \<notin> set s"
  shows "split c (h @ [c] @ p @ [c] @ s) = [h, p, s]"
  using assms by (simp add: split_append split_absent)

lemma sign_jwt_parts:
  assumes "bytes_ok (rsa_sign rsa (map ord (signing_input (b64u_json jl (jwt_header typ kid)) (b64u_json jl claims))))"
  shows "split CHR ''.'' (sign_jwt jl rsa claims kid typ) =
      [b64u_json jl (jwt_header typ kid), b64u_json jl claims,
       b64u_encode (rsa_sign rsa (map ord (signing_input (b64u_json jl (jwt_header typ kid)) (b64u_json jl claims))))]"
    "fst (partition CHR ''.'' (sign_jwt jl rsa claims kid typ)) = b64u_json jl (jwt_header typ kid)"
proof -
  let ?h = "b64u_json jl (jwt_header typ kid)" and ?p = "b64u_json jl claims"
  let ?s = "b64u_encode (rsa_sign rsa (map ord (signing_input ?h ?p)))"
  have tok: "sign_jwt jl rsa claims kid typ = ?h @ ''.'' @ ?p @ ''.'' @ ?s"
    by (simp add: sign_jwt_def Let_def signing_input_def)
  show "split CHR ''.'' (sign_jwt jl rsa claims kid typ) = [?h, ?p, ?s]"
    unfolding tok by (rule split_three) (simp_all add: b64u_json_shape b64u_no_dot assms)
  show "fst (partition CHR ''.'' (sign_jwt jl rsa claims kid typ)) = ?h"
    unfolding tok by (simp add: partition_append b64u_json_shape(1))
qed

text \<open>What the two libraries promise about one token: RSA and JSON undo themselves on it.\<close>

definition lib_reads :: "json_lib \<Rightarrow> (str \<times> json) list \<Rightarrow> bool" where
  "lib_reads jl v \<longleftrightarrow>
     json_loads jl (encode_utf8 (json_dumps (float_repr jl) False (JObj v))) = Some (JObj v)"

definition rsa_signs :: "'key rsa \<Rightarrow> 'key \<Rightarrow> bool" where
  "rsa_signs rsa key \<longleftrightarrow> (\<forall>m. bytes_ok (rsa_sign rsa m) \<and> rsa_verify rsa key (rsa_sign rsa m) m)"

lemma verify_sign_jwt:
  assumes "lib_reads jl (jwt_header typ kid)" and c: "lib_reads jl claims" and r: "rsa_signs rsa key"
    and k: "map_of m kid = Some key" and l: "length (sign_jwt jl rsa claims kid typ) \<le> MAX_JWT_LENGTH"
  shows "verify_jwt jl rsa (KeyMap m) now leeway (sign_jwt jl rsa claims kid typ) =
      checked_claims jl now leeway (b64u_json jl claims)"
    and "decode_jwt_header jl (sign_jwt jl rsa claims kid typ) = Some (jwt_header typ kid)"
    and "json_object jl (b64u_json jl claims) = Some claims"
proof -
  let ?h = "b64u_json jl (jwt_header typ kid)" and ?p = "b64u_json jl claims"
  let ?m = "map ord (signing_input ?h ?p)"
  have b: "bytes_ok (rsa_sign rsa ?m)" "rsa_verify rsa key (rsa_sign rsa ?m) ?m"
    using r by (auto simp: rsa_signs_def)
  note parts = sign_jwt_parts [OF b(1)]
  have "json_object jl ?h = Some (jwt_header typ kid)"
    using assms(1) by (simp add: lib_reads_def b64u_json_shape(3))
  then show h: "decode_jwt_header jl (sign_jwt jl rsa claims kid typ) = Some (jwt_header typ kid)"
    using l parts(2) by (simp add: decode_jwt_header_def)
  show "json_object jl ?p = Some claims" using c by (simp add: lib_reads_def b64u_json_shape(3))
  have "encode_ascii (signing_input ?h ?p) = Some ?m"
    using b64u_json_shape(2) by (simp add: encode_ascii_def signing_input_def isascii_def is_ascii_def ord_def)
  moreover have "key_for (KeyMap m) (jwt_header typ kid) = Some key"
    using k by (simp add: key_for_def jwt_header_def obj_get_def)
  moreover have "obj_get (jwt_header typ kid) ''alg'' = JStr ALGORITHM"
    by (simp add: jwt_header_def obj_get_def)
  ultimately show "verify_jwt jl rsa (KeyMap m) now leeway (sign_jwt jl rsa claims kid typ) =
      checked_claims jl now leeway ?p"
    using l h b parts(1) by (simp add: verify_jwt_def b64u_decode_encode)
qed

lemma verify_jwtD:
  assumes "verify_jwt jl rsa keys now leeway token = Some claims"
  obtains h p sig header key signature m where "split CHR ''.'' token = [h, p, sig]"
    "length token \<le> MAX_JWT_LENGTH" "decode_jwt_header jl token = Some header"
    "obj_get header ''alg'' = JStr ALGORITHM" "key_for keys header = Some key"
    "b64u_decode sig = Some signature" "encode_ascii (signing_input h p) = Some m"
    "rsa_verify rsa key signature m" "checked_claims jl now leeway p = Some claims"
proof -
  have len: "length token \<le> MAX_JWT_LENGTH" using assms by (auto simp: verify_jwt_def split: if_splits)
  then obtain h p sig where s: "split CHR ''.'' token = [h, p, sig]"
    using assms by (auto simp: verify_jwt_def split: list.splits)
  show ?thesis
    using that [OF s len] assms len s
    by (auto simp: verify_jwt_def split: if_splits bind_splits)
qed

lemma checked_claims_Some:
  "checked_claims jl now leeway p = Some claims \<longleftrightarrow>
     json_object jl p = Some claims \<and> numeric_date claims ''iat'' \<noteq> None \<and>
     (\<exists>e. numeric_date claims ''exp'' = Some e \<and> (\<forall>d. e = Some d \<longrightarrow> \<not> date_past now leeway d))"
proof (cases "json_object jl p = Some claims \<and> numeric_date claims ''iat'' \<noteq> None")
  case True
  then show ?thesis
    by (cases "numeric_date claims ''exp''" rule: option.exhaust)
      (auto simp: checked_claims_def split: option.splits)
next
  case False
  then show ?thesis
    by (auto simp: checked_claims_def bind_eq_Some_conv split: option.splits if_splits)
qed

text \<open>
  C14: A token this server signs is accepted under its key id until the second its \<open>exp\<close>
  names and refused from then on, and what verification returns is the claims that were signed,
  every one of them. RSA and JSON have to undo themselves on that one token.
\<close>

theorem signed_token_lifetime:
  assumes "lib_reads jl (jwt_header typ kid)" "lib_reads jl claims" "rsa_signs rsa key"
    and "map_of m kid = Some key" "length (sign_jwt jl rsa claims kid typ) \<le> MAX_JWT_LENGTH"
    and t: "map_of claims ''exp'' = Some (JInt e)" "map_of claims ''iat'' = Some (JInt i)"
  shows "verify_jwt jl rsa (KeyMap m) now 0 (sign_jwt jl rsa claims kid typ) =
    (if e \<le> now then None else Some claims)"
  unfolding verify_sign_jwt(1) [OF assms(1-5)]
  using verify_sign_jwt(3) [OF assms(1-5)] t by (simp add: checked_claims_def numeric_date_def)

definition sample_claims :: "(str \<times> json) list" where
  "sample_claims = [(''sub'', JStr ''u''), (''exp'', JInt 20), (''iat'', JInt 10)]"

definition sample_lib :: "(str \<times> json) list list \<Rightarrow> json_lib" where
  "sample_lib vs = \<lparr>json_loads = \<lambda>b. map_option JObj
       (find (\<lambda>v. encode_utf8 (json_dumps (\<lambda>_. []) False (JObj v)) = b) vs), float_repr = \<lambda>_. [],
     container_repr = \<lambda>_. []\<rparr>"

definition sample_rsa :: "bool rsa" where
  "sample_rsa = \<lparr>rsa_sign = \<lambda>m. [length m mod 256], rsa_verify = \<lambda>k s m. k \<and> s = [length m mod 256]\<rparr>"

lemma sample_rsa_signs [simp]: "rsa_signs sample_rsa True"
  by (simp add: rsa_signs_def sample_rsa_def bytes_ok_def)

theorem signed_token_lifetime_witness:
  "let jl = sample_lib [jwt_header ''JWT'' ''k1'', sample_claims];
       t = sign_jwt jl sample_rsa sample_claims ''k1'' ''JWT''
   in verify_jwt jl sample_rsa (KeyMap [(''k1'', True)]) 19 0 t = Some sample_claims \<and>
      verify_jwt jl sample_rsa (KeyMap [(''k1'', True)]) 20 0 t = None"
proof -
  let ?jl = "sample_lib [jwt_header ''JWT'' ''k1'', sample_claims]"
  let ?t = "sign_jwt ?jl sample_rsa sample_claims ''k1'' ''JWT''"
  have "encode_utf8 (json_dumps (\<lambda>_. []) False (JObj (jwt_header ''JWT'' ''k1''))) \<noteq>
      encode_utf8 (json_dumps (\<lambda>_. []) False (JObj sample_claims))" by code_simp
  then have r: "lib_reads ?jl (jwt_header ''JWT'' ''k1'')" "lib_reads ?jl sample_claims"
    by (simp_all add: lib_reads_def sample_lib_def)
  have l: "length ?t \<le> MAX_JWT_LENGTH" by code_simp
  note v = signed_token_lifetime [of ?jl "''JWT''" "''k1''" sample_claims sample_rsa True "[(''k1'', True)]" 20 10]
  have "verify_jwt ?jl sample_rsa (KeyMap [(''k1'', True)]) n 0 ?t = (if 20 \<le> n then None else Some sample_claims)" for n
    by (rule v [OF r]) (use l in \<open>simp_all add: sample_claims_def\<close>)
  then show ?thesis by (simp add: Let_def)
qed

subsection \<open>Keys as JWKs\<close>

lemma be_bytes_ok: "bytes_ok (be_bytes n)"
proof (induction n rule: be_bytes.induct)
  case (1 n)
  then show ?case by (subst be_bytes.simps) (auto simp: bytes_ok_def)
qed

lemma of_be_bytes_be: "of_be_bytes (be_bytes n) = n"
proof (induction n rule: be_bytes.induct)
  case (1 n)
  then show ?case by (subst be_bytes.simps) (simp add: of_be_bytes_def)
qed

lemma uint_b64u_uint: "uint_b64u (b64u_uint n) = Some n"
  by (simp add: uint_b64u_def b64u_uint_def b64u_decode_encode be_bytes_ok of_be_bytes_be)

text \<open>
  Publishing the signing key's public half loses nothing a verifier needs and shows
  nothing else: reading the published JWK gives the modulus and the exponent back, the private
  JWK reads back as the key itself, and not one private member is among the published ones.
\<close>

theorem published_jwk:
  "jwk_to_private_key (private_key_to_jwk k kid t) = Some k \<and>
   (\<exists>pub. public_jwk (private_key_to_jwk k kid t) = Some pub \<and>
      jwk_to_public_key pub = Some (rsa_n k, rsa_e k) \<and> obj_get pub ''kid'' = JStr kid \<and>
      set (map fst pub) \<inter> {''d'', ''p'', ''q'', ''dp'', ''dq'', ''qi''} = {})"
proof -
  have "jwk_to_private_key (private_key_to_jwk k kid t) = Some k"
    by (simp add: jwk_to_private_key_def private_key_to_jwk_def obj_get_def uint_member_def
        uint_b64u_uint)
  moreover obtain pub where pub: "public_jwk (private_key_to_jwk k kid t) = Some pub"
    and eq: "pub = [(''kty'', JStr ''RSA''), (''alg'', JStr ''RS256''), (''kid'', JStr kid), (''use'', JStr ''sig''),
      (''n'', JStr (b64u_uint (rsa_n k))), (''e'', JStr (b64u_uint (rsa_e k))), (''fxa-createdAt'', JInt t)]"
    by (simp add: public_jwk_def private_key_to_jwk_def get_or_def)
  moreover have "jwk_to_public_key pub = Some (rsa_n k, rsa_e k)"
    by (simp add: eq jwk_to_public_key_def obj_get_def uint_member_def uint_b64u_uint)
  moreover have "obj_get pub ''kid'' = JStr kid" by (simp add: eq obj_get_def)
  moreover have "set (map fst pub) \<inter> {''d'', ''p'', ''q'', ''dp'', ''dq'', ''qi''} = {}"
    by (simp add: eq)
  ultimately show ?thesis by blast
qed

end
