(* ===== verification/Jwe.thy ===== *)
theory Jwe
  imports Jose
begin

text \<open>
  The encrypted half of \<open>crypto/jose.py\<close>: the concat KDF, sealing to a relier's public key
  and opening again. The curve and AES-GCM are arguments; the ephemeral key and the IV, which
  the code draws at random, too.
\<close>

subsection \<open>Concat KDF\<close>

definition length_prefixed :: "bytes \<Rightarrow> bytes" where
  "length_prefixed d = be32 (length d) @ d"

function concat_loop :: "bytes \<Rightarrow> bytes \<Rightarrow> nat \<Rightarrow> bytes \<Rightarrow> nat \<Rightarrow> bytes" where
  "concat_loop z suffix n out counter =
     (if length out < n
      then concat_loop z suffix n (out @ sha256 (be32 counter @ z @ suffix)) (counter + 1)
      else take n out)"
  by pat_completeness auto
termination
  by (relation "measure (\<lambda>(_, _, n, out, _). n - length out)") auto

declare concat_loop.simps [simp del]

definition kdf_suffix :: "bytes \<Rightarrow> bytes \<Rightarrow> bytes \<Rightarrow> nat \<Rightarrow> bytes" where
  "kdf_suffix algorithm_id apu apv n =
     length_prefixed algorithm_id @ length_prefixed apu @ length_prefixed apv @ be32 (n * 8)"

definition concat_kdf :: "bytes \<Rightarrow> bytes \<Rightarrow> bytes \<Rightarrow> bytes \<Rightarrow> nat \<Rightarrow> bytes" where
  "concat_kdf shared_secret algorithm_id apu apv n =
     concat_loop shared_secret (kdf_suffix algorithm_id apu apv n) n [] 1"

subsection \<open>Keys and segments\<close>

record 'pub jwe_lib =
  ec_point :: "nat \<Rightarrow> nat \<Rightarrow> 'pub option"
  aes_seal :: "bytes \<Rightarrow> bytes \<Rightarrow> bytes \<Rightarrow> bytes \<Rightarrow> bytes"
  aes_open :: "bytes \<Rightarrow> bytes \<Rightarrow> bytes \<Rightarrow> bytes \<Rightarrow> bytes option"

fun be_fixed :: "nat \<Rightarrow> nat \<Rightarrow> bytes" where
  "be_fixed 0 n = []"
| "be_fixed (Suc k) n = be_fixed k (n div 256) @ [n mod 256]"

definition ec_public_key_to_jwk :: "nat \<Rightarrow> nat \<Rightarrow> (str \<times> json) list" where
  "ec_public_key_to_jwk x y =
     [(''kty'', JStr ''EC''), (''crv'', JStr ''P-256''), (''x'', JStr (b64u_encode (be_fixed 32 x))),
      (''y'', JStr (b64u_encode (be_fixed 32 y)))]"

definition jwk_to_ec_public_key :: "'pub jwe_lib \<Rightarrow> (str \<times> json) list \<Rightarrow> 'pub option" where
  "jwk_to_ec_public_key wl jwk =
     (if obj_get jwk ''kty'' \<noteq> JStr ''EC'' then None
      else if obj_get jwk ''crv'' \<noteq> JStr ''P-256'' then None
      else if map_of jwk ''d'' \<noteq> None then None
      else
        (case (uint_member jwk ''x'', uint_member jwk ''y'') of
           (Some x, Some y) \<Rightarrow> ec_point wl x y
         | _ \<Rightarrow> None))"

definition segment_bytes :: "str \<Rightarrow> nat option \<Rightarrow> bytes option" where
  "segment_bytes s n =
     Option.bind (b64u_decode s) (\<lambda>raw.
       (case n of None \<Rightarrow> Some raw | Some k \<Rightarrow> if length raw \<noteq> k then None else Some raw))"

definition party_info :: "(str \<times> json) list \<Rightarrow> str \<Rightarrow> bytes option" where
  "party_info header name =
     (case obj_get header name of
        JNull \<Rightarrow> Some []
      | JStr s \<Rightarrow> segment_bytes s None
      | _ \<Rightarrow> None)"

subsection \<open>Sealing and opening\<close>

text \<open>\<open>sealed[:-16]\<close> and \<open>sealed[-16:]\<close>.\<close>

definition seal :: "json_lib \<Rightarrow> 'pub jwe_lib \<Rightarrow> bytes \<Rightarrow> (str \<times> json) list \<Rightarrow> bytes \<Rightarrow> bytes \<Rightarrow> str option" where
  "seal jl wl iv header cek plaintext =
     (if length cek \<noteq> CEK_LENGTH then None
      else
        let protected = b64u_json jl header;
            sealed = aes_seal wl cek iv plaintext (map ord protected);
            ciphertext = take (length sealed - TAG_LENGTH) sealed;
            tag = drop (length sealed - TAG_LENGTH) sealed
        in Some (protected @ ''..'' @ b64u_encode iv @ ''.'' @ b64u_encode ciphertext @ ''.'' @
             b64u_encode tag))"

definition jwe_header :: "(str \<times> json) list \<Rightarrow> (str \<times> json) list \<Rightarrow> bytes \<Rightarrow> bytes \<Rightarrow> (str \<times> json) list" where
  "jwe_header recipient epk apu apv =
     [(''alg'', JStr ''ECDH-ES''), (''enc'', JStr CONTENT_ENCRYPTION), (''epk'', JObj epk)] @
     (if apu \<noteq> [] then [(''apu'', JStr (b64u_encode apu))] else []) @
     (if apv \<noteq> [] then [(''apv'', JStr (b64u_encode apv))] else []) @
     (case map_of recipient ''kid'' of None \<Rightarrow> [] | Some k \<Rightarrow> [(''kid'', k)])"

text \<open>The ephemeral key is its public point and its half of the agreement.\<close>

definition encrypt_jwe_ecdh_es ::
  "json_lib \<Rightarrow> 'pub jwe_lib \<Rightarrow> nat \<times> nat \<Rightarrow> ('pub \<Rightarrow> bytes) \<Rightarrow> bytes \<Rightarrow> (str \<times> json) list \<Rightarrow> bytes \<Rightarrow>
     bytes \<Rightarrow> bytes \<Rightarrow> str option" where
  "encrypt_jwe_ecdh_es jl wl point exchange iv recipient_jwk plaintext apu apv =
     Option.bind (jwk_to_ec_public_key wl recipient_jwk) (\<lambda>recipient.
       seal jl wl iv (jwe_header recipient_jwk (ec_public_key_to_jwk (fst point) (snd point)) apu apv)
         (concat_kdf (exchange recipient) (map ord CONTENT_ENCRYPTION) apu apv CEK_LENGTH) plaintext)"

definition jwe_header_ok :: "(str \<times> json) list \<Rightarrow> bool" where
  "jwe_header_ok header \<longleftrightarrow>
     obj_get header ''alg'' = JStr ''ECDH-ES'' \<and> obj_get header ''enc'' = JStr CONTENT_ENCRYPTION \<and>
     map_of header ''zip'' = None \<and> map_of header ''crit'' = None"

definition jwe_key :: "'pub jwe_lib \<Rightarrow> ('pub \<Rightarrow> bytes) \<Rightarrow> (str \<times> json) list \<Rightarrow> bytes option" where
  "jwe_key wl exchange header =
     (case obj_get header ''epk'' of
        JObj epk \<Rightarrow>
          Option.bind (jwk_to_ec_public_key wl epk) (\<lambda>point.
          Option.bind (party_info header ''apu'') (\<lambda>apu.
          Option.bind (party_info header ''apv'') (\<lambda>apv.
            Some (concat_kdf (exchange point) (map ord CONTENT_ENCRYPTION) apu apv CEK_LENGTH))))
      | _ \<Rightarrow> None)"

definition decrypt_jwe :: "json_lib \<Rightarrow> 'pub jwe_lib \<Rightarrow> ('pub \<Rightarrow> bytes) \<Rightarrow> str \<Rightarrow> bytes option" where
  "decrypt_jwe jl wl exchange jwe =
     (if MAX_JWE_LENGTH < length jwe then None
      else
        (case split CHR ''.'' jwe of
           [protected, encrypted_key, iv, ciphertext, tag] \<Rightarrow>
             if MAX_JWE_HEADER_LENGTH < length protected then None
             else
               Option.bind (json_object jl protected) (\<lambda>header.
                 if \<not> jwe_header_ok header \<or> encrypted_key \<noteq> [] then None
                 else
                   Option.bind (jwe_key wl exchange header) (\<lambda>cek.
                   Option.bind (segment_bytes iv (Some IV_LENGTH)) (\<lambda>nonce.
                   Option.bind (segment_bytes ciphertext None) (\<lambda>c.
                   Option.bind (segment_bytes tag (Some TAG_LENGTH)) (\<lambda>t.
                     aes_open wl cek nonce (c @ t) (map ord protected))))))
         | _ \<Rightarrow> None))"

subsection \<open>The KDF is the standard's\<close>

text \<open>SP 800-56A: the blocks for counters 1, 2, ... one after the other, cut to length.\<close>

definition kdf_blocks :: "bytes \<Rightarrow> bytes \<Rightarrow> nat \<Rightarrow> bytes" where
  "kdf_blocks z suffix m = concat (map (\<lambda>i. sha256 (be32 i @ z @ suffix)) [1..<Suc m])"

lemma kdf_blocks_Suc:
  "kdf_blocks z suffix (Suc m) = kdf_blocks z suffix m @ sha256 (be32 (Suc m) @ z @ suffix)"
  by (simp add: kdf_blocks_def)

lemma kdf_blocks_length [simp]: "length (kdf_blocks z suffix m) = 32 * m"
  by (induction m) (simp_all add: kdf_blocks_Suc, simp add: kdf_blocks_def)

lemma concat_loop_blocks:
  "n \<le> 32 * (m + k) \<Longrightarrow>
     concat_loop z suffix n (kdf_blocks z suffix m) (m + 1) = take n (kdf_blocks z suffix (m + k))"
proof (induction k arbitrary: m)
  case 0
  then show ?case by (simp add: concat_loop.simps)
next
  case (Suc k)
  show ?case
  proof (cases "32 * m < n")
    case True
    then have "concat_loop z suffix n (kdf_blocks z suffix m) (m + 1) =
        concat_loop z suffix n (kdf_blocks z suffix (Suc m)) (Suc m + 1)"
      by (subst concat_loop.simps) (simp add: kdf_blocks_Suc)
    then show ?thesis using Suc.IH [of "Suc m"] Suc.prems by simp
  next
    case False
    have "take n (kdf_blocks z suffix (m + j)) = take n (kdf_blocks z suffix m)" for j
      using False by (induction j) (simp_all add: kdf_blocks_Suc)
    from this [of "Suc k"] show ?thesis using False by (simp add: concat_loop.simps)
  qed
qed

lemma concat_kdf_blocks:
  assumes "n \<le> 32 * k"
  shows "concat_kdf z a u v n = take n (kdf_blocks z (kdf_suffix a u v n) k)"
proof -
  have "kdf_blocks z s 0 = []" for s by (simp add: kdf_blocks_def)
  then show ?thesis
    using concat_loop_blocks [of n 0 k z "kdf_suffix a u v n"] assms by (simp add: concat_kdf_def)
qed

lemma concat_kdf_length: "length (concat_kdf z a u v n) = n"
  using concat_kdf_blocks [of n n] by simp

subsection \<open>What is sealed to a key is opened with it\<close>

lemma be_fixed_bytes: "bytes_ok (be_fixed k n)"
  by (induction k arbitrary: n) (simp_all add: bytes_ok_def)

lemma of_be_fixed: "n < 256 ^ k \<Longrightarrow> of_be_bytes (be_fixed k n) = n"
proof (induction k arbitrary: n)
  case (Suc k)
  then have "n div 256 < 256 ^ k" by (simp add: less_mult_imp_div_less mult.commute)
  then have "of_be_bytes (be_fixed k (n div 256)) = n div 256" by (rule Suc.IH)
  then show ?case by (simp add: of_be_bytes_def)
qed (simp add: of_be_bytes_def)

lemma ec_jwk_roundtrip:
  assumes "x < 256 ^ 32" "y < 256 ^ 32"
  shows "jwk_to_ec_public_key wl (ec_public_key_to_jwk x y) = ec_point wl x y"
proof -
  have "uint_b64u (b64u_encode (be_fixed 32 v)) = Some v" if "v < 256 ^ 32" for v
    using that by (simp only: uint_b64u_def b64u_decode_encode be_fixed_bytes of_be_fixed option.map)
  then show ?thesis
    using assms
    by (simp add: jwk_to_ec_public_key_def ec_public_key_to_jwk_def obj_get_def uint_member_def)
qed

lemma segment_roundtrip:
  "bytes_ok b \<Longrightarrow> segment_bytes (b64u_encode b) None = Some b"
  "bytes_ok b \<Longrightarrow> length b = n \<Longrightarrow> segment_bytes (b64u_encode b) (Some n) = Some b"
  by (simp_all add: segment_bytes_def b64u_decode_encode)

lemma jwe_header_fields:
  assumes "bytes_ok apu" "bytes_ok apv"
  shows "jwe_header_ok (jwe_header r epk apu apv)" "obj_get (jwe_header r epk apu apv) ''epk'' = JObj epk"
    "party_info (jwe_header r epk apu apv) ''apu'' = Some apu"
    "party_info (jwe_header r epk apu apv) ''apv'' = Some apv"
  using assms
  by (auto simp: jwe_header_def jwe_header_ok_def obj_get_def party_info_def segment_roundtrip
      split: option.splits)

lemma dots_split:
  assumes "c \<notin> set a" "c \<notin> set b" "c \<notin> set d" "c \<notin> set e"
  shows "split c (a @ [c, c] @ b @ [c] @ d @ [c] @ e) = [a, [], b, d, e]"
proof -
  have "split c (a @ [c] @ ([c] @ b @ [c] @ d @ [c] @ e)) = a # split c ([c] @ b @ [c] @ d @ [c] @ e)"
    using assms(1) by (simp add: split_append split_absent)
  moreover have "split c ([c] @ b @ [c] @ d @ [c] @ e) = [] # split c (b @ [c] @ d @ [c] @ e)" by simp
  ultimately show ?thesis using assms(2-4) split_three [of c b d e] by simp
qed

text \<open>
  What AES-GCM and the curve promise about the values of one encryption: opening undoes
  sealing, the sealed text carries a tag, and the two halves of the agreement meet.
\<close>

definition gcm_ok :: "'pub jwe_lib \<Rightarrow> bytes \<Rightarrow> bytes \<Rightarrow> bytes \<Rightarrow> bytes \<Rightarrow> bool" where
  "gcm_ok wl cek iv plaintext aad \<longleftrightarrow>
     (let c = aes_seal wl cek iv plaintext aad
      in bytes_ok c \<and> TAG_LENGTH \<le> length c \<and> aes_open wl cek iv c aad = Some plaintext)"

lemma seal_opens:
  assumes s: "seal jl wl iv header cek plaintext = Some jwe"
    and iv: "length iv = IV_LENGTH" "bytes_ok iv"
    and g: "gcm_ok wl cek iv plaintext (map ord (b64u_json jl header))"
    and h: "jwe_header_ok header" "lib_reads jl header"
    and k: "jwe_key wl exchange header = Some cek"
    and l: "length jwe \<le> MAX_JWE_LENGTH" "length (b64u_json jl header) \<le> MAX_JWE_HEADER_LENGTH"
  shows "decrypt_jwe jl wl exchange jwe = Some plaintext"
proof -
  let ?p = "b64u_json jl header" and ?c = "aes_seal wl cek iv plaintext (map ord (b64u_json jl header))"
  let ?x = "take (length ?c - TAG_LENGTH) ?c" and ?t = "drop (length ?c - TAG_LENGTH) ?c"
  have b: "bytes_ok ?c" "TAG_LENGTH \<le> length ?c" "aes_open wl cek iv ?c (map ord ?p) = Some plaintext"
    using g by (simp_all add: gcm_ok_def Let_def)
  then have xt: "bytes_ok ?x" "bytes_ok ?t" "length ?t = TAG_LENGTH" "?x @ ?t = ?c"
    by (auto simp: bytes_ok_take bytes_ok_drop)
  have "jwe = ?p @ [CHR ''.'', CHR ''.''] @ b64u_encode iv @ [CHR ''.''] @ b64u_encode ?x @ [CHR ''.''] @ b64u_encode ?t"
    using s by (simp add: seal_def Let_def split: if_splits)
  then have "split CHR ''.'' jwe = [?p, [], b64u_encode iv, b64u_encode ?x, b64u_encode ?t]"
    using dots_split [of "CHR ''.''" ?p "b64u_encode iv" "b64u_encode ?x" "b64u_encode ?t"]
      b64u_json_shape(1) b64u_no_dot [OF iv(2)] b64u_no_dot [OF xt(1)] b64u_no_dot [OF xt(2)]
    by (simp del: append_take_drop_id)
  moreover have "json_object jl ?p = Some header" using h(2) by (simp add: lib_reads_def b64u_json_shape(3))
  moreover note segment_roundtrip(2) [OF iv(2,1)] segment_roundtrip(1) [OF xt(1)]
    segment_roundtrip(2) [OF xt(2,3)]
  ultimately show ?thesis
    using l h(1) k b(3) xt(4) by (simp add: decrypt_jwe_def del: append_take_drop_id)
qed

text \<open>
  C15: What is sealed to a relier's key is opened with it: \<open>decrypt_jwe\<close> gives the plaintext of
  \<open>encrypt_jwe_ecdh_es\<close> back, through the header with the ephemeral key and the party information, the
  concat KDF, the nonce, the tag and the five segments. The token and its header are within the
  limits of size \<open>decrypt_jwe\<close> enforces, the ephemeral point is on the curve with coordinates of
  32 bytes, and of the libraries it needs that the two halves of the agreement meet, that AES-GCM opens
  what it sealed, and that \<open>loads\<close> reads the header \<open>dumps\<close> wrote.
\<close>

theorem jwe_roundtrip:
  assumes enc: "encrypt_jwe_ecdh_es jl wl (x, y) ephemeral iv recipient_jwk plaintext apu apv = Some jwe"
    and rec: "jwk_to_ec_public_key wl recipient_jwk = Some recipient"
    and eph: "ec_point wl x y = Some point" "x < 256 ^ 32" "y < 256 ^ 32"
    and agree: "own point = ephemeral recipient"
    and ok: "bytes_ok apu" "bytes_ok apv" "length iv = IV_LENGTH" "bytes_ok iv"
    and libs: "lib_reads jl (jwe_header recipient_jwk (ec_public_key_to_jwk x y) apu apv)"
      "\<And>cek aad. gcm_ok wl cek iv plaintext aad"
    and l: "length jwe \<le> MAX_JWE_LENGTH"
      "length (b64u_json jl (jwe_header recipient_jwk (ec_public_key_to_jwk x y) apu apv)) \<le> MAX_JWE_HEADER_LENGTH"
  shows "decrypt_jwe jl wl own jwe = Some plaintext"
proof -
  let ?h = "jwe_header recipient_jwk (ec_public_key_to_jwk x y) apu apv"
  let ?cek = "concat_kdf (ephemeral recipient) (map ord CONTENT_ENCRYPTION) apu apv CEK_LENGTH"
  have s: "seal jl wl iv ?h ?cek plaintext = Some jwe"
    using enc rec by (simp add: encrypt_jwe_ecdh_es_def)
  note f = jwe_header_fields [OF ok(1,2), of recipient_jwk "ec_public_key_to_jwk x y"]
  have "jwe_key wl own ?h = Some ?cek"
    using f ec_jwk_roundtrip [OF eph(2,3), of wl] eph(1) agree by (simp add: jwe_key_def)
  then show ?thesis using seal_opens [OF s ok(3,4) libs(2) f(1) libs(1)] l by blast
qed

text \<open>A codec and a cipher for one concrete encryption, to the key with coordinates 5 and 2.\<close>

definition sample_header :: "(str \<times> json) list" where
  "sample_header = jwe_header (ec_public_key_to_jwk 5 2) (ec_public_key_to_jwk 3 4) [] []"

definition sample_json_lib :: "(str \<times> json) list \<Rightarrow> json_lib" where
  "sample_json_lib v = \<lparr>json_loads = \<lambda>_. Some (JObj v), float_repr = \<lambda>_. [],
     container_repr = \<lambda>_. []\<rparr>"

definition sample_jwe_lib :: "(nat \<times> nat) jwe_lib" where
  "sample_jwe_lib = \<lparr>ec_point = \<lambda>x y. Some (x, y), aes_seal = \<lambda>_ _ p _. p @ replicate 16 0,
     aes_open = \<lambda>_ _ c _. Some (take (length c - 16) c)\<rparr>"

lemma sample_reads [simp]: "lib_reads (sample_json_lib v) v"
  by (simp add: lib_reads_def sample_json_lib_def)

lemma sample_protected: "length (b64u_json (sample_json_lib sample_header) sample_header) \<le> 8192"
  by code_simp

theorem jwe_roundtrip_witness:
  "\<exists>jwe. encrypt_jwe_ecdh_es (sample_json_lib sample_header) sample_jwe_lib (3, 4) (\<lambda>_. [7])
       (replicate 12 9) (ec_public_key_to_jwk 5 2) [1, 2, 3] [] [] = Some jwe \<and>
     decrypt_jwe (sample_json_lib sample_header) sample_jwe_lib (\<lambda>_. [7]) jwe = Some [1, 2, 3]"
proof -
  let ?p = "b64u_json (sample_json_lib sample_header) sample_header"
  have r: "jwk_to_ec_public_key sample_jwe_lib (ec_public_key_to_jwk 5 2) = Some (5, 2)"
    using ec_jwk_roundtrip [of 5 2 sample_jwe_lib] by (simp add: sample_jwe_lib_def)
  obtain jwe where jwe: "encrypt_jwe_ecdh_es (sample_json_lib sample_header) sample_jwe_lib (3, 4) (\<lambda>_. [7])
       (replicate 12 9) (ec_public_key_to_jwk 5 2) [1, 2, 3] [] [] = Some jwe"
    and eq: "jwe = ?p @ ''..'' @ b64u_encode (replicate 12 9) @ ''.'' @ b64u_encode [1, 2, 3] @ ''.'' @
      b64u_encode (replicate 16 0)"
    using r by (simp add: encrypt_jwe_ecdh_es_def seal_def concat_kdf_length CEK_LENGTH_def Let_def
        TAG_LENGTH_def sample_jwe_lib_def sample_header_def)
  have "length (b64u_encode (replicate 12 9)) + length (b64u_encode [1, 2, 3]) +
      length (b64u_encode (replicate 16 0)) \<le> 100" by code_simp
  then have l: "length jwe \<le> MAX_JWE_LENGTH" "length ?p \<le> MAX_JWE_HEADER_LENGTH"
    using sample_protected by (simp_all add: eq MAX_JWE_LENGTH_def MAX_JWE_HEADER_LENGTH_def)
  have g: "gcm_ok sample_jwe_lib cek iv [1, 2, 3] aad" for cek iv aad
    by (simp add: gcm_ok_def sample_jwe_lib_def TAG_LENGTH_def bytes_ok_def)
  have "decrypt_jwe (sample_json_lib sample_header) sample_jwe_lib (\<lambda>_. [7]) jwe = Some [1, 2, 3]"
    by (rule jwe_roundtrip [OF jwe r])
      (use l g in \<open>simp_all add: sample_header_def [symmetric] sample_jwe_lib_def IV_LENGTH_def bytes_ok_def\<close>)
  then show ?thesis using jwe by blast
qed

end
