(* ===== verification/Tokenlib.thy ===== *)
theory Tokenlib
  imports Jose
begin

text \<open>
  \<open>tokenserver/tokenlib.py\<close>: the pair of an opaque \<open>id\<close> and a \<open>key\<close> that the tokenserver
  mints and Sync storage checks. The three random bytes of a token's salt are an argument, and
  so is the DER encoding of the signing key.
\<close>

definition SIGNING_INFO :: bytes where
  "SIGNING_INFO = map ord ''services.mozilla.com/tokenlib/v1/signing''"

definition DERIVE_INFO :: bytes where
  "DERIVE_INFO = map ord ''services.mozilla.com/tokenlib/v1/derive/''"

definition SECRET_INFO :: bytes where
  "SECRET_INFO = map ord ''fxa-lite/tokenserver-shared-secret''"

definition TOKEN_MAC_LENGTH :: nat where "TOKEN_MAC_LENGTH = 32"

definition signing_key :: "str \<Rightarrow> bytes option" where
  "signing_key secret = hkdf (encode_utf8 secret) SIGNING_INFO [] 32"

definition derive_secret :: "str \<Rightarrow> str \<Rightarrow> str \<Rightarrow> str option" where
  "derive_secret token salt secret =
     Option.bind (encode_ascii token) (\<lambda>t.
     Option.bind (encode_ascii salt) (\<lambda>s.
       map_option urlsafe_b64encode (hkdf (encode_utf8 secret) (DERIVE_INFO @ t) s 32)))"

definition token_payload :: "json_lib \<Rightarrow> (str \<times> json) list \<Rightarrow> str \<Rightarrow> bytes" where
  "token_payload jl claims salt =
     encode_utf8 (json_dumps (float_repr jl) True (JObj (dict_set ''salt'' (JStr salt) claims)))"

definition make_token :: "json_lib \<Rightarrow> (str \<times> json) list \<Rightarrow> bytes \<Rightarrow> str \<Rightarrow> (str \<times> str) option" where
  "make_token jl claims salt_bytes secret =
     (let salt = hex_of salt_bytes; payload = token_payload jl claims salt
      in Option.bind (signing_key secret) (\<lambda>k.
         let token = urlsafe_b64encode (payload @ hmac_sha256 k payload)
         in map_option (\<lambda>key. (token, key)) (derive_secret token salt secret)))"

definition resolve_shared_secret :: "str option \<Rightarrow> bytes \<Rightarrow> str option" where
  "resolve_shared_secret configured der =
     (case configured of
        Some (c # cs) \<Rightarrow> Some (c # cs)
      | _ \<Rightarrow> map_option urlsafe_b64encode (hkdf der SECRET_INFO [] 32))"

definition metrics_hash :: "str \<Rightarrow> str \<Rightarrow> str" where
  "metrics_hash v secret = take 32 (hex_of (hmac_sha256 (encode_utf8 secret) (encode_utf8 v)))"

definition hashed_device_id :: "str \<Rightarrow> str \<Rightarrow> str" where
  "hashed_device_id hashed_fxa_uid secret = metrics_hash (hashed_fxa_uid @ ''none'') secret"

subsection \<open>Minting never fails\<close>

lemma hkdf_total:
  assumes "n \<le> 8160"
  obtains out where "hkdf ikm info salt n = Some out" "length out = n" "bytes_ok out"
  using assms that by (simp add: hkdf_rfc)

lemma signing_key_Some: obtains k where "signing_key secret = Some k" "length k = 32" "bytes_ok k"
  unfolding signing_key_def by (rule hkdf_total [of 32 "encode_utf8 secret" SIGNING_INFO "[]"]) simp_all

lemma hex_ascii: "isascii (hex_of bs)"
proof -
  have "\<forall>i < 16. is_ascii (hex_digits ! i)" by code_simp
  then show ?thesis by (induction bs) (simp_all add: hex_of_def hex_of_byte_def isascii_def)
qed

lemma urlsafe_ascii: "bytes_ok bs \<Longrightarrow> isascii (urlsafe_b64encode bs)"
  by (simp add: urlsafe_b64encode_def b64enc_isascii)

lemma derive_secret_Some:
  assumes "isascii token" "isascii salt"
  obtains key where "derive_secret token salt secret = Some key" "isascii key"
proof (rule hkdf_total [of 32 "encode_utf8 secret" "DERIVE_INFO @ map ord token" "map ord salt"])
  fix out
  assume "hkdf (encode_utf8 secret) (DERIVE_INFO @ map ord token) (map ord salt) 32 = Some out"
    "bytes_ok out"
  then show ?thesis
    using assms that [of "urlsafe_b64encode out"] by (simp add: derive_secret_def encode_ascii_def urlsafe_ascii)
qed simp

lemma make_token_Some:
  obtains token key k where "make_token jl claims salt secret = Some (token, key)"
    "signing_key secret = Some k" "derive_secret token (hex_of salt) secret = Some key" "isascii key"
    "token = urlsafe_b64encode (token_payload jl claims (hex_of salt) @
       hmac_sha256 k (token_payload jl claims (hex_of salt)))" "isascii token"
proof -
  obtain k where k: "signing_key secret = Some k" by (rule signing_key_Some)
  let ?p = "token_payload jl claims (hex_of salt)"
  let ?t = "urlsafe_b64encode (?p @ hmac_sha256 k ?p)"
  have b: "bytes_ok (?p @ hmac_sha256 k ?p)" by (simp add: token_payload_def utf8_bytes)
  obtain key where key: "derive_secret ?t (hex_of salt) secret = Some key" "isascii key"
    by (rule derive_secret_Some [OF urlsafe_ascii [OF b] hex_ascii])
  then have "make_token jl claims salt secret = Some (?t, key)"
    using k by (simp add: make_token_def Let_def)
  then show ?thesis using that k key urlsafe_ascii [OF b] by blast
qed

end
