(* ===== verification/Urls.thy ===== *)
theory Urls
  imports Kdf
begin

text \<open>
  The part of \<open>urllib.parse\<close> that configuration and redirects use: \<open>urlsplit\<close>, \<open>urlunsplit\<close>
  and \<open>urlencode\<close>. A host in brackets is refused here: \<open>None\<close>, as for the \<open>ValueError\<close> of a
  bracket that does not close.
\<close>

record url_parts =
  url_scheme :: str
  url_netloc :: str
  url_path :: str
  url_query :: str
  url_fragment :: str

definition is_scheme_char :: "char \<Rightarrow> bool" where
  "is_scheme_char c \<longleftrightarrow> is_alnum c \<or> c \<in> {CHR ''+'', CHR ''-'', CHR ''.''}"

definition split_scheme :: "str \<Rightarrow> str \<times> str" where
  "split_scheme url =
     (let (head, found, rest) = partition CHR '':'' url
      in if found \<and> head \<noteq> [] \<and> is_alpha (hd head) \<and> list_all is_scheme_char head
         then (lower head, rest) else ([], url))"

definition split_netloc :: "str \<Rightarrow> str \<times> str" where
  "split_netloc rest =
     (let inside = (\<lambda>c. c \<notin> {CHR ''/'', CHR ''?'', CHR ''#''})
      in if startswith rest ''//'' then (takeWhile inside (drop 2 rest), dropWhile inside (drop 2 rest))
         else ([], rest))"

definition urlsplit :: "str \<Rightarrow> url_parts option" where
  "urlsplit value =
     (let url = filter (\<lambda>c. ord c \<notin> {9, 10, 13}) (lstrip_by (\<lambda>c. ord c \<le> 32) value);
          (scheme, rest) = split_scheme url;
          (netloc, tail) = split_netloc rest;
          (before_fragment, _, fragment) = partition CHR ''#'' tail;
          (path, _, query) = partition CHR ''?'' before_fragment
      in if CHR ''['' \<in> set netloc \<or> CHR '']'' \<in> set netloc then None
         else Some \<lparr>url_scheme = scheme, url_netloc = netloc, url_path = path, url_query = query,
                url_fragment = fragment\<rparr>)"

definition uses_netloc :: "str list" where
  "uses_netloc = [[], ''ftp'', ''http'', ''gopher'', ''nntp'', ''telnet'', ''imap'', ''wais'', ''file'',
     ''mms'', ''https'', ''shttp'', ''snews'', ''prospero'', ''rtsp'', ''rtsps'', ''rtspu'', ''rsync'',
     ''svn'', ''svn+ssh'', ''sftp'', ''nfs'', ''git'', ''git+ssh'', ''ws'', ''wss'', ''itms-services'']"

definition urlunsplit :: "url_parts \<Rightarrow> str" where
  "urlunsplit p =
     (let path = url_path p;
          located =
            (if url_netloc p \<noteq> [] then
               ''//'' @ url_netloc p @ (if path \<noteq> [] \<and> \<not> startswith path ''/'' then CHR ''/'' # path else path)
             else if startswith path ''//'' then ''//'' @ path
             else if url_scheme p \<noteq> [] \<and> url_scheme p \<in> set uses_netloc \<and>
                 (path = [] \<or> startswith path ''/'') then ''//'' @ path
             else path)
      in (if url_scheme p = [] then [] else url_scheme p @ '':'') @ located @
         (if url_query p = [] then [] else CHR ''?'' # url_query p) @
         (if url_fragment p = [] then [] else CHR ''#'' # url_fragment p))"

text \<open>\<open>quote_plus\<close> of a string and \<open>urlencode\<close> of a dict.\<close>

definition quote_byte :: "nat \<Rightarrow> str" where
  "quote_byte b =
     (let c = char_of b
      in if b = 32 then ''+''
         else if b < 128 \<and> (is_alnum c \<or> c \<in> {CHR ''_'', CHR ''.'', CHR ''-'', CHR ''~''}) then [c]
         else CHR ''%'' # upper_ascii (hex_of_byte b))"

definition quote_plus :: "str \<Rightarrow> str" where
  "quote_plus s = concat (map quote_byte (encode_utf8 s))"

definition urlencode :: "(str \<times> str) list \<Rightarrow> str" where
  "urlencode d = join ''&'' (map (\<lambda>(k, v). quote_plus k @ ''='' @ quote_plus v) d)"

end
