(* ===== verification/Crypto.thy ===== *)
theory Crypto
  imports Kdf PyInt
begin

text \<open>
  \<open>crypto/onepw.py\<close>, \<open>crypto/tokens.py\<close> and \<open>crypto/scoped_keys.py\<close>: the password's way to
  the stored verify hash, the three keys of a token, the encrypted bundle the account keys
  travel in, and the keys of a scope. Random bytes are arguments. \<open>None\<close> is a \<open>ValueError\<close>
  (\<open>SaltError\<close> and \<open>BundleError\<close> are two).
\<close>

subsection \<open>Client salts\<close>

definition V1_MARKER :: str where "V1_MARKER = ''quickStretch''"
definition V2_MARKER :: str where "V2_MARKER = ''quickStretchV2''"
definition V1_ITERATIONS :: nat where "V1_ITERATIONS = 1000"
definition V2_ITERATIONS :: nat where "V2_ITERATIONS = 650000"

record salt =
  salt_version :: nat
  salt_value :: str

definition salt_str :: "salt \<Rightarrow> str" where
  "salt_str s = NAMESPACE @ (if salt_version s = 1 then V1_MARKER else V2_MARKER) @ '':'' @ salt_value s"

definition iterations :: "salt \<Rightarrow> nat" where
  "iterations s = (if salt_version s = 1 then V1_ITERATIONS else V2_ITERATIONS)"

definition strip_at :: "str \<Rightarrow> str" where
  "strip_at s = rstrip_by (\<lambda>c. c = CHR ''@'') (lstrip_by (\<lambda>c. c = CHR ''@'') s)"

definition create_salt_v1 :: "str \<Rightarrow> salt option" where
  "create_salt_v1 email =
     (if CHR ''@'' \<notin> set (strip_at email) then None
      else Some \<lparr>salt_version = 1, salt_value = email\<rparr>)"

text \<open>\<open>_HEX32_RE\<close> of the source, lower case; the \<open>$\<close> lets one final newline through.\<close>

definition HEX32_RE :: "str \<Rightarrow> bool" where
  "HEX32_RE = re_dollar (\<lambda>s. length s = 32 \<and> list_all is_lower_hex s)"

definition create_salt_v2 :: "str \<Rightarrow> salt option" where
  "create_salt_v2 v = (if HEX32_RE v then Some \<lparr>salt_version = 2, salt_value = v\<rparr> else None)"

definition v1_prefix :: str where "v1_prefix = NAMESPACE @ V1_MARKER @ '':''"
definition v2_prefix :: str where "v2_prefix = NAMESPACE @ V2_MARKER @ '':''"

definition parse_salt :: "str \<Rightarrow> salt option" where
  "parse_salt s =
     (if startswith s v2_prefix then create_salt_v2 (drop (length v2_prefix) s)
      else if startswith s v1_prefix then create_salt_v1 (drop (length v1_prefix) s)
      else None)"

subsection \<open>Stretching\<close>

definition quick_stretch :: "str \<Rightarrow> salt \<Rightarrow> bytes" where
  "quick_stretch password s =
     pbkdf2_hmac (encode_utf8 password) (encode_utf8 (salt_str s)) (iterations s) 32"

record credentials =
  cr_auth_pw :: bytes
  cr_unwrap_b_key :: bytes

definition credentials_of :: "str \<Rightarrow> salt \<Rightarrow> credentials option" where
  "credentials_of password s =
     (case (derive (quick_stretch password s) ''authPW'' [] 32,
            derive (quick_stretch password s) ''unwrapBkey'' [] 32) of
        (Some a, Some u) \<Rightarrow> Some \<lparr>cr_auth_pw = a, cr_unwrap_b_key = u\<rparr>
      | _ \<Rightarrow> None)"

definition credentials_v1 :: "str \<Rightarrow> str \<Rightarrow> credentials option" where
  "credentials_v1 email password = Option.bind (create_salt_v1 email) (credentials_of password)"

definition credentials_v2 :: "str \<Rightarrow> str \<Rightarrow> credentials option" where
  "credentials_v2 password client_salt =
     Option.bind (parse_salt client_salt) (\<lambda>s.
       if salt_version s \<noteq> 2 then None else credentials_of password s)"

text \<open>\<open>xor\<close>: equal lengths only.\<close>

definition xor :: "bytes \<Rightarrow> bytes \<Rightarrow> bytes option" where
  "xor a b = (if length a \<noteq> length b then None else Some (xor_bytes a b))"

definition SCRYPT_N :: nat where "SCRYPT_N = 65536"
definition SCRYPT_R :: nat where "SCRYPT_R = 8"
definition SCRYPT_P :: nat where "SCRYPT_P = 1"
definition SCRYPT_LENGTH :: nat where "SCRYPT_LENGTH = 32"

text \<open>\<open>StretchedPassword\<close> is its one field, the hex string.\<close>

definition stretch :: "bytes \<Rightarrow> bytes \<Rightarrow> str" where
  "stretch auth_pw auth_salt =
     hex_of (scrypt auth_pw auth_salt SCRYPT_N SCRYPT_R SCRYPT_P SCRYPT_LENGTH)"

definition stretched_ikm :: "str \<Rightarrow> bytes" where
  "stretched_ikm stretched = encode_utf8 stretched"

definition verify_hash :: "str \<Rightarrow> bytes option" where
  "verify_hash stretched = derive (stretched_ikm stretched) ''verifyHash'' [] 32"

definition matches :: "str \<Rightarrow> bytes \<Rightarrow> bool" where
  "matches stretched h \<longleftrightarrow> verify_hash stretched = Some h"

definition wrap_with :: "str \<Rightarrow> str \<Rightarrow> bytes \<Rightarrow> bytes option" where
  "wrap_with context stretched payload =
     Option.bind (derive (stretched_ikm stretched) context [] 32) (\<lambda>k. xor k payload)"

definition wrap :: "str \<Rightarrow> bytes \<Rightarrow> bytes option" where
  "wrap = wrap_with ''wrapwrapKey''"

subsection \<open>Tokens\<close>

definition ACCOUNT_KEYS_LENGTH :: nat where "ACCOUNT_KEYS_LENGTH = 64"
definition MAC_LENGTH :: nat where "MAC_LENGTH = 32"

datatype token_type = SESSION | KEY_FETCH | ACCOUNT_RESET | PASSWORD_CHANGE | PASSWORD_FORGOT

fun token_type_id :: "token_type \<Rightarrow> str" where
  "token_type_id SESSION = ''sessionToken''"
| "token_type_id KEY_FETCH = ''keyFetchToken''"
| "token_type_id ACCOUNT_RESET = ''accountResetToken''"
| "token_type_id PASSWORD_CHANGE = ''passwordChangeToken''"
| "token_type_id PASSWORD_FORGOT = ''passwordForgotToken''"

fun BEARER_PREFIXES :: "token_type \<Rightarrow> str" where
  "BEARER_PREFIXES SESSION = ''fxs''"
| "BEARER_PREFIXES KEY_FETCH = ''fxk''"
| "BEARER_PREFIXES ACCOUNT_RESET = ''fxar''"
| "BEARER_PREFIXES PASSWORD_CHANGE = ''fxpc''"
| "BEARER_PREFIXES PASSWORD_FORGOT = ''fxpf''"

record token_keys =
  tk_data :: bytes
  tk_id :: bytes
  tk_auth_key :: bytes
  tk_bundle_key :: bytes

definition token_of :: "token_keys \<Rightarrow> str" where
  "token_of k = hex_of (tk_data k)"

definition bearer_header :: "token_type \<Rightarrow> token_keys \<Rightarrow> str" where
  "bearer_header t k = ''Bearer '' @ BEARER_PREFIXES t @ ''_'' @ hex_of (tk_id k)"

definition derive_token_keys :: "token_type \<Rightarrow> bytes \<Rightarrow> token_keys option" where
  "derive_token_keys t data =
     (if length data \<noteq> 32 then None
      else map_option (\<lambda>km. \<lparr>tk_data = data, tk_id = take 32 km, tk_auth_key = take 32 (drop 32 km),
             tk_bundle_key = take 32 (drop 64 km)\<rparr>) (derive data (token_type_id t) [] 96))"

definition bundle_keys :: "bytes \<Rightarrow> str \<Rightarrow> nat \<Rightarrow> (bytes \<times> bytes) option" where
  "bundle_keys bundle_key key_info n =
     map_option (\<lambda>km. (take MAC_LENGTH km, drop MAC_LENGTH km))
       (derive bundle_key key_info [] (MAC_LENGTH + n))"

definition bundle_payload :: "bytes \<Rightarrow> str \<Rightarrow> bytes \<Rightarrow> bytes option" where
  "bundle_payload bundle_key key_info payload =
     Option.bind (bundle_keys bundle_key key_info (length payload)) (\<lambda>(hmac_key, xor_key).
     Option.bind (xor payload xor_key) (\<lambda>ciphertext.
       Some (ciphertext @ hmac_sha256 hmac_key ciphertext)))"

text \<open>\<open>payload[:-32]\<close> and \<open>payload[-32:]\<close>: a payload shorter than a MAC is all MAC.\<close>

definition unbundle_payload :: "bytes \<Rightarrow> str \<Rightarrow> bytes \<Rightarrow> bytes option" where
  "unbundle_payload bundle_key key_info payload =
     (let ciphertext = take (length payload - MAC_LENGTH) payload;
          expected = drop (length payload - MAC_LENGTH) payload
      in Option.bind (bundle_keys bundle_key key_info (length ciphertext)) (\<lambda>(hmac_key, xor_key).
           if hmac_sha256 hmac_key ciphertext \<noteq> expected then None
           else xor ciphertext xor_key))"

definition bundle_account_keys :: "bytes \<Rightarrow> bytes \<Rightarrow> bytes \<Rightarrow> bytes option" where
  "bundle_account_keys bundle_key ka wrap_kb = bundle_payload bundle_key ''account/keys'' (ka @ wrap_kb)"

definition unbundle_account_keys :: "bytes \<Rightarrow> bytes \<Rightarrow> (bytes \<times> bytes) option" where
  "unbundle_account_keys bundle_key payload =
     Option.bind (unbundle_payload bundle_key ''account/keys'' payload) (\<lambda>plaintext.
       if length plaintext \<noteq> ACCOUNT_KEYS_LENGTH then None
       else Some (take 32 plaintext, drop 32 plaintext))"

subsection \<open>Scoped keys\<close>

definition KEY_LENGTH :: nat where "KEY_LENGTH = 48"
definition OLDSYNC_SCOPE :: str where "OLDSYNC_SCOPE = ''https://identity.mozilla.com/apps/oldsync''"
definition THUNDERBIRD_SYNC_SCOPE :: str where
  "THUNDERBIRD_SYNC_SCOPE = ''https://identity.thunderbird.net/apps/sync''"
definition SYNC_SCOPES :: "str list" where "SYNC_SCOPES = [OLDSYNC_SCOPE, THUNDERBIRD_SYNC_SCOPE]"
definition NULL_KEY_ROTATION_SECRET :: bytes where "NULL_KEY_ROTATION_SECRET = replicate 32 0"

record scoped_key =
  sk_kty :: str
  sk_scope :: str
  sk_k :: str
  sk_kid :: str

definition legacy_sync_key :: "str \<Rightarrow> bytes \<Rightarrow> int \<Rightarrow> scoped_key option" where
  "legacy_sync_key scope kb timestamp =
     map_option (\<lambda>km. \<lparr>sk_kty = ''oct'', sk_scope = scope, sk_k = b64u_encode km,
         sk_kid = show_int timestamp @ ''-'' @ b64u_encode (take 16 (sha256 kb))\<rparr>)
       (hkdf kb (encode_utf8 (NAMESPACE @ ''oldsync'')) [] 64)"

text \<open>\<open>_HEX32_RE\<close> of \<open>scoped_keys.py\<close> ignores case.\<close>

definition UID_RE :: "str \<Rightarrow> bool" where
  "UID_RE = re_dollar (\<lambda>s. length s = 32 \<and> list_all is_hex s)"

definition derive_scoped_key ::
  "str \<Rightarrow> bytes \<Rightarrow> str \<Rightarrow> int \<Rightarrow> bytes \<Rightarrow> scoped_key option" where
  "derive_scoped_key scope kb uid timestamp rotation_secret =
     (if length kb \<noteq> 32 then None
      else if length rotation_secret \<noteq> 32 then None
      else if \<not> UID_RE uid then None
      else if length (show_int timestamp) \<noteq> 13 then None
      else if length scope < 10 then None
      else if scope \<in> set SYNC_SCOPES then legacy_sync_key scope kb timestamp
      else
        Option.bind (fromhex uid) (\<lambda>salt.
        map_option (\<lambda>km. \<lparr>sk_kty = ''oct'', sk_scope = scope, sk_k = b64u_encode (take 32 (drop 16 km)),
            sk_kid = show_int ((timestamp + 500) div 1000) @ ''-'' @ b64u_encode (take 16 km)\<rparr>)
          (hkdf (kb @ rotation_secret)
             (encode_utf8 (NAMESPACE @ ''scoped_key'' @ [newline] @ scope)) salt KEY_LENGTH)))"

definition client_state_of :: "bytes \<Rightarrow> str" where
  "client_state_of kb = hex_of (take 16 (sha256 kb))"

subsection \<open>Facts\<close>

text \<open>The wrapper is its own inverse, and so the stored \<open>wrapWrapKb\<close> gives \<open>wrapKb\<close> back.\<close>

lemma wrap_with_Some:
  "wrap_with c s p = Some w \<longleftrightarrow>
     length p = 32 \<and> (\<exists>k. derive (stretched_ikm s) c [] 32 = Some k \<and> w = xor_bytes k p)"
proof -
  obtain k where k: "derive (stretched_ikm s) c [] 32 = Some k" "length k = 32"
    using derive_total [of 32 "stretched_ikm s" c "[]"] by auto
  then show ?thesis by (auto simp: wrap_with_def xor_def)
qed

lemma xor_bytes_commute: "xor_bytes a b = xor_bytes b a"
  by (induction a b rule: list_induct2') (simp_all add: xor_bytes_def xor.commute)

lemma wrap_total: "length p = 32 \<Longrightarrow> \<exists>w. wrap s p = Some w \<and> length w = 32"
  using derive_total [of 32 "stretched_ikm s" "''wrapwrapKey''" "[]"]
  by (auto simp: wrap_def wrap_with_Some)

lemma wrap_wrap:
  assumes "wrap s p = Some w" shows "wrap s w = Some p"
proof -
  from assms obtain k where k: "derive (stretched_ikm s) ''wrapwrapKey'' [] 32 = Some k"
    "length p = 32" "w = xor_bytes k p" by (auto simp: wrap_def wrap_with_Some)
  then have l: "length k = 32" using derive_total [of 32 "stretched_ikm s" "''wrapwrapKey''" "[]"] by auto
  then have "xor_bytes k w = p"
    using k(2,3) xor_bytes_cancel [of p k] by (simp add: xor_bytes_commute)
  then show ?thesis using k l by (auto simp: wrap_def wrap_with_Some)
qed

lemma verify_hash_total: "\<exists>h. verify_hash s = Some h \<and> length h = 32 \<and> bytes_ok h"
  unfolding verify_hash_def by (rule derive_total) simp

lemma bundle_keys_total:
  assumes "n \<le> 8128"
  obtains hk xk where "bundle_keys b info n = Some (hk, xk)" "length xk = n" "bytes_ok xk"
  using derive_total [of "32 + n" b info "[]"] assms
  by (force simp: bundle_keys_def MAC_LENGTH_def bytes_ok_drop)

lemma bundle_unbundle:
  assumes "bundle_payload bk info p = Some c"
  shows "unbundle_payload bk info c = Some p"
proof -
  from assms obtain hk xk where k: "bundle_keys bk info (length p) = Some (hk, xk)"
    and l: "length xk = length p"
    and c: "c = xor_bytes p xk @ hmac_sha256 hk (xor_bytes p xk)"
    by (auto simp: bundle_payload_def xor_def split: bind_splits if_splits prod.splits)
  have "length (xor_bytes p xk) = length p" using l by simp
  then show ?thesis
    using k l xor_bytes_cancel [of p xk]
    by (simp add: unbundle_payload_def c MAC_LENGTH_def Let_def xor_def)
qed

lemma account_keys_roundtrip:
  assumes "length ka = 32" "length wrap_kb = 32"
  obtains c where "bundle_account_keys bk ka wrap_kb = Some c" "length c = 96"
    "unbundle_account_keys bk c = Some (ka, wrap_kb)"
proof -
  obtain hk xk where k: "bundle_keys bk ''account/keys'' 64 = Some (hk, xk)" "length xk = 64"
    by (rule bundle_keys_total [of 64 bk "''account/keys''"]) simp
  let ?x = "xor_bytes (ka @ wrap_kb) xk"
  have c: "bundle_account_keys bk ka wrap_kb = Some (?x @ hmac_sha256 hk ?x)"
    using k assms by (simp add: bundle_account_keys_def bundle_payload_def xor_def)
  then have "unbundle_payload bk ''account/keys'' (?x @ hmac_sha256 hk ?x) = Some (ka @ wrap_kb)"
    unfolding bundle_account_keys_def by (rule bundle_unbundle)
  then have "unbundle_account_keys bk (?x @ hmac_sha256 hk ?x) = Some (ka, wrap_kb)"
    using assms by (simp add: unbundle_account_keys_def ACCOUNT_KEYS_LENGTH_def)
  moreover have "length (?x @ hmac_sha256 hk ?x) = 96" using k(2) assms by simp
  ultimately show ?thesis using that c by blast
qed

lemma derive_token_keys_Some:
  assumes "length d = 32"
  obtains k where "derive_token_keys t d = Some k" "tk_data k = d" "length (tk_id k) = 32"
    "length (tk_auth_key k) = 32" "length (tk_bundle_key k) = 32" "bytes_ok (tk_id k)"
    "bytes_ok (tk_auth_key k)" "bytes_ok (tk_bundle_key k)"
proof -
  obtain km where "derive d (token_type_id t) [] 96 = Some km" "length km = 96" "bytes_ok km"
    using derive_total [of 96 d "token_type_id t" "[]"] by auto
  then show ?thesis
    using assms that [of "\<lparr>tk_data = d, tk_id = take 32 km, tk_auth_key = take 32 (drop 32 km),
      tk_bundle_key = take 32 (drop 64 km)\<rparr>"]
    by (simp add: derive_token_keys_def bytes_ok_take bytes_ok_drop)
qed

subsection \<open>Salts\<close>

lemma startswith_append [simp]: "startswith (p @ s) p"
  by (induction p) simp_all

lemma v1_not_v2: "\<not> startswith (v1_prefix @ s) v2_prefix"
  by (simp add: v1_prefix_def v2_prefix_def NAMESPACE_def V1_MARKER_def V2_MARKER_def)

lemma salt_str_v1: "salt_str \<lparr>salt_version = Suc 0, salt_value = v\<rparr> = v1_prefix @ v"
  by (simp add: salt_str_def v1_prefix_def)

lemma salt_str_v2: "salt_str \<lparr>salt_version = 2, salt_value = v\<rparr> = v2_prefix @ v"
  by (simp add: salt_str_def v2_prefix_def)

lemma parse_salt_str:
  assumes "create_salt_v1 v = Some s \<or> create_salt_v2 v = Some s"
  shows "parse_salt (salt_str s) = Some s"
  using assms
proof
  assume c: "create_salt_v1 v = Some s"
  then have "s = \<lparr>salt_version = Suc 0, salt_value = v\<rparr>"
    by (simp add: create_salt_v1_def split: if_splits)
  then have "salt_str s = v1_prefix @ v" by (simp add: salt_str_v1)
  then show ?thesis using c by (simp add: parse_salt_def v1_not_v2)
next
  assume c: "create_salt_v2 v = Some s"
  then have "s = \<lparr>salt_version = 2, salt_value = v\<rparr>"
    by (simp add: create_salt_v2_def split: if_splits)
  then have "salt_str s = v2_prefix @ v" by (simp add: salt_str_v2)
  then show ?thesis using c by (simp add: parse_salt_def)
qed

end
