(* ===== verification/FxaErrors.thy ===== *)
theory FxaErrors
  imports Json
begin

text \<open>
  \<open>errors.py\<close>: the error envelope of the accounts, OAuth and profile tiers. \<open>errno\<close> is what a
  client branches on, and the tiers number theirs apart. An extra key whose value is \<open>None\<close> is
  left out of the body.
\<close>

definition INFO_URL :: str where
  "INFO_URL = ''https://mozilla.github.io/ecosystem-platform/api#section/Response-format''"

record fxa_error =
  fe_code :: int
  fe_errno :: int
  fe_error :: str
  fe_message :: str
  fe_headers :: "(str \<times> str) list"
  fe_extra :: "(str \<times> json) list"

text \<open>\<open>FxaCrash\<close> is an exception no handler turns into this envelope: a 500.\<close>

datatype fxa_exn = Fxa fxa_error | FxaCrash

definition fxa_error_of :: "int \<Rightarrow> int \<Rightarrow> str \<Rightarrow> str \<Rightarrow> (str \<times> str) list \<Rightarrow> (str \<times> json) list \<Rightarrow> fxa_error" where
  "fxa_error_of code errno error message headers extra =
     \<lparr>fe_code = code, fe_errno = errno, fe_error = error, fe_message = message, fe_headers = headers,
      fe_extra = filter (\<lambda>(_, v). v \<noteq> JNull) extra\<rparr>"

definition fxa_payload :: "fxa_error \<Rightarrow> json" where
  "fxa_payload e =
     JObj ([(''code'', JInt (fe_code e)), (''errno'', JInt (fe_errno e)), (''error'', JStr (fe_error e)),
       (''message'', JStr (fe_message e)), (''info'', JStr INFO_URL)] @ fe_extra e)"

text \<open>A value that may be Python's \<open>None\<close>.\<close>

definition opt_str :: "str option \<Rightarrow> json" where
  "opt_str v = (case v of None \<Rightarrow> JNull | Some s \<Rightarrow> JStr s)"

definition opt_int :: "int option \<Rightarrow> json" where
  "opt_int v = (case v of None \<Rightarrow> JNull | Some n \<Rightarrow> JInt n)"

definition fxa_bad_request :: "int \<Rightarrow> str \<Rightarrow> (str \<times> json) list \<Rightarrow> fxa_error" where
  "fxa_bad_request errno message extra = fxa_error_of 400 errno ''Bad Request'' message [] extra"

subsection \<open>Accounts\<close>

definition account_exists :: "str option \<Rightarrow> fxa_error" where
  "account_exists email = fxa_bad_request 101 ''Account already exists'' [(''email'', opt_str email)]"

definition unknown_account :: "str option \<Rightarrow> fxa_error" where
  "unknown_account email = fxa_bad_request 102 ''Unknown account'' [(''email'', opt_str email)]"

definition incorrect_password :: "str \<Rightarrow> str \<Rightarrow> fxa_error" where
  "incorrect_password db_email request_email = 
     (if db_email \<noteq> request_email
      then fxa_bad_request 120 ''Incorrect email case'' [(''email'', JStr db_email)]
      else fxa_bad_request 103 ''Incorrect password'' [(''email'', JStr db_email)])"

definition unverified_account :: "fxa_error" where
  "unverified_account = fxa_bad_request 104 ''Unconfirmed account'' []"

definition invalid_request_parameter :: "json \<Rightarrow> fxa_error" where
  "invalid_request_parameter validation = fxa_bad_request 107 ''Invalid parameter in request body'' [(''validation'', validation)]"

definition missing_request_parameter :: "str option \<Rightarrow> fxa_error" where
  "missing_request_parameter param = 
     fxa_bad_request 108
       (''Missing parameter in request body'' @
         (case param of Some (c # cs) \<Rightarrow> '': '' @ c # cs | _ \<Rightarrow> []))
       [(''param'', opt_str param)]"

definition invalid_signature :: "str \<Rightarrow> fxa_error" where
  "invalid_signature message = fxa_bad_request 109 message []"

definition invalid_token :: "str option \<Rightarrow> fxa_error" where
  "invalid_token message = 
     fxa_error_of 401 110 ''Unauthorized'' 
       (case message of Some (c # cs) \<Rightarrow> c # cs
        | _ \<Rightarrow> ''Invalid authentication token in request signature'') [] []"

definition unauthorized :: "str option \<Rightarrow> fxa_error" where
  "unauthorized reason = 
     fxa_error_of 401 110 ''Unauthorized'' ''Unauthorized for route'' [] [(''detail'', opt_str reason)]"

definition client_not_public :: "fxa_error" where
  "client_not_public = fxa_bad_request 166 ''Not a public client'' []"

definition unknown_device :: "fxa_error" where
  "unknown_device = fxa_bad_request 123 ''Unknown device'' []"

definition device_session_conflict :: "str option \<Rightarrow> fxa_error" where
  "device_session_conflict device_id = 
     fxa_bad_request 124 ''Session already registered by another device'' [(''deviceId'', opt_str device_id)]"

definition request_body_too_large :: "fxa_error" where
  "request_body_too_large = fxa_error_of 413 113 ''Request Entity Too Large'' ''Request body too large'' [] []"

definition too_many_requests :: "int \<Rightarrow> fxa_error" where
  "too_many_requests retry_after = 
     fxa_error_of 429 114 ''Too Many Requests'' ''Client has sent too many requests'' 
       [(''Retry-After'', show_int retry_after)] [(''retryAfter'', JInt retry_after)]"

definition feature_not_enabled :: "int option \<Rightarrow> fxa_error" where
  "feature_not_enabled retry_after = 
     fxa_error_of 403 202 ''Feature not enabled'' ''Feature not enabled'' [] [(''retryAfter'', opt_int retry_after)]"

definition gone :: "fxa_error" where
  "gone = 
     fxa_error_of 410 116 ''Gone'' ''This endpoint is no longer supported'' [] []"

definition service_unavailable :: "int \<Rightarrow> fxa_error" where
  "service_unavailable retry_after = 
     fxa_error_of 503 201 ''Service Unavailable'' ''Service unavailable'' [] 
       [(''retryAfter'', JInt retry_after)]"

definition unexpected_error :: "fxa_error" where
  "unexpected_error = 
     fxa_error_of 500 999 ''Internal Server Error'' ''Unspecified error'' [] []"

subsection \<open>OAuth\<close>

definition unknown_client :: "str \<Rightarrow> fxa_error" where
  "unknown_client client_id = fxa_bad_request 101 ''Unknown client'' [(''clientId'', JStr client_id)]"

definition incorrect_redirect :: "str option \<Rightarrow> fxa_error" where
  "incorrect_redirect redirect_uri = 
     fxa_bad_request 103 ''Incorrect redirect_uri'' [(''redirectUri'', opt_str redirect_uri)]"

definition unknown_code :: "str \<Rightarrow> fxa_error" where
  "unknown_code code = fxa_bad_request 105 ''Unknown code'' [(''requestCode'', JStr code)]"

definition mismatch_code :: "str \<Rightarrow> str \<Rightarrow> fxa_error" where
  "mismatch_code code client_id = 
     fxa_bad_request 106 ''Incorrect code'' [(''requestCode'', JStr code), (''client'', JStr client_id)]"

definition expired_code :: "str \<Rightarrow> int \<Rightarrow> fxa_error" where
  "expired_code code expired_at = 
     fxa_bad_request 107 ''Expired code'' [(''requestCode'', JStr code), (''expiredAt'', JInt expired_at)]"

definition oauth_invalid_token :: "fxa_error" where
  "oauth_invalid_token = fxa_bad_request 108 ''Invalid token'' []"

definition oauth_invalid_request_parameter :: "json \<Rightarrow> fxa_error" where
  "oauth_invalid_request_parameter validation = 
     fxa_bad_request 109 ''Invalid request parameter'' [(''validation'', validation)]"

definition invalid_response_type :: "fxa_error" where
  "invalid_response_type = fxa_bad_request 110 ''Invalid response_type'' []"

definition invalid_scopes :: "str list \<Rightarrow> fxa_error" where
  "invalid_scopes scopes = 
     fxa_bad_request 114 ''Requested scopes are not allowed'' [(''invalidScopes'', JArr (map JStr scopes))]"

definition not_public_client :: "str \<Rightarrow> fxa_error" where
  "not_public_client client_id = fxa_bad_request 116 ''Not a public client'' [(''clientId'', JStr client_id)]"

definition mismatch_code_challenge :: "str option \<Rightarrow> fxa_error" where
  "mismatch_code_challenge pkce_hash = 
     fxa_bad_request 117 ''Incorrect code_challenge'' [(''pkceHashValue'', opt_str pkce_hash)]"

definition missing_pkce_parameters :: "fxa_error" where
  "missing_pkce_parameters = fxa_bad_request 118 ''Public clients require PKCE OAuth parameters'' []"

definition stale_auth_at :: "int \<Rightarrow> fxa_error" where
  "stale_auth_at auth_at = fxa_bad_request 119 ''Stale authentication timestamp'' [(''authAt'', JInt auth_at)]"

definition invalid_grant_type :: "fxa_error" where
  "invalid_grant_type = fxa_bad_request 121 ''Invalid grant_type'' []"

definition mismatch_acr_values :: "str \<Rightarrow> fxa_error" where
  "mismatch_acr_values found = fxa_bad_request 120 ''Mismatch acr value'' [(''foundValue'', JStr found)]"

definition expired_token :: "int \<Rightarrow> fxa_error" where
  "expired_token expired_at = fxa_bad_request 115 ''Expired token'' [(''expiredAt'', JInt expired_at)]"

definition unknown_token :: "fxa_error" where
  "unknown_token = fxa_bad_request 122 ''Unknown token'' []"

subsection \<open>Profile\<close>

definition profile_unauthorized :: "str option \<Rightarrow> fxa_error" where
  "profile_unauthorized reason = 
     fxa_error_of 401 100 ''Bad Request'' ''Unauthorized'' [] [(''reason'', opt_str reason)]"

definition insufficient_scope :: "str list \<Rightarrow> fxa_error" where
  "insufficient_scope required = 
     fxa_error_of 403 100 ''Forbidden'' ''Insufficient scope'' [] [(''requiredScope'', JArr (map JStr required))]"

end
