(* ===== verification/OauthClients.thy ===== *)
theory OauthClients
  imports Scopes Crypto FxaErrors
begin

text \<open>
  \<open>oauth/clients.py\<close>: the registry of the clients this server issues tokens to. The three
  browsers are built in; an entry of the configuration adds a client or replaces one wholesale.
  The registry is a dict keyed by the lower-case id: a list of clients, one per id.
\<close>

definition SESSION_SCOPE :: str where
  "SESSION_SCOPE = ''https://identity.mozilla.com/tokens/session''"

definition ECOSYSTEM_TELEMETRY_SCOPE :: str where
  "ECOSYSTEM_TELEMETRY_SCOPE = ''https://identity.mozilla.com/ids/ecosystem_telemetry''"

definition WEBCHANNEL_REDIRECT :: str where
  "WEBCHANNEL_REDIRECT = ''urn:ietf:wg:oauth:2.0:oob:oauth-redirect-webchannel''"

definition FIREFOX_DESKTOP_CLIENT_ID :: str where "FIREFOX_DESKTOP_CLIENT_ID = ''5882386c6d801776''"
definition FENIX_CLIENT_ID :: str where "FENIX_CLIENT_ID = ''a2270f727f45f648''"
definition FIREFOX_IOS_CLIENT_ID :: str where "FIREFOX_IOS_CLIENT_ID = ''1b1a3e44c54fbb58''"

definition DEVICE_MANAGEMENT_CLIENT_IDS :: "str list" where
  "DEVICE_MANAGEMENT_CLIENT_IDS =
     [FIREFOX_DESKTOP_CLIENT_ID, FIREFOX_IOS_CLIENT_ID, ''3332a18d142636cb'', FENIX_CLIENT_ID,
      ''3c49430b43dfba77'']"

definition KEY_BEARING_SCOPES :: "str list" where
  "KEY_BEARING_SCOPES =
     [OLDSYNC_SCOPE, ECOSYSTEM_TELEMETRY_SCOPE, ''https://identity.thunderbird.net/apps/sync'']"

definition SERVICE_SCOPES :: "(str \<times> str list) list" where
  "SERVICE_SCOPES = [(''sync'', [OLDSYNC_SCOPE, ''profile''])]"

definition KEYS_CONDITIONAL_SCOPE :: str where
  "KEYS_CONDITIONAL_SCOPE = OLDSYNC_SCOPE"

text \<open>
  A scope set built from constants at import time; an invalid value there would stop the
  program before its first request.
\<close>

definition scope_constant :: "str list \<Rightarrow> scope_set" where
  "scope_constant vs = (case from_array vs of Some s \<Rightarrow> s | None \<Rightarrow> empty_scopes)"

record client =
  cl_id :: str
  cl_name :: str
  cl_redirect_uris :: "str list"
  cl_allowed_scopes :: scope_set
  cl_trusted :: bool
  cl_can_grant :: bool
  cl_public_client :: bool
  cl_image_uri :: str

definition redirect_uri :: "client \<Rightarrow> str" where
  "redirect_uri c = hd (cl_redirect_uris c)"

type_synonym registry = "client list"

definition client_get :: "registry \<Rightarrow> str \<Rightarrow> client option" where
  "client_get reg client_id = find (\<lambda>c. cl_id c = lower client_id) reg"

definition browser :: "str \<Rightarrow> str \<Rightarrow> str \<Rightarrow> client" where
  "browser client_id name public_url =
     \<lparr>cl_id = client_id, cl_name = name,
      cl_redirect_uris = [WEBCHANNEL_REDIRECT, public_url @ ''/oauth/success/'' @ client_id],
      cl_allowed_scopes = scope_constant [OLDSYNC_SCOPE, SESSION_SCOPE, ECOSYSTEM_TELEMETRY_SCOPE],
      cl_trusted = True, cl_can_grant = True, cl_public_client = True, cl_image_uri = []\<rparr>"

definition default_clients :: "str \<Rightarrow> client list" where
  "default_clients public_url =
     [browser FIREFOX_DESKTOP_CLIENT_ID ''Firefox'' public_url,
      browser FENIX_CLIENT_ID ''Fenix'' public_url,
      browser FIREFOX_IOS_CLIENT_ID ''Firefox for iOS'' public_url]"

subsection \<open>Entries of the configuration\<close>

text \<open>\<open>InvalidScope\<close> is the \<open>InvalidScopeError\<close> that passes through; the rest are \<open>ClientError\<close>s.\<close>

datatype client_error =
    UnknownKeys "str list"
  | NotAString str
  | NotHexId str
  | RedirectsRequired str
  | EmptyRedirect str
  | NotABoolean str str
  | InvalidScope

definition KNOWN_KEYS :: "str list" where
  "KNOWN_KEYS = [''id'', ''name'', ''redirect_uris'', ''allowed_scopes'', ''trusted'', ''can_grant'',
     ''public_client'', ''image_uri'']"

type_synonym entry = "(str \<times> json) list"

definition entry_string :: "entry \<Rightarrow> str \<Rightarrow> str option \<Rightarrow> client_error + str" where
  "entry_string entry key default_value =
     (case map_of entry key of
        Some (JStr s) \<Rightarrow> Inr s
      | None \<Rightarrow> of_option (NotAString key) default_value
      | _ \<Rightarrow> Inl (NotAString key))"

definition entry_flag :: "entry \<Rightarrow> str \<Rightarrow> str \<Rightarrow> bool \<Rightarrow> client_error + bool" where
  "entry_flag entry key client_id default_value =
     (case map_of entry key of
        Some (JBool b) \<Rightarrow> Inr b
      | None \<Rightarrow> Inr default_value
      | _ \<Rightarrow> Inl (NotABoolean key client_id))"

fun nonempty_str :: "json \<Rightarrow> str option" where
  "nonempty_str (JStr (c # s)) = Some (c # s)"
| "nonempty_str v = None"

definition entry_redirects :: "entry \<Rightarrow> str \<Rightarrow> client_error + str list" where
  "entry_redirects entry client_id =
     (case map_of entry ''redirect_uris'' of
        Some (JArr (u # us)) \<Rightarrow> mapr (\<lambda>v. of_option (EmptyRedirect client_id) (nonempty_str v)) (u # us)
      | _ \<Rightarrow> Inl (RedirectsRequired client_id))"

definition client_id_ok :: "str \<Rightarrow> bool" where
  "client_id_ok client_id \<longleftrightarrow> length client_id = 16 \<and> list_all is_lower_hex client_id"

definition client_from_config :: "entry \<Rightarrow> client_error + client" where
  "client_from_config entry =
     (let unknown = sort_key id (filter (\<lambda>k. k \<notin> set KNOWN_KEYS) (map fst entry))
      in bindr (guardr (unknown = []) (UnknownKeys unknown)) (\<lambda>_.
         bindr (entry_string entry ''id'' None) (\<lambda>given.
         bindr (guardr (client_id_ok (lower given)) (NotHexId (lower given))) (\<lambda>_.
         bindr (entry_redirects entry (lower given)) (\<lambda>redirects.
         bindr (entry_string entry ''name'' None) (\<lambda>name.
         bindr (entry_string entry ''allowed_scopes'' (Some [])) (\<lambda>scopes.
         bindr (of_option InvalidScope (from_string scopes)) (\<lambda>allowed.
         bindr (entry_flag entry ''trusted'' (lower given) True) (\<lambda>trusted.
         bindr (entry_flag entry ''can_grant'' (lower given) True) (\<lambda>can_grant.
         bindr (entry_flag entry ''public_client'' (lower given) True) (\<lambda>public_client.
         bindr (entry_string entry ''image_uri'' (Some [])) (\<lambda>image_uri.
           Inr \<lparr>cl_id = lower given, cl_name = name, cl_redirect_uris = redirects,
                cl_allowed_scopes = allowed, cl_trusted = trusted, cl_can_grant = can_grant,
                cl_public_client = public_client, cl_image_uri = image_uri\<rparr>))))))))))))"

text \<open>\<open>clients[client.id] = client\<close>: in place of the client with that id, or at the end.\<close>

fun put_client :: "client \<Rightarrow> registry \<Rightarrow> registry" where
  "put_client c [] = [c]"
| "put_client c (d # reg) = (if cl_id d = cl_id c then c # reg else d # put_client c reg)"

definition build_clients :: "str \<Rightarrow> entry list \<Rightarrow> client_error + registry" where
  "build_clients public_url overrides =
     foldr_exn (\<lambda>entry reg. bindr (client_from_config entry) (\<lambda>c. Inr (put_client c reg)))
       overrides (default_clients public_url)"

subsection \<open>The registry\<close>

definition registry_ok :: "registry \<Rightarrow> bool" where
  "registry_ok reg \<longleftrightarrow>
     distinct (map cl_id reg) \<and>
     (\<forall>c \<in> set reg. client_id_ok (cl_id c) \<and> cl_redirect_uris c \<noteq> [] \<and>
        set_ok implicants (cl_allowed_scopes c))"

lemma client_getD:
  "client_get reg i = Some c \<Longrightarrow> c \<in> set reg \<and> cl_id c = lower i"
  by (auto simp: client_get_def dest: find_Some_in)

lemma set_put_client: "set (put_client c reg) \<subseteq> insert c (set reg)"
  by (induction c reg rule: put_client.induct) auto

lemma ids_put_client: "set (map cl_id (put_client c reg)) = insert (cl_id c) (set (map cl_id reg))"
  by (induction c reg rule: put_client.induct) auto

lemma distinct_put_client: "distinct (map cl_id reg) \<Longrightarrow> distinct (map cl_id (put_client c reg))"
proof (induction c reg rule: put_client.induct)
  case (2 c d reg)
  then show ?case using ids_put_client [of c reg] by auto
qed simp

lemma find_put_client:
  "find (\<lambda>d. cl_id d = i) (put_client c reg) =
     (if i = cl_id c then Some c else find (\<lambda>d. cl_id d = i) reg)"
  by (induction c reg rule: put_client.induct) auto

lemma lower_hex_id: "is_lower_hex c \<Longrightarrow> lower_char c = c"
  by (auto simp: lower_char_def is_lower_hex_def is_digit_def)

lemma lower_client_id: "client_id_ok i \<Longrightarrow> lower i = i"
  by (auto simp: client_id_ok_def lower_def list_all_iff lower_hex_id intro: map_idI)

lemma lower_hex_ascii: "is_lower_hex c \<Longrightarrow> is_ascii c"
  by (auto simp: is_lower_hex_def is_digit_def is_ascii_def)

lemma client_id_ascii: "client_id_ok i \<Longrightarrow> isascii i"
  by (auto simp: client_id_ok_def isascii_def list_all_iff lower_hex_ascii)

end
