(* ===== verification/Config.thy ===== *)
theory Config
  imports Urls OauthClients
begin

text \<open>
  \<open>config.py\<close>: the configuration, from the parsed TOML document to the validated record. A table
  is a JSON object, an array a JSON array; TOML's dates are among the values no key accepts.
  Resolving a path against the file's directory is an argument.
\<close>

definition DEFAULT_HOST :: str where "DEFAULT_HOST = ''127.0.0.1''"
definition DEFAULT_PORT :: int where "DEFAULT_PORT = 9000"
definition DEFAULT_ACCESS_TOKEN_TTL :: int where "DEFAULT_ACCESS_TOKEN_TTL = 6 * 3600"
definition DEFAULT_CODE_TTL :: int where "DEFAULT_CODE_TTL = 15 * 60"
definition DEFAULT_TOKENSERVER_TTL :: int where "DEFAULT_TOKENSERVER_TTL = 3600"
definition LOG_LEVELS :: "str list" where "LOG_LEVELS = [''debug'', ''info'', ''warning'', ''error'']"
definition DEFAULT_LOG_LEVEL :: str where "DEFAULT_LOG_LEVEL = ''info''"
definition DEFAULT_FAILED_LOGIN_LIMIT :: int where "DEFAULT_FAILED_LOGIN_LIMIT = 10"
definition DEFAULT_FAILED_LOGIN_WINDOW :: int where "DEFAULT_FAILED_LOGIN_WINDOW = 300"

record paths_config =
  pc_database :: str
  pc_signing_key :: str
  pc_retired_key :: "str option"

record security_config =
  sec_open_registration :: bool
  sec_failed_login_limit :: int
  sec_failed_login_window :: int

record ttl_config =
  ttl_access_token :: int
  ttl_authorization_code :: int
  ttl_tokenserver_token :: int

record config =
  cf_public_url :: str
  cf_host :: str
  cf_port :: int
  cf_paths :: paths_config
  cf_ttl :: ttl_config
  cf_log_level :: str
  cf_security :: security_config
  cf_secret :: "str option"
  cf_clients :: registry

definition traces_bodies :: "config \<Rightarrow> bool" where
  "traces_bodies c \<longleftrightarrow> cf_log_level c = ''debug''"

definition config_url :: "str \<Rightarrow> str \<Rightarrow> str" where
  "config_url public_url path =
     (if path = [] then public_url else public_url @ ''/'' @ lstrip_by (\<lambda>c. c = CHR ''/'') path)"

text \<open>\<open>UrlValueError\<close> is the \<open>ValueError\<close> of \<open>urlsplit\<close>, which nothing wraps; the rest are \<open>ConfigError\<close>s.\<close>

datatype config_error =
    UnknownKeysIn str "str list"
  | MissingKey str
  | WrongType str str
  | PortOutOfRange int
  | NotPositive str
  | IsNegative str
  | BadLogLevel str
  | NotAbsoluteUrl str
  | UrlHasQuery
  | NotATable str
  | ClientsNotTables
  | BadClient client_error
  | EmptySecret
  | UrlValueError

subsection \<open>Reading keys\<close>

definition key_label :: "str \<Rightarrow> str \<Rightarrow> str" where
  "key_label key whr = (if whr \<noteq> [] then whr @ ''.'' @ key else key)"

definition reject_unknown :: "entry \<Rightarrow> str list \<Rightarrow> str \<Rightarrow> config_error + unit" where
  "reject_unknown d known whr =
     (let unknown = sort_key id (filter (\<lambda>k. k \<notin> set known) (map fst d))
      in guardr (unknown = []) (UnknownKeysIn whr unknown))"

definition table_section :: "entry \<Rightarrow> str \<Rightarrow> config_error + entry" where
  "table_section d name =
     (case map_of d name of
        None \<Rightarrow> Inr []
      | Some (JObj v) \<Rightarrow> Inr v
      | Some _ \<Rightarrow> Inl (NotATable name))"

definition get_str :: "entry \<Rightarrow> str \<Rightarrow> str \<Rightarrow> str \<Rightarrow> config_error + str" where
  "get_str d key whr default_value =
     (case map_of d key of
        None \<Rightarrow> Inr default_value
      | Some (JStr s) \<Rightarrow> Inr s
      | Some _ \<Rightarrow> Inl (WrongType (key_label key whr) ''str''))"

definition get_int :: "entry \<Rightarrow> str \<Rightarrow> str \<Rightarrow> int \<Rightarrow> config_error + int" where
  "get_int d key whr default_value =
     (case map_of d key of
        None \<Rightarrow> Inr default_value
      | Some (JInt n) \<Rightarrow> Inr n
      | Some _ \<Rightarrow> Inl (WrongType (key_label key whr) ''int''))"

definition get_bool :: "entry \<Rightarrow> str \<Rightarrow> str \<Rightarrow> bool \<Rightarrow> config_error + bool" where
  "get_bool d key whr default_value =
     (case map_of d key of
        None \<Rightarrow> Inr default_value
      | Some (JBool b) \<Rightarrow> Inr b
      | Some _ \<Rightarrow> Inl (WrongType (key_label key whr) ''bool''))"

definition require_str :: "entry \<Rightarrow> str \<Rightarrow> str \<Rightarrow> config_error + str" where
  "require_str d key whr =
     (if map_of d key = None then Inl (MissingKey (key_label key whr)) else get_str d key whr [])"

definition read_port :: "int \<Rightarrow> config_error + int" where
  "read_port n = (if 1 \<le> n \<and> n \<le> 65535 then Inr n else Inl (PortOutOfRange n))"

definition get_seconds :: "entry \<Rightarrow> str \<Rightarrow> int \<Rightarrow> str \<Rightarrow> config_error + int" where
  "get_seconds d key default_value whr =
     bindr (get_int d key whr default_value) (\<lambda>n.
       if n \<le> 0 then Inl (NotPositive (key_label key whr)) else Inr n)"

definition get_count :: "entry \<Rightarrow> str \<Rightarrow> int \<Rightarrow> config_error + int" where
  "get_count d key default_value =
     bindr (get_int d key ''security'' default_value) (\<lambda>n.
       if n < 0 then Inl (IsNegative (key_label key ''security'')) else Inr n)"

definition read_log_level :: "str \<Rightarrow> config_error + str" where
  "read_log_level v = (if lower v \<in> set LOG_LEVELS then Inr (lower v) else Inl (BadLogLevel v))"

definition read_public_url :: "str \<Rightarrow> config_error + str" where
  "read_public_url v =
     (case urlsplit v of
        None \<Rightarrow> Inl UrlValueError
      | Some p \<Rightarrow>
          if url_scheme p \<notin> {''http'', ''https''} \<or> url_netloc p = [] then Inl (NotAbsoluteUrl v)
          else if url_query p \<noteq> [] \<or> url_fragment p \<noteq> [] then Inl UrlHasQuery
          else Inr (rstrip_by (\<lambda>c. c = CHR ''/'') v))"

subsection \<open>The sections\<close>

definition read_paths :: "(str \<Rightarrow> str) \<Rightarrow> entry \<Rightarrow> config_error + paths_config" where
  "read_paths resolve d =
     bindr (get_str d ''database'' ''paths'' ''fxa.sqlite'') (\<lambda>database.
     bindr (get_str d ''signing_key'' ''paths'' ''signing-key.json'') (\<lambda>signing_key.
     bindr (if obj_get d ''retired_key'' = JNull then Inr None
            else bindr (get_str d ''retired_key'' ''paths'' []) (\<lambda>p. Inr (Some (resolve p)))) (\<lambda>retired_key.
       Inr \<lparr>pc_database = resolve database, pc_signing_key = resolve signing_key,
            pc_retired_key = retired_key\<rparr>)))"

definition read_ttl :: "entry \<Rightarrow> config_error + ttl_config" where
  "read_ttl d =
     bindr (get_seconds d ''access_token'' DEFAULT_ACCESS_TOKEN_TTL ''ttl'') (\<lambda>access_token.
     bindr (get_seconds d ''authorization_code'' DEFAULT_CODE_TTL ''ttl'') (\<lambda>authorization_code.
     bindr (get_seconds d ''tokenserver_token'' DEFAULT_TOKENSERVER_TTL ''ttl'') (\<lambda>tokenserver_token.
       Inr \<lparr>ttl_access_token = access_token, ttl_authorization_code = authorization_code,
            ttl_tokenserver_token = tokenserver_token\<rparr>)))"

definition read_security :: "entry \<Rightarrow> config_error + security_config" where
  "read_security d =
     bindr (get_bool d ''open_registration'' ''security'' False) (\<lambda>open_registration.
     bindr (get_count d ''failed_login_limit'' DEFAULT_FAILED_LOGIN_LIMIT) (\<lambda>limit.
     bindr (get_seconds d ''failed_login_window'' DEFAULT_FAILED_LOGIN_WINDOW ''security'') (\<lambda>window.
       Inr \<lparr>sec_open_registration = open_registration, sec_failed_login_limit = limit,
            sec_failed_login_window = window\<rparr>)))"

fun table_entry :: "json \<Rightarrow> entry option" where
  "table_entry (JObj d) = Some d"
| "table_entry v = None"

definition read_clients :: "entry \<Rightarrow> str \<Rightarrow> config_error + registry" where
  "read_clients d public_url =
     (case (case map_of d ''clients'' of None \<Rightarrow> JArr [] | Some v \<Rightarrow> v) of
        JArr vs \<Rightarrow>
          bindr (mapr (\<lambda>v. of_option ClientsNotTables (table_entry v)) vs) (\<lambda>entries.
            (case build_clients public_url entries of Inl e \<Rightarrow> Inl (BadClient e) | Inr reg \<Rightarrow> Inr reg))
      | _ \<Rightarrow> Inl ClientsNotTables)"

definition read_secret :: "entry \<Rightarrow> config_error + str option" where
  "read_secret d =
     (case obj_get d ''tokenserver_shared_secret'' of
        JNull \<Rightarrow> Inr None
      | JStr (c # s) \<Rightarrow> Inr (Some (c # s))
      | _ \<Rightarrow> Inl EmptySecret)"

definition sections :: "entry \<Rightarrow> config_error + (entry \<times> entry \<times> entry \<times> entry \<times> entry)" where
  "sections d =
     bindr (table_section d ''listen'') (\<lambda>listen.
     bindr (table_section d ''paths'') (\<lambda>paths.
     bindr (table_section d ''ttl'') (\<lambda>ttl.
     bindr (table_section d ''log'') (\<lambda>log.
     bindr (table_section d ''security'') (\<lambda>security.
     bindr (reject_unknown listen [''host'', ''port''] ''listen'') (\<lambda>_.
     bindr (reject_unknown log [''level''] ''log'') (\<lambda>_.
     bindr (reject_unknown paths [''database'', ''signing_key'', ''retired_key''] ''paths'') (\<lambda>_.
     bindr (reject_unknown ttl [''access_token'', ''authorization_code'', ''tokenserver_token''] ''ttl'') (\<lambda>_.
     bindr (reject_unknown security [''open_registration'', ''failed_login_limit'', ''failed_login_window'']
              ''security'') (\<lambda>_.
       Inr (listen, paths, ttl, log, security)))))))))))"

definition config_from_dict :: "(str \<Rightarrow> str) \<Rightarrow> entry \<Rightarrow> config_error + config" where
  "config_from_dict resolve d =
     bindr (reject_unknown d [''public_url'', ''tokenserver_shared_secret'', ''clients'', ''listen'',
              ''paths'', ''ttl'', ''log'', ''security''] []) (\<lambda>_.
     bindr (require_str d ''public_url'' []) (\<lambda>given_url.
     bindr (read_public_url given_url) (\<lambda>public_url.
     bindr (sections d) (\<lambda>(listen_raw, paths_raw, ttl_raw, log_raw, security_raw).
     bindr (get_str listen_raw ''host'' ''listen'' DEFAULT_HOST) (\<lambda>host.
     bindr (bindr (get_int listen_raw ''port'' ''listen'' DEFAULT_PORT) read_port) (\<lambda>port.
     bindr (read_paths resolve paths_raw) (\<lambda>paths.
     bindr (read_ttl ttl_raw) (\<lambda>ttl.
     bindr (bindr (get_str log_raw ''level'' ''log'' DEFAULT_LOG_LEVEL) read_log_level) (\<lambda>level.
     bindr (read_security security_raw) (\<lambda>security.
     bindr (read_clients d public_url) (\<lambda>clients.
     bindr (read_secret d) (\<lambda>secret.
       Inr \<lparr>cf_public_url = public_url, cf_host = host, cf_port = port, cf_paths = paths, cf_ttl = ttl,
            cf_log_level = level, cf_security = security, cf_secret = secret,
            cf_clients = clients\<rparr>))))))))))))"

end
