(* ===== verification/Tokenserver.thy ===== *)
theory Tokenserver
  imports Tokenlib Config Db
begin

text \<open>
  \<open>tokenserver/__init__.py\<close> and \<open>tokenserver/errors.py\<close>: reading the access token and the key
  id of a request, finding or creating the account's Sync user, the checks of claimed against
  stored values, moving the record forward, and minting the credential. The clock is read once
  per request here. A request that raises keeps what its earlier statements wrote: nothing
  opens a transaction around them.
\<close>

definition APPLICATION :: str where "APPLICATION = ''sync''"
definition TS_VERSION :: str where "TS_VERSION = ''1.5''"
definition NODE_TYPE :: str where "NODE_TYPE = ''sqlite''"

subsection \<open>Errors\<close>

record tokenserver_error =
  te_status :: str
  te_location :: str
  te_name :: str
  te_description :: str
  te_http_status :: int

definition ts_payload :: "tokenserver_error \<Rightarrow> json" where
  "ts_payload e =
     JObj [(''status'', JStr (te_status e)),
       (''errors'', JArr [JObj [(''location'', JStr (te_location e)), (''name'', JStr (te_name e)),
          (''description'', JStr (te_description e))]])]"

definition invalid_credentials :: "str \<Rightarrow> tokenserver_error" where
  "invalid_credentials d = \<lparr>te_status = ''invalid-credentials'', te_location = ''body'', te_name = [],
     te_description = d, te_http_status = 401\<rparr>"

definition ts_unauthorized :: "str \<Rightarrow> tokenserver_error" where
  "ts_unauthorized d = \<lparr>te_status = ''error'', te_location = ''body'', te_name = [], te_description = d,
     te_http_status = 401\<rparr>"

definition invalid_key_id :: "str \<Rightarrow> tokenserver_error" where
  "invalid_key_id d = \<lparr>te_status = ''invalid-key-id'', te_location = ''header'', te_name = [],
     te_description = d, te_http_status = 401\<rparr>"

definition invalid_client_state :: "str \<Rightarrow> tokenserver_error" where
  "invalid_client_state d = \<lparr>te_status = ''invalid-client-state'', te_location = ''header'',
     te_name = ''X-Client-State'', te_description = d, te_http_status = 401\<rparr>"

definition invalid_generation :: tokenserver_error where
  "invalid_generation = \<lparr>te_status = ''invalid-generation'', te_location = ''body'', te_name = [],
     te_description = ''Unauthorized'', te_http_status = 401\<rparr>"

definition invalid_keys_changed_at :: tokenserver_error where
  "invalid_keys_changed_at = \<lparr>te_status = ''invalid-keysChangedAt'', te_location = ''body'', te_name = [],
     te_description = ''Unauthorized'', te_http_status = 401\<rparr>"

definition bad_client_state_header :: tokenserver_error where
  "bad_client_state_header = \<lparr>te_status = ''error'', te_location = ''header'', te_name = ''X-Client-State'',
     te_description = ''Invalid client state value'', te_http_status = 400\<rparr>"

definition unsupported :: "str \<Rightarrow> str \<Rightarrow> tokenserver_error" where
  "unsupported d n = \<lparr>te_status = ''error'', te_location = ''url'', te_name = n, te_description = d,
     te_http_status = 404\<rparr>"

definition ts_internal_error :: tokenserver_error where
  "ts_internal_error = \<lparr>te_status = ''internal-error'', te_location = ''internal'', te_name = [],
     te_description = ''Server error'', te_http_status = 500\<rparr>"

text \<open>\<open>TsCrash\<close> is an exception the tier does not expect.\<close>

datatype ts_exn = TsError tokenserver_error | TsCrash

subsection \<open>Reading the request\<close>

record auth_data =
  ad_fxa_uid :: str
  ad_client_state :: str
  ad_generation :: "int option"
  ad_keys_changed_at :: "int option"

record ts_request =
  tr_headers :: "(str \<times> str) list"
  tr_params :: params

record 'key ts_config =
  tc_public_url :: str
  tc_ttl :: int
  tc_secret :: str
  tc_json :: json_lib
  tc_rsa :: "'key rsa"
  tc_verifiers :: "(str \<times> 'key) list"

definition unauth :: ts_exn where
  "unauth = TsError (invalid_credentials ''Unauthorized'')"

definition header_or_empty :: "(str \<times> str) list \<Rightarrow> str \<Rightarrow> str" where
  "header_or_empty hs name = (case header_get hs name of None \<Rightarrow> [] | Some v \<Rightarrow> v)"

text \<open>\<open>ScopeSet.from_string(claims.get("scope", "")).contains(OLDSYNC_SCOPE)\<close>\<close>

definition has_oldsync :: "(str \<times> json) list \<Rightarrow> ts_exn + bool" where
  "has_oldsync claims =
     (case get_or claims ''scope'' (JStr []) of
        JStr s \<Rightarrow>
          (case (from_string s, from_string OLDSYNC_SCOPE) of
             (Some granted, Some oldsync) \<Rightarrow> Inr (contains granted oldsync)
           | _ \<Rightarrow> Inl TsCrash)
      | _ \<Rightarrow> Inl TsCrash)"

definition verified_access_token :: "'key ts_config \<Rightarrow> int \<Rightarrow> ts_request \<Rightarrow> ts_exn + (str \<times> json) list" where
  "verified_access_token cf now rq =
     (let (scheme, _, token) = partition CHR '' '' (header_or_empty (tr_headers rq) ''authorization'')
      in bindr (guardr (token \<noteq> [] \<and> lower scheme = ''bearer'') unauth) (\<lambda>_.
         bindr (of_option unauth (verify_jwt (tc_json cf) (tc_rsa cf) (KeyMap (tc_verifiers cf)) now 0 (strip token))) (\<lambda>claims.
         bindr (of_option TsCrash (decode_jwt_header (tc_json cf) (strip token))) (\<lambda>header.
         bindr (guardr (obj_get header ''typ'' = JStr ''at+JWT'') unauth) (\<lambda>_.
         bindr (guardr (obj_get claims ''iss'' = JStr (tc_public_url cf) \<and>
             obj_get claims ''aud'' = JStr (config_url (tc_public_url cf) ''/token'')) unauth) (\<lambda>_.
         bindr (guardr (case obj_get claims ''sub'' of JStr s \<Rightarrow> s \<noteq> [] | _ \<Rightarrow> False) unauth) (\<lambda>_.
         bindr (has_oldsync claims) (\<lambda>ok.
         bindr (guardr ok unauth) (\<lambda>_. Inr claims)))))))))"

definition CLIENT_STATE_RE :: "str \<Rightarrow> bool" where
  "CLIENT_STATE_RE =
     re_dollar (class_between (\<lambda>c. is_alnum c \<or> c \<in> {CHR ''.'', CHR ''_'', CHR ''-''}) 1 32)"

definition B64URL_RE :: "str \<Rightarrow> bool" where
  "B64URL_RE = re_dollar (class_plus is_b64url)"

definition x_client_state :: "ts_request \<Rightarrow> ts_exn + str option" where
  "x_client_state rq =
     (case header_get (tr_headers rq) ''x-client-state'' of
        None \<Rightarrow> Inr None
      | Some v \<Rightarrow> if CLIENT_STATE_RE v then Inr (Some v) else Inl (TsError bad_client_state_header))"

definition read_key_id :: "str \<Rightarrow> ts_exn + int \<times> str" where
  "read_key_id raw =
     (let (timestamp, separator, encoded) = partition CHR ''-'' raw
      in bindr (guardr separator unauth) (\<lambda>_.
         bindr (of_option unauth (py_int timestamp)) (\<lambda>keys_changed_at.
         bindr (guardr (B64URL_RE encoded) unauth) (\<lambda>_.
         bindr (of_option unauth (urlsafe_b64decode (repad encoded))) (\<lambda>bs.
           Inr (keys_changed_at, hex_of bs))))))"

definition key_id :: "ts_request \<Rightarrow> ts_exn + int \<times> str" where
  "key_id rq =
     (case header_get (tr_headers rq) ''x-keyid'' of
        None \<Rightarrow> Inl (TsError (invalid_key_id ''Missing X-KeyID header''))
      | Some raw \<Rightarrow>
          bindr (guardr (isascii raw) (TsError (invalid_key_id ''Invalid X-KeyID header''))) (\<lambda>_.
          bindr (read_key_id raw) (\<lambda>(keys_changed_at, client_state).
          bindr (x_client_state rq) (\<lambda>declared.
            if declared \<noteq> None \<and> declared \<noteq> Some client_state
            then Inl (TsError (invalid_client_state ''Client state mismatch in X-Client-State header''))
            else Inr (keys_changed_at, client_state)))))"

definition duration_of :: "ts_request \<Rightarrow> int \<Rightarrow> int" where
  "duration_of rq default_ttl =
     (case param_get (tr_params rq) ''duration'' of
        None \<Rightarrow> default_ttl
      | Some raw \<Rightarrow>
          (case py_int raw of
             None \<Rightarrow> default_ttl
           | Some requested \<Rightarrow> if 0 < requested \<and> requested \<le> default_ttl then requested else default_ttl))"

definition none_if_zero :: "json \<Rightarrow> int option" where
  "none_if_zero v = (case v of JInt n \<Rightarrow> if n \<noteq> 0 then Some n else None | _ \<Rightarrow> None)"

definition auth_data_of :: "'key ts_config \<Rightarrow> int \<Rightarrow> ts_request \<Rightarrow> ts_exn + auth_data" where
  "auth_data_of cf now rq =
     bindr (verified_access_token cf now rq) (\<lambda>claims.
     bindr (key_id rq) (\<lambda>(keys_changed_at, client_state).
       Inr \<lparr>ad_fxa_uid = (case obj_get claims ''sub'' of JStr s \<Rightarrow> s | _ \<Rightarrow> []),
         ad_client_state = client_state, ad_generation = none_if_zero (obj_get claims ''fxa-generation''),
         ad_keys_changed_at = none_if_zero (JInt keys_changed_at)\<rparr>))"

subsection \<open>The user record\<close>

text \<open>What a step answers, beside the database it leaves.\<close>

type_synonym 'a ts_result = "(ts_exn + 'a) \<times> database"

definition opt_int_ok :: "int option \<Rightarrow> bool" where
  "opt_int_ok v \<longleftrightarrow> (case v of None \<Rightarrow> True | Some n \<Rightarrow> sql_int n)"

definition insert_user :: "auth_data \<Rightarrow> int \<Rightarrow> int option \<Rightarrow> int \<Rightarrow> database \<Rightarrow> sync_user ts_result" where
  "insert_user auth generation keys_changed_at now_ms db =
     (if \<not> sql_int generation \<or> \<not> opt_int_ok keys_changed_at then (Inl TsCrash, db)
      else
        (case create_sync_user (ad_fxa_uid auth) (ad_client_state auth) generation keys_changed_at now_ms db of
           Inl _ \<Rightarrow> (Inl TsCrash, db)
         | Inr (u, db') \<Rightarrow> (Inr u, db')))"

definition reconcile :: "sync_user \<Rightarrow> sync_user list \<Rightarrow> database \<Rightarrow> database" where
  "reconcile current history db =
     fold (\<lambda>old d. if su_replaced_at old = None then replace_sync_user (su_uid old) (su_created_at current) d else d)
       history db"

definition current_user :: "database \<Rightarrow> auth_data \<Rightarrow> int \<Rightarrow> (sync_user \<times> str list) ts_result" where
  "current_user db auth now_ms =
     (case sync_users (ad_fxa_uid auth) db of
        [] \<Rightarrow>
          if get_account (ad_fxa_uid auth) db = None then (Inl unauth, db)
          else
            (case insert_user auth (case ad_generation auth of None \<Rightarrow> 0 | Some g \<Rightarrow> g)
                (ad_keys_changed_at auth) now_ms db of
               (Inl e, db') \<Rightarrow> (Inl e, db')
             | (Inr u, db') \<Rightarrow> (Inr (u, []), db'))
      | current # history \<Rightarrow>
          (Inr (current, map su_client_state (filter (\<lambda>old. su_client_state old \<noteq> su_client_state current) history)),
           reconcile current history db))"

definition opt_gt :: "int option \<Rightarrow> int option \<Rightarrow> bool" where
  "opt_gt a b \<longleftrightarrow> (case (a, b) of (Some x, Some y) \<Rightarrow> y < x | _ \<Rightarrow> False)"

definition opt_lt :: "int option \<Rightarrow> int option \<Rightarrow> bool" where
  "opt_lt a b \<longleftrightarrow> (case (a, b) of (Some x, Some y) \<Rightarrow> x < y | _ \<Rightarrow> False)"

definition opt_le :: "int option \<Rightarrow> int option \<Rightarrow> bool" where
  "opt_le a b \<longleftrightarrow> (case (a, b) of (Some x, Some y) \<Rightarrow> x \<le> y | _ \<Rightarrow> False)"

definition stale_state :: "str \<Rightarrow> ts_exn" where
  "stale_state why = TsError (invalid_client_state (''Unacceptable client-state value '' @ why))"

definition validate :: "auth_data \<Rightarrow> sync_user \<Rightarrow> str list \<Rightarrow> ts_exn + unit" where
  "validate auth user retired =
     (let changed = ad_client_state auth \<noteq> su_client_state user;
          g = ad_generation auth; k = ad_keys_changed_at auth;
          ug = Some (su_generation user); uk = su_keys_changed_at user
      in bindr (guardr (\<not> (opt_gt k uk \<and> opt_lt g k)) (TsError invalid_keys_changed_at)) (\<lambda>_.
         bindr (guardr (\<not> (su_client_state user \<noteq> [] \<and> ad_client_state auth = [])) (stale_state ''empty string'')) (\<lambda>_.
         bindr (guardr (ad_client_state auth \<notin> set retired) (stale_state ''stale value'')) (\<lambda>_.
         bindr (guardr (\<not> (changed \<and> opt_le g ug)) (stale_state ''new value with no generation change'')) (\<lambda>_.
         bindr (guardr (\<not> (changed \<and> opt_le k uk)) (stale_state ''new value with no keys_changed_at change'')) (\<lambda>_.
         bindr (guardr (\<not> opt_gt ug g) (TsError invalid_generation)) (\<lambda>_.
         bindr (guardr (\<not> opt_gt uk k) (TsError invalid_keys_changed_at)) (\<lambda>_.
           guardr (\<not> (k = None \<and> uk \<noteq> None \<and> uk \<noteq> Some 0)) (TsError invalid_keys_changed_at)))))))))"

definition next_keys_changed_at :: "auth_data \<Rightarrow> sync_user \<Rightarrow> int option" where
  "next_keys_changed_at auth user =
     (case ad_keys_changed_at auth of
        Some k \<Rightarrow> Some k
      | None \<Rightarrow> (case su_keys_changed_at user of None \<Rightarrow> None | Some _ \<Rightarrow> Some 0))"

definition next_generation :: "auth_data \<Rightarrow> sync_user \<Rightarrow> int" where
  "next_generation auth user =
     (case ad_generation auth of
        Some g \<Rightarrow> g
      | None \<Rightarrow>
          (case ad_keys_changed_at auth of
             None \<Rightarrow> su_generation user
           | Some k \<Rightarrow>
               if su_generation user < k \<and>
                  (case su_keys_changed_at user of None \<Rightarrow> True | Some uk \<Rightarrow> uk < k)
               then k else su_generation user))"

definition apply_update :: "database \<Rightarrow> auth_data \<Rightarrow> sync_user \<Rightarrow> int \<Rightarrow> (int \<times> int \<times> int option) ts_result" where
  "apply_update db auth user now_ms =
     (let k = next_keys_changed_at auth user; g = next_generation auth user
      in if ad_client_state auth \<noteq> su_client_state user then
           (case insert_user auth g k now_ms db of
              (Inl e, db') \<Rightarrow> (Inl e, db')
            | (Inr replacement, db') \<Rightarrow>
                (Inr (su_uid replacement, g, k),
                 snd (replace_other_sync_users (ad_fxa_uid auth) (su_uid replacement) now_ms db')))
         else if g \<noteq> su_generation user \<or> k \<noteq> su_keys_changed_at user then
           (if \<not> sql_int g \<or> \<not> opt_int_ok k then (Inl TsCrash, db)
            else (Inr (su_uid user, g, k), update_sync_user (su_uid user) g k db))
         else (Inr (su_uid user, g, k), db))"

text \<open>The three steps of the handler that touch the record.\<close>

definition allocate :: "database \<Rightarrow> auth_data \<Rightarrow> int \<Rightarrow> (int \<times> int \<times> int option) ts_result" where
  "allocate db auth now_ms =
     (case current_user db auth now_ms of
        (Inl e, db') \<Rightarrow> (Inl e, db')
      | (Inr (user, retired), db') \<Rightarrow>
          (case validate auth user retired of
             Inl e \<Rightarrow> (Inl e, db')
           | Inr _ \<Rightarrow> apply_update db' auth user now_ms))"

subsection \<open>The credential\<close>

text \<open>\<open>f"{timestamp:013d}-{encoded}"\<close>; the client state is hex of our own making.\<close>

definition pad_int :: "nat \<Rightarrow> int \<Rightarrow> str" where
  "pad_int w n =
     (if n < 0 then CHR ''-'' # replicate (w - 1 - length (show_nat (nat (- n)))) (CHR ''0'') @ show_nat (nat (- n))
      else replicate (w - length (show_nat (nat n))) (CHR ''0'') @ show_nat (nat n))"

definition fxa_kid :: "int \<Rightarrow> str \<Rightarrow> str option" where
  "fxa_kid timestamp client_state =
     map_option (\<lambda>bs. pad_int 13 timestamp @ ''-'' @ b64u_encode bs) (fromhex client_state)"

record ts_response =
  tp_id :: str
  tp_key :: str
  tp_uid :: int
  tp_api_endpoint :: str
  tp_duration :: int
  tp_hashed_fxa_uid :: str
  tp_hashalg :: str
  tp_node_type :: str
  tp_headers :: "(str \<times> str) list"

definition token_claims :: "'key ts_config \<Rightarrow> auth_data \<Rightarrow> int \<Rightarrow> str \<Rightarrow> int \<Rightarrow> int \<Rightarrow> (str \<times> json) list" where
  "token_claims cf auth uid kid now_ms duration =
     (let hashed = metrics_hash (ad_fxa_uid auth) (tc_secret cf)
      in [(''node'', JStr (config_url (tc_public_url cf) ''/storage'')), (''fxa_kid'', JStr kid),
          (''fxa_uid'', JStr (ad_fxa_uid auth)),
          (''hashed_device_id'', JStr (hashed_device_id hashed (tc_secret cf))),
          (''hashed_fxa_uid'', JStr hashed), (''expires'', JInt (now_ms div 1000 + duration)),
          (''uid'', JInt uid), (''tokenserver_origin'', JStr ''python'')])"

definition mint :: "'key ts_config \<Rightarrow> ts_request \<Rightarrow> auth_data \<Rightarrow> int \<Rightarrow> bytes \<Rightarrow> int \<times> int \<times> int option \<Rightarrow> ts_exn + ts_response" where
  "mint cf rq auth now_ms salt facts =
     (let (uid, generation, keys_changed_at) = facts;
          duration = duration_of rq (tc_ttl cf)
      in bindr (of_option TsCrash (fxa_kid (case keys_changed_at of Some k \<Rightarrow> k | None \<Rightarrow> generation) (ad_client_state auth))) (\<lambda>kid.
         bindr (of_option TsCrash (make_token (tc_json cf) (token_claims cf auth uid kid now_ms duration) salt (tc_secret cf))) (\<lambda>(tok, key).
           Inr \<lparr>tp_id = tok, tp_key = key, tp_uid = uid,
             tp_api_endpoint = config_url (tc_public_url cf) ''/storage'' @ ''/'' @ TS_VERSION @ ''/'' @ show_int uid,
             tp_duration = duration, tp_hashed_fxa_uid = metrics_hash (ad_fxa_uid auth) (tc_secret cf),
             tp_hashalg = ''sha256'', tp_node_type = NODE_TYPE,
             tp_headers = [(''X-Timestamp'', show_int (now_ms div 1000)), (''X-Content-Type-Options'', ''nosniff'')]\<rparr>)))"

definition token_endpoint ::
  "'key ts_config \<Rightarrow> str \<Rightarrow> str \<Rightarrow> ts_request \<Rightarrow> int \<Rightarrow> bytes \<Rightarrow> database \<Rightarrow> ts_response ts_result" where
  "token_endpoint cf application version rq now_ms salt db =
     (if application \<noteq> APPLICATION then (Inl (TsError (unsupported ''Unsupported application'' ''application'')), db)
      else if version \<noteq> TS_VERSION then (Inl (TsError (unsupported ''Unsupported application version'' version)), db)
      else
        (case auth_data_of cf (now_ms div 1000) rq of
           Inl e \<Rightarrow> (Inl e, db)
         | Inr auth \<Rightarrow>
             (case allocate db auth now_ms of
                (Inl e, db') \<Rightarrow> (Inl e, db')
              | (Inr facts, db') \<Rightarrow> (mint cf rq auth now_ms salt facts, db'))))"

end
