(* ===== verification/TokenserverFacts.thy ===== *)
theory TokenserverFacts
  imports Tokenserver DbFacts
begin

text \<open>
  The Sync users of an account under a sequence of token requests: who is current, what each
  request does to the rows, and the invariants that hold after any number of them, including
  requests cut short by a crash between the INSERT and the UPDATE.
\<close>

subsection \<open>The current row\<close>

definition users_of :: "str \<Rightarrow> database \<Rightarrow> sync_user set" where
  "users_of f db = {r \<in> set (db_sync_users db). su_fxa_uid r = f}"

definition user_key :: "sync_user \<Rightarrow> int list" where
  "user_key r = [su_generation r, su_created_at r, su_uid r]"

lemma sync_users_key: "sync_users f db = rev (sort_key user_key (filter (\<lambda>r. su_fxa_uid r = f) (db_sync_users db)))"
  by (simp add: sync_users_def user_key_def [abs_def])

lemma set_sync_users: "set (sync_users f db) = users_of f db"
  by (simp add: sync_users_key users_of_def)

lemma sync_users_Nil: "sync_users f db = [] \<longleftrightarrow> users_of f db = {}"
  using set_sync_users [of f db] by (metis list.set(1) set_empty)

lemma wf_uniq_users: "wf_db db \<Longrightarrow> uniq su_uid (db_sync_users db)"
  by (simp add: wf_db_def wf_keys_def)

lemma user_eq: "wf_db db \<Longrightarrow> r \<in> users_of f db \<Longrightarrow> q \<in> users_of g db \<Longrightarrow> su_uid r = su_uid q \<Longrightarrow> r = q"
  using wf_uniq_users [of db] by (auto simp: users_of_def dest: uniq_eq)

lemma distinct_sync_users:
  assumes "wf_db db" shows "distinct (sync_users f db)"
proof -
  have "distinct (map su_uid (db_sync_users db))" using wf_uniq_users [OF assms] by (simp add: uniq_def)
  then have "distinct (db_sync_users db)" by (simp add: distinct_map)
  then show ?thesis by (simp add: sync_users_key)
qed

text \<open>The first row is the one with the greatest key, and the rest are the others.\<close>

lemma sync_users_ConsD:
  assumes "sync_users f db = c # h"
  shows "c \<in> users_of f db" "r \<in> users_of f db \<Longrightarrow> user_key r \<le> user_key c"
    "wf_db db \<Longrightarrow> set h = users_of f db - {c}"
proof -
  have s: "set (c # h) = users_of f db" using set_sync_users [of f db] assms by simp
  then show "c \<in> users_of f db" by auto
  have "sorted (map user_key (rev (sync_users f db)))" by (simp add: sync_users_key)
  then have "sorted (map user_key (rev h) @ [user_key c])" using assms by simp
  then show "user_key r \<le> user_key c" if "r \<in> users_of f db"
    using that s by (auto simp: sorted_append)
  show "set h = users_of f db - {c}" if "wf_db db"
    using distinct_sync_users [OF that, of f] s assms by auto
qed

lemma sync_users_ConsI:
  assumes wf: "wf_db db" and c: "c \<in> users_of f db"
    and m: "\<And>r. r \<in> users_of f db \<Longrightarrow> r \<noteq> c \<Longrightarrow> user_key r < user_key c"
  obtains h where "sync_users f db = c # h"
proof -
  obtain d h where s: "sync_users f db = d # h"
    using c sync_users_Nil [of f db] by (cases "sync_users f db") auto
  have "d = c"
    using sync_users_ConsD(1,2) [OF s] m [of d] c by (metis leD)
  then show ?thesis using s that by blast
qed

lemma user_key_less: "su_generation r < su_generation c \<Longrightarrow> user_key r < user_key c"
  by (simp add: user_key_def)

lemma user_key_generation: "user_key r \<le> user_key c \<Longrightarrow> su_generation r \<le> su_generation c"
  by (auto simp: user_key_def split: if_splits)

lemma user_key_inj: "user_key r = user_key c \<Longrightarrow> su_uid r = su_uid c"
  by (simp add: user_key_def)

subsection \<open>What each statement does to the rows of an account\<close>

lemma image_with_key: "(\<And>r. key (h r) = key r) \<Longrightarrow> {r \<in> h ` A. key r = f} = h ` {r \<in> A. key r = f}"
  by auto

lemma users_update_where:
  assumes "\<And>r. su_fxa_uid (g r) = su_fxa_uid r"
  shows "users_of f (db\<lparr>db_sync_users := update_where P g (db_sync_users db)\<rparr>) =
    (\<lambda>r. if P r then g r else r) ` users_of f db"
proof -
  let ?h = "\<lambda>r. if P r then g r else r"
  have k: "su_fxa_uid (?h r) = su_fxa_uid r" for r using assms by simp
  have "users_of f (db\<lparr>db_sync_users := update_where P g (db_sync_users db)\<rparr>) =
      {r \<in> ?h ` set (db_sync_users db). su_fxa_uid r = f}"
    by (simp add: users_of_def update_where_def)
  also have "\<dots> = ?h ` {r \<in> set (db_sync_users db). su_fxa_uid r = f}"
    using image_with_key [of su_fxa_uid ?h "set (db_sync_users db)" f, OF k] .
  finally show ?thesis by (simp add: users_of_def)
qed

lemma users_replace: "users_of f (replace_sync_user uid t db) =
    (\<lambda>r. if su_uid r = uid \<and> su_replaced_at r = None then r\<lparr>su_replaced_at := Some t\<rparr> else r) ` users_of f db"
  unfolding replace_sync_user_def by (rule users_update_where) simp

lemma users_replace_other: "users_of f (snd (replace_other_sync_users g keep t db)) =
    (\<lambda>r. if su_fxa_uid r = g \<and> su_uid r \<noteq> keep \<and> su_replaced_at r = None then r\<lparr>su_replaced_at := Some t\<rparr> else r) `
      users_of f db"
  unfolding replace_other_sync_users_def Let_def snd_conv by (rule users_update_where) simp

lemma users_update: "users_of f (update_sync_user uid g k db) =
    (\<lambda>r. if su_uid r = uid then r\<lparr>su_generation := g, su_keys_changed_at := k\<rparr> else r) ` users_of f db"
  unfolding update_sync_user_def by (rule users_update_where) simp

lemma insert_user_Inr:
  assumes "insert_user auth g k now db = (Inr u, db')"
  shows "u = \<lparr>su_uid = db_sync_users_seq db + 1, su_fxa_uid = ad_fxa_uid auth, su_client_state = ad_client_state auth,
      su_generation = g, su_keys_changed_at = k, su_created_at = now, su_replaced_at = None\<rparr>"
    "db' = db\<lparr>db_sync_users := db_sync_users db @ [u], db_sync_users_seq := db_sync_users_seq db + 1\<rparr>"
    "create_sync_user (ad_fxa_uid auth) (ad_client_state auth) g k now db = Inr (u, db')"
  using assms by (auto simp: insert_user_def create_sync_user_def Let_def split: if_splits sum.splits)

lemma insert_user_Inl: "insert_user auth g k now db = (Inl e, db') \<Longrightarrow> db' = db"
  by (auto simp: insert_user_def split: if_splits sum.splits)

lemma insert_user_wf: "wf_db db \<Longrightarrow> insert_user auth g k now db = (Inr u, db') \<Longrightarrow> wf_db db'"
  using insert_user_Inr(3) create_sync_user_wf by blast

lemma users_insert:
  assumes "insert_user auth g k now db = (Inr u, db')"
  shows "users_of f db' = (if f = ad_fxa_uid auth then insert u (users_of f db) else users_of f db)"
  using insert_user_Inr(1,2) [OF assms] by (auto simp: users_of_def)

subsection \<open>Reconciliation\<close>

text \<open>The rows but for when they were replaced.\<close>

definition unmarked :: "sync_user \<Rightarrow> sync_user" where
  "unmarked r = r\<lparr>su_replaced_at := None\<rparr>"

definition mark_history :: "sync_user \<Rightarrow> sync_user list \<Rightarrow> sync_user \<Rightarrow> sync_user" where
  "mark_history current history r =
     (if su_replaced_at r = None \<and> su_uid r \<in> su_uid ` {old \<in> set history. su_replaced_at old = None}
      then r\<lparr>su_replaced_at := Some (su_created_at current)\<rparr> else r)"

lemma users_reconcile: "users_of f (reconcile current history db) = mark_history current history ` users_of f db"
proof (induction history arbitrary: db)
  case Nil
  then show ?case by (simp add: reconcile_def mark_history_def)
next
  case (Cons old history)
  let ?d = "if su_replaced_at old = None then replace_sync_user (su_uid old) (su_created_at current) db else db"
  have "users_of f (reconcile current (old # history) db) = mark_history current history ` users_of f ?d"
    using Cons.IH [of ?d] by (simp add: reconcile_def)
  also have "\<dots> = mark_history current (old # history) ` users_of f db"
    by (cases "su_replaced_at old = None")
      (auto simp: users_replace mark_history_def image_image intro!: image_cong)
  finally show ?case .
qed

lemma reconcile_wf: "wf_db db \<Longrightarrow> wf_db (reconcile current history db)"
  unfolding reconcile_def by (rule fold_invariant_set) (simp_all add: replace_sync_user_wf)

lemma reconcile_frame:
  "db_accounts (reconcile c h db) = db_accounts db" "db_sync_users_seq (reconcile c h db) = db_sync_users_seq db"
  "db_bso (reconcile c h db) = db_bso db"
proof -
  have "db_accounts (fold (\<lambda>old d. if su_replaced_at old = None then replace_sync_user (su_uid old) (su_created_at c) d else d) h db)
      = db_accounts db \<and>
    db_sync_users_seq (fold (\<lambda>old d. if su_replaced_at old = None then replace_sync_user (su_uid old) (su_created_at c) d else d) h db)
      = db_sync_users_seq db \<and>
    db_bso (fold (\<lambda>old d. if su_replaced_at old = None then replace_sync_user (su_uid old) (su_created_at c) d else d) h db)
      = db_bso db"
    by (rule fold_invariant_set) (simp_all add: replace_sync_user_def)
  then show "db_accounts (reconcile c h db) = db_accounts db"
    "db_sync_users_seq (reconcile c h db) = db_sync_users_seq db" "db_bso (reconcile c h db) = db_bso db"
    by (simp_all add: reconcile_def)
qed

subsection \<open>Invariant and progress\<close>

text \<open>
  No two rows of an account share a client state, and the current row is live. A database
  advances when every row stays, with its uid and client state, and the current row is the same
  or a new one, never behind in generation or \<open>keys_changed_at\<close>.
\<close>

definition users_inv :: "str \<Rightarrow> database \<Rightarrow> bool" where
  "users_inv f db \<longleftrightarrow> inj_on su_client_state (users_of f db) \<and>
     (\<forall>c h. sync_users f db = c # h \<longrightarrow> su_replaced_at c = None)"

definition ts_inv :: "database \<Rightarrow> bool" where
  "ts_inv db \<longleftrightarrow> wf_db db \<and> (\<forall>f. users_inv f db)"

definition keys_le :: "int option \<Rightarrow> int option \<Rightarrow> bool" where
  "keys_le a b \<longleftrightarrow> (case a of None \<Rightarrow> True | Some x \<Rightarrow> (case b of None \<Rightarrow> False | Some y \<Rightarrow> x \<le> y))"

definition newer :: "sync_user \<Rightarrow> sync_user \<Rightarrow> bool" where
  "newer c c' \<longleftrightarrow> su_generation c \<le> su_generation c' \<and> keys_le (su_keys_changed_at c) (su_keys_changed_at c')"

definition same_user :: "sync_user \<Rightarrow> sync_user \<Rightarrow> bool" where
  "same_user r r' \<longleftrightarrow> su_uid r' = su_uid r \<and> su_client_state r' = su_client_state r"

definition advances :: "str \<Rightarrow> database \<Rightarrow> database \<Rightarrow> bool" where
  "advances f db db' \<longleftrightarrow>
     (\<forall>r \<in> users_of f db. \<exists>r' \<in> users_of f db'. same_user r r') \<and>
     (\<forall>c h. sync_users f db = c # h \<longrightarrow>
        (\<exists>c' h'. sync_users f db' = c' # h' \<and> newer c c' \<and>
          (su_uid c' = su_uid c \<or> su_uid c' \<notin> su_uid ` users_of f db)))"

lemma keys_le_refl [simp]: "keys_le a a"
  by (simp add: keys_le_def split: option.splits)

lemma keys_le_trans: "keys_le a b \<Longrightarrow> keys_le b c \<Longrightarrow> keys_le a c"
  by (auto simp: keys_le_def split: option.splits)

lemma newer_refl [simp]: "newer c c"
  by (simp add: newer_def)

lemma newer_trans: "newer a b \<Longrightarrow> newer b c \<Longrightarrow> newer a c"
  using keys_le_trans by (auto simp: newer_def)

lemma advances_refl [simp]: "advances f db db"
  unfolding advances_def same_user_def by auto

lemma advancesD:
  assumes "advances f db db'"
  shows "r \<in> users_of f db \<Longrightarrow> \<exists>r' \<in> users_of f db'. same_user r r'"
    "sync_users f db = c # h \<Longrightarrow> \<exists>c' h'. sync_users f db' = c' # h' \<and> newer c c' \<and>
       (su_uid c' = su_uid c \<or> su_uid c' \<notin> su_uid ` users_of f db)"
  using assms by (simp_all add: advances_def)

lemma same_user_trans: "same_user a b \<Longrightarrow> same_user b c \<Longrightarrow> same_user a c"
  by (simp add: same_user_def)

lemma advances_trans:
  assumes a: "advances f d1 d2" and b: "advances f d2 d3" shows "advances f d1 d3"
proof -
  have rows: "\<exists>r3 \<in> users_of f d3. same_user r r3" if "r \<in> users_of f d1" for r
    using advancesD(1) [OF a that] advancesD(1) [OF b] same_user_trans by blast
  have sub: "su_uid ` users_of f d1 \<subseteq> su_uid ` users_of f d2"
  proof
    fix i assume "i \<in> su_uid ` users_of f d1"
    then obtain r where "r \<in> users_of f d1" "i = su_uid r" by blast
    then show "i \<in> su_uid ` users_of f d2"
      using advancesD(1) [OF a] unfolding same_user_def by (metis imageI)
  qed
  have "\<exists>c' h'. sync_users f d3 = c' # h' \<and> newer c c' \<and> (su_uid c' = su_uid c \<or> su_uid c' \<notin> su_uid ` users_of f d1)"
    if c: "sync_users f d1 = c # h" for c h
  proof -
    obtain c2 h2 where 2: "sync_users f d2 = c2 # h2" "newer c c2" "su_uid c2 = su_uid c \<or> su_uid c2 \<notin> su_uid ` users_of f d1"
      using advancesD(2) [OF a c] by blast
    obtain c3 h3 where 3: "sync_users f d3 = c3 # h3" "newer c2 c3" "su_uid c3 = su_uid c2 \<or> su_uid c3 \<notin> su_uid ` users_of f d2"
      using advancesD(2) [OF b 2(1)] by blast
    then show ?thesis using 2 newer_trans [OF 2(2) 3(2)] sub by (metis subsetD)
  qed
  then show ?thesis using rows by (simp add: advances_def)
qed

text \<open>Rows changed in place: the current one may only grow, the others keep their keys.\<close>

lemma rows_in_place:
  assumes wf: "wf_db db" "wf_db db'" and img: "users_of f db' = m ` users_of f db"
    and same: "\<And>r. r \<in> users_of f db \<Longrightarrow> same_user r (m r)"
    and c: "sync_users f db = c # h"
    and others: "\<And>r. r \<in> users_of f db \<Longrightarrow> r \<noteq> c \<Longrightarrow> user_key (m r) = user_key r"
    and grows: "user_key c \<le> user_key (m c)"
  obtains h' where "sync_users f db' = m c # h'"
proof (rule sync_users_ConsI [OF wf(2)])
  note C = sync_users_ConsD [OF c]
  show "m c \<in> users_of f db'" using C(1) img by blast
  fix r' assume r': "r' \<in> users_of f db'" "r' \<noteq> m c"
  then obtain r where r: "r \<in> users_of f db" "r' = m r" using img by blast
  then have "r \<noteq> c" using r'(2) by blast
  then have "user_key r \<noteq> user_key c" using user_eq [OF wf(1) r(1) C(1)] user_key_inj by blast
  then have "user_key r < user_key c" using C(2) [OF r(1)] by simp
  then show "user_key r' < user_key (m c)" using others [OF r(1) \<open>r \<noteq> c\<close>] r(2) grows by simp
qed (rule that)

lemma states_in_place:
  assumes "users_of f db' = m ` users_of f db" "\<And>r. r \<in> users_of f db \<Longrightarrow> same_user r (m r)"
    and "inj_on su_client_state (users_of f db)"
  shows "inj_on su_client_state (users_of f db')"
  using assms by (auto simp: inj_on_def same_user_def)

text \<open>An account a statement does not touch.\<close>

lemma users_untouched:
  assumes wf: "wf_db db" "wf_db db'" and eq: "users_of g db' = users_of g db" and inv: "users_inv g db"
  shows "users_inv g db' \<and> advances g db db'"
proof (cases "sync_users g db")
  case Nil
  then have "sync_users g db' = []" using eq sync_users_Nil by metis
  then show ?thesis using Nil inv eq by (auto simp: users_inv_def advances_def same_user_def)
next
  case (Cons c h)
  obtain h' where h': "sync_users g db' = c # h'"
    by (rule rows_in_place [OF wf, of g "\<lambda>r. r" c h]) (simp_all add: eq same_user_def Cons)
  have "users_inv g db'" using inv Cons h' eq by (simp add: users_inv_def)
  moreover have "advances g db db'"
    using Cons h' eq by (auto simp: advances_def same_user_def)
  ultimately show ?thesis by simp
qed

subsection \<open>Each statement keeps the invariant and advances\<close>

definition step_ok :: "database \<Rightarrow> database \<Rightarrow> bool" where
  "step_ok db db' \<longleftrightarrow> ts_inv db' \<and> (\<forall>f. advances f db db')"

lemma step_ok_refl: "ts_inv db \<Longrightarrow> step_ok db db"
  by (simp add: step_ok_def)

lemma step_ok_trans: "step_ok a b \<Longrightarrow> step_ok b c \<Longrightarrow> step_ok a c"
  unfolding step_ok_def by (blast intro: advances_trans)

lemma step_okI:
  assumes "ts_inv db" "wf_db db'" and "\<And>g. g \<noteq> f \<Longrightarrow> users_of g db' = users_of g db"
    and "users_inv f db' \<and> advances f db db'"
  shows "step_ok db db'"
proof -
  have "users_inv g db' \<and> advances g db db'" for g
  proof (cases "g = f")
    case False
    show ?thesis
      by (rule users_untouched [OF _ assms(2) assms(3) [OF False]]) (use assms(1) in \<open>simp_all add: ts_inv_def\<close>)
  qed (use assms(4) in simp)
  then show ?thesis using assms(2) by (simp add: step_ok_def ts_inv_def)
qed

text \<open>Rows changed in place, of one account.\<close>

lemma in_place_step:
  assumes inv: "ts_inv db" and wf: "wf_db db'" and img: "\<And>g. users_of g db' = m ` users_of g db"
    and same: "\<And>r. same_user r (m r)" and c: "sync_users f db = c # h"
    and keep: "\<And>r. r \<in> set (db_sync_users db) \<Longrightarrow> su_fxa_uid r \<noteq> f \<Longrightarrow> m r = r"
    and others: "\<And>r. r \<in> users_of f db \<Longrightarrow> r \<noteq> c \<Longrightarrow> user_key (m r) = user_key r"
    and grows: "user_key c \<le> user_key (m c)" "newer c (m c)" "su_replaced_at (m c) = None"
  shows "step_ok db db' \<and> (\<exists>h'. sync_users f db' = m c # h')"
proof -
  have wf0: "wf_db db" "users_inv f db" using inv by (simp_all add: ts_inv_def)
  obtain h' where h': "sync_users f db' = m c # h'"
    by (rule rows_in_place [OF wf0(1) wf img same c others grows(1)])
  have "users_inv f db'"
    using states_in_place [OF img same] wf0(2) h' grows(3) by (simp add: users_inv_def)
  moreover have "advances f db db'"
    unfolding advances_def using same h' grows(2) c by (auto simp: img same_user_def)
  moreover have "users_of g db' = users_of g db" if "g \<noteq> f" for g
    unfolding img using keep that by (force simp: users_of_def)
  ultimately show ?thesis using step_okI [OF inv wf, of f] h' by blast
qed

lemma reconcile_step:
  assumes inv: "ts_inv db" and c: "sync_users f db = c # h"
  shows "step_ok db (reconcile c h db)" "\<exists>h'. sync_users f (reconcile c h db) = c # h'"
    "r \<in> users_of f (reconcile c h db) \<Longrightarrow> r \<noteq> c \<Longrightarrow> su_replaced_at r \<noteq> None"
proof -
  have wf: "wf_db db" "wf_db (reconcile c h db)" using inv reconcile_wf by (auto simp: ts_inv_def)
  note C = sync_users_ConsD [OF c]
  have h: "set h = users_of f db - {c}" using C(3) wf(1) .
  have mc: "mark_history c h c = c"
    using h user_eq [OF wf(1) C(1)] by (auto simp: mark_history_def)
  have "mark_history c h r = r" if "r \<in> set (db_sync_users db)" "su_fxa_uid r \<noteq> f" for r
  proof -
    have "su_uid r \<notin> su_uid ` set h"
      using h that user_eq [OF wf(1), of r "su_fxa_uid r" _ f] by (fastforce simp: users_of_def)
    then show ?thesis by (auto simp: mark_history_def)
  qed
  moreover have "su_replaced_at c = None" using inv c by (auto simp: ts_inv_def users_inv_def)
  ultimately have "step_ok db (reconcile c h db) \<and> (\<exists>h'. sync_users f (reconcile c h db) = mark_history c h c # h')"
    by (intro in_place_step [OF inv wf(2) users_reconcile _ c])
      (simp_all add: mc, simp_all add: same_user_def mark_history_def user_key_def)
  then show "step_ok db (reconcile c h db)" "\<exists>h'. sync_users f (reconcile c h db) = c # h'"
    by (simp_all add: mc)
  assume r: "r \<in> users_of f (reconcile c h db)" "r \<noteq> c"
  then obtain q where q: "q \<in> users_of f db" "r = mark_history c h q" by (auto simp: users_reconcile)
  then have "q \<in> set h" using h mc r(2) by auto
  then show "su_replaced_at r \<noteq> None" using q(2) by (auto simp: mark_history_def)
qed

lemma insert_step:
  assumes inv: "ts_inv db" and i: "insert_user auth g k now db = (Inr u, db')"
    and new: "ad_client_state auth \<notin> su_client_state ` users_of (ad_fxa_uid auth) db"
    and c: "\<And>c h. sync_users (ad_fxa_uid auth) db = c # h \<Longrightarrow> su_generation c < g \<and> newer c u"
  shows "step_ok db db' \<and> (\<exists>h'. sync_users (ad_fxa_uid auth) db' = u # h')"
proof -
  let ?f = "ad_fxa_uid auth"
  have wf: "wf_db db" "wf_db db'" "users_inv ?f db"
    using inv insert_user_wf [OF _ i] by (auto simp: ts_inv_def)
  note u = insert_user_Inr(1) [OF i]
  have U: "users_of ?f db' = insert u (users_of ?f db)" using users_insert [OF i] by simp
  have fresh: "su_uid u \<notin> su_uid ` users_of ?f db"
    using wf_sync_users_seq [OF wf(1)] u by (fastforce simp: users_of_def)
  have "user_key r < user_key u" if r: "r \<in> users_of ?f db" for r
  proof -
    obtain c0 h0 where s: "sync_users ?f db = c0 # h0"
      using r sync_users_Nil [of ?f db] by (cases "sync_users ?f db") auto
    then have "su_generation r < su_generation u"
      using c [OF s] user_key_generation [OF sync_users_ConsD(2) [OF s r]] u by simp
    then show ?thesis by (rule user_key_less)
  qed
  then obtain h' where h': "sync_users ?f db' = u # h'"
    using sync_users_ConsI [OF wf(2), of u ?f] U by auto
  have "inj_on su_client_state (users_of ?f db')"
    using wf(3) new u unfolding U users_inv_def by (auto simp: inj_on_insert)
  then have "users_inv ?f db'" using h' u by (simp add: users_inv_def)
  moreover have "advances ?f db db'"
    unfolding advances_def using U h' c fresh by (auto simp: same_user_def)
  ultimately show ?thesis
    using step_okI [OF inv wf(2), of ?f] users_insert [OF i] h' by auto
qed

lemma update_step:
  assumes inv: "ts_inv db" and c: "sync_users f db = c # h"
    and g: "su_generation c \<le> g" "keys_le (su_keys_changed_at c) k"
  shows "step_ok db (update_sync_user (su_uid c) g k db) \<and>
    (\<exists>h'. sync_users f (update_sync_user (su_uid c) g k db) = c\<lparr>su_generation := g, su_keys_changed_at := k\<rparr> # h')"
proof -
  let ?m = "\<lambda>r. if su_uid r = su_uid c then r\<lparr>su_generation := g, su_keys_changed_at := k\<rparr> else r"
  have wf: "wf_db db" "wf_db (update_sync_user (su_uid c) g k db)"
    using inv update_sync_user_wf by (auto simp: ts_inv_def)
  note C = sync_users_ConsD [OF c]
  have "su_uid r \<noteq> su_uid c" if "r \<in> set (db_sync_users db)" "su_fxa_uid r \<noteq> f" for r
    using user_eq [OF wf(1), of r "su_fxa_uid r" c f] C(1) that by (auto simp: users_of_def)
  moreover have "su_uid r \<noteq> su_uid c" if "r \<in> users_of f db" "r \<noteq> c" for r
    using user_eq [OF wf(1) that(1) C(1)] that(2) by blast
  moreover have "su_replaced_at c = None" using inv c by (auto simp: ts_inv_def users_inv_def)
  moreover have "user_key c \<le> user_key (?m c)" using g(1) by (simp add: user_key_def) linarith
  ultimately have "step_ok db (update_sync_user (su_uid c) g k db) \<and>
      (\<exists>h'. sync_users f (update_sync_user (su_uid c) g k db) = ?m c # h')"
    using g by (intro in_place_step [OF inv wf(2) users_update _ c]) (auto simp: same_user_def newer_def)
  then show ?thesis by simp
qed

lemma replace_other_step:
  assumes inv: "ts_inv db" and c: "sync_users f db = c # h"
  shows "step_ok db (snd (replace_other_sync_users f (su_uid c) t db))"
    "\<exists>h'. sync_users f (snd (replace_other_sync_users f (su_uid c) t db)) = c # h'"
    "r \<in> users_of f (snd (replace_other_sync_users f (su_uid c) t db)) \<Longrightarrow> r \<noteq> c \<Longrightarrow> su_replaced_at r \<noteq> None"
proof -
  let ?m = "\<lambda>r. if su_fxa_uid r = f \<and> su_uid r \<noteq> su_uid c \<and> su_replaced_at r = None then r\<lparr>su_replaced_at := Some t\<rparr> else r"
  let ?d = "snd (replace_other_sync_users f (su_uid c) t db)"
  have wf: "wf_db db" "wf_db ?d" using inv replace_other_sync_users_wf by (auto simp: ts_inv_def)
  note C = sync_users_ConsD [OF c]
  have "su_replaced_at c = None" using inv c by (auto simp: ts_inv_def users_inv_def)
  then have "step_ok db ?d \<and> (\<exists>h'. sync_users f ?d = ?m c # h')"
    by (intro in_place_step [OF inv wf(2) users_replace_other _ c]) (auto simp: same_user_def user_key_def)
  then show "step_ok db ?d" "\<exists>h'. sync_users f ?d = c # h'" by simp_all
  assume r: "r \<in> users_of f ?d" "r \<noteq> c"
  then obtain q where q: "q \<in> users_of f db" "r = ?m q" unfolding users_replace_other by blast
  then have "q \<noteq> c" using r(2) by auto
  then have "su_uid q \<noteq> su_uid c" using user_eq [OF wf(1) q(1) C(1)] by blast
  then show "su_replaced_at r \<noteq> None" using q by (auto simp: users_of_def)
qed

subsection \<open>One request\<close>

lemma validate_Inr:
  assumes "validate auth user retired = Inr ()" and "ad_generation auth = Some g"
  shows "ad_client_state auth \<notin> set retired" "su_generation user \<le> g"
    "ad_client_state auth \<noteq> su_client_state user \<Longrightarrow> su_generation user < g"
    "keys_le (su_keys_changed_at user) (next_keys_changed_at auth user)"
proof -
  have v: "ad_client_state auth \<notin> set retired"
    "\<not> (ad_client_state auth \<noteq> su_client_state user \<and> opt_le (Some g) (Some (su_generation user)))"
    "\<not> opt_gt (Some (su_generation user)) (Some g)"
    "\<not> opt_gt (su_keys_changed_at user) (ad_keys_changed_at auth)"
    "\<not> (ad_keys_changed_at auth = None \<and> su_keys_changed_at user \<noteq> None \<and> su_keys_changed_at user \<noteq> Some 0)"
    using assms unfolding validate_def Let_def by (auto simp only: bindr_eq_Inr guardr_eq_Inr)
  show "ad_client_state auth \<notin> set retired" by (rule v(1))
  show "su_generation user \<le> g" using v(3) by (simp add: opt_gt_def)
  show "ad_client_state auth \<noteq> su_client_state user \<Longrightarrow> su_generation user < g"
    using v(2) by (simp add: opt_le_def)
  show "keys_le (su_keys_changed_at user) (next_keys_changed_at auth user)"
    using v(4,5) by (auto simp: keys_le_def next_keys_changed_at_def opt_gt_def split: option.splits)
qed

text \<open>After a request that was answered: the row it names is current, live and says what the answer says.\<close>

definition answered :: "auth_data \<Rightarrow> int \<times> int \<times> int option \<Rightarrow> database \<Rightarrow> bool" where
  "answered auth facts db \<longleftrightarrow>
     (\<exists>c h. sync_users (ad_fxa_uid auth) db = c # h \<and>
        facts = (su_uid c, su_generation c, su_keys_changed_at c) \<and>
        su_client_state c = ad_client_state auth \<and> su_replaced_at c = None \<and>
        (\<forall>r \<in> users_of (ad_fxa_uid auth) db. r \<noteq> c \<longrightarrow> su_replaced_at r \<noteq> None))"

lemma first_sight:
  assumes inv: "ts_inv db" and g: "ad_generation auth = Some g" and n: "sync_users (ad_fxa_uid auth) db = []"
    and a: "allocate db auth now = (r, db')"
  shows "step_ok db db' \<and> (\<forall>facts. r = Inr facts \<longrightarrow> answered auth facts db')"
proof (cases "get_account (ad_fxa_uid auth) db = None")
  case True
  then show ?thesis using a n step_ok_refl [OF inv] by (auto simp: allocate_def current_user_def)
next
  case False
  obtain x d1 where i: "insert_user auth g (ad_keys_changed_at auth) now db = (x, d1)" by fastforce
  show ?thesis
  proof (cases x)
    case (Inl e)
    then have "r = Inl e" "db' = db"
      using a n g False i insert_user_Inl by (auto simp: allocate_def current_user_def)
    then show ?thesis using step_ok_refl [OF inv] by simp
  next
    case (Inr u)
    note i' = i [unfolded Inr] and u = insert_user_Inr(1) [OF i [unfolded Inr]]
    have e: "users_of (ad_fxa_uid auth) db = {}" using n sync_users_Nil by blast
    obtain h' where s: "step_ok db d1" "sync_users (ad_fxa_uid auth) d1 = u # h'"
      using insert_step [OF inv i'] e n by auto
    have same: "apply_update d1 auth u now = (Inr (su_uid u, g, ad_keys_changed_at auth), d1)"
      using g u by (auto simp: apply_update_def next_generation_def next_keys_changed_at_def Let_def split: option.splits)
    have db': "db' = d1" and r: "\<And>facts. r = Inr facts \<Longrightarrow> facts = (su_uid u, g, ad_keys_changed_at auth)"
      using a n g False i' same by (auto simp: allocate_def current_user_def split: sum.splits)
    have "users_of (ad_fxa_uid auth) d1 = {u}" using users_insert [OF i'] e by simp
    then have "answered auth (su_uid u, g, ad_keys_changed_at auth) d1"
      using s(2) u by (simp add: answered_def)
    then show ?thesis using s(1) db' r by blast
  qed
qed

lemma allocate_known:
  assumes "sync_users (ad_fxa_uid auth) db = c # h"
  shows "allocate db auth now =
    (case validate auth c (map su_client_state (filter (\<lambda>old. su_client_state old \<noteq> su_client_state c) h)) of
       Inl e \<Rightarrow> (Inl e, reconcile c h db)
     | Inr _ \<Rightarrow> apply_update (reconcile c h db) auth c now)"
  using assms by (simp add: allocate_def current_user_def split: sum.splits)

lemma rotation_new:
  assumes inv: "ts_inv db" and s: "sync_users (ad_fxa_uid auth) db = c # h"
    and "ad_client_state auth \<notin> set (map su_client_state (filter (\<lambda>old. su_client_state old \<noteq> su_client_state c) h))"
    and "ad_client_state auth \<noteq> su_client_state c"
  shows "ad_client_state auth \<notin> su_client_state ` users_of (ad_fxa_uid auth) (reconcile c h db)"
proof -
  have "set h = users_of (ad_fxa_uid auth) db - {c}"
    using sync_users_ConsD(3) [OF s] inv by (simp add: ts_inv_def)
  then have "ad_client_state auth \<notin> su_client_state ` users_of (ad_fxa_uid auth) db" using assms(3,4) by auto
  moreover have "su_client_state (mark_history c h r) = su_client_state r" for r by (simp add: mark_history_def)
  ultimately show ?thesis by (simp add: users_reconcile image_image)
qed

lemma rotate:
  assumes inv: "ts_inv db" and g: "ad_generation auth = Some g" and s: "sync_users (ad_fxa_uid auth) db = c # h"
    and v: "validate auth c (map su_client_state (filter (\<lambda>old. su_client_state old \<noteq> su_client_state c) h)) = Inr ()"
    and ch: "ad_client_state auth \<noteq> su_client_state c"
    and i: "insert_user auth g (next_keys_changed_at auth c) now (reconcile c h db) = (Inr u, d2)"
  shows "step_ok db d2 \<and> (\<exists>h'. sync_users (ad_fxa_uid auth) d2 = u # h')"
proof -
  note r = reconcile_step [OF inv s] and V = validate_Inr [OF v g] and u = insert_user_Inr(1) [OF i]
  have inv1: "ts_inv (reconcile c h db)" using r(1) by (simp add: step_ok_def)
  have "newer c u" "su_generation c < g" using V(3) [OF ch] V(4) u by (simp_all add: newer_def)
  then have "step_ok (reconcile c h db) d2 \<and> (\<exists>h'. sync_users (ad_fxa_uid auth) d2 = u # h')"
    using insert_step [OF inv1 i rotation_new [OF inv s V(1) ch]] r(2) by auto
  then show ?thesis using step_ok_trans [OF r(1)] by blast
qed

lemma apply_rotation:
  assumes inv: "ts_inv db" and g: "ad_generation auth = Some g" and s: "sync_users (ad_fxa_uid auth) db = c # h"
    and v: "validate auth c (map su_client_state (filter (\<lambda>old. su_client_state old \<noteq> su_client_state c) h)) = Inr ()"
    and ch: "ad_client_state auth \<noteq> su_client_state c"
    and up: "apply_update (reconcile c h db) auth c now = (r, db')"
  shows "step_ok db db' \<and> (\<forall>facts. r = Inr facts \<longrightarrow> answered auth facts db')"
proof -
  let ?f = "ad_fxa_uid auth" and ?k = "next_keys_changed_at auth c"
  have G: "next_generation auth c = g" using g by (simp add: next_generation_def)
  obtain y d2 where i: "insert_user auth g ?k now (reconcile c h db) = (y, d2)" by fastforce
  show ?thesis
  proof (cases y)
    case (Inl e)
    then have "r = Inl e" "db' = reconcile c h db"
      using up ch G i insert_user_Inl [of auth g ?k now "reconcile c h db" e d2] by (auto simp: apply_update_def)
    then show ?thesis using reconcile_step(1) [OF inv s] by simp
  next
    case (Inr u)
    let ?d3 = "snd (replace_other_sync_users ?f (su_uid u) now d2)"
    have out: "r = Inr (su_uid u, g, ?k)" "db' = ?d3"
      using up ch G i Inr by (auto simp: apply_update_def Let_def)
    obtain h2 where d2: "step_ok db d2" "sync_users ?f d2 = u # h2"
      using rotate [OF inv g s v ch i [unfolded Inr]] by blast
    then have inv2: "ts_inv d2" by (simp add: step_ok_def)
    note O = replace_other_step [OF inv2 d2(2), where t = now]
    have "answered auth (su_uid u, g, ?k) ?d3"
      using O(2,3) insert_user_Inr(1) [OF i [unfolded Inr]] by (auto simp: answered_def)
    then show ?thesis using step_ok_trans [OF d2(1) O(1)] out by blast
  qed
qed

lemma apply_refresh:
  assumes inv: "ts_inv db" and g: "ad_generation auth = Some g" and s: "sync_users (ad_fxa_uid auth) db = c # h"
    and V: "su_generation c \<le> g" "keys_le (su_keys_changed_at c) (next_keys_changed_at auth c)"
    and ch: "ad_client_state auth = su_client_state c"
    and up: "apply_update (reconcile c h db) auth c now = (r, db')"
  shows "step_ok db db' \<and> (\<forall>facts. r = Inr facts \<longrightarrow> answered auth facts db')"
proof -
  let ?f = "ad_fxa_uid auth" and ?d1 = "reconcile c h db" and ?k = "next_keys_changed_at auth c"
  let ?d3 = "update_sync_user (su_uid c) g ?k ?d1" and ?c' = "c\<lparr>su_generation := g, su_keys_changed_at := ?k\<rparr>"
  note R = reconcile_step [OF inv s]
  have G: "next_generation auth c = g" using g by (simp add: next_generation_def)
  have live: "su_replaced_at c = None" using inv s by (auto simp: ts_inv_def users_inv_def)
  have inv1: "ts_inv ?d1" using R(1) by (simp add: step_ok_def)
  obtain h1 where s1: "sync_users ?f ?d1 = c # h1" using R(2) by blast
  obtain h3 where u: "step_ok ?d1 ?d3" "sync_users ?f ?d3 = ?c' # h3"
    using update_step [OF inv1 s1 V] by blast
  have "su_replaced_at q \<noteq> None" if q: "q \<in> users_of ?f ?d3" "q \<noteq> ?c'" for q
  proof -
    obtain p where p: "p \<in> users_of ?f ?d1" "q = (if su_uid p = su_uid c then p\<lparr>su_generation := g, su_keys_changed_at := ?k\<rparr> else p)"
      using q(1) unfolding users_update by blast
    then have "p \<noteq> c" using q(2) by auto
    then show ?thesis using R(3) [OF p(1)] p(2) by simp
  qed
  then have a3: "answered auth (su_uid c, g, ?k) ?d3" using u(2) ch live by (auto simp: answered_def)
  have a1: "answered auth (su_uid c, g, ?k) ?d1" if "g = su_generation c" "?k = su_keys_changed_at c"
    using s1 that ch live R(3) by (auto simp: answered_def)
  consider "g = su_generation c \<and> ?k = su_keys_changed_at c" "r = Inr (su_uid c, g, ?k)" "db' = ?d1"
    | "r = Inl TsCrash" "db' = ?d1" | "r = Inr (su_uid c, g, ?k)" "db' = ?d3"
    using up ch G by (auto simp: apply_update_def Let_def split: if_splits)
  then show ?thesis using a1 a3 R(1) step_ok_trans [OF R(1) u(1)] by cases auto
qed

lemma allocate_step:
  assumes inv: "ts_inv db" and g: "ad_generation auth = Some g" and a: "allocate db auth now = (r, db')"
  shows "step_ok db db' \<and> (\<forall>facts. r = Inr facts \<longrightarrow> answered auth facts db')"
proof (cases "sync_users (ad_fxa_uid auth) db")
  case Nil
  then show ?thesis using first_sight [OF inv g _ a] by blast
next
  case (Cons c h)
  let ?v = "validate auth c (map su_client_state (filter (\<lambda>old. su_client_state old \<noteq> su_client_state c) h))"
  note known = allocate_known [OF Cons, of now]
  show ?thesis
  proof (cases ?v)
    case (Inl e)
    then show ?thesis using a known reconcile_step(1) [OF inv Cons] by auto
  next
    case (Inr x)
    then have v: "?v = Inr ()" by simp
    have up: "apply_update (reconcile c h db) auth c now = (r, db')" using a known v by simp
    show ?thesis
      using apply_rotation [OF inv g Cons v _ up]
        apply_refresh [OF inv g Cons validate_Inr(2,4) [OF v g] _ up] by blast
  qed
qed

end
