(* ===== verification/Hawk.thy ===== *)
theory Hawk
  imports Tokenlib
begin

text \<open>
  \<open>syncstorage/hawk.py\<close>: the \<open>Authorization: Hawk\<close> header, the string its MAC is taken over,
  and the check of one request against it. \<open>HawkError\<close> is the code's own exception, answered
  with 401; \<open>HawkCrash\<close> is any other, which nothing catches. A method is ASCII.
\<close>

datatype hawk_exn = HawkError | HawkCrash

definition MAX_SKEW_SECONDS :: int where "MAX_SKEW_SECONDS = 52 * 7 * 24 * 60 * 60"

record hawk_header =
  hk_id :: str
  hk_ts :: int
  hk_nonce :: str
  hk_mac :: str
  hk_hash :: str
  hk_ext :: str

subsection \<open>Parsing\<close>

text \<open>
  \<open>([a-z]+)\s*=\s*"([^"\\]*)"\<close> at one position. What follows the letters is no letter, so
  taking fewer of them never helps, and neither does giving back white space.
\<close>

definition is_attr_key :: "char \<Rightarrow> bool" where
  "is_attr_key c \<longleftrightarrow> 97 \<le> ord c \<and> ord c \<le> 122"

definition is_attr_value :: "char \<Rightarrow> bool" where
  "is_attr_value c \<longleftrightarrow> c \<noteq> CHR 0x22 \<and> c \<noteq> CHR 0x5C"

definition attribute_at :: "str \<Rightarrow> (str \<times> str \<times> str) option" where
  "attribute_at s =
     (let k = takeWhile is_attr_key s; r = dropWhile is_space (dropWhile is_attr_key s)
      in if k = [] then None
         else
           (case r of
              [] \<Rightarrow> None
            | e # r' \<Rightarrow>
                if e \<noteq> CHR ''='' then None
                else
                  (case dropWhile is_space r' of
                     [] \<Rightarrow> None
                   | q # r'' \<Rightarrow>
                       if q \<noteq> CHR 0x22 then None
                       else
                         (case dropWhile is_attr_value r'' of
                            [] \<Rightarrow> None
                          | q' # rest \<Rightarrow>
                              if q' = CHR 0x22 then Some (k, takeWhile is_attr_value r'', rest)
                              else None))))"

lemma dropWhile_shorter: "length (dropWhile P xs) \<le> length xs"
  by (induction xs) auto

lemma attribute_at_shorter:
  assumes "attribute_at s = Some (k, v, rest)" shows "length rest < length s"
proof -
  obtain e r' q r'' q' where a: "dropWhile is_space (dropWhile is_attr_key s) = e # r'"
    "dropWhile is_space r' = q # r''" "dropWhile is_attr_value r'' = q' # rest"
    using assms by (auto simp: attribute_at_def Let_def split: if_splits list.splits)
  show ?thesis
    using dropWhile_shorter [of is_attr_key s] dropWhile_shorter [of is_space "dropWhile is_attr_key s"]
      dropWhile_shorter [of is_space r'] dropWhile_shorter [of is_attr_value r''] a by simp
qed

text \<open>\<open>finditer\<close>: left to right, each search from the end of the last match.\<close>

function find_attributes :: "str \<Rightarrow> (str \<times> str) list" where
  "find_attributes s =
     (case s of
        [] \<Rightarrow> []
      | _ # s' \<Rightarrow>
          (case attribute_at s of
             None \<Rightarrow> find_attributes s'
           | Some (k, v, rest) \<Rightarrow> (k, v) # find_attributes rest))"
  by pat_completeness auto
termination
  by (relation "measure length") (auto dest: attribute_at_shorter)

declare find_attributes.simps [simp del]

text \<open>A dict comprehension keeps the last value of a key.\<close>

definition attribute_of :: "(str \<times> str) list \<Rightarrow> str \<Rightarrow> str option" where
  "attribute_of as k = map_of (rev as) k"

definition attribute_or_empty :: "(str \<times> str) list \<Rightarrow> str \<Rightarrow> str" where
  "attribute_or_empty as k = (case attribute_of as k of None \<Rightarrow> [] | Some v \<Rightarrow> v)"

definition parse_hawk :: "str \<Rightarrow> hawk_exn + hawk_header" where
  "parse_hawk header =
     (let (scheme, _, rest) = partition CHR '' '' header
      in if lower scheme \<noteq> ''hawk'' \<or> strip rest = [] then Inl HawkError
         else
           (let as = find_attributes rest
            in case (attribute_of as ''id'', attribute_of as ''ts'', attribute_of as ''nonce'',
                     attribute_of as ''mac'') of
                 (Some i, Some t, Some n, Some m) \<Rightarrow>
                   (case py_int t of
                      None \<Rightarrow> Inl HawkError
                    | Some ts \<Rightarrow>
                        Inr \<lparr>hk_id = i, hk_ts = ts, hk_nonce = n, hk_mac = m,
                          hk_hash = attribute_or_empty as ''hash'', hk_ext = attribute_or_empty as ''ext''\<rparr>)
               | _ \<Rightarrow> Inl HawkError))"

subsection \<open>The MAC\<close>

record signed_request =
  sr_method :: str
  sr_resource :: str
  sr_host :: str
  sr_port :: int

definition normalized_lines :: "hawk_header \<Rightarrow> signed_request \<Rightarrow> str list" where
  "normalized_lines h r =
     [''hawk.1.header'', show_int (hk_ts h), hk_nonce h, upper_ascii (sr_method r), sr_resource r,
      lower (sr_host r), show_int (sr_port r), hk_hash h, hk_ext h]"

definition normalized :: "hawk_header \<Rightarrow> signed_request \<Rightarrow> bytes" where
  "normalized h r = encode_utf8 (join [newline] (normalized_lines h r) @ [newline])"

definition hawk_mac :: "str \<Rightarrow> hawk_header \<Rightarrow> signed_request \<Rightarrow> str option" where
  "hawk_mac key h r = map_option (\<lambda>k. b64encode (hmac_sha256 k (normalized h r))) (encode_ascii key)"

definition payload_hash :: "bytes \<Rightarrow> str \<Rightarrow> str" where
  "payload_hash body content_type =
     (let media_type = lower (strip (fst (partition CHR '';'' content_type)))
      in b64encode (sha256 (encode_utf8 (''hawk.1.payload'' @ [newline] @ media_type @ [newline]) @
           body @ [10])))"

text \<open>\<open>hmac.compare_digest\<close> of two strings: a \<open>TypeError\<close> unless both are ASCII.\<close>

definition compare_digest :: "str \<Rightarrow> str \<Rightarrow> hawk_exn + bool" where
  "compare_digest a b = (if isascii a \<and> isascii b then Inr (a = b) else Inl HawkCrash)"

definition verify_hawk ::
  "hawk_header \<Rightarrow> str \<Rightarrow> signed_request \<Rightarrow> int \<Rightarrow> bytes option \<Rightarrow> str \<Rightarrow> int \<Rightarrow> hawk_exn + unit" where
  "verify_hawk h key r now body content_type max_skew =
     bindr (guardr (\<bar>now - hk_ts h\<bar> \<le> max_skew) HawkError) (\<lambda>_.
     bindr (of_option HawkCrash (hawk_mac key h r)) (\<lambda>expected.
     bindr (compare_digest expected (hk_mac h)) (\<lambda>same.
     bindr (guardr same HawkError) (\<lambda>_.
       if hk_hash h = [] then Inr ()
       else
         (case body of
            None \<Rightarrow> Inl HawkError
          | Some b \<Rightarrow>
              bindr (compare_digest (payload_hash b content_type) (hk_hash h)) (\<lambda>ok. guardr ok HawkError))))))"

subsection \<open>The header a client writes\<close>

definition attribute_text :: "str \<times> str \<Rightarrow> str" where
  "attribute_text kv = fst kv @ [CHR ''='', CHR 0x22] @ snd kv @ [CHR 0x22]"

definition header_text :: "(str \<times> str) list \<Rightarrow> str" where
  "header_text kvs = ''Hawk '' @ join '', '' (map attribute_text kvs)"

definition attribute_ok :: "str \<times> str \<Rightarrow> bool" where
  "attribute_ok kv \<longleftrightarrow> fst kv \<noteq> [] \<and> list_all is_attr_key (fst kv) \<and> list_all is_attr_value (snd kv)"

lemma attr_chars [simp]:
  "\<not> is_attr_key (CHR ''='')" "\<not> is_attr_key (CHR '','')" "\<not> is_attr_key (CHR '' '')"
  "\<not> is_attr_value (CHR 0x22)" "\<not> is_space (CHR ''='')" "\<not> is_space (CHR 0x22)"
  by code_simp+

lemma takeWhile_stop: "list_all P xs \<Longrightarrow> \<not> P y \<Longrightarrow> takeWhile P (xs @ y # ys) = xs"
  by (induction xs) auto

lemma dropWhile_stop: "list_all P xs \<Longrightarrow> \<not> P y \<Longrightarrow> dropWhile P (xs @ y # ys) = y # ys"
  by (induction xs) auto

lemma attribute_at_text:
  assumes "attribute_ok kv"
  shows "attribute_at (attribute_text kv @ rest) = Some (fst kv, snd kv, rest)"
  using assms by (simp add: attribute_ok_def attribute_text_def attribute_at_def takeWhile_stop dropWhile_stop)

lemma find_attributes_text:
  assumes "attribute_ok kv"
  shows "find_attributes (attribute_text kv @ rest) = kv # find_attributes rest"
proof -
  obtain c s where "attribute_text kv @ rest = c # s" by (cases "attribute_text kv @ rest") (auto simp: attribute_text_def)
  then show ?thesis using attribute_at_text [OF assms, of rest] by (simp add: find_attributes.simps)
qed

lemma find_attributes_skip: "\<not> is_attr_key c \<Longrightarrow> find_attributes (c # s) = find_attributes s"
  by (simp add: find_attributes.simps attribute_at_def)

lemma find_attributes_Nil [simp]: "find_attributes [] = []"
  by (simp add: find_attributes.simps)

lemma find_attributes_join:
  "\<forall>kv \<in> set kvs. attribute_ok kv \<Longrightarrow> find_attributes (join '', '' (map attribute_text kvs)) = kvs"
proof (induction kvs)
  case (Cons kv kvs)
  show ?case
  proof (cases kvs)
    case Nil
    then show ?thesis using Cons.prems find_attributes_text [of kv "[]"] by simp
  next
    case (Cons kv' kvs')
    have "join '', '' (map attribute_text (kv # kvs)) =
        attribute_text kv @ CHR '','' # CHR '' '' # join '', '' (map attribute_text kvs)"
      by (simp add: Cons)
    then show ?thesis using Cons.IH Cons.prems by (simp add: find_attributes_text find_attributes_skip)
  qed
qed simp

text \<open>The attributes of a header, the optional ones only when they say something.\<close>

definition hawk_attributes :: "hawk_header \<Rightarrow> (str \<times> str) list" where
  "hawk_attributes h =
     [(''id'', hk_id h), (''ts'', show_int (hk_ts h)), (''nonce'', hk_nonce h)] @
     (if hk_hash h = [] then [] else [(''hash'', hk_hash h)]) @
     (if hk_ext h = [] then [] else [(''ext'', hk_ext h)]) @ [(''mac'', hk_mac h)]"

definition hawk_text :: "hawk_header \<Rightarrow> str" where
  "hawk_text h = header_text (hawk_attributes h)"

definition header_ok :: "hawk_header \<Rightarrow> bool" where
  "header_ok h \<longleftrightarrow> 0 \<le> hk_ts h \<and> hk_ts h < 2 ^ 63 \<and>
     (\<forall>v \<in> {hk_id h, hk_nonce h, hk_mac h, hk_hash h, hk_ext h}. list_all is_attr_value v)"

lemma digits_attr: "list_all is_attr_value (show_int n)"
proof -
  have "is_attr_value c" if "is_digit c" for c
    using that by (auto simp: is_attr_value_def is_digit_def ord_def)
  moreover have "is_attr_value CHR ''-''" by code_simp
  ultimately show ?thesis using show_nat_digits by (auto simp: show_int_def list_all_iff)
qed

lemma hawk_attributes_ok: "header_ok h \<Longrightarrow> \<forall>kv \<in> set (hawk_attributes h). attribute_ok kv"
proof -
  assume h: "header_ok h"
  have "list_all (list_all is_attr_key) [''id'', ''ts'', ''nonce'', ''hash'', ''ext'', ''mac'']"
    by code_simp
  then show ?thesis
    using h digits_attr by (auto simp: hawk_attributes_def attribute_ok_def header_ok_def)
qed

lemma strip_Nil: "strip s = [] \<longleftrightarrow> (\<forall>c \<in> set s. is_space c)"
proof -
  have "set s = set (takeWhile is_space s) \<union> set (dropWhile is_space s)"
    unfolding set_append [symmetric] takeWhile_dropWhile_id ..
  moreover have "strip s = [] \<longleftrightarrow> (\<forall>c \<in> set (dropWhile is_space s). is_space c)"
    by (simp add: strip_def rstrip_by_def lstrip_by_def dropWhile_eq_Nil_conv)
  ultimately show ?thesis using set_takeWhileD [of _ is_space s] by blast
qed

lemma parse_hawk_text:
  assumes "header_ok h" shows "parse_hawk (hawk_text h) = Inr h"
proof -
  let ?rest = "join '', '' (map attribute_text (hawk_attributes h))"
  have part: "partition CHR '' '' (hawk_text h) = (''Hawk'', True, ?rest)"
    by (simp add: hawk_text_def header_text_def partition_def)
  have low: "lower ''Hawk'' = ''hawk''" by code_simp
  have as: "find_attributes ?rest = hawk_attributes h"
    by (rule find_attributes_join) (rule hawk_attributes_ok [OF assms])
  have "CHR ''i'' \<in> set ?rest" by (simp add: hawk_attributes_def attribute_text_def)
  moreover have "\<not> is_space CHR ''i''" by code_simp
  ultimately have "strip ?rest \<noteq> []" using strip_Nil by blast
  moreover have "py_int (show_int (hk_ts h)) = Some (hk_ts h)"
    by (rule py_int_show_int) (use assms in \<open>simp_all add: header_ok_def\<close>)
  ultimately show ?thesis
    unfolding parse_hawk_def part prod.case Let_def low as
    by (simp add: hawk_attributes_def attribute_of_def attribute_or_empty_def)
qed

subsection \<open>What the MAC binds\<close>

lemma ord_inj: "ord c = ord d \<Longrightarrow> c = d"
  by (simp add: ord_def)

lemma utf8_char_prefix:
  assumes "utf8_char c @ s = utf8_char d @ t" shows "c = d \<and> s = t"
proof -
  have "ord c = ord d \<and> s = t"
  proof (cases "ord c < 128"; cases "ord d < 128")
    assume "\<not> ord c < 128" "\<not> ord d < 128"
    then have "ord c div 64 = ord d div 64" "ord c mod 64 = ord d mod 64" "s = t"
      using assms by (simp_all add: utf8_char_def)
    then show ?thesis by (metis div_mult_mod_eq)
  qed (use assms in \<open>auto simp: utf8_char_def\<close>)
  then show ?thesis using ord_inj by blast
qed

lemma utf8_char_not_Nil [simp]: "utf8_char c \<noteq> []"
  by (simp add: utf8_char_def)

lemma encode_utf8_inj: "encode_utf8 s = encode_utf8 t \<Longrightarrow> s = t"
proof (induction s arbitrary: t)
  case Nil
  then show ?case by (cases t) (simp_all add: encode_utf8_def)
next
  case (Cons c s)
  then obtain d t' where t: "t = d # t'" by (cases t) (simp_all add: encode_utf8_def)
  then have "utf8_char c @ encode_utf8 s = utf8_char d @ encode_utf8 t'"
    using Cons.prems by (simp add: encode_utf8_def)
  then have "c = d" "encode_utf8 s = encode_utf8 t'" using utf8_char_prefix by blast+
  then show ?case using Cons.IH t by simp
qed

text \<open>A header and a request line are lines: no part of them has a line break.\<close>

definition one_line :: "hawk_header \<Rightarrow> signed_request \<Rightarrow> bool" where
  "one_line h r \<longleftrightarrow>
     (\<forall>s \<in> {hk_nonce h, hk_hash h, hk_ext h, sr_method r, sr_resource r, sr_host r}. newline \<notin> set s)"

lemma lower_newline: "newline \<in> set (lower s) \<longleftrightarrow> newline \<in> set s"
proof -
  have "lower_char c = newline \<longleftrightarrow> c = newline" for c
  proof (cases "c = newline")
    case True
    have "lower_char newline = newline" by code_simp
    then show ?thesis using True by simp
  next
    case False
    have "ord (char_of (ord c + 32) :: char) = (ord c + 32) mod 256" by (simp add: ord_def)
    moreover have "ord newline = 10" by code_simp
    ultimately show ?thesis using False by (auto simp: lower_char_def dest: arg_cong [of _ _ ord])
  qed
  then show ?thesis unfolding lower_def set_map image_iff by metis
qed

lemma upper_newline: "newline \<in> set (upper_ascii s) \<longleftrightarrow> newline \<in> set s"
proof -
  have "upper_ascii_char c = newline \<longleftrightarrow> c = newline" for c
  proof (cases "c = newline")
    case True
    have "upper_ascii_char newline = newline" by code_simp
    then show ?thesis using True by simp
  next
    case False
    have "ord (char_of (ord c - 32) :: char) = (ord c - 32) mod 256" by (simp add: ord_def)
    moreover have "ord newline = 10" by code_simp
    ultimately show ?thesis using False by (auto simp: upper_ascii_char_def dest: arg_cong [of _ _ ord])
  qed
  then show ?thesis unfolding upper_ascii_def set_map image_iff by metis
qed

lemma normalized_no_newline:
  "one_line h r \<Longrightarrow> \<forall>w \<in> set (normalized_lines h r). newline \<notin> set w"
proof -
  assume "one_line h r"
  moreover have "newline \<notin> set ''hawk.1.header''" by code_simp
  ultimately show ?thesis
    using show_int_no_newline by (simp add: normalized_lines_def one_line_def lower_newline upper_newline)
qed

text \<open>
  C16: The MAC binds the whole request. Two headers and requests whose normalized strings are
  the same bytes carry the same time stamp, nonce, payload hash and ext, and name the same
  method, resource with its query, host and port: no field can be moved into its neighbour.
\<close>

theorem normalized_binds:
  assumes eq: "normalized h r = normalized h' r'" and l: "one_line h r" "one_line h' r'"
  shows "hk_ts h = hk_ts h' \<and> hk_nonce h = hk_nonce h' \<and> hk_hash h = hk_hash h' \<and> hk_ext h = hk_ext h' \<and>
    upper_ascii (sr_method r) = upper_ascii (sr_method r') \<and> sr_resource r = sr_resource r' \<and>
    lower (sr_host r) = lower (sr_host r') \<and> sr_port r = sr_port r'"
proof -
  have "join [newline] (normalized_lines h r) = join [newline] (normalized_lines h' r')"
    using encode_utf8_inj [OF eq [unfolded normalized_def]] by simp
  moreover have "split newline (join [newline] (normalized_lines k q)) = normalized_lines k q"
    if "one_line k q" for k q
    by (rule split_join [OF normalized_no_newline [OF that]]) (simp add: normalized_lines_def)
  ultimately have "normalized_lines h r = normalized_lines h' r'" using l by metis
  then show ?thesis using show_int_inj by (simp add: normalized_lines_def)
qed

definition sample_hawk :: hawk_header where
  "sample_hawk = \<lparr>hk_id = ''t'', hk_ts = 7, hk_nonce = ''n'', hk_mac = ''m'', hk_hash = [], hk_ext = []\<rparr>"

definition sample_request :: signed_request where
  "sample_request = \<lparr>sr_method = ''get'', sr_resource = ''/1.5/3/info/collections?v=2'',
     sr_host = ''Sync.example.com'', sr_port = 443\<rparr>"

theorem normalized_binds_witness:
  "\<exists>h r. normalized h r = normalized sample_hawk sample_request \<and>
     r \<noteq> sample_request \<and> sr_resource r = sr_resource sample_request \<and> hk_ts h = 7"
proof -
  let ?r = "sample_request\<lparr>sr_method := ''GET''\<rparr>"
  have eq: "normalized sample_hawk ?r = normalized sample_hawk sample_request" by code_simp
  have "list_all (\<lambda>s. newline \<notin> set s) [''n'', [], ''get'', ''GET'', ''/1.5/3/info/collections?v=2'', ''Sync.example.com'']"
    by code_simp
  then have "one_line sample_hawk ?r" "one_line sample_hawk sample_request"
    by (simp_all add: one_line_def sample_hawk_def sample_request_def)
  from normalized_binds [OF eq this] show ?thesis
    using eq by (intro exI [of _ sample_hawk] exI [of _ ?r]) (simp add: sample_hawk_def sample_request_def)
qed

end
