(* ===== verification/SyncAuth.thy ===== *)
theory SyncAuth
  imports Hawk SyncErrors
begin

text \<open>
  \<open>syncstorage/credentials.py\<close>: from a Hawk header to a Sync uid. The token is decoded and its
  own HMAC checked, the key it was issued with is derived again, and the signature of the very
  request is checked under that key. Nothing is looked up.
\<close>

record origin =
  og_host :: str
  og_port :: int

record sync_credentials =
  sc_uid :: int
  sc_fxa_uid :: str
  sc_fxa_kid :: str
  sc_hashed_fxa_uid :: str
  sc_hashed_device_id :: str
  sc_node :: str
  sc_expires :: int
  sc_salt :: str

subsection \<open>The claims of a token\<close>

text \<open>\<open>str(value)\<close>\<close>

definition py_str :: "json_lib \<Rightarrow> json \<Rightarrow> str" where
  "py_str jl v =
     (case v of
        JNull \<Rightarrow> ''None''
      | JBool b \<Rightarrow> (if b then ''True'' else ''False'')
      | JInt n \<Rightarrow> show_int n
      | JFloat x \<Rightarrow> float_repr jl x
      | JStr s \<Rightarrow> s
      | _ \<Rightarrow> container_repr jl v)"

definition str_claim :: "json_lib \<Rightarrow> (str \<times> json) list \<Rightarrow> str \<Rightarrow> str" where
  "str_claim jl claims name = py_str jl (get_or claims name (JStr []))"

text \<open>
  \<open>round(float(value))\<close>. A \<open>TypeError\<close> or a \<open>ValueError\<close> is caught; an \<open>OverflowError\<close>, of an
  integer no \<open>float\<close> reaches or of rounding an infinity, is not.
\<close>

fun round_float :: "pyfloat \<Rightarrow> hawk_exn + int" where
  "round_float (PFin r) = Inr (round_half_even r)"
| "round_float PNaN = Inl HawkError"
| "round_float _ = Inl HawkCrash"

fun expires_claim :: "json \<Rightarrow> hawk_exn + int" where
  "expires_claim (JBool b) = Inr (if b then 1 else 0)"
| "expires_claim (JInt n) = round_float (to_float (of_int n))"
| "expires_claim (JFloat x) = round_float x"
| "expires_claim (JStr s) = bindr (of_option HawkError (py_float s)) round_float"
| "expires_claim _ = Inl HawkError"

definition credentials_of_claims :: "json_lib \<Rightarrow> (str \<times> json) list \<Rightarrow> hawk_exn + sync_credentials" where
  "credentials_of_claims jl claims =
     bindr (of_option HawkError (map_of claims ''uid'')) (\<lambda>uid.
     bindr (of_option HawkError (map_of claims ''salt'')) (\<lambda>salt.
     bindr (of_option HawkError (map_of claims ''expires'')) (\<lambda>raw.
     bindr (expires_claim raw) (\<lambda>expires.
       (case (uid, salt) of
          (JInt u, JStr s) \<Rightarrow>
            Inr \<lparr>sc_uid = u, sc_fxa_uid = str_claim jl claims ''fxa_uid'',
              sc_fxa_kid = str_claim jl claims ''fxa_kid'',
              sc_hashed_fxa_uid = str_claim jl claims ''hashed_fxa_uid'',
              sc_hashed_device_id = str_claim jl claims ''hashed_device_id'',
              sc_node = str_claim jl claims ''node'', sc_expires = expires, sc_salt = s\<rparr>
        | _ \<Rightarrow> Inl HawkError)))))"

definition parse_token :: "json_lib \<Rightarrow> str \<Rightarrow> str \<Rightarrow> hawk_exn + sync_credentials" where
  "parse_token jl token secret =
     bindr (of_option HawkError (urlsafe_b64decode (repad token))) (\<lambda>raw.
     bindr (guardr (TOKEN_MAC_LENGTH < length raw) HawkError) (\<lambda>_.
     let payload = take (length raw - TOKEN_MAC_LENGTH) raw;
         signature = drop (length raw - TOKEN_MAC_LENGTH) raw
     in bindr (of_option HawkCrash (signing_key secret)) (\<lambda>k.
        bindr (guardr (hmac_sha256 k payload = signature) HawkError) (\<lambda>_.
        bindr (of_option HawkError (json_loads jl payload)) (\<lambda>v.
          (case v of JObj claims \<Rightarrow> credentials_of_claims jl claims | _ \<Rightarrow> Inl HawkError))))))"

subsection \<open>Authenticating a request\<close>

text \<open>\<open>/1.5/{uid}/info/collections\<close>, matched on four segments once leading slashes are gone.\<close>

definition exempt_from_expiry :: "str \<Rightarrow> bool" where
  "exempt_from_expiry path \<longleftrightarrow>
     (case split CHR ''/'' (lstrip_by (\<lambda>c. c = CHR ''/'') path) of
        [v, uid, a, b] \<Rightarrow> v = ''1.5'' \<and> uid \<noteq> [] \<and> a = ''info'' \<and> b = ''collections''
      | _ \<Rightarrow> False)"

record sync_attempt =
  at_method :: str
  at_resource :: str
  at_path :: str
  at_now :: int
  at_body :: "bytes option"
  at_content_type :: str

definition request_of :: "origin \<Rightarrow> sync_attempt \<Rightarrow> signed_request" where
  "request_of og a =
     \<lparr>sr_method = at_method a, sr_resource = at_resource a, sr_host = og_host og, sr_port = og_port og\<rparr>"

definition check_hawk ::
  "json_lib \<Rightarrow> str \<Rightarrow> origin \<Rightarrow> sync_attempt \<Rightarrow> str \<Rightarrow> hawk_exn + sync_credentials" where
  "check_hawk jl secret og a header =
     bindr (parse_hawk header) (\<lambda>h.
     bindr (parse_token jl (hk_id h) secret) (\<lambda>c.
     bindr (guardr (exempt_from_expiry (at_path a) \<or> at_now a < sc_expires c) HawkError) (\<lambda>_.
     bindr (of_option HawkCrash (derive_secret (hk_id h) (sc_salt c) secret)) (\<lambda>key.
     bindr (verify_hawk h key (request_of og a) (at_now a) (at_body a) (at_content_type a)
         MAX_SKEW_SECONDS) (\<lambda>_. Inr c)))))"

definition authenticate ::
  "json_lib \<Rightarrow> str \<Rightarrow> origin \<Rightarrow> sync_attempt \<Rightarrow> str option \<Rightarrow> sync_exn + sync_credentials" where
  "authenticate jl secret og a header =
     (if header \<in> {None, Some []} then Inl (Http sync_unauthorized)
      else
        (case check_hawk jl secret og a (the header) of
           Inr c \<Rightarrow> Inr c
         | Inl HawkError \<Rightarrow> Inl (Http sync_unauthorized)
         | Inl HawkCrash \<Rightarrow> Inl Crash))"

subsection \<open>Alphabets\<close>

lemma b64enc_chars:
  "bytes_ok bs \<Longrightarrow> length al = 64 \<Longrightarrow> set (b64enc al bs) \<subseteq> insert (CHR ''='') (set al)"
proof (induction al bs rule: b64enc.induct)
  case (4 al a b c rest)
  then have d: "a div 4 < 64" "a mod 4 * 16 + b div 16 < 64" "b mod 16 * 4 + c div 64 < 64" "c mod 64 < 64"
    using sextets [of a b c] by (simp_all add: bytes_ok_def)
  have "bytes_ok rest" using "4.prems" by (simp add: bytes_ok_def)
  then show ?case using "4.IH" "4.prems"(2) d by (simp add: nth_mem)
next
  case (2 al a)
  then show ?case using sextets [of a 0 0] by (simp add: bytes_ok_def nth_mem)
next
  case (3 al a b)
  then show ?case using sextets [of a b 0] by (simp add: bytes_ok_def nth_mem)
qed simp

lemma b64encode_chars:
  assumes "bytes_ok bs"
  shows "isascii (b64encode bs)" "list_all is_attr_value (b64encode bs)"
    "list_all is_attr_value (urlsafe_b64encode bs)"
proof -
  have c: "list_all (\<lambda>c. is_ascii c \<and> is_attr_value c) (CHR ''='' # std_alphabet)"
    "list_all is_attr_value (CHR ''='' # url_alphabet)" by code_simp+
  have l: "length std_alphabet = 64" "length url_alphabet = 64" by code_simp+
  show "isascii (b64encode bs)" "list_all is_attr_value (b64encode bs)"
    using b64enc_chars [OF assms l(1)] c(1) unfolding b64encode_def isascii_def list_all_iff by auto
  show "list_all is_attr_value (urlsafe_b64encode bs)"
    using b64enc_chars [OF assms l(2)] c(2) unfolding urlsafe_b64encode_def list_all_iff by auto
qed

subsection \<open>A token that was minted\<close>

lemma round_half_even_int [simp]: "round_half_even (of_int n) = n"
  by (rule round_half_even_nearest) simp

lemma binary64_int:
  assumes "1 \<le> n" "n < 2 ^ 53" shows "binary64 (of_int n) = of_int n"
proof (rule binary64_eqI [where u = "2 powi (exp2_of (of_int n) - 52)"
      and k = "n * 2 ^ nat (52 - exp2_of (of_int n))"])
  let ?b = "exp2_of (of_int n)"
  have n: "0 < (of_int n :: rat)" using assms by simp
  have "(2::rat) powi ?b < 2 powi 53"
    using exp2_of_bounds(1) [OF n] assms(2)
    by (metis le_less_trans numeral_power_less_of_int_cancel_iff of_int_less_iff of_int_numeral of_int_power
        power_int_numeral)
  then have "?b \<le> 52" using pow2_mono [of 53 ?b] by (cases "?b \<le> 52") auto
  then have "(2::rat) ^ nat (52 - ?b) = 2 powi (52 - ?b)" by (simp add: power_int_def)
  then show "of_int (n * 2 ^ nat (52 - ?b)) * 2 powi (?b - 52) = (of_int n :: rat)"
    by (simp add: power_int_add [symmetric])
  show "0 < (of_int n :: rat)" by (rule n)
qed (simp_all add: ulp_def)

lemma expires_int:
  assumes "1 \<le> n" "n < 2 ^ 53" shows "expires_claim (JInt n) = Inr n"
proof -
  have "(of_int n :: rat) < 2 powi 53"
    using assms(2) by (metis of_int_less_iff of_int_numeral of_int_power power_int_numeral)
  also have "\<dots> \<le> 2 powi 1024" by (rule pow2_mono) simp
  finally have "to_float (of_int n) = PFin (of_int n)"
    using to_float_mid [of "of_int n"] binary64_int [OF assms] assms(1) by simp
  then show ?thesis by simp
qed

text \<open>The library reads the payload of one token back as the claims it was printed from.\<close>

definition reads_payload :: "json_lib \<Rightarrow> (str \<times> json) list \<Rightarrow> bytes \<Rightarrow> bool" where
  "reads_payload jl claims salt_bytes \<longleftrightarrow>
     json_loads jl (token_payload jl claims (hex_of salt_bytes)) =
       Some (JObj (dict_set ''salt'' (JStr (hex_of salt_bytes)) claims))"

lemma repad_encoded: "bytes_ok bs \<Longrightarrow> repad (urlsafe_b64encode bs) = urlsafe_b64encode bs"
proof -
  have "length (b64enc al bs) mod 4 = 0" for al by (induction al bs rule: b64enc.induct) simp_all
  then show ?thesis by (simp add: repad_def urlsafe_b64encode_def)
qed

lemma parse_token_made:
  assumes m: "make_token jl claims salt secret = Some (token, key)"
    and l: "reads_payload jl claims salt"
  shows "parse_token jl token secret =
    credentials_of_claims jl (dict_set ''salt'' (JStr (hex_of salt)) claims)"
proof (rule make_token_Some [of jl claims salt secret])
  fix t' key' k
  let ?p = "token_payload jl claims (hex_of salt)"
  assume a: "make_token jl claims salt secret = Some (t', key')" "signing_key secret = Some k"
    "t' = urlsafe_b64encode (?p @ hmac_sha256 k ?p)"
  have b: "bytes_ok (?p @ hmac_sha256 k ?p)" by (simp add: token_payload_def utf8_bytes)
  have "?p \<noteq> []" by (simp add: token_payload_def encode_utf8_def)
  then have "TOKEN_MAC_LENGTH < length (?p @ hmac_sha256 k ?p)" by (simp add: TOKEN_MAC_LENGTH_def)
  then have len: "TOKEN_MAC_LENGTH < length (?p @ hmac_sha256 k ?p)" .
  have "token = t'" using m a(1) by simp
  then have d: "urlsafe_b64decode (repad token) = Some (?p @ hmac_sha256 k ?p)"
    by (simp only: a(3) repad_encoded [OF b] urlsafe_decode_encode [OF b])
  have t: "take (length (?p @ hmac_sha256 k ?p) - TOKEN_MAC_LENGTH) (?p @ hmac_sha256 k ?p) = ?p"
    "drop (length (?p @ hmac_sha256 k ?p) - TOKEN_MAC_LENGTH) (?p @ hmac_sha256 k ?p) = hmac_sha256 k ?p"
    by (simp_all add: TOKEN_MAC_LENGTH_def)
  have j: "json_loads jl ?p = Some (JObj (dict_set ''salt'' (JStr (hex_of salt)) claims))"
    using l by (simp add: reads_payload_def)
  show ?thesis
    unfolding parse_token_def d of_option_simps bindr_Inr Let_def t a(2)
    using len by (simp add: j)
qed

lemma parse_token_minted:
  assumes "make_token jl claims salt secret = Some (token, key)" "reads_payload jl claims salt"
    and "map_of claims ''uid'' = Some (JInt u)" "map_of claims ''expires'' = Some (JInt e)"
    and "1 \<le> e" "e < 2 ^ 53"
  obtains c where "parse_token jl token secret = Inr c" "sc_uid c = u" "sc_expires c = e"
    "sc_salt c = hex_of salt"
  using that assms by (simp add: parse_token_made credentials_of_claims_def map_of_dict_set expires_int
      del: expires_claim.simps)

text \<open>What a client sends: the token as \<open>id\<close>, and the MAC of its request under the key.\<close>

definition client_header ::
  "str \<Rightarrow> str \<Rightarrow> signed_request \<Rightarrow> int \<Rightarrow> str \<Rightarrow> str \<Rightarrow> str \<Rightarrow> str option" where
  "client_header token key r ts nonce hash ext =
     (let h = \<lparr>hk_id = token, hk_ts = ts, hk_nonce = nonce, hk_mac = [], hk_hash = hash, hk_ext = ext\<rparr>
      in map_option (\<lambda>m. hawk_text (h\<lparr>hk_mac := m\<rparr>)) (hawk_mac key h r))"

lemma hawk_mac_own [simp]: "hawk_mac key (h\<lparr>hk_mac := m\<rparr>) r = hawk_mac key h r"
  by (simp add: hawk_mac_def normalized_def normalized_lines_def)

lemma verify_own_mac:
  assumes "hawk_mac key h r = Some m" "\<bar>now - hk_ts h\<bar> \<le> skew"
    and "hk_hash h = [] \<or> (\<exists>b. body = Some b \<and> hk_hash h = payload_hash b ct)"
  shows "verify_hawk (h\<lparr>hk_mac := m\<rparr>) key r now body ct skew = Inr ()"
proof -
  have "isascii m" using assms(1) by (auto simp: hawk_mac_def b64encode_chars)
  moreover have "isascii (payload_hash b ct)" for b by (simp add: payload_hash_def Let_def b64encode_chars)
  ultimately show ?thesis using assms by (auto simp: verify_hawk_def compare_digest_def)
qed

text \<open>What surrounds one signed request: a fresh enough stamp, and values a header can hold.\<close>

definition signable :: "sync_attempt \<Rightarrow> int \<Rightarrow> str \<Rightarrow> str \<Rightarrow> str \<Rightarrow> bool" where
  "signable a ts nonce hash ext \<longleftrightarrow>
     0 \<le> ts \<and> ts < 2 ^ 63 \<and> \<bar>at_now a - ts\<bar> \<le> MAX_SKEW_SECONDS \<and>
     list_all is_attr_value nonce \<and> list_all is_attr_value ext \<and>
     (hash = [] \<or>
       (case at_body a of None \<Rightarrow> False | Some b \<Rightarrow> hash = payload_hash b (at_content_type a)))"

text \<open>
  Once the token parses and the key is the one it was issued with, a request signed under that
  key is decided by the clock and the path alone.
\<close>

lemma signed_request_decides:
  assumes p: "parse_token jl token secret = Inr creds"
    and key: "derive_secret token (sc_salt creds) secret = Some key"
    and tok: "list_all is_attr_value token"
    and r: "client_header token key (request_of og a) ts nonce hash ext = Some header"
      "signable a ts nonce hash ext"
  shows "authenticate jl secret og a (Some header) =
    (if at_now a < sc_expires creds \<or> exempt_from_expiry (at_path a) then Inr creds
     else Inl (Http sync_unauthorized))"
proof -
  define h where "h = \<lparr>hk_id = token, hk_ts = ts, hk_nonce = nonce, hk_mac = [], hk_hash = hash, hk_ext = ext\<rparr>"
  obtain mac where mac: "hawk_mac key h (request_of og a) = Some mac"
    and header: "header = hawk_text (h\<lparr>hk_mac := mac\<rparr>)"
    using r(1) by (auto simp: client_header_def Let_def h_def)
  have "list_all is_attr_value mac" using mac by (auto simp: hawk_mac_def b64encode_chars)
  moreover have "list_all is_attr_value hash"
    using r(2) by (auto simp: signable_def payload_hash_def Let_def b64encode_chars split: option.splits)
  ultimately have "header_ok (h\<lparr>hk_mac := mac\<rparr>)" using r(2) tok by (simp add: header_ok_def h_def signable_def)
  then have ph: "parse_hawk header = Inr (h\<lparr>hk_mac := mac\<rparr>)" unfolding header by (rule parse_hawk_text)
  have v: "verify_hawk (h\<lparr>hk_mac := mac\<rparr>) key (request_of og a) (at_now a) (at_body a)
      (at_content_type a) MAX_SKEW_SECONDS = Inr ()"
    by (rule verify_own_mac [OF mac]) (use r(2) in \<open>auto simp: signable_def h_def split: option.splits\<close>)
  have id: "hk_id (h\<lparr>hk_mac := mac\<rparr>) = token" by (simp add: h_def)
  have "header \<noteq> []" by (simp add: header hawk_text_def header_text_def)
  then show ?thesis
    by (auto simp: authenticate_def check_hawk_def ph p key v id split: if_splits)
qed

lemma made_token_parts:
  assumes "make_token jl claims salt secret = Some (token, key)"
  shows "derive_secret token (hex_of salt) secret = Some key" "list_all is_attr_value token" "isascii token"
    "isascii key"
proof -
  obtain t' key' k where p: "make_token jl claims salt secret = Some (t', key')"
    "derive_secret t' (hex_of salt) secret = Some key'" "isascii key'" "isascii t'"
    and t: "t' = urlsafe_b64encode (token_payload jl claims (hex_of salt) @
       hmac_sha256 k (token_payload jl claims (hex_of salt)))"
    by (rule make_token_Some [of jl claims salt secret]) blast
  have "list_all is_attr_value t'" unfolding t by (rule b64encode_chars(3)) (simp add: token_payload_def utf8_bytes)
  then show "derive_secret token (hex_of salt) secret = Some key" "list_all is_attr_value token" "isascii token"
    "isascii key" using assms p by simp_all
qed

definition sample_token_claims :: "(str \<times> json) list" where
  "sample_token_claims = [(''expires'', JInt 100), (''uid'', JInt 7)]"

definition token_lib :: "(str \<times> json) list \<Rightarrow> bytes \<Rightarrow> json_lib" where
  "token_lib claims salt =
     \<lparr>json_loads = \<lambda>_. Some (JObj (dict_set ''salt'' (JStr (hex_of salt)) claims)), float_repr = \<lambda>_. [],
      container_repr = \<lambda>_. []\<rparr>"

definition sample_attempt :: "int \<Rightarrow> str \<Rightarrow> sync_attempt" where
  "sample_attempt now path = \<lparr>at_method = ''GET'', at_resource = path, at_path = path, at_now = now,
     at_body = None, at_content_type = []\<rparr>"

definition sample_origin :: origin where
  "sample_origin = \<lparr>og_host = ''sync.example.com'', og_port = 443\<rparr>"

text \<open>
  A MAC that is not ASCII is not refused but crashes: with an otherwise acceptable token,
  \<open>hmac.compare_digest\<close> raises a \<open>TypeError\<close> that \<open>authenticate\<close> does not catch.
\<close>

theorem nonascii_mac_crashes:
  assumes "parse_hawk header = Inr h" "\<not> isascii (hk_mac h)" "header \<noteq> []"
    and "parse_token jl (hk_id h) secret = Inr c" "isascii (hk_id h)" "isascii (sc_salt c)"
    and "at_now a < sc_expires c" "\<bar>at_now a - hk_ts h\<bar> \<le> MAX_SKEW_SECONDS"
  shows "authenticate jl secret og a (Some header) = Inl Crash"
proof -
  obtain key where key: "derive_secret (hk_id h) (sc_salt c) secret = Some key" "isascii key"
    by (rule derive_secret_Some [OF assms(5,6)])
  then have "verify_hawk h key (request_of og a) (at_now a) (at_body a) (at_content_type a) MAX_SKEW_SECONDS =
      Inl HawkCrash"
    using assms(2,8) by (simp add: verify_hawk_def hawk_mac_def encode_ascii_def compare_digest_def)
  then show ?thesis using assms key by (simp add: authenticate_def check_hawk_def)
qed

theorem nonascii_mac_crashes_witness:
  "\<exists>header. authenticate (token_lib sample_token_claims [1, 2, 3]) ''s'' sample_origin
     (sample_attempt 99 ''/1.5/7/storage'') (Some header) = Inl Crash"
proof -
  let ?jl = "token_lib sample_token_claims [1, 2, 3]"
  obtain token key k where m: "make_token ?jl sample_token_claims [1, 2, 3] ''s'' = Some (token, key)"
    and tok: "isascii token" "token = urlsafe_b64encode (token_payload ?jl sample_token_claims (hex_of [1, 2, 3]) @
       hmac_sha256 k (token_payload ?jl sample_token_claims (hex_of [1, 2, 3])))"
    by (rule make_token_Some [of ?jl sample_token_claims "[1, 2, 3]" "''s''"]) blast
  obtain c where c: "parse_token ?jl token ''s'' = Inr c" "sc_expires c = 100" "sc_salt c = hex_of [1, 2, 3]"
    by (rule parse_token_minted [OF m, of 7 100])
      (simp_all add: reads_payload_def token_lib_def sample_token_claims_def)
  let ?h = "\<lparr>hk_id = token, hk_ts = 99, hk_nonce = ''n'', hk_mac = [CHR 0xE9], hk_hash = [], hk_ext = []\<rparr>"
  have "list_all is_attr_value token" unfolding tok(2)
    by (rule b64encode_chars(3)) (simp add: token_payload_def utf8_bytes)
  moreover have "is_attr_value CHR 0xE9" "is_attr_value CHR ''n''" "\<not> is_ascii CHR 0xE9" by code_simp+
  ultimately have ok: "header_ok ?h" "\<not> isascii [CHR 0xE9]" by (simp_all add: header_ok_def isascii_def)
  have "authenticate ?jl ''s'' sample_origin (sample_attempt 99 ''/1.5/7/storage'') (Some (hawk_text ?h)) = Inl Crash"
    by (rule nonascii_mac_crashes [OF parse_hawk_text [OF ok(1)], of _ _ c])
      (use ok(2) c tok(1) hex_ascii in \<open>simp_all add: sample_attempt_def MAX_SKEW_SECONDS_def
        hawk_text_def header_text_def\<close>)
  then show ?thesis by blast
qed

end
