(* ===== verification/TokenserverProps.thy ===== *)
theory TokenserverProps
  imports TokenserverFacts SyncAuth
begin

text \<open>
  What the tokenserver promises over any sequence of requests, and what the storage tier gets
  out of a credential it minted. A step is one request, answered or refused, or one that died
  between the INSERT of a rotation and the UPDATE that retires the old rows. Every access token
  the grants mint carries \<open>fxa-generation\<close>, and so do the requests here.
\<close>

inductive token_step :: "database \<Rightarrow> database \<Rightarrow> bool" where
  request: "ad_generation auth \<noteq> None \<Longrightarrow> allocate db auth now = (r, db') \<Longrightarrow> token_step db db'"
| crash: "ad_generation auth = Some g \<Longrightarrow> sync_users (ad_fxa_uid auth) db = c # h \<Longrightarrow>
    validate auth c (map su_client_state (filter (\<lambda>old. su_client_state old \<noteq> su_client_state c) h)) = Inr () \<Longrightarrow>
    ad_client_state auth \<noteq> su_client_state c \<Longrightarrow>
    insert_user auth g (next_keys_changed_at auth c) now (reconcile c h db) = (Inr u, db') \<Longrightarrow>
    token_step db db'"

inductive_cases token_stepE: "token_step db db'"

lemma token_step_ok: "token_step db db' \<Longrightarrow> ts_inv db \<Longrightarrow> step_ok db db'"
proof (induction rule: token_step.induct)
  case (request auth db now r db')
  then show ?case using allocate_step by blast
next
  case (crash auth g db c h now u db')
  then show ?case using rotate by blast
qed

lemma token_steps_ok:
  assumes "token_step\<^sup>*\<^sup>* db db'" "ts_inv db" shows "step_ok db db'"
  using assms
proof (induction rule: rtranclp_induct)
  case base
  then show ?case by (rule step_ok_refl)
next
  case (step y z)
  then have "step_ok db y" by simp
  moreover have "step_ok y z" using token_step_ok step.hyps(2) \<open>step_ok db y\<close> by (simp add: step_ok_def)
  ultimately show ?case by (rule step_ok_trans)
qed

text \<open>One key rotation of the sample account, from client state \<open>aa\<close> to \<open>bb\<close>.\<close>

definition sample_auth :: auth_data where
  "sample_auth = \<lparr>ad_fxa_uid = ''u1'', ad_client_state = ''bb'', ad_generation = Some 6, ad_keys_changed_at = Some 6\<rparr>"

lemma sample_ts_inv: "ts_inv sample_database"
proof -
  have u: "users_of f sample_database = (if f = ''u1'' then {sample_user} else {})" for f
    by (auto simp: users_of_def sample_defs)
  have "su_replaced_at c = None" if "sync_users f sample_database = c # h" for f c h
    using sync_users_ConsD(1) [OF that] by (auto simp: u sample_user_def split: if_splits)
  then show ?thesis using sample_wf by (simp add: ts_inv_def users_inv_def u)
qed

lemma sample_current: "sync_users ''u1'' sample_database = [sample_user]"
  by (simp add: sync_users_def sample_defs)

lemma sample_rotation: "\<exists>db'. allocate sample_database sample_auth now = (Inr (8, 6, Some 6), db')"
proof -
  have v: "validate sample_auth sample_user [] = Inr ()" by code_simp
  have "reconcile sample_user [] sample_database = sample_database" by (simp add: reconcile_def)
  moreover have "has_account ''u1'' sample_database" "db_sync_users_seq sample_database = 7"
    by (simp_all add: has_account_def has_key_def sample_defs)
  ultimately show ?thesis
    using v allocate_known [of sample_auth sample_database sample_user "[]" now] sample_current
    by (simp add: sample_auth_def apply_update_def next_generation_def next_keys_changed_at_def Let_def
        insert_user_def create_sync_user_def sample_user_def opt_int_ok_def sql_int_def)
qed

text \<open>
  C17: The record only moves forward. Over any number of token requests, of any accounts, answered
  or refused or dying between their two writes, an account's current Sync user never falls behind
  in generation or \<open>keys_changed_at\<close>, every row stays, no two rows share a client state, the
  current one is live, and the database's constraints hold.
\<close>

theorem sync_users_only_advance:
  assumes "ts_inv db" and "token_step\<^sup>*\<^sup>* db db'"
  shows "ts_inv db' \<and> (\<forall>f. advances f db db')"
  using token_steps_ok [OF assms(2,1)] by (simp add: step_ok_def)

theorem sync_users_only_advance_witness:
  "\<exists>db'. token_step\<^sup>*\<^sup>* sample_database db' \<and> ts_inv db' \<and> advances ''u1'' sample_database db'"
proof -
  obtain db' where "allocate sample_database sample_auth 9 = (Inr (8, 6, Some 6), db')"
    using sample_rotation by blast
  then have "token_step sample_database db'" by (intro token_step.request) (auto simp: sample_auth_def)
  then have s: "token_step\<^sup>*\<^sup>* sample_database db'" by blast
  show ?thesis using sync_users_only_advance [OF sample_ts_inv s] s by blast
qed

lemma answered_current:
  assumes "ts_inv db" "ad_generation auth \<noteq> None" and "allocate db auth now = (Inr facts, db')"
  shows "answered auth facts db'"
  using allocate_step [OF assms(1) _ assms(3)] assms(2) by blast

text \<open>
  C18: A request that is answered leaves exactly one live row for its account, and the answer is
  that row: its uid, its generation and its \<open>keys_changed_at\<close>, under the client state the
  request claimed. Rows that a crash left unreplaced are retired on the way.
\<close>

theorem answered_row_is_current:
  assumes "ts_inv db" "ad_generation auth \<noteq> None" and "allocate db auth now = (Inr facts, db')"
  shows "answered auth facts db'"
  by (rule answered_current [OF assms])

theorem answered_row_is_current_witness:
  "\<exists>db'. allocate sample_database sample_auth 9 = (Inr (8, 6, Some 6), db') \<and>
     answered sample_auth (8, 6, Some 6) db'"
proof -
  obtain db' where a: "allocate sample_database sample_auth 9 = (Inr (8, 6, Some 6), db')"
    using sample_rotation by blast
  moreover have "ad_generation sample_auth \<noteq> None" by (simp add: sample_auth_def)
  ultimately show ?thesis using answered_row_is_current [OF sample_ts_inv _ a] by blast
qed

subsection \<open>A retired key\<close>

text \<open>A row that is not the current one: a client state this account has given up.\<close>

definition retired_state :: "str \<Rightarrow> str \<Rightarrow> database \<Rightarrow> bool" where
  "retired_state f s db \<longleftrightarrow>
     (\<exists>c h. sync_users f db = c # h \<and> su_client_state c \<noteq> s \<and> s \<in> su_client_state ` set h)"

lemma retired_stateI:
  "sync_users f db = c # h \<Longrightarrow> su_client_state c \<noteq> s \<Longrightarrow> q \<in> set h \<Longrightarrow> su_client_state q = s \<Longrightarrow> retired_state f s db"
  by (auto simp: retired_state_def)

lemma retired_stays:
  assumes r: "retired_state f s db" and ok: "step_ok db db'" and inv: "ts_inv db"
  shows "retired_state f s db'"
proof -
  obtain c h q where c: "sync_users f db = c # h" "su_client_state c \<noteq> s" "q \<in> set h" "su_client_state q = s"
    using r by (auto simp: retired_state_def)
  have wf: "wf_db db" "wf_db db'" and inj: "inj_on su_client_state (users_of f db')" and a: "advances f db db'"
    using inv ok by (auto simp: ts_inv_def step_ok_def users_inv_def)
  have q: "q \<in> users_of f db" "q \<noteq> c" using sync_users_ConsD(3) [OF c(1) wf(1)] c(3) by auto
  obtain q' where q': "q' \<in> users_of f db'" "same_user q q'" using advancesD(1) [OF a q(1)] by blast
  obtain c' h' where c': "sync_users f db' = c' # h'" "su_uid c' = su_uid c \<or> su_uid c' \<notin> su_uid ` users_of f db"
    using advancesD(2) [OF a c(1)] by blast
  have "su_uid q' \<noteq> su_uid c'"
    using c'(2) q'(2) q user_eq [OF wf(1) q(1) sync_users_ConsD(1) [OF c(1)]]
      imageI [OF q(1), of su_uid] unfolding same_user_def by metis
  then have ne: "q' \<noteq> c'" by blast
  then have "su_client_state c' \<noteq> s"
    using inj_onD [OF inj _ q'(1) sync_users_ConsD(1) [OF c'(1)]] q'(2) c(4) by (auto simp: same_user_def)
  moreover have "q' \<in> set h'" using sync_users_ConsD(3) [OF c'(1) wf(2)] q'(1) ne by blast
  ultimately show ?thesis using retired_stateI [OF c'(1)] q'(2) c(4) by (simp add: same_user_def)
qed

lemma retired_refused:
  assumes "retired_state (ad_fxa_uid auth) (ad_client_state auth) db"
  shows "\<exists>e. fst (allocate db auth now) = Inl e"
proof -
  obtain c h where c: "sync_users (ad_fxa_uid auth) db = c # h" "su_client_state c \<noteq> ad_client_state auth"
    "ad_client_state auth \<in> su_client_state ` set h" using assms by (auto simp: retired_state_def)
  let ?v = "validate auth c (map su_client_state (filter (\<lambda>old. su_client_state old \<noteq> su_client_state c) h))"
  have "ad_client_state auth \<in> set (map su_client_state (filter (\<lambda>old. su_client_state old \<noteq> su_client_state c) h))"
    using c(2,3) by auto
  then have "?v \<noteq> Inr ()" unfolding validate_def Let_def by (auto simp only: bindr_eq_Inr guardr_eq_Inr)
  then obtain e where "?v = Inl e" by (cases ?v) auto
  then show ?thesis using allocate_known [OF c(1), of now] by simp
qed

text \<open>
  C19: A retired key never comes back. Once a request has been answered under a new client state,
  no later request for that account under the old one is answered, whatever generation and
  \<open>keys_changed_at\<close> it claims and whatever requests came in between.
\<close>

theorem retired_key_never_returns:
  assumes inv: "ts_inv db" and cur: "sync_users (ad_fxa_uid auth) db = c # h"
    and a: "ad_generation auth \<noteq> None" "allocate db auth now = (Inr facts, db1)"
    and ch: "ad_client_state auth \<noteq> su_client_state c"
    and later: "token_step\<^sup>*\<^sup>* db1 db2"
    and old: "ad_fxa_uid auth' = ad_fxa_uid auth" "ad_client_state auth' = su_client_state c"
  shows "\<exists>e. fst (allocate db2 auth' now') = Inl e"
proof -
  let ?f = "ad_fxa_uid auth"
  have s: "step_ok db db1" "answered auth facts db1" using allocate_step [OF inv _ a(2)] a(1) by auto
  then have inv1: "ts_inv db1" "wf_db db1" by (simp_all add: step_ok_def ts_inv_def)
  obtain c1 h1 where c1: "sync_users ?f db1 = c1 # h1" "su_client_state c1 = ad_client_state auth"
    using s(2) by (auto simp: answered_def)
  obtain q where q: "q \<in> users_of ?f db1" "same_user c q"
    using advancesD(1) [of ?f db db1, OF _ sync_users_ConsD(1) [OF cur]] s(1) by (auto simp: step_ok_def)
  then have "q \<noteq> c1" using c1(2) ch by (auto simp: same_user_def)
  then have "q \<in> set h1" using sync_users_ConsD(3) [OF c1(1) inv1(2)] q(1) by blast
  then have "retired_state ?f (su_client_state c) db1"
    using retired_stateI [OF c1(1)] c1(2) ch q(2) by (simp add: same_user_def)
  then have "retired_state ?f (su_client_state c) db2"
    using retired_stays [OF _ token_steps_ok [OF later inv1(1)] inv1(1)] by blast
  then show ?thesis using retired_refused [of auth' db2 now'] old by simp
qed

theorem retired_key_never_returns_witness:
  "\<exists>db1 e. allocate sample_database sample_auth 9 = (Inr (8, 6, Some 6), db1) \<and>
     fst (allocate db1 (sample_auth\<lparr>ad_client_state := ''aa'', ad_generation := Some 99, ad_keys_changed_at := Some 99\<rparr>) 10) = Inl e"
proof -
  obtain db1 where a: "allocate sample_database sample_auth 9 = (Inr (8, 6, Some 6), db1)"
    using sample_rotation by blast
  have "\<exists>e. fst (allocate db1 (sample_auth\<lparr>ad_client_state := ''aa'', ad_generation := Some 99, ad_keys_changed_at := Some 99\<rparr>) 10) = Inl e"
    by (rule retired_key_never_returns [OF sample_ts_inv _ _ a, of sample_user "[]"])
      (simp_all add: sample_auth_def sample_current, simp_all add: sample_user_def)
  then show ?thesis using a by blast
qed

subsection \<open>A new key gets an empty store\<close>

lemma rotation_effect:
  assumes s: "sync_users (ad_fxa_uid auth) db = c # h" and ch: "ad_client_state auth \<noteq> su_client_state c"
    and a: "allocate db auth now = (Inr (uid, g, k), db')"
  shows "uid = db_sync_users_seq db + 1" "db_bso db' = db_bso db"
    "\<exists>u \<in> set (db_sync_users db'). su_uid u = uid"
proof -
  let ?d1 = "reconcile c h db"
  have "apply_update ?d1 auth c now = (Inr (uid, g, k), db')"
    using a allocate_known [OF s, of now] by (auto split: sum.splits)
  then obtain u d2 g' k' where i: "insert_user auth g' k' now ?d1 = (Inr u, d2)" "uid = su_uid u"
    and db': "db' = snd (replace_other_sync_users (ad_fxa_uid auth) (su_uid u) now d2)"
    using ch by (auto simp: apply_update_def Let_def split: prod.splits sum.splits)
  note u = insert_user_Inr(1,2) [OF i(1)]
  show "uid = db_sync_users_seq db + 1" using u(1) i(2) by (simp add: reconcile_frame)
  show "db_bso db' = db_bso db"
    using u(2) by (simp add: db' replace_other_sync_users_def Let_def reconcile_frame)
  have "u \<in> set (db_sync_users d2)" using u(2) by simp
  then show "\<exists>v \<in> set (db_sync_users db'). su_uid v = uid"
    using i(2) by (force simp: db' replace_other_sync_users_def Let_def set_update_where)
qed

text \<open>
  C20: A key rotation gives the account a new uid with an empty store. The uid it answers was no
  Sync user before and is one now, nothing is stored under it, and no record of any user has
  been touched: what the old key encrypted stays where it was, under a uid no new token names.
\<close>

theorem rotation_gets_empty_storage:
  assumes wf: "wf_db db" and s: "sync_users (ad_fxa_uid auth) db = c # h"
    and ch: "ad_client_state auth \<noteq> su_client_state c"
    and a: "allocate db auth now = (Inr (uid, g, k), db')"
  shows "get_sync_user uid db = None \<and> get_sync_user uid db' \<noteq> None \<and>
    (\<forall>r \<in> set (db_bso db'). br_uid r \<noteq> uid) \<and> db_bso db' = db_bso db"
proof -
  note e = rotation_effect [OF s ch a]
  have no: "uid \<notin> su_uid ` set (db_sync_users db)"
    using wf_sync_users_seq [OF wf] unfolding e(1) by force
  have "refs br_uid (db_bso db) su_uid (db_sync_users db)" using wf by (simp add: wf_db_def wf_refs_def)
  then have "\<forall>r \<in> set (db_bso db). br_uid r \<noteq> uid" using no unfolding refs_def by force
  moreover have "get_sync_user uid db = None" using no by (simp add: get_sync_user_def lookup_key_None)
  moreover have "get_sync_user uid db' \<noteq> None"
    using e(3) unfolding get_sync_user_def lookup_key_None by force
  ultimately show ?thesis using e(2) by simp
qed

theorem rotation_gets_empty_storage_witness:
  "\<exists>db'. allocate sample_database sample_auth 9 = (Inr (8, 6, Some 6), db') \<and> get_sync_user 8 db' \<noteq> None \<and>
     (\<forall>r \<in> set (db_bso db'). br_uid r \<noteq> 8)"
proof -
  obtain db' where a: "allocate sample_database sample_auth 9 = (Inr (8, 6, Some 6), db')"
    using sample_rotation by blast
  have "sync_users (ad_fxa_uid sample_auth) sample_database = [sample_user]"
    "ad_client_state sample_auth \<noteq> su_client_state sample_user"
    using sample_current by (simp_all add: sample_auth_def sample_user_def)
  from rotation_gets_empty_storage [OF sample_wf this a] show ?thesis using a by blast
qed

subsection \<open>The credential the storage tier is shown\<close>

lemma duration_bounds: "0 < ttl \<Longrightarrow> 0 < duration_of rq ttl \<and> duration_of rq ttl \<le> ttl"
  by (simp add: duration_of_def split: option.splits)

lemma token_claims_fields:
  "map_of (token_claims cf auth uid kid now_ms d) ''uid'' = Some (JInt uid)"
  "map_of (token_claims cf auth uid kid now_ms d) ''expires'' = Some (JInt (now_ms div 1000 + d))"
  "map_of (token_claims cf auth uid kid now_ms d) ''fxa_uid'' = Some (JStr (ad_fxa_uid auth))"
  "map_of (token_claims cf auth uid kid now_ms d) ''fxa_kid'' = Some (JStr kid)"
  by (simp_all add: token_claims_def Let_def)

text \<open>The claims a minted credential carries.\<close>

definition minted_claims :: "'key ts_config \<Rightarrow> ts_request \<Rightarrow> auth_data \<Rightarrow> int \<Rightarrow> int \<times> int \<times> int option \<Rightarrow> (str \<times> json) list" where
  "minted_claims cf rq auth now_ms facts =
     (case facts of (uid, generation, keys) \<Rightarrow>
        token_claims cf auth uid
          (the (fxa_kid (case keys of Some k \<Rightarrow> k | None \<Rightarrow> generation) (ad_client_state auth))) now_ms
          (duration_of rq (tc_ttl cf)))"

lemma mint_Inr:
  assumes "mint cf rq auth now_ms salt (uid, g, k) = Inr resp"
  shows "make_token (tc_json cf) (minted_claims cf rq auth now_ms (uid, g, k)) salt (tc_secret cf) =
      Some (tp_id resp, tp_key resp)" "tp_uid resp = uid" "tp_duration resp = duration_of rq (tc_ttl cf)"
  using assms by (auto simp: mint_def minted_claims_def Let_def bindr_eq_Inr split: option.splits)

lemma credential_decides:
  assumes a: "allocate db auth now_ms = (Inr (uid, g, k), db')" "ad_generation auth \<noteq> None" "ts_inv db"
    and m: "mint cf rq auth now_ms salt (uid, g, k) = Inr resp"
    and lib: "reads_payload (tc_json cf) (minted_claims cf rq auth now_ms (uid, g, k)) salt"
    and clock: "0 \<le> now_ms" "0 < tc_ttl cf" "now_ms div 1000 + tc_ttl cf < 2 ^ 53"
    and r: "client_header (tp_id resp) (tp_key resp) (request_of og w) ts nonce hash ext = Some header"
      "signable w ts nonce hash ext"
  shows "(if at_now w < now_ms div 1000 + tp_duration resp \<or> exempt_from_expiry (at_path w)
     then \<exists>creds. authenticate (tc_json cf) (tc_secret cf) og w (Some header) = Inr creds \<and>
       sc_uid creds = uid \<and> sc_fxa_uid creds = ad_fxa_uid auth
     else authenticate (tc_json cf) (tc_secret cf) og w (Some header) = Inl (Http sync_unauthorized)) \<and>
    get_sync_user uid db' \<noteq> None \<and> tp_duration resp \<le> tc_ttl cf"
proof -
  let ?cl = "minted_claims cf rq auth now_ms (uid, g, k)"
  note M = mint_Inr [OF m]
  have d: "0 < tp_duration resp" "tp_duration resp \<le> tc_ttl cf"
    using duration_bounds [OF clock(2), of rq] by (simp_all add: M(3))
  have f: "map_of ?cl ''uid'' = Some (JInt uid)" "map_of ?cl ''fxa_uid'' = Some (JStr (ad_fxa_uid auth))"
    "map_of ?cl ''expires'' = Some (JInt (now_ms div 1000 + tp_duration resp))"
    by (simp_all add: minted_claims_def token_claims_fields M(3))
  have e: "expires_claim (JInt (now_ms div 1000 + tp_duration resp)) = Inr (now_ms div 1000 + tp_duration resp)"
    using clock d by (intro expires_int) (simp_all add: pos_imp_zdiv_nonneg_iff add_nonneg_pos)
  obtain creds where p: "parse_token (tc_json cf) (tp_id resp) (tc_secret cf) = Inr creds"
    "sc_uid creds = uid" "sc_fxa_uid creds = ad_fxa_uid auth"
    "sc_expires creds = now_ms div 1000 + tp_duration resp" "sc_salt creds = hex_of salt"
    using parse_token_made [OF M(1) lib] f e
    by (simp add: credentials_of_claims_def map_of_dict_set str_claim_def get_or_def py_str_def
        del: expires_claim.simps)
  have "authenticate (tc_json cf) (tc_secret cf) og w (Some header) =
      (if at_now w < sc_expires creds \<or> exempt_from_expiry (at_path w) then Inr creds
       else Inl (Http sync_unauthorized))"
    by (rule signed_request_decides [OF p(1) _ _ r]) (use made_token_parts [OF M(1)] p(5) in simp_all)
  moreover have "get_sync_user uid db' \<noteq> None"
  proof -
    obtain c h where "sync_users (ad_fxa_uid auth) db' = c # h" "su_uid c = uid"
      using answered_current [OF a(3,2,1)] by (auto simp: answered_def)
    then have "c \<in> set (db_sync_users db')" using sync_users_ConsD(1) by (fastforce simp: users_of_def)
    then show ?thesis using \<open>su_uid c = uid\<close> unfolding get_sync_user_def lookup_key_None by blast
  qed
  ultimately show ?thesis using p d(2) by auto
qed

text \<open>
  C21: The credential is the authorization. A request signed with the pair the tokenserver minted
  gets, from a storage tier that shares only the secret, the uid of the account's current row and
  the account it was minted for: until the clock reaches issue time plus duration, which is never
  more than the configured lifetime; after that it gets the 401, but on \<open>/info/collections\<close>.
  That uid is a Sync user, so the storage tier serves it.
\<close>

theorem minted_credential_opens_storage:
  assumes a: "allocate db auth now_ms = (Inr (uid, g, k), db')" "ad_generation auth \<noteq> None" "ts_inv db"
    and m: "mint cf rq auth now_ms salt (uid, g, k) = Inr resp"
    and lib: "reads_payload (tc_json cf) (minted_claims cf rq auth now_ms (uid, g, k)) salt"
    and clock: "0 \<le> now_ms" "0 < tc_ttl cf" "now_ms div 1000 + tc_ttl cf < 2 ^ 53"
    and r: "client_header (tp_id resp) (tp_key resp) (request_of og w) ts nonce hash ext = Some header"
      "signable w ts nonce hash ext"
  shows "(if at_now w < now_ms div 1000 + tp_duration resp \<or> exempt_from_expiry (at_path w)
     then \<exists>creds. authenticate (tc_json cf) (tc_secret cf) og w (Some header) = Inr creds \<and>
       sc_uid creds = uid \<and> sc_fxa_uid creds = ad_fxa_uid auth
     else authenticate (tc_json cf) (tc_secret cf) og w (Some header) = Inl (Http sync_unauthorized)) \<and>
    get_sync_user uid db' \<noteq> None \<and> tp_duration resp \<le> tc_ttl cf"
  by (rule credential_decides [OF assms])

definition sample_config :: "json_lib \<Rightarrow> bool ts_config" where
  "sample_config jl = \<lparr>tc_public_url = ''https://x.org'', tc_ttl = 300, tc_secret = ''s'', tc_json = jl,
     tc_rsa = sample_rsa, tc_verifiers = [(''k1'', True)]\<rparr>"

definition plain_request :: ts_request where
  "plain_request = \<lparr>tr_headers = [], tr_params = []\<rparr>"

lemma mint_total:
  assumes "fxa_kid (case k of Some x \<Rightarrow> x | None \<Rightarrow> g) (ad_client_state auth) \<noteq> None"
  obtains resp where "mint cf rq auth now salt (uid, g, k) = Inr resp"
proof -
  obtain kid where kid: "fxa_kid (case k of Some x \<Rightarrow> x | None \<Rightarrow> g) (ad_client_state auth) = Some kid"
    using assms by blast
  obtain token key where "make_token (tc_json cf) (token_claims cf auth uid kid now (duration_of rq (tc_ttl cf))) salt (tc_secret cf)
      = Some (token, key)" "isascii key"
    by (rule make_token_Some) blast
  then show ?thesis using kid that by (simp add: mint_def Let_def)
qed

lemma client_header_total:
  assumes "isascii key" obtains header where "client_header token key r ts nonce hash ext = Some header"
  using assms that by (simp add: client_header_def Let_def hawk_mac_def encode_ascii_def)

theorem minted_credential_opens_storage_witness:
  "\<exists>db' (cf :: bool ts_config) resp header creds. allocate sample_database sample_auth 9000 = (Inr (8, 6, Some 6), db') \<and>
     mint cf plain_request sample_auth 9000 [1, 2, 3] (8, 6, Some 6) = Inr resp \<and>
     client_header (tp_id resp) (tp_key resp) (request_of sample_origin (sample_attempt 99 ''/1.5/8/storage'')) 99 ''n'' [] [] = Some header \<and>
     authenticate (tc_json cf) (tc_secret cf) sample_origin (sample_attempt 99 ''/1.5/8/storage'') (Some header) = Inr creds \<and>
     sc_uid creds = 8 \<and> get_sync_user 8 db' \<noteq> None"
proof -
  let ?salt = "[1, 2, 3]" and ?facts = "(8, 6, Some 6)" and ?w = "sample_attempt 99 ''/1.5/8/storage''"
  let ?claims = "minted_claims (sample_config (token_lib [] [])) plain_request sample_auth 9000 ?facts"
  let ?cf = "sample_config (token_lib ?claims ?salt)"
  have cl: "minted_claims ?cf plain_request sample_auth 9000 ?facts = ?claims"
    by (simp add: minted_claims_def token_claims_def sample_config_def Let_def)
  obtain db' where a: "allocate sample_database sample_auth 9000 = (Inr ?facts, db')"
    using sample_rotation by blast
  have "fxa_kid 6 ''bb'' \<noteq> None" by code_simp
  then obtain resp where m: "mint ?cf plain_request sample_auth 9000 ?salt ?facts = Inr resp"
    using mint_total [where cf = ?cf and rq = plain_request and now = 9000 and salt = ?salt and uid = 8 and
          g = 6 and k = "Some 6" and auth = sample_auth] by (auto simp: sample_auth_def)
  have "isascii (tp_key resp)"
    by (rule made_token_parts(4) [OF mint_Inr(1) [OF m]])
  then obtain header where h: "client_header (tp_id resp) (tp_key resp) (request_of sample_origin ?w) 99 ''n'' [] [] = Some header"
    by (rule client_header_total)
  have lib: "reads_payload (tc_json ?cf) (minted_claims ?cf plain_request sample_auth 9000 ?facts) ?salt"
    unfolding cl by (simp add: reads_payload_def token_lib_def sample_config_def)
  have s: "signable ?w 99 ''n'' [] []" by code_simp
  have dur: "tp_duration resp = 300"
    using mint_Inr(3) [OF m] by (simp add: duration_of_def plain_request_def param_get_def sample_config_def)
  have "ad_generation sample_auth \<noteq> None" by (simp add: sample_auth_def)
  from minted_credential_opens_storage [OF a this sample_ts_inv m lib _ _ _ h s] dur
  have "\<exists>creds. authenticate (tc_json ?cf) (tc_secret ?cf) sample_origin ?w (Some header) = Inr creds \<and>
      sc_uid creds = 8" "get_sync_user 8 db' \<noteq> None"
    by (auto simp: sample_config_def sample_attempt_def)
  then show ?thesis using a m h by blast
qed

subsection \<open>The key id\<close>

lemma length_show_nat_ge: "10 ^ k \<le> n \<Longrightarrow> k < length (show_nat n)"
proof (induction k arbitrary: n)
  case (Suc k)
  have "10 ^ k \<le> n div 10" using div_le_mono [OF Suc.prems, of 10] by simp
  moreover have "\<not> n < 10"
  proof -
    have "1 \<le> (10::nat) ^ k" by simp
    then show ?thesis using Suc.prems unfolding power_Suc by linarith
  qed
  ultimately show ?case using Suc.IH by (subst show_nat.simps) simp
qed simp

lemma thirteen_digits: "10 ^ 12 \<le> (n::int) \<Longrightarrow> n < 10 ^ 13 \<Longrightarrow> length (show_nat (nat n)) = 13"
proof -
  assume n: "10 ^ 12 \<le> n" "n < 10 ^ 13"
  have "(0::int) \<le> 10 ^ 12" by simp
  then have "0 \<le> n" using n(1) by (rule order_trans)
  then obtain m where m: "n = int m" by (rule nonneg_int_cases)
  have "10 ^ 12 \<le> m" "m < 10 ^ 13"
    using n unfolding m by (metis of_nat_le_iff of_nat_numeral of_nat_power)
      (metis n(2) m of_nat_less_iff of_nat_numeral of_nat_power)
  then show ?thesis using length_show_nat_ge [of 12 m] length_show_nat [of m 13] unfolding m by simp
qed

lemma b64u_decode_Nil: "b64u_decode [] = Some []"
  by code_simp

text \<open>
  The key id of the Sync key survives the whole way: the \<open>kid\<close> the browser derives with its
  key, sent as \<open>X-KeyID\<close>, is read as the key's rotation time and the fingerprint of \<open>kB\<close>, and the
  \<open>fxa_kid\<close> the tokenserver puts in the credential is that \<open>kid\<close> again, character by character.
\<close>

theorem sync_key_id_roundtrip:
  assumes "legacy_sync_key scope kb timestamp = Some key" and "10 ^ 12 \<le> timestamp" "timestamp < 10 ^ 13"
  shows "read_key_id (sk_kid key) = Inr (timestamp, client_state_of kb) \<and>
    fxa_kid timestamp (client_state_of kb) = Some (sk_kid key)"
proof -
  let ?s = "take 16 (sha256 kb)"
  have kid: "sk_kid key = show_int timestamp @ [CHR ''-''] @ b64u_encode ?s"
    using assms(1) by (auto simp: legacy_sync_key_def)
  have "length ?s = 16" by simp
  then have ok: "bytes_ok ?s" "?s \<noteq> []" by (auto simp: bytes_ok_take simp del: length_take)
  have digits: "show_int timestamp = show_nat (nat timestamp)" using assms(2) by (simp add: show_int_def)
  have "CHR ''-'' \<notin> set (show_nat (nat timestamp))" using show_nat_digits is_digit_chars(1) by blast
  then have part: "partition CHR ''-'' (sk_kid key) = (show_int timestamp, True, b64u_encode ?s)"
    unfolding kid digits by (simp add: partition_append)
  have "b64u_encode ?s \<noteq> []" using ok by (metis b64u_decode_encode b64u_decode_Nil option.inject)
  then have re: "B64URL_RE (b64u_encode ?s)"
    using b64u_encode_digits(1) [OF ok(1)] by (simp add: B64URL_RE_def re_dollar_def class_plus_def)
  have int: "py_int (show_int timestamp) = Some timestamp"
    by (rule py_int_show_int) (use assms in simp_all)
  have "read_key_id (sk_kid key) = Inr (timestamp, hex_of ?s)"
    unfolding read_key_id_def part by (simp add: int re repad_decode [OF ok(1)])
  moreover have "length (show_nat (nat timestamp)) = 13" using thirteen_digits assms(2,3) by simp
  moreover have "fromhex (hex_of ?s) = Some ?s" using ok(1) by (rule fromhex_hex_of)
  ultimately show ?thesis
    using assms(2) by (simp add: client_state_of_def fxa_kid_def pad_int_def kid digits)
qed

theorem sync_key_id_roundtrip_witness:
  "\<exists>key. legacy_sync_key OLDSYNC_SCOPE [1, 2, 3] 1510726318123 = Some key \<and>
     read_key_id (sk_kid key) = Inr (1510726318123, client_state_of [1, 2, 3])"
proof -
  obtain km where "hkdf [1, 2, 3] (encode_utf8 (NAMESPACE @ ''oldsync'')) [] 64 = Some km"
    by (rule hkdf_total [of 64 "[1, 2, 3]" "encode_utf8 (NAMESPACE @ ''oldsync'')" "[]"]) simp_all
  then obtain key where k: "legacy_sync_key OLDSYNC_SCOPE [1, 2, 3] 1510726318123 = Some key"
    by (simp add: legacy_sync_key_def)
  show ?thesis using k sync_key_id_roundtrip [OF k] by simp
qed

end
