(* ===== verification/Requests.thy ===== *)
theory Requests
  imports FxaErrors Db
begin

text \<open>
  What the handlers of the accounts, OAuth and profile tiers share: a result beside the database
  it leaves, sequencing, and a statement whose constraint violation nobody catches. Nothing
  opens a transaction around a handler, so what ran before an exception stays.
\<close>

type_synonym 'a fxa_result = "(fxa_exn + 'a) \<times> database"

definition andthen :: "('e + 'a) \<times> 'd \<Rightarrow> ('a \<Rightarrow> 'd \<Rightarrow> ('e + 'b) \<times> 'd) \<Rightarrow> ('e + 'b) \<times> 'd" where
  "andthen r f = (case r of (Inl e, d) \<Rightarrow> (Inl e, d) | (Inr a, d) \<Rightarrow> f a d)"

definition insert_row :: "db_error + database \<Rightarrow> database \<Rightarrow> unit fxa_result" where
  "insert_row r db = (case r of Inl _ \<Rightarrow> (Inl FxaCrash, db) | Inr db' \<Rightarrow> (Inr (), db'))"

lemma andthen_simps [simp, exn_simps]:
  "andthen (Inl e, d) f = (Inl e, d)" "andthen (Inr a, d) f = f a d"
  by (simp_all add: andthen_def)

lemma andthen_Inr [exn_simps]:
  "andthen r f = (Inr b, d) \<longleftrightarrow> (\<exists>a d'. r = (Inr a, d') \<and> f a d' = (Inr b, d))"
  by (cases r; cases "fst r") (auto simp: andthen_def)

lemma andthen_step:
  assumes "andthen r f = (v, d)" and "P (snd r)"
    and "\<And>a d'. r = (Inr a, d') \<Longrightarrow> f a d' = (v, d) \<Longrightarrow> P d"
  shows "P d"
  using assms by (cases r; cases "fst r") (auto simp: andthen_def)

lemma insert_row_simps [simp]:
  "insert_row (Inl x) db = (Inl FxaCrash, db)" "insert_row (Inr db') db = (Inr (), db')"
  by (simp_all add: insert_row_def)

lemma insert_row_Inr: "insert_row r db = (Inr u, db') \<longleftrightarrow> r = Inr db'"
  by (auto simp: insert_row_def split: sum.splits)

lemma bindr_pair_Inr:
  "(bindr r f, d) = (Inr b, d') \<longleftrightarrow> d = d' \<and> (\<exists>a. r = Inr a \<and> f a = Inr b)"
  by (auto simp: bindr_eq_Inr)

end
