(* ===== verification/OauthGrant.thy ===== *)
theory OauthGrant
  imports Config ScopeProps Requests Jose
begin

text \<open>
  \<open>oauth/grant.py\<close>: what a client may have, and the tokens that say so. The random values
  (\<open>secrets.token_hex(32)\<close>) are arguments.
\<close>

definition ACCESS_TOKEN_TYP :: str where "ACCESS_TOKEN_TYP = ''at+JWT''"

definition UNTRUSTED_ALLOWED_SCOPES :: scope_set where
  "UNTRUSTED_ALLOWED_SCOPES =
     scope_constant [''openid'', ''profile:uid'', ''profile:email'', ''profile:display_name'']"

definition TRUSTED_ALLOWED_SCOPES :: scope_set where
  "TRUSTED_ALLOWED_SCOPES =
     scope_constant [''openid'', ''profile'', ''email'', ''profile:subscriptions'']"

definition NON_REFRESHABLE_SCOPES :: scope_set where
  "NON_REFRESHABLE_SCOPES = scope_constant [''openid'', SESSION_SCOPE]"

text \<open>\<open>None\<close> is the \<open>UnicodeEncodeError\<close> of a token that is not ASCII.\<close>

definition hash_token :: "str \<Rightarrow> str option" where
  "hash_token token = map_option (\<lambda>bs. hex_of (sha256 bs)) (encode_ascii token)"

record session_claims =
  sl_uid :: str
  sl_email :: str
  sl_session_token_id :: str
  sl_generation :: int
  sl_last_auth_at :: int
  sl_profile_changed_at :: int
  sl_keys_changed_at :: int
  sl_amr :: "str list"
  sl_aal :: int

definition claims_for_session :: "account \<Rightarrow> session_token \<Rightarrow> session_claims" where
  "claims_for_session a tok =
     \<lparr>sl_uid = acc_uid a, sl_email = acc_email a, sl_session_token_id = st_token_id tok,
      sl_generation = acc_verifier_set_at a, sl_last_auth_at = last_auth_at tok,
      sl_profile_changed_at = acc_profile_changed_at a, sl_keys_changed_at = acc_keys_changed_at a,
      sl_amr = [''pwd'', ''email''], sl_aal = 1\<rparr>"

record grant_request =
  gq_scope :: scope_set
  gq_access_type :: str
  gq_keys_jwe :: "str option"

record grant =
  gr_client :: client
  gr_uid :: str
  gr_email :: str
  gr_scope :: scope_set
  gr_auth_at :: int
  gr_generation :: int
  gr_profile_changed_at :: int
  gr_keys_changed_at :: int
  gr_amr :: "str list"
  gr_aal :: int
  gr_session_token_id :: "str option"
  gr_keys_jwe :: "str option"
  gr_offline :: bool
  gr_key_bearing :: "str list"

definition key_bearing_of :: "scope_set \<Rightarrow> str list" where
  "key_bearing_of scope = filter (\<lambda>v. v \<in> set KEY_BEARING_SCOPES) (scope_values scope)"

definition untrusted_ok :: "client \<Rightarrow> scope_set \<Rightarrow> fxa_exn + unit" where
  "untrusted_ok c scope =
     (let invalid = difference scope UNTRUSTED_ALLOWED_SCOPES
      in guardr (cl_trusted c \<or> is_empty_set invalid) (Fxa (invalid_scopes (scope_values invalid))))"

definition key_bearing_ok :: "client \<Rightarrow> scope_set \<Rightarrow> fxa_exn + unit" where
  "key_bearing_ok c scope =
     (if key_bearing_of scope = [] then Inr ()
      else
        bindr (of_option FxaCrash (from_array (key_bearing_of scope))) (\<lambda>asked.
          let forbidden = difference asked (cl_allowed_scopes c)
          in guardr (is_empty_set forbidden) (Fxa (invalid_scopes (scope_values forbidden)))))"

definition trusted_trim :: "client \<Rightarrow> scope_set \<Rightarrow> fxa_exn + scope_set" where
  "trusted_trim c scope =
     (if cl_trusted c then
        (let trimmed = filtered scope (union_scopes (cl_allowed_scopes c) TRUSTED_ALLOWED_SCOPES)
         in bindr (guardr (\<not> (is_empty_set trimmed \<and> \<not> is_empty_set scope))
                (Fxa (invalid_scopes (scope_values scope)))) (\<lambda>_. Inr trimmed))
      else Inr scope)"

definition validate_requested_grant ::
  "session_claims \<Rightarrow> client \<Rightarrow> grant_request \<Rightarrow> fxa_exn + grant" where
  "validate_requested_grant claims c rq =
     bindr (untrusted_ok c (gq_scope rq)) (\<lambda>_.
     bindr (key_bearing_ok c (gq_scope rq)) (\<lambda>_.
     bindr (trusted_trim c (gq_scope rq)) (\<lambda>scope.
       Inr \<lparr>gr_client = c, gr_uid = sl_uid claims, gr_email = sl_email claims, gr_scope = scope,
            gr_auth_at = sl_last_auth_at claims, gr_generation = sl_generation claims,
            gr_profile_changed_at = sl_profile_changed_at claims,
            gr_keys_changed_at = sl_keys_changed_at claims, gr_amr = sl_amr claims,
            gr_aal = sl_aal claims, gr_session_token_id = Some (sl_session_token_id claims),
            gr_keys_jwe = gq_keys_jwe rq, gr_offline = (gq_access_type rq = ''offline''),
            gr_key_bearing = key_bearing_of (gq_scope rq)\<rparr>)))"

subsection \<open>Tokens\<close>

text \<open>What the routes read from the application: keys, clients and times to live in
  seconds, and \<open>urllib.parse.parse_qsl\<close>.\<close>

record 'key oauth_env =
  oe_json :: json_lib
  oe_rsa :: "'key rsa"
  oe_kid :: str
  oe_verifiers :: "(str \<times> 'key) list"
  oe_public_url :: str
  oe_clients :: registry
  oe_code_ttl :: int
  oe_access_ttl :: int
  oe_parse_qsl :: "str \<Rightarrow> (str \<times> str) list"

text \<open>\<open>scope.contains(OLDSYNC_SCOPE)\<close>; the constant is a valid scope.\<close>

definition covers_oldsync :: "scope_set \<Rightarrow> bool" where
  "covers_oldsync scope = contains scope (scope_constant [OLDSYNC_SCOPE])"

definition oe_tokenserver_url :: "'key oauth_env \<Rightarrow> str" where
  "oe_tokenserver_url env = config_url (oe_public_url env) ''/token''"

definition token_audience :: "'key oauth_env \<Rightarrow> grant \<Rightarrow> str" where
  "token_audience env g =
     (if covers_oldsync (gr_scope g) then oe_tokenserver_url env else cl_id (gr_client g))"

definition when_set :: "str \<Rightarrow> int \<Rightarrow> json \<Rightarrow> (str \<times> json) list" where
  "when_set name n v = (if n \<noteq> 0 then [(name, v)] else [])"

definition access_claims :: "'key oauth_env \<Rightarrow> grant \<Rightarrow> int \<Rightarrow> int \<Rightarrow> str \<Rightarrow> (str \<times> json) list" where
  "access_claims env g ttl now_ms jti =
     (let issued_at = now_ms div 1000
      in [(''aud'', JStr (token_audience env g)), (''client_id'', JStr (cl_id (gr_client g))),
          (''exp'', JInt (issued_at + ttl)), (''iat'', JInt issued_at),
          (''iss'', JStr (oe_public_url env)), (''jti'', JStr jti),
          (''scope'', JStr (scope_str (gr_scope g))), (''sub'', JStr (gr_uid g))] @
         when_set ''fxa-generation'' (gr_generation g) (JInt (gr_generation g)) @
         when_set ''fxa-profileChangedAt'' (gr_profile_changed_at g) (JInt (gr_profile_changed_at g)) @
         when_set ''acr'' (gr_aal g) (JStr (''AAL'' @ show_int (gr_aal g))) @
         when_set ''auth_time'' (gr_auth_at g) (JInt (gr_auth_at g)))"

definition access_token :: "'key oauth_env \<Rightarrow> grant \<Rightarrow> int \<Rightarrow> int \<Rightarrow> str \<Rightarrow> str" where
  "access_token env g ttl now_ms jti =
     sign_jwt (oe_json env) (oe_rsa env) (access_claims env g ttl now_ms jti) (oe_kid env) ACCESS_TOKEN_TYP"

definition mint_refresh_token :: "grant \<Rightarrow> int \<Rightarrow> str \<Rightarrow> database \<Rightarrow> str fxa_result" where
  "mint_refresh_token g now_ms token db =
     andthen (of_option FxaCrash (hash_token token), db) (\<lambda>token_id db.
     andthen (insert_row (create_refresh_token
       \<lparr>rt_token_id = token_id, rt_uid = gr_uid g, rt_client_id = cl_id (gr_client g),
        rt_scope = scope_str (gr_scope g), rt_created_at = now_ms, rt_last_used_at = now_ms\<rparr> db) db) (\<lambda>_ db.
       (Inr token, db)))"

record token_response =
  tk_access_token :: str
  tk_token_type :: str
  tk_scope :: str
  tk_expires_in :: int
  tk_auth_at :: "int option"
  tk_keys_jwe :: "str option"
  tk_refresh_token :: "str option"

text \<open>\<open>jti\<close> and \<open>fresh\<close> are the two random values, in the order they are drawn.\<close>

definition generate_tokens ::
  "'key oauth_env \<Rightarrow> grant \<Rightarrow> int \<Rightarrow> int \<Rightarrow> str \<Rightarrow> str \<Rightarrow> database \<Rightarrow> token_response fxa_result" where
  "generate_tokens env g ttl now_ms jti fresh db =
     (let response = \<lparr>tk_access_token = access_token env g ttl now_ms jti, tk_token_type = ''bearer'',
            tk_scope = scope_str (gr_scope g), tk_expires_in = ttl,
            tk_auth_at = (if gr_auth_at g \<noteq> 0 then Some (gr_auth_at g) else None),
            tk_keys_jwe = (if truthy (gr_keys_jwe g) then gr_keys_jwe g else None),
            tk_refresh_token = None\<rparr>
      in if gr_offline g
         then andthen (mint_refresh_token g now_ms fresh db) (\<lambda>tok db.
                (Inr (response\<lparr>tk_refresh_token := Some tok\<rparr>), db))
         else (Inr response, db))"

end
