(* ===== verification/AuthCredentials.thy ===== *)
theory AuthCredentials
  imports OauthGrant
begin

text \<open>
  \<open>auth/credentials.py\<close>: from an \<open>Authorization\<close> header to the session token, key-fetch token or
  refresh token it names. No MAC is checked here: the id is the credential, under \<open>Hawk\<close> and
  under \<open>Bearer\<close> alike.
\<close>

definition MAX_HEADER_LENGTH :: nat where "MAX_HEADER_LENGTH = 4096"

text \<open>The class \<open>\w\<close> on a \<open>str\<close>: what \<open>isalnum\<close> accepts, and the underscore.\<close>

definition is_word :: "char \<Rightarrow> bool" where
  "is_word c \<longleftrightarrow>
     is_alnum c \<or> c = CHR ''_'' \<or> ord c \<in> {170, 178, 179, 181, 185, 186, 188, 189, 190} \<or>
     192 \<le> ord c \<and> ord c \<notin> {215, 247}"

text \<open>\<open>^(\w+)(?:\s+(.*))?$\<close> on a stripped header: the scheme, and what follows it.\<close>

definition match_scheme :: "str \<Rightarrow> (str \<times> str) option" where
  "match_scheme header =
     (let scheme = takeWhile is_word header; rest = dropWhile is_word header
      in if scheme = [] then None
         else
           (case rest of
              [] \<Rightarrow> Some (scheme, [])
            | c # _ \<Rightarrow> if is_space c then Some (scheme, dropWhile is_space rest) else None))"

text \<open>
  \<open>(\w+)="([^"\\]*)"\s*(?:,\s*|$)\<close> at the start of a text: name, value, and what is left.
\<close>

definition match_attribute :: "str \<Rightarrow> (str \<times> str \<times> str) option" where
  "match_attribute s =
     (let name = takeWhile is_word s
      in if name = [] then None
         else
           (case dropWhile is_word s of
              e # q # t \<Rightarrow>
                if e = CHR ''='' \<and> q = CHR 0x22 then
                  (let v = takeWhile (\<lambda>c. c \<noteq> CHR 0x22 \<and> c \<noteq> CHR 0x5C) t
                   in case dropWhile (\<lambda>c. c \<noteq> CHR 0x22 \<and> c \<noteq> CHR 0x5C) t of
                        d # u \<Rightarrow>
                          if d = CHR 0x22 then
                            (case dropWhile is_space u of
                               [] \<Rightarrow> Some (name, v, [])
                             | k # w \<Rightarrow>
                                 if k = CHR '','' then Some (name, v, dropWhile is_space w) else None)
                          else None
                      | [] \<Rightarrow> None)
                else None
            | _ \<Rightarrow> None))"

lemma dropWhile_tail: "dropWhile P xs = y # ys \<Longrightarrow> length ys < length xs"
  by (induction xs) (auto split: if_splits)

lemma match_attribute_shorter:
  assumes "match_attribute s = Some (k, v, rest)"
  shows "length rest < length s"
proof -
  obtain e q t where t: "dropWhile is_word s = e # q # t"
    using assms by (auto simp: match_attribute_def Let_def split: list.splits if_splits)
  obtain d u where u: "dropWhile (\<lambda>c. c \<noteq> CHR 0x22 \<and> c \<noteq> CHR 0x5C) t = d # u"
    using assms t by (auto simp: match_attribute_def Let_def split: list.splits if_splits)
  have r: "rest = [] \<or> (\<exists>c w. dropWhile is_space u = c # w \<and> rest = dropWhile is_space w)"
    using assms t u by (auto simp: match_attribute_def Let_def split: list.splits if_splits)
  have "length t < length s" using dropWhile_tail [OF t] by simp
  moreover have "length u < length t" using dropWhile_tail [OF u] by simp
  moreover have "length rest \<le> length u"
    using r length_dropWhile_le [of is_space] dropWhile_tail [of is_space u]
    by (metis le_trans less_or_eq_imp_le list.size(3) zero_le)
  ultimately show ?thesis by linarith
qed

text \<open>\<open>_ATTRIBUTE_RE.findall\<close>: from the left, past each match, one character on after a failure.\<close>

function auth_attributes :: "str \<Rightarrow> (str \<times> str) list" where
  "auth_attributes s =
     (case match_attribute s of
        Some (k, v, rest) \<Rightarrow> (k, v) # auth_attributes rest
      | None \<Rightarrow> (case s of [] \<Rightarrow> [] | _ # t \<Rightarrow> auth_attributes t))"
  by pat_completeness auto

termination
  by (relation "measure length") (auto simp: match_attribute_shorter)

declare auth_attributes.simps [simp del]

subsection \<open>The token id\<close>

definition TOKEN_ID_RE :: "str \<Rightarrow> bool" where
  "TOKEN_ID_RE = re_dollar (class_between is_lower_hex 64 64)"

definition no_credential :: "str \<Rightarrow> fxa_exn" where
  "no_credential why = Fxa (unauthorized (Some why))"

definition hawk_id :: "str \<Rightarrow> fxa_exn + str" where
  "hawk_id attributes =
     (let identifier = (case map_of (rev (auth_attributes attributes)) ''id'' of None \<Rightarrow> [] | Some i \<Rightarrow> i)
      in bindr (guardr (TOKEN_ID_RE identifier) (no_credential ''Invalid token id'')) (\<lambda>_. Inr identifier))"

definition bearer_id :: "str \<Rightarrow> token_type \<Rightarrow> fxa_exn + str" where
  "bearer_id body t =
     (let prefix = BEARER_PREFIXES t @ ''_''; identifier = drop (length prefix) body
      in if startswith body prefix \<and> TOKEN_ID_RE identifier then Inr (take 64 identifier)
         else Inl (no_credential ''Invalid token id''))"

definition token_id :: "str option \<Rightarrow> token_type \<Rightarrow> fxa_exn + str option" where
  "token_id header t =
     (case header of
        None \<Rightarrow> Inr None
      | Some h \<Rightarrow>
          if h = [] then Inr None
          else if MAX_HEADER_LENGTH < length h then Inl (no_credential ''Header length too long'')
          else
            (case match_scheme (strip h) of
               None \<Rightarrow> Inl (no_credential ''Invalid header syntax'')
             | Some (scheme, rest) \<Rightarrow>
                 if lower scheme = ''hawk'' then bindr (hawk_id rest) (\<lambda>i. Inr (Some i))
                 else if lower scheme = ''bearer'' then bindr (bearer_id rest t) (\<lambda>i. Inr (Some i))
                 else Inl (no_credential (''Unsupported authentication scheme: '' @ lower scheme))))"

subsection \<open>The credential it names\<close>

record session_credentials =
  sc_token :: session_token
  sc_account :: account

record key_fetch_credentials =
  kc_token :: key_fetch_token
  kc_account :: account

record device_credentials =
  dc_account :: account
  dc_session :: "session_token option"
  dc_refresh :: "refresh_token option"
  dc_client :: "client option"

definition token_not_found :: fxa_exn where
  "token_not_found = no_credential ''Token not found''"

definition optional_session :: "str option \<Rightarrow> database \<Rightarrow> fxa_exn + session_credentials option" where
  "optional_session header db =
     bindr (token_id header SESSION) (\<lambda>identifier.
       (case identifier of
          None \<Rightarrow> Inr None
        | Some i \<Rightarrow>
            bindr (of_option token_not_found (get_session_token i db)) (\<lambda>tok.
            bindr (of_option token_not_found (get_account (st_uid tok) db)) (\<lambda>a.
              Inr (Some \<lparr>sc_token = tok, sc_account = a\<rparr>)))))"

definition session_of :: "str option \<Rightarrow> database \<Rightarrow> fxa_exn + session_credentials" where
  "session_of header db = bindr (optional_session header db) (of_option token_not_found)"

definition key_fetch_of :: "str option \<Rightarrow> database \<Rightarrow> fxa_exn + key_fetch_credentials" where
  "key_fetch_of header db =
     bindr (bindr (token_id header KEY_FETCH) (of_option token_not_found)) (\<lambda>i.
     bindr (of_option token_not_found (get_key_fetch_token i db)) (\<lambda>tok.
     bindr (of_option token_not_found (get_account (kf_uid tok) db)) (\<lambda>a.
       Inr \<lparr>kc_token = tok, kc_account = a\<rparr>)))"

text \<open>\<open>^[Bb]earer\s+([0-9a-f]{64})$\<close>: a refresh token, with no prefix.\<close>

definition match_refresh :: "str \<Rightarrow> str option" where
  "match_refresh header =
     (let rest = drop 6 header; body = dropWhile is_space rest
      in if take 6 header \<in> {''Bearer'', ''bearer''} \<and> body \<noteq> rest \<and> TOKEN_ID_RE body
         then Some (take 64 body) else None)"

definition manages_devices :: "refresh_token \<Rightarrow> fxa_exn + bool" where
  "manages_devices record =
     (if rt_client_id record \<in> set DEVICE_MANAGEMENT_CLIENT_IDS then Inr True
      else bindr (of_option FxaCrash (from_string (rt_scope record))) (\<lambda>scope.
             Inr (intersects scope (scope_constant [OLDSYNC_SCOPE]))))"

definition refresh_credentials :: "registry \<Rightarrow> str \<Rightarrow> database \<Rightarrow> fxa_exn + device_credentials" where
  "refresh_credentials reg token db =
     bindr (of_option FxaCrash (hash_token token)) (\<lambda>token_id.
     bindr (of_option token_not_found (get_refresh_token token_id db)) (\<lambda>record.
     bindr (of_option token_not_found (get_account (rt_uid record) db)) (\<lambda>a.
     bindr (of_option (no_credential ''Unknown client'') (client_get reg (rt_client_id record))) (\<lambda>c.
     bindr (guardr (cl_public_client c) (Fxa client_not_public)) (\<lambda>_.
     bindr (manages_devices record) (\<lambda>ok.
     bindr (guardr ok (no_credential ''Token not allowed to manage devices'')) (\<lambda>_.
       Inr \<lparr>dc_account = a, dc_session = None, dc_refresh = Some record, dc_client = Some c\<rparr>)))))))"

definition device_credentials_of :: "registry \<Rightarrow> str option \<Rightarrow> database \<Rightarrow> fxa_exn + device_credentials" where
  "device_credentials_of reg header db =
     (case (case header of None \<Rightarrow> None | Some [] \<Rightarrow> None | Some h \<Rightarrow> match_refresh (strip h)) of
        None \<Rightarrow>
          bindr (session_of header db) (\<lambda>s.
            Inr \<lparr>dc_account = sc_account s, dc_session = Some (sc_token s), dc_refresh = None,
                 dc_client = None\<rparr>)
      | Some tok \<Rightarrow> refresh_credentials reg tok db)"

definition dc_session_token_id :: "device_credentials \<Rightarrow> str option" where
  "dc_session_token_id c = map_option st_token_id (dc_session c)"

definition dc_refresh_token_id :: "device_credentials \<Rightarrow> str option" where
  "dc_refresh_token_id c = map_option rt_token_id (dc_refresh c)"

end
