(* ===== verification/OauthRoutes.thy ===== *)
theory OauthRoutes
  imports AuthCredentials
begin

text \<open>
  \<open>oauth/routes.py\<close> and the payloads of \<open>oauth/models.py\<close>: from a session to a single-use code,
  from a code, a refresh token or a session to an access token, the metadata of scoped keys,
  and what resource servers and clients ask of a token later. The clock is read once per request.
\<close>

definition PKCE_METHOD :: str where "PKCE_METHOD = ''S256''"
definition MAX_AGE_LEEWAY :: int where "MAX_AGE_LEEWAY = 5"
definition GRANT_AUTHORIZATION_CODE :: str where "GRANT_AUTHORIZATION_CODE = ''authorization_code''"
definition GRANT_REFRESH_TOKEN :: str where "GRANT_REFRESH_TOKEN = ''refresh_token''"
definition GRANT_FXA_CREDENTIALS :: str where "GRANT_FXA_CREDENTIALS = ''fxa-credentials''"

subsection \<open>Payloads\<close>

text \<open>Patterns of the payload models end where the text ends.\<close>

definition valid_client_id :: "str \<Rightarrow> bool" where
  "valid_client_id = class_between is_hex 16 16"

definition hex_value :: "str \<Rightarrow> bool" where
  "hex_value = class_between is_hex 64 64"

definition opt_all :: "('a \<Rightarrow> bool) \<Rightarrow> 'a option \<Rightarrow> bool" where
  "opt_all P v \<longleftrightarrow> (case v of None \<Rightarrow> True | Some x \<Rightarrow> P x)"

definition within_length :: "nat \<Rightarrow> nat \<Rightarrow> str \<Rightarrow> bool" where
  "within_length lo hi s \<longleftrightarrow> lo \<le> length s \<and> length s \<le> hi"

record authorization_request =
  aq_client_id :: str
  aq_state :: str
  aq_response_type :: str
  aq_redirect_uri :: "str option"
  aq_scope :: "str option"
  aq_access_type :: str
  aq_code_challenge_method :: "str option"
  aq_code_challenge :: "str option"
  aq_keys_jwe :: "str option"
  aq_acr_values :: "str option"
  aq_max_age :: "int option"
  aq_service :: "str option"

definition authorization_request_ok :: "authorization_request \<Rightarrow> bool" where
  "authorization_request_ok p \<longleftrightarrow>
     valid_client_id (aq_client_id p) \<and> within_length 0 512 (aq_state p) \<and>
     opt_all (within_length 0 256) (aq_redirect_uri p) \<and> opt_all (within_length 0 2048) (aq_scope p) \<and>
     opt_all (within_length 43 43) (aq_code_challenge p) \<and>
     opt_all (within_length 0 8192) (aq_keys_jwe p) \<and> opt_all (within_length 0 256) (aq_acr_values p) \<and>
     opt_all (\<lambda>n. 0 \<le> n) (aq_max_age p) \<and> opt_all (within_length 0 32) (aq_service p)"

record token_request =
  tq_grant_type :: str
  tq_client_id :: str
  tq_code :: "str option"
  tq_code_verifier :: "str option"
  tq_redirect_uri :: "str option"
  tq_refresh_token :: "str option"
  tq_scope :: "str option"
  tq_access_type :: "str option"
  tq_ttl :: "int option"

definition token_request_ok :: "token_request \<Rightarrow> bool" where
  "token_request_ok p \<longleftrightarrow>
     valid_client_id (tq_client_id p) \<and> opt_all hex_value (tq_code p) \<and>
     opt_all (within_length 43 128) (tq_code_verifier p) \<and>
     opt_all (within_length 0 256) (tq_redirect_uri p) \<and> opt_all hex_value (tq_refresh_token p) \<and>
     opt_all (within_length 0 2048) (tq_scope p) \<and> opt_all (\<lambda>n. 0 < n) (tq_ttl p)"

record destroy_request =
  ds_token :: str
  ds_client_id :: "str option"

record legacy_destroy_request =
  ld_token :: "str option"
  ld_access_token :: "str option"
  ld_refresh_token :: "str option"
  ld_refresh_token_id :: "str option"
  ld_client_id :: "str option"

definition ld_access :: "legacy_destroy_request \<Rightarrow> str option" where
  "ld_access p = (if truthy (ld_access_token p) then ld_access_token p else ld_token p)"

definition exactly_one_token :: "legacy_destroy_request \<Rightarrow> bool" where
  "exactly_one_token p \<longleftrightarrow>
     length (filter (\<lambda>v. v \<noteq> None) [ld_access p, ld_refresh_token p, ld_refresh_token_id p]) = 1"

definition oauth_parameter :: "str \<Rightarrow> fxa_exn" where
  "oauth_parameter name =
     Fxa (oauth_invalid_request_parameter (JObj [(''keys'', JArr [JStr name])]))"

definition find_client :: "'key oauth_env \<Rightarrow> str \<Rightarrow> fxa_exn + client" where
  "find_client env client_id = of_option (Fxa (unknown_client client_id)) (client_get (oe_clients env) client_id)"

subsection \<open>Authorization\<close>

definition choose_redirect :: "client \<Rightarrow> str option \<Rightarrow> fxa_exn + str" where
  "choose_redirect c requested =
     (case requested of
        None \<Rightarrow> Inr (redirect_uri c)
      | Some u \<Rightarrow> if u \<in> set (cl_redirect_uris c) then Inr u else Inl (Fxa (incorrect_redirect (Some u))))"

definition parse_scope :: "str \<Rightarrow> str \<Rightarrow> fxa_exn + scope_set" where
  "parse_scope v name = of_option (oauth_parameter name) (from_string v)"

definition requested_scope :: "authorization_request \<Rightarrow> fxa_exn + scope_set" where
  "requested_scope p =
     (if truthy (aq_scope p) then parse_scope (the (aq_scope p)) ''scope''
      else if truthy (aq_service p) then
        bindr (of_option (oauth_parameter ''service'') (map_of SERVICE_SCOPES (lower (the (aq_service p))))) (\<lambda>resolved.
          of_option FxaCrash (from_array
            (if truthy (aq_keys_jwe p) \<and> KEYS_CONDITIONAL_SCOPE \<notin> set resolved
             then resolved @ [KEYS_CONDITIONAL_SCOPE] else resolved)))
      else Inl (oauth_parameter ''scope''))"

text \<open>\<open>s.split()\<close>: the words between runs of white space.\<close>

fun words_from :: "str \<Rightarrow> str \<Rightarrow> str list" where
  "words_from cur [] = (if cur = [] then [] else [rev cur])"
| "words_from cur (c # s) =
     (if is_space c then (if cur = [] then words_from [] s else rev cur # words_from [] s)
      else words_from (c # cur) s)"

definition split_words :: "str \<Rightarrow> str list" where
  "split_words s = words_from [] s"

definition check_strength :: "authorization_request \<Rightarrow> int \<Rightarrow> int \<Rightarrow> fxa_exn + unit" where
  "check_strength p now_ms auth_at =
     bindr (guardr (\<not> (truthy (aq_acr_values p) \<and> ''AAL2'' \<in> set (split_words (the (aq_acr_values p)))))
        (Fxa (mismatch_acr_values ''1''))) (\<lambda>_.
       guardr (case aq_max_age p of None \<Rightarrow> True | Some m \<Rightarrow> now_ms div 1000 - auth_at \<le> m + MAX_AGE_LEEWAY)
        (Fxa (mismatch_acr_values ''1'')))"

definition check_pkce_parameters :: "client \<Rightarrow> authorization_request \<Rightarrow> fxa_exn + unit" where
  "check_pkce_parameters c p =
     bindr (if cl_public_client c
            then guardr (truthy (aq_code_challenge p) \<and> truthy (aq_code_challenge_method p)) (Fxa missing_pkce_parameters)
            else guardr (\<not> (truthy (aq_code_challenge p) \<or> truthy (aq_code_challenge_method p)))
                   (Fxa (not_public_client (cl_id c)))) (\<lambda>_.
       guardr (\<not> truthy (aq_code_challenge_method p) \<or> aq_code_challenge_method p = Some PKCE_METHOD)
         (oauth_parameter ''code_challenge_method''))"

definition redirect_with_code :: "(str \<Rightarrow> (str \<times> str) list) \<Rightarrow> str \<Rightarrow> str \<Rightarrow> str \<Rightarrow> fxa_exn + str" where
  "redirect_with_code parse_qsl uri code state =
     bindr (of_option FxaCrash (urlsplit uri)) (\<lambda>parts.
       let query = fold (\<lambda>(k, v). dict_set k v) (parse_qsl (url_query parts)) []
       in Inr (urlunsplit (parts\<lparr>url_query := urlencode (dict_set ''state'' state (dict_set ''code'' code query))\<rparr>)))"

record authorization_response =
  ar_code :: str
  ar_state :: str
  ar_redirect :: str
  ar_scope :: str

definition new_code ::
  "session_credentials \<Rightarrow> client \<Rightarrow> authorization_request \<Rightarrow> grant \<Rightarrow> int \<Rightarrow> str \<Rightarrow> oauth_code" where
  "new_code cred c p g now_ms code_hash =
     \<lparr>oc_code = code_hash, oc_uid = gr_uid g, oc_client_id = cl_id c, oc_scope = scope_str (gr_scope g),
      oc_created_at = now_ms, oc_auth_at = st_auth_at (sc_token cred),
      oc_code_challenge = aq_code_challenge p, oc_code_challenge_method = aq_code_challenge_method p,
      oc_keys_jwe = aq_keys_jwe p, oc_session_token_id = Some (st_token_id (sc_token cred)),
      oc_offline = gr_offline g\<rparr>"

text \<open>What the handler decides before it writes: the client, the redirect and the grant.\<close>

definition authorize ::
  "'key oauth_env \<Rightarrow> session_credentials \<Rightarrow> authorization_request \<Rightarrow> int \<Rightarrow> fxa_exn + client \<times> str \<times> grant" where
  "authorize env cred p now_ms =
     bindr (guardr (aq_response_type p = ''code'') (Fxa invalid_response_type)) (\<lambda>_.
     bindr (find_client env (aq_client_id p)) (\<lambda>c.
     bindr (choose_redirect c (aq_redirect_uri p)) (\<lambda>uri.
     bindr (requested_scope p) (\<lambda>scope.
     bindr (check_strength p now_ms (last_auth_at (sc_token cred))) (\<lambda>_.
     bindr (check_pkce_parameters c p) (\<lambda>_.
     bindr (validate_requested_grant (claims_for_session (sc_account cred) (sc_token cred)) c
         \<lparr>gq_scope = scope, gq_access_type = aq_access_type p, gq_keys_jwe = aq_keys_jwe p\<rparr>) (\<lambda>g.
       Inr (c, uri, g))))))))"

definition oauth_authorization ::
  "'key oauth_env \<Rightarrow> str option \<Rightarrow> authorization_request \<Rightarrow> int \<Rightarrow> str \<Rightarrow> database \<Rightarrow> authorization_response fxa_result" where
  "oauth_authorization env header p now_ms code db =
     andthen (session_of header db, db) (\<lambda>cred db.
     andthen (authorize env cred p now_ms, db) (\<lambda>(c, uri, g) db.
     andthen (of_option FxaCrash (hash_token code), snd (delete_expired_oauth_codes (now_ms - oe_code_ttl env * 1000) db)) (\<lambda>code_hash db.
     andthen (insert_row (create_oauth_code (new_code cred c p g now_ms code_hash) db) db) (\<lambda>_ db.
     andthen (redirect_with_code (oe_parse_qsl env) uri code (aq_state p), db) (\<lambda>redirect db.
       (Inr \<lparr>ar_code = code, ar_state = aq_state p, ar_redirect = redirect, ar_scope = scope_str (gr_scope g)\<rparr>, db))))))"

subsection \<open>Tokens\<close>

text \<open>\<open>hmac.compare_digest\<close>, a \<open>TypeError\<close> unless both texts are ASCII.\<close>

definition same_digest :: "str \<Rightarrow> str \<Rightarrow> fxa_exn + bool" where
  "same_digest a b = (if isascii a \<and> isascii b then Inr (a = b) else Inl FxaCrash)"

definition pkce_challenge :: "str \<Rightarrow> str option" where
  "pkce_challenge verifier = map_option (\<lambda>bs. b64u_encode (sha256 bs)) (encode_ascii verifier)"

definition check_code_verifier :: "oauth_code \<Rightarrow> str option \<Rightarrow> fxa_exn + unit" where
  "check_code_verifier code verifier =
     (if truthy (oc_code_challenge code) then
        bindr (guardr (oc_code_challenge_method code = Some PKCE_METHOD) (Fxa (mismatch_code_challenge None))) (\<lambda>_.
        bindr (guardr (truthy verifier) (Fxa missing_pkce_parameters)) (\<lambda>_.
        bindr (of_option FxaCrash (pkce_challenge (the verifier))) (\<lambda>challenge.
        bindr (same_digest (the (oc_code_challenge code)) challenge) (\<lambda>same.
          guardr same (Fxa (mismatch_code_challenge (Some challenge)))))))
      else if truthy verifier then
        bindr (of_option FxaCrash (pkce_challenge (the verifier))) (\<lambda>challenge.
          Inl (Fxa (mismatch_code_challenge (Some challenge))))
      else Inr ())"

definition grant_from_code :: "client \<Rightarrow> account \<Rightarrow> oauth_code \<Rightarrow> fxa_exn + grant" where
  "grant_from_code c a code =
     bindr (of_option FxaCrash (from_string (oc_scope code))) (\<lambda>scope.
       Inr \<lparr>gr_client = c, gr_uid = acc_uid a, gr_email = acc_email a, gr_scope = scope,
            gr_auth_at = oc_auth_at code div 1000, gr_generation = acc_verifier_set_at a,
            gr_profile_changed_at = acc_profile_changed_at a, gr_keys_changed_at = acc_keys_changed_at a,
            gr_amr = [''pwd'', ''email''], gr_aal = 1, gr_session_token_id = oc_session_token_id code,
            gr_keys_jwe = oc_keys_jwe code, gr_offline = oc_offline code, gr_key_bearing = []\<rparr>)"

definition code_lookup :: "client \<Rightarrow> token_request \<Rightarrow> database \<Rightarrow> fxa_exn + str \<times> oauth_code" where
  "code_lookup c p db =
     bindr (of_option (oauth_parameter ''code'') (tq_code p)) (\<lambda>given.
     bindr (guardr (\<not> (truthy (tq_code_verifier p) \<and> \<not> cl_public_client c)) (Fxa (not_public_client (cl_id c)))) (\<lambda>_.
     bindr (of_option FxaCrash (hash_token given)) (\<lambda>h.
     bindr (of_option (Fxa (unknown_code given)) (get_oauth_code h db)) (\<lambda>code.
     bindr (same_digest (oc_client_id code) (cl_id c)) (\<lambda>same.
     bindr (guardr same (Fxa (mismatch_code given (cl_id c)))) (\<lambda>_.
       Inr (given, code)))))))"

definition authorization_code_grant ::
  "client \<Rightarrow> token_request \<Rightarrow> int \<Rightarrow> int \<Rightarrow> database \<Rightarrow> grant fxa_result" where
  "authorization_code_grant c p code_ttl now_ms db =
     andthen (code_lookup c p db, db) (\<lambda>(given, code) db.
       let expires_at = oc_created_at code + code_ttl * 1000
       in if expires_at < now_ms
          then (Inl (Fxa (expired_code given expires_at)), snd (delete_oauth_code (oc_code code) db))
          else
            andthen (check_code_verifier code (tq_code_verifier p), db) (\<lambda>_ db.
            andthen (of_option (Fxa oauth_invalid_token) (get_account (oc_uid code) db),
                     snd (delete_oauth_code (oc_code code) db)) (\<lambda>a db.
              (grant_from_code c a code, db))))"

definition widest_scope :: "client \<Rightarrow> scope_set \<Rightarrow> scope_set" where
  "widest_scope c held =
     (if cl_trusted c then union_scopes (union_scopes held (cl_allowed_scopes c)) TRUSTED_ALLOWED_SCOPES
      else held)"

definition refreshed_scope :: "client \<Rightarrow> scope_set \<Rightarrow> str option \<Rightarrow> fxa_exn + scope_set" where
  "refreshed_scope c held asked =
     (if truthy asked then
        bindr (parse_scope (the asked) ''scope'') (\<lambda>requested.
        bindr (guardr (contains held requested \<or> contains (widest_scope c held) requested)
            (Fxa (invalid_scopes (scope_values (difference requested held))))) (\<lambda>_.
          Inr (difference requested NON_REFRESHABLE_SCOPES)))
      else Inr (difference held NON_REFRESHABLE_SCOPES))"

definition refresh_token_grant :: "client \<Rightarrow> token_request \<Rightarrow> int \<Rightarrow> database \<Rightarrow> grant fxa_result" where
  "refresh_token_grant c p now_ms db =
     andthen (of_option (oauth_parameter ''refresh_token'') (tq_refresh_token p), db) (\<lambda>given db.
     andthen (of_option FxaCrash (hash_token given), db) (\<lambda>h db.
     andthen (of_option (Fxa oauth_invalid_token) (get_refresh_token h db), db) (\<lambda>tok db.
     andthen (same_digest (rt_client_id tok) (cl_id c), db) (\<lambda>same db.
     andthen (guardr same (Fxa oauth_invalid_token), db) (\<lambda>_ db.
     andthen (of_option FxaCrash (from_string (rt_scope tok)), db) (\<lambda>held db.
     andthen (refreshed_scope c held (tq_scope p), db) (\<lambda>scope db.
     andthen (of_option (Fxa oauth_invalid_token) (get_account (rt_uid tok) db), db) (\<lambda>a db.
       (Inr \<lparr>gr_client = c, gr_uid = acc_uid a, gr_email = acc_email a, gr_scope = scope, gr_auth_at = 0,
             gr_generation = acc_verifier_set_at a, gr_profile_changed_at = acc_profile_changed_at a,
             gr_keys_changed_at = acc_keys_changed_at a, gr_amr = [], gr_aal = 0, gr_session_token_id = None,
             gr_keys_jwe = None, gr_offline = False, gr_key_bearing = []\<rparr>,
        touch_refresh_token (rt_token_id tok) now_ms db)))))))))"

definition fxa_credentials_grant ::
  "str option \<Rightarrow> client \<Rightarrow> token_request \<Rightarrow> database \<Rightarrow> fxa_exn + grant" where
  "fxa_credentials_grant header c p db =
     bindr (guardr (cl_can_grant c) (Fxa invalid_grant_type)) (\<lambda>_.
     bindr (guardr (cl_public_client c) (Fxa (not_public_client (cl_id c)))) (\<lambda>_.
     bindr (of_option (oauth_parameter ''scope'') (tq_scope p)) (\<lambda>asked.
     bindr (bindr (optional_session header db) (of_option token_not_found)) (\<lambda>cred.
     bindr (parse_scope asked ''scope'') (\<lambda>scope.
       validate_requested_grant (claims_for_session (sc_account cred) (sc_token cred)) c
         \<lparr>gq_scope = scope,
          gq_access_type = (if truthy (tq_access_type p) then the (tq_access_type p) else ''online''),
          gq_keys_jwe = None\<rparr>)))))"

definition grant_for ::
  "'key oauth_env \<Rightarrow> str option \<Rightarrow> client \<Rightarrow> token_request \<Rightarrow> int \<Rightarrow> database \<Rightarrow> grant fxa_result" where
  "grant_for env header c p now_ms db =
     (if tq_grant_type p = GRANT_AUTHORIZATION_CODE then
        authorization_code_grant c p (oe_code_ttl env) now_ms db
      else if tq_grant_type p = GRANT_REFRESH_TOKEN then refresh_token_grant c p now_ms db
      else if tq_grant_type p = GRANT_FXA_CREDENTIALS then (fxa_credentials_grant header c p db, db)
      else (Inl (Fxa invalid_grant_type), db))"

definition token_ttl :: "'key oauth_env \<Rightarrow> token_request \<Rightarrow> int" where
  "token_ttl env p =
     min (case tq_ttl p of Some t \<Rightarrow> if t \<noteq> 0 then t else oe_access_ttl env | None \<Rightarrow> oe_access_ttl env)
       (oe_access_ttl env)"

definition oauth_token ::
  "'key oauth_env \<Rightarrow> str option \<Rightarrow> token_request \<Rightarrow> int \<Rightarrow> str \<Rightarrow> str \<Rightarrow> database \<Rightarrow> token_response fxa_result" where
  "oauth_token env header p now_ms jti fresh db =
     andthen (find_client env (tq_client_id p), db) (\<lambda>c db.
     andthen (guardr (tq_access_type p = None \<or> tq_grant_type p = GRANT_FXA_CREDENTIALS)
         (oauth_parameter ''access_type''), db) (\<lambda>_ db.
     andthen (grant_for env header c p now_ms db) (\<lambda>g db.
       generate_tokens env g (token_ttl env p) now_ms jti fresh db)))"

end
