(* ===== verification/OauthResource.thy ===== *)
theory OauthResource
  imports OauthRoutes
begin

text \<open>
  The rest of \<open>oauth/routes.py\<close>, and \<open>oauth/keys.py\<close>: metadata of scoped keys, the registry's and
  the keys' public faces, what an access token says (\<open>verify\<close>, \<open>introspect\<close>), and revocation.
\<close>

subsection \<open>Scoped keys and clients\<close>

definition scoped_key_entry :: "str \<Rightarrow> int \<Rightarrow> json" where
  "scoped_key_entry v rotated =
     JObj [(''identifier'', JStr v), (''keyRotationSecret'', JStr (hex_of NULL_KEY_ROTATION_SECRET)),
       (''keyRotationTimestamp'', JInt rotated)]"

definition scoped_key_data ::
  "'key oauth_env \<Rightarrow> str option \<Rightarrow> str \<Rightarrow> str \<Rightarrow> database \<Rightarrow> fxa_exn + (str \<times> json) list" where
  "scoped_key_data env header client_id asked db =
     bindr (session_of header db) (\<lambda>cred.
     bindr (find_client env client_id) (\<lambda>c.
     bindr (parse_scope asked ''scope'') (\<lambda>scope.
     let claims = claims_for_session (sc_account cred) (sc_token cred) in
     bindr (validate_requested_grant claims c
         \<lparr>gq_scope = scope, gq_access_type = ''online'', gq_keys_jwe = None\<rparr>) (\<lambda>g.
     let rotated = max (acc_keys_changed_at (sc_account cred)) 0 in
     bindr (guardr (\<not> sl_last_auth_at claims < rotated div 1000) (Fxa (stale_auth_at (sl_last_auth_at claims)))) (\<lambda>_.
       Inr (map (\<lambda>v. (v, scoped_key_entry v rotated)) (gr_key_bearing g)))))))"

definition client_info :: "'key oauth_env \<Rightarrow> str \<Rightarrow> fxa_exn + (str \<times> json) list" where
  "client_info env client_id =
     bindr (find_client env client_id) (\<lambda>c.
       Inr [(''id'', JStr (cl_id c)), (''name'', JStr (cl_name c)), (''trusted'', JBool (cl_trusted c)),
            (''image_uri'', JStr (cl_image_uri c)), (''redirect_uri'', JStr (redirect_uri c))])"

subsection \<open>Signing keys\<close>

record loaded_keys =
  lk_private :: rsa_numbers
  lk_kid :: str
  lk_verifiers :: "(json \<times> (nat \<times> nat)) list"
  lk_jwks :: "(str \<times> json) list list"

text \<open>
  \<open>keys.load\<close> on the parsed files. \<open>None\<close> is an exception: an unusable or nameless key, a retired
  key without its members, or one with the active key's id.
\<close>

definition load_keys :: "(str \<times> json) list \<Rightarrow> (str \<times> json) list option \<Rightarrow> loaded_keys option" where
  "load_keys private_jwk retired_jwk =
     Option.bind (jwk_to_private_key private_jwk) (\<lambda>private.
     Option.bind (case obj_get private_jwk ''kid'' of JStr (c # s) \<Rightarrow> Some (c # s) | _ \<Rightarrow> None) (\<lambda>kid.
     Option.bind (public_jwk private_jwk) (\<lambda>public.
     let active = \<lparr>lk_private = private, lk_kid = kid,
           lk_verifiers = [(JStr kid, (rsa_n private, rsa_e private))], lk_jwks = [public]\<rparr> in
       (case retired_jwk of
          None \<Rightarrow> Some active
        | Some given \<Rightarrow>
            Option.bind (public_jwk given) (\<lambda>retired.
            if obj_get retired ''kid'' = JStr kid then None
            else
              Option.bind (jwk_to_public_key retired) (\<lambda>key.
                Some (active\<lparr>lk_verifiers := lk_verifiers active @ [(obj_get retired ''kid'', key)],
                  lk_jwks := [public, retired]\<rparr>)))))))"

subsection \<open>Access tokens\<close>

text \<open>
  The handler looks for \<open>expired\<close> in the text of the \<open>JWTError\<close>: the expiry message has it, and
  so has the message that quotes an algorithm or a key id containing the word.
\<close>

definition repr_says :: "json_lib \<Rightarrow> json \<Rightarrow> str \<Rightarrow> bool" where
  "repr_says jl v word =
     (case v of
        JStr s \<Rightarrow> contains_sub s word
      | JArr _ \<Rightarrow> contains_sub (container_repr jl v) word
      | JObj _ \<Rightarrow> contains_sub (container_repr jl v) word
      | _ \<Rightarrow> False)"

definition signed_claims :: "'key oauth_env \<Rightarrow> str \<Rightarrow> (str \<times> json) list option" where
  "signed_claims env token =
     (case split CHR ''.'' token of
        [h, p, sig] \<Rightarrow>
          Option.bind (decode_jwt_header (oe_json env) token) (\<lambda>header.
          Option.bind (key_for (KeyMap (oe_verifiers env)) header) (\<lambda>key.
          Option.bind (b64u_decode sig) (\<lambda>signature.
          Option.bind (encode_ascii (signing_input h p)) (\<lambda>m.
            if rsa_verify (oe_rsa env) key signature m then json_object (oe_json env) p else None))))
      | _ \<Rightarrow> None)"

definition jwt_says_expired :: "'key oauth_env \<Rightarrow> int \<Rightarrow> str \<Rightarrow> bool" where
  "jwt_says_expired env now token =
     (if MAX_JWT_LENGTH < length token \<or> length (split CHR ''.'' token) \<noteq> 3 then False
      else
        (case decode_jwt_header (oe_json env) token of
           None \<Rightarrow> False
         | Some header \<Rightarrow>
             if obj_get header ''alg'' \<noteq> JStr ALGORITHM then repr_says (oe_json env) (obj_get header ''alg'') ''expired''
             else if key_for (KeyMap (oe_verifiers env)) header = None
             then repr_says (oe_json env) (obj_get header ''kid'') ''expired''
             else
               (case signed_claims env token of
                  None \<Rightarrow> False
                | Some claims \<Rightarrow>
                    (case (numeric_date claims ''exp'', numeric_date claims ''iat'') of
                       (Some (Some e), Some _) \<Rightarrow> date_past now 0 e
                     | _ \<Rightarrow> False))))"

definition verified_claims :: "'key oauth_env \<Rightarrow> int \<Rightarrow> str \<Rightarrow> fxa_exn + (str \<times> json) list" where
  "verified_claims env now token =
     (case verify_jwt (oe_json env) (oe_rsa env) (KeyMap (oe_verifiers env)) now 0 token of
        None \<Rightarrow> Inl (Fxa (if jwt_says_expired env now token then expired_token 0 else oauth_invalid_token))
      | Some claims \<Rightarrow>
          bindr (of_option FxaCrash (decode_jwt_header (oe_json env) token)) (\<lambda>header.
          bindr (guardr (obj_get header ''typ'' = JStr ACCESS_TOKEN_TYP) (Fxa oauth_invalid_token)) (\<lambda>_.
          bindr (guardr (obj_get claims ''iss'' = JStr (oe_public_url env) \<and> map_of claims ''sub'' \<noteq> None)
              (Fxa oauth_invalid_token)) (\<lambda>_.
            Inr claims))))"

text \<open>\<open>claims[name]\<close>, and a scope set of whatever \<open>scope\<close> holds.\<close>

definition must_have :: "(str \<times> json) list \<Rightarrow> str \<Rightarrow> fxa_exn + json" where
  "must_have claims name = of_option FxaCrash (map_of claims name)"

definition claimed_scope :: "(str \<times> json) list \<Rightarrow> fxa_exn + scope_set" where
  "claimed_scope claims =
     (case get_or claims ''scope'' (JStr []) of
        JStr s \<Rightarrow> of_option FxaCrash (from_string s)
      | _ \<Rightarrow> Inl FxaCrash)"

definition copied :: "(str \<times> json) list \<Rightarrow> str \<Rightarrow> str \<Rightarrow> (str \<times> json) list" where
  "copied claims name as_name = (case map_of claims name of None \<Rightarrow> [] | Some v \<Rightarrow> [(as_name, v)])"

definition oauth_verify :: "'key oauth_env \<Rightarrow> str \<Rightarrow> int \<Rightarrow> fxa_exn + (str \<times> json) list" where
  "oauth_verify env token now_ms =
     bindr (verified_claims env (now_ms div 1000) token) (\<lambda>claims.
     bindr (must_have claims ''sub'') (\<lambda>user.
     bindr (must_have claims ''client_id'') (\<lambda>client_id.
     bindr (claimed_scope claims) (\<lambda>scope.
       Inr ([(''user'', user), (''client_id'', client_id),
             (''scope'', JArr (map JStr (scope_values scope)))] @
            copied claims ''fxa-generation'' ''generation'' @
            copied claims ''fxa-profileChangedAt'' ''profile_changed_at'')))))"

text \<open>\<open>claims["iat"] * 1000\<close> for the numbers a verified token carries.\<close>

fun times_1000 :: "json \<Rightarrow> json" where
  "times_1000 (JInt n) = JInt (n * 1000)"
| "times_1000 (JFloat (PFin r)) = JFloat (to_float (r * 1000))"
| "times_1000 v = v"

definition access_description :: "(str \<times> json) list \<Rightarrow> fxa_exn + (str \<times> json) list" where
  "access_description claims =
     bindr (must_have claims ''client_id'') (\<lambda>client_id.
     bindr (must_have claims ''iat'') (\<lambda>iat.
     bindr (must_have claims ''exp'') (\<lambda>ex.
     bindr (must_have claims ''sub'') (\<lambda>sub.
     bindr (must_have claims ''jti'') (\<lambda>jti.
       Inr ([(''active'', JBool True), (''scope'', get_or claims ''scope'' (JStr [])), (''client_id'', client_id),
             (''token_type'', JStr ''access_token''), (''iat'', times_1000 iat), (''exp'', times_1000 ex),
             (''sub'', sub), (''jti'', jti)] @
            copied claims ''acr'' ''acr'' @ copied claims ''auth_time'' ''auth_time''))))))"

definition describe_access_token ::
  "'key oauth_env \<Rightarrow> str \<Rightarrow> int \<Rightarrow> fxa_exn + (str \<times> json) list option" where
  "describe_access_token env token now_ms =
     (case verified_claims env (now_ms div 1000) token of
        Inl (Fxa _) \<Rightarrow> Inr None
      | Inl FxaCrash \<Rightarrow> Inl FxaCrash
      | Inr claims \<Rightarrow> bindr (access_description claims) (\<lambda>d. Inr (Some d)))"

definition describe_refresh_token :: "str \<Rightarrow> database \<Rightarrow> fxa_exn + (str \<times> json) list option" where
  "describe_refresh_token token db =
     bindr (of_option FxaCrash (hash_token token)) (\<lambda>h.
       Inr (case get_refresh_token h db of
              None \<Rightarrow> None
            | Some r \<Rightarrow>
                Some [(''active'', JBool True), (''scope'', JStr (rt_scope r)), (''client_id'', JStr (rt_client_id r)),
                  (''token_type'', JStr ''refresh_token''), (''iat'', JInt (rt_created_at r)),
                  (''sub'', JStr (rt_uid r)), (''jti'', JStr h), (''fxa-lastUsedAt'', JInt (rt_last_used_at r))]))"

definition first_description ::
  "fxa_exn + (str \<times> json) list option \<Rightarrow> fxa_exn + (str \<times> json) list option \<Rightarrow> fxa_exn + (str \<times> json) list" where
  "first_description a b =
     bindr a (\<lambda>x. case x of
        Some d \<Rightarrow> Inr d
      | None \<Rightarrow> bindr b (\<lambda>y. case y of Some d \<Rightarrow> Inr d | None \<Rightarrow> Inr [(''active'', JBool False)]))"

definition introspect ::
  "'key oauth_env \<Rightarrow> str \<Rightarrow> str option \<Rightarrow> int \<Rightarrow> database \<Rightarrow> fxa_exn + (str \<times> json) list" where
  "introspect env token hint now_ms db =
     (let access = describe_access_token env token now_ms; refresh = describe_refresh_token token db
      in if hint = Some ''refresh_token'' then first_description refresh access
         else first_description access refresh)"

subsection \<open>Revocation\<close>

definition revoke :: "refresh_token option \<Rightarrow> str option \<Rightarrow> database \<Rightarrow> unit fxa_result" where
  "revoke found client_id db =
     (case found of
        None \<Rightarrow> (Inr (), db)
      | Some tok \<Rightarrow>
          andthen (if truthy client_id then same_digest (rt_client_id tok) (lower (the client_id)) else Inr True, db) (\<lambda>same db.
          andthen (guardr same (Fxa oauth_invalid_token), db) (\<lambda>_ db.
            (Inr (), snd (delete_refresh_token (rt_token_id tok) db)))))"

definition oauth_destroy :: "destroy_request \<Rightarrow> database \<Rightarrow> unit fxa_result" where
  "oauth_destroy p db =
     andthen (of_option FxaCrash (hash_token (ds_token p)), db) (\<lambda>h db.
       revoke (get_refresh_token h db) (ds_client_id p) db)"

definition legacy_destroy :: "legacy_destroy_request \<Rightarrow> database \<Rightarrow> unit fxa_result" where
  "legacy_destroy p db =
     (if ld_access p \<noteq> None then (Inr (), db)
      else
        andthen (if truthy (ld_refresh_token_id p) then Inr (the (ld_refresh_token_id p))
                 else of_option FxaCrash (hash_token (case ld_refresh_token p of Some t \<Rightarrow> t | None \<Rightarrow> [])), db) (\<lambda>h db.
          revoke (get_refresh_token h db) (ld_client_id p) db))"

end
