(* ===== verification/OauthFacts.thy ===== *)
theory OauthFacts
  imports OauthResource DbFacts
begin

text \<open>
  What holds of grants and of what the OAuth routes store: a client's registration, the invariant
  that no stored scope exceeds it, and the state each route leaves.
\<close>

subsection \<open>Constant scope sets\<close>

lemma scope_constant_ok [simp]: "scope_ok (scope_constant vs)"
  by (auto simp: scope_constant_def from_array_Some(1) split: option.split)

lemma scope_constant_grants:
  assumes "grants (scope_constant vs) x"
  obtains v where "v \<in> set vs" "implies v x"
  using assms from_array_Some(2) [of vs] by (auto simp: scope_constant_def split: option.splits)

lemma constant_denies: "(\<And>v. v \<in> set vs \<Longrightarrow> \<not> implies v x) \<Longrightarrow> \<not> grants (scope_constant vs) x"
  by (blast elim: scope_constant_grants)

lemma fixed_scopes_ok [simp]:
  "scope_ok TRUSTED_ALLOWED_SCOPES" "scope_ok UNTRUSTED_ALLOWED_SCOPES" "scope_ok NON_REFRESHABLE_SCOPES"
  by (simp_all add: TRUSTED_ALLOWED_SCOPES_def UNTRUSTED_ALLOWED_SCOPES_def NON_REFRESHABLE_SCOPES_def)

lemma oldsync_valid: "implicants OLDSYNC_SCOPE \<noteq> None"
  by code_simp

lemma handful_without_oldsync:
  "\<not> grants TRUSTED_ALLOWED_SCOPES OLDSYNC_SCOPE" "\<not> grants UNTRUSTED_ALLOWED_SCOPES OLDSYNC_SCOPE"
proof -
  obtain imps where i: "implicants OLDSYNC_SCOPE = Some imps" using oldsync_valid by auto
  let ?short = "[''openid'', ''profile'', ''email'', ''profile:subscriptions'', ''profile:uid'',
      ''profile:email'', ''profile:display_name'']"
  have "list_all (\<lambda>v. \<not> list_ex (\<lambda>x. x = v) (the (implicants OLDSYNC_SCOPE))) ?short" by code_simp
  then have "\<forall>v \<in> set ?short. v \<notin> set imps" unfolding i option.sel list_all_iff list_ex_iff by blast
  then have none: "\<not> implies v OLDSYNC_SCOPE" if "v \<in> set ?short" for v
    using that unfolding implies_def i by blast
  have sub: "set [''openid'', ''profile'', ''email'', ''profile:subscriptions''] \<subseteq> set ?short"
    "set [''openid'', ''profile:uid'', ''profile:email'', ''profile:display_name''] \<subseteq> set ?short" by simp_all
  show "\<not> grants TRUSTED_ALLOWED_SCOPES OLDSYNC_SCOPE"
    unfolding TRUSTED_ALLOWED_SCOPES_def by (rule constant_denies, rule none, erule subsetD [OF sub(1)])
  show "\<not> grants UNTRUSTED_ALLOWED_SCOPES OLDSYNC_SCOPE"
    unfolding UNTRUSTED_ALLOWED_SCOPES_def by (rule constant_denies, rule none, erule subsetD [OF sub(2)])
qed

lemma covers_oldsync_grants: "covers_oldsync s \<longleftrightarrow> grants s OLDSYNC_SCOPE"
proof -
  have a: "from_array [OLDSYNC_SCOPE] = Some (scope_constant [OLDSYNC_SCOPE])"
    using oldsync_valid by (simp add: scope_constant_def from_array_def add_values_all)
  have "implies OLDSYNC_SCOPE OLDSYNC_SCOPE" using oldsync_valid implies_self by blast
  then show ?thesis
    unfolding covers_oldsync_def contains_iff_granted [OF from_array_Some(1) [OF a]] from_array_Some(2) [OF a]
    using grants_trans by auto
qed

subsection \<open>A client's registration\<close>

text \<open>All a client may ever hold: its own list, and the handful of its kind.\<close>

definition handful :: "client \<Rightarrow> scope_set" where
  "handful c = (if cl_trusted c then TRUSTED_ALLOWED_SCOPES else UNTRUSTED_ALLOWED_SCOPES)"

definition registration :: "client \<Rightarrow> scope_set" where
  "registration c = union_scopes (cl_allowed_scopes c) (handful c)"

lemma handful_ok [simp]: "scope_ok (handful c)"
  by (simp add: handful_def)

lemma registration_grants:
  "scope_ok (cl_allowed_scopes c) \<Longrightarrow>
     grants (registration c) x \<longleftrightarrow> grants (cl_allowed_scopes c) x \<or> grants (handful c) x"
  by (simp add: registration_def union_grants(2))

lemma within_registration_oldsync:
  assumes "scope_ok (cl_allowed_scopes c)" "scope_ok s" "contains (registration c) s" "covers_oldsync s"
  shows "grants (cl_allowed_scopes c) OLDSYNC_SCOPE"
  using assms handful_without_oldsync
  by (auto simp: covers_oldsync_grants contains_iff_granted registration_grants handful_def split: if_splits)

subsection \<open>Validated grants\<close>

lemma validated_parts:
  assumes "validate_requested_grant claims c rq = Inr g"
  shows "untrusted_ok c (gq_scope rq) = Inr ()" "key_bearing_ok c (gq_scope rq) = Inr ()"
    "trusted_trim c (gq_scope rq) = Inr (gr_scope g)" "gr_client g = c"
    "gr_key_bearing g = key_bearing_of (gq_scope rq)" "gr_uid g = sl_uid claims"
    "gr_keys_jwe g = gq_keys_jwe rq"
  using assms by (auto simp: validate_requested_grant_def bindr_eq_Inr)

lemma key_bearing_allowed:
  assumes "key_bearing_ok c scope = Inr ()" "k \<in> set (key_bearing_of scope)"
  shows "grants (cl_allowed_scopes c) k"
proof -
  obtain asked where a: "from_array (key_bearing_of scope) = Some asked"
    "is_empty_set (difference asked (cl_allowed_scopes c))"
    using assms by (auto simp: key_bearing_ok_def bindr_eq_Inr Let_def split: if_splits)
  then have e: "\<forall>v \<in> set (scope_values asked). grants (cl_allowed_scopes c) v"
    using difference_scopes(2) [OF from_array_Some(1) [OF a(1)]]
    by (auto simp: is_empty_values filter_empty_conv)
  have "\<forall>v \<in> set (key_bearing_of scope). implicants v \<noteq> None"
    using a(1) by (auto simp: from_array_def add_values_all split: if_splits)
  then have "implies k k" using assms(2) implies_self by blast
  then have "grants asked k" using assms(2) from_array_Some(2) [OF a(1)] by blast
  then obtain a where "a \<in> set (scope_values asked)" "implies a k" by (auto simp: grants_def)
  then show ?thesis using e grants_trans by blast
qed

lemma trimmed_scope:
  assumes "untrusted_ok c s = Inr ()" "trusted_trim c s = Inr t"
    and ok: "scope_ok s" "scope_ok (cl_allowed_scopes c)"
  shows "scope_ok t" "set (scope_values t) \<subseteq> set (scope_values s)" "contains (registration c) t"
proof -
  have t: "scope_ok t \<and> set (scope_values t) \<subseteq> set (scope_values s) \<and>
      (\<forall>x \<in> set (scope_values t). grants (registration c) x)"
  proof (cases "cl_trusted c")
    case True
    then have "t = filtered s (registration c)"
      using assms(2) by (auto simp: trusted_trim_def registration_def handful_def Let_def bindr_eq_Inr)
    then show ?thesis using filtered_scopes [OF ok(1)] by auto
  next
    case False
    then have "t = s" "is_empty_set (difference s UNTRUSTED_ALLOWED_SCOPES)"
      using assms(1,2) by (auto simp: trusted_trim_def untrusted_ok_def Let_def)
    then show ?thesis using False difference_scopes(2) [OF ok(1)] ok
      by (auto simp: is_empty_values filter_empty_conv registration_grants handful_def)
  qed
  then show "scope_ok t" "set (scope_values t) \<subseteq> set (scope_values s)" "contains (registration c) t"
    by (auto simp: contains_grants)
qed

lemma validated_scope:
  assumes "validate_requested_grant claims c rq = Inr g" "scope_ok (gq_scope rq)" "scope_ok (cl_allowed_scopes c)"
  shows "scope_ok (gr_scope g)" "contains (registration c) (gr_scope g)"
    "set (scope_values (gr_scope g)) \<subseteq> set (scope_values (gq_scope rq))"
    "k \<in> set (gr_key_bearing g) \<Longrightarrow> grants (cl_allowed_scopes c) k"
  using validated_parts [OF assms(1)] trimmed_scope [OF _ _ assms(2,3)] key_bearing_allowed by auto

lemma requested_scope_ok: "requested_scope p = Inr s \<Longrightarrow> scope_ok s"
  by (auto simp: requested_scope_def parse_scope_def bindr_eq_Inr split: if_splits
      dest: from_string_Some(1) from_array_Some(1))

subsection \<open>What is stored\<close>

text \<open>A stored scope reads back, and the client it was given to is registered for it.\<close>

definition stored_scope_ok :: "'key oauth_env \<Rightarrow> str \<Rightarrow> str \<Rightarrow> bool" where
  "stored_scope_ok env client_id scope \<longleftrightarrow>
     (case from_string scope of
        None \<Rightarrow> False
      | Some s \<Rightarrow>
          (case client_get (oe_clients env) client_id of
             None \<Rightarrow> True
           | Some c \<Rightarrow> contains (registration c) s))"

definition oauth_inv :: "'key oauth_env \<Rightarrow> database \<Rightarrow> bool" where
  "oauth_inv env db \<longleftrightarrow>
     (\<forall>c \<in> set (db_oauth_codes db). stored_scope_ok env (oc_client_id c) (oc_scope c)) \<and>
     (\<forall>t \<in> set (db_refresh_tokens db). stored_scope_ok env (rt_client_id t) (rt_scope t))"

lemma registry_client:
  assumes "registry_ok reg" "client_get reg i = Some c"
  shows "scope_ok (cl_allowed_scopes c)" "client_get reg (cl_id c) = Some c" "isascii (cl_id c)"
proof -
  have c: "c \<in> set reg" "cl_id c = lower i" using client_getD [OF assms(2)] by auto
  then have ok: "client_id_ok (cl_id c)" and s: "set_ok implicants (cl_allowed_scopes c)"
    and d: "distinct (map cl_id reg)" using assms(1) by (auto simp: registry_ok_def)
  show "scope_ok (cl_allowed_scopes c)" using s by (simp add: scope_ok_def)
  show "isascii (cl_id c)" using ok by (rule client_id_ascii)
  show "client_get reg (cl_id c) = Some c"
    unfolding client_get_def lower_client_id [OF ok] by (rule find_unique_key [OF d c(1) refl])
qed

lemma stored_scope_strI:
  assumes "registry_ok (oe_clients env)" "client_get (oe_clients env) i = Some c"
    and "scope_ok s" "contains (registration c) s"
  shows "stored_scope_ok env (cl_id c) (scope_str s)"
proof -
  obtain t where t: "from_string (scope_str s) = Some t" "scope_values t = scope_values s"
    using scope_reread [OF assms(3)] by blast
  have "contains (registration c) t"
    using assms(4) t contains_grants [OF assms(3)] contains_grants [OF from_string_Some(1) [OF t(1)]] by simp
  then show ?thesis
    using t registry_client(2) [OF assms(1,2)] by (simp add: stored_scope_ok_def)
qed

lemma stored_scopeD:
  assumes "stored_scope_ok env i v" "client_get (oe_clients env) j = Some c" "i = cl_id c"
    and "registry_ok (oe_clients env)"
  obtains s where "from_string v = Some s" "scope_ok s" "contains (registration c) s"
  using assms registry_client(2) [OF assms(4,2)]
  by (auto simp: stored_scope_ok_def from_string_Some(1) split: option.splits)

lemma oauth_inv_sub:
  assumes "oauth_inv env db" "set (db_oauth_codes db') \<subseteq> set (db_oauth_codes db)"
    and "\<forall>t \<in> set (db_refresh_tokens db'). \<exists>u \<in> set (db_refresh_tokens db).
      rt_client_id t = rt_client_id u \<and> rt_scope t = rt_scope u"
  shows "oauth_inv env db'"
  using assms unfolding oauth_inv_def by (metis subset_iff)

lemma oauth_inv_same:
  "db_oauth_codes db' = db_oauth_codes db \<Longrightarrow> db_refresh_tokens db' = db_refresh_tokens db \<Longrightarrow>
     oauth_inv env db' = oauth_inv env db"
  by (simp add: oauth_inv_def)

end
