(* ===== verification/AuthProps.thy ===== *)
theory AuthProps
  imports AuthCredentials Hawk
begin

text \<open>
  The two spellings of a token id. \<open>attribute_text\<close> and \<open>header_text\<close> are the client's side of a
  \<open>Hawk\<close> header, as for Sync storage; here nothing but its \<open>id\<close> is read.
\<close>

lemma word_facts:
  "\<not> is_word CHR ''=''" "\<not> is_word CHR '' ''" "\<not> is_space CHR '',''" "is_space CHR '' ''"
  by code_simp+

lemma word_not_space: "is_word c \<Longrightarrow> \<not> is_space c"
  by (auto simp: is_word_def is_space_def is_alnum_def is_alpha_def is_digit_def ord_def)

definition plain_attribute :: "str \<times> str \<Rightarrow> bool" where
  "plain_attribute kv \<longleftrightarrow> fst kv \<noteq> [] \<and> list_all is_word (fst kv) \<and>
     list_all (\<lambda>c. c \<noteq> CHR 0x22 \<and> c \<noteq> CHR 0x5C) (snd kv)"

lemma match_attribute_text:
  assumes "plain_attribute kv"
    and tail: "dropWhile is_space t = [] \<and> rest = [] \<or>
      (\<exists>w. dropWhile is_space t = CHR '','' # w \<and> rest = dropWhile is_space w)"
  shows "match_attribute (attribute_text kv @ t) = Some (fst kv, snd kv, rest)"
proof -
  obtain k v where kv: "kv = (k, v)" by (cases kv)
  have k: "k \<noteq> []" "list_all is_word k" and v: "list_all (\<lambda>c. c \<noteq> CHR 0x22 \<and> c \<noteq> CHR 0x5C) v"
    using assms(1) by (simp_all add: plain_attribute_def kv)
  have shape: "attribute_text kv @ t = k @ CHR ''='' # CHR 0x22 # v @ CHR 0x22 # t"
    by (simp add: attribute_text_def kv)
  note split_name = takeWhile_stop [OF k(2) word_facts(1)] dropWhile_stop [OF k(2) word_facts(1)]
  define inside where "inside = (\<lambda>c. c \<noteq> CHR 0x22 \<and> c \<noteq> CHR 0x5C)"
  have v': "list_all inside v" "\<not> inside CHR 0x22" using v by (simp_all add: inside_def)
  show ?thesis
    using tail k(1) unfolding shape match_attribute_def Let_def split_name inside_def [symmetric]
    by (elim disjE exE conjE) (simp_all add: takeWhile_stop [OF v'] dropWhile_stop [OF v'] kv del: dropWhile_eq_Nil_conv)
qed

lemma attribute_text_starts:
  "plain_attribute kv \<Longrightarrow> dropWhile is_space (attribute_text kv @ t) = attribute_text kv @ t"
  by (cases "fst kv") (auto simp: plain_attribute_def attribute_text_def word_not_space)

lemma auth_attributes_text:
  assumes "list_all plain_attribute kvs"
  shows "auth_attributes (join '', '' (map attribute_text kvs)) = kvs"
  using assms
proof (induction kvs)
  case Nil
  have "match_attribute [] = None" by (simp add: match_attribute_def)
  then show ?case by (simp add: auth_attributes.simps)
next
  case (Cons kv kvs)
  then have kv: "plain_attribute kv" and kvs: "list_all plain_attribute kvs" by simp_all
  show ?case
  proof (cases kvs)
    case Nil
    have "match_attribute (attribute_text kv) = Some (fst kv, snd kv, [])"
      using match_attribute_text [OF kv, of "[]" "[]"] by simp
    moreover have "auth_attributes [] = []" using Cons.IH kvs Nil by simp
    ultimately show ?thesis by (subst auth_attributes.simps) (simp add: Nil)
  next
    case (Cons x xs)
    let ?more = "join '', '' (map attribute_text kvs)"
    have "dropWhile is_space ?more = ?more"
      using kvs attribute_text_starts [of x] attribute_text_starts [of x "[]"] Cons
      by (cases xs) auto
    then have "match_attribute (attribute_text kv @ '', '' @ ?more) = Some (fst kv, snd kv, ?more)"
      by (intro match_attribute_text [OF kv]) (simp add: word_facts)
    moreover have "join '', '' (map attribute_text (kv # kvs)) = attribute_text kv @ '', '' @ ?more"
      using Cons by simp
    ultimately show ?thesis using Cons.IH kvs by (subst auth_attributes.simps) simp
  qed
qed

subsection \<open>One id, two spellings\<close>

lemma hex_of_shape: "list_all is_lower_hex (hex_of bs)" "length (hex_of bs) = 2 * length bs"
proof -
  have "\<forall>n < 16. is_lower_hex (hex_digits ! n)" by code_simp
  then have "list_all is_lower_hex (hex_of_byte b)" for b by (simp add: hex_of_byte_def)
  then show "list_all is_lower_hex (hex_of bs)"
    by (induction bs) (simp_all add: hex_of_def)
  show "length (hex_of bs) = 2 * length bs"
    by (induction bs) (simp_all add: hex_of_def hex_of_byte_def)
qed

lemma token_id_hex: "length bs = 32 \<Longrightarrow> TOKEN_ID_RE (hex_of bs)"
  by (simp add: TOKEN_ID_RE_def re_dollar_def class_between_def hex_of_shape)

lemma strip_scheme:
  assumes "\<not> is_space (last body)" "body \<noteq> []" "\<not> is_space c"
  shows "strip (c # body) = c # body"
  using assms by (cases body rule: rev_cases) (simp_all add: strip_def lstrip_by_def rstrip_by_def)

lemma match_scheme_space:
  assumes "list_all is_word scheme" "scheme \<noteq> []" "dropWhile is_space body = body"
  shows "match_scheme (scheme @ CHR '' '' # body) = Some (scheme, body)"
  unfolding match_scheme_def Let_def takeWhile_stop [OF assms(1) word_facts(2)]
    dropWhile_stop [OF assms(1) word_facts(2)]
  using assms(2,3) by (simp add: word_facts)

lemma hex_not_space: "is_lower_hex c \<Longrightarrow> \<not> is_space c"
  by (auto simp: is_lower_hex_def is_digit_def is_space_def)

lemma join_attributes:
  assumes "kvs \<noteq> []"
  shows "join '', '' (map attribute_text kvs) \<noteq> [] \<and> \<not> is_space (last (join '', '' (map attribute_text kvs)))"
  using assms
proof (induction kvs)
  case (Cons kv kvs)
  then show ?case
    by (cases "kvs = []") (simp_all add: join_Cons, simp_all add: attribute_text_def)
qed simp

lemma hawk_token_id:
  assumes "list_all plain_attribute kvs" "kvs \<noteq> []" "length (header_text kvs) \<le> MAX_HEADER_LENGTH"
    and "map_of (rev kvs) ''id'' = Some i" "TOKEN_ID_RE i"
  shows "token_id (Some (header_text kvs)) t = Inr (Some i)"
proof -
  let ?body = "join '', '' (map attribute_text kvs)"
  obtain kv rest where kvs: "kvs = kv # rest" using assms(2) by (cases kvs) auto
  have last: "\<not> is_space (last ?body)" and ne: "?body \<noteq> []"
    using join_attributes [OF assms(2)] by simp_all
  have "dropWhile is_space ?body = ?body"
    using assms(1) attribute_text_starts [of kv] attribute_text_starts [of kv "[]"] unfolding kvs by (cases rest) auto
  moreover have "list_all is_word ''Hawk''" by code_simp
  ultimately have m: "match_scheme (header_text kvs) = Some (''Hawk'', ?body)"
    using match_scheme_space [of "''Hawk''" ?body] by (simp add: header_text_def)
  have "\<not> is_space CHR ''H''" by code_simp
  then have "strip (header_text kvs) = header_text kvs"
    unfolding header_text_def append.simps by (intro strip_scheme) (use last ne in simp_all)
  moreover have "lower ''Hawk'' = ''hawk''" by code_simp
  moreover have "header_text kvs \<noteq> []" by (simp add: header_text_def)
  ultimately show ?thesis
    using assms(3-5) m by (simp add: token_id_def hawk_id_def auth_attributes_text [OF assms(1)])
qed

lemma bearer_token_id:
  assumes "length bs = 32"
  shows "bearer_id (BEARER_PREFIXES t @ ''_'' @ hex_of bs) t' =
    (if t' = t then Inr (hex_of bs) else Inl (no_credential ''Invalid token id''))"
  using token_id_hex [OF assms] assms
  by (cases t; cases t') (simp_all add: bearer_id_def hex_of_shape)

definition bearer_text :: "token_type \<Rightarrow> bytes \<Rightarrow> str" where
  "bearer_text t i = ''Bearer '' @ BEARER_PREFIXES t @ ''_'' @ hex_of i"

lemma bearer_header_text: "bearer_header t k = bearer_text t (tk_id k)"
  by (simp add: bearer_header_def bearer_text_def)

lemma bearer_token_id_header:
  assumes "length i = 32"
  shows "token_id (Some (bearer_text t i)) t' =
    (if t' = t then Inr (Some (hex_of i)) else Inl (no_credential ''Invalid token id''))"
proof -
  let ?body = "BEARER_PREFIXES t @ ''_'' @ hex_of i"
  have "\<forall>c \<in> set (hex_of i). \<not> is_space c"
    using hex_of_shape(1) [of i] hex_not_space by (auto simp: list_all_iff)
  moreover have ne: "hex_of i \<noteq> []" using hex_of_shape(2) [of i] assms by auto
  ultimately have last: "\<not> is_space (last ?body)" by simp
  have B: "\<not> is_space CHR ''B''" "list_all is_word ''Bearer''" "\<not> is_space CHR ''f''" by code_simp+
  have "dropWhile is_space ?body = ?body" by (cases t) (simp_all add: B(3))
  then have m: "match_scheme (bearer_text t i) = Some (''Bearer'', ?body)"
    using match_scheme_space [OF B(2), of ?body] by (simp add: bearer_text_def)
  have s: "strip (bearer_text t i) = bearer_text t i"
    unfolding bearer_text_def append.simps by (rule strip_scheme) (use last B(1) in simp_all)
  have l: "lower ''Bearer'' = ''bearer''" by code_simp
  have "length (bearer_text t i) \<le> MAX_HEADER_LENGTH" "bearer_text t i \<noteq> []"
    using assms by (cases t; simp add: bearer_text_def hex_of_shape(2) MAX_HEADER_LENGTH_def)+
  then show ?thesis
    using m s l bearer_token_id [OF assms] by (simp add: token_id_def)
qed

text \<open>
  The accounts tier reads one id from either spelling. For a derived token, the
  \<open>Bearer\<close> header made for its kind names exactly its id, and is refused where another kind of
  token is asked for; a \<open>Hawk\<close> header with that id names it too, whatever \<open>mac\<close>, \<open>ts\<close>, \<open>nonce\<close>
  or other attributes come with it: no MAC is checked.
\<close>

theorem header_names_the_token:
  assumes "derive_token_keys t d = Some k"
    and "list_all plain_attribute others" "\<forall>kv \<in> set others. fst kv \<noteq> ''id''"
    and "length (header_text ((''id'', hex_of (tk_id k)) # others)) \<le> MAX_HEADER_LENGTH"
  shows "token_id (Some (bearer_header t k)) t' =
      (if t' = t then Inr (Some (hex_of (tk_id k))) else Inl (no_credential ''Invalid token id'')) \<and>
    token_id (Some (header_text ((''id'', hex_of (tk_id k)) # others))) t' = Inr (Some (hex_of (tk_id k)))"
proof -
  have "length d = 32" using assms(1) by (auto simp: derive_token_keys_def split: if_splits)
  then have l: "length (tk_id k) = 32" using assms(1) derive_token_keys_Some [of d t] by auto
  let ?kvs = "(''id'', hex_of (tk_id k)) # others"
  have "list_all (\<lambda>c. c \<noteq> CHR 0x22 \<and> c \<noteq> CHR 0x5C) (hex_of (tk_id k))"
    using hex_of_shape(1) [of "tk_id k"] by (rule list.pred_mono_strong) (auto simp: is_lower_hex_def is_digit_def ord_def)
  moreover have "list_all is_word ''id''" by code_simp
  ultimately have p: "list_all plain_attribute ?kvs" using assms(2) by (simp add: plain_attribute_def)
  have "map_of (rev others) ''id'' = None" using assms(3) by (force simp: map_of_eq_None_iff)
  then have "map_of (rev ?kvs) ''id'' = Some (hex_of (tk_id k))" by (simp add: map_add_def)
  then have "token_id (Some (header_text ?kvs)) t' = Inr (Some (hex_of (tk_id k)))"
    by (intro hawk_token_id [OF p _ assms(4)]) (simp_all add: token_id_hex l)
  then show ?thesis using bearer_token_id_header [OF l] by (simp add: bearer_header_text)
qed

theorem header_names_the_token_witness:
  "\<exists>k. derive_token_keys SESSION (replicate 32 7) = Some k \<and>
     token_id (Some (bearer_header SESSION k)) SESSION = Inr (Some (hex_of (tk_id k))) \<and>
     token_id (Some (header_text [(''id'', hex_of (tk_id k)), (''mac'', ''wrong'')])) SESSION =
       Inr (Some (hex_of (tk_id k)))"
proof -
  obtain k where k: "derive_token_keys SESSION (replicate 32 7) = Some k" "length (tk_id k) = 32"
    by (rule derive_token_keys_Some [of "replicate 32 7" SESSION]) simp_all
  have "list_all plain_attribute [(''mac'', ''wrong'')]" by code_simp
  moreover have "length (header_text [(''id'', hex_of (tk_id k)), (''mac'', ''wrong'')]) \<le> MAX_HEADER_LENGTH"
    by (simp add: header_text_def attribute_text_def hex_of_shape(2) k(2) MAX_HEADER_LENGTH_def)
  ultimately show ?thesis
    using header_names_the_token [OF k(1), of "[(''mac'', ''wrong'')]" SESSION] k(1) by simp
qed

end
