(* ===== verification/OauthProps.thy ===== *)
theory OauthProps
  imports OauthFacts AuthProps
begin

text \<open>
  The OAuth routes as steps on the database, with the invariant they keep, and the properties of
  grants, codes and refresh tokens.
\<close>

subsection \<open>The state a route leaves\<close>

lemma authorizeD:
  assumes "authorize env cred p now_ms = Inr (c, uri, g)" "registry_ok (oe_clients env)"
  shows "client_get (oe_clients env) (aq_client_id p) = Some c" "scope_ok (gr_scope g)"
    "contains (registration c) (gr_scope g)"
proof -
  obtain scope where s: "requested_scope p = Inr scope"
    "client_get (oe_clients env) (aq_client_id p) = Some c"
    "validate_requested_grant (claims_for_session (sc_account cred) (sc_token cred)) c
       \<lparr>gq_scope = scope, gq_access_type = aq_access_type p, gq_keys_jwe = aq_keys_jwe p\<rparr> = Inr g"
    using assms(1) by (auto simp: authorize_def find_client_def bindr_eq_Inr)
  then show "client_get (oe_clients env) (aq_client_id p) = Some c" by simp
  show "scope_ok (gr_scope g)" "contains (registration c) (gr_scope g)"
    using validated_scope(1,2) [OF s(3)] requested_scope_ok [OF s(1)] registry_client(1) [OF assms(2) s(2)]
    by simp_all
qed

lemma authorization_state:
  assumes "oauth_authorization env header p now_ms code db = (r, db')"
  obtains (same) "db' = db"
  | (swept) "db' = snd (delete_expired_oauth_codes (now_ms - oe_code_ttl env * 1000) db)"
  | (stored) cred c uri g h where "session_of header db = Inr cred"
      "authorize env cred p now_ms = Inr (c, uri, g)" "hash_token code = Some h"
      "create_oauth_code (new_code cred c p g now_ms h)
         (snd (delete_expired_oauth_codes (now_ms - oe_code_ttl env * 1000) db)) = Inr db'"
proof -
  let ?swept = "snd (delete_expired_oauth_codes (now_ms - oe_code_ttl env * 1000) db)"
  show thesis
  proof (cases "session_of header db")
    case (Inl e)
    then show ?thesis using assms same by (simp add: oauth_authorization_def)
  next
    case cred: (Inr cred)
    show ?thesis
    proof (cases "authorize env cred p now_ms")
      case (Inl e)
      then show ?thesis using assms same cred by (simp add: oauth_authorization_def)
    next
      case (Inr x)
      obtain c uri g where x: "x = (c, uri, g)" by (cases x) auto
      note a = assms [unfolded oauth_authorization_def cred Inr x andthen_simps prod.case]
      show ?thesis
      proof (cases "hash_token code")
        case None
        then show ?thesis using a swept by simp
      next
        case (Some h)
        show ?thesis
        proof (cases "create_oauth_code (new_code cred c p g now_ms h) ?swept")
          case (Inl e)
          then show ?thesis using a swept Some by simp
        next
          case made: (Inr db2)
          then have "db' = db2"
            using a Some by (cases "redirect_with_code (oe_parse_qsl env) uri code (aq_state p)") simp_all
          then show ?thesis using stored [OF cred] Inr x Some made by blast
        qed
      qed
    qed
  qed
qed

lemma authorization_inv:
  assumes "oauth_authorization env header p now_ms code db = (r, db')" "oauth_inv env db"
    and reg: "registry_ok (oe_clients env)"
  shows "oauth_inv env db'"
  using assms(1)
proof (cases rule: authorization_state)
  case same
  then show ?thesis using assms(2) by simp
next
  case swept
  then show ?thesis
    using assms(2) by (auto simp: delete_expired_oauth_codes_def oauth_inv_def)
next
  case (stored cred c uri g h)
  note a = authorizeD [OF stored(2) reg]
  have "stored_scope_ok env (cl_id c) (scope_str (gr_scope g))" by (rule stored_scope_strI [OF reg a])
  then show ?thesis
    using stored(4) assms(2)
    by (auto simp: create_oauth_code_def delete_expired_oauth_codes_def oauth_inv_def new_code_def split: if_splits)
qed

lemma codes_delete_account: "set (db_oauth_codes (snd (delete_account uid db))) \<subseteq> set (db_oauth_codes db)"
  by (auto simp: delete_account_def Let_def cascade_sync_users_def cascade_session_tokens_def)

lemma tokens_delete_account: "set (db_refresh_tokens (snd (delete_account uid db))) \<subseteq> set (db_refresh_tokens db)"
  by (auto simp: delete_account_def Let_def cascade_sync_users_def cascade_session_tokens_def)

lemma delete_device_tokens:
  "db_oauth_codes (snd (delete_device uid i db)) = db_oauth_codes db"
  "set (db_refresh_tokens (snd (delete_device uid i db))) \<subseteq> set (db_refresh_tokens db)"
  by (auto simp: delete_device_def Let_def delete_session_token_def delete_refresh_token_def
      cascade_session_tokens_def split: option.splits)

lemma shrink_inv:
  assumes "oauth_inv env db" "set (db_oauth_codes db') \<subseteq> set (db_oauth_codes db)"
    "set (db_refresh_tokens db') \<subseteq> set (db_refresh_tokens db)"
  shows "oauth_inv env db'"
  using assms by (auto simp: oauth_inv_def)

lemma delete_code_inv: "oauth_inv env db \<Longrightarrow> oauth_inv env (snd (delete_oauth_code i db))"
  by (auto simp: delete_oauth_code_def oauth_inv_def)

lemma touch_token_inv: "oauth_inv env db \<Longrightarrow> oauth_inv env (touch_refresh_token i t db)"
  by (auto simp: touch_refresh_token_def oauth_inv_def set_update_where)

lemma delete_token_inv: "oauth_inv env db \<Longrightarrow> oauth_inv env (snd (delete_refresh_token i db))"
  by (auto simp: delete_refresh_token_def oauth_inv_def)

subsection \<open>The three grants\<close>

lemma code_lookupD:
  assumes "code_lookup c p db = Inr (given, code)"
  shows "tq_code p = Some given" "get_oauth_code (oc_code code) db = Some code"
    "hash_token given = Some (oc_code code)" "oc_client_id code = cl_id c" "code \<in> set (db_oauth_codes db)"
proof -
  obtain h where h: "tq_code p = Some given" "hash_token given = Some h" "get_oauth_code h db = Some code"
    "oc_client_id code = cl_id c"
    using assms by (auto simp: code_lookup_def bindr_eq_Inr same_digest_def split: if_splits)
  moreover have "code \<in> set (db_oauth_codes db)" "oc_code code = h"
    using h(3) lookup_key_Some by (auto simp: get_oauth_code_def dest: lookup_key_Some)
  ultimately show "tq_code p = Some given" "get_oauth_code (oc_code code) db = Some code"
    "hash_token given = Some (oc_code code)" "oc_client_id code = cl_id c" "code \<in> set (db_oauth_codes db)"
    by simp_all
qed

lemma code_grant_state:
  assumes "authorization_code_grant c p ttl now_ms db = (r, db')"
  shows "db' = db \<or> (\<exists>i. db' = snd (delete_oauth_code i db))"
  using assms
  by (cases "code_lookup c p db"; cases "\<exists>v. check_code_verifier (snd (projr (code_lookup c p db))) (tq_code_verifier p) = Inr v")
    (auto simp: authorization_code_grant_def Let_def andthen_def split: if_splits sum.splits)

lemma code_grant_Inr:
  assumes "authorization_code_grant c p ttl now_ms db = (Inr g, db')"
  obtains given code a scope where "code_lookup c p db = Inr (given, code)"
    "now_ms \<le> oc_created_at code + ttl * 1000" "check_code_verifier code (tq_code_verifier p) = Inr ()"
    "get_account (oc_uid code) db = Some a" "from_string (oc_scope code) = Some scope"
    "gr_scope g = scope" "gr_client g = c" "gr_uid g = acc_uid a" "gr_offline g = oc_offline code"
    "db' = snd (delete_oauth_code (oc_code code) db)"
  using assms
  by (auto simp: authorization_code_grant_def Let_def andthen_Inr bindr_eq_Inr grant_from_code_def split: if_splits)

lemma code_grant_within:
  assumes "authorization_code_grant c p ttl now_ms db = (Inr g, db')" "oauth_inv env db"
    and "registry_ok (oe_clients env)" "client_get (oe_clients env) i = Some c"
  shows "scope_ok (gr_scope g) \<and> contains (registration c) (gr_scope g) \<and> gr_client g = c"
  using assms(1)
proof (cases rule: code_grant_Inr)
  case (1 given code a scope)
  note l = code_lookupD [OF 1(1)]
  have "stored_scope_ok env (oc_client_id code) (oc_scope code)"
    using assms(2) l(5) by (simp add: oauth_inv_def)
  then show ?thesis
    using stored_scopeD [OF _ assms(4) l(4) assms(3)] 1(5-7) by (metis option.inject)
qed

lemma refreshed_scope_within:
  assumes "refreshed_scope c held asked = Inr s" "scope_ok held" "contains (registration c) held"
    and "scope_ok (cl_allowed_scopes c)"
  shows "scope_ok s" "contains (registration c) s"
proof -
  have "scope_ok s \<and> (\<forall>x \<in> set (scope_values s). grants (registration c) x)"
  proof (cases "truthy asked")
    case False
    then have "s = difference held NON_REFRESHABLE_SCOPES" using assms(1) by (simp add: refreshed_scope_def)
    then show ?thesis using difference_scopes [OF assms(2)] assms(2,3) by (auto simp: contains_grants)
  next
    case True
    then obtain r where r: "from_string (the asked) = Some r" "s = difference r NON_REFRESHABLE_SCOPES"
      "contains held r \<or> contains (widest_scope c held) r"
      using assms(1) by (auto simp: refreshed_scope_def parse_scope_def bindr_eq_Inr)
    note r_ok = from_string_Some(1) [OF r(1)]
    have "grants (registration c) x" if "grants held x" for x
      using that assms(2,3) contains_granted by blast
    moreover have "grants (registration c) x" if "grants (widest_scope c held) x" for x
      using that calculation assms(2,4)
      by (auto simp: widest_scope_def union_grants registration_grants handful_def split: if_splits)
    ultimately have "\<forall>x \<in> set (scope_values r). grants (registration c) x"
      using r(3) r_ok by (auto simp: contains_grants)
    then show ?thesis using difference_scopes [OF r_ok] r(2) by auto
  qed
  then show "scope_ok s" "contains (registration c) s" by (auto simp: contains_grants)
qed

lemma refresh_grant_state:
  assumes "refresh_token_grant c p now_ms db = (r, db')"
  shows "db' = db \<or> (\<exists>i. db' = touch_refresh_token i now_ms db)"
  using assms unfolding refresh_token_grant_def
  by (intro disjCI) (auto simp: andthen_def split: sum.splits)

lemma refresh_grant_Inr:
  assumes "refresh_token_grant c p now_ms db = (Inr g, db')"
  obtains given h tok held a where "tq_refresh_token p = Some given" "hash_token given = Some h"
    "get_refresh_token h db = Some tok" "rt_client_id tok = cl_id c" "from_string (rt_scope tok) = Some held"
    "refreshed_scope c held (tq_scope p) = Inr (gr_scope g)" "get_account (rt_uid tok) db = Some a"
    "gr_client g = c" "gr_uid g = acc_uid a" "\<not> gr_offline g" "db' = touch_refresh_token (rt_token_id tok) now_ms db"
  using assms
  by (auto simp: refresh_token_grant_def andthen_Inr same_digest_def split: if_splits)

lemma refresh_grant_within:
  assumes "refresh_token_grant c p now_ms db = (Inr g, db')" "oauth_inv env db"
    and "registry_ok (oe_clients env)" "client_get (oe_clients env) i = Some c"
  shows "scope_ok (gr_scope g) \<and> contains (registration c) (gr_scope g) \<and> gr_client g = c"
  using assms(1)
proof (cases rule: refresh_grant_Inr)
  case (1 given h tok held a)
  have "tok \<in> set (db_refresh_tokens db)"
    using 1(3) by (auto simp: get_refresh_token_def dest: lookup_key_Some)
  then have "stored_scope_ok env (rt_client_id tok) (rt_scope tok)"
    using assms(2) by (simp add: oauth_inv_def)
  then have "scope_ok held" "contains (registration c) held"
    using stored_scopeD [OF _ assms(4) 1(4) assms(3)] 1(5) by (metis option.inject)+
  then show ?thesis
    using refreshed_scope_within [OF 1(6)] registry_client(1) [OF assms(3,4)] 1(8) by blast
qed

lemma credentials_grant_within:
  assumes "fxa_credentials_grant header c p db = Inr g"
    and "registry_ok (oe_clients env)" "client_get (oe_clients env) i = Some c"
  shows "scope_ok (gr_scope g) \<and> contains (registration c) (gr_scope g) \<and> gr_client g = c"
proof -
  obtain cred :: session_credentials and scope a where v: "validate_requested_grant (claims_for_session (sc_account cred) (sc_token cred)) c
      \<lparr>gq_scope = scope,
       gq_access_type = (if truthy (tq_access_type p) then the (tq_access_type p) else ''online''),
       gq_keys_jwe = None\<rparr> = Inr g"
    and s: "from_string a = Some scope"
    using assms(1) unfolding fxa_credentials_grant_def parse_scope_def bindr_eq_Inr guardr_eq_Inr of_option_eq_Inr
    by (elim exE conjE) (rule that; assumption)
  show ?thesis
    using validated_scope(1,2) [OF v] validated_parts(4) [OF v] from_string_Some(1) [OF s]
      registry_client(1) [OF assms(2,3)] by simp
qed

lemma grant_for_within:
  assumes "grant_for env header c p now_ms db = (Inr g, db')" "oauth_inv env db"
    and "registry_ok (oe_clients env)" "client_get (oe_clients env) i = Some c"
  shows "scope_ok (gr_scope g) \<and> contains (registration c) (gr_scope g) \<and> gr_client g = c"
  using assms code_grant_within [OF _ assms(2-4)] refresh_grant_within [OF _ assms(2-4)]
    credentials_grant_within [OF _ assms(3,4)]
  by (auto simp: grant_for_def split: if_splits)

lemma grant_for_state:
  assumes "grant_for env header c p now_ms db = (r, db')"
  shows "db' = db \<or> (\<exists>i. db' = snd (delete_oauth_code i db)) \<or> (\<exists>i. db' = touch_refresh_token i now_ms db)"
proof -
  consider (code) "authorization_code_grant c p (oe_code_ttl env) now_ms db = (r, db')"
    | (refresh) "refresh_token_grant c p now_ms db = (r, db')" | (same) "db' = db"
    using assms by (auto simp: grant_for_def split: if_splits)
  then show ?thesis
    by cases (use code_grant_state refresh_grant_state in blast)+
qed

lemma grant_for_inv:
  "grant_for env header c p now_ms db = (r, db') \<Longrightarrow> oauth_inv env db \<Longrightarrow> oauth_inv env db'"
  using grant_for_state [of env header c p now_ms db r db'] delete_code_inv touch_token_inv by metis

lemma generate_tokens_state:
  assumes "generate_tokens env g ttl now_ms jti fresh db = (r, db')"
  obtains (none) "db' = db"
  | (minted) tok where "create_refresh_token tok db = Inr db'" "rt_client_id tok = cl_id (gr_client g)"
      "rt_scope tok = scope_str (gr_scope g)" "rt_uid tok = gr_uid g" "gr_offline g"
      "hash_token fresh = Some (rt_token_id tok)"
proof (cases "gr_offline g")
  case False
  then show ?thesis using assms none by (simp add: generate_tokens_def Let_def)
next
  case True
  show ?thesis
  proof (cases "hash_token fresh")
    case None
    then show ?thesis using assms True none by (simp add: generate_tokens_def mint_refresh_token_def Let_def)
  next
    case (Some h)
    let ?tok = "\<lparr>rt_token_id = h, rt_uid = gr_uid g, rt_client_id = cl_id (gr_client g),
        rt_scope = scope_str (gr_scope g), rt_created_at = now_ms, rt_last_used_at = now_ms\<rparr>"
    show ?thesis
      using assms True Some none minted [of ?tok]
      by (cases "create_refresh_token ?tok db") (auto simp: generate_tokens_def mint_refresh_token_def Let_def)
  qed
qed

lemma oauth_token_state:
  assumes "oauth_token env header p now_ms jti fresh db = (r, db')"
  obtains (same) "db' = db"
  | (refused) c x where "client_get (oe_clients env) (tq_client_id p) = Some c"
      "grant_for env header c p now_ms db = (Inl x, db')"
  | (granted) c g db1 where "client_get (oe_clients env) (tq_client_id p) = Some c"
      "grant_for env header c p now_ms db = (Inr g, db1)"
      "generate_tokens env g (token_ttl env p) now_ms jti fresh db1 = (r, db')"
proof (cases "client_get (oe_clients env) (tq_client_id p)")
  case None
  then show ?thesis using assms same by (simp add: oauth_token_def find_client_def)
next
  case (Some c)
  show ?thesis
  proof (cases "tq_access_type p = None \<or> tq_grant_type p = GRANT_FXA_CREDENTIALS")
    case False
    then show ?thesis using assms same Some
      by (cases "tq_access_type p") (simp_all add: oauth_token_def find_client_def)
  next
    case True
    then have t: "andthen (grant_for env header c p now_ms db)
        (\<lambda>g. generate_tokens env g (token_ttl env p) now_ms jti fresh) = (r, db')"
      using assms Some by (simp add: oauth_token_def find_client_def)
    obtain q db1 where q: "grant_for env header c p now_ms db = (q, db1)" by (cases "grant_for env header c p now_ms db")
    then show ?thesis using t Some refused granted by (cases q) simp_all
  qed
qed

lemma oauth_token_inv:
  assumes "oauth_token env header p now_ms jti fresh db = (r, db')" "oauth_inv env db"
    and reg: "registry_ok (oe_clients env)"
  shows "oauth_inv env db'"
  using assms(1)
proof (cases rule: oauth_token_state)
  case same
  then show ?thesis using assms(2) by simp
next
  case (refused c x)
  then show ?thesis using grant_for_inv assms(2) by blast
next
  case (granted c g db1)
  have inv: "oauth_inv env db1" using grant_for_inv [OF granted(2) assms(2)] .
  have g: "scope_ok (gr_scope g)" "contains (registration c) (gr_scope g)" "gr_client g = c"
    using grant_for_within [OF granted(2) assms(2) reg granted(1)] by simp_all
  from granted(3) show ?thesis
  proof (cases rule: generate_tokens_state)
    case none
    then show ?thesis using inv by simp
  next
    case (minted tok)
    have "stored_scope_ok env (rt_client_id tok) (rt_scope tok)"
      using stored_scope_strI [OF reg granted(1) g(1,2)] minted(2,3) g(3) by simp
    then show ?thesis
      using inv minted(1) by (auto simp: create_refresh_token_def oauth_inv_def split: if_splits)
  qed
qed

lemma revoke_inv: "revoke found cid db = (r, db') \<Longrightarrow> oauth_inv env db \<Longrightarrow> oauth_inv env db'"
  using delete_token_inv [of env db]
  by (auto simp: revoke_def andthen_def guardr_def split: option.splits sum.splits if_splits)

lemma oauth_destroy_inv: "oauth_destroy p db = (r, db') \<Longrightarrow> oauth_inv env db \<Longrightarrow> oauth_inv env db'"
  using revoke_inv by (auto simp: oauth_destroy_def andthen_def split: sum.splits)

lemma legacy_destroy_inv: "legacy_destroy p db = (r, db') \<Longrightarrow> oauth_inv env db \<Longrightarrow> oauth_inv env db'"
  using revoke_inv by (auto simp: legacy_destroy_def andthen_def split: sum.splits if_splits)

subsection \<open>The database over time\<close>

text \<open>
  What changes codes and refresh tokens: the OAuth routes, and the deletion of an account or of
  a device. Everything else the server does is \<open>elsewhere\<close>.
\<close>

inductive oauth_step :: "'key oauth_env \<Rightarrow> database \<Rightarrow> database \<Rightarrow> bool" for env where
  authorization: "oauth_authorization env header p now_ms code db = (r, db') \<Longrightarrow> oauth_step env db db'"
| token: "oauth_token env header q now_ms jti fresh db = (s, db') \<Longrightarrow> oauth_step env db db'"
| revocation: "oauth_destroy d db = (u, db') \<Longrightarrow> oauth_step env db db'"
| legacy_revocation: "legacy_destroy l db = (u, db') \<Longrightarrow> oauth_step env db db'"
| account_deletion: "oauth_step env db (snd (delete_account uid db))"
| device_deletion: "oauth_step env db (snd (delete_device uid i db))"
| elsewhere: "db_oauth_codes db' = db_oauth_codes db \<Longrightarrow> db_refresh_tokens db' = db_refresh_tokens db \<Longrightarrow>
    oauth_step env db db'"

inductive oauth_reachable :: "'key oauth_env \<Rightarrow> database \<Rightarrow> bool" for env where
  start: "oauth_reachable env empty_database"
| step: "oauth_reachable env db \<Longrightarrow> oauth_step env db db' \<Longrightarrow> oauth_reachable env db'"

lemma oauth_step_inv:
  assumes "oauth_step env db db'" "oauth_inv env db" "registry_ok (oe_clients env)"
  shows "oauth_inv env db'"
  using assms(1)
proof cases
  case authorization
  then show ?thesis using authorization_inv assms(2,3) by blast
next
  case token
  then show ?thesis using oauth_token_inv assms(2,3) by blast
next
  case revocation
  then show ?thesis using oauth_destroy_inv assms(2) by blast
next
  case legacy_revocation
  then show ?thesis using legacy_destroy_inv assms(2) by blast
next
  case account_deletion
  then show ?thesis using shrink_inv [OF assms(2)] codes_delete_account tokens_delete_account by blast
next
  case (device_deletion uid i)
  then show ?thesis
    using shrink_inv [OF assms(2), of "snd (delete_device uid i db)"] delete_device_tokens [of uid i db] by simp
next
  case elsewhere
  then show ?thesis using oauth_inv_same assms(2) by blast
qed

lemma reachable_inv:
  assumes "oauth_reachable env db" "registry_ok (oe_clients env)"
  shows "oauth_inv env db"
  using assms
proof (induction rule: oauth_reachable.induct)
  case start
  then show ?case by (simp add: oauth_inv_def empty_database_def)
next
  case (step db db')
  then show ?case using oauth_step_inv by blast
qed

end
