(* ===== verification/OauthClaims.thy ===== *)
theory OauthClaims
  imports OauthProps
begin

text \<open>
  The properties of the OAuth tier over any sequence of requests: what a client can be granted,
  how a code is redeemed, and that revocation is final.
\<close>

subsection \<open>A small server\<close>

definition sample_env :: "bool oauth_env" where
  "sample_env =
     \<lparr>oe_json = sample_lib [], oe_rsa = sample_rsa, oe_kid = ''k1'', oe_verifiers = [(''k1'', True)],
      oe_public_url = ''https://x'', oe_clients = default_clients ''https://x'', oe_code_ttl = 900,
      oe_access_ttl = 21600, oe_parse_qsl = (\<lambda>_. [])\<rparr>"

definition sample_session :: session_token where
  "sample_session =
     \<lparr>st_token_id = hex_of (replicate 32 7), st_uid = ''u1'', st_auth_key = ''k'', st_created_at = 5000,
      st_auth_at = 5000, st_last_access_time = 5000, st_user_agent = []\<rparr>"

definition session_database :: database where
  "session_database = empty_database\<lparr>db_accounts := [sample_account], db_session_tokens := [sample_session]\<rparr>"

definition sample_header :: str where
  "sample_header = bearer_text SESSION (replicate 32 7)"

abbreviation fenix :: client where
  "fenix \<equiv> browser FENIX_CLIENT_ID ''Fenix'' ''https://x''"

definition credentials_request :: "str \<Rightarrow> str \<Rightarrow> token_request" where
  "credentials_request scope access =
     \<lparr>tq_grant_type = GRANT_FXA_CREDENTIALS, tq_client_id = FENIX_CLIENT_ID, tq_code = None,
      tq_code_verifier = None, tq_redirect_uri = None, tq_refresh_token = None, tq_scope = Some scope,
      tq_access_type = Some access, tq_ttl = None\<rparr>"

lemma default_clients_ok: "registry_ok (default_clients url)"
proof -
  have "list_all client_id_ok [FIREFOX_DESKTOP_CLIENT_ID, FENIX_CLIENT_ID, FIREFOX_IOS_CLIENT_ID]"
    "distinct [FIREFOX_DESKTOP_CLIENT_ID, FENIX_CLIENT_ID, FIREFOX_IOS_CLIENT_ID]" by code_simp+
  then show ?thesis
    using scope_constant_ok by (simp add: registry_ok_def default_clients_def browser_def scope_ok_def)
qed

lemma sample_registry [simp]: "registry_ok (oe_clients sample_env)"
  by (simp add: sample_env_def default_clients_ok)

lemma sample_client: "client_get (oe_clients sample_env) FENIX_CLIENT_ID = Some fenix"
proof -
  have "lower FENIX_CLIENT_ID = FENIX_CLIENT_ID" by code_simp
  moreover have "FIREFOX_DESKTOP_CLIENT_ID \<noteq> FENIX_CLIENT_ID" by code_simp
  ultimately show ?thesis by (simp add: client_get_def sample_env_def default_clients_def browser_def)
qed

lemma sample_session_of:
  "optional_session (Some sample_header) session_database = Inr (Some \<lparr>sc_token = sample_session, sc_account = sample_account\<rparr>)"
proof -
  have "token_id (Some sample_header) SESSION = Inr (Some (st_token_id sample_session))"
    unfolding sample_header_def using bearer_token_id_header [of "replicate 32 7" SESSION SESSION]
    by (simp add: sample_session_def)
  then show ?thesis
    by (simp add: optional_session_def session_database_def get_session_token_def lookup_key_def get_account_def)
      (simp add: sample_session_def sample_account_def)
qed

lemma sample_reachable: "oauth_reachable sample_env session_database"
  by (rule oauth_reachable.step [OF oauth_reachable.start], rule oauth_step.elsewhere)
    (simp_all add: session_database_def empty_database_def)

lemma profile_scope:
  "from_string ''profile'' = Some (scope_constant [''profile''])"
  "scope_values (scope_constant [''profile'']) = [''profile'']"
proof -
  have a: "from_array [''profile''] = Some (scope_constant [''profile''])"
    by (simp add: scope_constant_def from_array_def add_values_all valid_samples)
  moreover have "filter (\<lambda>w. w \<noteq> []) (split CHR '' '' ''profile'') = [''profile'']" by code_simp
  ultimately show "from_string ''profile'' = Some (scope_constant [''profile''])"
    by (simp add: from_string_def)
  show "scope_values (scope_constant [''profile'']) = [''profile'']" by code_simp
qed

lemma fenix_fields [simp]:
  "cl_id fenix = FENIX_CLIENT_ID" "cl_trusted fenix" "cl_can_grant fenix" "cl_public_client fenix"
  "scope_ok (cl_allowed_scopes fenix)"
  by (simp_all add: browser_def)

lemma fenix_profile: "grants (registration fenix) ''profile''"
proof -
  have "implicants v \<noteq> None" if "v \<in> set [''openid'', ''profile'', ''email'', ''profile:subscriptions'']" for v
  proof -
    have "list_all (\<lambda>v. implicants v \<noteq> None) [''openid'', ''profile'', ''email'', ''profile:subscriptions'']"
      by code_simp
    then show ?thesis using that unfolding list_all_iff by blast
  qed
  then have a: "from_array [''openid'', ''profile'', ''email'', ''profile:subscriptions''] = Some TRUSTED_ALLOWED_SCOPES"
    unfolding TRUSTED_ALLOWED_SCOPES_def scope_constant_def from_array_def add_values_all by simp
  have "implies ''profile'' ''profile''" using valid_samples(1) implies_self by blast
  then have "grants TRUSTED_ALLOWED_SCOPES ''profile''" unfolding from_array_Some(2) [OF a] by simp
  then show ?thesis by (simp add: registration_grants handful_def)
qed

lemma sample_validated:
  assumes "gq_scope rq = scope_constant [''profile'']"
  obtains g where "validate_requested_grant claims fenix rq = Inr g" "scope_values (gr_scope g) = [''profile'']"
    "gr_offline g = (gq_access_type rq = ''offline'')" "gr_uid g = sl_uid claims" "gr_client g = fenix"
proof -
  have "''profile'' \<notin> set KEY_BEARING_SCOPES" by code_simp
  then have k: "key_bearing_ok fenix (gq_scope rq) = Inr ()"
    by (simp add: key_bearing_ok_def key_bearing_of_def assms profile_scope)
  have u: "untrusted_ok fenix (gq_scope rq) = Inr ()" by (simp add: untrusted_ok_def Let_def)
  let ?f = "filtered (scope_constant [''profile'']) (registration fenix)"
  have f: "scope_values ?f = [''profile'']"
    using filtered_scopes(2) [OF scope_constant_ok, of "[''profile'']"] fenix_profile by (simp add: profile_scope)
  then have "trusted_trim fenix (gq_scope rq) = Inr ?f"
    by (simp add: trusted_trim_def assms Let_def is_empty_values registration_def handful_def)
  then show thesis
    using k u f that by (simp add: validate_requested_grant_def)
qed

lemma sample_credentials_token:
  obtains r db' where "oauth_token sample_env (Some sample_header) (credentials_request ''profile'' ''online'') 9000
      ''j'' ''f'' session_database = (Inr r, db')"
proof -
  let ?claims = "claims_for_session sample_account sample_session"
  let ?rq = "\<lparr>gq_scope = scope_constant [''profile''], gq_access_type = ''online'', gq_keys_jwe = None\<rparr>"
  obtain g where g: "validate_requested_grant ?claims fenix ?rq = Inr g" "\<not> gr_offline g"
    using sample_validated [of ?rq ?claims] by auto
  have "fxa_credentials_grant (Some sample_header) fenix (credentials_request ''profile'' ''online'') session_database = Inr g"
    using g(1) by (simp add: fxa_credentials_grant_def credentials_request_def sample_session_of parse_scope_def
        profile_scope(1) truthy_def)
  then have "grant_for sample_env (Some sample_header) fenix (credentials_request ''profile'' ''online'') 9000
      session_database = (Inr g, session_database)"
    by (simp add: grant_for_def credentials_request_def GRANT_FXA_CREDENTIALS_def GRANT_AUTHORIZATION_CODE_def
        GRANT_REFRESH_TOKEN_def)
  moreover have "tq_client_id (credentials_request ''profile'' ''online'') = FENIX_CLIENT_ID"
    "tq_grant_type (credentials_request ''profile'' ''online'') = GRANT_FXA_CREDENTIALS"
    by (simp_all add: credentials_request_def)
  ultimately show thesis
    using that g(2) by (simp add: oauth_token_def find_client_def sample_client generate_tokens_def Let_def)
qed

subsection \<open>What a client can be granted\<close>

text \<open>
  A granted scope never exceeds the client's registration. Whatever is asked, the grant is
  the values of the request that the client's own list or the handful of its kind implies; a
  trusted client with something to ask is never answered with nothing; and every key-bearing
  scope asked for, granted or not, is one the client's own list implies.
\<close>

theorem granted_within_registration:
  assumes "validate_requested_grant claims c rq = Inr g" "scope_ok (gq_scope rq)" "scope_ok (cl_allowed_scopes c)"
  shows "scope_values (gr_scope g) = filter (grants (registration c)) (scope_values (gq_scope rq)) \<and>
    (scope_values (gq_scope rq) \<noteq> [] \<longrightarrow> scope_values (gr_scope g) \<noteq> []) \<and>
    (\<forall>k \<in> set (scope_values (gq_scope rq)). k \<in> set KEY_BEARING_SCOPES \<longrightarrow> grants (cl_allowed_scopes c) k)"
proof -
  note v = validated_parts [OF assms(1)]
  have "scope_values (gr_scope g) = filter (grants (registration c)) (scope_values (gq_scope rq)) \<and>
      (scope_values (gq_scope rq) \<noteq> [] \<longrightarrow> scope_values (gr_scope g) \<noteq> [])"
  proof (cases "cl_trusted c")
    case True
    then have "gr_scope g = filtered (gq_scope rq) (registration c)"
      "scope_values (gr_scope g) = [] \<longrightarrow> scope_values (gq_scope rq) = []"
      using v(3) by (auto simp: trusted_trim_def registration_def handful_def Let_def bindr_eq_Inr is_empty_values)
    then show ?thesis using filtered_scopes(2) [OF assms(2)] by metis
  next
    case False
    have "gr_scope g = gq_scope rq" using v(3) False by (simp add: trusted_trim_def)
    moreover have "\<forall>x \<in> set (scope_values (gr_scope g)). grants (registration c) x"
      using trimmed_scope [OF v(1,3) assms(2,3)] by (auto simp: contains_grants)
    ultimately show ?thesis by (simp add: filter_id_all)
  qed
  moreover have "grants (cl_allowed_scopes c) k"
    if "k \<in> set (scope_values (gq_scope rq))" "k \<in> set KEY_BEARING_SCOPES" for k
    using key_bearing_allowed [OF v(2)] that by (simp add: key_bearing_of_def)
  ultimately show ?thesis by blast
qed

theorem granted_within_registration_witness:
  "\<exists>g. validate_requested_grant (claims_for_session sample_account sample_session) fenix
      \<lparr>gq_scope = scope_constant [''profile''], gq_access_type = ''online'', gq_keys_jwe = None\<rparr> = Inr g \<and>
     scope_values (gr_scope g) \<noteq> []"
proof -
  let ?claims = "claims_for_session sample_account sample_session"
  let ?rq = "\<lparr>gq_scope = scope_constant [''profile''], gq_access_type = ''online'', gq_keys_jwe = None\<rparr>"
  obtain g where g: "validate_requested_grant ?claims fenix ?rq = Inr g"
    using sample_validated [of ?rq ?claims] by auto
  have "scope_ok (gq_scope ?rq)" "scope_values (gq_scope ?rq) \<noteq> []" by (simp_all add: profile_scope(2))
  then show ?thesis using g granted_within_registration [OF g _ fenix_fields(5)] by blast
qed

text \<open>
  C22: However the server is used, a token response never carries more than the client is
  registered for. In every reachable database, for each grant type, what \<open>/oauth/token\<close> answers
  is signed for a scope within the registration of the client that asked; and the audience is
  the tokenserver's only for a client whose own list implies the Sync scope. Codes and refresh
  tokens stored on the way, and scopes widened on refresh, cannot get around it.
\<close>

theorem tokens_stay_within_registration:
  assumes "oauth_reachable env db" "registry_ok (oe_clients env)"
    and "oauth_token env header p now_ms jti fresh db = (Inr r, db')"
  shows "\<exists>c g. client_get (oe_clients env) (tq_client_id p) = Some c \<and> gr_client g = c \<and>
    tk_access_token r = access_token env g (token_ttl env p) now_ms jti \<and>
    tk_scope r = scope_str (gr_scope g) \<and> contains (registration c) (gr_scope g) \<and>
    (grants (cl_allowed_scopes c) OLDSYNC_SCOPE \<or> token_audience env g = cl_id c)"
proof -
  obtain c g db1 where g: "client_get (oe_clients env) (tq_client_id p) = Some c"
    "grant_for env header c p now_ms db = (Inr g, db1)"
    "generate_tokens env g (token_ttl env p) now_ms jti fresh db1 = (Inr r, db')"
    using assms(3)
    by (auto simp: oauth_token_def find_client_def andthen_Inr)
  have w: "scope_ok (gr_scope g)" "contains (registration c) (gr_scope g)" "gr_client g = c"
    using grant_for_within [OF g(2) reachable_inv [OF assms(1,2)] assms(2) g(1)] by simp_all
  have r: "tk_access_token r = access_token env g (token_ttl env p) now_ms jti" "tk_scope r = scope_str (gr_scope g)"
    using g(3) by (auto simp: generate_tokens_def Let_def andthen_Inr split: if_splits)
  have "grants (cl_allowed_scopes c) OLDSYNC_SCOPE \<or> token_audience env g = cl_id c"
    using within_registration_oldsync [OF registry_client(1) [OF assms(2) g(1)] w(1,2)] w(3)
    by (auto simp: token_audience_def)
  with g(1) w r show ?thesis by blast
qed

theorem tokens_stay_within_registration_witness:
  "\<exists>r db'. \<exists>g :: grant. oauth_token sample_env (Some sample_header) (credentials_request ''profile'' ''online'') 9000
      ''j'' ''f'' session_database = (Inr r, db') \<and> gr_client g = fenix \<and>
     tk_scope r = scope_str (gr_scope g) \<and> contains (registration fenix) (gr_scope g)"
proof -
  obtain r db' where r: "oauth_token sample_env (Some sample_header) (credentials_request ''profile'' ''online'') 9000
      ''j'' ''f'' session_database = (Inr r, db')" by (rule sample_credentials_token)
  have "tq_client_id (credentials_request ''profile'' ''online'') = FENIX_CLIENT_ID"
    by (simp add: credentials_request_def)
  then obtain g :: grant where "gr_client g = fenix" "tk_scope r = scope_str (gr_scope g)"
    "contains (registration fenix) (gr_scope g)"
    using tokens_stay_within_registration [OF sample_reachable sample_registry r] sample_client by auto
  with r show ?thesis by blast
qed

end
