(* ===== verification/OauthCodes.thy ===== *)
theory OauthCodes
  imports OauthClaims TokenserverProps
begin

text \<open>
  Redeeming an authorization code, and the end of a refresh token.
\<close>

lemma get_code_iff: "get_oauth_code h db = None \<longleftrightarrow> (\<forall>x \<in> set (db_oauth_codes db). oc_code x \<noteq> h)"
  by (auto simp: get_oauth_code_def lookup_key_None)

lemma get_code_deleted: "get_oauth_code h (snd (delete_oauth_code h db)) = None"
  by (auto simp: get_code_iff delete_oauth_code_def)

lemma get_token_iff: "get_refresh_token h db = None \<longleftrightarrow> (\<forall>x \<in> set (db_refresh_tokens db). rt_token_id x \<noteq> h)"
  by (auto simp: get_refresh_token_def lookup_key_None)

lemma check_code_verifier_bound:
  assumes "oc_code_challenge code = Some ch" "ch \<noteq> []"
  shows "check_code_verifier code verifier = Inr () \<longleftrightarrow>
    (\<exists>v. verifier = Some v \<and> v \<noteq> [] \<and> pkce_challenge v = Some ch \<and>
       oc_code_challenge_method code = Some PKCE_METHOD)"
proof -
  have "isascii x" if "pkce_challenge v = Some x" for v x
    using that b64u_encode_digits(2) [OF sha256_bytes]
    by (auto simp: pkce_challenge_def)
  then show ?thesis
    using assms
    by (cases verifier) (auto simp: check_code_verifier_def truthy_def bindr_eq_Inr same_digest_def)
qed

lemma code_lookup_known:
  assumes "tq_code p = Some given" "hash_token given = Some h" "get_oauth_code h db = Some code"
    and "cl_public_client c" "isascii (cl_id c)"
  shows "code_lookup c p db =
    (if oc_client_id code = cl_id c then Inr (given, code)
     else if isascii (oc_client_id code) then Inl (Fxa (mismatch_code given (cl_id c))) else Inl FxaCrash)"
  using assms by (auto simp: code_lookup_def same_digest_def)

lemma code_account:
  assumes "wf_db db" "code \<in> set (db_oauth_codes db)"
  obtains a where "get_account (oc_uid code) db = Some a"
proof -
  have "oc_uid code \<in> acc_uid ` set (db_accounts db)"
    using wf_parts(5) assms by (auto simp: wf_db_def wf_refs_def refs_def)
  then show thesis using that by (cases "get_account (oc_uid code) db") (auto simp: get_account_def lookup_key_None)
qed

subsection \<open>One flow\<close>

definition sample_given :: str where "sample_given = replicate 64 CHR ''a''"
definition sample_verifier :: str where "sample_verifier = replicate 43 CHR ''v''"

definition sample_authorization :: "str \<Rightarrow> authorization_request" where
  "sample_authorization challenge =
     \<lparr>aq_client_id = FENIX_CLIENT_ID, aq_state = ''s'', aq_response_type = ''code'', aq_redirect_uri = None,
      aq_scope = Some ''profile'', aq_access_type = ''offline'', aq_code_challenge_method = Some PKCE_METHOD,
      aq_code_challenge = Some challenge, aq_keys_jwe = None, aq_acr_values = None, aq_max_age = None,
      aq_service = None\<rparr>"

definition code_request :: token_request where
  "code_request =
     \<lparr>tq_grant_type = GRANT_AUTHORIZATION_CODE, tq_client_id = FENIX_CLIENT_ID, tq_code = Some sample_given,
      tq_code_verifier = Some sample_verifier, tq_redirect_uri = None, tq_refresh_token = None, tq_scope = None,
      tq_access_type = None, tq_ttl = None\<rparr>"

lemma sample_hash: obtains h where "hash_token sample_given = Some h"
proof -
  have "isascii sample_given" by code_simp
  then show thesis using that by (simp add: hash_token_def encode_ascii_def)
qed

lemma sample_challenge: obtains ch where "pkce_challenge sample_verifier = Some ch" "ch \<noteq> []"
proof -
  have a: "isascii sample_verifier" by code_simp
  have "b64u_encode (sha256 m) \<noteq> []" for m
    using b64u_decode_encode [OF sha256_bytes, of m] sha256_length [of m] b64u_decode_Nil
    by (metis list.size(3) option.inject zero_neq_numeral)
  then show thesis using that a by (simp add: pkce_challenge_def encode_ascii_def)
qed

lemma sample_flow:
  assumes "hash_token sample_given = Some h" "pkce_challenge sample_verifier = Some ch" "ch \<noteq> []"
  obtains ar code where
    "oauth_authorization sample_env (Some sample_header) (sample_authorization ch) 6000 sample_given session_database =
       (Inr ar, session_database\<lparr>db_oauth_codes := [code]\<rparr>)"
    "oc_code code = h" "oc_client_id code = FENIX_CLIENT_ID" "oc_uid code = ''u1''" "oc_created_at code = 6000"
    "oc_code_challenge code = Some ch" "oc_code_challenge_method code = Some PKCE_METHOD"
proof -
  let ?cred = "\<lparr>sc_token = sample_session, sc_account = sample_account\<rparr>"
  let ?claims = "claims_for_session sample_account sample_session"
  let ?rq = "\<lparr>gq_scope = scope_constant [''profile''], gq_access_type = ''offline'', gq_keys_jwe = None\<rparr>"
  obtain g where g: "validate_requested_grant ?claims fenix ?rq = Inr g" "gr_uid g = sl_uid ?claims"
    using sample_validated [of ?rq ?claims] by auto
  have a: "authorize sample_env ?cred (sample_authorization ch) 6000 = Inr (fenix, redirect_uri fenix, g)"
    using g(1) assms(3)
    by (simp add: authorize_def sample_authorization_def find_client_def sample_client choose_redirect_def
        requested_scope_def truthy_def parse_scope_def profile_scope(1) check_strength_def check_pkce_parameters_def
        PKCE_METHOD_def)
  have "urlsplit (redirect_uri fenix) \<noteq> None" by code_simp
  then obtain red where red: "redirect_with_code (oe_parse_qsl sample_env) (redirect_uri fenix) sample_given ''s'' = Inr red"
    by (auto simp: redirect_with_code_def Let_def)
  let ?code = "new_code ?cred fenix (sample_authorization ch) g 6000 h"
  have uid: "gr_uid g = ''u1''" using g(2) by (simp add: claims_for_session_def sample_account_def)
  have "create_oauth_code ?code (snd (delete_expired_oauth_codes (6000 - oe_code_ttl sample_env * 1000) session_database)) =
      Inr (session_database\<lparr>db_oauth_codes := [?code]\<rparr>)"
    by (simp add: create_oauth_code_def delete_expired_oauth_codes_def session_database_def empty_database_def
        has_account_def has_key_iff new_code_def uid delete_where_def) (simp add: sample_account_def)
  then show thesis
    using that [of _ ?code] a red uid assms(1)
    by (simp add: oauth_authorization_def session_of_def sample_session_of new_code_def) (simp add: sample_authorization_def)
qed

lemma sample_flow_reachable:
  "oauth_authorization sample_env (Some sample_header) (sample_authorization ch) 6000 sample_given session_database = (r, db') \<Longrightarrow>
     oauth_reachable sample_env db'"
  by (rule oauth_reachable.step [OF sample_reachable], rule oauth_step.authorization)

lemma session_database_wf: "oc_uid code = ''u1'' \<Longrightarrow> wf_db (session_database\<lparr>db_oauth_codes := [code]\<rparr>)"
  by (simp add: session_database_def empty_database_def wf_defs uniq_def refs_def refs_opt_def uniq_opt_def
      sample_account_def sample_session_def)

subsection \<open>Redemption\<close>

lemma generate_tokens_total:
  assumes "hash_token fresh = Some h" "has_account (gr_uid g) db" "get_refresh_token h db = None"
  obtains r db' where "generate_tokens env g ttl now_ms jti fresh db = (Inr r, db')"
proof (cases "gr_offline g")
  case False
  then show thesis using that by (simp add: generate_tokens_def Let_def)
next
  case True
  then show thesis
    using that assms
    by (simp add: generate_tokens_def Let_def mint_refresh_token_def create_refresh_token_def has_key_lookup
        get_refresh_token_def)
qed

lemma redemption:
  assumes "oauth_reachable env db" "registry_ok (oe_clients env)" "wf_db db"
    and "client_get (oe_clients env) i = Some c" "cl_public_client c"
    and "tq_code p = Some given" "hash_token given = Some h" "get_oauth_code h db = Some code"
    and "oc_code_challenge code = Some ch" "ch \<noteq> []"
  shows "let (r, db') = authorization_code_grant c p ttl now_ms db;
      own = (oc_client_id code = cl_id c);
      fresh = (now_ms \<le> oc_created_at code + ttl * 1000);
      proven = (\<exists>v. tq_code_verifier p = Some v \<and> v \<noteq> [] \<and> pkce_challenge v = Some ch \<and>
        oc_code_challenge_method code = Some PKCE_METHOD)
    in (\<not> isl r \<longleftrightarrow> own \<and> fresh \<and> proven) \<and>
       get_oauth_code h db' = (if own \<and> (fresh \<longrightarrow> proven) then None else Some code)"
proof -
  note reg = registry_client [OF assms(2,4)]
  note l = code_lookup_known [OF assms(6-8,5) reg(3)]
  have m: "code \<in> set (db_oauth_codes db)" "oc_code code = h"
    using assms(8) by (auto simp: get_oauth_code_def dest: lookup_key_Some)
  show ?thesis
  proof (cases "oc_client_id code = cl_id c")
    case False
    then show ?thesis using l assms(8) by (auto simp: authorization_code_grant_def Let_def)
  next
    case own: True
    note pk = check_code_verifier_bound [OF assms(9,10), of "tq_code_verifier p"]
    show ?thesis
    proof (cases "now_ms \<le> oc_created_at code + ttl * 1000")
      case False
      then show ?thesis using l own m get_code_deleted [of h db]
        by (simp add: authorization_code_grant_def Let_def)
    next
      case fresh: True
      show ?thesis
      proof (cases "check_code_verifier code (tq_code_verifier p)")
        case (Inl e)
        then show ?thesis using l own fresh pk assms(8)
          by (simp add: authorization_code_grant_def Let_def)
      next
        case (Inr u)
        obtain a where a: "get_account (oc_uid code) db = Some a" by (rule code_account [OF assms(3) m(1)])
        have "stored_scope_ok env (oc_client_id code) (oc_scope code)"
          using reachable_inv [OF assms(1,2)] m(1) by (simp add: oauth_inv_def)
        then obtain scope where "from_string (oc_scope code) = Some scope"
          using stored_scopeD [OF _ assms(4) own assms(2)] by metis
        then show ?thesis using l own fresh pk Inr a m get_code_deleted [of h db]
          by (simp add: authorization_code_grant_def Let_def grant_from_code_def)
      qed
    qed
  qed
qed

lemma sample_redemption:
  obtains h code db g db1 where "hash_token sample_given = Some h" "get_oauth_code h db = Some code"
    "oauth_reachable sample_env db" "wf_db db" "db_refresh_tokens db = []"
    "pkce_challenge sample_verifier = oc_code_challenge code" "oc_code_challenge code \<noteq> Some []"
    "authorization_code_grant fenix code_request 900 9000 db = (Inr g, db1)" "has_account (gr_uid g) db1"
    "db_refresh_tokens db1 = []"
proof -
  obtain h ch where h: "hash_token sample_given = Some h" "pkce_challenge sample_verifier = Some ch" "ch \<noteq> []"
    by (rule sample_hash, rule sample_challenge)
  obtain ar code where f: "oauth_authorization sample_env (Some sample_header) (sample_authorization ch) 6000
        sample_given session_database = (Inr ar, session_database\<lparr>db_oauth_codes := [code]\<rparr>)"
    and c: "oc_code code = h" "oc_client_id code = FENIX_CLIENT_ID" "oc_uid code = ''u1''" "oc_created_at code = 6000"
      "oc_code_challenge code = Some ch" "oc_code_challenge_method code = Some PKCE_METHOD"
    by (rule sample_flow [OF h])
  let ?db = "session_database\<lparr>db_oauth_codes := [code]\<rparr>"
  have r: "oauth_reachable sample_env ?db" "wf_db ?db"
    using sample_flow_reachable [OF f] session_database_wf [OF c(3)] by simp_all
  have l: "get_oauth_code h ?db = Some code" by (simp add: get_oauth_code_def lookup_key_def c(1))
  have v: "tq_code code_request = Some sample_given" "tq_code_verifier code_request = Some sample_verifier"
    "sample_verifier \<noteq> []" by (simp_all add: code_request_def sample_verifier_def)
  obtain g db1 where g: "authorization_code_grant fenix code_request 900 9000 ?db = (Inr g, db1)"
    using redemption [OF r(1) sample_registry r(2) sample_client fenix_fields(4) v(1) h(1) l c(5) h(3),
        where ttl = 900 and now_ms = 9000] v(2,3) c h(2)
    by (cases "authorization_code_grant fenix code_request 900 9000 ?db"; cases "fst (authorization_code_grant fenix code_request 900 9000 ?db)")
      (auto simp: Let_def)
  from g have "has_account (gr_uid g) db1 \<and> db_refresh_tokens db1 = []"
  proof (cases rule: code_grant_Inr)
    case (1 given' code' a scope)
    have "acc_uid a = oc_uid code'" using 1(4) by (auto simp: get_account_def dest: lookup_key_Some)
    then show ?thesis using 1(4,8,10)
      by (simp add: has_account_def has_key_lookup get_account_def delete_oauth_code_def session_database_def
          empty_database_def)
  qed
  moreover have "db_refresh_tokens ?db = []" by (simp add: session_database_def empty_database_def)
  ultimately show thesis using that [of h ?db code g db1] h c(5) l r g by simp
qed

text \<open>
  C24: A code bound to a PKCE challenge and presented by a registered public client is redeemed
  exactly when that client is its own, its time has not run out, and the request carries a
  verifier that hashes to the challenge under S256: a request with no verifier, or an empty one,
  is refused. The code is gone from the database afterwards if it was redeemed, or if its own
  client presented it too late; any other attempt leaves it in place, so a wrong client, a wrong
  verifier or a missing one cannot burn it. The database is one reached from the
  empty one by the OAuth operations and changes elsewhere, within its schema.
\<close>

theorem code_redemption_exact:
  assumes "oauth_reachable env db" "registry_ok (oe_clients env)" "wf_db db"
    and "client_get (oe_clients env) i = Some c" "cl_public_client c"
    and "tq_code p = Some given" "hash_token given = Some h" "get_oauth_code h db = Some code"
    and "oc_code_challenge code = Some ch" "ch \<noteq> []"
  shows "let (r, db') = authorization_code_grant c p ttl now_ms db;
      own = (oc_client_id code = cl_id c);
      fresh = (now_ms \<le> oc_created_at code + ttl * 1000);
      proven = (\<exists>v. tq_code_verifier p = Some v \<and> v \<noteq> [] \<and> pkce_challenge v = Some ch \<and>
        oc_code_challenge_method code = Some PKCE_METHOD)
    in (\<not> isl r \<longleftrightarrow> own \<and> fresh \<and> proven) \<and>
       get_oauth_code h db' = (if own \<and> (fresh \<longrightarrow> proven) then None else Some code)"
  by (rule redemption [OF assms])

theorem code_redemption_exact_witness:
  "\<exists>h code db. oauth_reachable sample_env db \<and> get_oauth_code h db = Some code \<and>
     \<not> isl (fst (authorization_code_grant fenix code_request 900 9000 db)) \<and>
     get_oauth_code h (snd (authorization_code_grant fenix code_request 900 9000 db)) = None"
proof -
  obtain h code db g db1 where s: "hash_token sample_given = Some h" "get_oauth_code h db = Some code"
    "oauth_reachable sample_env db" "wf_db db" "pkce_challenge sample_verifier = oc_code_challenge code"
    "oc_code_challenge code \<noteq> Some []" "authorization_code_grant fenix code_request 900 9000 db = (Inr g, db1)"
    by (rule sample_redemption)
  then obtain ch where ch: "oc_code_challenge code = Some ch" "ch \<noteq> []"
    using sample_challenge by (metis option.inject)
  have v: "tq_code code_request = Some sample_given" "tq_code_verifier code_request = Some sample_verifier"
    by (simp_all add: code_request_def)
  have "get_oauth_code h db1 = None"
    using code_redemption_exact [OF s(3) sample_registry s(4) sample_client fenix_fields(4) v(1) s(1,2) ch,
        where ttl = 900 and now_ms = 9000] s(7) by (simp add: Let_def)
  then show ?thesis using s by (intro exI [of _ h] exI [of _ code] exI [of _ db]) simp
qed


lemma stored_code_needed:
  assumes "get_oauth_code h db = None" "hash_token given = Some h"
    and "tq_grant_type q = GRANT_AUTHORIZATION_CODE" "tq_code q = Some given"
  shows "isl (fst (oauth_token env header q now_ms jti fresh db))"
proof (cases "oauth_token env header q now_ms jti fresh db")
  case (Pair s db2)
  have False if x: "s = Inr x" for x
  proof -
    obtain c2 g2 db3 where "authorization_code_grant c2 q (oe_code_ttl env) now_ms db = (Inr g2, db3)"
      using Pair x assms(3) by (auto simp: oauth_token_def andthen_Inr grant_for_def)
    then show False
    proof (cases rule: code_grant_Inr)
      case (1 given' code' a scope)
      then have "oc_code code' = h" using code_lookupD(1,3) [OF 1(1)] assms(2,4) by simp
      then show False using code_lookupD(2) [OF 1(1)] assms(1) by simp
    qed
  qed
  then show ?thesis using Pair by (cases s) auto
qed

text \<open>
  C25: A code is redeemed at most once. After a successful exchange, whatever happens to the
  database as long as no new code with the same hash is stored, presenting it again yields no
  token for anyone, and the same request is told that the code is unknown.
\<close>

theorem code_redeemed_once:
  assumes "oauth_token env header p now_ms jti fresh db = (Inr r, db')"
    and "tq_grant_type p = GRANT_AUTHORIZATION_CODE" "tq_code p = Some given" "hash_token given = Some h"
    and "\<forall>x \<in> set (db_oauth_codes later). oc_code x = h \<longrightarrow> x \<in> set (db_oauth_codes db')"
    and "tq_grant_type q = GRANT_AUTHORIZATION_CODE" "tq_code q = Some given"
  shows "isl (fst (oauth_token env header' q now' jti' fresh' later)) \<and>
    fst (oauth_token env header' p now' jti' fresh' later) = Inl (Fxa (unknown_code given))"
proof -
  obtain c g db1 where g: "client_get (oe_clients env) (tq_client_id p) = Some c" "tq_access_type p = None"
    "authorization_code_grant c p (oe_code_ttl env) now_ms db = (Inr g, db1)"
    "generate_tokens env g (token_ttl env p) now_ms jti fresh db1 = (Inr r, db')"
    using assms(1,2)
    by (auto simp: oauth_token_def find_client_def andthen_Inr grant_for_def GRANT_FXA_CREDENTIALS_def
        GRANT_AUTHORIZATION_CODE_def)
  from g(3) obtain code where l: "code_lookup c p db = Inr (given, code)"
    and db1: "db1 = snd (delete_oauth_code (oc_code code) db)"
  proof (cases rule: code_grant_Inr)
    case (1 given' code a scope)
    then show ?thesis using that code_lookupD(1) [OF 1(1)] assms(3) by simp
  qed
  have h: "oc_code code = h" using code_lookupD(3) [OF l] assms(4) by simp
  have "db_oauth_codes db' = db_oauth_codes db1"
    using g(4) by (cases rule: generate_tokens_state) (auto simp: create_refresh_token_def split: if_splits)
  then have "get_oauth_code h db' = None" using get_code_deleted db1 h by (simp add: get_code_iff)
  then have none: "get_oauth_code h later = None" using assms(5) by (auto simp: get_code_iff)
  have pub: "\<not> (truthy (tq_code_verifier p) \<and> \<not> cl_public_client c)"
    using l by (auto simp: code_lookup_def bindr_eq_Inr)
  have "fst (oauth_token env header' p now' jti' fresh' later) = Inl (Fxa (unknown_code given))"
    using g(1,2) assms(2-4) none pub
    by (simp add: oauth_token_def find_client_def grant_for_def authorization_code_grant_def code_lookup_def)
  then show ?thesis using stored_code_needed [OF none assms(4,6,7)] by simp
qed

theorem code_redeemed_once_witness:
  "\<exists>db r db'. oauth_token sample_env None code_request 9000 ''j'' ''f'' db = (Inr r, db') \<and>
     fst (oauth_token sample_env None code_request 9001 ''j'' ''g'' db') = Inl (Fxa (unknown_code sample_given))"
proof -
  obtain h code db g db1 where s: "hash_token sample_given = Some h"
    "authorization_code_grant fenix code_request 900 9000 db = (Inr g, db1)" "has_account (gr_uid g) db1"
    "db_refresh_tokens db1 = []" by (rule sample_redemption)
  have q: "tq_grant_type code_request = GRANT_AUTHORIZATION_CODE" "tq_code code_request = Some sample_given"
    "tq_client_id code_request = FENIX_CLIENT_ID" "tq_access_type code_request = None"
    by (simp_all add: code_request_def)
  have "hash_token ''f'' \<noteq> None" by (simp add: hash_token_def encode_ascii_def isascii_def is_ascii_def ord_def)
  then obtain k where k: "hash_token ''f'' = Some k" by auto
  have "get_refresh_token k db1 = None" by (simp add: get_token_iff s(4))
  then obtain r db' where "generate_tokens sample_env g (token_ttl sample_env code_request) 9000 ''j'' ''f'' db1 = (Inr r, db')"
    by (rule generate_tokens_total [OF k s(3)])
  moreover have "oe_code_ttl sample_env = 900" by (simp add: sample_env_def)
  ultimately have t: "oauth_token sample_env None code_request 9000 ''j'' ''f'' db = (Inr r, db')"
    using s(2) by (simp add: oauth_token_def find_client_def q sample_client grant_for_def)
  then show ?thesis
    using code_redeemed_once [OF t q(1,2) s(1) _ q(1,2), of db'] by blast
qed

subsection \<open>Revocation\<close>

text \<open>
  C26: Revocation is final. Once \<open>/oauth/destroy\<close> has answered for a refresh token, and as long as
  no new token with the same hash is minted, the token buys no access token from any client,
  opens no device route, and introspection finds nothing under it.
\<close>

theorem revoked_token_is_dead:
  assumes "oauth_destroy d db = (Inr (), db')" "hash_token (ds_token d) = Some h"
    and "\<forall>t \<in> set (db_refresh_tokens later). rt_token_id t = h \<longrightarrow> t \<in> set (db_refresh_tokens db')"
    and "tq_refresh_token q = Some (ds_token d)"
  shows "refresh_token_grant c q now_ms later = (Inl (Fxa oauth_invalid_token), later) \<and>
    refresh_credentials reg (ds_token d) later = Inl token_not_found \<and>
    describe_refresh_token (ds_token d) later = Inr None"
proof -
  have "get_refresh_token h db' = None"
  proof (cases "get_refresh_token h db")
    case None
    then show ?thesis using assms(1,2) by (simp add: oauth_destroy_def revoke_def)
  next
    case (Some tok)
    then have "rt_token_id tok = h" by (auto simp: get_refresh_token_def dest: lookup_key_Some)
    then show ?thesis
      using assms(1,2) Some
      by (auto simp: oauth_destroy_def revoke_def andthen_Inr get_token_iff delete_refresh_token_def)
  qed
  then have "get_refresh_token h later = None" using assms(3) by (auto simp: get_token_iff)
  then show ?thesis
    using assms(2,4) by (simp add: refresh_token_grant_def refresh_credentials_def describe_refresh_token_def)
qed

theorem revoked_token_is_dead_witness:
  "\<exists>h db db'. get_refresh_token h db \<noteq> None \<and> oauth_destroy \<lparr>ds_token = ''t'', ds_client_id = None\<rparr> db = (Inr (), db') \<and>
     describe_refresh_token ''t'' db' = Inr None"
proof -
  have "hash_token ''t'' \<noteq> None" by (simp add: hash_token_def encode_ascii_def isascii_def is_ascii_def ord_def)
  then obtain h where h: "hash_token ''t'' = Some h" by auto
  let ?tok = "\<lparr>rt_token_id = h, rt_uid = ''u1'', rt_client_id = FENIX_CLIENT_ID, rt_scope = ''profile'',
      rt_created_at = 1, rt_last_used_at = 1\<rparr>"
  let ?db = "session_database\<lparr>db_refresh_tokens := [?tok]\<rparr>"
  let ?d = "\<lparr>ds_token = ''t'', ds_client_id = None\<rparr> :: destroy_request"
  have l: "get_refresh_token h ?db = Some ?tok" by (simp add: get_refresh_token_def lookup_key_def)
  then have "oauth_destroy ?d ?db = (Inr (), snd (delete_refresh_token h ?db))"
    using h by (simp add: oauth_destroy_def revoke_def truthy_def)
  moreover from revoked_token_is_dead [OF this _ _ _, of h "snd (delete_refresh_token h ?db)"
      "\<lparr>tq_grant_type = GRANT_REFRESH_TOKEN, tq_client_id = FENIX_CLIENT_ID, tq_code = None,
        tq_code_verifier = None, tq_redirect_uri = None, tq_refresh_token = Some ''t'', tq_scope = None,
        tq_access_type = None, tq_ttl = None\<rparr>"] h
  have "describe_refresh_token ''t'' (snd (delete_refresh_token h ?db)) = Inr None" by simp
  ultimately show ?thesis using l by (intro exI [of _ h] exI [of _ ?db] exI [of _ "snd (delete_refresh_token h ?db)"]) simp
qed

end
