(* ===== verification/OauthTokenserver.thy ===== *)
theory OauthTokenserver
  imports OauthClaims TokenserverProps
begin

text \<open>
  Where the OAuth tier meets the tokenserver: which access tokens it takes, and until when.
\<close>

lemma access_token_text:
  assumes "rsa_signs (oe_rsa env) key"
  shows "\<forall>c \<in> set (access_token env g ttl now_ms jti). \<not> is_space c" "access_token env g ttl now_ms jti \<noteq> []"
proof -
  let ?t = "access_token env g ttl now_ms jti"
  have url: "\<not> is_space c" if "is_b64url c" for c
    using that by (auto simp: is_b64url_def is_space_def is_alnum_def is_alpha_def is_digit_def ord_def)
  have dot: "\<not> is_space CHR ''.''" by code_simp
  have b: "\<forall>c \<in> set (b64u_encode bs). \<not> is_space c" if "bytes_ok bs" for bs
    using b64u_encode_digits(1) [OF that] url by (auto simp: list_all_iff)
  have "\<forall>m. bytes_ok (rsa_sign (oe_rsa env) m)" using assms by (simp add: rsa_signs_def)
  then show "\<forall>c \<in> set ?t. \<not> is_space c"
    using b utf8_bytes dot by (auto simp: access_token_def sign_jwt_def Let_def signing_input_def b64u_json_def)
  show "?t \<noteq> []" by (simp add: access_token_def sign_jwt_def Let_def signing_input_def)
qed

lemma strip_unspaced: "\<forall>c \<in> set s. \<not> is_space c \<Longrightarrow> strip s = s"
proof -
  have d: "\<forall>c \<in> set t. \<not> is_space c \<Longrightarrow> dropWhile is_space t = t" for t by (cases t) simp_all
  assume "\<forall>c \<in> set s. \<not> is_space c"
  then show ?thesis using d [of s] d [of "rev s"] by (simp add: strip_def lstrip_by_def rstrip_by_def)
qed

lemma access_claims_get:
  "map_of (access_claims env g ttl now_ms jti) ''exp'' = Some (JInt (now_ms div 1000 + ttl))"
  "map_of (access_claims env g ttl now_ms jti) ''iat'' = Some (JInt (now_ms div 1000))"
  "obj_get (access_claims env g ttl now_ms jti) ''iss'' = JStr (oe_public_url env)"
  "obj_get (access_claims env g ttl now_ms jti) ''aud'' = JStr (token_audience env g)"
  "obj_get (access_claims env g ttl now_ms jti) ''sub'' = JStr (gr_uid g)"
  "get_or (access_claims env g ttl now_ms jti) ''scope'' v = JStr (scope_str (gr_scope g))"
  by (simp_all add: access_claims_def Let_def obj_get_def get_or_def)

lemma claims_oldsync:
  assumes "scope_ok (gr_scope g)"
  shows "has_oldsync (access_claims env g ttl now_ms jti) = Inr (covers_oldsync (gr_scope g))"
proof -
  obtain t where t: "from_string (scope_str (gr_scope g)) = Some t" "scope_values t = scope_values (gr_scope g)"
    using scope_reread [OF assms] by blast
  have "filter (\<lambda>w. w \<noteq> []) (split CHR '' '' OLDSYNC_SCOPE) = [OLDSYNC_SCOPE]" by code_simp
  then have o: "from_string OLDSYNC_SCOPE = Some (scope_constant [OLDSYNC_SCOPE])"
    using oldsync_valid by (simp add: from_string_def scope_constant_def from_array_def add_values_all)
  have "covers_oldsync t = covers_oldsync (gr_scope g)"
    using t(2) by (simp add: covers_oldsync_grants grants_def)
  then show ?thesis
    using t(1) o by (simp add: has_oldsync_def access_claims_get covers_oldsync_def)
qed

lemma audience_iff:
  assumes "client_id_ok (cl_id (gr_client g))"
  shows "token_audience env g = config_url (oe_public_url env) ''/token'' \<longleftrightarrow> covers_oldsync (gr_scope g)"
proof -
  have "CHR ''/'' \<in> set (config_url (oe_public_url env) ''/token'')" by (simp add: config_url_def)
  moreover have "\<not> is_lower_hex CHR ''/''" by code_simp
  ultimately have "cl_id (gr_client g) \<noteq> config_url (oe_public_url env) ''/token''"
    using assms by (auto simp: client_id_ok_def list_all_iff)
  then show ?thesis by (simp add: token_audience_def oe_tokenserver_url_def)
qed

lemma access_token_verified:
  fixes env :: "'key oauth_env" and cf :: "'key ts_config"
  assumes tok_def: "tok = access_token env g ttl now_ms jti" and claims_def: "claims = access_claims env g ttl now_ms jti"
    and "tc_public_url cf = oe_public_url env" "tc_json cf = oe_json env" "tc_rsa cf = oe_rsa env"
    "tc_verifiers cf = oe_verifiers env"
    and lib: "lib_reads (oe_json env) (jwt_header ACCESS_TOKEN_TYP (oe_kid env))" "lib_reads (oe_json env) claims"
    and rsa: "rsa_signs (oe_rsa env) key" "map_of (oe_verifiers env) (oe_kid env) = Some key"
    and len: "length tok \<le> MAX_JWT_LENGTH"
    and g: "scope_ok (gr_scope g)" "gr_uid g \<noteq> []" "client_id_ok (cl_id (gr_client g))"
    and rq: "header_get (tr_headers rq) ''authorization'' = Some (''Bearer '' @ tok)"
  shows "verified_access_token cf now rq =
    (if now < now_ms div 1000 + ttl \<and> covers_oldsync (gr_scope g) then Inr claims else Inl unauth)"
proof -
  have tok: "tok = sign_jwt (oe_json env) (oe_rsa env) claims (oe_kid env) ACCESS_TOKEN_TYP"
    by (simp add: tok_def claims_def access_token_def)
  note v = verify_sign_jwt [OF lib(1,2) rsa(1,2) len [unfolded tok], folded tok]
  have chk: "checked_claims (oe_json env) now 0 (b64u_json (oe_json env) claims) =
      (if now_ms div 1000 + ttl \<le> now then None else Some claims)"
    using v(3) access_claims_get(1,2) [of env g ttl now_ms jti]
    by (simp add: checked_claims_def numeric_date_def claims_def)
  have part: "partition CHR '' '' (''Bearer '' @ tok) = (''Bearer'', True, tok)"
    using partition_append [of "CHR '' ''" "''Bearer''" tok] by simp
  have "lower ''Bearer'' = ''bearer''" by code_simp
  moreover have "strip tok = tok" "tok \<noteq> []"
    using access_token_text [OF rsa(1)] strip_unspaced by (simp_all add: tok_def)
  moreover have "obj_get (jwt_header ACCESS_TOKEN_TYP (oe_kid env)) ''typ'' = JStr ''at+JWT''"
    by (simp add: jwt_header_def obj_get_def ACCESS_TOKEN_TYP_def)
  moreover note claims_oldsync [OF g(1), of env ttl now_ms jti, folded claims_def]
    audience_iff [OF g(3), of env] access_claims_get(3-5) [of env g ttl now_ms jti, folded claims_def]
  moreover have "header_or_empty (tr_headers rq) ''authorization'' = ''Bearer '' @ tok"
    using rq by (simp add: header_or_empty_def)
  ultimately show ?thesis
    unfolding verified_access_token_def Let_def using g(2) v(1,2) chk
    by (simp only: part prod.case) (simp add: assms(3-6) not_le)
qed

text \<open>
  C23: An access token opens the tokenserver exactly when its grant covers the Sync scope, and
  exactly until it expires. The token \<open>/oauth/token\<close> answers with, sent back as a bearer token, is
  verified into the claims that were signed; without the Sync scope the audience is the client
  and the tokenserver refuses it, and from the second its time to live has passed it is refused
  as well. Both tiers read the same public URL and keys, and RSA and JSON undo themselves on it.
\<close>

theorem issued_token_opens_tokenserver:
  fixes env :: "'key oauth_env" and cf :: "'key ts_config"
  assumes tok_def: "tok = access_token env g ttl now_ms jti" and claims_def: "claims = access_claims env g ttl now_ms jti"
    and "tc_public_url cf = oe_public_url env" "tc_json cf = oe_json env" "tc_rsa cf = oe_rsa env"
    "tc_verifiers cf = oe_verifiers env"
    and lib: "lib_reads (oe_json env) (jwt_header ACCESS_TOKEN_TYP (oe_kid env))" "lib_reads (oe_json env) claims"
    and rsa: "rsa_signs (oe_rsa env) key" "map_of (oe_verifiers env) (oe_kid env) = Some key"
    and len: "length tok \<le> MAX_JWT_LENGTH"
    and g: "scope_ok (gr_scope g)" "gr_uid g \<noteq> []" "client_id_ok (cl_id (gr_client g))"
    and rq: "header_get (tr_headers rq) ''authorization'' = Some (''Bearer '' @ tok)"
  shows "verified_access_token cf now rq =
    (if now < now_ms div 1000 + ttl \<and> covers_oldsync (gr_scope g) then Inr claims else Inl unauth)"
  by (rule access_token_verified [OF assms])

definition sync_grant :: grant where
  "sync_grant =
     \<lparr>gr_client = fenix, gr_uid = ''u1'', gr_email = ''A@x'', gr_scope = scope_constant [OLDSYNC_SCOPE],
      gr_auth_at = 5, gr_generation = 1, gr_profile_changed_at = 1, gr_keys_changed_at = 1,
      gr_amr = [], gr_aal = 1, gr_session_token_id = None, gr_keys_jwe = None, gr_offline = False,
      gr_key_bearing = []\<rparr>"

definition sync_env :: "(str \<times> json) list list \<Rightarrow> bool oauth_env" where
  "sync_env vs = sample_env\<lparr>oe_json := sample_lib vs, oe_public_url := ''https://x.org''\<rparr>"

lemma sync_scope: "scope_values (scope_constant [OLDSYNC_SCOPE]) = [OLDSYNC_SCOPE]"
  by code_simp

lemma sync_grant_covers: "covers_oldsync (gr_scope sync_grant)"
proof -
  have "implies OLDSYNC_SCOPE OLDSYNC_SCOPE" using oldsync_valid implies_self by blast
  then show ?thesis by (simp add: covers_oldsync_grants sync_grant_def grants_def sync_scope)
qed

definition sync_claims :: "(str \<times> json) list" where
  "sync_claims =
     [(''aud'', JStr ''https://x.org/token''), (''client_id'', JStr FENIX_CLIENT_ID), (''exp'', JInt 109),
      (''iat'', JInt 9), (''iss'', JStr ''https://x.org''), (''jti'', JStr ''j''), (''scope'', JStr OLDSYNC_SCOPE),
      (''sub'', JStr ''u1''), (''fxa-generation'', JInt 1), (''fxa-profileChangedAt'', JInt 1),
      (''acr'', JStr ''AAL1''), (''auth_time'', JInt 5)]"

lemma sync_claims_signed: "access_claims (sync_env vs) sync_grant 100 9000 ''j'' = sync_claims"
proof -
  have "''AAL'' @ show_int 1 = ''AAL1''" by code_simp
  moreover have "config_url ''https://x.org'' ''/token'' = ''https://x.org/token''" by code_simp
  moreover have "scope_str (gr_scope sync_grant) = OLDSYNC_SCOPE" by (simp add: sync_grant_def scope_str_def sync_scope)
  ultimately show ?thesis
    using sync_grant_covers
    by (simp add: access_claims_def token_audience_def oe_tokenserver_url_def sync_claims_def Let_def when_set_def
        sync_env_def) (simp add: sync_grant_def)
qed

lemma sync_dumps_apart:
  "encode_utf8 (json_dumps (\<lambda>_. []) False (JObj (jwt_header ACCESS_TOKEN_TYP ''k1''))) \<noteq>
     encode_utf8 (json_dumps (\<lambda>_. []) False (JObj sync_claims))"
  by code_simp

lemma sync_token_short:
  assumes "float_repr jl = (\<lambda>_. [])"
  shows "length (sign_jwt jl sample_rsa sync_claims ''k1'' ACCESS_TOKEN_TYP) \<le> MAX_JWT_LENGTH"
proof -
  have "sign_jwt jl sample_rsa sync_claims ''k1'' ACCESS_TOKEN_TYP = sign_jwt (sample_lib []) sample_rsa sync_claims ''k1'' ACCESS_TOKEN_TYP"
    by (simp add: sign_jwt_def b64u_json_def assms sample_lib_def del: json_dumps.simps)
  moreover have "length (sign_jwt (sample_lib []) sample_rsa sync_claims ''k1'' ACCESS_TOKEN_TYP) \<le> MAX_JWT_LENGTH" by code_simp
  ultimately show ?thesis by simp
qed

theorem issued_token_opens_tokenserver_witness:
  "\<exists>vs cf rq. header_get (tr_headers rq) ''authorization'' =
       Some (''Bearer '' @ access_token (sync_env vs) sync_grant 100 9000 ''j'') \<and>
     verified_access_token cf 108 rq = Inr sync_claims \<and> verified_access_token (cf :: bool ts_config) 109 rq = Inl unauth"
proof -
  let ?vs = "[jwt_header ACCESS_TOKEN_TYP ''k1'', sync_claims]" and ?env = "sync_env [jwt_header ACCESS_TOKEN_TYP ''k1'', sync_claims]"
  let ?tok = "access_token ?env sync_grant 100 9000 ''j''"
  let ?cf = "sample_config (sample_lib ?vs)" and ?rq = "\<lparr>tr_headers = [(''authorization'', ''Bearer '' @ ?tok)], tr_params = []\<rparr>"
  have env: "oe_json ?env = sample_lib ?vs" "oe_rsa ?env = sample_rsa" "oe_kid ?env = ''k1''"
    "oe_verifiers ?env = [(''k1'', True)]" "oe_public_url ?env = ''https://x.org''"
    by (simp_all add: sync_env_def sample_env_def)
  have r: "lib_reads (oe_json ?env) (jwt_header ACCESS_TOKEN_TYP (oe_kid ?env))" "lib_reads (oe_json ?env) sync_claims"
    unfolding env using sync_dumps_apart by (simp_all add: lib_reads_def sample_lib_def)
  have tok: "?tok = sign_jwt (sample_lib ?vs) sample_rsa sync_claims ''k1'' ACCESS_TOKEN_TYP"
    by (simp add: access_token_def sync_claims_signed env)
  have len: "length ?tok \<le> MAX_JWT_LENGTH"
    unfolding tok by (rule sync_token_short) (simp add: sample_lib_def)
  have id: "client_id_ok (cl_id (gr_client sync_grant))"
  proof -
    have "client_id_ok FENIX_CLIENT_ID" by code_simp
    then show ?thesis by (simp add: sync_grant_def)
  qed
  have "verified_access_token ?cf n ?rq = (if n < 109 then Inr sync_claims else Inl unauth)" for n
    using issued_token_opens_tokenserver [where cf = ?cf and rq = ?rq and now = n,
        OF refl sync_claims_signed [symmetric] _ _ _ _ r _ _ len _ _ id, of True] sync_grant_covers
    by (simp add: env sample_config_def header_get_def) (simp add: sync_grant_def)
  then show ?thesis by (intro exI [of _ ?vs] exI [of _ ?cf] exI [of _ ?rq]) (simp add: header_get_def)
qed

end
