(* ===== verification/Throttle.thy ===== *)
theory Throttle
  imports PyFloat FxaErrors
begin

text \<open>
  \<open>throttle.py\<close>: failed password checks per account inside a sliding window. The table is a dict
  from a normalized email to the times of its failures, oldest first; keys in insertion order.
  A time is a reading of the monotonic clock, a double, and sums round as doubles do. The lock
  makes each operation atomic.
\<close>

definition MAX_ENTRIES :: nat where "MAX_ENTRIES = 4096"

record throttle =
  th_limit :: int
  th_window :: int
  th_failures :: "(str \<times> rat list) list"

definition new_throttle :: "int \<Rightarrow> int \<Rightarrow> throttle" where
  "new_throttle limit window = \<lparr>th_limit = limit, th_window = window, th_failures = []\<rparr>"

definition th_enabled :: "throttle \<Rightarrow> bool" where
  "th_enabled th \<longleftrightarrow> 0 < th_limit th"

definition dict_remove :: "'k \<Rightarrow> ('k \<times> 'v) list \<Rightarrow> ('k \<times> 'v) list" where
  "dict_remove k d = filter (\<lambda>kv. fst kv \<noteq> k) d"

definition horizon :: "throttle \<Rightarrow> rat \<Rightarrow> rat" where
  "horizon th now = binary64 (now - of_int (th_window th))"

definition drop_expired :: "throttle \<Rightarrow> rat list \<Rightarrow> rat \<Rightarrow> rat list" where
  "drop_expired th recent now = dropWhile (\<lambda>t. t \<le> horizon th now) recent"

definition th_prune :: "str \<Rightarrow> rat \<Rightarrow> throttle \<Rightarrow> rat list option \<times> throttle" where
  "th_prune key now th =
     (case map_of (th_failures th) key of
        None \<Rightarrow> (None, th)
      | Some recent \<Rightarrow>
          (case drop_expired th recent now of
             [] \<Rightarrow> (None, th\<lparr>th_failures := dict_remove key (th_failures th)\<rparr>)
           | t # ts \<Rightarrow> (Some (t # ts), th\<lparr>th_failures := dict_set key (t # ts) (th_failures th)\<rparr>)))"

definition retry_after :: "str \<Rightarrow> rat \<Rightarrow> throttle \<Rightarrow> int \<times> throttle" where
  "retry_after key now th =
     (if \<not> th_enabled th then (0, th)
      else
        (case th_prune key now th of
           (None, th') \<Rightarrow> (0, th')
         | (Some recent, th') \<Rightarrow>
             (if int (length recent) < th_limit th then 0
              else max 1 (py_trunc (binary64 (binary64 (hd recent + of_int (th_window th)) - now)) + 1), th')))"

definition th_check :: "str \<Rightarrow> rat \<Rightarrow> throttle \<Rightarrow> (fxa_exn + unit) \<times> throttle" where
  "th_check key now th =
     (case retry_after key now th of
        (wait, th') \<Rightarrow> (if wait \<noteq> 0 then Inl (Fxa (too_many_requests wait)) else Inr (), th'))"

definition th_evict :: "rat \<Rightarrow> throttle \<Rightarrow> throttle" where
  "th_evict now th =
     (if length (th_failures th) < MAX_ENTRIES then th
      else
        (let pruned = fold (\<lambda>k t. snd (th_prune k now t)) (map fst (th_failures th)) th
         in pruned\<lparr>th_failures := drop (Suc (length (th_failures pruned)) - MAX_ENTRIES) (th_failures pruned)\<rparr>))"

definition record_failure :: "str \<Rightarrow> rat \<Rightarrow> throttle \<Rightarrow> throttle" where
  "record_failure key now th =
     (if \<not> th_enabled th then th
      else
        (let (recent, rest) =
           (case map_of (th_failures th) key of
              None \<Rightarrow> ([], th_evict now th)
            | Some recent \<Rightarrow> (recent, th\<lparr>th_failures := dict_remove key (th_failures th)\<rparr>))
         in rest\<lparr>th_failures := th_failures rest @ [(key, drop_expired th recent now @ [now])]\<rparr>))"

definition record_success :: "str \<Rightarrow> throttle \<Rightarrow> throttle" where
  "record_success key th =
     (if \<not> th_enabled th then th else th\<lparr>th_failures := dict_remove key (th_failures th)\<rparr>)"

end
