(* ===== verification/Accounts.thy ===== *)
theory Accounts
  imports AuthCredentials Throttle
begin

text \<open>
  \<open>accounts.py\<close>: provisioning, password checks behind the throttle, session and key-fetch tokens.
  Random bytes and clock readings are arguments; the wall clock in milliseconds, the throttle's
  monotonic clock in seconds, read once before the stretching and once after it.
\<close>

definition VERIFIER_VERSION :: int where "VERIFIER_VERSION = 1"

subsection \<open>Provisioning\<close>

record account_random =
  rn_auth_salt :: bytes
  rn_uid :: bytes
  rn_email_code :: bytes
  rn_ka :: bytes
  rn_wrap_wrap_kb :: bytes

definition new_account :: "str \<Rightarrow> str option \<Rightarrow> account_random \<Rightarrow> bytes \<Rightarrow> int \<Rightarrow> account" where
  "new_account email locale rnd verifier created_at =
     \<lparr>acc_uid = hex_of (rn_uid rnd), acc_email = strip email, acc_normalized_email = normalize_email email,
      acc_email_code = hex_of (rn_email_code rnd), acc_ka = hex_of (rn_ka rnd),
      acc_wrap_wrap_kb = hex_of (rn_wrap_wrap_kb rnd), acc_auth_salt = hex_of (rn_auth_salt rnd),
      acc_verify_hash = hex_of verifier, acc_verifier_version = VERIFIER_VERSION,
      acc_verifier_set_at = created_at, acc_created_at = created_at, acc_keys_changed_at = created_at,
      acc_profile_changed_at = created_at, acc_locale = locale\<rparr>"

definition provision ::
  "str \<Rightarrow> bytes \<Rightarrow> str option \<Rightarrow> account_random \<Rightarrow> int \<Rightarrow> database \<Rightarrow> (account \<times> str) fxa_result" where
  "provision email auth_pw locale rnd now_ms db =
     (let stretched = stretch auth_pw (rn_auth_salt rnd)
      in andthen (of_option FxaCrash (verify_hash stretched), db) (\<lambda>verifier db.
         let a = new_account email locale rnd verifier now_ms
         in (case create_account a db of
               None \<Rightarrow> (Inl (Fxa (account_exists (Some (acc_email a)))), db)
             | Some db' \<Rightarrow> (Inr (a, stretched), db'))))"

definition provision_with_password ::
  "str \<Rightarrow> str \<Rightarrow> str option \<Rightarrow> account_random \<Rightarrow> int \<Rightarrow> database \<Rightarrow> account fxa_result" where
  "provision_with_password email password locale rnd now_ms db =
     andthen (of_option FxaCrash (credentials_v1 email password), db) (\<lambda>c db.
     andthen (provision email (cr_auth_pw c) locale rnd now_ms db) (\<lambda>(a, _) db.
       (Inr a, db)))"

subsection \<open>Password checks\<close>

text \<open>The throttle is optional; without one nothing is counted.\<close>

definition opt_check :: "str \<Rightarrow> rat \<Rightarrow> throttle option \<Rightarrow> (fxa_exn + unit) \<times> throttle option" where
  "opt_check key now th =
     (case th of None \<Rightarrow> (Inr (), None) | Some t \<Rightarrow> (case th_check key now t of (r, t') \<Rightarrow> (r, Some t')))"

definition password_check :: "account \<Rightarrow> bytes \<Rightarrow> fxa_exn + str \<times> bool" where
  "password_check a auth_pw =
     bindr (of_option FxaCrash (fromhex (acc_auth_salt a))) (\<lambda>salt.
       let stretched = stretch auth_pw salt
       in bindr (of_option FxaCrash (fromhex (acc_verify_hash a))) (\<lambda>h.
            Inr (stretched, matches stretched h)))"

definition accounts_authenticate ::
  "str \<Rightarrow> bytes \<Rightarrow> rat \<Rightarrow> rat \<Rightarrow> database \<Rightarrow> throttle option \<Rightarrow> (fxa_exn + account \<times> str) \<times> throttle option" where
  "accounts_authenticate email auth_pw checked_at failed_at db th =
     andthen (of_option (Fxa (unknown_account (Some email))) (account_by_email email db), th) (\<lambda>a th.
     let key = normalize_email email
     in andthen (opt_check key checked_at th) (\<lambda>_ th.
        andthen (password_check a auth_pw, th) (\<lambda>(stretched, ok) th.
          if \<not> ok
          then (Inl (Fxa (incorrect_password (acc_email a) (strip email))),
                map_option (record_failure key failed_at) th)
          else (Inr (a, stretched), map_option (record_success key) th))))"

subsection \<open>Tokens\<close>

definition new_session ::
  "account \<Rightarrow> str \<Rightarrow> int option \<Rightarrow> int \<Rightarrow> token_keys \<Rightarrow> session_token" where
  "new_session a user_agent auth_at now_ms k =
     \<lparr>st_token_id = hex_of (tk_id k), st_uid = acc_uid a, st_auth_key = hex_of (tk_auth_key k),
      st_created_at = now_ms, st_auth_at = (case auth_at of None \<Rightarrow> now_ms | Some t \<Rightarrow> t),
      st_last_access_time = now_ms, st_user_agent = user_agent\<rparr>"

definition start_session ::
  "account \<Rightarrow> str \<Rightarrow> int option \<Rightarrow> int \<Rightarrow> bytes \<Rightarrow> database \<Rightarrow> (token_keys \<times> session_token) fxa_result" where
  "start_session a user_agent auth_at now_ms rnd db =
     andthen (of_option FxaCrash (derive_token_keys SESSION rnd), db) (\<lambda>k db.
       let tok = new_session a user_agent auth_at now_ms k
       in andthen (insert_row (create_session_token tok db) db) (\<lambda>_ db. (Inr (k, tok), db)))"

definition key_bundle :: "account \<Rightarrow> str \<Rightarrow> token_keys \<Rightarrow> bytes option" where
  "key_bundle a stretched k =
     Option.bind (fromhex (acc_wrap_wrap_kb a)) (\<lambda>wrapped.
     Option.bind (wrap stretched wrapped) (\<lambda>wrap_kb.
     Option.bind (fromhex (acc_ka a)) (\<lambda>ka.
       bundle_account_keys (tk_bundle_key k) ka wrap_kb)))"

definition start_key_fetch :: "account \<Rightarrow> str \<Rightarrow> int \<Rightarrow> bytes \<Rightarrow> database \<Rightarrow> token_keys fxa_result" where
  "start_key_fetch a stretched now_ms rnd db =
     andthen (of_option FxaCrash (derive_token_keys KEY_FETCH rnd), db) (\<lambda>k db.
     andthen (of_option FxaCrash (key_bundle a stretched k), db) (\<lambda>sealed db.
     andthen (insert_row (create_key_fetch_token
         \<lparr>kf_token_id = hex_of (tk_id k), kf_uid = acc_uid a, kf_auth_key = hex_of (tk_auth_key k),
          kf_key_bundle = hex_of sealed, kf_created_at = now_ms\<rparr> db) db) (\<lambda>_ db.
       (Inr k, db))))"

end
