(* ===== verification/AuthRoutes.thy ===== *)
theory AuthRoutes
  imports Accounts OauthRoutes
begin

text \<open>
  \<open>auth/account.py\<close>, \<open>auth/session.py\<close>, \<open>auth/recovery_email.py\<close>, \<open>auth/util.py\<close> and the payloads of
  \<open>auth/models.py\<close>. A handler takes what the framework has already read from the request (the
  headers, the query, a payload whose constraints hold) and answers a JSON document. The state
  is the database beside the throttle.
\<close>

type_synonym auth_state = "database \<times> throttle"
type_synonym 'a auth_result = "(fxa_exn + 'a) \<times> auth_state"

definition on_db :: "'a fxa_result \<Rightarrow> throttle \<Rightarrow> 'a auth_result" where
  "on_db r th = (case r of (v, db) \<Rightarrow> (v, (db, th)))"

subsection \<open>Payloads\<close>

definition is_email_char :: "char \<Rightarrow> bool" where
  "is_email_char c \<longleftrightarrow> is_alnum c \<or> c \<in> set ''.!#$%&*+/=?^_`{|}~-'' \<or> ord c = 39"

definition EMAIL_USER :: "str \<Rightarrow> bool" where
  "EMAIL_USER = re_dollar (class_between is_email_char 1 64)"

definition domain_label :: "str \<Rightarrow> bool" where
  "domain_label l \<longleftrightarrow>
     l \<noteq> [] \<and> length l \<le> 255 \<and> list_all (\<lambda>c. is_alnum c \<or> c = CHR ''-'') l \<and>
     is_alnum (hd l) \<and> is_alnum (last l)"

definition EMAIL_DOMAIN :: "str \<Rightarrow> bool" where
  "EMAIL_DOMAIN = re_dollar (\<lambda>s. let labels = split CHR ''.'' s in 2 \<le> length labels \<and> list_all domain_label labels)"

text \<open>
  \<open>domain.encode("idna").decode("ascii")\<close>: an ASCII domain is checked for the length of its labels and
  comes back as it is; what becomes of another one is the parameter \<open>punycode\<close>.
\<close>

definition idna_encode :: "(str \<Rightarrow> str option) \<Rightarrow> str \<Rightarrow> str option" where
  "idna_encode punycode domain =
     (if domain = [] then Some []
      else if isascii domain then
        (let labels = split CHR ''.'' domain
         in if list_all (\<lambda>l. 0 < length l \<and> length l < 64) (butlast labels) \<and> length (last labels) < 64
            then Some domain else None)
      else punycode domain)"

definition valid_email :: "(str \<Rightarrow> str option) \<Rightarrow> str \<Rightarrow> bool" where
  "valid_email punycode v \<longleftrightarrow>
     (case partition CHR ''@'' v of (user, found, domain) \<Rightarrow>
        found \<and> CHR ''@'' \<notin> set domain \<and> length domain \<le> 255 \<and> EMAIL_USER user \<and>
        (case idna_encode punycode domain of None \<Rightarrow> False | Some d \<Rightarrow> EMAIL_DOMAIN d))"

definition email_ok :: "(str \<Rightarrow> str option) \<Rightarrow> str \<Rightarrow> bool" where
  "email_ok punycode v \<longleftrightarrow> length v \<le> 255 \<and> valid_email punycode v"

definition hex32 :: "str \<Rightarrow> bool" where
  "hex32 = class_between is_hex 32 32"

record login_request =
  lg_email :: str
  lg_authPW :: str
  lg_service :: "str option"
  lg_resume :: "str option"
  lg_reason :: "str option"
  lg_original_login_email :: "str option"

definition account_create_ok :: "(str \<Rightarrow> str option) \<Rightarrow> login_request \<Rightarrow> bool" where
  "account_create_ok punycode p \<longleftrightarrow>
     email_ok punycode (lg_email p) \<and> hex_value (lg_authPW p) \<and> opt_all (within_length 0 16) (lg_service p) \<and>
     opt_all (within_length 0 2048) (lg_resume p)"

definition account_login_ok :: "(str \<Rightarrow> str option) \<Rightarrow> login_request \<Rightarrow> bool" where
  "account_login_ok punycode p \<longleftrightarrow>
     email_ok punycode (lg_email p) \<and> hex_value (lg_authPW p) \<and> opt_all (within_length 0 16) (lg_service p) \<and>
     opt_all (within_length 0 16) (lg_reason p) \<and> opt_all (email_ok punycode) (lg_original_login_email p)"

definition account_destroy_ok :: "(str \<Rightarrow> str option) \<Rightarrow> str \<Rightarrow> str \<Rightarrow> bool" where
  "account_destroy_ok punycode email authPW \<longleftrightarrow> email_ok punycode email \<and> hex_value authPW"

definition auth_pw_of :: "str \<Rightarrow> fxa_exn + bytes" where
  "auth_pw_of h = of_option FxaCrash (fromhex h)"

text \<open>\<open>accounts.authenticate\<close> on the application's throttle, at one reading of each clock.\<close>

definition password_authenticated ::
  "str \<Rightarrow> str \<Rightarrow> rat \<Rightarrow> rat \<Rightarrow> auth_state \<Rightarrow> (account \<times> str) auth_result" where
  "password_authenticated email authPW checked_at failed_at s =
     andthen (auth_pw_of authPW, s) (\<lambda>pw (db, th).
       (case accounts_authenticate email pw checked_at failed_at db (Some th) of
          (r, th') \<Rightarrow> (r, (db, the th'))))"

subsection \<open>Accounts\<close>

definition with_key_fetch ::
  "bool \<Rightarrow> account \<Rightarrow> str \<Rightarrow> int \<Rightarrow> bytes \<Rightarrow> (str \<times> json) list \<Rightarrow> database \<Rightarrow> json fxa_result" where
  "with_key_fetch keys a stretched now_ms rnd response db =
     (if keys then
        andthen (start_key_fetch a stretched now_ms rnd db) (\<lambda>k db.
          (Inr (JObj (response @ [(''keyFetchToken'', JStr (token_of k))])), db))
      else (Inr (JObj response), db))"

record token_random =
  tr_session :: bytes
  tr_key_fetch :: bytes

definition account_create ::
  "bool \<Rightarrow> login_request \<Rightarrow> bool \<Rightarrow> str option \<Rightarrow> str option \<Rightarrow> int \<Rightarrow> account_random \<Rightarrow> token_random \<Rightarrow>
   database \<Rightarrow> json fxa_result" where
  "account_create open_registration p keys accept_language user_agent now_ms rnd tokens db =
     andthen (guardr open_registration (Fxa (feature_not_enabled None)), db) (\<lambda>_ db.
     andthen (auth_pw_of (lg_authPW p), db) (\<lambda>pw db.
     andthen (provision (lg_email p) pw accept_language rnd now_ms db) (\<lambda>(a, stretched) db.
     andthen (start_session a (case user_agent of None \<Rightarrow> [] | Some u \<Rightarrow> u) None now_ms (tr_session tokens) db) (\<lambda>(k, tok) db.
       with_key_fetch keys a stretched now_ms (tr_key_fetch tokens)
         [(''uid'', JStr (acc_uid a)), (''sessionToken'', JStr (token_of k)), (''authAt'', JInt (last_auth_at tok))] db))))"

definition account_login ::
  "login_request \<Rightarrow> bool \<Rightarrow> str option \<Rightarrow> int \<Rightarrow> rat \<Rightarrow> rat \<Rightarrow> token_random \<Rightarrow> auth_state \<Rightarrow> json auth_result" where
  "account_login p keys user_agent now_ms checked_at failed_at tokens s =
     andthen (password_authenticated (lg_email p) (lg_authPW p) checked_at failed_at s) (\<lambda>(a, stretched) (db, th).
       on_db (andthen (start_session a (case user_agent of None \<Rightarrow> [] | Some u \<Rightarrow> u) None now_ms (tr_session tokens) db)
         (\<lambda>(k, tok) db.
           with_key_fetch keys a stretched now_ms (tr_key_fetch tokens)
             [(''uid'', JStr (acc_uid a)), (''sessionToken'', JStr (token_of k)), (''authAt'', JInt (last_auth_at tok)),
              (''verified'', JBool True), (''emailVerified'', JBool True), (''sessionVerified'', JBool True),
              (''metricsEnabled'', JBool False)] db)) th)"

definition account_status :: "str option \<Rightarrow> str option \<Rightarrow> database \<Rightarrow> fxa_exn + json" where
  "account_status header uid db =
     bindr (optional_session header db) (\<lambda>cred.
       (case cred of
          Some c \<Rightarrow>
            Inr (JObj [(''exists'', JBool True), (''locale'', opt_str (acc_locale (sc_account c))),
                       (''hasPassword'', JBool (0 < acc_verifier_set_at (sc_account c)))])
        | None \<Rightarrow>
            bindr (of_option (Fxa (missing_request_parameter (Some ''uid''))) uid) (\<lambda>u.
              Inr (JObj [(''exists'', JBool (get_account u db \<noteq> None))]))))"

definition account_status_check :: "str \<Rightarrow> database \<Rightarrow> json" where
  "account_status_check email db =
     (let found = account_by_email email db \<noteq> None
      in JObj [(''exists'', JBool found), (''hasPassword'', JBool found), (''hasLinkedAccount'', JBool False),
               (''hasPasskey'', JBool False)])"

definition account_profile :: "str option \<Rightarrow> database \<Rightarrow> fxa_exn + json" where
  "account_profile header db =
     bindr (session_of header db) (\<lambda>c. let a = sc_account c in
       Inr (JObj [(''email'', JStr (acc_email a)), (''locale'', opt_str (acc_locale a)),
         (''authenticationMethods'', JArr [JStr ''pwd'', JStr ''email'']), (''authenticatorAssuranceLevel'', JInt 1),
         (''profileChangedAt'', JInt (acc_profile_changed_at a)), (''keysChangedAt'', JInt (acc_keys_changed_at a)),
         (''metricsEnabled'', JBool False)]))"

definition account_keys :: "str option \<Rightarrow> database \<Rightarrow> json fxa_result" where
  "account_keys header db =
     andthen (key_fetch_of header db, db) (\<lambda>c db.
       (Inr (JObj [(''bundle'', JStr (kf_key_bundle (kc_token c)))]),
        snd (delete_key_fetch_token (kf_token_id (kc_token c)) db)))"

definition account_destroy ::
  "str option \<Rightarrow> str \<Rightarrow> str \<Rightarrow> rat \<Rightarrow> rat \<Rightarrow> auth_state \<Rightarrow> json auth_result" where
  "account_destroy header email authPW checked_at failed_at s =
     andthen (session_of header (fst s), s) (\<lambda>c s.
     andthen (password_authenticated email authPW checked_at failed_at s) (\<lambda>(a, _) (db, th).
     andthen (guardr (acc_uid a = acc_uid (sc_account c)) (Fxa (unknown_account (Some email))), (db, th)) (\<lambda>_ (db, th).
       (Inr (JObj []), (snd (delete_account (acc_uid a) db), th)))))"

definition credentials_status :: "str \<Rightarrow> database \<Rightarrow> fxa_exn + json" where
  "credentials_status email db =
     bindr (of_option (Fxa (unknown_account (Some email))) (account_by_email email db)) (\<lambda>_.
       Inr (JObj [(''currentVersion'', JStr ''v1''), (''upgradeNeeded'', JBool False)]))"

subsection \<open>Sessions\<close>

definition session_status :: "str option \<Rightarrow> database \<Rightarrow> fxa_exn + json" where
  "session_status header db =
     bindr (session_of header db) (\<lambda>c.
       Inr (JObj [(''state'', JStr ''verified''), (''uid'', JStr (acc_uid (sc_account c))),
         (''details'', JObj [(''accountEmailVerified'', JBool True), (''sessionVerificationMethod'', JNull),
            (''sessionVerified'', JBool True), (''sessionVerificationMeetsMinimumAAL'', JBool True),
            (''verified'', JBool True)])]))"

definition custom_target :: "str \<Rightarrow> account \<Rightarrow> database \<Rightarrow> fxa_exn + session_token" where
  "custom_target token a db =
     bindr (of_option FxaCrash (Option.bind (fromhex token) (derive_token_keys SESSION))) (\<lambda>k.
     bindr (of_option (Fxa (invalid_token (Some ''Invalid session token''))) (get_session_token (hex_of (tk_id k)) db)) (\<lambda>target.
     bindr (guardr (st_uid target = acc_uid a) (Fxa (invalid_token (Some ''Invalid session token'')))) (\<lambda>_.
       Inr target)))"

definition session_destroy :: "str option \<Rightarrow> str option \<Rightarrow> database \<Rightarrow> json fxa_result" where
  "session_destroy header custom db =
     andthen (session_of header db, db) (\<lambda>c db.
     andthen (if truthy custom then bindr (custom_target (the custom) (sc_account c) db) (\<lambda>t. Inr (st_token_id t))
              else Inr (st_token_id (sc_token c)), db) (\<lambda>token_id db.
       (Inr (JObj []), snd (delete_session_token token_id db))))"

definition session_duplicate :: "str option \<Rightarrow> str option \<Rightarrow> int \<Rightarrow> bytes \<Rightarrow> database \<Rightarrow> json fxa_result" where
  "session_duplicate header user_agent now_ms rnd db =
     andthen (session_of header db, db) (\<lambda>c db.
     andthen (of_option FxaCrash (derive_token_keys SESSION rnd), db) (\<lambda>k db.
       let original = sc_token c;
           duplicate =
             \<lparr>st_token_id = hex_of (tk_id k), st_uid = st_uid original, st_auth_key = hex_of (tk_auth_key k),
              st_created_at = st_created_at original, st_auth_at = st_auth_at original,
              st_last_access_time = now_ms,
              st_user_agent = (case user_agent of None \<Rightarrow> st_user_agent original | Some u \<Rightarrow> u)\<rparr>
       in andthen (insert_row (create_session_token duplicate db) db) (\<lambda>_ db.
            (Inr (JObj [(''uid'', JStr (st_uid duplicate)), (''sessionToken'', JStr (token_of k)),
               (''authAt'', JInt (last_auth_at duplicate)), (''emailVerified'', JBool True),
               (''sessionVerified'', JBool True), (''verified'', JBool True)]), db))))"

definition session_reauth ::
  "str option \<Rightarrow> login_request \<Rightarrow> bool \<Rightarrow> int \<Rightarrow> rat \<Rightarrow> rat \<Rightarrow> bytes \<Rightarrow> auth_state \<Rightarrow> json auth_result" where
  "session_reauth header p keys now_ms checked_at failed_at rnd s =
     andthen (session_of header (fst s), s) (\<lambda>c s.
     andthen (password_authenticated (lg_email p) (lg_authPW p) checked_at failed_at s) (\<lambda>(a, stretched) (db, th).
     andthen (guardr (acc_uid a = acc_uid (sc_account c)) (Fxa (unknown_account (Some (lg_email p)))), (db, th)) (\<lambda>_ (db, th).
       on_db (with_key_fetch keys a stretched now_ms rnd
         [(''uid'', JStr (acc_uid a)), (''authAt'', JInt (now_ms div 1000)), (''verified'', JBool True),
          (''emailVerified'', JBool True), (''sessionVerified'', JBool True), (''metricsEnabled'', JBool False)]
         (reauthenticate_session_token (st_token_id (sc_token c)) now_ms db)) th)))"

subsection \<open>The rest\<close>

definition recovery_email_status :: "str option \<Rightarrow> database \<Rightarrow> fxa_exn + json" where
  "recovery_email_status header db =
     bindr (session_of header db) (\<lambda>c.
       Inr (JObj [(''email'', JStr (acc_email (sc_account c))), (''verified'', JBool True),
         (''sessionVerified'', JBool True), (''emailVerified'', JBool True)]))"

definition get_random_bytes :: "bytes \<Rightarrow> json" where
  "get_random_bytes rnd = JObj [(''data'', JStr (hex_of rnd))]"

end
