(* ===== verification/ThrottleProps.thy ===== *)
theory ThrottleProps
  imports Throttle
begin

text \<open>
  What the throttle promises: a bound on the guesses a window lets through and on the table, and
  that every wait ends. Rounding to a double is monotone, and that is all the proofs use of it.
\<close>

subsection \<open>Rounding is monotone\<close>

lemma round_half_even_mono: "x \<le> y \<Longrightarrow> round_half_even x \<le> round_half_even y"
proof -
  assume xy: "x \<le> y"
  have f: "\<lfloor>x\<rfloor> \<le> \<lfloor>y\<rfloor>" using xy by (rule floor_mono)
  have up: "round_half_even z \<le> \<lfloor>z\<rfloor> + 1" "\<lfloor>z\<rfloor> \<le> round_half_even z" for z
    by (simp_all add: round_half_even_def Let_def)
  show ?thesis
  proof (cases "\<lfloor>x\<rfloor> = \<lfloor>y\<rfloor>")
    case True
    then show ?thesis using xy by (auto simp: round_half_even_def Let_def)
  next
    case False
    then show ?thesis using f up(1) [of x] up(2) [of y] by linarith
  qed
qed

lemma round_half_even_whole [simp]: "round_half_even (of_int n) = n"
  by (simp add: round_half_even_def Let_def)

lemma binary64_between:
  assumes "0 < r"
  shows "2 powi (exp2_of r) \<le> binary64 r" "binary64 r \<le> 2 powi (exp2_of r + 1)"
proof -
  let ?u = "ulp r"
  have u: "?u = 2 powi (exp2_of r - 52)" by (simp add: ulp_def)
  have lo: "of_int (2 ^ 52) * ?u = 2 powi (exp2_of r)" and hi: "of_int (2 ^ 53) * ?u = 2 powi (exp2_of r + 1)"
    unfolding u by (simp_all add: power_int_diff power_int_add)
  have "of_int (2 ^ 52) \<le> r / ?u" "r / ?u \<le> of_int (2 ^ 53)"
    using exp2_of_bounds [OF assms] lo hi by (simp_all add: pos_le_divide_eq pos_divide_le_eq)
  then have "2 ^ 52 \<le> round_half_even (r / ?u)" "round_half_even (r / ?u) \<le> 2 ^ 53"
    using round_half_even_mono round_half_even_whole by metis+
  then have "of_int (2 ^ 52) * ?u \<le> binary64 r" "binary64 r \<le> of_int (2 ^ 53) * ?u"
    unfolding binary64_pos_eq [OF assms] by (metis mult_right_mono of_int_le_iff ulp_pos less_imp_le)+
  then show "2 powi (exp2_of r) \<le> binary64 r" "binary64 r \<le> 2 powi (exp2_of r + 1)" unfolding lo hi .
qed

lemma binary64_pos: "0 < r \<Longrightarrow> 0 < binary64 r"
  using binary64_between(1) by (metis less_le_trans zero_less_numeral zero_less_power_int)

lemma binary64_mono_pos:
  assumes "0 < x" "x \<le> y"
  shows "binary64 x \<le> binary64 y"
proof -
  have y: "0 < y" using assms by simp
  have e: "exp2_of x \<le> exp2_of y"
  proof (rule ccontr)
    assume "\<not> exp2_of x \<le> exp2_of y"
    then have "(2::rat) powi (exp2_of y + 1) \<le> 2 powi (exp2_of x)" by (intro pow2_mono) simp
    then show False using exp2_of_bounds(1) [OF assms(1)] exp2_of_bounds(2) [OF y] assms(2) by linarith
  qed
  show ?thesis
  proof (cases "exp2_of x = exp2_of y")
    case True
    then have u: "ulp x = ulp y" by (simp add: ulp_def)
    have "round_half_even (x / ulp y) \<le> round_half_even (y / ulp y)"
      by (intro round_half_even_mono divide_right_mono assms(2)) (simp add: less_imp_le)
    then show ?thesis
      unfolding binary64_pos_eq [OF assms(1)] binary64_pos_eq [OF y] u
      by (intro mult_right_mono) (simp_all add: less_imp_le)
  next
    case False
    then have "(2::rat) powi (exp2_of x + 1) \<le> 2 powi (exp2_of y)" using e by (intro pow2_mono) simp
    then show ?thesis using binary64_between(2) [OF assms(1)] binary64_between(1) [OF y] by linarith
  qed
qed

lemma binary64_minus: "binary64 (- r) = - binary64 r"
  by (simp add: binary64_def Let_def)

lemma binary64_0 [simp]: "binary64 0 = 0"
  by (simp add: binary64_def)

lemma binary64_mono:
  assumes "x \<le> y"
  shows "binary64 x \<le> binary64 y"
proof -
  consider (pos) "0 < x" | (neg) "y < 0" | (mixed) "x \<le> 0" "0 \<le> y" by linarith
  then show ?thesis
  proof cases
    case pos
    then show ?thesis using assms by (rule binary64_mono_pos)
  next
    case neg
    then have "binary64 (- y) \<le> binary64 (- x)" using assms by (intro binary64_mono_pos) simp_all
    then show ?thesis by (simp add: binary64_minus)
  next
    case mixed
    have "binary64 x \<le> 0"
      using binary64_pos [of "- x"] mixed(1) by (cases "x = 0") (simp_all add: binary64_minus)
    moreover have "0 \<le> binary64 y" using binary64_pos [of y] mixed(2) by (cases "y = 0") simp_all
    ultimately show ?thesis by linarith
  qed
qed

lemma horizon_mono: "s \<le> t \<Longrightarrow> horizon th s \<le> horizon th t"
  by (simp add: horizon_def binary64_mono)

subsection \<open>What each operation does to one account\<close>

definition recent_of :: "throttle \<Rightarrow> str \<Rightarrow> rat list" where
  "recent_of th k = (case map_of (th_failures th) k of None \<Rightarrow> [] | Some l \<Rightarrow> l)"

definition keys_of :: "throttle \<Rightarrow> str set" where
  "keys_of th = set (map fst (th_failures th))"

definition one_each :: "throttle \<Rightarrow> bool" where
  "one_each th \<longleftrightarrow> distinct (map fst (th_failures th))"

lemma map_of_dict_remove: "map_of (dict_remove k d) = (map_of d)(k := None)"
  by (induction d) (auto simp: dict_remove_def fun_eq_iff)

lemma keys_dict_remove: "set (map fst (dict_remove k d)) = set (map fst d) - {k}"
  by (auto simp: dict_remove_def)

lemma distinct_dict_remove: "distinct (map fst d) \<Longrightarrow> distinct (map fst (dict_remove k d))"
  unfolding dict_remove_def by (rule distinct_map_filterI)

lemma same_settings:
  assumes "th_limit t = th_limit th" "th_window t = th_window th"
  shows "th_enabled t = th_enabled th" "horizon t now = horizon th now" "drop_expired t l now = drop_expired th l now"
  using assms by (simp_all add: th_enabled_def horizon_def drop_expired_def)

lemma drop_expired_twice [simp]: "drop_expired th (drop_expired th l now) now = drop_expired th l now"
  by (simp add: drop_expired_def)

lemma prune_effect:
  "fst (th_prune key now th) = (case drop_expired th (recent_of th key) now of [] \<Rightarrow> None | t # ts \<Rightarrow> Some (t # ts))"
  "recent_of (snd (th_prune key now th)) k =
     (if k = key then drop_expired th (recent_of th key) now else recent_of th k)"
  "keys_of (snd (th_prune key now th)) \<subseteq> keys_of th"
  "one_each th \<Longrightarrow> one_each (snd (th_prune key now th))"
  "th_limit (snd (th_prune key now th)) = th_limit th" "th_window (snd (th_prune key now th)) = th_window th"
proof -
  have e: "drop_expired th [] now = []" by (simp add: drop_expired_def)
  have m: "map_of d key = Some l \<Longrightarrow> key \<in> set (map fst d)" for d and l :: "rat list"
    by (simp add: map_of_SomeD image_iff) (metis fst_conv map_of_SomeD)
  show "fst (th_prune key now th) = (case drop_expired th (recent_of th key) now of [] \<Rightarrow> None | t # ts \<Rightarrow> Some (t # ts))"
    "recent_of (snd (th_prune key now th)) k =
     (if k = key then drop_expired th (recent_of th key) now else recent_of th k)"
    using e by (auto simp: th_prune_def recent_of_def map_of_dict_set map_of_dict_remove split: option.splits list.splits)
  show "keys_of (snd (th_prune key now th)) \<subseteq> keys_of th"
    using m by (auto simp: th_prune_def keys_of_def keys_dict_set keys_dict_remove
        simp del: set_map split: option.splits list.splits)
  show "one_each th \<Longrightarrow> one_each (snd (th_prune key now th))"
    by (auto simp: th_prune_def one_each_def distinct_dict_set distinct_dict_remove split: option.splits list.splits)
  show "th_limit (snd (th_prune key now th)) = th_limit th" "th_window (snd (th_prune key now th)) = th_window th"
    by (auto simp: th_prune_def split: option.splits list.splits)
qed

lemma check_state: "snd (th_check key now th) = (if th_enabled th then snd (th_prune key now th) else th)"
  by (auto simp: th_check_def retry_after_def split: prod.splits option.splits)

lemma check_passes:
  "fst (th_check key now th) = Inr () \<longleftrightarrow>
     \<not> th_enabled th \<or> int (length (drop_expired th (recent_of th key) now)) < th_limit th"
  using prune_effect(1) [of key now th]
  by (auto simp: th_check_def retry_after_def th_enabled_def split: prod.splits option.splits list.splits)

lemma fold_prune_keys:
  "keys_of (fold (\<lambda>k t. snd (th_prune k now t)) ks th) \<subseteq> keys_of th \<and>
   (one_each th \<longrightarrow> one_each (fold (\<lambda>k t. snd (th_prune k now t)) ks th)) \<and>
   th_limit (fold (\<lambda>k t. snd (th_prune k now t)) ks th) = th_limit th \<and>
   th_window (fold (\<lambda>k t. snd (th_prune k now t)) ks th) = th_window th"
proof (induction ks arbitrary: th)
  case (Cons k ks)
  then show ?case
    using Cons [of "snd (th_prune k now th)"] prune_effect(3-6) [where key = k and now = now and th = th] by auto
qed simp

lemma evict_effect:
  "length (th_failures (th_evict now th)) < MAX_ENTRIES"
  "keys_of (th_evict now th) \<subseteq> keys_of th" "one_each th \<Longrightarrow> one_each (th_evict now th)"
  "th_limit (th_evict now th) = th_limit th" "th_window (th_evict now th) = th_window th"
proof -
  define p where "p = fold (\<lambda>k t. snd (th_prune k now t)) (map fst (th_failures th)) th"
  have e: "th_evict now th = (if length (th_failures th) < MAX_ENTRIES then th
      else p\<lparr>th_failures := drop (Suc (length (th_failures p)) - MAX_ENTRIES) (th_failures p)\<rparr>)"
    by (simp add: th_evict_def p_def Let_def)
  note f = fold_prune_keys [of now "map fst (th_failures th)" th, folded p_def]
  show "length (th_failures (th_evict now th)) < MAX_ENTRIES" by (auto simp: e MAX_ENTRIES_def)
  show "keys_of (th_evict now th) \<subseteq> keys_of th"
    using f set_drop_subset [of "Suc (length (th_failures p)) - MAX_ENTRIES" "map fst (th_failures p)"]
    by (simp add: e keys_of_def drop_map del: set_map) blast
  show "one_each (th_evict now th)" if "one_each th"
    using f that by (simp add: e one_each_def drop_map [symmetric] distinct_drop)
  show "th_limit (th_evict now th) = th_limit th" "th_window (th_evict now th) = th_window th"
    using f by (simp_all add: e)
qed

subsection \<open>What a verdict does to the table\<close>

lemma table_size: "one_each th \<Longrightarrow> length (th_failures th) = card (keys_of th)"
  by (metis distinct_card keys_of_def length_map one_each_def)

lemma failure_effect:
  assumes "th_enabled th" "one_each th"
    "key \<notin> keys_of th \<longrightarrow> length (th_failures th) < MAX_ENTRIES"
  shows "recent_of (record_failure key now th) k =
      (if k = key then drop_expired th (recent_of th key) now @ [now] else recent_of th k)"
    "keys_of (record_failure key now th) = insert key (keys_of th)"
    "one_each (record_failure key now th)"
proof -
  have e: "drop_expired th [] now = []" by (simp add: drop_expired_def)
  have r: "record_failure key now th =
      th\<lparr>th_failures := dict_remove key (th_failures th) @ [(key, drop_expired th (recent_of th key) now @ [now])]\<rparr>"
  proof (cases "map_of (th_failures th) key")
    case None
    then have "key \<notin> keys_of th" by (simp add: keys_of_def map_of_eq_None_iff)
    then have "th_evict now th = th" "dict_remove key (th_failures th) = th_failures th"
      using assms(3) by (auto simp: th_evict_def dict_remove_def keys_of_def filter_id_conv)
    then show ?thesis using assms(1) None by (simp add: record_failure_def recent_of_def)
  next
    case (Some l)
    then show ?thesis using assms(1) by (simp add: record_failure_def recent_of_def)
  qed
  show "recent_of (record_failure key now th) k =
      (if k = key then drop_expired th (recent_of th key) now @ [now] else recent_of th k)"
    by (auto simp: r recent_of_def map_add_def map_of_dict_remove split: option.splits)
  show "keys_of (record_failure key now th) = insert key (keys_of th)"
    by (auto simp: r keys_of_def keys_dict_remove simp del: set_map)
  show "one_each (record_failure key now th)"
    using distinct_dict_remove [of "th_failures th" key] assms(2)
    by (simp add: r one_each_def keys_dict_remove del: set_map)
qed

lemma success_effect:
  assumes "th_enabled th"
  shows "recent_of (record_success key th) k = (if k = key then [] else recent_of th k)"
    "keys_of (record_success key th) = keys_of th - {key}"
    "one_each th \<Longrightarrow> one_each (record_success key th)"
  using assms
  by (simp_all add: record_success_def recent_of_def keys_of_def one_each_def map_of_dict_remove keys_dict_remove
      distinct_dict_remove del: set_map)

lemma window_of_old:
  assumes "\<forall>t\<in>set old. t \<le> horizon th m" "horizon th m \<le> horizon th now"
  shows "filter (\<lambda>t. horizon th now < t \<and> t \<le> now) (old @ l) = filter (\<lambda>t. horizon th now < t \<and> t \<le> now) l"
proof -
  have "filter (\<lambda>t. horizon th now < t \<and> t \<le> now) old = []"
    using assms by (force simp: filter_empty_conv)
  then show ?thesis by simp
qed

lemma drop_expired_later:
  assumes "now \<le> later" shows "length (drop_expired th l later) \<le> length (drop_expired th l now)"
proof -
  have h: "horizon th now \<le> horizon th later" using assms by (rule horizon_mono)
  show ?thesis
  proof (induction l)
    case (Cons t l)
    have "length (dropWhile (\<lambda>t. t \<le> horizon th later) l) \<le> length l" by (rule length_dropWhile_le)
    then show ?case using Cons h by (auto simp: drop_expired_def)
  qed (simp add: drop_expired_def)
qed

subsection \<open>The size of the table\<close>

lemma length_dict_remove: "length (dict_remove k d) \<le> length d"
  by (simp add: dict_remove_def)

lemma length_dict_remove_key: "k \<in> set (map fst d) \<Longrightarrow> length (dict_remove k d) < length d"
  unfolding dict_remove_def by (induction d) (auto simp: less_Suc_eq_le simp del: set_map)

lemma length_dict_set_key: "k \<in> set (map fst d) \<Longrightarrow> length (dict_set k v d) = length d"
  by (induction d) (auto simp del: set_map)

lemma map_of_key: "map_of d k = Some l \<Longrightarrow> k \<in> set (map fst d)"
  by (metis map_of_eq_None_iff option.distinct(1) set_map)

lemma key_absent: "map_of d k = None \<Longrightarrow> k \<notin> set (map fst d)"
  by (simp add: map_of_eq_None_iff)

lemma prune_size: "length (th_failures (snd (th_prune key now th))) \<le> length (th_failures th)"
  using length_dict_remove [of key "th_failures th"]
  by (auto simp: th_prune_def length_dict_set_key map_of_key simp del: set_map split: option.splits list.splits)

lemma check_size: "length (th_failures (snd (th_check key now th))) \<le> length (th_failures th)"
  using prune_size by (simp add: check_state)

lemma success_size: "length (th_failures (record_success key th)) \<le> length (th_failures th)"
  by (simp add: record_success_def length_dict_remove)

lemma failure_size:
  assumes "length (th_failures th) \<le> MAX_ENTRIES"
  shows "length (th_failures (record_failure key now th)) \<le> MAX_ENTRIES"
proof (cases "map_of (th_failures th) key")
  case None
  then show ?thesis using evict_effect(1) [of now th] assms by (simp add: record_failure_def)
next
  case (Some l)
  then show ?thesis
    using length_dict_remove_key [OF map_of_key [OF Some]] assms by (simp add: record_failure_def)
qed

subsection \<open>What each operation leaves of another account\<close>

lemma failure_settings [simp]:
  "th_limit (record_failure key now th) = th_limit th" "th_window (record_failure key now th) = th_window th"
  using evict_effect(4,5) [of now th] by (auto simp: record_failure_def Let_def split: option.splits)

lemma success_settings [simp]:
  "th_limit (record_success key th) = th_limit th" "th_window (record_success key th) = th_window th"
  by (simp_all add: record_success_def)

lemma check_settings [simp]:
  "th_limit (snd (th_check key now th)) = th_limit th" "th_window (snd (th_check key now th)) = th_window th"
  by (simp_all add: check_state prune_effect(5,6))

lemma check_one_each: "one_each th \<Longrightarrow> one_each (snd (th_check key now th))"
  by (simp add: check_state prune_effect(4))

lemma failure_one_each: "one_each th \<Longrightarrow> one_each (record_failure key now th)"
proof (cases "map_of (th_failures th) key")
  case None
  moreover assume "one_each th"
  ultimately show ?thesis
    using evict_effect(2,3) [where now = now and th = th] key_absent [OF None]
    by (auto simp: record_failure_def one_each_def keys_of_def simp del: set_map)
next
  case (Some l)
  moreover assume "one_each th"
  ultimately show ?thesis
    using distinct_dict_remove [of "th_failures th" key]
    by (simp add: record_failure_def one_each_def keys_dict_remove del: set_map)
qed

lemma success_one_each: "one_each th \<Longrightarrow> one_each (record_success key th)"
  by (simp add: record_success_def one_each_def distinct_dict_remove)

text \<open>What is remembered of \<open>key\<close> only loses its oldest readings.\<close>

definition forgets :: "str \<Rightarrow> throttle \<Rightarrow> throttle \<Rightarrow> bool" where
  "forgets key th th' \<longleftrightarrow> (\<exists>n. recent_of th' key = drop n (recent_of th key))"

lemma forgets_refl [simp]: "forgets key th th"
  unfolding forgets_def by (rule exI [of _ 0]) simp

lemma forgets_same: "recent_of th' key = recent_of th key \<Longrightarrow> forgets key th th'"
  unfolding forgets_def by (rule exI [of _ 0]) simp

lemma forgets_trans: "forgets key th th' \<Longrightarrow> forgets key th' th'' \<Longrightarrow> forgets key th th''"
  unfolding forgets_def by (metis drop_drop)

lemma forgets_prune: "forgets key th (snd (th_prune k now th))"
proof (cases "k = key")
  case True
  then show ?thesis
    by (simp add: forgets_def prune_effect(2) drop_expired_def dropWhile_eq_drop) blast
next
  case False
  then have "recent_of (snd (th_prune k now th)) key = recent_of th key" by (simp add: prune_effect(2))
  then show ?thesis unfolding forgets_def by (intro exI [of _ 0]) simp
qed

lemma forgets_check: "forgets key th (snd (th_check k now th))"
  by (simp add: check_state forgets_prune)

lemma forgets_fold_prune: "forgets key th (fold (\<lambda>k t. snd (th_prune k now t)) ks th)"
  by (induction ks arbitrary: th) (auto intro: forgets_trans forgets_prune)

lemma recent_of_later_entries:
  assumes "distinct (map fst d)"
  shows "recent_of (th\<lparr>th_failures := drop n d\<rparr>) key \<in> {[], recent_of (th\<lparr>th_failures := d\<rparr>) key}"
proof (cases "map_of (drop n d) key")
  case (Some l)
  then have "(key, l) \<in> set d" by (meson in_set_dropD map_of_SomeD)
  then have "map_of d key = Some l" using assms by simp
  with Some show ?thesis by (simp add: recent_of_def)
qed (simp add: recent_of_def)

lemma forgets_all: "recent_of th' key = [] \<Longrightarrow> forgets key th th'"
  unfolding forgets_def by (rule exI [of _ "length (recent_of th key)"]) simp

lemma forgets_evict:
  assumes "one_each th" shows "forgets key th (th_evict now th)"
proof -
  define p where "p = fold (\<lambda>k t. snd (th_prune k now t)) (map fst (th_failures th)) th"
  have "forgets key th p" unfolding p_def by (rule forgets_fold_prune)
  moreover have "distinct (map fst (th_failures p))"
    using fold_prune_keys [of now "map fst (th_failures th)" th] assms by (simp add: p_def one_each_def)
  then have "forgets key p (p\<lparr>th_failures := drop n (th_failures p)\<rparr>)" for n
    using recent_of_later_entries [where d = "th_failures p" and th = p and n = n and key = key]
    by (auto intro: forgets_all forgets_same)
  ultimately show ?thesis
    by (auto simp: th_evict_def p_def Let_def intro: forgets_trans)
qed

lemma forgets_failure:
  assumes "one_each th" "k \<noteq> key" shows "forgets key th (record_failure k now th)"
proof (cases "th_enabled th")
  case True
  have appended: "recent_of (t\<lparr>th_failures := d @ [(k, l)]\<rparr>) key = recent_of (t\<lparr>th_failures := d\<rparr>) key" for t d l
    using assms(2) by (simp add: recent_of_def map_add_def split: option.split)
  show ?thesis
  proof (cases "map_of (th_failures th) k")
    case None
    have "(th_evict now th)\<lparr>th_failures := th_failures (th_evict now th)\<rparr> = th_evict now th" by simp
    then show ?thesis
      using True None forgets_evict [OF assms(1), of key now] by (simp add: record_failure_def forgets_def appended)
  next
    case (Some l)
    have "recent_of (th\<lparr>th_failures := dict_remove k (th_failures th)\<rparr>) key = recent_of th key"
      using assms(2) by (simp add: recent_of_def map_of_dict_remove)
    then have "recent_of (record_failure k now th) key = recent_of th key"
      using True Some by (simp add: record_failure_def appended)
    then show ?thesis by (rule forgets_same)
  qed
qed (simp add: record_failure_def)

lemma forgets_success: "forgets key th (record_success k th)"
proof (cases "th_enabled th")
  case True
  then show ?thesis
    by (cases "k = key") (auto simp: success_effect(1) intro: forgets_same forgets_all)
qed (simp add: record_success_def)

subsection \<open>Guesses in flight\<close>

text \<open>
  Between a check that passes and the verdict that is recorded other requests run, so the table
  alone does not bound the guesses: what is remembered of \<open>key\<close> plus what is \<open>flying\<close>, let through and
  not yet recorded, does. \<open>W\<close> lists the readings at which wrong guesses at \<open>key\<close> were recorded: what is
  remembered is its tail, the forgotten part is out of the window at the time \<open>m\<close> of the last step,
  and no window holds more of \<open>W\<close> than the bound.
\<close>

definition tracked ::
  "int \<Rightarrow> int \<Rightarrow> int \<Rightarrow> str set \<Rightarrow> str \<Rightarrow> rat \<Rightarrow> nat \<Rightarrow> rat list \<Rightarrow> throttle \<Rightarrow> bool" where
  "tracked bound limit window K key m flying W th \<longleftrightarrow>
     th_limit th = limit \<and> th_window th = window \<and> one_each th \<and> keys_of th \<subseteq> K \<and>
     int (length (drop_expired th (recent_of th key) m)) + int flying \<le> bound \<and>
     (\<exists>old. W = old @ recent_of th key \<and> (\<forall>t\<in>set old. t \<le> horizon th m)) \<and>
     (\<forall>now. int (length (filter (\<lambda>t. horizon th now < t \<and> t \<le> now) W)) \<le> bound)"

lemma trackedD:
  assumes "tracked bound limit window K key m flying W th"
  obtains old where "W = old @ recent_of th key" "\<forall>t\<in>set old. t \<le> horizon th m"
    "th_limit th = limit" "th_window th = window" "one_each th" "keys_of th \<subseteq> K"
    "int (length (drop_expired th (recent_of th key) m)) + int flying \<le> bound"
    "\<forall>now. int (length (filter (\<lambda>t. horizon th now < t \<and> t \<le> now) W)) \<le> bound"
  using assms unfolding tracked_def by blast

text \<open>A step of the throttle that keeps the settings and what is remembered of \<open>key\<close>.\<close>

lemma tracked_same:
  assumes "tracked bound limit window K key m flying W th" "m \<le> now"
    and "recent_of th' key = recent_of th key" "th_limit th' = th_limit th" "th_window th' = th_window th"
    and "one_each th'" "keys_of th' \<subseteq> K" "flying' \<le> flying"
  shows "tracked bound limit window K key now flying' W th'"
proof -
  obtain old where o: "W = old @ recent_of th key" "\<forall>t\<in>set old. t \<le> horizon th m"
    "th_limit th = limit" "th_window th = window" "one_each th" "keys_of th \<subseteq> K"
    "int (length (drop_expired th (recent_of th key) m)) + int flying \<le> bound"
    "\<forall>now. int (length (filter (\<lambda>t. horizon th now < t \<and> t \<le> now) W)) \<le> bound"
    by (rule trackedD [OF assms(1)])
  note h = same_settings(2,3) [OF assms(4,5)]
  have "\<forall>t\<in>set old. t \<le> horizon th now" using o(2) horizon_mono [OF assms(2), of th] by force
  moreover have "int (length (drop_expired th (recent_of th key) now)) + int flying' \<le> bound"
    using o(7) drop_expired_later [OF assms(2), of th "recent_of th key"] assms(8) by linarith
  ultimately show ?thesis
    unfolding tracked_def h assms(3) using assms(4-7) o(1,3,4,8) by auto
qed

lemma tracked_prune:
  assumes "tracked bound limit window K key m flying W th" "m \<le> now"
  shows "tracked bound limit window K key now flying W (snd (th_prune k now th))"
proof (cases "k = key")
  case False
  note pr = prune_effect(2-6) [where key = k and now = now and th = th]
  have "keys_of th \<subseteq> K" "one_each th" using assms(1) by (simp_all add: tracked_def)
  then show ?thesis using pr False by (intro tracked_same [OF assms]) auto
next
  case True
  let ?p = "snd (th_prune k now th)" and ?d = "drop_expired th (recent_of th key) now"
  note pr = prune_effect(2-6) [where key = k and now = now and th = th]
  note h = same_settings(2,3) [OF pr(4,5)]
  obtain old where o: "W = old @ recent_of th key" "\<forall>t\<in>set old. t \<le> horizon th m"
    "th_limit th = limit" "th_window th = window" "one_each th" "keys_of th \<subseteq> K"
    "int (length (drop_expired th (recent_of th key) m)) + int flying \<le> bound"
    "\<forall>now. int (length (filter (\<lambda>t. horizon th now < t \<and> t \<le> now) W)) \<le> bound"
    by (rule trackedD [OF assms(1)])
  let ?old = "old @ takeWhile (\<lambda>t. t \<le> horizon th now) (recent_of th key)"
  have r: "recent_of ?p key = ?d" using True pr(1) [of key] by simp
  have "W = ?old @ ?d" using o(1) by (simp add: drop_expired_def)
  moreover have "\<forall>t\<in>set ?old. t \<le> horizon th now"
    using o(2) horizon_mono [OF assms(2), of th] by (auto dest: set_takeWhileD)
  moreover have "int (length ?d) + int flying \<le> bound"
    using o(7) drop_expired_later [OF assms(2), of th "recent_of th key"] by linarith
  ultimately show ?thesis
    unfolding tracked_def h r drop_expired_twice using o(3-6,8) pr(2-5) by blast
qed

lemma tracked_check:
  assumes "tracked bound limit window K key m flying W th" "m \<le> now" "0 < limit"
  shows "tracked bound limit window K key now flying W (snd (th_check k now th))"
  using tracked_prune [OF assms(1,2), of k] assms(1,3) by (simp add: check_state tracked_def th_enabled_def)

lemma tracked_let_through:
  assumes "tracked (limit - 1 + int workers) limit window K key m flying W th" "m \<le> now" "0 < limit"
    and "fst (th_check key now th) = Inr ()" "flying' \<le> workers"
  shows "tracked (limit - 1 + int workers) limit window K key now flying' W (snd (th_check key now th))"
proof -
  let ?c = "snd (th_check key now th)"
  have en: "th_enabled th" "th_limit th = limit" using assms(1,3) by (simp_all add: tracked_def th_enabled_def)
  have "int (length (drop_expired th (recent_of th key) now)) < limit"
    using assms(4) en check_passes [of key now th] by simp
  moreover have "drop_expired ?c (recent_of ?c key) now = drop_expired th (recent_of th key) now"
    using en(1) by (simp add: check_state prune_effect(2) same_settings(3) [OF prune_effect(5,6)])
  ultimately have "int (length (drop_expired ?c (recent_of ?c key) now)) + int flying' \<le> limit - 1 + int workers"
    using assms(5) by simp
  then show ?thesis using tracked_check [OF assms(1-3), of key] unfolding tracked_def by blast
qed

lemma tracked_success:
  assumes "tracked bound limit window K key m flying W th" "m \<le> now" "0 < limit" "k \<noteq> key"
  shows "tracked bound limit window K key now flying W (record_success k th)"
proof -
  have en: "th_enabled th" and t: "one_each th" "keys_of th \<subseteq> K"
    using assms(1,3) by (simp_all add: tracked_def th_enabled_def)
  show ?thesis
    using success_effect [OF en, of k] t assms(4) by (intro tracked_same [OF assms(1,2)]) auto
qed

text \<open>One more failure: the new reading is the only one that a later window can add.\<close>

lemma tracked_failure:
  assumes inv: "tracked bound limit window K key m (if k = key then Suc flying else flying) W th" "m \<le> now" "0 < limit"
    and K: "finite K" "card K \<le> MAX_ENTRIES" "k \<in> K"
  shows "tracked bound limit window K key now flying (if k = key then W @ [now] else W) (record_failure k now th)"
proof -
  let ?f = "record_failure k now th"
  obtain old where o: "W = old @ recent_of th key" "\<forall>t\<in>set old. t \<le> horizon th m"
    "th_limit th = limit" "th_window th = window" "one_each th" "keys_of th \<subseteq> K"
    "int (length (drop_expired th (recent_of th key) m)) + int (if k = key then Suc flying else flying) \<le> bound"
    "\<forall>now. int (length (filter (\<lambda>t. horizon th now < t \<and> t \<le> now) W)) \<le> bound"
    by (rule trackedD [OF inv(1)])
  have en: "th_enabled th" using inv(3) o(3) by (simp add: th_enabled_def)
  have size: "length (th_failures th) < MAX_ENTRIES" if "k \<notin> keys_of th"
  proof -
    have "keys_of th \<subset> K" using that K(3) o(6) by blast
    then have "card (keys_of th) < card K" using K(1) by (simp add: psubset_card_mono)
    then show ?thesis using K(2) table_size [OF o(5)] by simp
  qed
  note fe = failure_effect [where key = k and now = now, OF en o(5) impI [OF size]]
  have keys: "keys_of ?f \<subseteq> K" using fe(2) o(6) K(3) by simp
  show ?thesis
  proof (cases "k = key")
    case False
    then show ?thesis using inv(1) fe(1,3) keys by (auto intro: tracked_same [OF _ inv(2)])
  next
    case True
    let ?d = "drop_expired th (recent_of th key) now"
    let ?old = "old @ takeWhile (\<lambda>t. t \<le> horizon th now) (recent_of th key)"
    note h = same_settings(2,3) [of ?f th, OF failure_settings]
    have r: "recent_of ?f key = ?d @ [now]" using True fe(1) [of key] by simp
    have w: "W @ [now] = ?old @ (?d @ [now])" using o(1) by (simp add: drop_expired_def)
    have out: "\<forall>t\<in>set ?old. t \<le> horizon th now"
      using o(2) horizon_mono [OF inv(2), of th] by (auto dest: set_takeWhileD)
    have len: "int (length (?d @ [now])) + int flying \<le> bound"
      using o(7) drop_expired_later [OF inv(2), of th "recent_of th key"] True by simp
    have short: "int (length (drop_expired th (?d @ [now]) now)) + int flying \<le> bound"
      using len length_dropWhile_le [of "\<lambda>t. t \<le> horizon th now" "?d @ [now]"]
      unfolding drop_expired_def [of th "_ @ _"] by linarith
    have win: "int (length (filter (\<lambda>t. horizon th n < t \<and> t \<le> n) (W @ [now]))) \<le> bound" for n
    proof (cases "now \<le> n")
      case True
      show ?thesis
        unfolding w window_of_old [OF out horizon_mono [OF True]]
        using len length_filter_le [of "\<lambda>t. horizon th n < t \<and> t \<le> n" "?d @ [now]"] by linarith
    next
      case False
      then show ?thesis using o(8) [THEN spec, of n] by simp
    qed
    have "tracked bound limit window K key now flying (W @ [now]) ?f"
      unfolding tracked_def h r using o(3,4) fe(3) keys short w out win by auto
    then show ?thesis using True by simp
  qed
qed

lemma tracked_landed:
  "tracked bound limit window K key m flying W th \<Longrightarrow> m \<le> now \<Longrightarrow> flying' \<le> flying \<Longrightarrow>
   tracked bound limit window K key now flying' W th"
  by (rule tracked_same [where th' = th and th = th]) (auto simp: tracked_def)

lemma tracked_new:
  assumes "0 < limit" shows "tracked (limit - 1 + int workers) limit window K key m 0 [] (new_throttle limit window)"
  using assms
  by (simp add: tracked_def new_throttle_def one_each_def keys_of_def recent_of_def drop_expired_def)

subsection \<open>The announced wait\<close>

lemma too_many_requests_inj: "too_many_requests v = too_many_requests w \<longleftrightarrow> v = w"
  by (auto simp: too_many_requests_def fxa_error_of_def)

definition exact_sums :: "throttle \<Rightarrow> rat \<Rightarrow> rat \<Rightarrow> bool" where
  "exact_sums th now t \<longleftrightarrow>
     binary64 t = t \<and> binary64 (t + of_int (th_window th)) = t + of_int (th_window th) \<and>
     binary64 (t + of_int (th_window th) - now) = t + of_int (th_window th) - now"

text \<open>
  The check that refuses names a wait after which the oldest failure is out of the window; if no more
  than the limit were in it, that lets the next check pass, whatever else is forgotten meanwhile.
\<close>

lemma wait_passes:
  assumes "th_enabled th" "int (length (drop_expired th (recent_of th key) now)) \<le> th_limit th"
    "\<forall>t\<in>set (recent_of th key). exact_sums th now t"
    "fst (th_check key now th) = Inl (Fxa (too_many_requests w))" "now + of_int w \<le> later"
    "forgets key (snd (th_check key now th)) th'" "th_limit th' = th_limit th" "th_window th' = th_window th"
  shows "fst (th_check key later th') = Inr ()"
proof -
  let ?r = "drop_expired th (recent_of th key) now"
  have full: "th_limit th \<le> int (length ?r)" using assms(1,4) check_passes [of key now th] by auto
  then obtain t ts where r: "?r = t # ts" using assms(1) by (cases ?r) (auto simp: th_enabled_def)
  have t: "t \<in> set (recent_of th key)"
    using set_dropWhileD [of t] r unfolding drop_expired_def by (metis list.set_intros(1))
  have "w = max 1 (py_trunc (t + of_int (th_window th) - now) + 1)"
    using assms(1,3,4) full t prune_effect(1) [of key now th]
    by (auto simp: th_check_def retry_after_def r exact_sums_def too_many_requests_inj split: prod.splits if_splits)
  moreover have "x < of_int (py_trunc x + 1)" for x by (auto simp: py_trunc_def) linarith+
  ultimately have "t + of_int (th_window th) - now \<le> of_int w"
    by (smt (verit) of_int_le_iff max.cobounded2 less_imp_le order_trans)
  then have "t \<le> later - of_int (th_window th)" using assms(5) by linarith
  then have out: "t \<le> horizon th' later"
    using binary64_mono [of t] t assms(3,8) by (simp add: horizon_def exact_sums_def)
  obtain n where n: "recent_of th' key = drop n (t # ts)"
    using assms(1,6) r by (auto simp: forgets_def check_state prune_effect(2))
  have "length (drop_expired th' (drop n (t # ts)) later) \<le> length ts"
  proof (cases n)
    case 0
    then show ?thesis using out by (simp add: drop_expired_def length_dropWhile_le)
  next
    case (Suc k)
    have "length (drop_expired th' (drop k ts) later) \<le> length (drop k ts)"
      unfolding drop_expired_def by (rule length_dropWhile_le)
    then show ?thesis using Suc by simp
  qed
  moreover have "int (length (t # ts)) \<le> th_limit th" using assms(2) unfolding r .
  ultimately have "int (length (drop_expired th' (recent_of th' key) later)) < th_limit th'"
    using assms(7) n by simp
  then show ?thesis by (simp add: check_passes)
qed

end
