(* ===== verification/AccountProps.thy ===== *)
theory AccountProps
  imports AuthRoutes ThrottleProps AuthProps DbFacts
begin

text \<open>
  What the accounts tier promises: the guesses the throttle lets through to scrypt, whom a password
  lets in, what the key-fetch token delivers and how often, and what a deleted account leaves.
\<close>

subsection \<open>A password check and what runs between its halves\<close>

text \<open>
  \<open>accounts.authenticate\<close> touches the throttle twice, before the password is stretched and after, and
  holds no lock in between: it runs in a pool of worker threads, and other requests are checked and
  recorded while scrypt works. Its first half reads the account and asks the throttle, its second
  half stretches, compares and records.
\<close>

definition ask_password :: "str \<Rightarrow> rat \<Rightarrow> database \<Rightarrow> throttle option \<Rightarrow> (fxa_exn + account) \<times> throttle option" where
  "ask_password email checked_at db th =
     andthen (of_option (Fxa (unknown_account (Some email))) (account_by_email email db), th) (\<lambda>a th.
     andthen (opt_check (normalize_email email) checked_at th) (\<lambda>_ th. (Inr a, th)))"

definition answer_password ::
  "account \<Rightarrow> str \<Rightarrow> bytes \<Rightarrow> rat \<Rightarrow> throttle option \<Rightarrow> (fxa_exn + account \<times> str) \<times> throttle option" where
  "answer_password a email auth_pw failed_at th =
     andthen (password_check a auth_pw, th) (\<lambda>(stretched, ok) th.
       if \<not> ok
       then (Inl (Fxa (incorrect_password (acc_email a) (strip email))),
             map_option (record_failure (normalize_email email) failed_at) th)
       else (Inr (a, stretched), map_option (record_success (normalize_email email)) th))"

lemma authenticate_halves:
  "accounts_authenticate email pw chk now db th =
     andthen (ask_password email chk db th) (\<lambda>a th. answer_password a email pw now th)"
  by (auto simp: accounts_authenticate_def ask_password_def answer_password_def andthen_def Let_def
      split: sum.splits prod.splits)

text \<open>
  A run interleaves the halves of any number of requests: \<open>Asked\<close> is a request that has found a
  free thread and reads the database as it is then, \<open>Answered i t\<close> the end of the \<open>i\<close>-th request that
  is stretching. A request that finds no free thread has not begun. The log has the answers in the
  order they are given.
\<close>

datatype password_event = Asked str bytes rat database | Answered nat rat

type_synonym password_log = "(str \<times> rat \<times> (fxa_exn + account \<times> str)) list"

record guessing =
  gs_pool :: "(str \<times> bytes \<times> account) list"
  gs_log :: password_log
  gs_throttle :: throttle

definition no_guesses :: "throttle \<Rightarrow> guessing" where
  "no_guesses th = \<lparr>gs_pool = [], gs_log = [], gs_throttle = th\<rparr>"

fun password_step :: "nat \<Rightarrow> password_event \<Rightarrow> guessing \<Rightarrow> guessing" where
  "password_step workers (Asked email pw t db) s =
     (if length (gs_pool s) < workers then
        (case ask_password email t db (Some (gs_throttle s)) of
           (Inl e, th) \<Rightarrow>
             s\<lparr>gs_log := gs_log s @ [(normalize_email email, t, Inl e)], gs_throttle := the th\<rparr>
         | (Inr a, th) \<Rightarrow> s\<lparr>gs_pool := gs_pool s @ [(email, pw, a)], gs_throttle := the th\<rparr>)
      else s)"
| "password_step workers (Answered i t) s =
     (if i < length (gs_pool s) then
        (case gs_pool s ! i of (email, pw, a) \<Rightarrow>
          (case answer_password a email pw t (Some (gs_throttle s)) of
             (r, th) \<Rightarrow>
               \<lparr>gs_pool = take i (gs_pool s) @ drop (Suc i) (gs_pool s),
                gs_log = gs_log s @ [(normalize_email email, t, r)], gs_throttle = the th\<rparr>))
      else s)"

definition event_time :: "password_event \<Rightarrow> rat" where
  "event_time ev = (case ev of Asked email pw t db \<Rightarrow> t | Answered i t \<Rightarrow> t)"

text \<open>The event is no request that has the right password for \<open>key\<close>.\<close>

definition right_password :: "account \<Rightarrow> bytes \<Rightarrow> bool" where
  "right_password a pw \<longleftrightarrow> (case password_check a pw of Inl _ \<Rightarrow> False | Inr (_, ok) \<Rightarrow> ok)"

definition misses :: "str \<Rightarrow> password_event \<Rightarrow> bool" where
  "misses key ev \<longleftrightarrow>
     (case ev of
        Asked email pw t db \<Rightarrow>
          (case account_by_email email db of
             None \<Rightarrow> True | Some a \<Rightarrow> normalize_email email = key \<longrightarrow> \<not> right_password a pw)
      | Answered i t \<Rightarrow> True)"

text \<open>The accounts a run names.\<close>

definition named_account :: "password_event \<Rightarrow> str set" where
  "named_account ev =
     (case ev of
        Asked email pw t db \<Rightarrow> if account_by_email email db = None then {} else {normalize_email email}
      | Answered i t \<Rightarrow> {})"

definition named_accounts :: "password_event list \<Rightarrow> str set" where
  "named_accounts evs = \<Union> (set (map named_account evs))"

definition wrong_password :: "fxa_exn + account \<times> str \<Rightarrow> bool" where
  "wrong_password r \<longleftrightarrow> (case r of Inl (Fxa e) \<Rightarrow> fe_errno e \<in> {103, 120} | _ \<Rightarrow> False)"

text \<open>The readings at which wrong guesses at \<open>key\<close> were recorded.\<close>

definition wrong_times :: "str \<Rightarrow> password_log \<Rightarrow> rat list" where
  "wrong_times key hist = map (fst \<circ> snd) (filter (\<lambda>e. fst e = key \<and> wrong_password (snd (snd e))) hist)"

definition verdict :: "account \<Rightarrow> str \<Rightarrow> str \<times> bool \<Rightarrow> fxa_exn + account \<times> str" where
  "verdict a email c =
     (if snd c then Inr (a, fst c) else Inl (Fxa (incorrect_password (acc_email a) (strip email))))"

lemma wrong_password_simps [simp]:
  "wrong_password (Inr x)  = False" "wrong_password (Inl (Fxa (incorrect_password e e')))"
  "wrong_password (Inl (Fxa (unknown_account m))) = False" "wrong_password (Inl (Fxa (too_many_requests w))) = False"
  "wrong_password (Inl FxaCrash) = False"
  by (simp_all add: wrong_password_def incorrect_password_def unknown_account_def too_many_requests_def
      fxa_bad_request_def fxa_error_of_def)

lemma wrong_times_snoc:
  "wrong_times key (hist @ [(k, t, r)]) = wrong_times key hist @ (if k = key \<and> wrong_password r then [t] else [])"
  by (simp add: wrong_times_def)

lemma ask_known:
  "account_by_email email db = Some a \<Longrightarrow>
   ask_password email t db (Some th) =
     (case th_check (normalize_email email) t th of
        (Inl e, th') \<Rightarrow> (Inl e, Some th') | (Inr _, th') \<Rightarrow> (Inr a, Some th'))"
  by (auto simp: ask_password_def opt_check_def split: prod.splits sum.splits)

lemma ask_unknown:
  "account_by_email email db = None \<Longrightarrow>
   ask_password email t db th = (Inl (Fxa (unknown_account (Some email))), th)"
  by (simp add: ask_password_def)

lemma answer_checked:
  "password_check a pw = Inr c \<Longrightarrow>
   answer_password a email pw t (Some th) =
     (verdict a email c,
      Some (if snd c then record_success (normalize_email email) th else record_failure (normalize_email email) t th))"
  by (simp add: answer_password_def verdict_def split: prod.splits)

lemma answer_crash:
  assumes "password_check a pw = Inl e"
  shows "answer_password a email pw t th = (Inl FxaCrash, th)"
  using assms by (auto simp: answer_password_def password_check_def bindr_def of_option_def Let_def
      split: option.splits sum.splits)

lemma authenticate_known:
  assumes "account_by_email email db = Some a" "password_check a pw = Inr c"
  shows "accounts_authenticate email pw chk now db (Some th) =
    (case th_check (normalize_email email) chk th of
       (Inl e, th') \<Rightarrow> (Inl e, Some th')
     | (Inr _, th') \<Rightarrow>
         (verdict a email c,
          Some (if snd c then record_success (normalize_email email) th'
                else record_failure (normalize_email email) now th')))"
  unfolding authenticate_halves ask_known [OF assms(1)]
  by (simp add: answer_checked [OF assms(2)] split: prod.splits sum.splits)

lemma check_refusal:
  "th_check key now th = (Inl e, th') \<Longrightarrow> \<exists>w. e = Fxa (too_many_requests w)"
  by (auto simp: th_check_def split: prod.splits if_splits)

text \<open>The two atomic steps, case by case.\<close>

lemma asked_cases:
  obtains (busy) "password_step workers (Asked email pw t db) s = s"
  | (unknown) "length (gs_pool s) < workers" "account_by_email email db = None"
      "password_step workers (Asked email pw t db) s =
         s\<lparr>gs_log := gs_log s @ [(normalize_email email, t, Inl (Fxa (unknown_account (Some email))))]\<rparr>"
  | (refused) a w where "length (gs_pool s) < workers" "account_by_email email db = Some a"
      "password_step workers (Asked email pw t db) s =
         s\<lparr>gs_log := gs_log s @ [(normalize_email email, t, Inl (Fxa (too_many_requests w)))],
           gs_throttle := snd (th_check (normalize_email email) t (gs_throttle s))\<rparr>"
  | (passed) a where "length (gs_pool s) < workers" "account_by_email email db = Some a"
      "fst (th_check (normalize_email email) t (gs_throttle s)) = Inr ()"
      "password_step workers (Asked email pw t db) s =
         s\<lparr>gs_pool := gs_pool s @ [(email, pw, a)],
           gs_throttle := snd (th_check (normalize_email email) t (gs_throttle s))\<rparr>"
proof (cases "length (gs_pool s) < workers")
  case False
  then show thesis by (intro busy) simp
next
  case room: True
  show thesis
  proof (cases "account_by_email email db")
    case None
    then show thesis using room by (intro unknown) (simp_all add: ask_unknown)
  next
    case (Some a)
    obtain r th' where r: "th_check (normalize_email email) t (gs_throttle s) = (r, th')" by fastforce
    show thesis
    proof (cases r)
      case (Inl e)
      then obtain w where "e = Fxa (too_many_requests w)" using r check_refusal by blast
      then show thesis using room Some r Inl by (intro refused) (simp_all add: ask_known)
    next
      case (Inr u)
      then show thesis using room Some r by (intro passed) (simp_all add: ask_known)
    qed
  qed
qed

lemma answered_cases:
  obtains (none) "password_step workers (Answered i t) s = s"
  | (answered) email pw a where "i < length (gs_pool s)" "gs_pool s ! i = (email, pw, a)"
      "gs_pool (password_step workers (Answered i t) s) = take i (gs_pool s) @ drop (Suc i) (gs_pool s)"
      "if right_password a pw
       then \<exists>r. gs_log (password_step workers (Answered i t) s) = gs_log s @ [(normalize_email email, t, r)] \<and>
         \<not> wrong_password r \<and>
         gs_throttle (password_step workers (Answered i t) s) = record_success (normalize_email email) (gs_throttle s)
       else \<exists>r. gs_log (password_step workers (Answered i t) s) = gs_log s @ [(normalize_email email, t, r)] \<and>
         gs_throttle (password_step workers (Answered i t) s) =
           (if wrong_password r then record_failure (normalize_email email) t (gs_throttle s) else gs_throttle s)"
proof (cases "i < length (gs_pool s)")
  case False
  then show thesis by (intro none) simp
next
  case True
  obtain email pw a where p: "gs_pool s ! i = (email, pw, a)" by (metis prod_cases3)
  show thesis
  proof (cases "password_check a pw")
    case (Inl e)
    then show thesis
      using True p by (intro answered [OF True p]) (simp_all add: answer_crash right_password_def)
  next
    case (Inr c)
    then show thesis
      using True p by (intro answered [OF True p])
        (auto simp: answer_checked right_password_def verdict_def split: prod.splits)
  qed
qed

declare password_step.simps [simp del]

subsection \<open>The bound on guesses\<close>

definition flying :: "str \<Rightarrow> (str \<times> bytes \<times> account) list \<Rightarrow> nat" where
  "flying key pool = length (filter (\<lambda>(email, _, _). normalize_email email = key) pool)"

lemma flying_le: "flying key pool \<le> length pool"
  by (simp add: flying_def)

lemma flying_without:
  assumes "i < length pool" "pool ! i = (email, pw, a)"
  shows "flying key pool = (if normalize_email email = key then Suc (flying key (take i pool @ drop (Suc i) pool))
    else flying key (take i pool @ drop (Suc i) pool))"
  using assms by (subst id_take_nth_drop [OF assms(1)]) (simp add: flying_def del: append_take_drop_id)

definition guarded_run :: "nat \<Rightarrow> int \<Rightarrow> int \<Rightarrow> str set \<Rightarrow> str \<Rightarrow> rat \<Rightarrow> guessing \<Rightarrow> bool" where
  "guarded_run workers limit window K key m s \<longleftrightarrow>
     length (gs_pool s) \<le> workers \<and>
     (\<forall>(email, pw, a) \<in> set (gs_pool s). normalize_email email \<in> K \<and>
        (normalize_email email = key \<longrightarrow> \<not> right_password a pw)) \<and>
     tracked (limit - 1 + int workers) limit window K key m (flying key (gs_pool s)) (wrong_times key (gs_log s))
       (gs_throttle s)"

lemma guarded_asked:
  assumes inv: "guarded_run workers limit window K key m s" and t: "m \<le> t" and lim: "0 < limit"
    and named: "account_by_email email db \<noteq> None \<Longrightarrow> normalize_email email \<in> K"
    and miss: "misses key (Asked email pw t db)"
  shows "guarded_run workers limit window K key t (password_step workers (Asked email pw t db) s)"
proof -
  let ?k = "normalize_email email" and ?W = "wrong_times key (gs_log s)" and ?th = "gs_throttle s"
  note parts = inv [unfolded guarded_run_def]
  have tr: "tracked (limit - 1 + int workers) limit window K key m (flying key (gs_pool s)) ?W ?th"
    using parts by blast
  note later = tracked_landed [OF tr t order_refl] and checked = tracked_check [OF tr t lim, of ?k]
  show ?thesis
  proof (cases rule: asked_cases [of workers email pw t db s])
    case busy
    then show ?thesis unfolding busy guarded_run_def using parts later by blast
  next
    case unknown
    show ?thesis unfolding unknown(3) guarded_run_def using parts later by (simp add: wrong_times_snoc)
  next
    case (refused a w)
    show ?thesis unfolding refused(3) guarded_run_def using parts checked by (simp add: wrong_times_snoc)
  next
    case (passed a)
    let ?pool = "gs_pool s @ [(email, pw, a)]"
    have small: "flying key ?pool \<le> workers" using flying_le [of key ?pool] passed(1) by simp
    have "tracked (limit - 1 + int workers) limit window K key t (flying key ?pool) ?W (snd (th_check ?k t ?th))"
    proof (cases "?k = key")
      case True
      show ?thesis using tracked_let_through [OF tr t lim _ small] passed(3) unfolding True by blast
    next
      case False
      then have "flying key ?pool = flying key (gs_pool s)" by (simp add: flying_def)
      then show ?thesis using checked by simp
    qed
    moreover have "?k \<in> K" "?k = key \<longrightarrow> \<not> right_password a pw"
      using named passed(2) miss by (simp_all add: misses_def)
    ultimately show ?thesis unfolding passed(4) guarded_run_def using parts passed(1) by auto
  qed
qed

lemma guarded_answered:
  assumes inv: "guarded_run workers limit window K key m s" and t: "m \<le> t" and lim: "0 < limit"
    and K: "finite K" "card K \<le> MAX_ENTRIES"
  shows "guarded_run workers limit window K key t (password_step workers (Answered i t) s)"
proof -
  note parts = inv [unfolded guarded_run_def]
  have tr: "tracked (limit - 1 + int workers) limit window K key m (flying key (gs_pool s))
      (wrong_times key (gs_log s)) (gs_throttle s)"
    using parts by blast
  show ?thesis
  proof (cases rule: answered_cases [of workers i t s])
    case none
    then show ?thesis unfolding none guarded_run_def using parts tracked_landed [OF tr t order_refl] by blast
  next
    case (answered email pw a)
    let ?k = "normalize_email email" and ?s = "password_step workers (Answered i t) s"
    let ?pool = "take i (gs_pool s) @ drop (Suc i) (gs_pool s)"
    have mem: "(email, pw, a) \<in> set (gs_pool s)" using answered(1,2) by (metis nth_mem)
    then have k: "?k \<in> K" "?k = key \<Longrightarrow> \<not> right_password a pw" using parts by auto
    have fl: "flying key (gs_pool s) = (if ?k = key then Suc (flying key ?pool) else flying key ?pool)"
      by (rule flying_without [OF answered(1,2)])
    then have less: "flying key ?pool \<le> flying key (gs_pool s)" by simp
    have "tracked (limit - 1 + int workers) limit window K key t (flying key ?pool)
        (wrong_times key (gs_log ?s)) (gs_throttle ?s)"
    proof (cases "right_password a pw")
      case True
      then have "?k \<noteq> key" using k(2) by blast
      then show ?thesis
        using answered(4) True tracked_success [OF tracked_landed [OF tr order_refl less] t lim]
        by (auto simp: wrong_times_snoc)
    next
      case False
      then obtain r where r: "gs_log ?s = gs_log s @ [(?k, t, r)]"
        "gs_throttle ?s = (if wrong_password r then record_failure ?k t (gs_throttle s) else gs_throttle s)"
        using answered(4) by auto
      show ?thesis
      proof (cases "wrong_password r")
        case True
        then show ?thesis
          using tracked_failure [OF tr [unfolded fl] t lim K k(1)] by (auto simp: r wrong_times_snoc)
      next
        case False
        then show ?thesis using tracked_landed [OF tr t less] by (simp add: r wrong_times_snoc)
      qed
    qed
    moreover have "length ?pool \<le> workers" "set ?pool \<subseteq> set (gs_pool s)"
      using parts answered(1) by (auto dest: in_set_takeD in_set_dropD)
    ultimately show ?thesis unfolding guarded_run_def answered(3) using parts by blast
  qed
qed

lemma guarded_fold:
  assumes "guarded_run workers limit window K key m s" "0 < limit" "finite K" "card K \<le> MAX_ENTRIES"
    "named_accounts evs \<subseteq> K" "\<forall>ev \<in> set evs. misses key ev" "sorted (m # map event_time evs)"
  shows "\<exists>n \<in> set (m # map event_time evs). guarded_run workers limit window K key n (fold (password_step workers) evs s)"
  using assms
proof (induction evs arbitrary: m s)
  case Nil
  then show ?case by auto
next
  case (Cons ev evs)
  have t: "m \<le> event_time ev" "sorted (event_time ev # map event_time evs)" using Cons.prems(7) by simp_all
  have "guarded_run workers limit window K key (event_time ev) (password_step workers ev s)"
  proof (cases ev)
    case (Asked email pw u db)
    have "account_by_email email db \<noteq> None \<Longrightarrow> normalize_email email \<in> K"
      using Cons.prems(5) by (auto simp: Asked named_accounts_def named_account_def)
    then show ?thesis
      using guarded_asked [OF Cons.prems(1) _ Cons.prems(2)] t(1) Cons.prems(6) by (simp add: Asked event_time_def)
  next
    case (Answered i u)
    then show ?thesis using guarded_answered [OF Cons.prems(1) _ Cons.prems(2-4)] t(1) by (simp add: event_time_def)
  qed
  moreover have "named_accounts evs \<subseteq> K" using Cons.prems(5) by (simp add: named_accounts_def)
  ultimately have "\<exists>n \<in> set (event_time ev # map event_time evs).
      guarded_run workers limit window K key n (fold (password_step workers) evs (password_step workers ev s))"
    using Cons.IH [OF _ Cons.prems(2-4) _ _ t(2)] Cons.prems(6) by simp
  then show ?case by auto
qed

lemma guarded_start:
  assumes "0 < limit" "finite K" "card K \<le> MAX_ENTRIES" "named_accounts evs \<subseteq> K"
    "\<forall>ev \<in> set evs. misses key ev" "sorted (map event_time evs)" "\<forall>ev \<in> set evs. event_time ev \<le> now"
  shows "\<exists>n \<le> now. guarded_run workers limit window K key n
    (fold (password_step workers) evs (no_guesses (new_throttle limit window)))"
proof -
  define m where "m = (if evs = [] then now else event_time (hd evs))"
  have "guarded_run workers limit window K key m (no_guesses (new_throttle limit window))"
    using tracked_new [OF assms(1), of workers window K key]
    by (simp add: guarded_run_def no_guesses_def flying_def wrong_times_def)
  moreover have "sorted (m # map event_time evs)" using assms(6) by (cases evs) (auto simp: m_def)
  ultimately have "\<exists>n \<in> set (m # map event_time evs). guarded_run workers limit window K key n
      (fold (password_step workers) evs (no_guesses (new_throttle limit window)))"
    using guarded_fold [OF _ assms(1-5)] by blast
  moreover have "\<forall>n \<in> set (m # map event_time evs). n \<le> now"
    using assms(7) by (cases evs) (auto simp: m_def)
  ultimately show ?thesis by blast
qed

lemma named_accounts_finite: "finite (named_accounts evs)"
  by (auto simp: named_accounts_def named_account_def split: password_event.split)

lemma bound_of_times: "\<exists>now. \<forall>ev \<in> set evs. event_time ev \<le> now"
proof (cases "evs = []")
  case False
  then show ?thesis by (intro exI [of _ "Max (set (map event_time evs))"]) simp
qed simp

text \<open>
  What is in the window at any later time: with one worker no more than the limit.
\<close>

lemma remembered_within_limit:
  assumes "0 < limit" "\<forall>ev \<in> set evs. misses key ev" "sorted (map event_time evs)"
    "card (named_accounts evs) \<le> MAX_ENTRIES" "\<forall>ev \<in> set evs. event_time ev \<le> now"
    "fold (password_step workers) evs (no_guesses (new_throttle limit window)) = s"
  shows "int (length (drop_expired (gs_throttle s) (recent_of (gs_throttle s) key) now)) \<le> limit - 1 + int workers"
proof -
  obtain n where n: "n \<le> now" and g: "guarded_run workers limit window (named_accounts evs) key n s"
    using guarded_start [OF assms(1) named_accounts_finite assms(4) subset_refl assms(2,3,5), of workers window] assms(6)
    by blast
  have "int (length (drop_expired (gs_throttle s) (recent_of (gs_throttle s) key) n)) \<le> limit - 1 + int workers"
    using g by (simp add: guarded_run_def tracked_def)
  then show ?thesis
    using drop_expired_later [OF n, of "gs_throttle s" "recent_of (gs_throttle s) key"] by linarith
qed

lemma step_size:
  assumes "length (th_failures (gs_throttle s)) \<le> MAX_ENTRIES"
  shows "length (th_failures (gs_throttle (password_step workers ev s))) \<le> MAX_ENTRIES"
proof (cases ev)
  case (Asked email pw t db)
  show ?thesis unfolding Asked
    using assms check_size [of "normalize_email email" t "gs_throttle s"]
    by (cases rule: asked_cases [of workers email pw t db s]) simp_all
next
  case (Answered i t)
  show ?thesis
  proof (cases rule: answered_cases [of workers i t s])
    case (answered email pw a)
    then show ?thesis
      using assms success_size [of "normalize_email email" "gs_throttle s"] failure_size [OF assms]
      by (auto simp: Answered split: if_splits)
  qed (use assms in \<open>simp add: Answered\<close>)
qed

lemma run_size:
  "length (th_failures (gs_throttle s)) \<le> MAX_ENTRIES \<Longrightarrow>
   length (th_failures (gs_throttle (fold (password_step workers) evs s))) \<le> MAX_ENTRIES"
  by (induction evs arbitrary: s) (simp_all add: step_size)

text \<open>
  C27: Brute force is bounded, also when the guesses come side by side. In any interleaving of
  password checks on a pool of \<open>workers\<close> threads, each of which asks the throttle, works for as long
  as it takes and then records its verdict: if no request has the right password for \<open>key\<close>, at most
  \<open>limit - 1 + workers\<close> wrong guesses at \<open>key\<close> are recorded in any window of the throttle, that is, the
  configured limit when the checks run one at a time, and one more for each further thread. This
  needs that the clock readings are in the order of the steps they are used in, and that no more than
  \<open>MAX_ENTRIES\<close> different accounts are tried, since the table forgets the oldest beyond that. The
  table itself never outgrows \<open>MAX_ENTRIES\<close>, however many accounts there are. Each request reads the
  accounts as they are at its time, and guesses at unknown addresses are among the requests.
\<close>

theorem password_guesses_bounded:
  assumes "0 < limit"
    "fold (password_step workers) evs (no_guesses (new_throttle limit window)) = s"
  shows "((\<forall>ev \<in> set evs. misses key ev) \<and> sorted (map event_time evs) \<and>
        card (named_accounts evs) \<le> MAX_ENTRIES \<longrightarrow>
      (\<forall>now. int (length (filter (\<lambda>t. horizon (gs_throttle s) now < t \<and> t \<le> now) (wrong_times key (gs_log s))))
        \<le> limit - 1 + int workers)) \<and>
    length (th_failures (gs_throttle s)) \<le> MAX_ENTRIES"
proof (intro conjI impI)
  show "length (th_failures (gs_throttle s)) \<le> MAX_ENTRIES"
    using run_size [of "no_guesses (new_throttle limit window)" workers evs] assms(2)
    by (simp add: no_guesses_def new_throttle_def)
  assume "(\<forall>ev \<in> set evs. misses key ev) \<and> sorted (map event_time evs) \<and> card (named_accounts evs) \<le> MAX_ENTRIES"
  then show "\<forall>now. int (length (filter (\<lambda>t. horizon (gs_throttle s) now < t \<and> t \<le> now) (wrong_times key (gs_log s))))
      \<le> limit - 1 + int workers"
    using guarded_start [OF assms(1) named_accounts_finite _ subset_refl, of evs key _ workers window] assms(2)
      bound_of_times [of evs]
    by (fastforce simp: guarded_run_def tracked_def)
qed

text \<open>
  An account whose stored hash has one byte, which no password matches; two guesses at it side by
  side at 100 and 101 seconds, with a limit of one in 900 seconds; a guess at an address without
  account; and one more at 200 seconds.
\<close>

definition guessed_account :: account where
  "guessed_account = sample_account\<lparr>acc_auth_salt := [], acc_verify_hash := ''00''\<rparr>"

definition guessed_database :: database where
  "guessed_database = empty_database\<lparr>db_accounts := [guessed_account]\<rparr>"

definition sample_guesses :: "password_event list" where
  "sample_guesses =
     [Asked ''A@x'' [1] 100 guessed_database, Asked ''a@x'' [2] 101 guessed_database, Answered 0 102,
      Asked ''b@x'' [2] 150 guessed_database, Answered 0 151, Asked ''a@x'' [3] 200 guessed_database]"

lemma guessed_account_check: "password_check guessed_account pw = Inr (stretch pw [], False)"
proof -
  have "fromhex ''00'' = Some [0]" by code_simp
  moreover have "\<not> matches s [0]" for s using verify_hash_total [of s] by (auto simp: matches_def)
  ultimately show ?thesis by (simp add: password_check_def guessed_account_def)
qed

lemma guessed_accounts:
  "account_by_email ''A@x'' guessed_database = Some guessed_account"
  "account_by_email ''a@x'' guessed_database = Some guessed_account"
  "account_by_email ''b@x'' guessed_database = None"
  "normalize_email ''A@x'' = ''a@x''" "normalize_email ''a@x'' = ''a@x''" "normalize_email ''b@x'' = ''b@x''"
  "acc_email guessed_account = ''A@x''" "strip ''A@x'' = ''A@x''" "strip ''a@x'' = ''a@x''"
  by code_simp+

definition guessed_throttle :: "rat list \<Rightarrow> throttle" where
  "guessed_throttle ts = \<lparr>th_limit = 1, th_window = 900, th_failures = [(''a@x'', ts)]\<rparr>"

lemma guessed_checks:
  "th_check ''a@x'' 100 (new_throttle 1 900) = (Inr (), new_throttle 1 900)"
  "th_check ''a@x'' 101 (new_throttle 1 900) = (Inr (), new_throttle 1 900)"
  "record_failure ''a@x'' 102 (new_throttle 1 900) = guessed_throttle [102]"
  "record_failure ''a@x'' 151 (guessed_throttle [102]) = guessed_throttle [102, 151]"
  "th_check ''a@x'' 200 (guessed_throttle [102, 151]) = (Inl (Fxa (too_many_requests 803)), guessed_throttle [102, 151])"
  "th_check ''a@x'' 200 (guessed_throttle [102]) = (Inl (Fxa (too_many_requests 803)), guessed_throttle [102])"
  "th_check ''a@x'' 1003 (guessed_throttle [102, 151]) = (Inl (Fxa (too_many_requests 49)), guessed_throttle [151])"
  by code_simp+

lemma sample_guess_run:
  "fold (password_step 2) sample_guesses (no_guesses (new_throttle 1 900)) =
     \<lparr>gs_pool = [],
      gs_log = [(''a@x'', 102, Inl (Fxa (incorrect_password ''A@x'' ''A@x''))),
        (''b@x'', 150, Inl (Fxa (unknown_account (Some ''b@x'')))),
        (''a@x'', 151, Inl (Fxa (incorrect_password ''A@x'' ''a@x''))),
        (''a@x'', 200, Inl (Fxa (too_many_requests 803)))],
      gs_throttle = guessed_throttle [102, 151]\<rparr>"
  by (simp add: sample_guesses_def no_guesses_def guessed_accounts guessed_checks verdict_def
      password_step.simps ask_known [OF guessed_accounts(1)] ask_known [OF guessed_accounts(2)] ask_unknown [OF guessed_accounts(3)]
      answer_checked [OF guessed_account_check])

lemma sample_guesses_ok:
  "\<forall>ev \<in> set sample_guesses. misses ''a@x'' ev" "sorted (map event_time sample_guesses)"
  "card (named_accounts sample_guesses) \<le> MAX_ENTRIES"
proof -
  show "\<forall>ev \<in> set sample_guesses. misses ''a@x'' ev"
    by (simp add: sample_guesses_def misses_def guessed_accounts guessed_account_check right_password_def)
  have n: "named_accounts sample_guesses = {''a@x''}"
    by (simp add: named_accounts_def named_account_def sample_guesses_def guessed_accounts)
  show "card (named_accounts sample_guesses) \<le> MAX_ENTRIES" unfolding n by (simp add: MAX_ENTRIES_def)
qed (simp add: sample_guesses_def event_time_def)

theorem password_guesses_bounded_witness:
  "int (length (filter (\<lambda>t. horizon (guessed_throttle [102, 151]) 500 < t \<and> t \<le> 500) [102, 151])) \<le> 2"
proof -
  have "\<forall>now. int (length (filter (\<lambda>t. horizon (guessed_throttle [102, 151]) now < t \<and> t \<le> now) [102, 151])) \<le> 1 - 1 + int 2"
    using password_guesses_bounded [OF _ sample_guess_run, of "''a@x''"] sample_guesses_ok
    by (simp add: wrong_times_def)
  from spec [OF this, of 500] show ?thesis by simp
qed

subsection \<open>The announced wait\<close>

text \<open>A step that records no wrong guess at \<open>key\<close> only forgets what is remembered of it.\<close>

definition calmer :: "str \<Rightarrow> throttle \<Rightarrow> throttle \<Rightarrow> bool" where
  "calmer key th th' \<longleftrightarrow>
     forgets key th th' \<and> th_limit th' = th_limit th \<and> th_window th' = th_window th \<and> (one_each th \<longrightarrow> one_each th')"

lemma calmer_refl [simp]: "calmer key th th"
  by (simp add: calmer_def)

lemma calmer_trans: "calmer key th th' \<Longrightarrow> calmer key th' th'' \<Longrightarrow> calmer key th th''"
  unfolding calmer_def by (auto intro: forgets_trans)

lemma calmer_check: "calmer key th (snd (th_check k t th))"
  by (simp add: calmer_def forgets_check check_one_each)

lemma calmer_success: "calmer key th (record_success k th)"
  by (simp add: calmer_def forgets_success success_one_each)

lemma calmer_failure: "one_each th \<Longrightarrow> k \<noteq> key \<Longrightarrow> calmer key th (record_failure k t th)"
  by (simp add: calmer_def forgets_failure failure_one_each)

lemma step_log:
  "\<exists>more. wrong_times key (gs_log (password_step workers ev s)) = wrong_times key (gs_log s) @ more"
proof (cases ev)
  case (Asked email pw t db)
  show ?thesis unfolding Asked
    by (cases rule: asked_cases [of workers email pw t db s]) (simp_all add: wrong_times_snoc)
next
  case (Answered i t)
  show ?thesis unfolding Answered
    by (cases rule: answered_cases [of workers i t s]) (auto simp: wrong_times_snoc split: if_splits)
qed

lemma run_log:
  "\<exists>more. wrong_times key (gs_log (fold (password_step workers) evs s)) = wrong_times key (gs_log s) @ more"
proof (induction evs arbitrary: s)
  case (Cons ev evs)
  obtain m1 m2 where "wrong_times key (gs_log (password_step workers ev s)) = wrong_times key (gs_log s) @ m1"
    "wrong_times key (gs_log (fold (password_step workers) evs (password_step workers ev s))) =
      wrong_times key (gs_log (password_step workers ev s)) @ m2"
    using step_log Cons.IH by blast
  then show ?case by simp
qed simp

lemma calmer_step:
  assumes "one_each (gs_throttle s)"
    and "wrong_times key (gs_log (password_step workers ev s)) = wrong_times key (gs_log s)"
  shows "calmer key (gs_throttle s) (gs_throttle (password_step workers ev s))"
proof (cases ev)
  case (Asked email pw t db)
  show ?thesis unfolding Asked
    by (cases rule: asked_cases [of workers email pw t db s]) (simp_all add: calmer_check)
next
  case (Answered i t)
  show ?thesis
  proof (cases rule: answered_cases [of workers i t s])
    case (answered email pw a)
    then show ?thesis
      using assms calmer_failure [OF assms(1), of "normalize_email email" key t] calmer_success
      by (auto simp: Answered wrong_times_snoc split: if_splits)
  qed (simp add: Answered)
qed

lemma calmer_run:
  assumes "one_each (gs_throttle s)"
    and "wrong_times key (gs_log (fold (password_step workers) evs s)) = wrong_times key (gs_log s)"
  shows "calmer key (gs_throttle s) (gs_throttle (fold (password_step workers) evs s))"
  using assms
proof (induction evs arbitrary: s)
  case (Cons ev evs)
  let ?s = "password_step workers ev s"
  obtain m1 m2 where "wrong_times key (gs_log ?s) = wrong_times key (gs_log s) @ m1"
    "wrong_times key (gs_log (fold (password_step workers) evs ?s)) = wrong_times key (gs_log ?s) @ m2"
    using step_log run_log by blast
  then have same: "wrong_times key (gs_log ?s) = wrong_times key (gs_log s)"
    using Cons.prems(2) by simp
  note first = calmer_step [OF Cons.prems(1) same]
  then have "one_each (gs_throttle ?s)" using Cons.prems(1) by (simp add: calmer_def)
  then show ?case using Cons.IH [of ?s] Cons.prems(2) same first by (auto intro: calmer_trans)
qed simp

lemma refusal_is_throttle:
  assumes "accounts_authenticate email pw now f db (Some th) = (Inl (Fxa (too_many_requests w)), Some th')"
  shows "th_check (normalize_email email) now th = (Inl (Fxa (too_many_requests w)), th')"
proof (cases "account_by_email email db")
  case None
  then have "Fxa (unknown_account (Some email)) = Fxa (too_many_requests w)"
    using assms by (simp add: authenticate_halves ask_unknown)
  then show ?thesis by (simp add: unknown_account_def too_many_requests_def fxa_bad_request_def fxa_error_of_def)
next
  case (Some a)
  obtain r t where r: "th_check (normalize_email email) now th = (r, t)" by fastforce
  show ?thesis
  proof (cases r)
    case (Inl e)
    then show ?thesis using assms r by (simp add: authenticate_halves ask_known [OF Some])
  next
    case (Inr u)
    then have "fst (answer_password a email pw f (Some t)) = Inl (Fxa (too_many_requests w))"
      using assms r by (simp add: authenticate_halves ask_known [OF Some])
    moreover have "incorrect_password e e' \<noteq> too_many_requests w" for e e'
      by (metis wrong_password_simps(2,4))
    ultimately show ?thesis
      by (cases "password_check a pw") (auto simp: answer_checked answer_crash verdict_def split: if_splits)
  qed
qed

lemma run_one_each:
  "one_each (gs_throttle s) \<Longrightarrow> one_each (gs_throttle (fold (password_step workers) evs s))"
proof (induction evs arbitrary: s)
  case (Cons ev evs)
  have "one_each (gs_throttle (password_step workers ev s))"
  proof (cases ev)
    case (Asked email pw t db)
    show ?thesis unfolding Asked
      using Cons.prems by (cases rule: asked_cases [of workers email pw t db s]) (simp_all add: check_one_each)
  next
    case (Answered i t)
    show ?thesis unfolding Answered
      using Cons.prems by (cases rule: answered_cases [of workers i t s])
        (auto simp: success_one_each failure_one_each split: if_splits)
  qed
  then show ?case using Cons.IH by simp
qed simp

lemma run_settings:
  "th_limit (gs_throttle (fold (password_step workers) evs s)) = th_limit (gs_throttle s) \<and>
   th_window (gs_throttle (fold (password_step workers) evs s)) = th_window (gs_throttle s)"
proof (induction evs arbitrary: s)
  case (Cons ev evs)
  have "th_limit (gs_throttle (password_step workers ev s)) = th_limit (gs_throttle s) \<and>
    th_window (gs_throttle (password_step workers ev s)) = th_window (gs_throttle s)"
  proof (cases ev)
    case (Asked email pw t db)
    show ?thesis unfolding Asked by (cases rule: asked_cases [of workers email pw t db s]) simp_all
  next
    case (Answered i t)
    show ?thesis unfolding Answered by (cases rule: answered_cases [of workers i t s]) (auto split: if_splits)
  qed
  then show ?case using Cons.IH by simp
qed simp

text \<open>
  C28: Whoever waits as long as the refusal says is heard, unless somebody guesses wrongly in the
  meantime. After any run of password checks, a request for an account is refused with a Retry-After
  of \<open>w\<close> seconds; then anything may happen as long as no wrong guess at that account is recorded; and a
  request for it \<open>w\<close> seconds after the refusal or later gets the password's own verdict, the account if
  the password is right. At the refusal no more than \<open>limit\<close> wrong guesses are in the window, as
  \<open>remembered_within_limit\<close> shows of checks that run one at a time: guesses that ran side by side can
  leave more, and then the wait announced can be too short. The clock readings are taken to be doubles fine enough that
  the three sums lose nothing.
\<close>

theorem announced_wait_is_enough:
  assumes "0 < limit"
    "fold (password_step workers) evs (no_guesses (new_throttle limit window)) = s"
    "accounts_authenticate email pw' now f db (Some (gs_throttle s)) = (Inl (Fxa (too_many_requests w)), Some th)"
    "int (length (drop_expired th (recent_of th (normalize_email email)) now)) \<le> limit"
    "\<forall>t\<in>set (recent_of (gs_throttle s) (normalize_email email)). exact_sums (gs_throttle s) now t"
    "fold (password_step workers) evs' (s\<lparr>gs_throttle := th\<rparr>) = s'"
    "wrong_times (normalize_email email) (gs_log s') = wrong_times (normalize_email email) (gs_log s)"
    "account_by_email email db' = Some a" "password_check a pw = Inr c" "now + of_int w \<le> later"
  shows "fst (accounts_authenticate email pw later f' db' (Some (gs_throttle s'))) = verdict a email c"
proof -
  let ?k = "normalize_email email" and ?th = "gs_throttle s"
  have lim: "th_limit ?th = limit" "th_enabled ?th" "one_each ?th"
    using run_settings [of workers evs "no_guesses (new_throttle limit window)"] assms(1,2)
      run_one_each [of "no_guesses (new_throttle limit window)" workers evs]
    by (simp_all add: no_guesses_def new_throttle_def th_enabled_def one_each_def)
  have refused: "fst (th_check ?k now ?th) = Inl (Fxa (too_many_requests w))" "th = snd (th_check ?k now ?th)"
    using refusal_is_throttle [OF assms(3)] by simp_all
  have short: "int (length (drop_expired ?th (recent_of ?th ?k) now)) \<le> th_limit ?th"
    using assms(4) lim by (simp add: refused(2) check_state prune_effect(2) same_settings(3) [OF prune_effect(5,6)])
  have "one_each th" unfolding refused(2) using lim(3) by (rule check_one_each)
  then have "calmer ?k th (gs_throttle s')"
    using calmer_run [of "s\<lparr>gs_throttle := th\<rparr>" ?k workers evs'] assms(6,7) by simp
  then have calm: "forgets ?k (snd (th_check ?k now ?th)) (gs_throttle s')"
    "th_limit (gs_throttle s') = th_limit ?th" "th_window (gs_throttle s') = th_window ?th"
    by (simp_all add: calmer_def refused(2))
  have "fst (th_check ?k later (gs_throttle s')) = Inr ()"
    by (rule wait_passes [OF lim(2) short assms(5) refused(1) assms(10) calm])
  then obtain t' where "th_check ?k later (gs_throttle s') = (Inr (), t')" by (metis prod.collapse)
  then show ?thesis unfolding authenticate_known [OF assms(8,9)] by simp
qed

text \<open>One wrong guess at 102 seconds, a refusal at 200, and a guess elsewhere while the client waits.\<close>

definition lone_guess :: "password_event list" where
  "lone_guess = [Asked ''A@x'' [1] 100 guessed_database, Answered 0 102]"

lemma lone_guess_run:
  "fold (password_step 1) lone_guess (no_guesses (new_throttle 1 900)) =
     \<lparr>gs_pool = [], gs_log = [(''a@x'', 102, Inl (Fxa (incorrect_password ''A@x'' ''A@x'')))],
      gs_throttle = guessed_throttle [102]\<rparr>"
  by (simp add: lone_guess_def no_guesses_def guessed_accounts guessed_checks verdict_def
      password_step.simps ask_known [OF guessed_accounts(1)] answer_checked [OF guessed_account_check])

theorem announced_wait_is_enough_witness:
  "fst (accounts_authenticate ''a@x'' [4] 1003 1004 guessed_database (Some (guessed_throttle [102]))) =
     Inl (Fxa (incorrect_password ''A@x'' ''a@x''))"
proof -
  let ?s = "\<lparr>gs_pool = [], gs_log = [(''a@x'', 102, Inl (Fxa (incorrect_password ''A@x'' ''A@x'')))],
      gs_throttle = guessed_throttle [102]\<rparr> :: guessing"
  let ?s' = "?s\<lparr>gs_log := gs_log ?s @ [(''b@x'', 500, Inl (Fxa (unknown_account (Some ''b@x''))))]\<rparr>"
  have e: "exact_sums (guessed_throttle [102]) 200 102" by code_simp
  have rec: "recent_of (guessed_throttle [102]) ''a@x'' = [102]" by (simp add: recent_of_def guessed_throttle_def)
  have d: "drop_expired (guessed_throttle [102]) [102] 200 = [102]" by code_simp
  have r: "accounts_authenticate ''a@x'' [3] 200 201 guessed_database (Some (gs_throttle ?s)) =
      (Inl (Fxa (too_many_requests 803)), Some (guessed_throttle [102]))"
    by (simp add: authenticate_known [OF guessed_accounts(2) guessed_account_check] guessed_accounts guessed_checks)
  have later: "fold (password_step 1) [Asked ''b@x'' [5] 500 guessed_database] (?s\<lparr>gs_throttle := guessed_throttle [102]\<rparr>) = ?s'"
    by (simp add: password_step.simps ask_unknown [OF guessed_accounts(3)] guessed_accounts)
  have "fst (accounts_authenticate ''a@x'' [4] 1003 1004 guessed_database (Some (gs_throttle ?s'))) =
      verdict guessed_account ''a@x'' (stretch [4] [], False)"
    by (rule announced_wait_is_enough [OF _ lone_guess_run r _ _ later _ guessed_accounts(2) guessed_account_check])
      (use e rec d in \<open>simp_all add: guessed_accounts wrong_times_def\<close>)
  then show ?thesis by (simp add: verdict_def guessed_accounts)
qed

text \<open>
  The condition on the window is needed: after the two guesses of the sample that ran side by side
  under a limit of one, the refusal at 200 seconds announces 803, and 803 seconds later the same
  account is refused again although nobody has guessed in between.
\<close>

lemma announced_wait_can_fall_short:
  "fst (accounts_authenticate ''a@x'' pw 200 f guessed_database (Some (guessed_throttle [102, 151]))) =
     Inl (Fxa (too_many_requests 803))"
  "fst (accounts_authenticate ''a@x'' pw 1003 f guessed_database (Some (guessed_throttle [102, 151]))) =
     Inl (Fxa (too_many_requests 49))"
  by (simp_all add: authenticate_known [OF guessed_accounts(2) guessed_account_check] guessed_accounts guessed_checks)

end
