(* ===== verification/AccountClaims.thy ===== *)
theory AccountClaims
  imports AccountProps
begin

text \<open>
  The life of an account as a client sees it: the right password opens a session and delivers the
  account keys, the key-fetch token works once, and a deleted account leaves nothing behind.
\<close>

subsection \<open>The key-fetch token\<close>

definition key_material :: "account \<Rightarrow> bytes \<Rightarrow> bytes \<Rightarrow> bool" where
  "key_material a ka wrapped \<longleftrightarrow>
     acc_ka a = hex_of ka \<and> length ka = 32 \<and> bytes_ok ka \<and>
     acc_wrap_wrap_kb a = hex_of wrapped \<and> length wrapped = 32 \<and> bytes_ok wrapped"

lemma key_bundle_opens:
  assumes "key_material a ka wrapped"
  obtains sealed wrap_kb where "key_bundle a s k = Some sealed" "wrap s wrapped = Some wrap_kb"
    "wrap s wrap_kb = Some wrapped" "unbundle_account_keys (tk_bundle_key k) sealed = Some (ka, wrap_kb)"
proof -
  have f: "fromhex (acc_wrap_wrap_kb a) = Some wrapped" "fromhex (acc_ka a) = Some ka" "length ka = 32" "length wrapped = 32"
    using assms by (simp_all add: key_material_def fromhex_hex_of)
  obtain w where w: "wrap s wrapped = Some w" "length w = 32" using wrap_total [OF f(4)] by blast
  obtain c where "bundle_account_keys (tk_bundle_key k) ka w = Some c"
    "unbundle_account_keys (tk_bundle_key k) c = Some (ka, w)"
    by (rule account_keys_roundtrip [OF f(3) w(2)])
  then show ?thesis using that [of c w] f w wrap_wrap [OF w(1)] by (simp add: key_bundle_def)
qed

definition key_fetch_row :: "account \<Rightarrow> int \<Rightarrow> token_keys \<Rightarrow> bytes \<Rightarrow> key_fetch_token" where
  "key_fetch_row a now_ms k sealed =
     \<lparr>kf_token_id = hex_of (tk_id k), kf_uid = acc_uid a, kf_auth_key = hex_of (tk_auth_key k),
      kf_key_bundle = hex_of sealed, kf_created_at = now_ms\<rparr>"

lemma start_key_fetch_Inr:
  "start_key_fetch a s now rnd db = (Inr k, db') \<longleftrightarrow>
     derive_token_keys KEY_FETCH rnd = Some k \<and>
     (\<exists>sealed. key_bundle a s k = Some sealed \<and>
       create_key_fetch_token (key_fetch_row a now k sealed) db = Inr db')"
  by (auto simp: start_key_fetch_def andthen_Inr insert_row_Inr key_fetch_row_def)

lemma key_fetch_once:
  assumes "start_key_fetch a s now rnd db = (Inr k, db')" "key_material a ka wrapped"
  shows "\<exists>sealed wrap_kb. account_keys (Some (bearer_header KEY_FETCH k)) db' =
      (Inr (JObj [(''bundle'', JStr (hex_of sealed))]), db) \<and>
    unbundle_account_keys (tk_bundle_key k) sealed = Some (ka, wrap_kb) \<and> wrap s wrapped = Some wrap_kb \<and>
    account_keys (Some (bearer_header KEY_FETCH k)) db = (Inl token_not_found, db)"
proof -
  obtain sealed wrap_kb where b: "key_bundle a s k = Some sealed" "wrap s wrapped = Some wrap_kb"
    "unbundle_account_keys (tk_bundle_key k) sealed = Some (ka, wrap_kb)"
    by (rule key_bundle_opens [OF assms(2)])
  let ?t = "key_fetch_row a now k sealed"
  have k: "derive_token_keys KEY_FETCH rnd = Some k" and c: "create_key_fetch_token ?t db = Inr db'"
    using assms(1) b(1) by (auto simp: start_key_fetch_Inr)
  have "length rnd = 32" using k by (auto simp: derive_token_keys_def split: if_splits)
  then have "length (tk_id k) = 32" using k derive_token_keys_Some [of rnd KEY_FETCH] by auto
  then have id: "token_id (Some (bearer_header KEY_FETCH k)) KEY_FETCH = Inr (Some (hex_of (tk_id k)))"
    by (simp add: bearer_header_text bearer_token_id_header)
  have new: "\<not> has_key kf_token_id (hex_of (tk_id k)) (db_key_fetch_tokens db)" and own: "has_account (acc_uid a) db"
    and db': "db' = db\<lparr>db_key_fetch_tokens := db_key_fetch_tokens db @ [?t]\<rparr>"
    using c by (auto simp: create_key_fetch_token_def key_fetch_row_def split: if_splits)
  then have none: "lookup_key kf_token_id (hex_of (tk_id k)) (db_key_fetch_tokens db) = None"
    by (simp add: has_key_lookup)
  have look: "get_key_fetch_token (hex_of (tk_id k)) db = None" "get_key_fetch_token (hex_of (tk_id k)) db' = Some ?t"
    using none by (auto simp: db' get_key_fetch_token_def lookup_key_def key_fetch_row_def find_append)
  obtain x where "get_account (acc_uid a) db' = Some x"
    using own by (auto simp: db' has_account_def get_account_def has_key_lookup)
  then have "key_fetch_of (Some (bearer_header KEY_FETCH k)) db' = Inr \<lparr>kc_token = ?t, kc_account = x\<rparr>"
    "key_fetch_of (Some (bearer_header KEY_FETCH k)) db = Inl token_not_found"
    using look by (simp_all add: key_fetch_of_def id) (simp add: key_fetch_row_def)
  moreover have "filter (\<lambda>r. kf_token_id r \<noteq> hex_of (tk_id k)) (db_key_fetch_tokens db) = db_key_fetch_tokens db"
    using none unfolding lookup_key_None by (intro filter_True ballI notI) (metis imageI)
  then have "snd (delete_key_fetch_token (hex_of (tk_id k)) db') = db"
    by (simp add: db' delete_key_fetch_token_def delete_where_def) (simp add: key_fetch_row_def)
  ultimately have "account_keys (Some (bearer_header KEY_FETCH k)) db' = (Inr (JObj [(''bundle'', JStr (hex_of sealed))]), db)"
    "account_keys (Some (bearer_header KEY_FETCH k)) db = (Inl token_not_found, db)"
    by (simp_all add: account_keys_def) (simp add: key_fetch_row_def)
  then show ?thesis using b by blast
qed

text \<open>
  C29: The key-fetch token delivers the account keys once. After a token is minted for an account
  whose stored key material is sound, the \<open>Bearer\<close> header made from it gets a bundle that opens, under
  the token's bundle key, to exactly \<open>kA\<close> and the \<open>wrapKb\<close> of the password at hand; the request leaves
  the database as it was before the token, and the same header is refused from then on.
\<close>

theorem key_fetch_delivers_once:
  assumes "start_key_fetch a s now rnd db = (Inr k, db')" "key_material a ka wrapped"
  shows "\<exists>sealed wrap_kb. account_keys (Some (bearer_header KEY_FETCH k)) db' =
      (Inr (JObj [(''bundle'', JStr (hex_of sealed))]), db) \<and>
    unbundle_account_keys (tk_bundle_key k) sealed = Some (ka, wrap_kb) \<and> wrap s wrapped = Some wrap_kb \<and>
    account_keys (Some (bearer_header KEY_FETCH k)) db = (Inl token_not_found, db)"
  using assms by (rule key_fetch_once)

definition keyed_account :: account where
  "keyed_account = sample_account\<lparr>acc_ka := hex_of (replicate 32 1), acc_wrap_wrap_kb := hex_of (replicate 32 2)\<rparr>"

lemma keyed_material: "key_material keyed_account (replicate 32 1) (replicate 32 2)"
  by (simp add: key_material_def keyed_account_def bytes_ok_def)

lemma keyed_fetch:
  "\<exists>k db'. start_key_fetch keyed_account ''pw'' 5 (replicate 32 7) (empty_database\<lparr>db_accounts := [keyed_account]\<rparr>) =
    (Inr k, db')"
proof -
  obtain k where "derive_token_keys KEY_FETCH (replicate 32 7) = Some k"
    by (rule derive_token_keys_Some [of "replicate 32 7" KEY_FETCH]) simp_all
  moreover obtain sealed where "key_bundle keyed_account ''pw'' k = Some sealed"
    by (rule key_bundle_opens [OF keyed_material])
  ultimately show ?thesis
    by (auto simp: start_key_fetch_Inr create_key_fetch_token_def key_fetch_row_def has_account_def has_key_def
        empty_database_def)
qed

theorem key_fetch_delivers_once_witness:
  "\<exists>k db' sealed wrap_kb. account_keys (Some (bearer_header KEY_FETCH k)) db' =
      (Inr (JObj [(''bundle'', JStr (hex_of sealed))]), empty_database\<lparr>db_accounts := [keyed_account]\<rparr>) \<and>
    unbundle_account_keys (tk_bundle_key k) sealed = Some (replicate 32 1, wrap_kb)"
proof -
  from keyed_fetch obtain k db' where "start_key_fetch keyed_account ''pw'' 5 (replicate 32 7)
      (empty_database\<lparr>db_accounts := [keyed_account]\<rparr>) = (Inr k, db')" by blast
  from key_fetch_delivers_once [OF this keyed_material] show ?thesis by blast
qed

subsection \<open>From provisioning to a signed-in client\<close>

lemma provision_Inr:
  "provision email pw locale rnd t db = (Inr (a, s), db') \<longleftrightarrow>
     s = stretch pw (rn_auth_salt rnd) \<and>
     (\<exists>h. verify_hash s = Some h \<and> a = new_account email locale rnd h t \<and> create_account a db = Some db')"
  by (auto simp: provision_def andthen_Inr Let_def split: option.splits)

definition sound_random :: "account_random \<Rightarrow> bool" where
  "sound_random rnd \<longleftrightarrow>
     bytes_ok (rn_auth_salt rnd) \<and> bytes_ok (rn_ka rnd) \<and> length (rn_ka rnd) = 32 \<and>
     bytes_ok (rn_wrap_wrap_kb rnd) \<and> length (rn_wrap_wrap_kb rnd) = 32"

lemma provisioned:
  assumes "provision email pw locale rnd t db = (Inr (a, s), db1)" "sound_random rnd"
  shows "password_check a pw = Inr (s, True)" "key_material a (rn_ka rnd) (rn_wrap_wrap_kb rnd)"
    "get_account (acc_uid a) db1 = Some a"
    "normalize_email e = normalize_email email \<Longrightarrow> account_by_email e db1 = Some a"
proof -
  from assms(1) obtain h where s: "s = stretch pw (rn_auth_salt rnd)" and h: "verify_hash s = Some h"
    and a: "a = new_account email locale rnd h t" and c: "create_account a db = Some db1"
    by (auto simp: provision_Inr)
  have "bytes_ok h" using h verify_hash_total [of s] by auto
  then show "password_check a pw = Inr (s, True)"
    using assms(2) h by (simp add: password_check_def a new_account_def sound_random_def fromhex_hex_of s [symmetric] matches_def)
  show "key_material a (rn_ka rnd) (rn_wrap_wrap_kb rnd)"
    using assms(2) by (simp add: key_material_def a new_account_def sound_random_def)
  have new: "\<not> has_key acc_uid (acc_uid a) (db_accounts db)"
    "\<not> has_key acc_normalized_email (acc_normalized_email a) (db_accounts db)"
    and db1: "db1 = db\<lparr>db_accounts := db_accounts db @ [a]\<rparr>"
    using c by (auto simp: create_account_def split: if_splits)
  show "get_account (acc_uid a) db1 = Some a"
    using new(1) by (simp add: db1 get_account_def has_key_lookup lookup_key_def find_append)
  have "acc_normalized_email a = normalize_email email" by (simp add: a new_account_def)
  then show "account_by_email e db1 = Some a" if "normalize_email e = normalize_email email"
    using new(2) that by (simp add: db1 account_by_email_def has_key_lookup lookup_key_def find_append)
qed

lemma start_session_new:
  assumes "derive_token_keys SESSION rnd = Some k" "get_account (acc_uid a) db = Some a"
    "get_session_token (hex_of (tk_id k)) db = None"
  shows "start_session a ua auth_at now rnd db =
    (Inr (k, new_session a ua auth_at now k),
     db\<lparr>db_session_tokens := db_session_tokens db @ [new_session a ua auth_at now k]\<rparr>)"
proof -
  have "st_uid (new_session a ua auth_at now k) = acc_uid a"
    "st_token_id (new_session a ua auth_at now k) = hex_of (tk_id k)" by (simp_all add: new_session_def)
  then show ?thesis
    using assms by (simp add: start_session_def Let_def create_session_token_def has_account_def has_key_lookup
        get_account_def get_session_token_def)
qed

lemma start_key_fetch_new:
  assumes "derive_token_keys KEY_FETCH rnd = Some k" "key_bundle a s k = Some sealed"
    "get_account (acc_uid a) db = Some a" "get_key_fetch_token (hex_of (tk_id k)) db = None"
  shows "start_key_fetch a s now rnd db =
    (Inr k, db\<lparr>db_key_fetch_tokens := db_key_fetch_tokens db @ [key_fetch_row a now k sealed]\<rparr>)"
  using assms
  by (simp add: start_key_fetch_Inr create_key_fetch_token_def has_account_def has_key_lookup get_account_def
      get_key_fetch_token_def key_fetch_row_def)

lemma derived_token:
  assumes "derive_token_keys t rnd = Some k"
  shows "token_of k = hex_of rnd" "token_id (Some (bearer_header t k)) t = Inr (Some (hex_of (tk_id k)))"
proof -
  have "length rnd = 32" using assms by (auto simp: derive_token_keys_def split: if_splits)
  then have "tk_data k = rnd" "length (tk_id k) = 32" using assms derive_token_keys_Some [of rnd t] by auto
  then show "token_of k = hex_of rnd" "token_id (Some (bearer_header t k)) t = Inr (Some (hex_of (tk_id k)))"
    by (simp_all add: token_of_def bearer_header_text bearer_token_id_header)
qed

lemma session_of_new:
  assumes "derive_token_keys SESSION rnd = Some k" "get_account (acc_uid a) db = Some a"
    "get_session_token (hex_of (tk_id k)) db = Some tok" "st_uid tok = acc_uid a"
  shows "session_of (Some (bearer_header SESSION k)) db = Inr \<lparr>sc_token = tok, sc_account = a\<rparr>"
  using assms by (simp add: session_of_def optional_session_def derived_token(2))

lemma password_authenticated_right:
  assumes "account_by_email email db = Some a" "password_check a pw = Inr (s, True)" "bytes_ok pw"
    "fst (th_check (normalize_email email) chk th) = Inr ()"
  shows "password_authenticated email (hex_of pw) chk f (db, th) =
    (Inr (a, s), (db, record_success (normalize_email email) (snd (th_check (normalize_email email) chk th))))"
proof -
  obtain th' where t: "th_check (normalize_email email) chk th = (Inr (), th')" using assms(4) by (metis prod.collapse)
  show ?thesis
    using assms(3) by (simp add: password_authenticated_def auth_pw_of_def fromhex_hex_of t verdict_def
        authenticate_known [OF assms(1,2)])
qed

text \<open>
  C30: A provisioned account signs in and reaches its keys. After an account is provisioned with a
  password, a login with that password (any spelling of the email that normalizes alike), let
  through by the throttle and given unused token ids, answers with a session token and a key-fetch
  token and clears the throttle's history; the header made from the first opens a session of that
  account, and the header made from the second gets a bundle that opens to the provisioned \<open>kA\<close> and
  the \<open>wrapKb\<close> of the password.
\<close>

theorem provisioned_account_signs_in:
  assumes "provision email pw locale rnd t db = (Inr (a, s), db1)" "sound_random rnd" "bytes_ok pw"
    "normalize_email (lg_email p) = normalize_email email" "lg_authPW p = hex_of pw"
    "fst (th_check (normalize_email email) chk th) = Inr ()"
    "derive_token_keys SESSION (tr_session tokens) = Some ks"
    "derive_token_keys KEY_FETCH (tr_key_fetch tokens) = Some kf"
    "get_session_token (hex_of (tk_id ks)) db1 = None" "get_key_fetch_token (hex_of (tk_id kf)) db1 = None"
  shows "\<exists>r db2 tok sealed wrap_kb.
    account_login p True ua now chk f tokens (db1, th) =
      (Inr (JObj r), (db2, record_success (normalize_email email) (snd (th_check (normalize_email email) chk th)))) \<and>
    map_of r ''sessionToken'' = Some (JStr (hex_of (tr_session tokens))) \<and>
    map_of r ''keyFetchToken'' = Some (JStr (hex_of (tr_key_fetch tokens))) \<and>
    session_of (Some (bearer_header SESSION ks)) db2 = Inr \<lparr>sc_token = tok, sc_account = a\<rparr> \<and>
    fst (account_keys (Some (bearer_header KEY_FETCH kf)) db2) = Inr (JObj [(''bundle'', JStr (hex_of sealed))]) \<and>
    unbundle_account_keys (tk_bundle_key kf) sealed = Some (rn_ka rnd, wrap_kb) \<and>
    wrap s (rn_wrap_wrap_kb rnd) = Some wrap_kb"
proof -
  note prov = provisioned [OF assms(1,2)]
  let ?ua = "case ua of None \<Rightarrow> [] | Some u \<Rightarrow> u"
  let ?tok = "new_session a ?ua None now ks"
  let ?db = "db1\<lparr>db_session_tokens := db_session_tokens db1 @ [?tok]\<rparr>"
  obtain sealed where b: "key_bundle a s kf = Some sealed" by (rule key_bundle_opens [OF prov(2)])
  have acc: "get_account (acc_uid a) ?db = Some a" using prov(3) by (simp add: get_account_def)
  have none: "get_key_fetch_token (hex_of (tk_id kf)) ?db = None" using assms(10) by (simp add: get_key_fetch_token_def)
  let ?db2 = "?db\<lparr>db_key_fetch_tokens := db_key_fetch_tokens ?db @ [key_fetch_row a now kf sealed]\<rparr>"
  have kfetch: "start_key_fetch a s now (tr_key_fetch tokens) ?db = (Inr kf, ?db2)"
    by (rule start_key_fetch_new [OF assms(8) b acc none])
  have look: "get_session_token (hex_of (tk_id ks)) ?db2 = Some ?tok"
    using assms(9) by (simp add: get_session_token_def lookup_key_def find_append) (simp add: new_session_def)
  have "session_of (Some (bearer_header SESSION ks)) ?db2 = Inr \<lparr>sc_token = ?tok, sc_account = a\<rparr>"
    using acc by (intro session_of_new [OF assms(7) _ look]) (simp_all add: get_account_def new_session_def)
  moreover obtain sealed' wrap_kb where
    "account_keys (Some (bearer_header KEY_FETCH kf)) ?db2 = (Inr (JObj [(''bundle'', JStr (hex_of sealed'))]), ?db)"
    "unbundle_account_keys (tk_bundle_key kf) sealed' = Some (rn_ka rnd, wrap_kb)" "wrap s (rn_wrap_wrap_kb rnd) = Some wrap_kb"
    using key_fetch_once [OF kfetch prov(2)] by blast
  moreover have "\<exists>r. account_login p True ua now chk f tokens (db1, th) =
      (Inr (JObj r), (?db2, record_success (normalize_email email) (snd (th_check (normalize_email email) chk th)))) \<and>
    map_of r ''sessionToken'' = Some (JStr (hex_of (tr_session tokens))) \<and>
    map_of r ''keyFetchToken'' = Some (JStr (hex_of (tr_key_fetch tokens)))"
    using password_authenticated_right [OF prov(4) [OF assms(4)] prov(1) assms(3), of chk th f] assms(4-6)
      start_session_new [OF assms(7) prov(3) assms(9), of ?ua None now] kfetch
    by (simp add: account_login_def with_key_fetch_def on_db_def derived_token(1) [OF assms(7)]
        derived_token(1) [OF assms(8)] del: prod.collapse)
  ultimately show ?thesis by (metis fst_conv)
qed

definition signing_random :: account_random where
  "signing_random = \<lparr>rn_auth_salt = [1, 2], rn_uid = [3], rn_email_code = [4], rn_ka = replicate 32 1,
     rn_wrap_wrap_kb = replicate 32 2\<rparr>"

definition signing_tokens :: token_random where
  "signing_tokens = \<lparr>tr_session = replicate 32 7, tr_key_fetch = replicate 32 8\<rparr>"

definition signing_login :: login_request where
  "signing_login = \<lparr>lg_email = ''A@x'', lg_authPW = hex_of [9], lg_service = None, lg_resume = None,
     lg_reason = None, lg_original_login_email = None\<rparr>"

lemma signing_provision:
  "\<exists>a s db1. provision ''a@x '' [9] None signing_random 5 empty_database = (Inr (a, s), db1) \<and>
     db_session_tokens db1 = [] \<and> db_key_fetch_tokens db1 = []"
proof -
  obtain h where "verify_hash (stretch [9] (rn_auth_salt signing_random)) = Some h" using verify_hash_total by blast
  then show ?thesis by (simp add: provision_Inr create_account_def has_key_def empty_database_def)
qed

theorem provisioned_account_signs_in_witness:
  "\<exists>r db1 db2 th kf sealed wrap_kb. account_login signing_login True None 6 100 101 signing_tokens (db1, new_throttle 1 900) =
      (Inr (JObj r), (db2, th)) \<and>
    fst (account_keys (Some (bearer_header KEY_FETCH kf)) db2) = Inr (JObj [(''bundle'', JStr (hex_of sealed))]) \<and>
    unbundle_account_keys (tk_bundle_key kf) sealed = Some (replicate 32 1, wrap_kb)"
proof -
  from signing_provision obtain a s db1 where p: "provision ''a@x '' [9] None signing_random 5 empty_database = (Inr (a, s), db1)"
    and empty: "db_session_tokens db1 = []" "db_key_fetch_tokens db1 = []" by blast
  obtain ks where ks: "derive_token_keys SESSION (tr_session signing_tokens) = Some ks"
    by (rule derive_token_keys_Some [of "tr_session signing_tokens" SESSION]) (simp_all add: signing_tokens_def)
  obtain kf where kf: "derive_token_keys KEY_FETCH (tr_key_fetch signing_tokens) = Some kf"
    by (rule derive_token_keys_Some [of "tr_key_fetch signing_tokens" KEY_FETCH]) (simp_all add: signing_tokens_def)
  have n: "normalize_email (lg_email signing_login) = normalize_email ''a@x ''"
    "fst (th_check (normalize_email ''a@x '') 100 (new_throttle 1 900)) = Inr ()" by code_simp+
  have "get_session_token (hex_of (tk_id ks)) db1 = None" "get_key_fetch_token (hex_of (tk_id kf)) db1 = None"
    using empty by (simp_all add: get_session_token_def get_key_fetch_token_def lookup_key_def)
  from provisioned_account_signs_in [OF p _ _ n(1) _ n(2) ks kf this] show ?thesis
    by (simp add: signing_login_def sound_random_def signing_random_def bytes_ok_def) blast
qed

subsection \<open>A deleted account\<close>

definition no_trace :: "str \<Rightarrow> database \<Rightarrow> bool" where
  "no_trace uid db \<longleftrightarrow>
     get_account uid db = None \<and> list_all (\<lambda>r. st_uid r \<noteq> uid) (db_session_tokens db) \<and>
     list_all (\<lambda>r. kf_uid r \<noteq> uid) (db_key_fetch_tokens db) \<and> list_all (\<lambda>r. dv_uid r \<noteq> uid) (db_devices db) \<and>
     list_all (\<lambda>r. oc_uid r \<noteq> uid) (db_oauth_codes db) \<and> list_all (\<lambda>r. rt_uid r \<noteq> uid) (db_refresh_tokens db) \<and>
     list_all (\<lambda>r. su_fxa_uid r \<noteq> uid) (db_sync_users db)"

definition sync_uids :: "str \<Rightarrow> database \<Rightarrow> int list" where
  "sync_uids uid db = map su_uid (filter (\<lambda>r. su_fxa_uid r = uid) (db_sync_users db))"

text \<open>A device record that holds one of the account's sessions: the cascade of that session takes it.\<close>

definition holds_session_of :: "str \<Rightarrow> database \<Rightarrow> device \<Rightarrow> bool" where
  "holds_session_of uid db r \<longleftrightarrow>
     list_ex (\<lambda>t. st_uid t = uid \<and> dv_session_token_id r = Some (st_token_id t)) (db_session_tokens db)"

definition keeps_others :: "str \<Rightarrow> database \<Rightarrow> database \<Rightarrow> bool" where
  "keeps_others uid db db' \<longleftrightarrow>
     db_accounts db' = filter (\<lambda>r. acc_uid r \<noteq> uid) (db_accounts db) \<and>
     db_session_tokens db' = filter (\<lambda>r. st_uid r \<noteq> uid) (db_session_tokens db) \<and>
     db_key_fetch_tokens db' = filter (\<lambda>r. kf_uid r \<noteq> uid) (db_key_fetch_tokens db) \<and>
     db_devices db' = filter (\<lambda>r. dv_uid r \<noteq> uid \<and> \<not> holds_session_of uid db r) (db_devices db) \<and>
     db_oauth_codes db' = filter (\<lambda>r. oc_uid r \<noteq> uid) (db_oauth_codes db) \<and>
     db_refresh_tokens db' = filter (\<lambda>r. rt_uid r \<noteq> uid) (db_refresh_tokens db) \<and>
     db_sync_users db' = filter (\<lambda>r. su_fxa_uid r \<noteq> uid) (db_sync_users db) \<and>
     db_user_collections db' = filter (\<lambda>r. uc_uid r \<notin> set (sync_uids uid db)) (db_user_collections db) \<and>
     db_bso db' = filter (\<lambda>r. br_uid r \<notin> set (sync_uids uid db)) (db_bso db) \<and>
     db_batches db' = filter (\<lambda>r. ba_uid r \<notin> set (sync_uids uid db)) (db_batches db) \<and>
     db_batch_items db' = filter (\<lambda>r. bi_uid r \<notin> set (sync_uids uid db)) (db_batch_items db)"

lemma filter_by_owner:
  assumes "uniq key t"
  shows "filter (\<lambda>r. key r \<notin> key ` set (filter P t)) t = filter (\<lambda>r. \<not> P r) t"
proof (rule filter_cong [OF refl])
  fix x assume x: "x \<in> set t"
  then show "(key x \<notin> key ` set (filter P t)) = (\<not> P x)"
    using assms unfolding uniq_def distinct_map inj_on_def by auto
qed

lemma delete_account_effect:
  assumes "wf_db db"
  shows "no_trace uid (snd (delete_account uid db))" "keeps_others uid db (snd (delete_account uid db))"
proof -
  let ?su = "su_uid ` set (filter (\<lambda>r. su_fxa_uid r = uid) (db_sync_users db))"
  let ?st = "st_token_id ` set (filter (\<lambda>r. st_uid r = uid) (db_session_tokens db))"
  have s: "set (sync_uids uid db) = ?su" by (simp add: sync_uids_def)
  have su: "filter (\<lambda>r. su_uid r \<notin> ?su) (db_sync_users db) = filter (\<lambda>r. su_fxa_uid r \<noteq> uid) (db_sync_users db)"
    using wf_parts(10) [OF assms] by (rule filter_by_owner)
  have st: "filter (\<lambda>r. st_token_id r \<notin> ?st) (db_session_tokens db) = filter (\<lambda>r. st_uid r \<noteq> uid) (db_session_tokens db)"
    using wf_parts(3) [OF assms] by (rule filter_by_owner)
  have dv: "(case dv_session_token_id r of None \<Rightarrow> False | Some i \<Rightarrow> i \<in> ?st) \<longleftrightarrow> holds_session_of uid db r" for r
    by (auto simp: holds_session_of_def list_ex_iff split: option.split)
  have dvs: "db_devices (snd (delete_account uid db)) =
      filter (\<lambda>r. dv_uid r \<noteq> uid \<and> \<not> holds_session_of uid db r) (db_devices db)"
    unfolding dv [symmetric]
    by (simp add: delete_account_def Let_def cascade_sync_users_def cascade_session_tokens_def delete_where_def
        conj_commute cong: option.case_cong)
  show keeps: "keeps_others uid db (snd (delete_account uid db))"
    using su st dvs unfolding keeps_others_def s
    by (simp add: delete_account_def Let_def cascade_sync_users_def cascade_session_tokens_def delete_where_def)
  have "list_all (\<lambda>r. dv_uid r \<noteq> uid) (db_devices (snd (delete_account uid db)))"
    by (simp add: delete_account_def Let_def list_all_iff)
  moreover have "get_account uid (snd (delete_account uid db)) = None"
    using keeps unfolding get_account_def lookup_key_None keeps_others_def by auto
  ultimately show "no_trace uid (snd (delete_account uid db))"
    using keeps unfolding no_trace_def keeps_others_def by (simp add: list_all_iff)
qed

lemma account_destroy_Inr:
  assumes "account_destroy header email authPW chk f (db, th) = (Inr r, (db', th'))"
  obtains c a s pw where "session_of header db = Inr c" "account_by_email email db = Some a"
    "fromhex authPW = Some pw" "password_check a pw = Inr (s, True)" "acc_uid (sc_account c) = acc_uid a"
    "db' = snd (delete_account (acc_uid a) db)"
proof -
  from assms obtain c where c: "session_of header db = Inr c"
    by (cases "session_of header db") (auto simp: account_destroy_def)
  from assms obtain a s d t where r: "password_authenticated email authPW chk f (db, th) = (Inr (a, s), (d, t))"
    "acc_uid a = acc_uid (sc_account c)" "db' = snd (delete_account (acc_uid a) d)"
    by (auto simp: account_destroy_def c andthen_Inr split: prod.splits)
  then obtain pw where pw: "fromhex authPW = Some pw"
    by (auto simp: password_authenticated_def auth_pw_of_def andthen_Inr)
  with r(1) have "d = db" "fst (accounts_authenticate email pw chk f db (Some th)) = Inr (a, s)"
    by (simp_all add: password_authenticated_def auth_pw_of_def split: prod.splits)
  then have "account_by_email email db = Some a" "password_check a pw = Inr (s, True)"
    by (auto simp: accounts_authenticate_def Let_def andthen_def split: option.splits prod.splits sum.splits if_splits)
  then show ?thesis using that c r(2,3) pw \<open>d = db\<close> by simp
qed

text \<open>
  C31: A deleted account leaves nothing. A successful \<open>/account/destroy\<close> needs a live session and the
  right password of the session's own account; afterwards no row of any table names the account, no
  header opens a session of it, and the Sync users it had are gone with every collection, record
  and batch of theirs. Every row of every other account stays as it was, in all eleven tables, with
  the one exception the schema's cascade makes: a device record that holds one of the account's
  sessions goes with that session. The database is one of the schema.
\<close>

theorem destroyed_account_leaves_nothing:
  assumes "wf_db db" "account_destroy header email authPW chk f (db, th) = (Inr r, (db', th'))"
  shows "\<exists>c a s pw. session_of header db = Inr c \<and> account_by_email email db = Some a \<and>
    fromhex authPW = Some pw \<and> password_check a pw = Inr (s, True) \<and>
    acc_uid (sc_account c) = acc_uid a \<and> no_trace (acc_uid a) db' \<and> keeps_others (acc_uid a) db db' \<and>
    (\<forall>h c'. session_of h db' = Inr c' \<longrightarrow> acc_uid (sc_account c') \<noteq> acc_uid a)"
proof -
  obtain c a s pw where r: "session_of header db = Inr c" "account_by_email email db = Some a"
    "fromhex authPW = Some pw" "password_check a pw = Inr (s, True)" "acc_uid (sc_account c) = acc_uid a"
    "db' = snd (delete_account (acc_uid a) db)"
    by (rule account_destroy_Inr [OF assms(2)])
  have "\<forall>h c'. session_of h db' = Inr c' \<longrightarrow> acc_uid (sc_account c') \<noteq> acc_uid a"
  proof (intro allI impI notI)
    fix h and c' :: session_credentials
    assume "session_of h db' = Inr c'" "acc_uid (sc_account c') = acc_uid a"
    then have "\<exists>i. get_account i db' = Some (sc_account c')"
      by (auto simp: session_of_def optional_session_def bindr_eq_Inr split: option.splits) blast
    then have "get_account (acc_uid a) db' \<noteq> None"
      using \<open>acc_uid (sc_account c') = acc_uid a\<close>
      by (metis get_account_def lookup_key_Some option.distinct(1))
    then show False using delete_account_effect(1) [OF assms(1), of "acc_uid a"] r(6) by (simp add: no_trace_def)
  qed
  then show ?thesis using r delete_account_effect [OF assms(1), of "acc_uid a"] by blast
qed

lemma signed_in_database:
  "\<exists>a s h db tok. wf_db db \<and> session_of (Some h) db = Inr \<lparr>sc_token = tok, sc_account = a\<rparr> \<and>
     account_by_email ''A@x'' db = Some a \<and> password_check a [9] = Inr (s, True)"
proof -
  from signing_provision obtain a s db1 where p: "provision ''a@x '' [9] None signing_random 5 empty_database = (Inr (a, s), db1)"
    and empty: "db_session_tokens db1 = []" by blast
  have sound: "sound_random signing_random" by (simp add: sound_random_def signing_random_def bytes_ok_def)
  note prov = provisioned [OF p sound]
  obtain k where k: "derive_token_keys SESSION (replicate 32 7) = Some k"
    by (rule derive_token_keys_Some [of "replicate 32 7" SESSION]) simp_all
  have none: "get_session_token (hex_of (tk_id k)) db1 = None" by (simp add: empty get_session_token_def lookup_key_def)
  let ?tok = "new_session a [] None 6 k"
  let ?db = "db1\<lparr>db_session_tokens := db_session_tokens db1 @ [?tok]\<rparr>"
  have wf: "wf_db db1" using p empty_database_wf by (auto simp: provision_Inr intro: create_account_wf)
  have f: "st_uid ?tok = acc_uid a" "st_token_id ?tok = hex_of (tk_id k)" by (simp_all add: new_session_def)
  have "create_session_token ?tok db1 = Inr ?db"
    using prov(3) none by (simp add: create_session_token_def f has_account_def has_key_lookup get_account_def get_session_token_def)
  then have "wf_db ?db" using wf create_session_token_wf by blast
  moreover have "session_of (Some (bearer_header SESSION k)) ?db = Inr \<lparr>sc_token = ?tok, sc_account = a\<rparr>"
    by (rule session_of_new [OF k]) (use prov(3) empty in \<open>simp_all add: get_account_def get_session_token_def lookup_key_def f\<close>)
  moreover have "normalize_email ''A@x'' = normalize_email ''a@x ''" by code_simp
  then have "account_by_email ''A@x'' ?db = Some a" using prov(4) by (simp add: account_by_email_def)
  ultimately show ?thesis using prov(1) by blast
qed

theorem destroyed_account_leaves_nothing_witness:
  "\<exists>h a db db' th'. account_destroy (Some h) ''A@x'' (hex_of [9]) 100 101 (db, new_throttle 1 900) = (Inr (JObj []), (db', th')) \<and>
     account_by_email ''A@x'' db = Some a \<and> no_trace (acc_uid a) db' \<and> keeps_others (acc_uid a) db db'"
proof -
  from signed_in_database obtain a s h db and tok :: session_token where d: "wf_db db"
    "session_of (Some h) db = Inr \<lparr>sc_token = tok, sc_account = a\<rparr>"
    "account_by_email ''A@x'' db = Some a" "password_check a [9] = Inr (s, True)" by blast
  have t: "fst (th_check (normalize_email ''A@x'') 100 (new_throttle 1 900)) = Inr ()" by code_simp
  have "bytes_ok [9]" by (simp add: bytes_ok_def)
  from password_authenticated_right [OF d(3,4) this t]
  obtain th' where run: "account_destroy (Some h) ''A@x'' (hex_of [9]) 100 101 (db, new_throttle 1 900) =
      (Inr (JObj []), (snd (delete_account (acc_uid a) db), th'))"
    using d(2) by (simp add: account_destroy_def)
  have "no_trace (acc_uid a) (snd (delete_account (acc_uid a) db)) \<and>
      keeps_others (acc_uid a) db (snd (delete_account (acc_uid a) db))"
    using destroyed_account_leaves_nothing [OF d(1) run] d(3) by auto
  then show ?thesis using run d(3) by blast
qed

end
