(* ===== verification/AuthModels.thy ===== *)
theory AuthModels
  imports AuthRoutes
begin

text \<open>
  The payload models of \<open>auth/models.py\<close> whose routes take a field or two, and what an accepted body
  guarantees: the hex a handler decodes is hex, so no accepted request fails there. Fields a handler
  does not read have no constraint but their type.
\<close>

record status_check_request =
  ck_email :: str
  ck_third_party_auth_status :: bool
  ck_check_domain :: "str option"
  ck_client_id :: "str option"
  ck_service :: "str option"

definition account_status_check_ok :: "(str \<Rightarrow> str option) \<Rightarrow> status_check_request \<Rightarrow> bool" where
  "account_status_check_ok punycode p \<longleftrightarrow> email_ok punycode (ck_email p)"

definition credentials_status_ok :: "(str \<Rightarrow> str option) \<Rightarrow> str \<Rightarrow> bool" where
  "credentials_status_ok punycode email \<longleftrightarrow> email_ok punycode email"

definition session_destroy_ok :: "str option \<Rightarrow> bool" where
  "session_destroy_ok custom \<longleftrightarrow> opt_all hex_value custom"

definition session_duplicate_ok :: "str option \<Rightarrow> bool" where
  "session_duplicate_ok reason \<longleftrightarrow> opt_all (within_length 0 16) reason"

definition session_reauth_ok :: "(str \<Rightarrow> str option) \<Rightarrow> login_request \<Rightarrow> bool" where
  "session_reauth_ok punycode p \<longleftrightarrow>
     email_ok punycode (lg_email p) \<and> hex_value (lg_authPW p) \<and> opt_all (within_length 0 16) (lg_service p) \<and>
     opt_all (within_length 0 16) (lg_reason p) \<and> opt_all (email_ok punycode) (lg_original_login_email p)"

subsection \<open>Accepted hex decodes\<close>

lemma is_hex_val: "is_hex c \<Longrightarrow> \<exists>v. hex_val c = Some v \<and> v < 16"
  by (auto simp: is_hex_def is_lower_hex_def hex_val_def is_digit_def)

lemma is_hex_not_space: "is_hex c \<Longrightarrow> \<not> is_ascii_space c"
  by (auto simp: is_hex_def is_lower_hex_def is_ascii_space_def is_digit_def)

lemma fromhex_total:
  assumes "list_all is_hex s" "even (length s)"
  shows "\<exists>bs. fromhex s = Some bs \<and> bytes_ok bs \<and> 2 * length bs = length s"
  using assms
proof (induction s rule: fromhex.induct)
  case 1
  then show ?case by (simp add: bytes_ok_def)
next
  case (2 c)
  then show ?case by simp
next
  case (3 c d s)
  obtain x y where v: "hex_val c = Some x" "x < 16" "hex_val d = Some y" "y < 16"
    using 3(3) is_hex_val [of c] is_hex_val [of d] by auto
  have "\<not> is_ascii_space c" using 3(3) is_hex_not_space by simp
  moreover from this obtain bs where "fromhex s = Some bs" "bytes_ok bs" "2 * length bs = length s"
    using 3 v by auto
  ultimately show ?case using v by (auto simp: bytes_ok_def)
qed

lemma hex_value_decodes: "hex_value s \<Longrightarrow> \<exists>bs. fromhex s = Some bs \<and> bytes_ok bs \<and> length bs = 32"
  using fromhex_total [of s] by (fastforce simp: hex_value_def class_between_def)

text \<open>
  A password of an accepted body is 32 bytes, and a custom session token of an accepted body has keys:
  neither handler can crash on them.
\<close>

lemma accepted_password:
  "account_create_ok puny p \<or> account_login_ok puny p \<or> session_reauth_ok puny p \<Longrightarrow>
     \<exists>bs. auth_pw_of (lg_authPW p) = Inr bs \<and> bytes_ok bs \<and> length bs = 32"
  using hex_value_decodes [of "lg_authPW p"]
  by (auto simp: account_create_ok_def account_login_ok_def session_reauth_ok_def auth_pw_of_def)

lemma accepted_custom_token:
  assumes "session_destroy_ok custom" "session_destroy header custom db = (Inl FxaCrash, db')"
  shows "session_of header db = Inl FxaCrash"
proof (cases "session_of header db")
  case (Inl e)
  then show ?thesis using assms(2) by (simp add: session_destroy_def)
next
  case (Inr c)
  have "custom_target (the custom) a db \<noteq> Inl FxaCrash" if t: "truthy custom" for a
  proof -
    obtain bs where b: "fromhex (the custom) = Some bs" "length bs = 32"
      using assms(1) t hex_value_decodes
      by (cases custom) (auto simp: session_destroy_ok_def opt_all_def truthy_def)
    obtain k where "derive_token_keys SESSION bs = Some k" using derive_token_keys_Some [OF b(2)] by blast
    then show ?thesis using b(1) by (auto simp: custom_target_def bindr_eq_Inl of_option_eq_Inl guardr_eq_Inl)
  qed
  then show ?thesis using assms(2) Inr
    by (auto simp: session_destroy_def andthen_def bindr_eq_Inl split: sum.splits if_splits)
qed

end
