(* ===== verification/Devices.thy ===== *)
theory Devices
  imports AuthRoutes
begin

text \<open>
  \<open>auth/user_agent.py\<close> and \<open>auth/devices.py\<close>: naming a device after its browser, and the device
  records a session token or a refresh token owns.
\<close>

subsection \<open>User agents\<close>

record user_agent =
  ua_browser :: str
  ua_browser_version :: str
  ua_os :: str

definition BROWSERS :: "str list" where
  "BROWSERS = [''Firefox'', ''FxiOS'', ''Fennec'', ''Focus'', ''SeaMonkey'', ''Thunderbird'']"

definition BROWSER_NAMES :: "(str \<times> str) list" where
  "BROWSER_NAMES = [(''fxios'', ''Firefox''), (''fennec'', ''Firefox'')]"

text \<open>One name of \<open>_BROWSER_RE\<close> at the start of a text: the name as it is spelled, the major version.\<close>

definition match_browser_name :: "str \<Rightarrow> str \<Rightarrow> (str \<times> str) option" where
  "match_browser_name s name =
     (let found = take (length name) s
      in case drop (length name) s of
           [] \<Rightarrow> None
         | c # rest \<Rightarrow>
             (let digits = takeWhile is_digit rest
              in if lower found = lower name \<and> c = CHR ''/'' \<and> digits \<noteq> [] then Some (found, digits) else None))"

fun first_some :: "('a \<Rightarrow> 'b option) \<Rightarrow> 'a list \<Rightarrow> 'b option" where
  "first_some f [] = None"
| "first_some f (x # xs) = (case f x of None \<Rightarrow> first_some f xs | Some y \<Rightarrow> Some y)"

definition search_browser :: "str \<Rightarrow> (str \<times> str) option" where
  "search_browser s = first_some (\<lambda>t. first_some (match_browser_name t) BROWSERS) (suffixes_of s)"

definition windows_nt :: "str \<Rightarrow> bool" where
  "windows_nt s \<longleftrightarrow>
     list_ex (\<lambda>t. startswith t ''Windows NT '' \<and>
       (case drop 11 t of [] \<Rightarrow> False | c # _ \<Rightarrow> is_digit c \<or> c = CHR ''.'')) (suffixes_of s)"

definition OS_PATTERNS :: "((str \<Rightarrow> bool) \<times> str) list" where
  "OS_PATTERNS =
     [(windows_nt, ''Windows''), (\<lambda>s. contains_sub s ''Android'', ''Android''),
      (\<lambda>s. contains_sub s ''iPhone'' \<or> contains_sub s ''iPad'' \<or> contains_sub s ''iPod'', ''iOS''),
      (\<lambda>s. contains_sub s ''Mac OS X'', ''Mac OS X''), (\<lambda>s. contains_sub s ''CrOS'', ''Chrome OS''),
      (\<lambda>s. contains_sub s ''Linux'' \<or> contains_sub s ''X11'', ''Linux'')]"

definition parse_user_agent :: "str \<Rightarrow> user_agent" where
  "parse_user_agent s =
     (let (browser, version) =
        (case search_browser s of
           None \<Rightarrow> ([], [])
         | Some (name, v) \<Rightarrow> (case map_of BROWSER_NAMES (lower name) of None \<Rightarrow> name | Some n \<Rightarrow> n, v));
          os = (case find (\<lambda>(p, _). p s) OS_PATTERNS of None \<Rightarrow> [] | Some (_, label) \<Rightarrow> label)
      in \<lparr>ua_browser = browser, ua_browser_version = version, ua_os = os\<rparr>)"

definition is_mobile :: "user_agent \<Rightarrow> bool" where
  "is_mobile u \<longleftrightarrow> ua_os u \<in> {''Android'', ''iOS''}"

definition describe :: "user_agent \<Rightarrow> str" where
  "describe u = (if ua_browser u = [] then [] else strip (ua_browser u @ '' '' @ ua_browser_version u))"

definition synthesize :: "user_agent \<Rightarrow> str" where
  "synthesize u =
     join '', '' ((if ua_browser u = [] then [] else [strip (ua_browser u @ '' '' @ ua_browser_version u)]) @
                (if ua_os u = [] then [] else [ua_os u]))"

definition synthesize_name :: "str \<Rightarrow> str" where
  "synthesize_name s = synthesize (parse_user_agent s)"

subsection \<open>Registration\<close>

record device_registration =
  dr_id :: "str option"
  dr_name :: "str option"
  dr_type :: "str option"
  dr_pushCallback :: "str option"
  dr_pushPublicKey :: "str option"
  dr_pushAuthKey :: "str option"
  dr_availableCommands :: "(str \<times> str) list option"

definition device_registration_ok :: "device_registration \<Rightarrow> bool" where
  "device_registration_ok p \<longleftrightarrow>
     opt_all hex32 (dr_id p) \<and> opt_all (within_length 0 255) (dr_name p) \<and>
     opt_all (within_length 0 16) (dr_type p) \<and> opt_all (within_length 0 255) (dr_pushCallback p) \<and>
     opt_all (within_length 0 88) (dr_pushPublicKey p) \<and> opt_all (within_length 0 24) (dr_pushAuthKey p)"

definition current_device :: "database \<Rightarrow> device_credentials \<Rightarrow> device option" where
  "current_device db c =
     (case dc_session c of
        Some s \<Rightarrow> device_by_session_token (st_token_id s) db
      | None \<Rightarrow> (case dc_refresh c of Some r \<Rightarrow> device_by_refresh_token (rt_token_id r) db | None \<Rightarrow> None))"

definition session_user_agent :: "device_credentials \<Rightarrow> str" where
  "session_user_agent c = (case dc_session c of None \<Rightarrow> [] | Some s \<Rightarrow> st_user_agent s)"

definition pick :: "str option \<Rightarrow> device option \<Rightarrow> (device \<Rightarrow> str) \<Rightarrow> str" where
  "pick v current attribute =
     (case v of Some x \<Rightarrow> x | None \<Rightarrow> (case current of None \<Rightarrow> [] | Some d \<Rightarrow> attribute d))"

text \<open>Python's \<open>or\<close> on texts, and on a text that may be \<open>None\<close>.\<close>

definition or_else :: "str \<Rightarrow> str \<Rightarrow> str" where
  "or_else a b = (if a \<noteq> [] then a else b)"

definition or_text :: "str option \<Rightarrow> str \<Rightarrow> str" where
  "or_text a b = (case a of None \<Rightarrow> b | Some s \<Rightarrow> or_else s b)"

definition merged_name :: "device_registration \<Rightarrow> device option \<Rightarrow> device_credentials \<Rightarrow> str \<Rightarrow> str" where
  "merged_name p current c user_agent =
     or_else (pick (dr_name p) current dv_name)
       (or_else (case dc_client c of None \<Rightarrow> [] | Some cl \<Rightarrow> cl_name cl) (synthesize_name user_agent))"

definition merged_type :: "device_registration \<Rightarrow> device option \<Rightarrow> device_credentials \<Rightarrow> str \<Rightarrow> str" where
  "merged_type p current c user_agent =
     or_else (or_text (dr_type p) (case current of None \<Rightarrow> [] | Some d \<Rightarrow> dv_type d))
       (if dc_refresh c \<noteq> None \<or> is_mobile (parse_user_agent user_agent) then ''mobile'' else ''desktop'')"

definition merged_expired :: "device_registration \<Rightarrow> device option \<Rightarrow> bool" where
  "merged_expired p current =
     (case current of
        None \<Rightarrow> False
      | Some d \<Rightarrow>
          if truthy (dr_pushCallback p) \<and> dr_pushCallback p \<noteq> Some (dv_push_callback d) then False
          else dv_push_endpoint_expired d)"

definition merge_device ::
  "device_registration \<Rightarrow> device option \<Rightarrow> device_credentials \<Rightarrow> str \<Rightarrow> int \<Rightarrow> bytes \<Rightarrow> device" where
  "merge_device p current c user_agent now_ms rnd =
     \<lparr>dv_id = or_text (dr_id p) (case current of None \<Rightarrow> hex_of rnd | Some d \<Rightarrow> dv_id d),
      dv_uid = acc_uid (dc_account c), dv_session_token_id = dc_session_token_id c,
      dv_refresh_token_id = dc_refresh_token_id c, dv_name = merged_name p current c user_agent,
      dv_type = merged_type p current c user_agent,
      dv_created_at = (case current of None \<Rightarrow> now_ms | Some d \<Rightarrow> dv_created_at d),
      dv_push_callback = pick (dr_pushCallback p) current dv_push_callback,
      dv_push_public_key = pick (dr_pushPublicKey p) current dv_push_public_key,
      dv_push_auth_key = pick (dr_pushAuthKey p) current dv_push_auth_key,
      dv_push_endpoint_expired = merged_expired p current,
      dv_available_commands =
        (case dr_availableCommands p of
           Some cs \<Rightarrow> cs
         | None \<Rightarrow> (case current of None \<Rightarrow> [] | Some d \<Rightarrow> dv_available_commands d))\<rparr>"

definition device_response :: "device \<Rightarrow> bool \<Rightarrow> (str \<times> json) list" where
  "device_response d created =
     [(''id'', JStr (dv_id d)), (''name'', JStr (dv_name d)), (''type'', JStr (dv_type d)),
      (''pushCallback'', JStr (dv_push_callback d)), (''pushPublicKey'', JStr (dv_push_public_key d)),
      (''pushAuthKey'', JStr (dv_push_auth_key d)), (''pushEndpointExpired'', JBool (dv_push_endpoint_expired d)),
      (''availableCommands'', JObj (map (\<lambda>(k, v). (k, JStr v)) (dv_available_commands d)))] @
     (if created then [(''createdAt'', JInt (dv_created_at d))] else [])"

text \<open>The record a registration updates: the one it names, or the one the credential owns.\<close>

definition registered_device :: "device_registration \<Rightarrow> device_credentials \<Rightarrow> database \<Rightarrow> fxa_exn + device option" where
  "registered_device p c db =
     (let existing = current_device db c
      in if truthy (dr_id p) then
           bindr (of_option (Fxa unknown_device) (get_device (acc_uid (dc_account c)) (the (dr_id p)) db)) (\<lambda>current.
             (case existing of
                Some e \<Rightarrow>
                  if Some (dv_id e) \<noteq> dr_id p then Inl (Fxa (device_session_conflict (Some (dv_id e)))) else Inr (Some current)
              | None \<Rightarrow> Inr (Some current)))
         else Inr existing)"

definition device_register ::
  "registry \<Rightarrow> str option \<Rightarrow> device_registration \<Rightarrow> str option \<Rightarrow> int \<Rightarrow> bytes \<Rightarrow> database \<Rightarrow> json fxa_result" where
  "device_register reg header p user_agent now_ms rnd db =
     andthen (device_credentials_of reg header db, db) (\<lambda>c db.
     andthen (registered_device p c db, db) (\<lambda>current db.
       let agent = (case user_agent of None \<Rightarrow> session_user_agent c | Some u \<Rightarrow> u);
           d = merge_device p current c agent now_ms rnd
       in andthen (insert_row (upsert_device d db) db) (\<lambda>_ db.
            (Inr (JObj (device_response d (current = None))), db))))"

subsection \<open>The list\<close>

definition is_current :: "device \<Rightarrow> device_credentials \<Rightarrow> bool" where
  "is_current d c =
     (case dc_session c of
        Some s \<Rightarrow> dv_session_token_id d = Some (st_token_id s)
      | None \<Rightarrow> dv_refresh_token_id d = dc_refresh_token_id c)"

definition last_access_time :: "database \<Rightarrow> device \<Rightarrow> int" where
  "last_access_time db d =
     (case (if truthy (dv_session_token_id d) then get_session_token (the (dv_session_token_id d)) db else None) of
        Some s \<Rightarrow> st_last_access_time s
      | None \<Rightarrow>
          (case (if truthy (dv_refresh_token_id d) then get_refresh_token (the (dv_refresh_token_id d)) db else None) of
             Some r \<Rightarrow> max (dv_created_at d) (rt_last_used_at r)
           | None \<Rightarrow> dv_created_at d))"

definition not_idle :: "int option \<Rightarrow> int \<Rightarrow> bool" where
  "not_idle cutoff last_access =
     (case cutoff of None \<Rightarrow> True | Some t \<Rightarrow> t = 0 \<or> t < last_access)"

definition touch_caller :: "device_credentials \<Rightarrow> int \<Rightarrow> database \<Rightarrow> database" where
  "touch_caller c now_ms db =
     (case dc_session c of None \<Rightarrow> db | Some s \<Rightarrow> touch_session_token (st_token_id s) now_ms db)"

definition device_list :: "registry \<Rightarrow> str option \<Rightarrow> int option \<Rightarrow> int \<Rightarrow> database \<Rightarrow> json fxa_result" where
  "device_list reg header idle_before now_ms db =
     andthen (device_credentials_of reg header db, db) (\<lambda>c db.
       let db' = touch_caller c now_ms db
       in (Inr (JArr (map (\<lambda>d. JObj (device_response d False @
              [(''isCurrentDevice'', JBool (is_current d c)), (''lastAccessTime'', JInt (last_access_time db' d)),
               (''location'', JObj [])]))
            (filter (\<lambda>d. not_idle idle_before (last_access_time db' d)) (devices (acc_uid (dc_account c)) db')))), db'))"

subsection \<open>Commands, disconnection, notification\<close>

definition device_commands :: "registry \<Rightarrow> str option \<Rightarrow> database \<Rightarrow> fxa_exn + json" where
  "device_commands reg header db =
     bindr (device_credentials_of reg header db) (\<lambda>c.
     bindr (guardr (current_device db c \<noteq> None) (Fxa unknown_device)) (\<lambda>_.
       Inr (JObj [(''index'', JInt 0), (''last'', JBool True), (''messages'', JArr [])])))"

definition device_destroy :: "registry \<Rightarrow> str option \<Rightarrow> str \<Rightarrow> database \<Rightarrow> json fxa_result" where
  "device_destroy reg header device_id db =
     andthen (device_credentials_of reg header db, db) (\<lambda>c db.
       (case delete_device (acc_uid (dc_account c)) device_id db of
          (None, db') \<Rightarrow> (Inl (Fxa unknown_device), db')
        | (Some _, db') \<Rightarrow> (Inr (JObj []), db')))"

record devices_notify_request =
  dn_to :: "str list option"
  dn_TTL :: "int option"
  dn_excluded :: "str list option"

text \<open>\<open>to\<close> is the text \<open>all\<close> (here \<open>None\<close>) or a list of ids; \<open>excluded\<close> goes with \<open>all\<close> only.\<close>

definition devices_notify_ok :: "devices_notify_request \<Rightarrow> bool" where
  "devices_notify_ok p \<longleftrightarrow>
     (case dn_to p of None \<Rightarrow> True | Some ids \<Rightarrow> list_all hex32 ids) \<and> opt_all (\<lambda>n. 0 \<le> n) (dn_TTL p) \<and>
     (case dn_excluded p of None \<Rightarrow> True | Some ids \<Rightarrow> list_all hex32 ids) \<and>
     \<not> (dn_excluded p \<noteq> None \<and> dn_to p \<noteq> None)"

definition devices_notify :: "registry \<Rightarrow> str option \<Rightarrow> database \<Rightarrow> fxa_exn + json" where
  "devices_notify reg header db =
     bindr (device_credentials_of reg header db) (\<lambda>_. Inl (Fxa (feature_not_enabled None)))"

end
