(* ===== verification/AttachedClients.thy ===== *)
theory AttachedClients
  imports Devices "HOL-Library.Product_Lexorder"
begin

text \<open>
  \<open>auth/attached_clients.py\<close>: devices, sessions and refresh tokens merged into one row per client.
  The rows of the source are dicts that two indexes alias; here an index holds the position of the
  row in the list, and an update goes through the position.
\<close>

subsection \<open>What is merged\<close>

record attached_device =
  ad_id :: str
  ad_session_token_id :: "str option"
  ad_refresh_token_id :: "str option"
  ad_name :: "str option"
  ad_type :: "str option"
  ad_created_at :: int
  ad_last_access_time :: int

record attached_grant =
  ag_client_id :: str
  ag_client_name :: str
  ag_refresh_token_id :: str
  ag_created_time :: int
  ag_last_access_time :: int
  ag_scope :: "str list"

record attached_session =
  as_id :: str
  as_created_at :: int
  as_last_access_time :: int
  as_user_agent :: user_agent

record attached_client =
  ac_clientId :: "str option"
  ac_deviceId :: "str option"
  ac_sessionTokenId :: "str option"
  ac_refreshTokenId :: "str option"
  ac_isCurrentSession :: bool
  ac_deviceType :: "str option"
  ac_name :: "str option"
  ac_createdTime :: "int option"
  ac_lastAccessTime :: int
  ac_scope :: "str list option"
  ac_userAgent :: str
  ac_os :: "str option"

definition attached_defaults :: attached_client where
  "attached_defaults =
     \<lparr>ac_clientId = None, ac_deviceId = None, ac_sessionTokenId = None, ac_refreshTokenId = None,
      ac_isCurrentSession = False, ac_deviceType = None, ac_name = None, ac_createdTime = None,
      ac_lastAccessTime = 0, ac_scope = None, ac_userAgent = [], ac_os = None\<rparr>"

definition earliest :: "int option \<Rightarrow> int \<Rightarrow> int" where
  "earliest current candidate =
     (case current of None \<Rightarrow> candidate | Some t \<Rightarrow> if t = 0 then candidate else min t candidate)"

definition latest :: "int \<Rightarrow> int \<Rightarrow> int" where
  "latest current candidate = (if current = 0 then candidate else max current candidate)"

subsection \<open>The merge\<close>

record merge_state =
  ms_clients :: "attached_client list"
  ms_by_session_token :: "(str \<times> nat) list"
  ms_by_refresh_token :: "(str \<times> nat) list"

definition device_client :: "attached_device \<Rightarrow> attached_client" where
  "device_client d = attached_defaults
     \<lparr>ac_sessionTokenId := ad_session_token_id d, ac_deviceId := Some (ad_id d), ac_deviceType := ad_type d,
      ac_name := ad_name d, ac_createdTime := Some (ad_created_at d), ac_lastAccessTime := ad_last_access_time d\<rparr>"

definition index_pointer :: "str option \<Rightarrow> nat \<Rightarrow> (str \<times> nat) list \<Rightarrow> (str \<times> nat) list" where
  "index_pointer token i d = (if truthy token then dict_set (the token) i d else d)"

definition add_device :: "attached_device \<Rightarrow> merge_state \<Rightarrow> merge_state" where
  "add_device d s =
     (let i = length (ms_clients s)
      in \<lparr>ms_clients = ms_clients s @ [device_client d],
          ms_by_session_token = index_pointer (ad_session_token_id d) i (ms_by_session_token s),
          ms_by_refresh_token = index_pointer (ad_refresh_token_id d) i (ms_by_refresh_token s)\<rparr>)"

definition grant_fields :: "attached_grant \<Rightarrow> attached_client \<Rightarrow> attached_client" where
  "grant_fields g c = c
     \<lparr>ac_clientId := Some (ag_client_id g), ac_scope := Some (ag_scope g),
      ac_createdTime := Some (earliest (ac_createdTime c) (ag_created_time g)),
      ac_lastAccessTime := latest (ac_lastAccessTime c) (ag_last_access_time g),
      ac_name := (if truthy (ac_name c) then ac_name c else Some (ag_client_name g)),
      ac_deviceType := (if truthy (ac_deviceId c) \<and> \<not> truthy (ac_deviceType c) then Some ''mobile''
                        else ac_deviceType c)\<rparr>"

definition new_grant_client :: "attached_grant \<Rightarrow> attached_client" where
  "new_grant_client g = attached_defaults
     \<lparr>ac_refreshTokenId := Some (ag_refresh_token_id g), ac_createdTime := Some (ag_created_time g),
      ac_lastAccessTime := ag_last_access_time g\<rparr>"

definition claim_refresh :: "str \<Rightarrow> attached_client \<Rightarrow> attached_client" where
  "claim_refresh token c = c\<lparr>ac_refreshTokenId := Some token\<rparr>"

definition add_grant :: "attached_grant \<Rightarrow> merge_state \<Rightarrow> merge_state" where
  "add_grant g s =
     (case map_of (ms_by_refresh_token s) (ag_refresh_token_id g) of
        Some i \<Rightarrow> s\<lparr>ms_clients := (ms_clients s)[i :=
          grant_fields g (claim_refresh (ag_refresh_token_id g) (ms_clients s ! i))]\<rparr>
      | None \<Rightarrow> s\<lparr>ms_clients := ms_clients s @ [grant_fields g (new_grant_client g)]\<rparr>)"

definition session_fields :: "str \<Rightarrow> attached_session \<Rightarrow> attached_client \<Rightarrow> attached_client" where
  "session_fields current s c = c
     \<lparr>ac_createdTime := Some (earliest (ac_createdTime c) (as_created_at s)),
      ac_lastAccessTime := latest (ac_lastAccessTime c) (as_last_access_time s),
      ac_isCurrentSession := (ac_sessionTokenId c = Some current), ac_scope := None,
      ac_userAgent := describe (as_user_agent s),
      ac_os := (if ua_os (as_user_agent s) = [] then None else Some (ua_os (as_user_agent s))),
      ac_name := (if truthy (ac_name c) then ac_name c else Some (synthesize (as_user_agent s)))\<rparr>"

definition new_session_client :: "attached_session \<Rightarrow> attached_client" where
  "new_session_client s = attached_defaults
     \<lparr>ac_sessionTokenId := Some (as_id s), ac_createdTime := Some (as_created_at s)\<rparr>"

definition add_session :: "str \<Rightarrow> attached_session \<Rightarrow> merge_state \<Rightarrow> merge_state" where
  "add_session current x s =
     (case map_of (ms_by_session_token s) (as_id x) of
        Some i \<Rightarrow> s\<lparr>ms_clients := (ms_clients s)[i := session_fields current x (ms_clients s ! i)]\<rparr>
      | None \<Rightarrow> s\<lparr>ms_clients := ms_clients s @ [session_fields current x (new_session_client x)]\<rparr>)"

text \<open>\<open>s.replace(old, new)\<close> for a text \<open>old\<close> that is not empty.\<close>

function replace_text :: "str \<Rightarrow> str \<Rightarrow> str \<Rightarrow> str" where
  "replace_text old new s =
     (case s of
        [] \<Rightarrow> []
      | c # t \<Rightarrow>
          if old \<noteq> [] \<and> startswith s old then new @ replace_text old new (drop (length old) s)
          else c # replace_text old new t)"
  by pat_completeness auto

termination
  by (relation "measure (\<lambda>(_, _, s). length s)") auto

declare replace_text.simps [simp del]

definition finish_client :: "attached_client \<Rightarrow> attached_client" where
  "finish_client c = c
     \<lparr>ac_deviceType := (if truthy (ac_deviceId c) \<and> \<not> truthy (ac_deviceType c) then Some ''desktop''
                        else ac_deviceType c),
      ac_name := map_option (replace_text ''Mac OS X'' ''macOS'') (ac_name c)\<rparr>"

definition merge_clients ::
  "attached_device list \<Rightarrow> attached_grant list \<Rightarrow> attached_session list \<Rightarrow> str \<Rightarrow> attached_client list" where
  "merge_clients ds gs ss current =
     (let s0 = \<lparr>ms_clients = [], ms_by_session_token = [], ms_by_refresh_token = []\<rparr>;
          s1 = fold add_device ds s0;
          s2 = fold add_grant gs s1;
          s3 = fold (add_session current) ss s2
      in map finish_client (ms_clients s3))"

subsection \<open>Where the three lists come from\<close>

definition client_name :: "registry \<Rightarrow> str \<Rightarrow> str" where
  "client_name reg client_id = (case client_get reg client_id of None \<Rightarrow> client_id | Some c \<Rightarrow> cl_name c)"

definition attached_grant_of :: "registry \<Rightarrow> refresh_token \<Rightarrow> fxa_exn + attached_grant" where
  "attached_grant_of reg t =
     bindr (of_option FxaCrash (from_string (rt_scope t))) (\<lambda>scope.
       Inr \<lparr>ag_client_id = rt_client_id t, ag_client_name = client_name reg (rt_client_id t),
            ag_refresh_token_id = rt_token_id t, ag_created_time = rt_created_at t,
            ag_last_access_time = rt_last_used_at t, ag_scope = sort (scope_values scope)\<rparr>)"

definition grant_order :: "attached_grant \<Rightarrow> int \<times> str \<times> int \<times> str" where
  "grant_order g =
     (- ag_last_access_time g, ag_client_name g, ag_created_time g, join '','' (ag_scope g))"

definition keep_newest :: "attached_grant \<Rightarrow> (str \<times> attached_grant) list \<Rightarrow> (str \<times> attached_grant) list" where
  "keep_newest g newest =
     (case map_of newest (ag_client_id g) of
        None \<Rightarrow> dict_set (ag_client_id g) g newest
      | Some c \<Rightarrow>
          if ag_last_access_time c < ag_last_access_time g then dict_set (ag_client_id g) g newest else newest)"

definition authorized_clients :: "registry \<Rightarrow> str \<Rightarrow> bool \<Rightarrow> database \<Rightarrow> fxa_exn + attached_grant list" where
  "authorized_clients reg uid unique db =
     bindr (mapr (attached_grant_of reg) (refresh_tokens uid db)) (\<lambda>grants.
       Inr (sort_key grant_order
         (if unique then map snd (fold keep_newest grants []) else grants)))"

definition or_None :: "str \<Rightarrow> str option" where
  "or_None s = (if s = [] then None else Some s)"

definition attached_devices :: "str \<Rightarrow> int option \<Rightarrow> database \<Rightarrow> attached_device list" where
  "attached_devices uid idle_before db =
     map (\<lambda>d. \<lparr>ad_id = dv_id d, ad_session_token_id = dv_session_token_id d,
               ad_refresh_token_id = dv_refresh_token_id d, ad_name = or_None (dv_name d),
               ad_type = or_None (dv_type d), ad_created_at = dv_created_at d,
               ad_last_access_time = last_access_time db d\<rparr>)
       (filter (\<lambda>d. not_idle idle_before (last_access_time db d)) (devices uid db))"

definition attached_sessions :: "str \<Rightarrow> database \<Rightarrow> attached_session list" where
  "attached_sessions uid db =
     map (\<lambda>t. \<lparr>as_id = st_token_id t, as_created_at = st_created_at t,
               as_last_access_time = st_last_access_time t, as_user_agent = parse_user_agent (st_user_agent t)\<rparr>)
       (session_tokens uid db)"

subsection \<open>The two routes\<close>

definition client_json :: "attached_client \<Rightarrow> json" where
  "client_json c =
     JObj [(''clientId'', opt_str (ac_clientId c)), (''deviceId'', opt_str (ac_deviceId c)),
       (''sessionTokenId'', opt_str (ac_sessionTokenId c)), (''refreshTokenId'', opt_str (ac_refreshTokenId c)),
       (''isCurrentSession'', JBool (ac_isCurrentSession c)), (''deviceType'', opt_str (ac_deviceType c)),
       (''name'', opt_str (ac_name c)), (''createdTime'', opt_int (ac_createdTime c)),
       (''lastAccessTime'', JInt (ac_lastAccessTime c)),
       (''scope'', case ac_scope c of None \<Rightarrow> JNull | Some vs \<Rightarrow> JArr (map JStr vs)), (''location'', JObj []),
       (''userAgent'', JStr (ac_userAgent c)), (''os'', opt_str (ac_os c)), (''createdTimeFormatted'', JStr []),
       (''lastAccessTimeFormatted'', JStr [])]"

definition attached_clients ::
  "registry \<Rightarrow> str option \<Rightarrow> int option \<Rightarrow> int \<Rightarrow> database \<Rightarrow> attached_client list fxa_result" where
  "attached_clients reg header idle_before now_ms db =
     andthen (session_of header db, db) (\<lambda>c db.
       let db' = touch_session_token (st_token_id (sc_token c)) now_ms db; uid = acc_uid (sc_account c)
       in andthen (authorized_clients reg uid False db', db') (\<lambda>grants db'.
            (Inr (merge_clients (attached_devices uid idle_before db') grants (attached_sessions uid db')
               (st_token_id (sc_token c))), db')))"

definition attached_oauth_clients :: "registry \<Rightarrow> str option \<Rightarrow> int \<Rightarrow> database \<Rightarrow> json fxa_result" where
  "attached_oauth_clients reg header now_ms db =
     andthen (session_of header db, db) (\<lambda>c db.
       let db' = touch_session_token (st_token_id (sc_token c)) now_ms db
       in andthen (authorized_clients reg (acc_uid (sc_account c)) True db', db') (\<lambda>grants db'.
            (Inr (JArr (map (\<lambda>g. JObj [(''clientId'', JStr (ag_client_id g)),
                (''lastAccessTime'', JInt (ag_last_access_time g))]) grants)), db')))"

end
