(* ===== verification/AttachedProps.thy ===== *)
theory AttachedProps
  imports AttachedClients OauthClaims "HOL-Library.Multiset"
begin

text \<open>
  The merge of \<open>attached_clients.py\<close> works on positions in a list it keeps extending. Here it is shown
  to compute what its documentation says, without positions: one row per device, with the grant
  and the session that device points to, then a row for every grant and every session no device
  claims.
\<close>

subsection \<open>Updating rows through an index\<close>

definition indexed_step :: "('x \<Rightarrow> nat option) \<Rightarrow> ('x \<Rightarrow> 'c \<Rightarrow> 'c) \<Rightarrow> ('x \<Rightarrow> 'c) \<Rightarrow> 'x \<Rightarrow> 'c list \<Rightarrow> 'c list" where
  "indexed_step idx upd new x rows =
     (case idx x of Some i \<Rightarrow> rows[i := upd x (rows ! i)] | None \<Rightarrow> rows @ [new x])"

definition indexed_row :: "('x \<Rightarrow> nat option) \<Rightarrow> ('x \<Rightarrow> 'c \<Rightarrow> 'c) \<Rightarrow> 'x list \<Rightarrow> nat \<Rightarrow> 'c \<Rightarrow> 'c" where
  "indexed_row idx upd xs i c = (case find (\<lambda>x. idx x = Some i) xs of None \<Rightarrow> c | Some x \<Rightarrow> upd x c)"

lemma indexed_row_other:
  "\<forall>x\<in>set xs. idx x \<noteq> Some i \<Longrightarrow> indexed_row idx upd xs i c = c"
proof -
  assume "\<forall>x\<in>set xs. idx x \<noteq> Some i"
  then have "find (\<lambda>x. idx x = Some i) xs = None" by (simp add: find_None_iff)
  then show ?thesis by (simp add: indexed_row_def)
qed

lemma fold_indexed:
  assumes "\<forall>x\<in>set xs. \<forall>i. idx x = Some i \<longrightarrow> i < length rows"
    and "\<forall>x\<in>set xs. \<forall>y\<in>set xs. \<forall>i. idx x = Some i \<longrightarrow> idx y = Some i \<longrightarrow> x = y" and "distinct xs"
  shows "fold (indexed_step idx upd new) xs rows =
    map (\<lambda>i. indexed_row idx upd xs i (rows ! i)) [0..<length rows] @ map new (filter (\<lambda>x. idx x = None) xs)"
  using assms
proof (induction xs rule: rev_induct)
  case Nil
  then show ?case by (simp add: indexed_row_def map_nth)
next
  case (snoc x xs)
  let ?A = "map (\<lambda>i. indexed_row idx upd xs i (rows ! i)) [0..<length rows]"
  let ?B = "map new (filter (\<lambda>x. idx x = None) xs)"
  have ih: "fold (indexed_step idx upd new) (xs @ [x]) rows = indexed_step idx upd new x (?A @ ?B)" using snoc by simp
  show ?case
  proof (cases "idx x")
    case None
    then have "indexed_row idx upd (xs @ [x]) i c = indexed_row idx upd xs i c" for i c
      by (simp add: indexed_row_def find_append split: option.splits)
    then show ?thesis unfolding ih using None by (simp add: indexed_step_def)
  next
    case (Some j)
    then have j: "j < length rows" using snoc.prems(1) by simp
    have other: "\<forall>y\<in>set xs. idx y \<noteq> Some j" using snoc.prems(2,3) Some by auto
    then have "find (\<lambda>x. idx x = Some j) xs = None" by (simp add: find_None_iff)
    then have at_j: "indexed_row idx upd (xs @ [x]) j c = upd x c" for c
      using Some by (simp add: indexed_row_def find_append)
    have not_j: "i \<noteq> j \<Longrightarrow> indexed_row idx upd (xs @ [x]) i c = indexed_row idx upd xs i c" for i c
      using Some by (simp add: indexed_row_def find_append split: option.splits)
    have "(?A @ ?B)[j := upd x ((?A @ ?B) ! j)] = ?A[j := upd x (rows ! j)] @ ?B"
      using j indexed_row_other [OF other, of upd] by (simp add: nth_append list_update_append)
    also have "?A[j := upd x (rows ! j)] = map (\<lambda>i. indexed_row idx upd (xs @ [x]) i (rows ! i)) [0..<length rows]"
      using j by (intro nth_equalityI) (auto simp: nth_list_update at_j not_j)
    finally show ?thesis unfolding ih using Some by (simp add: indexed_step_def)
  qed
qed

subsection \<open>The reference\<close>

definition points_to :: "str option \<Rightarrow> str \<Rightarrow> bool" where
  "points_to pointer token \<longleftrightarrow> pointer = Some token"

definition grant_row :: "attached_grant \<Rightarrow> attached_client" where
  "grant_row g = grant_fields g (new_grant_client g)"

definition session_row :: "str \<Rightarrow> attached_session \<Rightarrow> attached_client" where
  "session_row current s = session_fields current s (new_session_client s)"

definition attach_grant :: "attached_grant list \<Rightarrow> str option \<Rightarrow> attached_client \<Rightarrow> attached_client" where
  "attach_grant gs pointer c =
     (case find (\<lambda>g. points_to pointer (ag_refresh_token_id g)) gs of
        None \<Rightarrow> c | Some g \<Rightarrow> grant_fields g (claim_refresh (ag_refresh_token_id g) c))"

definition attach_session :: "attached_session list \<Rightarrow> str \<Rightarrow> str option \<Rightarrow> attached_client \<Rightarrow> attached_client" where
  "attach_session ss current pointer c =
     (case find (\<lambda>s. points_to pointer (as_id s)) ss of None \<Rightarrow> c | Some s \<Rightarrow> session_fields current s c)"

definition merge_spec ::
  "attached_device list \<Rightarrow> attached_grant list \<Rightarrow> attached_session list \<Rightarrow> str \<Rightarrow> attached_client list" where
  "merge_spec ds gs ss current =
     map finish_client
       (map (\<lambda>d. attach_session ss current (ad_session_token_id d)
                (attach_grant gs (ad_refresh_token_id d) (device_client d))) ds @
        map grant_row (filter (\<lambda>g. list_all (\<lambda>d. \<not> points_to (ad_refresh_token_id d) (ag_refresh_token_id g)) ds) gs) @
        map (session_row current)
          (filter (\<lambda>s. list_all (\<lambda>d. \<not> points_to (ad_session_token_id d) (as_id s)) ds) ss))"

subsection \<open>The device pass\<close>

definition pointer_index :: "(attached_device \<Rightarrow> str option) \<Rightarrow> attached_device list \<Rightarrow> (str \<times> nat) list \<Rightarrow> bool" where
  "pointer_index pointer ds d \<longleftrightarrow>
     (\<forall>t i. t \<noteq> [] \<longrightarrow> (map_of d t = Some i \<longleftrightarrow> i < length ds \<and> pointer (ds ! i) = Some t))"

lemma uniq_opt_snoc:
  "uniq_opt key (t @ [x]) \<longleftrightarrow> uniq_opt key t \<and> (\<forall>k. key x = Some k \<longrightarrow> (\<forall>r\<in>set t. key r \<noteq> Some k))"
  by (auto simp: uniq_opt_def uniq_def image_iff)

lemma pointer_index_step:
  assumes "pointer_index pointer ds d" "uniq_opt pointer (ds @ [x])"
  shows "pointer_index pointer (ds @ [x]) (index_pointer (pointer x) (length ds) d)"
proof -
  have new: "i < length ds \<Longrightarrow> pointer (ds ! i) = Some t \<Longrightarrow> pointer x = Some t \<Longrightarrow> False" for i t
    using assms(2) by (auto simp: uniq_opt_snoc)
  show ?thesis
    using assms(1) unfolding pointer_index_def
    by (auto dest: new simp: index_pointer_def truthy_def map_of_dict_set nth_append less_Suc_eq split: if_splits)
qed

lemma device_pass:
  assumes "uniq_opt ad_session_token_id ds" "uniq_opt ad_refresh_token_id ds"
  shows "\<exists>bs br. fold add_device ds \<lparr>ms_clients = [], ms_by_session_token = [], ms_by_refresh_token = []\<rparr> =
      \<lparr>ms_clients = map device_client ds, ms_by_session_token = bs, ms_by_refresh_token = br\<rparr> \<and>
    pointer_index ad_session_token_id ds bs \<and> pointer_index ad_refresh_token_id ds br"
  using assms
proof (induction ds rule: rev_induct)
  case Nil
  then show ?case by (simp add: pointer_index_def)
next
  case (snoc x ds)
  have "uniq_opt ad_session_token_id ds" "uniq_opt ad_refresh_token_id ds"
    using snoc.prems by (simp_all add: uniq_opt_snoc)
  then obtain bs br where run: "fold add_device ds \<lparr>ms_clients = [], ms_by_session_token = [], ms_by_refresh_token = []\<rparr> =
      \<lparr>ms_clients = map device_client ds, ms_by_session_token = bs, ms_by_refresh_token = br\<rparr>"
    and "pointer_index ad_session_token_id ds bs" "pointer_index ad_refresh_token_id ds br"
    using snoc.IH by blast
  then have "pointer_index ad_session_token_id (ds @ [x]) (index_pointer (ad_session_token_id x) (length ds) bs)"
    "pointer_index ad_refresh_token_id (ds @ [x]) (index_pointer (ad_refresh_token_id x) (length ds) br)"
    using snoc.prems pointer_index_step by blast+
  then show ?case unfolding fold_append comp_apply run by (simp add: add_device_def Let_def)
qed

subsection \<open>The two other passes\<close>

lemma add_grant_indexed:
  "fold add_grant gs s =
     s\<lparr>ms_clients := fold (indexed_step (\<lambda>g. map_of (ms_by_refresh_token s) (ag_refresh_token_id g))
        (\<lambda>g c. grant_fields g (claim_refresh (ag_refresh_token_id g) c)) grant_row) gs (ms_clients s)\<rparr>"
  by (induction gs arbitrary: s) (auto simp: add_grant_def indexed_step_def grant_row_def split: option.splits)

lemma add_session_indexed:
  "fold (add_session current) ss s =
     s\<lparr>ms_clients := fold (indexed_step (\<lambda>x. map_of (ms_by_session_token s) (as_id x))
        (session_fields current) (session_row current)) ss (ms_clients s)\<rparr>"
  by (induction ss arbitrary: s) (auto simp: add_session_def indexed_step_def session_row_def split: option.splits)

text \<open>An index entry is a device that points there.\<close>

lemma pointer_index_simps:
  assumes "pointer_index pointer ds d" "t \<noteq> []"
  shows "map_of d t = Some i \<longleftrightarrow> i < length ds \<and> points_to (pointer (ds ! i)) t"
    "map_of d t = None \<longleftrightarrow> list_all (\<lambda>x. \<not> points_to (pointer x) t) ds"
proof -
  show i: "map_of d t = Some i \<longleftrightarrow> i < length ds \<and> points_to (pointer (ds ! i)) t" for i
    using assms by (simp add: pointer_index_def points_to_def)
  have "map_of d t = None \<longleftrightarrow> (\<forall>i. map_of d t \<noteq> Some i)" by auto
  then show "map_of d t = None \<longleftrightarrow> list_all (\<lambda>x. \<not> points_to (pointer x) t) ds"
    unfolding i by (auto simp: list_all_length)
qed

lemma pointer_rows:
  assumes "pointer_index pointer ds d" "\<forall>x\<in>set xs. key x \<noteq> []" "distinct (map key xs)" "length ds \<le> length rows"
  shows "fold (indexed_step (\<lambda>x. map_of d (key x)) upd new) xs rows =
    map (\<lambda>i. case find (\<lambda>x. i < length ds \<and> points_to (pointer (ds ! i)) (key x)) xs of
               None \<Rightarrow> rows ! i | Some x \<Rightarrow> upd x (rows ! i)) [0..<length rows] @
    map new (filter (\<lambda>x. list_all (\<lambda>y. \<not> points_to (pointer y) (key x)) ds) xs)"
proof -
  have p: "x \<in> set xs \<Longrightarrow> map_of d (key x) = Some i \<longleftrightarrow> i < length ds \<and> points_to (pointer (ds ! i)) (key x)" for x i
    using pointer_index_simps(1) [OF assms(1)] assms(2) by blast
  have n: "x \<in> set xs \<Longrightarrow> map_of d (key x) = None \<longleftrightarrow> list_all (\<lambda>y. \<not> points_to (pointer y) (key x)) ds" for x
    using pointer_index_simps(2) [OF assms(1)] assms(2) by blast
  have "fold (indexed_step (\<lambda>x. map_of d (key x)) upd new) xs rows =
      map (\<lambda>i. indexed_row (\<lambda>x. map_of d (key x)) upd xs i (rows ! i)) [0..<length rows] @
      map new (filter (\<lambda>x. map_of d (key x) = None) xs)"
  proof (rule fold_indexed)
    show "\<forall>x\<in>set xs. \<forall>i. map_of d (key x) = Some i \<longrightarrow> i < length rows" using p assms(4) by fastforce
    show "\<forall>x\<in>set xs. \<forall>y\<in>set xs. \<forall>i. map_of d (key x) = Some i \<longrightarrow> map_of d (key y) = Some i \<longrightarrow> x = y"
      using p assms(3) by (fastforce simp: points_to_def distinct_map dest: inj_onD)
    show "distinct xs" using assms(3) by (simp add: distinct_map)
  qed
  also have "filter (\<lambda>x. map_of d (key x) = None) xs = filter (\<lambda>x. list_all (\<lambda>y. \<not> points_to (pointer y) (key x)) ds) xs"
    using n by (intro filter_cong) simp_all
  finally have run: "fold (indexed_step (\<lambda>x. map_of d (key x)) upd new) xs rows =
      map (\<lambda>i. indexed_row (\<lambda>x. map_of d (key x)) upd xs i (rows ! i)) [0..<length rows] @
      map new (filter (\<lambda>x. list_all (\<lambda>y. \<not> points_to (pointer y) (key x)) ds) xs)" .
  have "find (\<lambda>x. map_of d (key x) = Some i) xs = find (\<lambda>x. i < length ds \<and> points_to (pointer (ds ! i)) (key x)) xs" for i
    using p by (rule find_cong_set)
  then show ?thesis unfolding run indexed_row_def by simp
qed

lemma attach_first:
  "(case find (\<lambda>g. i < n \<and> points_to pointer (key g)) gs of None \<Rightarrow> c | Some g \<Rightarrow> upd g c) =
   (if i < n then (case find (\<lambda>g. points_to pointer (key g)) gs of None \<Rightarrow> c | Some g \<Rightarrow> upd g c) else c)"
proof (cases "i < n")
  case False
  have "find (\<lambda>g. False) gs = None" by (induction gs) simp_all
  then show ?thesis using False by simp
qed simp

lemma map_up_to_prefix:
  "n \<le> length rows \<Longrightarrow> map (\<lambda>i. if i < n then f i (rows ! i) else rows ! i) [0..<length rows] =
     map (\<lambda>i. f i (rows ! i)) [0..<n] @ drop n rows"
  by (rule nth_equalityI) (auto simp: nth_append)

lemma merge_is_spec:
  assumes "uniq_opt ad_session_token_id ds" "uniq_opt ad_refresh_token_id ds"
    and "distinct (map ag_refresh_token_id gs)" "\<forall>g\<in>set gs. ag_refresh_token_id g \<noteq> []"
    and "distinct (map as_id ss)" "\<forall>s\<in>set ss. as_id s \<noteq> []"
  shows "merge_clients ds gs ss current = merge_spec ds gs ss current"
proof -
  obtain bs br where run: "fold add_device ds \<lparr>ms_clients = [], ms_by_session_token = [], ms_by_refresh_token = []\<rparr> =
      \<lparr>ms_clients = map device_client ds, ms_by_session_token = bs, ms_by_refresh_token = br\<rparr>"
    and ok: "pointer_index ad_session_token_id ds bs" "pointer_index ad_refresh_token_id ds br"
    using device_pass [OF assms(1,2)] by blast
  define rows where "rows = map (\<lambda>d. attach_grant gs (ad_refresh_token_id d) (device_client d)) ds @
    map grant_row (filter (\<lambda>g. list_all (\<lambda>d. \<not> points_to (ad_refresh_token_id d) (ag_refresh_token_id g)) ds) gs)"
  have g: "fold (indexed_step (\<lambda>g. map_of br (ag_refresh_token_id g))
      (\<lambda>g c. grant_fields g (claim_refresh (ag_refresh_token_id g) c)) grant_row) gs (map device_client ds) = rows"
    unfolding pointer_rows [OF ok(2) assms(4,3), of "map device_client ds", simplified] attach_first rows_def attach_grant_def
    by (intro arg_cong2 [where f = append] nth_equalityI) (auto split: option.splits)
  have l: "length ds \<le> length rows" by (simp add: rows_def)
  have "fold (indexed_step (\<lambda>x. map_of bs (as_id x)) (session_fields current) (session_row current)) ss rows =
      map (\<lambda>i. attach_session ss current (ad_session_token_id (ds ! i)) (rows ! i)) [0..<length ds] @ drop (length ds) rows @
      map (session_row current) (filter (\<lambda>s. list_all (\<lambda>d. \<not> points_to (ad_session_token_id d) (as_id s)) ds) ss)"
    unfolding pointer_rows [OF ok(1) assms(6,5) l] attach_first attach_session_def
    using map_up_to_prefix [OF l, of "\<lambda>i c. case find (\<lambda>x. points_to (ad_session_token_id (ds ! i)) (as_id x)) ss of
        None \<Rightarrow> c | Some x \<Rightarrow> session_fields current x c"] by simp
  also have "map (\<lambda>i. attach_session ss current (ad_session_token_id (ds ! i)) (rows ! i)) [0..<length ds] =
      map (\<lambda>d. attach_session ss current (ad_session_token_id d) (attach_grant gs (ad_refresh_token_id d) (device_client d))) ds"
    by (intro nth_equalityI) (auto simp: rows_def nth_append)
  also have "drop (length ds) rows =
      map grant_row (filter (\<lambda>g. list_all (\<lambda>d. \<not> points_to (ad_refresh_token_id d) (ag_refresh_token_id g)) ds) gs)"
    by (simp add: rows_def)
  finally show ?thesis
    by (simp add: merge_clients_def Let_def run add_grant_indexed add_session_indexed g merge_spec_def)
qed

subsection \<open>The current row\<close>

lemma finish_keeps [simp]:
  "ac_isCurrentSession (finish_client c) = ac_isCurrentSession c"
  "ac_sessionTokenId (finish_client c) = ac_sessionTokenId c"
  by (simp_all add: finish_client_def)

lemma attach_grant_keeps [simp]:
  "ac_isCurrentSession (attach_grant gs p c) = ac_isCurrentSession c"
  "ac_sessionTokenId (attach_grant gs p c) = ac_sessionTokenId c"
  by (auto simp: attach_grant_def grant_fields_def claim_refresh_def split: option.splits)

lemma row_current:
  "ac_isCurrentSession (grant_row g) = False"
  "ac_isCurrentSession (session_row current s) \<longleftrightarrow> as_id s = current"
  by (simp_all add: grant_row_def grant_fields_def new_grant_client_def attached_defaults_def session_row_def
      session_fields_def new_session_client_def)

lemma device_row_current:
  assumes "current \<in> as_id ` set ss"
  shows "ac_isCurrentSession (attach_session ss current (ad_session_token_id d)
      (attach_grant gs (ad_refresh_token_id d) (device_client d))) \<longleftrightarrow> ad_session_token_id d = Some current"
proof (cases "find (\<lambda>s. points_to (ad_session_token_id d) (as_id s)) ss")
  case None
  then have "ad_session_token_id d \<noteq> Some current" using assms by (auto simp: find_None_iff points_to_def)
  then show ?thesis using None by (simp add: attach_session_def device_client_def attached_defaults_def)
next
  case (Some s)
  then show ?thesis by (simp add: attach_session_def session_fields_def device_client_def)
qed

lemma one_with_key: "distinct (map key xs) \<Longrightarrow> length (filter (\<lambda>x. key x = k) xs) = (if k \<in> key ` set xs then 1 else 0)"
  by (induction xs) (auto simp: filter_empty_conv)

lemma one_current:
  assumes "uniq_opt ad_session_token_id ds" "distinct (map as_id ss)" "current \<in> as_id ` set ss"
  shows "length (filter ac_isCurrentSession (merge_spec ds gs ss current)) = 1"
proof -
  let ?mine = "\<lambda>d. ad_session_token_id d = Some current"
  let ?free = "filter (\<lambda>s. list_all (\<lambda>d. \<not> points_to (ad_session_token_id d) (as_id s)) ds) ss"
  have "length (filter ac_isCurrentSession (merge_spec ds gs ss current)) =
      length (filter ?mine ds) + length (filter (\<lambda>s. as_id s = current) ?free)"
    unfolding merge_spec_def
    by (simp add: filter_map comp_def row_current device_row_current [OF assms(3)])
  also have "length (filter ?mine ds) = (if \<exists>d\<in>set ds. ?mine d then 1 else 0)"
  proof -
    have "filter ?mine ds = filter ?mine (filter (\<lambda>r. ad_session_token_id r \<noteq> None) ds)"
      by (simp add: filter_filter) (rule filter_cong, auto)
    then show ?thesis
      using assms(1) one_with_key [of ad_session_token_id "filter (\<lambda>r. ad_session_token_id r \<noteq> None) ds" "Some current"]
      by (auto simp: uniq_opt_def uniq_def image_iff)
  qed
  also have "length (filter (\<lambda>s. as_id s = current) ?free) = (if \<exists>d\<in>set ds. ?mine d then 0 else 1)"
  proof -
    have "filter (\<lambda>s. as_id s = current) ?free =
        (if \<exists>d\<in>set ds. ?mine d then [] else filter (\<lambda>s. as_id s = current) ss)"
      by (auto simp: filter_empty_conv list_all_iff points_to_def intro: filter_cong)
    then show ?thesis using one_with_key [OF assms(2), of current] assms(3) by simp
  qed
  finally show ?thesis by simp
qed

subsection \<open>The route\<close>

definition named_tokens :: "database \<Rightarrow> bool" where
  "named_tokens db \<longleftrightarrow>
     list_all (\<lambda>r. st_token_id r \<noteq> []) (db_session_tokens db) \<and> list_all (\<lambda>r. rt_token_id r \<noteq> []) (db_refresh_tokens db)"

lemma uniq_sort_key: "uniq key (sort_key f t) = uniq key t"
  by (simp add: uniq_def distinct_map)

lemma uniq_opt_filter: "uniq_opt key t \<Longrightarrow> uniq_opt key (filter P t)"
  using distinct_map_filterI [of key "filter (\<lambda>r. key r \<noteq> None) t" P]
  by (simp add: uniq_opt_def uniq_def filter_filter conj_commute)

lemma attached_devices_uniq:
  assumes "wf_db db"
  shows "uniq_opt ad_session_token_id (attached_devices uid before db)"
    "uniq_opt ad_refresh_token_id (attached_devices uid before db)"
proof -
  have "uniq_opt key (filter P (devices uid db))" if "uniq_opt key (db_devices db)" for key :: "device \<Rightarrow> str option" and P
    using uniq_opt_filter [OF that] unfolding devices_def
    by (intro uniq_opt_filter) (simp add: uniq_opt_def filter_sort uniq_sort_key)
  then show "uniq_opt ad_session_token_id (attached_devices uid before db)"
    "uniq_opt ad_refresh_token_id (attached_devices uid before db)"
    using wf_parts(6,7) [OF assms]
    by (simp_all add: attached_devices_def uniq_opt_def uniq_def filter_map comp_def)
qed

lemma authorized_ids:
  assumes "authorized_clients reg uid False db = Inr found"
  shows "mset (map ag_refresh_token_id found) = mset (map rt_token_id (refresh_tokens uid db))"
proof -
  from assms obtain gs where gs: "mapr (attached_grant_of reg) (refresh_tokens uid db) = Inr gs"
    "found = sort_key grant_order gs" by (auto simp: authorized_clients_def bindr_eq_Inr)
  from gs(1) have "list_all2 (\<lambda>t g. attached_grant_of reg t = Inr g) (refresh_tokens uid db) gs" by (simp add: mapr_Inr)
  then have "map ag_refresh_token_id gs = map rt_token_id (refresh_tokens uid db)"
    by (induction rule: list_all2_induct) (auto simp: attached_grant_of_def bindr_eq_Inr)
  then show ?thesis unfolding gs(2) mset_map mset_sort by (metis mset_map)
qed

lemma attached_ids:
  assumes "wf_db db" "named_tokens db" "authorized_clients reg uid False db = Inr found"
  shows "distinct (map ag_refresh_token_id found)" "\<forall>g\<in>set found. ag_refresh_token_id g \<noteq> []"
    "distinct (map as_id (attached_sessions uid db))" "\<forall>s\<in>set (attached_sessions uid db). as_id s \<noteq> []"
proof -
  note ids = authorized_ids [OF assms(3)]
  have "distinct (map rt_token_id (refresh_tokens uid db))"
    using wf_parts(9) [OF assms(1)] distinct_map_filterI
    unfolding refresh_tokens_def uniq_def [symmetric] uniq_sort_key by (auto simp: uniq_def)
  then show "distinct (map ag_refresh_token_id found)" using mset_eq_imp_distinct_iff [OF ids] by simp
  have "set (map ag_refresh_token_id found) \<subseteq> rt_token_id ` set (db_refresh_tokens db)"
    using mset_eq_setD [OF ids] by (auto simp: refresh_tokens_def)
  then show "\<forall>g\<in>set found. ag_refresh_token_id g \<noteq> []"
    using assms(2) by (fastforce simp: named_tokens_def list_all_iff)
  have "distinct (map st_token_id (session_tokens uid db))"
    using wf_parts(3) [OF assms(1)] distinct_map_filterI
    unfolding session_tokens_def uniq_def [symmetric] uniq_sort_key by (auto simp: uniq_def)
  then show "distinct (map as_id (attached_sessions uid db))" by (simp add: attached_sessions_def comp_def)
  show "\<forall>s\<in>set (attached_sessions uid db). as_id s \<noteq> []"
    using assms(2) by (auto simp: attached_sessions_def session_tokens_def named_tokens_def list_all_iff)
qed

lemma touched:
  assumes "wf_db db" "named_tokens db" "session_of header db = Inr c"
  shows "wf_db (touch_session_token i now db)" "named_tokens (touch_session_token i now db)"
    "st_token_id (sc_token c) \<in> as_id ` set (attached_sessions (acc_uid (sc_account c)) (touch_session_token i now db))"
proof -
  show "wf_db (touch_session_token i now db)" using assms(1) by (rule touch_session_token_wf)
  show "named_tokens (touch_session_token i now db)"
    using assms(2) by (auto simp: named_tokens_def touch_session_token_def update_where_def list_all_iff)
  obtain tid where "get_session_token tid db = Some (sc_token c)" "get_account (st_uid (sc_token c)) db = Some (sc_account c)"
    using assms(3) by (auto simp: session_of_def optional_session_def bindr_eq_Inr split: option.splits)
  then have "sc_token c \<in> set (db_session_tokens db)" "st_uid (sc_token c) = acc_uid (sc_account c)"
    by (auto simp: get_session_token_def get_account_def dest!: lookup_key_Some)
  then show "st_token_id (sc_token c) \<in> as_id ` set (attached_sessions (acc_uid (sc_account c)) (touch_session_token i now db))"
    unfolding attached_sessions_def session_tokens_def touch_session_token_def update_where_def
    by (simp add: image_image) (rule image_eqI [of _ _ "if st_token_id (sc_token c) = i
        then (sc_token c)\<lparr>st_last_access_time := now\<rparr> else sc_token c"], auto)
qed

text \<open>
  C34: The list of attached clients shows each client once. Whatever the database holds, the answer is
  the merge the documentation describes, computed without its positions and aliases: first a row per
  device with the grant and the session the device points to, then a row for every grant, then one
  for every session, that no listed device claims; and exactly one row is marked as the session that
  asked.
\<close>

theorem attached_clients_merge:
  assumes "wf_db db" "named_tokens db" "attached_clients reg header before now db = (Inr rows, db')"
  shows "\<exists>c found. session_of header db = Inr c \<and> authorized_clients reg (acc_uid (sc_account c)) False db' = Inr found \<and>
    rows = merge_spec (attached_devices (acc_uid (sc_account c)) before db') found
      (attached_sessions (acc_uid (sc_account c)) db') (st_token_id (sc_token c)) \<and>
    length (filter ac_isCurrentSession rows) = 1"
proof -
  obtain c where c: "session_of header db = Inr c"
    using assms(3) by (cases "session_of header db") (auto simp: attached_clients_def)
  let ?d = "touch_session_token (st_token_id (sc_token c)) now db" and ?uid = "acc_uid (sc_account c)"
  obtain found where g: "authorized_clients reg ?uid False ?d = Inr found" and db': "db' = ?d"
    and rows: "rows = merge_clients (attached_devices ?uid before ?d) found (attached_sessions ?uid ?d) (st_token_id (sc_token c))"
    using assms(3) by (auto simp: attached_clients_def c Let_def andthen_Inr)
  note t = touched [OF assms(1,2) c, of "st_token_id (sc_token c)" now]
  note ids = attached_ids [OF t(1,2) g]
  have "rows = merge_spec (attached_devices ?uid before ?d) found (attached_sessions ?uid ?d) (st_token_id (sc_token c))"
    unfolding rows using attached_devices_uniq [OF t(1)] ids by (intro merge_is_spec) auto
  moreover have "length (filter ac_isCurrentSession rows) = 1"
    unfolding calculation using attached_devices_uniq(1) [OF t(1)] ids(3) t(3) by (rule one_current)
  ultimately show ?thesis using c g db' by blast
qed

text \<open>A session with a device record of its own, and a refresh token no device points to.\<close>

definition attached_database :: database where
  "attached_database = session_database
     \<lparr>db_devices := [\<lparr>dv_id = ''d'', dv_uid = ''u1'', dv_session_token_id = Some (st_token_id sample_session),
        dv_refresh_token_id = None, dv_name = [], dv_type = [], dv_created_at = 5, dv_push_callback = [],
        dv_push_public_key = [], dv_push_auth_key = [], dv_push_endpoint_expired = False, dv_available_commands = []\<rparr>],
      db_refresh_tokens := [\<lparr>rt_token_id = ''r'', rt_uid = ''u1'', rt_client_id = ''c'', rt_scope = ''profile'',
        rt_created_at = 3, rt_last_used_at = 4\<rparr>]\<rparr>"

lemma sample_token_named: "hex_of (replicate 32 7) \<noteq> []"
  using hex_of_shape(2) [of "replicate 32 7"] by auto

lemma attached_database_ok: "wf_db attached_database" "named_tokens attached_database"
  by (simp_all add: attached_database_def session_database_def sample_session_def sample_defs wf_defs uniq_def
      uniq_opt_def refs_def refs_opt_def named_tokens_def sample_token_named)

theorem attached_clients_merge_witness:
  "\<exists>rows db'. attached_clients [] (Some sample_header) None 9 attached_database = (Inr rows, db') \<and>
     length (filter ac_isCurrentSession rows) = 1"
proof -
  have s: "session_of (Some sample_header) attached_database = Inr \<lparr>sc_token = sample_session, sc_account = sample_account\<rparr>"
    using sample_session_of
    by (auto simp: session_of_def optional_session_def attached_database_def get_session_token_def get_account_def
        bindr_eq_Inr split: option.splits)
  let ?d = "touch_session_token (st_token_id sample_session) 9 attached_database"
  obtain gs where "authorized_clients [] (acc_uid sample_account) False ?d = Inr gs"
    using profile_scope(1)
    by (simp add: authorized_clients_def attached_grant_of_def refresh_tokens_def attached_database_def
        touch_session_token_def sample_account_def)
  then obtain rows db' where run: "attached_clients [] (Some sample_header) None 9 attached_database = (Inr rows, db')"
    by (simp add: attached_clients_def s Let_def)
  from attached_clients_merge [OF attached_database_ok run] show ?thesis using run by blast
qed

end
