(* ===== verification/DeviceProps.thy ===== *)
theory DeviceProps
  imports Devices OauthClaims
begin

text \<open>
  What the device registry promises: a credential owns one record however often it registers, and
  a disconnected device's credential is dead.
\<close>

subsection \<open>The record a credential owns\<close>

definition owned :: "device_credentials \<Rightarrow> device \<Rightarrow> bool" where
  "owned c x \<longleftrightarrow>
     (case dc_session c of
        Some s \<Rightarrow> dv_session_token_id x = Some (st_token_id s)
      | None \<Rightarrow> (case dc_refresh c of Some r \<Rightarrow> dv_refresh_token_id x = Some (rt_token_id r) | None \<Rightarrow> False))"

lemma current_device_find: "current_device db c = find (owned c) (db_devices db)"
proof -
  have "find (\<lambda>r. False) ds = None" for ds :: "device list" by (induction ds) simp_all
  then show ?thesis
    unfolding current_device_def owned_def device_by_session_token_def device_by_refresh_token_def
    by (auto split: option.splits)
qed

lemma owned_unique:
  assumes "wf_db db" "x \<in> set (db_devices db)" "y \<in> set (db_devices db)" "owned c x" "owned c y"
  shows "x = y"
  using assms uniq_opt_unique [OF wf_parts(6) [OF assms(1)] assms(2,3)]
    uniq_opt_unique [OF wf_parts(7) [OF assms(1)] assms(2,3)]
  by (auto simp: owned_def split: option.splits)

lemma current_deviceI:
  assumes "wf_db db" "x \<in> set (db_devices db)" "owned c x"
  shows "current_device db c = Some x"
proof -
  obtain y where y: "find (owned c) (db_devices db) = Some y" using assms(2,3) by (meson find_Some_ex)
  then have "y \<in> set (db_devices db)" "owned c y" by (auto dest: find_Some_in)
  then show ?thesis using y owned_unique [OF assms(1)] assms(2,3) unfolding current_device_find by blast
qed

lemma credentials_cases:
  assumes "device_credentials_of reg h db = Inr c"
  shows "has_account (acc_uid (dc_account c)) db"
    "(\<exists>s. dc_session c = Some s \<and> dc_refresh c = None \<and> s \<in> set (db_session_tokens db)) \<or>
     (\<exists>r. dc_session c = None \<and> dc_refresh c = Some r \<and> r \<in> set (db_refresh_tokens db))"
proof -
  have acc: "get_account u db = Some a \<Longrightarrow> has_account (acc_uid a) db" for u a
    by (auto simp: get_account_def has_account_def has_key_iff dest: lookup_key_Some)
  have s: "session_of h db = Inr sc \<Longrightarrow> sc_token sc \<in> set (db_session_tokens db) \<and> has_account (acc_uid (sc_account sc)) db"
    for sc :: session_credentials
    by (auto simp: session_of_def optional_session_def bindr_eq_Inr get_session_token_def split: option.splits)
      (blast dest: lookup_key_Some acc)+
  have r: "refresh_credentials reg t db = Inr c \<Longrightarrow> dc_session c = None \<and> (\<exists>r\<in>set (db_refresh_tokens db). dc_refresh c = Some r) \<and>
      has_account (acc_uid (dc_account c)) db" for t
    by (auto simp: refresh_credentials_def bindr_eq_Inr get_refresh_token_def dest: lookup_key_Some acc)
  show "has_account (acc_uid (dc_account c)) db"
    "(\<exists>s. dc_session c = Some s \<and> dc_refresh c = None \<and> s \<in> set (db_session_tokens db)) \<or>
     (\<exists>r. dc_session c = None \<and> dc_refresh c = Some r \<and> r \<in> set (db_refresh_tokens db))"
    using assms r s by (auto simp: device_credentials_of_def bindr_eq_Inr split: option.splits)
qed

lemma credentials_ignore_devices [simp]:
  "device_credentials_of reg h (db\<lparr>db_devices := ds\<rparr>) = device_credentials_of reg h db"
  by (simp add: device_credentials_of_def session_of_def optional_session_def refresh_credentials_def
      get_session_token_def get_account_def get_refresh_token_def split: option.splits)

lemma merged_owned:
  assumes "device_credentials_of reg h db = Inr c"
  shows "owned c (merge_device p cur c agent now rnd)" "owned c (device_change (merge_device p cur c agent now rnd) x)"
  using credentials_cases(2) [OF assms]
  by (auto simp: owned_def merge_device_def dc_session_token_id_def dc_refresh_token_id_def)

lemma register_Inr:
  assumes "device_register reg h p ua now rnd db = (Inr r, db')"
  obtains c cur agent where "device_credentials_of reg h db = Inr c" "registered_device p c db = Inr cur"
    "upsert_device (merge_device p cur c agent now rnd) db = Inr db'"
  using assms by (auto simp: device_register_def Let_def andthen_Inr insert_row_Inr)

lemma upsert_device_row:
  assumes "upsert_device d db = Inr db'"
  shows "d \<in> set (db_devices db') \<or> (\<exists>x. dv_id x = dv_id d \<and> device_change d x \<in> set (db_devices db'))"
    "db' = db\<lparr>db_devices := upsert dv_id d (device_change d) (db_devices db)\<rparr>"
  using assms by (auto simp: upsert_device_def upsert_def has_key_iff update_where_def split: if_splits option.splits)

lemma registered:
  assumes "wf_db db" "device_register reg h p ua now rnd db = (Inr r, db')"
  obtains c x where "wf_db db'" "device_credentials_of reg h db = Inr c"
    "device_credentials_of reg h db' = Inr c" "current_device db' c = Some x"
proof -
  obtain c cur agent where c: "device_credentials_of reg h db = Inr c"
    and u: "upsert_device (merge_device p cur c agent now rnd) db = Inr db'"
    by (rule register_Inr [OF assms(2)])
  have wf: "wf_db db'" using assms(1) u by (rule upsert_device_wf)
  obtain x where "x \<in> set (db_devices db')" "owned c x"
    using upsert_device_row(1) [OF u] merged_owned [OF c] by blast
  then have "current_device db' c = Some x" using wf by (intro current_deviceI)
  moreover have "device_credentials_of reg h db' = Inr c" using c upsert_device_row(2) [OF u] by simp
  ultimately show ?thesis using that wf c by blast
qed

lemma merged_onto:
  assumes "dr_id p = None"
  shows "dv_id (merge_device p (Some x) c agent now rnd) = dv_id x"
    "dv_session_token_id (merge_device p cur c agent now rnd) = dc_session_token_id c"
    "dv_refresh_token_id (merge_device p cur c agent now rnd) = dc_refresh_token_id c"
    "dv_uid (merge_device p cur c agent now rnd) = acc_uid (dc_account c)"
  using assms by (simp_all add: merge_device_def or_text_def)

lemma registers_again:
  assumes "wf_db db" "device_credentials_of reg h db = Inr c" "current_device db c = Some x" "dr_id p = None"
  shows "\<exists>r d. device_register reg h p ua now rnd db =
    (Inr r, db\<lparr>db_devices := update_where (\<lambda>y. dv_id y = dv_id x) (device_change d) (db_devices db)\<rparr>) \<and>
    dv_session_token_id d = dc_session_token_id c \<and> dv_refresh_token_id d = dc_refresh_token_id c"
proof -
  let ?agent = "case ua of None \<Rightarrow> session_user_agent c | Some u \<Rightarrow> u"
  define d where "d = merge_device p (Some x) c ?agent now rnd"
  have d: "dv_id d = dv_id x" "dv_session_token_id d = dc_session_token_id c"
    "dv_refresh_token_id d = dc_refresh_token_id c" "dv_uid d = acc_uid (dc_account c)"
    unfolding d_def using merged_onto [OF assms(4)] by simp_all
  have x: "x \<in> set (db_devices db)" "owned c x"
    using assms(3) by (auto simp: current_device_find dest: find_Some_in)
  have unique: "y \<in> set (db_devices db) \<Longrightarrow> owned c y \<Longrightarrow> dv_id y = dv_id x" for y
    using owned_unique [OF assms(1) _ x(1) _ x(2)] by blast
  have "\<not> clashes dv_session_token_id d (db_devices db)" "\<not> clashes dv_refresh_token_id d (db_devices db)"
    using unique credentials_cases(2) [OF assms(2)]
    by (auto simp: clashes_def d owned_def dc_session_token_id_def dc_refresh_token_id_def)
  moreover have "case dv_session_token_id d of None \<Rightarrow> True | Some i \<Rightarrow> has_key st_token_id i (db_session_tokens db)"
    using credentials_cases(2) [OF assms(2)] by (auto simp: d dc_session_token_id_def has_key_iff)
  moreover have known: "has_key dv_id (dv_id d) (db_devices db)" using x(1) by (auto simp: d(1) has_key_iff)
  ultimately have "upsert_device d db =
      Inr (db\<lparr>db_devices := update_where (\<lambda>y. dv_id y = dv_id x) (device_change d) (db_devices db)\<rparr>)"
    by (auto simp: upsert_device_def upsert_def d(1) split: option.splits)
  then show ?thesis
    using assms(2-4) d by (auto simp: device_register_def registered_device_def truthy_def d_def Let_def)
qed

text \<open>
  C32: Registering again never accumulates. Once a header has registered a device, another
  registration with the same header and no id always succeeds, whatever else it says: no device
  appears or disappears, the credential the header stands for, the same before and after, still
  owns the record it owned, with the same id, owner and creation time, and no other record changes.
  The database is one of the schema, and nothing happens between the two registrations.
\<close>

theorem registration_never_accumulates:
  assumes "wf_db db" "device_register reg h p ua now rnd db = (Inr r, db1)" "dr_id p' = None"
  shows "\<exists>c x y r' db2. device_register reg h p' ua' now' rnd' db1 = (Inr r', db2) \<and>
    device_credentials_of reg h db = Inr c \<and> device_credentials_of reg h db1 = Inr c \<and>
    device_credentials_of reg h db2 = Inr c \<and>
    map dv_id (db_devices db2) = map dv_id (db_devices db1) \<and>
    current_device db1 c = Some x \<and> current_device db2 c = Some y \<and>
    dv_id y = dv_id x \<and> dv_uid y = dv_uid x \<and> dv_created_at y = dv_created_at x \<and>
    filter (\<lambda>z. dv_id z \<noteq> dv_id x) (db_devices db2) = filter (\<lambda>z. dv_id z \<noteq> dv_id x) (db_devices db1)"
proof -
  obtain c x where wf: "wf_db db1" and c0: "device_credentials_of reg h db = Inr c"
    and c: "device_credentials_of reg h db1 = Inr c" and x: "current_device db1 c = Some x"
    by (rule registered [OF assms(1,2)])
  obtain r' d where run: "device_register reg h p' ua' now' rnd' db1 =
      (Inr r', db1\<lparr>db_devices := update_where (\<lambda>y. dv_id y = dv_id x) (device_change d) (db_devices db1)\<rparr>)"
    and d: "dv_session_token_id d = dc_session_token_id c" "dv_refresh_token_id d = dc_refresh_token_id c"
    using registers_again [OF wf c x assms(3), of ua' now' rnd'] by blast
  let ?db2 = "db1\<lparr>db_devices := update_where (\<lambda>y. dv_id y = dv_id x) (device_change d) (db_devices db1)\<rparr>"
  have wf2: "wf_db ?db2"
  proof -
    obtain cur c' agent where "upsert_device (merge_device p' cur c' agent now' rnd') db1 = Inr ?db2"
      by (rule register_Inr [OF run]) blast
    with wf show ?thesis by (rule upsert_device_wf)
  qed
  have xin: "x \<in> set (db_devices db1)" using x by (auto simp: current_device_find dest: find_Some_in)
  have "owned c (device_change d x)"
    using d credentials_cases(2) [OF c] by (auto simp: owned_def dc_session_token_id_def dc_refresh_token_id_def)
  then have "current_device ?db2 c = Some (device_change d x)"
    using xin by (intro current_deviceI wf2) (auto simp: update_where_def)
  moreover have "map dv_id (db_devices ?db2) = map dv_id (db_devices db1)"
    by (simp add: update_where_def)
  moreover have "filter (\<lambda>z. dv_id z \<noteq> dv_id x) (update_where (\<lambda>y. dv_id y = dv_id x) (device_change d) t) =
      filter (\<lambda>z. dv_id z \<noteq> dv_id x) t" for t
    by (induction t) (auto simp: update_where_def)
  moreover have "device_credentials_of reg h ?db2 = Inr c" using c by simp
  ultimately show ?thesis using run x c0 c by (intro exI [of _ c] exI [of _ x] exI [of _ "device_change d x"] exI [of _ r'] exI [of _ ?db2])
      (simp add: device_change_def)
qed

definition sample_registration :: "str \<Rightarrow> device_registration" where
  "sample_registration name =
     \<lparr>dr_id = None, dr_name = Some name, dr_type = Some ''desktop'', dr_pushCallback = None,
      dr_pushPublicKey = None, dr_pushAuthKey = None, dr_availableCommands = None\<rparr>"

lemma sample_credentials:
  "device_credentials_of [] (Some sample_header) session_database =
     Inr \<lparr>dc_account = sample_account, dc_session = Some sample_session, dc_refresh = None, dc_client = None\<rparr>"
proof -
  have m: "match_refresh (strip sample_header) = None" "sample_header \<noteq> []" by code_simp+
  have "(case Some sample_header of None \<Rightarrow> None | Some [] \<Rightarrow> None | Some h \<Rightarrow> match_refresh (strip h)) = None"
    using m by (simp split: list.split)
  moreover have "session_of (Some sample_header) session_database = Inr \<lparr>sc_token = sample_session, sc_account = sample_account\<rparr>"
    using sample_session_of by (simp add: session_of_def)
  ultimately show ?thesis unfolding device_credentials_of_def by simp
qed

lemma session_database_ok: "wf_db session_database"
  by (simp add: session_database_def sample_session_def sample_defs wf_defs uniq_def uniq_opt_def refs_def refs_opt_def)

lemma sample_registered:
  "\<exists>r db1. device_register [] (Some sample_header) (sample_registration ''n'') None 9 [1] session_database = (Inr r, db1)"
  unfolding device_register_def sample_credentials
  by (simp add: registered_device_def sample_registration_def truthy_def current_device_def device_by_session_token_def
      session_database_def empty_database_def merge_device_def dc_session_token_id_def dc_refresh_token_id_def
      upsert_device_def clashes_def has_account_def has_key_def upsert_def Let_def)

theorem registration_never_accumulates_witness:
  "\<exists>r db1 r' db2. device_register [] (Some sample_header) (sample_registration ''n'') None 9 [1] session_database = (Inr r, db1) \<and>
     device_register [] (Some sample_header) (sample_registration ''m'') None 10 [2] db1 = (Inr r', db2) \<and>
     map dv_id (db_devices db2) = map dv_id (db_devices db1)"
proof -
  from sample_registered obtain r db1 where
    run: "device_register [] (Some sample_header) (sample_registration ''n'') None 9 [1] session_database = (Inr r, db1)" by blast
  have "dr_id (sample_registration ''m'') = None" by (simp add: sample_registration_def)
  from registration_never_accumulates [OF session_database_ok run this, of None 10 "[2]"] run show ?thesis by blast
qed

subsection \<open>Disconnection\<close>

text \<open>The credential a device points to, when the pointer is a text that is not empty.\<close>

definition points_at :: "str option \<Rightarrow> str \<Rightarrow> bool" where
  "points_at p i \<longleftrightarrow> i \<noteq> [] \<and> p = Some i"

lemma delete_device_effect:
  assumes "get_device uid i db = Some d"
  shows "fst (delete_device uid i db) = Some d" "get_device uid i (snd (delete_device uid i db)) = None"
    "db_session_tokens (snd (delete_device uid i db)) =
       filter (\<lambda>s. \<not> points_at (dv_session_token_id d) (st_token_id s)) (db_session_tokens db)"
    "db_refresh_tokens (snd (delete_device uid i db)) =
       filter (\<lambda>r. \<not> points_at (dv_refresh_token_id d) (rt_token_id r)) (db_refresh_tokens db)"
proof -
  have f: "filter (\<lambda>x. \<not> points_at p (key x)) t =
      (if truthy p then delete_where (\<lambda>x. key x = the p) t else t)" for p and key :: "'a \<Rightarrow> str" and t
    by (auto simp: truthy_def points_at_def delete_where_def filter_id_conv intro!: filter_cong)
  show "fst (delete_device uid i db) = Some d" using assms by (simp add: delete_device_def Let_def)
  show "db_session_tokens (snd (delete_device uid i db)) =
       filter (\<lambda>s. \<not> points_at (dv_session_token_id d) (st_token_id s)) (db_session_tokens db)"
    unfolding f using assms
    by (simp add: delete_device_def Let_def delete_session_token_def cascade_session_tokens_def delete_refresh_token_def)
  show "db_refresh_tokens (snd (delete_device uid i db)) =
       filter (\<lambda>r. \<not> points_at (dv_refresh_token_id d) (rt_token_id r)) (db_refresh_tokens db)"
    unfolding f using assms
    by (simp add: delete_device_def Let_def delete_session_token_def cascade_session_tokens_def delete_refresh_token_def)
  have "find (\<lambda>r. dv_uid r = uid \<and> dv_id r = i) (filter P (delete_where (\<lambda>r. dv_uid r = uid \<and> dv_id r = i) t)) = None" for P t
    by (simp add: find_None_iff)
  moreover have "\<exists>P. db_devices (snd (delete_device uid i db)) =
      filter P (delete_where (\<lambda>r. dv_uid r = uid \<and> dv_id r = i) (db_devices db))"
    using assms
    by (auto simp: delete_device_def Let_def delete_session_token_def cascade_session_tokens_def delete_refresh_token_def
        delete_where_def intro: exI [of _ "\<lambda>_. True"])
  ultimately show "get_device uid i (snd (delete_device uid i db)) = None" by (auto simp: get_device_def)
qed

text \<open>
  C33: Disconnecting a device ends its credential. A successful \<open>/account/device/destroy\<close> names a device
  of the caller's account; afterwards the record is gone, every header that names the session token
  it pointed to and every refresh token it pointed to is refused with ''Token not found'', and no other
  session or refresh token is lost.
\<close>

theorem disconnected_device_is_dead:
  assumes "device_destroy reg h i db = (Inr r, db')"
  shows "\<exists>c d. device_credentials_of reg h db = Inr c \<and> get_device (acc_uid (dc_account c)) i db = Some d \<and>
    get_device (acc_uid (dc_account c)) i db' = None \<and>
    (\<forall>h' t. points_at (dv_session_token_id d) t \<and> token_id h' SESSION = Inr (Some t) \<longrightarrow> session_of h' db' = Inl token_not_found) \<and>
    (\<forall>tok t. points_at (dv_refresh_token_id d) t \<and> hash_token tok = Some t \<longrightarrow>
       refresh_credentials reg tok db' = Inl token_not_found) \<and>
    db_session_tokens db' = filter (\<lambda>s. \<not> points_at (dv_session_token_id d) (st_token_id s)) (db_session_tokens db) \<and>
    db_refresh_tokens db' = filter (\<lambda>r. \<not> points_at (dv_refresh_token_id d) (rt_token_id r)) (db_refresh_tokens db)"
proof -
  obtain c where c: "device_credentials_of reg h db = Inr c"
    using assms by (cases "device_credentials_of reg h db") (auto simp: device_destroy_def)
  let ?u = "acc_uid (dc_account c)"
  obtain d where d: "get_device ?u i db = Some d" and db': "db' = snd (delete_device ?u i db)"
    using assms by (cases "get_device ?u i db") (auto simp: device_destroy_def c delete_device_def Let_def)
  note e = delete_device_effect [OF d, folded db']
  have "points_at (dv_session_token_id d) t \<Longrightarrow> get_session_token t db' = None" for t
    using e(3) by (auto simp: get_session_token_def lookup_key_None)
  moreover have "points_at (dv_refresh_token_id d) t \<Longrightarrow> get_refresh_token t db' = None" for t
    using e(4) by (auto simp: get_refresh_token_def lookup_key_None)
  ultimately show ?thesis
    using c d e(2-4) by (intro exI [of _ c] exI [of _ d])
      (simp add: session_of_def optional_session_def refresh_credentials_def)
qed

theorem disconnected_device_is_dead_witness:
  "\<exists>r db1 db2. device_register [] (Some sample_header) (sample_registration ''n'') None 9 [1] session_database = (Inr r, db1) \<and>
     device_destroy [] (Some sample_header) (hex_of [1]) db1 = (Inr (JObj []), db2) \<and>
     session_of (Some sample_header) db2 = Inl token_not_found"
proof -
  let ?d = "merge_device (sample_registration ''n'') None
    \<lparr>dc_account = sample_account, dc_session = Some sample_session, dc_refresh = None, dc_client = None\<rparr> [] 9 [1]"
  let ?c = "\<lparr>dc_account = sample_account, dc_session = Some sample_session, dc_refresh = None, dc_client = None\<rparr>"
  let ?db1 = "session_database\<lparr>db_devices := [?d]\<rparr>"
  have d: "dv_id ?d = hex_of [1]" "dv_uid ?d = acc_uid sample_account" "dv_session_token_id ?d = Some (st_token_id sample_session)"
    by (simp_all add: merge_device_def sample_registration_def or_text_def dc_session_token_id_def)
  have run: "\<exists>r. device_register [] (Some sample_header) (sample_registration ''n'') None 9 [1] session_database = (Inr r, ?db1)"
    unfolding device_register_def sample_credentials
    by (simp add: registered_device_def sample_registration_def truthy_def current_device_def device_by_session_token_def
        session_database_def empty_database_def merge_device_def dc_session_token_id_def dc_refresh_token_id_def
        upsert_device_def clashes_def has_account_def has_key_def upsert_def Let_def session_user_agent_def sample_session_def)
  have creds: "device_credentials_of [] (Some sample_header) ?db1 = Inr ?c"
    using sample_credentials by simp
  have g: "get_device (acc_uid sample_account) (hex_of [1]) ?db1 = Some ?d"
    using d by (simp add: get_device_def)
  have des: "\<exists>db2. device_destroy [] (Some sample_header) (hex_of [1]) ?db1 = (Inr (JObj []), db2)"
    unfolding device_destroy_def creds using g by (simp add: delete_device_def Let_def)
  then obtain db2 where db2: "device_destroy [] (Some sample_header) (hex_of [1]) ?db1 = (Inr (JObj []), db2)" by blast
  have id: "token_id (Some sample_header) SESSION = Inr (Some (st_token_id sample_session))"
    unfolding sample_header_def using bearer_token_id_header [of "replicate 32 7" SESSION SESSION]
    by (simp add: sample_session_def)
  have "points_at (dv_session_token_id ?d) (st_token_id sample_session)"
  proof -
    have "st_token_id sample_session \<noteq> []"
      using hex_of_shape(2) [of "replicate 32 7"] by (auto simp: sample_session_def)
    then show ?thesis unfolding points_at_def d(3) by simp
  qed
  then have "session_of (Some sample_header) db2 = Inl token_not_found"
    using disconnected_device_is_dead [OF db2] creds g id by auto
  then show ?thesis using run db2 by blast
qed

end
