(* ===== verification/Profile.thy ===== *)
theory Profile
  imports OauthResource
begin

text \<open>
  \<open>profile/__init__.py\<close>: an access token verified locally, and what its scopes let it read.
\<close>

definition EMAIL_SCOPES :: "str list" where "EMAIL_SCOPES = [''profile:email'', ''email'']"
definition UID_SCOPES :: "str list" where "UID_SCOPES = [''profile:uid'']"
definition DISPLAY_NAME_SCOPES :: "str list" where "DISPLAY_NAME_SCOPES = [''profile:display_name'']"
definition AVATAR_SCOPES :: "str list" where "AVATAR_SCOPES = [''profile:avatar'']"
definition DEFAULT_MONOGRAM :: str where "DEFAULT_MONOGRAM = ''default''"

record token_credentials =
  tc_account :: account
  tc_scope :: scope_set
  tc_client_id :: json
  tc_openid :: bool

definition scope_contains :: "scope_set \<Rightarrow> str \<Rightarrow> bool" where
  "scope_contains s v = contains s (scope_constant [v])"

definition allows :: "token_credentials \<Rightarrow> str list \<Rightarrow> bool" where
  "allows c scopes \<longleftrightarrow> list_ex (scope_contains (tc_scope c)) scopes"

definition require_scopes :: "token_credentials \<Rightarrow> str list \<Rightarrow> fxa_exn + unit" where
  "require_scopes c scopes = guardr (allows c scopes) (Fxa (insufficient_scope scopes))"

subsection \<open>The token\<close>

definition profile_refusal :: "str \<Rightarrow> fxa_exn" where
  "profile_refusal why = Fxa (profile_unauthorized (Some why))"

text \<open>
  \<open>db.account(claims.get("sub", ""))\<close>: \<open>uid\<close> is a TEXT column, so a bound integer is compared as its
  decimal text; a list or an object cannot be bound. A float is taken to name no account.
\<close>

definition account_named :: "json \<Rightarrow> database \<Rightarrow> fxa_exn + account option" where
  "account_named sub db =
     (case sub of
        JStr s \<Rightarrow> Inr (get_account s db)
      | JInt n \<Rightarrow> if sql_int n then Inr (get_account (show_int n) db) else Inl FxaCrash
      | JBool b \<Rightarrow> Inr (get_account (if b then ''1'' else ''0'') db)
      | JNull \<Rightarrow> Inr None
      | JFloat _ \<Rightarrow> Inr None
      | _ \<Rightarrow> Inl FxaCrash)"

definition profile_token :: "str option \<Rightarrow> fxa_exn + str" where
  "profile_token header =
     (let h = (case header of None \<Rightarrow> [] | Some s \<Rightarrow> s)
      in if startswith (lower h) ''bearer '' then Inr (strip (drop (length ''bearer '') h))
         else Inl (profile_refusal ''Bearer token not provided''))"

definition oauth_credentials :: "'key oauth_env \<Rightarrow> str option \<Rightarrow> int \<Rightarrow> database \<Rightarrow> fxa_exn + token_credentials" where
  "oauth_credentials env header now db =
     bindr (profile_token header) (\<lambda>token.
     bindr (of_option (profile_refusal ''Invalid token'')
         (verify_jwt (oe_json env) (oe_rsa env) (KeyMap (oe_verifiers env)) now 0 token)) (\<lambda>claims.
     bindr (of_option FxaCrash (decode_jwt_header (oe_json env) token)) (\<lambda>head.
     bindr (guardr (obj_get head ''typ'' = JStr ''at+JWT'') (profile_refusal ''Not an access token'')) (\<lambda>_.
     bindr (guardr (obj_get claims ''iss'' = JStr (oe_public_url env)) (profile_refusal ''Wrong issuer'')) (\<lambda>_.
     bindr (bindr (account_named (get_or claims ''sub'' (JStr [])) db)
         (of_option (profile_refusal ''Unknown account''))) (\<lambda>a.
     bindr (claimed_scope claims) (\<lambda>scope.
       Inr \<lparr>tc_account = a, tc_scope = scope, tc_client_id = get_or claims ''client_id'' (JStr []),
            tc_openid = scope_contains scope ''openid''\<rparr>)))))))"

subsection \<open>The document\<close>

definition initial_of :: "str \<Rightarrow> str" where
  "initial_of email = (case find (\<lambda>c. is_ascii c \<and> is_alnum c) email of None \<Rightarrow> [] | Some c \<Rightarrow> [c])"

definition avatar_url :: "str \<Rightarrow> token_credentials \<Rightarrow> str" where
  "avatar_url public_url c =
     (let monogram =
        (if allows c EMAIL_SCOPES
         then (let i = initial_of (acc_email (tc_account c)) in if i = [] then DEFAULT_MONOGRAM else i)
         else DEFAULT_MONOGRAM)
      in config_url public_url (''/profile/v1/avatar/'' @ monogram))"

definition gated :: "bool \<Rightarrow> (str \<times> json) list \<Rightarrow> (str \<times> json) list" where
  "gated b kvs = (if b then kvs else [])"

definition profile_document :: "str \<Rightarrow> token_credentials \<Rightarrow> (str \<times> json) list" where
  "profile_document public_url c =
     (let a = tc_account c
      in gated (allows c UID_SCOPES \<or> scope_contains (tc_scope c) ''profile'') [(''uid'', JStr (acc_uid a))] @
         gated (allows c EMAIL_SCOPES) [(''email'', JStr (acc_email a))] @
         gated (scope_contains (tc_scope c) ''profile:locale'') [(''locale'', opt_str (acc_locale a))] @
         gated (scope_contains (tc_scope c) ''profile:amr'')
           [(''amrValues'', JArr [JStr ''pwd'', JStr ''email'']), (''twoFactorAuthentication'', JBool False)] @
         gated (tc_openid c) [(''sub'', JStr (acc_uid a))] @
         gated (allows c AVATAR_SCOPES)
           [(''avatar'', JStr (avatar_url public_url c)), (''avatarDefault'', JBool True)] @
         [(''metricsEnabled'', JBool False)])"

definition profile_route :: "'key oauth_env \<Rightarrow> str option \<Rightarrow> int \<Rightarrow> database \<Rightarrow> fxa_exn + json" where
  "profile_route env header now db =
     bindr (oauth_credentials env header now db) (\<lambda>c. Inr (JObj (profile_document (oe_public_url env) c)))"

definition profile_email :: "'key oauth_env \<Rightarrow> str option \<Rightarrow> int \<Rightarrow> database \<Rightarrow> fxa_exn + json" where
  "profile_email env header now db =
     bindr (oauth_credentials env header now db) (\<lambda>c.
     bindr (require_scopes c EMAIL_SCOPES) (\<lambda>_. Inr (JObj [(''email'', JStr (acc_email (tc_account c)))])))"

definition profile_uid :: "'key oauth_env \<Rightarrow> str option \<Rightarrow> int \<Rightarrow> database \<Rightarrow> fxa_exn + json" where
  "profile_uid env header now db =
     bindr (oauth_credentials env header now db) (\<lambda>c.
     bindr (require_scopes c UID_SCOPES) (\<lambda>_. Inr (JObj [(''uid'', JStr (acc_uid (tc_account c)))])))"

text \<open>A 204 without a body.\<close>

definition display_name :: "'key oauth_env \<Rightarrow> str option \<Rightarrow> int \<Rightarrow> database \<Rightarrow> fxa_exn + int" where
  "display_name env header now db =
     bindr (oauth_credentials env header now db) (\<lambda>c. bindr (require_scopes c DISPLAY_NAME_SCOPES) (\<lambda>_. Inr 204))"

subsection \<open>The monogram\<close>

definition qt :: str where "qt = [CHR 0x22]"

definition attr :: "str \<Rightarrow> str \<Rightarrow> str" where
  "attr name v = name @ ''='' @ qt @ v @ qt"

definition svg_line :: "str list \<Rightarrow> str" where
  "svg_line parts = join '' '' parts @ [newline]"

definition monogram_svg :: "str \<Rightarrow> str" where
  "monogram_svg monogram =
     concat
       [svg_line [''<svg'', attr ''viewBox'' ''0 0 100 100'', attr ''xmlns'' ''http://www.w3.org/2000/svg'' @ ''>''],
        svg_line [''  <mask'', attr ''id'' ''monogram'' @ ''>''],
        svg_line [''    <rect'', attr ''x'' ''0'', attr ''y'' ''0'', attr ''width'' ''100%'', attr ''height'' ''100%'',
          attr ''fill'' ''white'' @ ''/>''],
        svg_line [''    <text'', attr ''x'' ''50%'', attr ''y'' ''50%'', attr ''dominant-baseline'' ''central'',
          attr ''text-anchor'' ''middle''],
        svg_line [''          '' @ attr ''fill'' ''black'', attr ''font-family'' ''sans-serif'', attr ''font-weight'' ''bold''],
        svg_line [''          '' @ attr ''font-size'' ''64'' @ ''>'' @ monogram @ ''</text>''],
        svg_line [''  </mask>''],
        svg_line [''  <circle'', attr ''cx'' ''50'', attr ''cy'' ''50'', attr ''r'' ''50'', attr ''fill'' ''#B2B2B4'',
          attr ''fill-opacity'' ''0.7'', attr ''mask'' ''url(#monogram)'' @ ''/>''],
        svg_line [''</svg>'']]"

definition avatar_letter :: "str \<Rightarrow> str" where
  "avatar_letter monogram =
     (if length monogram = 1 \<and> list_all is_ascii monogram \<and> list_all is_alnum monogram then upper_ascii monogram
      else ''?'')"

definition avatar :: "str \<Rightarrow> str" where
  "avatar monogram = monogram_svg (avatar_letter monogram)"

subsection \<open>What a token may learn\<close>

text \<open>The same database with other emails in its accounts.\<close>

definition with_emails :: "(account \<Rightarrow> str) \<Rightarrow> database \<Rightarrow> database" where
  "with_emails g db = db\<lparr>db_accounts := map (\<lambda>a. a\<lparr>acc_email := g a\<rparr>) (db_accounts db)\<rparr>"

lemma get_account_with_emails:
  "get_account u (with_emails g db) = map_option (\<lambda>a. a\<lparr>acc_email := g a\<rparr>) (get_account u db)"
proof -
  have "find (\<lambda>r. acc_uid r = u) (map (\<lambda>a. a\<lparr>acc_email := g a\<rparr>) t) =
      map_option (\<lambda>a. a\<lparr>acc_email := g a\<rparr>) (find (\<lambda>r. acc_uid r = u) t)" for t
    by (induction t) simp_all
  then show ?thesis by (simp add: get_account_def lookup_key_def with_emails_def)
qed

definition with_email :: "(account \<Rightarrow> str) \<Rightarrow> token_credentials \<Rightarrow> token_credentials" where
  "with_email g c = c\<lparr>tc_account := (tc_account c)\<lparr>acc_email := g (tc_account c)\<rparr>\<rparr>"

lemma account_named_with_emails:
  "account_named sub (with_emails g db) =
     (case account_named sub db of Inl e \<Rightarrow> Inl e | Inr a \<Rightarrow> Inr (map_option (\<lambda>a. a\<lparr>acc_email := g a\<rparr>) a))"
  by (cases sub) (simp_all add: account_named_def get_account_with_emails)

lemma credentials_with_emails:
  "oauth_credentials env h now (with_emails g db) =
     (case oauth_credentials env h now db of Inl e \<Rightarrow> Inl e | Inr c \<Rightarrow> Inr (with_email g c))"
  unfolding oauth_credentials_def account_named_with_emails bindr_def of_option_def guardr_def
  by (simp add: with_email_def split: sum.splits option.splits)

lemma allows_with_email [simp]: "allows (with_email g c) scopes = allows c scopes"
  by (simp add: allows_def with_email_def)

lemma document_with_email:
  "\<not> allows c EMAIL_SCOPES \<Longrightarrow> profile_document url (with_email g c) = profile_document url c"
  by (simp add: profile_document_def Let_def gated_def avatar_url_def) (simp add: with_email_def)

text \<open>
  C35: An access token learns the address only by its scopes. Whatever the request, either its token
  is good and has an email scope, or the answers of \<open>/profile\<close> (its avatar address included) and of
  \<open>/email\<close> are the same for any two databases that differ in nothing but the emails of the accounts.
\<close>

theorem profile_discloses_email_by_scope:
  "(\<exists>c. oauth_credentials env h now db = Inr c \<and> allows c EMAIL_SCOPES) \<or>
   (profile_route env h now (with_emails g db) = profile_route env h now db \<and>
    profile_email env h now (with_emails g db) = profile_email env h now db)"
proof (cases "oauth_credentials env h now db")
  case (Inl e)
  then show ?thesis by (simp add: profile_route_def profile_email_def credentials_with_emails)
next
  case (Inr c)
  then show ?thesis
    by (cases "allows c EMAIL_SCOPES")
      (simp_all add: profile_route_def profile_email_def credentials_with_emails document_with_email require_scopes_def)
qed

end
