(* ===== verification/Asgi.thy ===== *)
theory Asgi
  imports Jose
begin

text \<open>
  What the middlewares see of an ASGI server and application. The server hands out messages one
  at a time, for ever (a closed connection repeats \<open>http.disconnect\<close>), so a \<open>receive\<close> is the
  sequence of what its successive calls return. An application is the tree of what it does next: it
  reads a message and goes on with it, sends one, returns or raises. A key a message does not have
  stands as the default every reader of it uses.
\<close>

type_synonym header_list = "(str \<times> str) list"

datatype inbound = HttpRequest bytes bool | HttpDisconnect

datatype outbound = ResponseStart int header_list | ResponseBody bytes

datatype app = Receive "inbound \<Rightarrow> app" | Send outbound app | Return | Raise

type_synonym receiver = "nat \<Rightarrow> inbound"

record scope =
  sc_type :: str
  sc_method :: str
  sc_path :: str
  sc_query :: bytes
  sc_headers :: header_list

text \<open>What one call did: the messages it took, those it sent, and whether it raised.\<close>

record transcript =
  tr_taken :: "inbound list"
  tr_sent :: "outbound list"
  tr_raised :: bool

primrec run_app :: "app \<Rightarrow> receiver \<Rightarrow> nat \<Rightarrow> transcript" where
  "run_app (Receive k) ins i = (let t = run_app (k (ins i)) ins (Suc i) in t\<lparr>tr_taken := ins i # tr_taken t\<rparr>)"
| "run_app (Send m a) ins i = (let t = run_app a ins i in t\<lparr>tr_sent := m # tr_sent t\<rparr>)"
| "run_app Return ins i = \<lparr>tr_taken = [], tr_sent = [], tr_raised = False\<rparr>"
| "run_app Raise ins i = \<lparr>tr_taken = [], tr_sent = [], tr_raised = True\<rparr>"

fun in_body :: "inbound \<Rightarrow> bytes" where
  "in_body (HttpRequest b more_body) = b"
| "in_body HttpDisconnect = []"

fun out_body :: "outbound \<Rightarrow> bytes" where
  "out_body (ResponseBody b) = b"
| "out_body (ResponseStart n hs) = []"

text \<open>
  An ASGI callable as a middleware sees the next one: what a call with this scope and this
  \<open>receive\<close> does, \<open>None\<close> when it waits for ever.
\<close>

type_synonym asgi = "scope \<Rightarrow> receiver \<Rightarrow> transcript option"

definition served_by :: "(scope \<Rightarrow> app) \<Rightarrow> asgi" where
  "served_by inner sc ins = Some (run_app (inner sc) ins 0)"

text \<open>An application takes the messages in order, from where it was started.\<close>

lemma taken_in_order: "tr_taken (run_app a ins i) = map ins [i..<i + length (tr_taken (run_app a ins i))]"
proof (induction a arbitrary: i)
  case (Receive k)
  let ?t = "tr_taken (run_app (k (ins i)) ins (Suc i))"
  have "?t = map ins [Suc i..<Suc i + length ?t]" by (rule Receive) simp
  then have "ins i # ?t = map ins (i # [Suc i..<Suc i + length ?t])" by simp
  also have "i # [Suc i..<Suc i + length ?t] = [i..<i + length (ins i # ?t)]" by (simp add: upt_rec)
  finally show ?case by (simp add: Let_def)
qed (simp_all add: Let_def)

text \<open>A word in single quotes.\<close>

definition quoted :: "str \<Rightarrow> str" where
  "quoted w = CHR 39 # w @ [CHR 39]"

subsection \<open>JSON as \<open>json.dumps\<close> writes it by default\<close>

text \<open>
  Separators \<open>", "\<close> and \<open>": "\<close>. \<open>sort_keys\<close> sorts the items of every dict; no dict has a key twice,
  so the keys decide.
\<close>

fun dumps :: "(pyfloat \<Rightarrow> str) \<Rightarrow> bool \<Rightarrow> json \<Rightarrow> str" where
  "dumps show_float ea JNull = ''null''"
| "dumps show_float ea (JBool b) = (if b then ''true'' else ''false'')"
| "dumps show_float ea (JInt n) = show_int n"
| "dumps show_float ea (JFloat x) = show_float x"
| "dumps show_float ea (JStr s) = json_string ea s"
| "dumps show_float ea (JArr vs) = ''['' @ join '', '' (map (dumps show_float ea) vs) @ '']''"
| "dumps show_float ea (JObj kvs) =
     ''{'' @ join '', '' (map (\<lambda>(k, v). json_string ea k @ '': '' @ dumps show_float ea v) kvs) @ ''}''"

fun sort_keys :: "json \<Rightarrow> json" where
  "sort_keys (JObj kvs) = JObj (sort_key fst (map (\<lambda>(k, v). (k, sort_keys v)) kvs))"
| "sort_keys (JArr vs) = JArr (map sort_keys vs)"
| "sort_keys v = v"

end
