(* ===== verification/Tracing.thy ===== *)
theory Tracing
  imports Asgi Urls
begin

text \<open>
  \<open>tracing.py\<close>: the debug log of requests, with every credential elided. \<open>json.loads\<close> of a body and
  \<open>parse_qsl\<close> of a query are parameters. The ellipsis U+2026 the source writes is outside the
  8-bit characters of the model; the one character \<open>ELLIPSIS\<close> stands for it.
\<close>

definition ELLIPSIS :: str where "ELLIPSIS = [CHR 0x85]"
definition PREFIX_LENGTH :: nat where "PREFIX_LENGTH = 8"
definition MIN_REDACTED_LENGTH :: nat where "MIN_REDACTED_LENGTH = 16"
definition MAX_BODY_CHARS :: nat where "MAX_BODY_CHARS = 2048"
definition SKIP_PREFIX :: str where "SKIP_PREFIX = ''/static/''"

definition SECRET_KEYS :: "str list" where
  "SECRET_KEYS =
     [''access_token'', ''assertion'', ''authPW'', ''authorization'', ''bundle'', ''client_secret'', ''code'',
      ''code_verifier'', ''id_token'', ''key'', ''keyFetchToken'', ''keyRotationSecret'', ''keys_jwe'', ''oldAuthPW'',
      ''passwordChangeToken'', ''payload'', ''pushAuthKey'', ''pushPublicKey'', ''refresh_token'', ''sessionToken'',
      ''subject_token'', ''token'', ''unwrapBKey'', ''wrapKb'']"

definition PATH_SECRET_KEYS :: "(str \<times> str list) list" where
  "PATH_SECRET_KEYS = [(''/token/'', [''id''])]"

definition secrets_for :: "str \<Rightarrow> str list" where
  "secrets_for path = SECRET_KEYS @ concat (map snd (filter (\<lambda>(p, _). startswith path p) PATH_SECRET_KEYS))"

definition elide_text :: "str \<Rightarrow> str" where
  "elide_text s =
     (if MIN_REDACTED_LENGTH < length s
      then take PREFIX_LENGTH s @ ELLIPSIS @ ''('' @ show_int (int (length s)) @ '' chars)''
      else ELLIPSIS)"

text \<open>\<open>redact\<close>, with \<open>_value\<close> and \<open>_elide\<close>: only a text directly under a secret name is cut.\<close>

fun redact :: "str list \<Rightarrow> json \<Rightarrow> json"
  and redact_value :: "str list \<Rightarrow> str \<times> json \<Rightarrow> str \<times> json"
  and redact_items :: "str list \<Rightarrow> (str \<times> json) list \<Rightarrow> (str \<times> json) list"
  and redact_list :: "str list \<Rightarrow> json list \<Rightarrow> json list" where
  "redact S (JObj kvs) = JObj (redact_items S kvs)"
| "redact S (JArr vs) = JArr (redact_list S vs)"
| "redact S v = v"
| "redact_value S (k, JStr s) = (k, if k \<in> set S then JStr (elide_text s) else JStr s)"
| "redact_value S (k, v) = (k, redact S v)"
| "redact_items S [] = []"
| "redact_items S (kv # kvs) = redact_value S kv # redact_items S kvs"
| "redact_list S [] = []"
| "redact_list S (v # vs) = redact S v # redact_list S vs"

subsection \<open>Rendering\<close>

record trace_lib =
  tl_json :: json_lib
  tl_parse_qsl :: "bytes \<Rightarrow> (str \<times> str) list"

definition render_body :: "trace_lib \<Rightarrow> str list \<Rightarrow> bytes \<Rightarrow> str" where
  "render_body jt S raw =
     (if raw = [] then ''(empty)''
      else
        (case json_loads (tl_json jt) raw of
           None \<Rightarrow> ''<'' @ show_int (int (length raw)) @ '' bytes, not JSON>''
         | Some decoded \<Rightarrow>
             (let rendered = dumps (float_repr (tl_json jt)) False (sort_keys (redact S decoded))
              in if MAX_BODY_CHARS < length rendered
                 then take MAX_BODY_CHARS rendered @ ELLIPSIS @ '' ('' @ show_int (int (length rendered)) @ '' chars)''
                 else rendered)))"

text \<open>\<open>quote_plus\<close> of an elided value: in a query the ellipsis is its three UTF-8 bytes, escaped.\<close>

definition ELLIPSIS_QUOTED :: str where "ELLIPSIS_QUOTED = ''%E2%80%A6''"

definition quote_elided :: "str \<Rightarrow> str" where
  "quote_elided s =
     (if MIN_REDACTED_LENGTH < length s
      then quote_plus (take PREFIX_LENGTH s) @ ELLIPSIS_QUOTED @
        quote_plus (''('' @ show_int (int (length s)) @ '' chars)'')
      else ELLIPSIS_QUOTED)"

definition render_query :: "trace_lib \<Rightarrow> str list \<Rightarrow> bytes \<Rightarrow> str" where
  "render_query jt S raw =
     (if raw = [] then []
      else join ''&'' (map (\<lambda>(k, v). quote_plus k @ ''='' @ (if k \<in> set S then quote_elided v else quote_plus v))
        (tl_parse_qsl jt raw)))"

definition render_authorization :: "str option \<Rightarrow> str" where
  "render_authorization header =
     (case header of
        None \<Rightarrow> ''none''
      | Some h \<Rightarrow>
          if h = [] then ''none''
          else
            (let (scheme, _, rest) = partition CHR '' '' h
             in if rest = [] then scheme else scheme @ '' '' @ take PREFIX_LENGTH rest @ ELLIPSIS))"

text \<open>The header names an ASGI server hands over are in lower case; this \<open>_header\<close> compares them as they are.\<close>

definition trace_header :: "scope \<Rightarrow> str \<Rightarrow> str option" where
  "trace_header sc name = map_of (sc_headers sc) name"

subsection \<open>The middleware\<close>

definition final_status :: "outbound list \<Rightarrow> int" where
  "final_status ms = fold (\<lambda>m st. case m of ResponseStart n _ \<Rightarrow> n | ResponseBody _ \<Rightarrow> st) ms 0"

definition log_line :: "trace_lib \<Rightarrow> scope \<Rightarrow> int \<Rightarrow> bytes \<Rightarrow> bytes \<Rightarrow> str" where
  "log_line jt sc status request_body response_body =
     (let S = secrets_for (sc_path sc);
          query = render_query jt S (sc_query sc);
          target = (if query = [] then sc_path sc else sc_path sc @ ''?'' @ query)
      in sc_method sc @ '' '' @ target @ '' -> '' @
         (if status = 0 then ''(no response)'' else show_int status) @ '' auth='' @
         render_authorization (trace_header sc ''authorization'') @
         newline # ''    request : '' @ render_body jt S request_body @
         newline # ''    response: '' @ render_body jt S response_body)"

text \<open>What the wrapped application did, and the lines written to the log: in a \<open>finally\<close>, so a raise has one too.\<close>

definition trace_call ::
  "trace_lib \<Rightarrow> bool \<Rightarrow> asgi \<Rightarrow> scope \<Rightarrow> receiver \<Rightarrow> (transcript \<times> str list) option" where
  "trace_call jt debug inner sc ins =
     map_option (\<lambda>t.
       (t, if sc_type sc \<noteq> ''http'' \<or> \<not> debug \<or> startswith (sc_path sc) SKIP_PREFIX then []
           else [log_line jt sc (final_status (tr_sent t)) (concat (map in_body (tr_taken t)))
                  (concat (map out_body (tr_sent t)))])) (inner sc ins)"

subsection \<open>What a log line tells of a secret\<close>

text \<open>Two texts an observer of the log cannot tell apart: same length and same eight first characters, or both short.\<close>

definition alike_text :: "str \<Rightarrow> str \<Rightarrow> bool" where
  "alike_text s t \<longleftrightarrow>
     (if length s \<le> MIN_REDACTED_LENGTH then length t \<le> MIN_REDACTED_LENGTH
      else length t = length s \<and> take PREFIX_LENGTH t = take PREFIX_LENGTH s)"

text \<open>Documents that differ, anywhere in them, in texts directly under secret names only.\<close>

inductive alike :: "str list \<Rightarrow> json \<Rightarrow> json \<Rightarrow> bool" for S where
  alike_refl: "alike S v v"
| alike_secret: "k \<in> set S \<Longrightarrow> alike_text s t \<Longrightarrow>
    alike S (JObj (xs @ (k, JStr s) # ys)) (JObj (xs @ (k, JStr t) # ys))"
| alike_obj: "alike S v w \<Longrightarrow> alike S (JObj (xs @ (k, v) # ys)) (JObj (xs @ (k, w) # ys))"
| alike_arr: "alike S v w \<Longrightarrow> alike S (JArr (xs @ v # ys)) (JArr (xs @ w # ys))"
| alike_trans: "alike S u v \<Longrightarrow> alike S v w \<Longrightarrow> alike S u w"

lemma elide_alike: "alike_text s t \<Longrightarrow> elide_text s = elide_text t"
  by (auto simp: alike_text_def elide_text_def PREFIX_LENGTH_def MIN_REDACTED_LENGTH_def split: if_splits)

lemma redact_value_other: "(\<And>s. v \<noteq> JStr s) \<Longrightarrow> redact_value S (k, v) = (k, redact S v)"
  by (cases v) auto

lemma redact_items_map: "redact_items S kvs = map (redact_value S) kvs"
  by (induction kvs) simp_all

lemma redact_list_map: "redact_list S vs = map (redact S) vs"
  by (induction vs) simp_all

lemma alike_text_fixed: "alike S v w \<Longrightarrow> (\<exists>s. v = JStr s) \<or> (\<exists>s. w = JStr s) \<Longrightarrow> w = v"
  by (induction rule: alike.induct) auto

lemma redact_value_alike: "alike S v w \<Longrightarrow> redact S v = redact S w \<Longrightarrow> redact_value S (k, v) = redact_value S (k, w)"
  using alike_text_fixed [of S v w] redact_value_other [of v S k] redact_value_other [of w S k] by metis

lemma redact_alike: "alike S v w \<Longrightarrow> redact S v = redact S w"
  by (induction rule: alike.induct)
    (simp_all add: redact_items_map redact_list_map redact_value_alike elide_alike)

lemma render_body_alike:
  assumes "json_loads (tl_json jt) b1 = Some v1" "json_loads (tl_json jt) b2 = Some v2" "alike S v1 v2"
    "b1 \<noteq> []" "b2 \<noteq> []"
  shows "render_body jt S b1 = render_body jt S b2"
  using assms redact_alike [OF assms(3)] by (simp add: render_body_def)

text \<open>The same for a query, pair by pair, and for the credentials in \<open>Authorization\<close>.\<close>

definition alike_pair :: "str list \<Rightarrow> str \<times> str \<Rightarrow> str \<times> str \<Rightarrow> bool" where
  "alike_pair S p q \<longleftrightarrow>
     fst p = fst q \<and> (snd p = snd q \<or> fst p \<in> set S \<and> alike_text (snd p) (snd q))"

lemma quote_elided_alike: "alike_text s t \<Longrightarrow> quote_elided s = quote_elided t"
  by (auto simp: alike_text_def quote_elided_def PREFIX_LENGTH_def MIN_REDACTED_LENGTH_def split: if_splits)

lemma render_query_alike:
  assumes "list_all2 (alike_pair S) (tl_parse_qsl jt q1) (tl_parse_qsl jt q2)" "q1 \<noteq> []" "q2 \<noteq> []"
  shows "render_query jt S q1 = render_query jt S q2"
proof -
  let ?f = "\<lambda>(k, v). quote_plus k @ ''='' @ (if k \<in> set S then quote_elided v else quote_plus v)"
  have "map ?f (tl_parse_qsl jt q1) = map ?f (tl_parse_qsl jt q2)"
    using assms(1) by (induction rule: list_all2_induct)
      (auto simp: alike_pair_def quote_elided_alike split: prod.splits)
  then show ?thesis using assms by (simp add: render_query_def)
qed

definition query_alike :: "trace_lib \<Rightarrow> str list \<Rightarrow> bytes \<Rightarrow> bytes \<Rightarrow> bool" where
  "query_alike jt S q1 q2 \<longleftrightarrow>
     q1 = q2 \<or> q1 \<noteq> [] \<and> q2 \<noteq> [] \<and> list_all2 (alike_pair S) (tl_parse_qsl jt q1) (tl_parse_qsl jt q2)"

definition body_alike :: "trace_lib \<Rightarrow> str list \<Rightarrow> bytes \<Rightarrow> bytes \<Rightarrow> bool" where
  "body_alike jt S b1 b2 \<longleftrightarrow>
     b1 = b2 \<or> b1 \<noteq> [] \<and> b2 \<noteq> [] \<and> (\<exists>v1 v2. json_loads (tl_json jt) b1 = Some v1 \<and>
       json_loads (tl_json jt) b2 = Some v2 \<and> alike S v1 v2)"

definition auth_alike :: "str option \<Rightarrow> str option \<Rightarrow> bool" where
  "auth_alike h1 h2 \<longleftrightarrow>
     h1 = h2 \<or> (\<exists>scheme r1 r2. h1 = Some (scheme @ CHR '' '' # r1) \<and> h2 = Some (scheme @ CHR '' '' # r2) \<and>
       CHR '' '' \<notin> set scheme \<and> r1 \<noteq> [] \<and> r2 \<noteq> [] \<and> take PREFIX_LENGTH r1 = take PREFIX_LENGTH r2)"

lemma partition_at: "c \<notin> set h \<Longrightarrow> partition c (h @ c # r) = (h, True, r)"
  by (induction h) (auto simp: partition_def Let_def split: list.splits)

lemma render_authorization_alike: "auth_alike h1 h2 \<Longrightarrow> render_authorization h1 = render_authorization h2"
  by (auto simp: auth_alike_def render_authorization_def partition_at)

text \<open>
  C37: The trace log cannot tell two credentials apart beyond their first eight characters and their
  length. Take two requests with the same method and path whose JSON bodies and answers differ, at any
  depth, only in texts directly under a secret name for that path, whose queries differ only in values
  of secret names, and whose \<open>Authorization\<close> headers share the scheme and the first eight characters
  after it, where each pair of differing texts is either of one length with the same first eight
  characters or no longer than sixteen: the lines written for the two are the same.
\<close>
theorem log_hides_secrets:
  assumes "sc_type sc2 = sc_type sc1" "sc_method sc2 = sc_method sc1" "sc_path sc2 = sc_path sc1"
    and "query_alike jt (secrets_for (sc_path sc1)) (sc_query sc1) (sc_query sc2)"
    and "auth_alike (trace_header sc1 ''authorization'') (trace_header sc2 ''authorization'')"
    and "inner1 sc1 ins1 = Some t1" "inner2 sc2 ins2 = Some t2"
    and "final_status (tr_sent t1) = final_status (tr_sent t2)"
    and "body_alike jt (secrets_for (sc_path sc1)) (concat (map in_body (tr_taken t1))) (concat (map in_body (tr_taken t2)))"
    and "body_alike jt (secrets_for (sc_path sc1)) (concat (map out_body (tr_sent t1))) (concat (map out_body (tr_sent t2)))"
  shows "map_option snd (trace_call jt debug inner1 sc1 ins1) = map_option snd (trace_call jt debug inner2 sc2 ins2)"
proof -
  have body: "render_body jt S b1 = render_body jt S b2" if "body_alike jt S b1 b2" for S b1 b2
    using that render_body_alike by (auto simp: body_alike_def)
  have query: "render_query jt S q1 = render_query jt S q2" if "query_alike jt S q1 q2" for S q1 q2
    using that render_query_alike by (auto simp: query_alike_def)
  show ?thesis
    unfolding trace_call_def log_line_def Let_def assms(1-3) assms(6,7) option.map assms(8)
      render_authorization_alike [OF assms(5)] query [OF assms(4)] body [OF assms(9)] body [OF assms(10)]
    by simp
qed

text \<open>
  The list of names is what the redaction rests on: a session token the sign-in answer carries under
  \<open>customSessionToken\<close> is written whole, and so is a header without a space.
\<close>
lemma custom_session_token_in_clear:
  "redact (secrets_for ''/v1/account/login'') (JObj [(''customSessionToken'', JStr token)]) =
     JObj [(''customSessionToken'', JStr token)]"
  by (simp add: secrets_for_def PATH_SECRET_KEYS_def SECRET_KEYS_def)

lemma unspaced_header_in_clear: "h \<noteq> [] \<Longrightarrow> CHR '' '' \<notin> set h \<Longrightarrow> render_authorization (Some h) = h"
proof -
  assume h: "h \<noteq> []" "CHR '' '' \<notin> set h"
  then have "dropWhile (\<lambda>x. x \<noteq> CHR '' '') h = []" by (auto simp: dropWhile_eq_Nil_conv)
  then have "partition CHR '' '' h = (h, False, [])" unfolding partition_def by (simp only: Let_def list.case)
  then show ?thesis using h by (simp add: render_authorization_def)
qed

definition sample_login :: "str \<Rightarrow> json" where
  "sample_login pw = JObj [(''email'', JStr ''a@b.c''), (''authPW'', JStr pw)]"

definition sample_trace_lib :: trace_lib where
  "sample_trace_lib = \<lparr>tl_json = \<lparr>json_loads = \<lambda>b. Some (sample_login (map char_of b)), float_repr = \<lambda>_. [],
     container_repr = \<lambda>_. []\<rparr>, tl_parse_qsl = \<lambda>_. []\<rparr>"

definition sample_scope :: "str \<Rightarrow> scope" where
  "sample_scope token = \<lparr>sc_type = ''http'', sc_method = ''POST'', sc_path = ''/v1/account/login'', sc_query = [],
     sc_headers = [(''authorization'', ''Bearer '' @ token)]\<rparr>"

definition sample_echo :: "scope \<Rightarrow> app" where
  "sample_echo sc = Receive (\<lambda>m. Send (ResponseStart 200 []) (Send (ResponseBody (in_body m)) Return))"

lemma log_hides_secrets_witness:
  "map_option snd (trace_call sample_trace_lib True (served_by sample_echo) (sample_scope ''abcdefgh1'')
       (\<lambda>_. HttpRequest (encode_utf8 ''0123456789abcdefX'') False)) =
   map_option snd (trace_call sample_trace_lib True (served_by sample_echo) (sample_scope ''abcdefghIJKL'')
       (\<lambda>_. HttpRequest (encode_utf8 ''01234567 other...'') False))"
proof -
  let ?S = "secrets_for (sc_path (sample_scope ''abcdefgh1''))"
  let ?a = "encode_utf8 ''0123456789abcdefX''" let ?b = "encode_utf8 ''01234567 other...''"
  have "''authPW'' \<in> set ?S" by (simp add: secrets_for_def SECRET_KEYS_def)
  moreover have "alike_text (map char_of ?a) (map char_of ?b)" by code_simp
  ultimately have "alike ?S (sample_login (map char_of ?a)) (sample_login (map char_of ?b))"
    using alike_secret [of "''authPW''" ?S _ _ "[(''email'', JStr ''a@b.c'')]" "[]"] by (simp add: sample_login_def)
  moreover have "?a \<noteq> []" "?b \<noteq> []" by code_simp+
  ultimately have body: "body_alike sample_trace_lib ?S ?a ?b"
    by (simp add: body_alike_def sample_trace_lib_def)
  have "auth_alike (Some (''Bearer'' @ CHR '' '' # ''abcdefgh1'')) (Some (''Bearer'' @ CHR '' '' # ''abcdefghIJKL''))"
    unfolding auth_alike_def PREFIX_LENGTH_def
    by (intro disjI2 exI [of _ "''Bearer''"] exI [of _ "''abcdefgh1''"] exI [of _ "''abcdefghIJKL''"]) simp
  then have auth: "auth_alike (trace_header (sample_scope ''abcdefgh1'') ''authorization'')
      (trace_header (sample_scope ''abcdefghIJKL'') ''authorization'')"
    by (simp add: trace_header_def sample_scope_def)
  show ?thesis
    by (rule log_hides_secrets [OF _ _ _ _ auth served_by_def served_by_def])
      (use body in \<open>simp_all add: sample_scope_def sample_echo_def query_alike_def final_status_def\<close>)
qed

end
