(* ===== verification/Middleware.thy ===== *)
theory Middleware
  imports Asgi SyncModels Tokenserver
begin

text \<open>
  \<open>middleware.py\<close>: the body limit and the security headers, which run outside the routes. A
  \<open>receive\<close> is the sequence of its messages, so the buffering loop may run for ever on a client that
  goes on sending empty chunks: \<open>buffer\<close> is then \<open>None\<close>.
\<close>

definition DEFAULT_MAX_BODY_BYTES :: int where "DEFAULT_MAX_BODY_BYTES = 64 * 1024"
definition NOSNIFF :: str where "NOSNIFF = ''nosniff''"

definition API_CONTENT_SECURITY_POLICY :: str where
  "API_CONTENT_SECURITY_POLICY = ''default-src '' @ quoted ''none'' @ ''; frame-ancestors '' @ quoted ''none''"

record body_limit =
  bl_storage_prefix :: str
  bl_tokenserver_prefix :: str
  bl_default_limit :: int
  bl_storage_limit :: int

definition limit_for :: "body_limit \<Rightarrow> str \<Rightarrow> int" where
  "limit_for bl path =
     (if startswith path (bl_storage_prefix bl @ ''/'') then bl_storage_limit bl else bl_default_limit bl)"

definition asgi_header :: "scope \<Rightarrow> str \<Rightarrow> str option" where
  "asgi_header sc name = map_of (map (\<lambda>(k, v). (lower k, v)) (sc_headers sc)) name"

definition content_length :: "scope \<Rightarrow> int option" where
  "content_length sc = Option.bind (asgi_header sc ''content-length'') py_int"

definition has_body :: "scope \<Rightarrow> bool" where
  "has_body sc \<longleftrightarrow> asgi_header sc ''transfer-encoding'' \<noteq> None"

text \<open>\<open>_buffer\<close>: the body, whether it went past the limit, and how many messages were taken.\<close>

partial_function (option) buffer_from ::
  "receiver \<Rightarrow> int \<Rightarrow> nat \<Rightarrow> bytes \<Rightarrow> int \<Rightarrow> (bytes \<times> bool \<times> nat) option" where
  "buffer_from ins limit i held seen =
     (case ins i of
        HttpDisconnect \<Rightarrow> Some (held, False, Suc i)
      | HttpRequest chunk more_body \<Rightarrow>
          (if limit < seen + int (length chunk) then Some ([], True, Suc i)
           else if \<not> more_body then Some (held @ chunk, False, Suc i)
           else buffer_from ins limit (Suc i) (held @ chunk) (seen + int (length chunk))))"

definition buffer :: "receiver \<Rightarrow> int \<Rightarrow> (bytes \<times> bool \<times> nat) option" where
  "buffer ins limit = buffer_from ins limit 0 [] 0"

definition replay :: "bytes \<Rightarrow> receiver" where
  "replay body i = (if i = 0 then HttpRequest body False else HttpDisconnect)"

definition envelope :: "body_limit \<Rightarrow> int \<Rightarrow> str \<Rightarrow> int \<times> header_list \<times> str" where
  "envelope bl now path =
     (if startswith path (bl_storage_prefix bl @ ''/'') then
        (err_status request_too_large,
         [(''x-weave-timestamp'', timestamp_header (quantize now))],
         dumps (\<lambda>_. []) True (JInt (err_payload request_too_large)))
      else if startswith path (bl_tokenserver_prefix bl @ ''/'') then
        (413, [], dumps (\<lambda>_. []) True (ts_payload
           \<lparr>te_status = ''error'', te_location = ''body'', te_name = [],
            te_description = ''Request body too large'', te_http_status = 413\<rparr>))
      else
        (fe_code request_body_too_large, [], dumps (\<lambda>_. []) True (fxa_payload request_body_too_large)))"

definition refuse :: "body_limit \<Rightarrow> int \<Rightarrow> str \<Rightarrow> outbound list" where
  "refuse bl now path =
     (let (status, headers, body) = envelope bl now path
      in [ResponseStart status ([(''content-type'', ''application/json''),
            (''content-length'', show_int (int (length (encode_utf8 body))))] @ headers),
          ResponseBody (encode_utf8 body)])"

text \<open>
  What \<open>BodyLimit.__call__\<close> decides before the application starts: refuse, having taken so many
  messages, or start the application on this \<open>receive\<close>, which is the server's or a replay of what
  was buffered.
\<close>

datatype limit_decision = Refuse nat | Start receiver | StartReplay bytes nat

definition limit_decision_of :: "body_limit \<Rightarrow> scope \<Rightarrow> receiver \<Rightarrow> limit_decision option" where
  "limit_decision_of bl sc ins =
     (if sc_type sc \<noteq> ''http'' then Some (Start ins)
      else
        (let limit = limit_for bl (sc_path sc)
         in case content_length sc of
              Some declared \<Rightarrow> Some (if limit < declared then Refuse 0 else Start ins)
            | None \<Rightarrow>
                (if \<not> has_body sc then Some (Start ins)
                 else map_option (\<lambda>(body, oversized, taken). if oversized then Refuse taken else StartReplay body taken)
                   (buffer ins limit))))"

text \<open>The messages below are those taken from the server; a replayed body was taken by the middleware.\<close>

definition body_limit_call :: "body_limit \<Rightarrow> int \<Rightarrow> asgi \<Rightarrow> asgi" where
  "body_limit_call bl now inner sc ins =
     Option.bind (limit_decision_of bl sc ins) (\<lambda>decision.
       (case decision of
          Refuse taken \<Rightarrow>
            Some \<lparr>tr_taken = map ins [0..<taken], tr_sent = refuse bl now (sc_path sc), tr_raised = False\<rparr>
        | Start r \<Rightarrow> inner sc r
        | StartReplay body taken \<Rightarrow>
            map_option (\<lambda>t. t\<lparr>tr_taken := map ins [0..<taken]\<rparr>) (inner sc (replay body))))"

subsection \<open>Security headers\<close>

definition stamp_headers :: "header_list \<Rightarrow> header_list" where
  "stamp_headers hs =
     (let present = map (lower \<circ> fst) hs;
          hs1 = (if ''x-content-type-options'' \<in> set present then hs
                 else hs @ [(''x-content-type-options'', NOSNIFF)])
      in if ''content-security-policy'' \<in> set present then hs1
         else hs1 @ [(''content-security-policy'', API_CONTENT_SECURITY_POLICY)])"

fun stamped :: "outbound \<Rightarrow> outbound" where
  "stamped (ResponseStart status hs) = ResponseStart status (stamp_headers hs)"
| "stamped (ResponseBody b) = ResponseBody b"

definition security_headers :: "asgi \<Rightarrow> asgi" where
  "security_headers inner sc ins =
     (if sc_type sc \<noteq> ''http'' then inner sc ins
      else map_option (\<lambda>t. t\<lparr>tr_sent := map stamped (tr_sent t)\<rparr>) (inner sc ins))"

end
