(* ===== verification/MiddlewareProps.thy ===== *)
theory MiddlewareProps
  imports Middleware
begin

text \<open>What the body limit and the security headers guarantee.\<close>

subsection \<open>The buffering loop\<close>

definition last_message :: "inbound \<Rightarrow> bool" where
  "last_message m \<longleftrightarrow> (case m of HttpDisconnect \<Rightarrow> True | HttpRequest b more_body \<Rightarrow> \<not> more_body)"

definition body_between :: "receiver \<Rightarrow> nat \<Rightarrow> nat \<Rightarrow> bytes" where
  "body_between ins i j = concat (map (\<lambda>k. in_body (ins k)) [i..<j])"

lemma body_between_empty [simp]: "body_between ins i i = []"
  by (simp add: body_between_def)

lemma body_between_Suc: "i \<le> j \<Longrightarrow> body_between ins i (Suc j) = body_between ins i j @ in_body (ins j)"
  by (simp add: body_between_def)

lemma body_between_first: "i < j \<Longrightarrow> body_between ins i j = in_body (ins i) @ body_between ins (Suc i) j"
  by (simp add: body_between_def upt_rec)

text \<open>One round of the loop, by the message it meets.\<close>

lemma buffer_round:
  "seen \<le> limit \<Longrightarrow>
   buffer_from ins limit i held seen =
     (let seen' = seen + int (length (in_body (ins i)))
      in if limit < seen' then Some ([], True, Suc i)
         else if last_message (ins i) then Some (held @ in_body (ins i), False, Suc i)
         else buffer_from ins limit (Suc i) (held @ in_body (ins i)) seen')"
  by (subst buffer_from.simps) (auto simp: last_message_def Let_def split: inbound.split)

text \<open>The loop has an answer as soon as a message is the last one or the body is past the limit.\<close>

lemma buffer_within:
  assumes "i \<le> n" "\<forall>j. i \<le> j \<and> j < n \<longrightarrow> \<not> last_message (ins j)" "last_message (ins n)"
    "seen + int (length (body_between ins i (Suc n))) \<le> limit"
  shows "buffer_from ins limit i held seen = Some (held @ body_between ins i (Suc n), False, Suc n)"
  using assms
proof (induction "n - i" arbitrary: i held seen)
  case 0
  then have "n = i" by simp
  then show ?case using 0 by (subst buffer_round) (auto simp: Let_def body_between_Suc)
next
  case (Suc d)
  have split: "body_between ins i (Suc n) = in_body (ins i) @ body_between ins (Suc i) (Suc n)"
    using Suc.prems(1) by (intro body_between_first) simp
  have i: "Suc i \<le> n" "\<not> last_message (ins i)" using Suc by auto
  have "buffer_from ins limit (Suc i) (held @ in_body (ins i)) (seen + int (length (in_body (ins i)))) =
      Some ((held @ in_body (ins i)) @ body_between ins (Suc i) (Suc n), False, Suc n)"
    using Suc i split by (intro Suc(1)) auto
  then show ?case using i Suc.prems(4) split by (subst buffer_round) (auto simp: Let_def)
qed

lemma buffer_over:
  assumes "i \<le> n" "\<forall>j. i \<le> j \<and> j < n \<longrightarrow> \<not> last_message (ins j)"
    "seen \<le> limit" "limit < seen + int (length (body_between ins i (Suc n)))"
  shows "\<exists>k. i < k \<and> k \<le> Suc n \<and> buffer_from ins limit i held seen = Some ([], True, k)"
  using assms
proof (induction "n - i" arbitrary: i held seen)
  case 0
  then have "n = i" by simp
  then show ?case using 0 by (subst buffer_round) (auto simp: Let_def body_between_Suc)
next
  case (Suc d)
  let ?t = "seen + int (length (in_body (ins i)))"
  have split: "body_between ins i (Suc n) = in_body (ins i) @ body_between ins (Suc i) (Suc n)"
    using Suc.prems(1) by (intro body_between_first) simp
  have i: "Suc i \<le> n" "\<not> last_message (ins i)" using Suc by auto
  show ?case
  proof (cases "limit < ?t")
    case True
    then show ?thesis using Suc.prems by (subst buffer_round) (auto simp: Let_def)
  next
    case False
    then have "\<exists>k. Suc i < k \<and> k \<le> Suc n \<and>
        buffer_from ins limit (Suc i) (held @ in_body (ins i)) ?t = Some ([], True, k)"
      using Suc i split by (intro Suc(1)) auto
    then show ?thesis using i False Suc.prems(3) by (subst buffer_round) (auto simp: Let_def)
  qed
qed

definition decides_at :: "receiver \<Rightarrow> int \<Rightarrow> nat \<Rightarrow> int \<Rightarrow> nat \<Rightarrow> bool" where
  "decides_at ins limit i seen n \<longleftrightarrow>
     last_message (ins n) \<or> limit < seen + int (length (body_between ins i (Suc n)))"

lemma decides_later:
  assumes "decides_at ins limit (Suc i) (seen + int (length (in_body (ins i)))) n" "Suc i \<le> n"
  shows "decides_at ins limit i seen n"
  using assms body_between_first [of i "Suc n" ins] by (simp add: decides_at_def add.assoc)

lemma buffer_answers_only_at:
  assumes "buffer_from ins limit i held seen = Some r"
  shows "\<exists>n \<ge> i. decides_at ins limit i seen n"
proof (rule buffer_from.raw_induct [of "\<lambda>ins limit i held seen r. \<exists>n \<ge> i. decides_at ins limit i seen n", OF _ assms])
  fix f :: "receiver \<Rightarrow> int \<Rightarrow> nat \<Rightarrow> bytes \<Rightarrow> int \<Rightarrow> (bytes \<times> bool \<times> nat) option"
  fix ins limit i held seen r
  assume step: "\<And>ins limit i held seen r. f ins limit i held seen = Some r \<Longrightarrow> \<exists>n\<ge>i. decides_at ins limit i seen n"
  assume body: "(case ins i of
      HttpRequest chunk more_body \<Rightarrow>
        if limit < seen + int (length chunk) then Some ([], True, Suc i)
        else if \<not> more_body then Some (held @ chunk, False, Suc i)
        else f ins limit (Suc i) (held @ chunk) (seen + int (length chunk))
    | HttpDisconnect \<Rightarrow> Some (held, False, Suc i)) = Some r"
  show "\<exists>n\<ge>i. decides_at ins limit i seen n"
  proof (cases "decides_at ins limit i seen i")
    case True
    then show ?thesis by blast
  next
    case False
    then obtain chunk where "ins i = HttpRequest chunk True" "\<not> limit < seen + int (length chunk)"
      by (auto simp: decides_at_def last_message_def body_between_Suc split: inbound.splits)
    then have "f ins limit (Suc i) (held @ chunk) (seen + int (length (in_body (ins i)))) = Some r" using body by simp
    then obtain n where n: "n \<ge> Suc i" "decides_at ins limit (Suc i) (seen + int (length (in_body (ins i)))) n"
      using step by blast
    then show ?thesis using decides_later [OF n(2,1)] by (intro exI [of _ n]) simp
  qed
qed

lemma buffer_answers:
  assumes "seen \<le> limit" "\<exists>n \<ge> i. decides_at ins limit i seen n"
  shows "\<exists>r. buffer_from ins limit i held seen = Some r"
proof -
  define n where "n = (LEAST n. i \<le> n \<and> decides_at ins limit i seen n)"
  have n: "i \<le> n" "decides_at ins limit i seen n"
    using assms(2) LeastI [of "\<lambda>n. i \<le> n \<and> decides_at ins limit i seen n"] unfolding n_def by blast+
  have "\<not> decides_at ins limit i seen j" if "i \<le> j" "j < n" for j
    using that not_less_Least [of j "\<lambda>n. i \<le> n \<and> decides_at ins limit i seen n"] unfolding n_def by blast
  then have more: "\<forall>j. i \<le> j \<and> j < n \<longrightarrow> \<not> last_message (ins j)" by (simp add: decides_at_def)
  show ?thesis
  proof (cases "limit < seen + int (length (body_between ins i (Suc n)))")
    case True
    then show ?thesis using buffer_over [OF n(1) more assms(1)] by blast
  next
    case False
    then show ?thesis using n buffer_within [OF n(1) more] by (auto simp: decides_at_def)
  qed
qed

subsection \<open>The body limit\<close>

text \<open>
  C38: The body limit never hangs on its own account. The call decides (refuses, or starts the
  application) for everything but a chunked request, and for a chunked request exactly if some message
  is the last of the body, or the body received up to some message is past the limit of the path; a
  client that sends empty chunks for ever is the only one it waits for.
\<close>
theorem body_limit_terminates:
  assumes "0 \<le> limit_for bl (sc_path sc)"
  shows "limit_decision_of bl sc ins \<noteq> None \<longleftrightarrow>
    sc_type sc \<noteq> ''http'' \<or> content_length sc \<noteq> None \<or> \<not> has_body sc \<or>
    (\<exists>n. last_message (ins n) \<or> limit_for bl (sc_path sc) < int (length (body_between ins 0 (Suc n))))"
proof -
  have "(\<exists>r. buffer ins (limit_for bl (sc_path sc)) = Some r) \<longleftrightarrow>
      (\<exists>n. decides_at ins (limit_for bl (sc_path sc)) 0 0 n)"
    unfolding buffer_def using buffer_answers [OF assms, of 0 ins "[]"]
      buffer_answers_only_at [of ins "limit_for bl (sc_path sc)" 0 "[]" 0] by auto
  then show ?thesis
    by (auto simp: limit_decision_of_def Let_def decides_at_def split: option.splits)
qed

text \<open>
  What the server below the middleware is relied on for (h11, of HTTP/1.1): no more body than a
  declared length; and for a request with neither a transfer encoding nor a length the middleware can
  read, be it absent or malformed, none at all.
\<close>

definition server_delivers :: "scope \<Rightarrow> receiver \<Rightarrow> bool" where
  "server_delivers sc ins \<longleftrightarrow>
     (\<forall>n. case content_length sc of
        Some declared \<Rightarrow> int (length (body_between ins 0 n)) \<le> max 0 declared
      | None \<Rightarrow> has_body sc \<or> body_between ins 0 n = [])"

fun application_receives :: "limit_decision \<Rightarrow> receiver option" where
  "application_receives (Refuse taken) = None"
| "application_receives (Start r) = Some r"
| "application_receives (StartReplay body taken) = Some (replay body)"

lemma taken_body: "concat (map in_body (tr_taken (run_app a r 0))) = body_between r 0 (length (tr_taken (run_app a r 0)))"
  unfolding body_between_def by (subst taken_in_order) (simp add: comp_def)

lemma replay_body: "body_between (replay body) 0 n = (if n = 0 then [] else body)"
proof (induction n)
  case (Suc n)
  then show ?case by (cases n) (simp_all add: body_between_Suc replay_def)
qed simp

lemma buffer_fits:
  assumes "0 \<le> limit" "buffer ins limit = Some (body, oversized, taken)"
  shows "int (length body) \<le> limit"
proof -
  obtain n where n: "decides_at ins limit 0 0 n" "\<And>j. j < n \<Longrightarrow> \<not> decides_at ins limit 0 0 j"
    using buffer_answers_only_at [OF assms(2) [unfolded buffer_def]] exists_least_iff [of "decides_at ins limit 0 0"]
    by blast
  have more: "\<forall>j. 0 \<le> j \<and> j < n \<longrightarrow> \<not> last_message (ins j)" using n(2) by (simp add: decides_at_def)
  show ?thesis
  proof (cases "limit < int (length (body_between ins 0 (Suc n)))")
    case True
    then show ?thesis using buffer_over [OF _ more, of 0 limit "[]"] assms by (auto simp: buffer_def)
  next
    case False
    then show ?thesis
      using buffer_within [OF _ more, of 0 limit "[]"] n(1) assms by (auto simp: buffer_def decides_at_def)
  qed
qed

text \<open>
  C39: No application is ever handed more body than its tier allows, as far as the middleware can
  see to it. Whatever it decides for an HTTP request, if it starts the application, the messages the
  application takes, however many it asks for, carry at most the limit of the path: for a chunked
  request whatever arrives; for a request with a length the middleware reads, if the server delivers no
  more than that length (nothing for a negative one). A request with neither a transfer encoding
  nor a length it reads is not counted: this is a request without \<open>Content-Length\<close>, and one whose
  \<open>Content-Length\<close> is malformed; there the application gets the server's messages as they are, and the
  limit holds only because the server delivers no body for such a request, or refuses it.
\<close>
theorem application_reads_within_limit:
  assumes "sc_type sc = ''http''" "0 \<le> limit_for bl (sc_path sc)"
    and "limit_decision_of bl sc ins = Some d" "application_receives d = Some r"
  shows "(case content_length sc of
      Some declared \<Rightarrow> declared \<le> limit_for bl (sc_path sc) \<and> r = ins
    | None \<Rightarrow> if has_body sc
        then int (length (concat (map in_body (tr_taken (run_app a r 0))))) \<le> limit_for bl (sc_path sc)
        else r = ins) \<and>
    (server_delivers sc ins \<longrightarrow>
      int (length (concat (map in_body (tr_taken (run_app a r 0))))) \<le> limit_for bl (sc_path sc))"
proof (cases "has_body sc \<and> content_length sc = None")
  case True
  then obtain body taken where d: "d = StartReplay body taken"
      "buffer ins (limit_for bl (sc_path sc)) = Some (body, False, taken)"
    using assms by (auto simp: limit_decision_of_def Let_def split: if_splits)
  then have "int (length (concat (map in_body (tr_taken (run_app a r 0))))) \<le> limit_for bl (sc_path sc)"
    using buffer_fits [OF assms(2) d(2)] assms(2,4) unfolding taken_body by (auto simp: replay_body)
  with True show ?thesis by simp
next
  case False
  then have r: "r = ins" using assms by (auto simp: limit_decision_of_def Let_def split: option.splits if_splits)
  have within: "declared \<le> limit_for bl (sc_path sc)" if "content_length sc = Some declared" for declared
    using that assms by (auto simp: limit_decision_of_def Let_def split: if_splits)
  have "int (length (body_between ins 0 n)) \<le> limit_for bl (sc_path sc)" if "server_delivers sc ins" for n
  proof (cases "content_length sc")
    case None
    then show ?thesis using False that assms(2) by (auto simp: server_delivers_def dest: spec [of _ n])
  next
    case (Some declared)
    moreover have "int (length (body_between ins 0 n)) \<le> max 0 declared"
      using that Some by (simp add: server_delivers_def)
    ultimately show ?thesis using within assms(2) by fastforce
  qed
  then have "server_delivers sc ins \<longrightarrow>
      int (length (concat (map in_body (tr_taken (run_app a r 0))))) \<le> limit_for bl (sc_path sc)"
    unfolding taken_body r by blast
  with False r within show ?thesis by (auto split: option.split)
qed

text \<open>
  A chunked body is judged by its whole length and, if it fits, arrives whole. For a request
  without a length and with a transfer encoding whose body ends with its message \<open>n\<close> (the final chunk,
  or the client going away): if all that arrived is within the limit of the path, the application is
  started on exactly that body, and otherwise the request is refused, after at most those messages.
\<close>
theorem chunked_body_arrives_whole:
  assumes "sc_type sc = ''http''" "content_length sc = None" "has_body sc" "0 \<le> limit_for bl (sc_path sc)"
    and "last_message (ins n)" "\<forall>j < n. \<not> last_message (ins j)"
  shows "if int (length (body_between ins 0 (Suc n))) \<le> limit_for bl (sc_path sc)
    then limit_decision_of bl sc ins = Some (StartReplay (body_between ins 0 (Suc n)) (Suc n))
    else \<exists>k. 0 < k \<and> k \<le> Suc n \<and> limit_decision_of bl sc ins = Some (Refuse k)"
proof -
  have more: "\<forall>j. 0 \<le> j \<and> j < n \<longrightarrow> \<not> last_message (ins j)" using assms(6) by blast
  have decision: "limit_decision_of bl sc ins =
      map_option (\<lambda>(body, oversized, taken). if oversized then Refuse taken else StartReplay body taken)
        (buffer_from ins (limit_for bl (sc_path sc)) 0 [] 0)"
    using assms(1-3) by (simp add: limit_decision_of_def Let_def buffer_def)
  show ?thesis
  proof (cases "int (length (body_between ins 0 (Suc n))) \<le> limit_for bl (sc_path sc)")
    case True
    then show ?thesis using buffer_within [OF _ more assms(5), of 0 "limit_for bl (sc_path sc)" "[]"] decision by simp
  next
    case False
    then obtain k where "0 < k" "k \<le> Suc n" "buffer_from ins (limit_for bl (sc_path sc)) 0 [] 0 = Some ([], True, k)"
      using buffer_over [OF _ more, of 0 "limit_for bl (sc_path sc)" "[]"] assms(4) by auto
    then show ?thesis using False decision by auto
  qed
qed

subsection \<open>The security headers\<close>

text \<open>
  Every HTTP answer leaves with both protections, and none is overwritten. In whatever an
  application (or the body limit, refusing for it) sends, each response start comes out with a
  \<open>X-Content-Type-Options\<close> and a \<open>Content-Security-Policy\<close> header; it is the start the application sent,
  same status, its headers first and in order, followed only by one of the two defaults for a name
  that was not there in any case; and the bodies are untouched.
\<close>
theorem answers_are_stamped:
  assumes "sc_type sc = ''http''" "security_headers inner sc ins = Some t"
  shows "\<exists>t'. inner sc ins = Some t' \<and> length (tr_sent t) = length (tr_sent t') \<and>
    (\<forall>(m, m') \<in> set (zip (tr_sent t) (tr_sent t')).
       (case m' of
          ResponseBody b \<Rightarrow> m = ResponseBody b
        | ResponseStart st hs \<Rightarrow>
            (\<exists>extra. m = ResponseStart st (hs @ extra) \<and>
              {''x-content-type-options'', ''content-security-policy''} \<subseteq> (lower \<circ> fst) ` set (hs @ extra) \<and>
              set extra \<subseteq> {(''x-content-type-options'', NOSNIFF),
                (''content-security-policy'', API_CONTENT_SECURITY_POLICY)} \<and>
              (\<forall>h \<in> set extra. fst h \<notin> (lower \<circ> fst) ` set hs))))"
proof -
  obtain t' where t': "inner sc ins = Some t'" "tr_sent t = map stamped (tr_sent t')"
    using assms by (auto simp: security_headers_def)
  have names: "lower ''x-content-type-options'' = ''x-content-type-options''"
    "lower ''content-security-policy'' = ''content-security-policy''" by code_simp+
  have start: "\<exists>extra. stamp_headers hs = hs @ extra \<and>
      {''x-content-type-options'', ''content-security-policy''} \<subseteq> (lower \<circ> fst) ` set (hs @ extra) \<and>
      set extra \<subseteq> {(''x-content-type-options'', NOSNIFF),
        (''content-security-policy'', API_CONTENT_SECURITY_POLICY)} \<and>
      (\<forall>h \<in> set extra. fst h \<notin> (lower \<circ> fst) ` set hs)" for hs
    by (auto simp: stamp_headers_def Let_def names image_Un)
  have "case m' of ResponseBody b \<Rightarrow> stamped m' = ResponseBody b
    | ResponseStart st hs \<Rightarrow> (\<exists>extra. stamped m' = ResponseStart st (hs @ extra) \<and>
        {''x-content-type-options'', ''content-security-policy''} \<subseteq> (lower \<circ> fst) ` set (hs @ extra) \<and>
        set extra \<subseteq> {(''x-content-type-options'', NOSNIFF),
          (''content-security-policy'', API_CONTENT_SECURITY_POLICY)} \<and>
        (\<forall>h \<in> set extra. fst h \<notin> (lower \<circ> fst) ` set hs))" for m'
    using start by (cases m') auto
  moreover have "m = stamped m'" if "(m, m') \<in> set (zip (tr_sent t) (tr_sent t'))" for m m'
    using that by (auto simp: t'(2) in_set_zip)
  ultimately show ?thesis using t' by (intro exI [of _ t']) auto
qed

subsection \<open>Concrete requests\<close>

definition sample_limit :: body_limit where
  "sample_limit = \<lparr>bl_storage_prefix = ''/storage'', bl_tokenserver_prefix = ''/token'', bl_default_limit = 4,
     bl_storage_limit = 8\<rparr>"

definition chunked_scope :: "str \<Rightarrow> scope" where
  "chunked_scope path = \<lparr>sc_type = ''http'', sc_method = ''POST'', sc_path = path, sc_query = [],
     sc_headers = [(''Transfer-Encoding'', ''chunked'')]\<rparr>"

definition sample_chunks :: receiver where
  "sample_chunks i = (if i = 0 then HttpRequest [7, 2, 3] True else HttpRequest [4, 5] False)"

lemma chunked_scope_facts [simp]:
  "sc_type (chunked_scope path) = ''http''" "sc_path (chunked_scope path) = path"
  "content_length (chunked_scope path) = None" "has_body (chunked_scope path)"
proof -
  have "lower ''Transfer-Encoding'' = ''transfer-encoding''" by code_simp
  then show "sc_type (chunked_scope path) = ''http''" "sc_path (chunked_scope path) = path"
    "content_length (chunked_scope path) = None" "has_body (chunked_scope path)"
    by (simp_all add: chunked_scope_def content_length_def has_body_def asgi_header_def)
qed

lemma sample_limit_facts [simp]:
  "limit_for sample_limit ''/v1/x'' = 4" "limit_for sample_limit ''/storage/1.5/1'' = 8"
  by (simp_all add: limit_for_def sample_limit_def)

lemma sample_chunks_facts [simp]:
  "last_message (sample_chunks (Suc 0))" "\<not> last_message (sample_chunks 0)"
  "body_between sample_chunks 0 (Suc (Suc 0)) = [7, 2, 3, 4, 5]"
  by (simp_all add: last_message_def sample_chunks_def body_between_def)

lemma body_limit_terminates_witness:
  "limit_decision_of sample_limit (chunked_scope ''/v1/x'') sample_chunks \<noteq> None \<and>
   limit_decision_of sample_limit (chunked_scope ''/v1/x'') (\<lambda>_. HttpRequest [] True) = None"
  using body_limit_terminates [of sample_limit "chunked_scope ''/v1/x''" sample_chunks]
    body_limit_terminates [of sample_limit "chunked_scope ''/v1/x''" "\<lambda>_. HttpRequest [] True"]
    sample_chunks_facts(1)
  by (auto simp: last_message_def body_between_def map_replicate_const concat_replicate_trivial)

lemma chunked_body_arrives_whole_witness:
  "limit_decision_of sample_limit (chunked_scope ''/storage/1.5/1'') sample_chunks =
     Some (StartReplay [7, 2, 3, 4, 5] 2) \<and>
   (\<exists>k. limit_decision_of sample_limit (chunked_scope ''/v1/x'') sample_chunks = Some (Refuse k))"
  using chunked_body_arrives_whole [of "chunked_scope ''/storage/1.5/1''" sample_limit sample_chunks "Suc 0"]
    chunked_body_arrives_whole [of "chunked_scope ''/v1/x''" sample_limit sample_chunks "Suc 0"]
  by (auto simp: numeral_2_eq_2)

lemma application_reads_within_limit_witness:
  "int (length (concat (map in_body (tr_taken (run_app (Receive (\<lambda>m. Receive (\<lambda>m. Return)))
     (replay [7, 2, 3, 4, 5]) 0))))) \<le> 8"
proof -
  have "limit_decision_of sample_limit (chunked_scope ''/storage/1.5/1'') sample_chunks =
      Some (StartReplay [7, 2, 3, 4, 5] (Suc (Suc 0)))"
    using buffer_within [of 0 "Suc 0" sample_chunks 0 8 "[]"]
    by (simp add: limit_decision_of_def Let_def buffer_def)
  moreover have "server_delivers (chunked_scope ''/storage/1.5/1'') sample_chunks"
    by (simp add: server_delivers_def)
  ultimately show ?thesis
    using application_reads_within_limit [of "chunked_scope ''/storage/1.5/1''" sample_limit sample_chunks
        "StartReplay [7, 2, 3, 4, 5] (Suc (Suc 0))" "replay [7, 2, 3, 4, 5]" "Receive (\<lambda>m. Receive (\<lambda>m. Return))"]
    by simp
qed

lemma answers_are_stamped_witness:
  "\<exists>t. security_headers (body_limit_call sample_limit 0 (served_by (\<lambda>_. Return)))
      (chunked_scope ''/token/1.0'') (\<lambda>_. HttpRequest [7, 2, 3, 4, 5] False) = Some t \<and>
    tr_sent t \<noteq> [] \<and>
    (\<exists>st hs. hd (tr_sent t) = ResponseStart st hs \<and> ''content-security-policy'' \<in> (lower \<circ> fst) ` set hs)"
proof -
  let ?inner = "body_limit_call sample_limit 0 (served_by (\<lambda>_. Return))"
  let ?sc = "chunked_scope ''/token/1.0''" let ?ins = "\<lambda>_. HttpRequest [7, 2, 3, 4, 5] False :: inbound"
  have "buffer_from ?ins 4 0 [] 0 = Some ([], True, Suc 0)"
    by (subst buffer_round) (simp_all add: Let_def)
  then have buffered: "buffer ?ins 4 = Some ([], True, 1)" by (simp add: buffer_def)
  have limit: "limit_for sample_limit ''/token/1.0'' = 4" by (simp add: limit_for_def sample_limit_def)
  have decision: "limit_decision_of sample_limit ?sc ?ins = Some (Refuse 1)"
    by (simp add: limit_decision_of_def buffered limit)
  then obtain t where t: "security_headers ?inner ?sc ?ins = Some t"
    by (simp add: security_headers_def body_limit_call_def)
  obtain t' where t': "?inner ?sc ?ins = Some t'" "length (tr_sent t) = length (tr_sent t')"
    "\<forall>(m, m') \<in> set (zip (tr_sent t) (tr_sent t')).
       (case m' of
          ResponseBody b \<Rightarrow> m = ResponseBody b
        | ResponseStart st hs \<Rightarrow>
            (\<exists>extra. m = ResponseStart st (hs @ extra) \<and>
              {''x-content-type-options'', ''content-security-policy''} \<subseteq> (lower \<circ> fst) ` set (hs @ extra) \<and>
              set extra \<subseteq> {(''x-content-type-options'', NOSNIFF),
                (''content-security-policy'', API_CONTENT_SECURITY_POLICY)} \<and>
              (\<forall>h \<in> set extra. fst h \<notin> (lower \<circ> fst) ` set hs)))"
    using answers_are_stamped [OF chunked_scope_facts(1) t] by blast
  obtain st hs b where sent: "tr_sent t' = [ResponseStart st hs, ResponseBody b]"
    using t'(1) decision by (auto simp: body_limit_call_def refuse_def split: prod.splits)
  then obtain m ms where m: "tr_sent t = m # ms" using t'(2) by (cases "tr_sent t") auto
  then have "(m, ResponseStart st hs) \<in> set (zip (tr_sent t) (tr_sent t'))" using sent by simp
  from bspec [OF t'(3) this] obtain extra where
    "m = ResponseStart st (hs @ extra)" "''content-security-policy'' \<in> (lower \<circ> fst) ` set (hs @ extra)"
    by (simp only: case_prod_conv outbound.case) blast
  then show ?thesis using t m by (intro exI [of _ t]) simp
qed

end
