(* ===== verification/Content.thy ===== *)
theory Content
  imports Asgi
begin

text \<open>
  \<open>content/__init__.py\<close>: the one document every navigable route answers with, and its assets. The
  bytes of a file are an argument; a response here carries its body beside the status and headers.
\<close>

definition PAGE_PATHS :: "str list" where
  "PAGE_PATHS =
     [''/'', ''/signin'', ''/oauth/signin'', ''/oauth/force_auth'', ''/authorization'', ''/pair'', ''/pair/supp'',
      ''/connect_another_device'', ''/settings'']"

definition ASSET_CONTENT_SECURITY_POLICY :: str where
  "ASSET_CONTENT_SECURITY_POLICY = ''default-src '' @ quoted ''none'' @ ''; frame-ancestors '' @ quoted ''none''"

definition CONTENT_SECURITY_POLICY :: str where
  "CONTENT_SECURITY_POLICY =
     ''default-src '' @ quoted ''none'' @ ''; script-src '' @ quoted ''self'' @ ''; style-src '' @ quoted ''self'' @
     ''; connect-src '' @ quoted ''self'' @ ''; img-src '' @ quoted ''self'' @ '' data:; form-action '' @ quoted ''none'' @
     ''; base-uri '' @ quoted ''none'' @ ''; frame-ancestors '' @ quoted ''none''"

definition MEDIA_TYPES :: "(str \<times> str) list" where
  "MEDIA_TYPES =
     [(''.html'', ''text/html; charset=utf-8''), (''.css'', ''text/css; charset=utf-8''),
      (''.js'', ''text/javascript; charset=utf-8''), (''.svg'', ''image/svg+xml'')]"

record asset =
  as_body :: bytes
  as_media_type :: str
  as_etag :: str

text \<open>\<open>Asset(path)\<close> from the file's bytes and suffix; an unlisted suffix is a \<open>KeyError\<close> at import.\<close>

definition load_asset :: "bytes \<Rightarrow> str \<Rightarrow> asset option" where
  "load_asset body suffix =
     map_option (\<lambda>media_type. \<lparr>as_body = body, as_media_type = media_type,
       as_etag = CHR 34 # take 32 (hex_of (sha256 body)) @ [CHR 34]\<rparr>) (map_of MEDIA_TYPES suffix)"

definition STATIC_NAMES :: "(str \<times> str) list" where
  "STATIC_NAMES =
     [(''app.js'', ''.js''), (''api.js'', ''.js''), (''crypto.js'', ''.js''), (''webchannel.js'', ''.js''),
      (''style.css'', ''.css''), (''icon.svg'', ''.svg'')]"

definition STATIC :: "(str \<Rightarrow> bytes) \<Rightarrow> (str \<times> asset) list" where
  "STATIC files =
     concat (map (\<lambda>(name, suffix). case load_asset (files name) suffix of None \<Rightarrow> [] | Some a \<Rightarrow> [(name, a)]) STATIC_NAMES)"

record web_response =
  wr_status :: int
  wr_headers :: "(str \<times> str) list"
  wr_body :: bytes

definition shell_response :: "asset \<Rightarrow> web_response" where
  "shell_response shell =
     \<lparr>wr_status = 200,
      wr_headers = [(''Content-Security-Policy'', CONTENT_SECURITY_POLICY), (''Referrer-Policy'', ''no-referrer''),
        (''X-Frame-Options'', ''DENY''), (''X-Content-Type-Options'', ''nosniff''), (''Cache-Control'', ''no-store''),
        (''content-type'', as_media_type shell)],
      wr_body = as_body shell\<rparr>"

definition settings_subpage :: "asset \<Rightarrow> str \<Rightarrow> web_response" where
  "settings_subpage shell subpath = shell_response shell"

definition oauth_success :: "asset \<Rightarrow> str \<Rightarrow> web_response" where
  "oauth_success shell client_id = shell_response shell"

text \<open>\<open>None\<close> is the \<open>HTTPException\<close> with status 404.\<close>

definition static_asset :: "(str \<Rightarrow> bytes) \<Rightarrow> str \<Rightarrow> (str \<times> str) list \<Rightarrow> web_response option" where
  "static_asset files name request_headers =
     map_option (\<lambda>a.
       (let headers = [(''ETag'', as_etag a), (''Cache-Control'', ''public, max-age=0, must-revalidate''),
              (''Content-Security-Policy'', ASSET_CONTENT_SECURITY_POLICY), (''Referrer-Policy'', ''no-referrer''),
              (''X-Content-Type-Options'', ''nosniff''), (''X-Frame-Options'', ''DENY'')]
        in if header_get request_headers ''if-none-match'' = Some (as_etag a)
           then \<lparr>wr_status = 304, wr_headers = headers, wr_body = []\<rparr>
           else \<lparr>wr_status = 200, wr_headers = headers @ [(''content-type'', as_media_type a)], wr_body = as_body a\<rparr>))
       (map_of (STATIC files) name)"

definition favicon :: "(str \<Rightarrow> bytes) \<Rightarrow> (str \<times> str) list \<Rightarrow> web_response option" where
  "favicon files request_headers = static_asset files ''icon.svg'' request_headers"

end
