(* ===== verification/App.thy ===== *)
theory App
  imports Tracing MiddlewareProps Config OauthGrant Content Throttle Devices SyncHttp
begin

text \<open>
  \<open>app.py\<close>: how the tiers are put together. The exceptions the handlers below answer are a sum; the
  framework's own (a request it cannot validate, a route it does not know, anything else) are three of
  its cases. Routing itself belongs to the framework and is an argument: the application below the
  middlewares. The discovery documents of \<open>wellknown.py\<close> come first.
\<close>

definition APP_VERSION :: str where "APP_VERSION = ''0.1.0''"
definition API_PREFIX :: str where "API_PREFIX = ''/v1''"
definition PROFILE_PREFIX :: str where "PROFILE_PREFIX = ''/profile/v1''"
definition TOKENSERVER_PREFIX :: str where "TOKENSERVER_PREFIX = ''/token''"
definition STORAGE_PREFIX :: str where "STORAGE_PREFIX = ''/storage''"

subsection \<open>Discovery\<close>

text \<open>\<open>wellknown.py\<close>: the two discovery documents. Both are answered with the same cache header.\<close>

definition CACHE_CONTROL :: str where "CACHE_CONTROL = ''public, max-age=86400''"

definition websocket_url :: "str \<Rightarrow> str option" where
  "websocket_url url =
     map_option (\<lambda>parts. urlunsplit (parts\<lparr>url_scheme := if url_scheme parts = ''https'' then ''wss'' else ''ws''\<rparr>))
       (urlsplit url)"

definition fxa_client_configuration :: "str \<Rightarrow> (str \<times> json) list option" where
  "fxa_client_configuration public_url =
     map_option (\<lambda>pairing.
       [(''auth_server_base_url'', JStr public_url), (''oauth_server_base_url'', JStr public_url),
        (''profile_server_base_url'', JStr (config_url public_url ''/profile'')),
        (''sync_tokenserver_base_url'', JStr (config_url public_url ''/token'')),
        (''pairing_server_base_uri'', JStr pairing)]) (websocket_url public_url)"

definition openid_configuration :: "str \<Rightarrow> (str \<times> json) list" where
  "openid_configuration public_url =
     [(''authorization_endpoint'', JStr (config_url public_url ''/authorization'')),
      (''introspection_endpoint'', JStr (config_url public_url ''/v1/introspect'')),
      (''issuer'', JStr public_url),
      (''jwks_uri'', JStr (config_url public_url ''/v1/jwks'')),
      (''revocation_endpoint'', JStr (config_url public_url ''/v1/oauth/destroy'')),
      (''token_endpoint'', JStr (config_url public_url ''/v1/oauth/token'')),
      (''userinfo_endpoint'', JStr (config_url public_url ''/profile/v1/profile'')),
      (''verify_endpoint'', JStr (config_url public_url ''/v1/verify''))]"

subsection \<open>Errors\<close>

text \<open>One of pydantic's complaints: the location, each part as \<open>str\<close> prints it, and the type.\<close>

record complaint =
  cp_loc :: "str list"
  cp_type :: str

datatype raised =
    TokenserverRaised tokenserver_error
  | SyncRaised sync_storage_error
  | FxaRaised fxa_error
  | ValidationRaised "complaint list"
  | HttpRaised int str
  | Unexpected

definition tokenserver_error_handler :: "tokenserver_error \<Rightarrow> response" where
  "tokenserver_error_handler e =
     \<lparr>rs_status = te_http_status e, rs_headers = [], rs_body = JsonBody (ts_payload e)\<rparr>"

definition sync_storage_error_handler :: "int \<Rightarrow> sync_storage_error \<Rightarrow> response" where
  "sync_storage_error_handler now e =
     weave_timestamp \<lparr>rs_status = err_status e, rs_headers = err_headers e,
       rs_body = (if err_status e \<in> {304, 412} then NoBody else JsonBody (JInt (err_payload e)))\<rparr> (quantize now)"

definition fxa_error_handler :: "fxa_error \<Rightarrow> response" where
  "fxa_error_handler e = \<lparr>rs_status = fe_code e, rs_headers = fe_headers e, rs_body = JsonBody (fxa_payload e)\<rparr>"

definition from_validation_error :: "str list \<Rightarrow> complaint list \<Rightarrow> fxa_error" where
  "from_validation_error tags errs =
     (let loc = (case errs of [] \<Rightarrow> [] | e # _ \<Rightarrow> cp_loc e);
          name = (if loc = [] then None else Some (last loc));
          kind = (case errs of [] \<Rightarrow> [] | e # _ \<Rightarrow> cp_type e)
      in if ''oauth'' \<in> set tags then
           oauth_invalid_request_parameter (JObj [(''keys'', JArr (case name of
             Some (c # cs) \<Rightarrow> [JStr (c # cs)] | _ \<Rightarrow> []))])
         else if kind = ''missing'' then missing_request_parameter name
         else invalid_request_parameter (opt_str name))"

definition from_http_exception :: "int \<Rightarrow> str \<Rightarrow> fxa_error" where
  "from_http_exception status detail =
     (if status = 404 then fxa_error_of 404 116 ''Not Found'' ''Unknown endpoint'' [] []
      else if status = 405 then fxa_error_of 405 116 ''Method Not Allowed'' ''Method not allowed'' [] []
      else if status = 413 then request_body_too_large
      else fxa_error_of status 999 ''Error'' detail [] [])"

definition http_error_handler :: "int \<Rightarrow> str \<Rightarrow> int \<Rightarrow> str \<Rightarrow> response" where
  "http_error_handler now path status detail =
     (if startswith path (STORAGE_PREFIX @ ''/'') then
        sync_storage_error_handler now \<lparr>err_status = status, err_weave = UNKNOWN, err_headers = []\<rparr>
      else if startswith path (TOKENSERVER_PREFIX @ ''/'') then
        tokenserver_error_handler (unsupported ''Unsupported application'' ''application'')
      else fxa_error_handler (from_http_exception status detail))"

text \<open>The handler registered for what was raised; \<open>tags\<close> are those of the matched route.\<close>

definition error_response :: "int \<Rightarrow> str \<Rightarrow> str list \<Rightarrow> raised \<Rightarrow> response" where
  "error_response now path tags e =
     (case e of
        TokenserverRaised te \<Rightarrow> tokenserver_error_handler te
      | SyncRaised se \<Rightarrow> sync_storage_error_handler now se
      | FxaRaised fe \<Rightarrow> fxa_error_handler fe
      | ValidationRaised errs \<Rightarrow> fxa_error_handler (from_validation_error tags errs)
      | HttpRaised status detail \<Rightarrow> http_error_handler now path status detail
      | Unexpected \<Rightarrow> fxa_error_handler unexpected_error)"

subsection \<open>The operational endpoints\<close>

definition version_document :: json where
  "version_document = JObj [(''version'', JStr APP_VERSION), (''commit'', JStr []),
     (''source'', JStr ''https://github.com/jaj/fxa-lite'')]"

text \<open>\<open>ping\<close> is whether the database file answered; \<open>service_unavailable\<close> is asked for with its default wait.\<close>

definition heartbeat :: "bool \<Rightarrow> fxa_exn + json" where
  "heartbeat ping = (if ping then Inr (JObj []) else Inl (Fxa (service_unavailable 30)))"

definition lbheartbeat :: json where "lbheartbeat = JObj []"

definition legacy_config :: "config \<Rightarrow> json" where
  "legacy_config c = JObj [(''contentUrl'', JStr (cf_public_url c))]"

subsection \<open>The application\<close>

text \<open>The state \<open>create_app\<close> builds, \<open>None\<close> when the secret cannot be derived; \<open>der\<close> is the private signing key.\<close>

record app_state =
  ap_config :: config
  ap_clients :: registry
  ap_tokenserver_secret :: str
  ap_throttle :: throttle
  ap_body_limit :: body_limit

definition create_app :: "config \<Rightarrow> bytes \<Rightarrow> app_state option" where
  "create_app c der =
     map_option (\<lambda>secret.
       \<lparr>ap_config = c, ap_clients = cf_clients c, ap_tokenserver_secret = secret,
        ap_throttle = new_throttle (sec_failed_login_limit (cf_security c)) (sec_failed_login_window (cf_security c)),
        ap_body_limit = \<lparr>bl_storage_prefix = STORAGE_PREFIX, bl_tokenserver_prefix = TOKENSERVER_PREFIX,
          bl_default_limit = DEFAULT_MAX_BODY_BYTES, bl_storage_limit = max_request_bytes LIMITS\<rparr>\<rparr>)
       (resolve_shared_secret (cf_secret c) der)"

text \<open>The middlewares, outermost first: \<open>Trace\<close>, \<open>SecurityHeaders\<close>, \<open>BodyLimit\<close>, then the routes.\<close>

definition middleware_stack ::
  "app_state \<Rightarrow> trace_lib \<Rightarrow> bool \<Rightarrow> int \<Rightarrow> (scope \<Rightarrow> app) \<Rightarrow> scope \<Rightarrow> receiver \<Rightarrow>
     (transcript \<times> str list) option" where
  "middleware_stack st jt debug now routes =
     trace_call jt debug (security_headers (body_limit_call (ap_body_limit st) now (served_by routes)))"

subsection \<open>The paths that are mounted\<close>

type_synonym route_table = "(str \<times> str) list"

definition mounted_at :: "str \<Rightarrow> route_table \<Rightarrow> route_table" where
  "mounted_at prefix table = map (\<lambda>(m, path). (m, prefix @ path)) table"

definition auth_routes :: route_table where
  "auth_routes =
     [(''POST'', ''/account/create''), (''POST'', ''/account/login''), (''GET'', ''/account/status''),
      (''POST'', ''/account/status''), (''GET'', ''/account/profile''), (''GET'', ''/account/keys''),
      (''POST'', ''/account/destroy''), (''POST'', ''/account/credentials/status''),
      (''GET'', ''/session/status''), (''POST'', ''/session/destroy''), (''POST'', ''/session/duplicate''),
      (''POST'', ''/session/reauth''), (''GET'', ''/recovery_email/status''),
      (''POST'', ''/account/device''), (''GET'', ''/account/devices''), (''GET'', ''/account/device/commands''),
      (''POST'', ''/account/device/destroy''), (''POST'', ''/account/devices/notify''),
      (''GET'', ''/account/attached_clients''), (''GET'', ''/account/attached_oauth_clients''),
      (''POST'', ''/get_random_bytes'')]"

definition oauth_routes :: route_table where
  "oauth_routes =
     [(''POST'', ''/oauth/authorization''), (''POST'', ''/oauth/token''), (''POST'', ''/account/scoped-key-data''),
      (''GET'', ''/jwks''), (''GET'', ''/client/{client_id}''), (''POST'', ''/verify''), (''POST'', ''/introspect''),
      (''POST'', ''/oauth/destroy''), (''POST'', ''/destroy'')]"

definition profile_routes :: route_table where
  "profile_routes =
     [(''GET'', ''/profile''), (''GET'', ''/email''), (''GET'', ''/uid''), (''GET'', ''/display_name''),
      (''GET'', ''/avatar/{monogram}'')]"

definition tokenserver_routes :: route_table where
  "tokenserver_routes = [(''GET'', ''/1.0/{application}/{version}'')]"

definition wellknown_routes :: route_table where
  "wellknown_routes =
     [(''GET'', ''/.well-known/fxa-client-configuration''), (''GET'', ''/.well-known/openid-configuration'')]"

definition content_routes :: route_table where
  "content_routes =
     map (\<lambda>path. (''GET'', path)) PAGE_PATHS @
     [(''GET'', ''/settings/{subpath:path}''), (''GET'', ''/oauth/success/{client_id}''), (''GET'', ''/favicon.ico''),
      (''GET'', ''/static/{name}'')]"

definition default_routes :: route_table where
  "default_routes =
     [(''GET'', ''/__version__''), (''GET'', ''/__heartbeat__''), (''GET'', ''/__lbheartbeat__''), (''GET'', ''/config'')]"

definition sync_routes :: route_table where
  "sync_routes =
     (let user = ''/1.5/{uid:int}''; collection = user @ ''/storage/{collection}''; item = collection @ ''/{bso}''
      in [(''GET'', user @ ''/info/collections''), (''GET'', user @ ''/info/collection_counts''),
          (''GET'', user @ ''/info/collection_usage''), (''GET'', user @ ''/info/quota''),
          (''GET'', user @ ''/info/configuration''), (''DELETE'', user), (''DELETE'', user @ ''/storage''),
          (''GET'', collection), (''POST'', collection), (''DELETE'', collection),
          (''GET'', item), (''PUT'', item), (''DELETE'', item)])"

definition app_routes :: route_table where
  "app_routes =
     mounted_at API_PREFIX auth_routes @ mounted_at API_PREFIX oauth_routes @
     mounted_at PROFILE_PREFIX profile_routes @ mounted_at TOKENSERVER_PREFIX tokenserver_routes @
     mounted_at STORAGE_PREFIX sync_routes @ wellknown_routes @ content_routes @ default_routes"

end
