(* ===== verification/ConfigProps.thy ===== *)
theory ConfigProps
  imports Config OauthClaims
begin

text \<open>What a configuration that loads is guaranteed to be.\<close>

subsection \<open>The registry the configuration builds\<close>

lemma ok_put_client:
  assumes "registry_ok reg" "client_id_ok (cl_id c)" "cl_redirect_uris c \<noteq> []" "set_ok implicants (cl_allowed_scopes c)"
  shows "registry_ok (put_client c reg)"
  using assms set_put_client [of c reg] distinct_put_client [of reg c] by (auto simp: registry_ok_def)

lemma entry_redirects_some: "entry_redirects entry i = Inr us \<Longrightarrow> us \<noteq> []"
  by (auto simp: entry_redirects_def bindr_eq_Inr split: option.splits json.splits list.splits)

lemma client_from_config_ok:
  assumes "client_from_config entry = Inr c"
  shows "client_id_ok (cl_id c) \<and> cl_redirect_uris c \<noteq> [] \<and> set_ok implicants (cl_allowed_scopes c)"
  using assms entry_redirects_some [of entry] from_string_Some(1)
  by (auto simp: client_from_config_def Let_def bindr_eq_Inr scope_ok_def)

lemma build_clients_ok: "build_clients public_url entries = Inr reg \<Longrightarrow> registry_ok reg"
  unfolding build_clients_def
  by (erule foldr_exn_invariant [where P = registry_ok])
    (auto simp: default_clients_ok bindr_eq_Inr intro!: ok_put_client dest: client_from_config_ok)

lemma read_clients_ok: "read_clients d public_url = Inr reg \<Longrightarrow> registry_ok reg"
proof -
  assume a: "read_clients d public_url = Inr reg"
  then obtain vs where "(case map_of d ''clients'' of None \<Rightarrow> JArr [] | Some v \<Rightarrow> v) = JArr vs"
    unfolding read_clients_def by (cases "case map_of d ''clients'' of None \<Rightarrow> JArr [] | Some v \<Rightarrow> v") simp_all
  then obtain entries where "(case build_clients public_url entries of Inl e \<Rightarrow> Inl (BadClient e) | Inr r \<Rightarrow> Inr r) = Inr reg"
    using a unfolding read_clients_def by (auto simp: bindr_eq_Inr)
  then have "build_clients public_url entries = Inr reg" by (cases "build_clients public_url entries") simp_all
  then show ?thesis by (rule build_clients_ok)
qed

subsection \<open>The record\<close>

definition config_ok :: "config \<Rightarrow> bool" where
  "config_ok c \<longleftrightarrow>
     \<not> endswith (cf_public_url c) ''/'' \<and> 1 \<le> cf_port c \<and> cf_port c \<le> 65535 \<and>
     0 < ttl_access_token (cf_ttl c) \<and> 0 < ttl_authorization_code (cf_ttl c) \<and> 0 < ttl_tokenserver_token (cf_ttl c) \<and>
     cf_log_level c \<in> set LOG_LEVELS \<and>
     0 \<le> sec_failed_login_limit (cf_security c) \<and> 0 < sec_failed_login_window (cf_security c) \<and>
     cf_secret c \<noteq> Some [] \<and> registry_ok (cf_clients c)"

lemma rstrip_ends: "\<not> endswith (rstrip_by (\<lambda>c. c = CHR ''/'') v) ''/''"
proof -
  have "\<not> startswith (dropWhile (\<lambda>c. c = CHR ''/'') w) ''/''" for w :: str
    by (induction w) simp_all
  then show ?thesis by (simp add: endswith_def rstrip_by_def)
qed

lemma read_public_url_ok: "read_public_url v = Inr u \<Longrightarrow> \<not> endswith u ''/''"
  using rstrip_ends by (auto simp: read_public_url_def split: option.splits if_splits)

lemma get_seconds_pos: "get_seconds d key n whr = Inr v \<Longrightarrow> 0 < v"
  by (auto simp: get_seconds_def bindr_eq_Inr split: if_splits)

lemma get_count_nonneg: "get_count d key n = Inr v \<Longrightarrow> 0 \<le> v"
  by (auto simp: get_count_def bindr_eq_Inr split: if_splits)

lemma read_ttl_ok:
  "read_ttl d = Inr t \<Longrightarrow> 0 < ttl_access_token t \<and> 0 < ttl_authorization_code t \<and> 0 < ttl_tokenserver_token t"
  by (auto simp: read_ttl_def bindr_eq_Inr dest: get_seconds_pos)

lemma read_security_ok:
  "read_security d = Inr s \<Longrightarrow> 0 \<le> sec_failed_login_limit s \<and> 0 < sec_failed_login_window s"
  by (auto simp: read_security_def bindr_eq_Inr dest: get_seconds_pos get_count_nonneg)

lemma read_port_ok: "read_port n = Inr p \<Longrightarrow> 1 \<le> p \<and> p \<le> 65535"
  by (auto simp: read_port_def split: if_splits)

lemma read_log_level_ok: "read_log_level v = Inr l \<Longrightarrow> l \<in> set LOG_LEVELS"
  by (auto simp: read_log_level_def split: if_splits)

lemma read_secret_ok: "read_secret d = Inr r \<Longrightarrow> r \<noteq> Some []"
  by (auto simp: read_secret_def split: json.splits list.splits)

lemma bindrE: "bindr r f = Inr b \<Longrightarrow> (\<And>a. r = Inr a \<Longrightarrow> f a = Inr b \<Longrightarrow> P) \<Longrightarrow> P"
  by (auto simp: bindr_eq_Inr)

text \<open>
  C36: A configuration that loads is well formed, whatever the document. The public URL has no trailing
  slash, the port is a port, every lifetime and the throttle window are positive and the throttle limit
  is not negative, the level is one of the four, a shared secret is not empty, and the registry has one
  client per id, each with a lower-case hexadecimal id, a redirect and a well-formed scope, which is
  what every OAuth result of this development asks of it.
\<close>
theorem loaded_config_is_well_formed:
  assumes "config_from_dict resolve d = Inr c"
  shows "config_ok c"
  using assms unfolding config_from_dict_def case_prod_beta
  by - ((erule bindrE)+, drule sum.inject(2) [THEN iffD1], drule sym, drule read_public_url_ok, drule read_ttl_ok,
    drule read_port_ok, drule read_log_level_ok, drule read_security_ok, drule read_clients_ok, drule read_secret_ok,
    simp add: config_ok_def)

definition sample_document :: entry where
  "sample_document = [(''public_url'', JStr ''https://fxa.example/''), (''listen'', JObj [(''port'', JInt 9001)])]"

lemma loaded_sample_document: "\<exists>c. config_from_dict id sample_document = Inr c \<and> cf_port c = 9001"
proof -
  have url: "read_public_url ''https://fxa.example/'' = Inr ''https://fxa.example''" by code_simp
  have read: "require_str sample_document ''public_url'' [] = Inr ''https://fxa.example/''"
    "reject_unknown sample_document [''public_url'', ''tokenserver_shared_secret'', ''clients'',
       ''listen'', ''paths'', ''ttl'', ''log'', ''security''] [] = Inr ()"
    "sections sample_document = Inr ([(''port'', JInt 9001)], [], [], [], [])"
    "read_secret sample_document = Inr None" by code_simp+
  have parts: "get_str [(''port'', JInt 9001)] ''host'' ''listen'' DEFAULT_HOST = Inr DEFAULT_HOST"
    "bindr (get_int [(''port'', JInt 9001)] ''port'' ''listen'' DEFAULT_PORT) read_port = Inr 9001"
    "bindr (get_str [] ''level'' ''log'' DEFAULT_LOG_LEVEL) read_log_level = Inr ''info''" by code_simp+
  have empty: "\<exists>p. read_paths id [] = Inr p" "\<exists>t. read_ttl [] = Inr t" "\<exists>v. read_security [] = Inr v"
    by (simp_all add: read_paths_def read_ttl_def read_security_def get_str_def get_seconds_def get_count_def
      get_int_def get_bool_def obj_get_def DEFAULT_ACCESS_TOKEN_TTL_def DEFAULT_CODE_TTL_def
      DEFAULT_TOKENSERVER_TTL_def DEFAULT_FAILED_LOGIN_LIMIT_def DEFAULT_FAILED_LOGIN_WINDOW_def)
  have clients: "read_clients sample_document url = Inr (default_clients url)" for url
    by (simp add: read_clients_def sample_document_def build_clients_def)
  show ?thesis
    using empty by (auto simp: config_from_dict_def url read parts clients)
qed

lemma loaded_config_is_well_formed_witness:
  "\<exists>c. config_from_dict id sample_document = Inr c \<and> config_ok c \<and> cf_port c = 9001"
  using loaded_sample_document loaded_config_is_well_formed by blast

end
