(* ===== verification/AppProps.thy ===== *)
theory AppProps
  imports App ConfigProps
begin

text \<open>What holds of the assembled application: the middlewares together, and discovery against the routes.\<close>

subsection \<open>A request that is too large\<close>

lemma app_body_limit:
  assumes "create_app c der = Some st"
  shows "ap_body_limit st = \<lparr>bl_storage_prefix = ''/storage'', bl_tokenserver_prefix = ''/token'',
    bl_default_limit = 65536, bl_storage_limit = 2625536\<rparr>"
  using assms by (auto simp: create_app_def STORAGE_PREFIX_def TOKENSERVER_PREFIX_def DEFAULT_MAX_BODY_BYTES_def LIMITS_def)

lemma too_large_payload: "dumps f True (JInt (err_payload request_too_large)) = ''17''"
  by (simp add: err_payload_def request_too_large_def) code_simp

lemma stamp_keeps: "h \<in> set hs \<Longrightarrow> h \<in> set (stamp_headers hs)"
  by (auto simp: stamp_headers_def Let_def)

lemma stamp_policy:
  "''content-security-policy'' \<notin> (lower \<circ> fst) ` set hs \<Longrightarrow>
     (''content-security-policy'', API_CONTENT_SECURITY_POLICY) \<in> set (stamp_headers hs)"
  by (auto simp: stamp_headers_def Let_def)

lemma refused_call:
  assumes "sc_type sc = ''http''" "content_length sc = Some declared" "limit_for bl (sc_path sc) < declared"
  shows "security_headers (body_limit_call bl now inner) sc ins =
    Some \<lparr>tr_taken = [], tr_sent = map stamped (refuse bl now (sc_path sc)), tr_raised = False\<rparr>"
  using assms by (simp add: security_headers_def body_limit_call_def limit_decision_of_def)

text \<open>
  C40: A request that declares more than its tier takes is refused by the assembled application
  without a byte of it being read and without any route running, whatever the routes are. The limit is
  2625536 bytes below \<open>/storage/\<close> and 65536 elsewhere. The answer is one 413, with the null content
  policy, in the envelope of the tier: below \<open>/storage/\<close> the integer 17 with a timestamp header, below
  \<open>/token/\<close> the tokenserver's object, elsewhere the accounts object.
\<close>
theorem oversized_request_reaches_no_route:
  assumes "create_app c der = Some st" "sc_type sc = ''http''" "content_length sc = Some declared"
    and "(if startswith (sc_path sc) ''/storage/'' then 2625536 else 65536) < declared"
  shows "\<exists>hs body line. middleware_stack st jt debug now routes sc ins =
      Some (\<lparr>tr_taken = [], tr_sent = [ResponseStart 413 hs, ResponseBody (encode_utf8 body)], tr_raised = False\<rparr>, line) \<and>
    (''content-security-policy'', API_CONTENT_SECURITY_POLICY) \<in> set hs \<and>
    (if startswith (sc_path sc) ''/storage/''
     then body = ''17'' \<and> (''x-weave-timestamp'', timestamp_header (quantize now)) \<in> set hs
     else if startswith (sc_path sc) ''/token/''
     then body = dumps (\<lambda>_. []) True (ts_payload \<lparr>te_status = ''error'', te_location = ''body'', te_name = [],
       te_description = ''Request body too large'', te_http_status = 413\<rparr>)
     else body = dumps (\<lambda>_. []) True (fxa_payload request_body_too_large))"
proof -
  let ?bl = "ap_body_limit st"
  obtain status extra body where env: "envelope ?bl now (sc_path sc) = (status, extra, body)"
    by (cases "envelope ?bl now (sc_path sc)") auto
  let ?hs = "[(''content-type'', ''application/json''), (''content-length'', show_int (int (length (encode_utf8 body))))] @ extra"
  have limit: "limit_for ?bl (sc_path sc) < declared"
    using assms(4) by (simp add: app_body_limit [OF assms(1)] limit_for_def split: if_splits)
  have env': "status = 413 \<and>
      (if startswith (sc_path sc) ''/storage/''
       then body = ''17'' \<and> extra = [(''x-weave-timestamp'', timestamp_header (quantize now))]
       else if startswith (sc_path sc) ''/token/''
       then extra = [] \<and> body = dumps (\<lambda>_. []) True (ts_payload \<lparr>te_status = ''error'', te_location = ''body'',
         te_name = [], te_description = ''Request body too large'', te_http_status = 413\<rparr>)
       else extra = [] \<and> body = dumps (\<lambda>_. []) True (fxa_payload request_body_too_large))"
    using env unfolding envelope_def app_body_limit [OF assms(1)] too_large_payload
    by (auto simp: request_too_large_def request_body_too_large_def fxa_error_of_def split: if_splits)
  have "''content-security-policy'' \<notin> (lower \<circ> fst) ` set ?hs"
  proof -
    have "lower ''content-type'' = ''content-type''" "lower ''content-length'' = ''content-length''"
      "lower ''x-weave-timestamp'' = ''x-weave-timestamp''" by code_simp+
    then show ?thesis using env' by (auto split: if_splits)
  qed
  then have policy: "(''content-security-policy'', API_CONTENT_SECURITY_POLICY) \<in> set (stamp_headers ?hs)"
    by (rule stamp_policy)
  have sent: "map stamped (refuse ?bl now (sc_path sc)) =
      [ResponseStart 413 (stamp_headers ?hs), ResponseBody (encode_utf8 body)]"
    using env env' by (simp add: refuse_def)
  have kept: "extra = [(''x-weave-timestamp'', v)] \<Longrightarrow> (''x-weave-timestamp'', v) \<in> set (stamp_headers ?hs)" for v
    by (intro stamp_keeps) simp
  show ?thesis
    unfolding middleware_stack_def trace_call_def refused_call [OF assms(2,3) limit] sent option.map
    using policy env' kept by (intro exI [of _ "stamp_headers ?hs"] exI [of _ body]) (auto split: if_splits)
qed

definition big_post :: "str \<Rightarrow> scope" where
  "big_post path = \<lparr>sc_type = ''http'', sc_method = ''POST'', sc_path = path, sc_query = [],
     sc_headers = [(''Content-Length'', ''70000'')]\<rparr>"

lemma oversized_request_reaches_no_route_witness:
  "\<exists>c st t line. create_app c [1] = Some st \<and>
    middleware_stack st sample_trace_lib True 0 (\<lambda>_. Raise) (big_post ''/v1/account/login'')
      (\<lambda>_. HttpDisconnect) = Some (t, line) \<and>
    tr_taken t = [] \<and> \<not> tr_raised t"
proof -
  obtain c where "config_from_dict id sample_document = Inr c" using loaded_sample_document by blast
  define c' where "c' = c\<lparr>cf_secret := Some ''s''\<rparr>"
  obtain st where st: "create_app c' [1] = Some st"
    by (simp add: create_app_def c'_def resolve_shared_secret_def)
  have "lower ''Content-Length'' = ''content-length''" "py_int ''70000'' = Some 70000" by code_simp+
  then have "content_length (big_post ''/v1/account/login'') = Some 70000"
    by (simp add: content_length_def asgi_header_def big_post_def)
  then show ?thesis
    using oversized_request_reaches_no_route [OF st, of "big_post ''/v1/account/login''" 70000 sample_trace_lib True 0
        "\<lambda>_. Raise" "\<lambda>_. HttpDisconnect"] st
    by (fastforce simp: big_post_def)
qed

subsection \<open>Discovery\<close>

text \<open>What a document says of an endpoint.\<close>

definition announces :: "(str \<times> json) list \<Rightarrow> str \<Rightarrow> str \<Rightarrow> bool" where
  "announces doc name url \<longleftrightarrow> map_of doc name = Some (JStr url)"

text \<open>
  Everything discovery announces is served. For any public URL, the authorization endpoint is a
  page this application mounts, and each of the OpenID endpoints and of the addresses Firefox builds by
  appending to the advertised bases is the public URL followed by a path that is in the table of mounted
  routes with the method the client uses; and the issuer discovery names is the \<open>iss\<close> of every access
  token signed for that URL.
\<close>
theorem discovery_names_mounted_routes:
  assumes "fxa_client_configuration u = Some doc" "oe_public_url env = u"
  shows "list_all (\<lambda>(name, m, path). announces (openid_configuration u) name (u @ path) \<and> (m, path) \<in> set app_routes)
      [(''authorization_endpoint'', ''GET'', ''/authorization''), (''token_endpoint'', ''POST'', ''/v1/oauth/token''),
       (''introspection_endpoint'', ''POST'', ''/v1/introspect''), (''jwks_uri'', ''GET'', ''/v1/jwks''),
       (''revocation_endpoint'', ''POST'', ''/v1/oauth/destroy''), (''verify_endpoint'', ''POST'', ''/v1/verify''),
       (''userinfo_endpoint'', ''GET'', ''/profile/v1/profile'')] \<and>
    list_all (\<lambda>(name, base, rest, m). announces doc name (u @ base) \<and> (m, base @ rest) \<in> set app_routes)
      [(''auth_server_base_url'', [], ''/v1/account/login'', ''POST''), (''oauth_server_base_url'', [], ''/v1/oauth/token'', ''POST''),
       (''profile_server_base_url'', ''/profile'', ''/v1/profile'', ''GET''),
       (''sync_tokenserver_base_url'', ''/token'', ''/1.0/{application}/{version}'', ''GET'')] \<and>
    map_of (openid_configuration u) ''issuer'' = map_of (access_claims env g ttl now jti) ''iss''"
proof -
  have mounted: "list_all (\<lambda>r. r \<in> set app_routes)
      [(''GET'', ''/authorization''), (''POST'', ''/v1/oauth/token''), (''POST'', ''/v1/introspect''), (''GET'', ''/v1/jwks''),
       (''POST'', ''/v1/oauth/destroy''), (''POST'', ''/v1/verify''), (''GET'', ''/profile/v1/profile''),
       (''POST'', ''/v1/account/login''), (''GET'', ''/token/1.0/{application}/{version}'')]" by code_simp
  have openid: "announces (openid_configuration u) ''authorization_endpoint'' (u @ ''/authorization'')"
    "announces (openid_configuration u) ''token_endpoint'' (u @ ''/v1/oauth/token'')"
    "announces (openid_configuration u) ''introspection_endpoint'' (u @ ''/v1/introspect'')"
    "announces (openid_configuration u) ''jwks_uri'' (u @ ''/v1/jwks'')"
    "announces (openid_configuration u) ''revocation_endpoint'' (u @ ''/v1/oauth/destroy'')"
    "announces (openid_configuration u) ''verify_endpoint'' (u @ ''/v1/verify'')"
    "announces (openid_configuration u) ''userinfo_endpoint'' (u @ ''/profile/v1/profile'')"
    by (simp_all add: announces_def openid_configuration_def config_url_def lstrip_by_def)
  have fxa: "announces doc ''auth_server_base_url'' u" "announces doc ''oauth_server_base_url'' u"
    "announces doc ''profile_server_base_url'' (u @ ''/profile'')"
    "announces doc ''sync_tokenserver_base_url'' (u @ ''/token'')"
    using assms(1) by (auto simp: announces_def fxa_client_configuration_def config_url_def lstrip_by_def)
  have "map_of (openid_configuration u) ''issuer'' = map_of (access_claims env g ttl now jti) ''iss''"
    using assms(2) by (simp add: openid_configuration_def access_claims_def Let_def)
  then show ?thesis using mounted openid fxa by simp
qed

lemma discovery_names_mounted_routes_witness:
  "announces (openid_configuration ''https://x'') ''token_endpoint'' ''https://x/v1/oauth/token'' \<and>
   (''POST'', ''/v1/oauth/token'') \<in> set app_routes"
proof -
  have "websocket_url ''https://x'' = Some ''wss://x''" by code_simp
  then obtain doc where "fxa_client_configuration ''https://x'' = Some doc"
    by (simp add: fxa_client_configuration_def)
  then show ?thesis
    using discovery_names_mounted_routes [of "''https://x''" doc sample_env undefined 0 0 "[]"]
    by (simp add: sample_env_def)
qed

end
