(* ===== verification/Cli.thy ===== *)
theory Cli
  imports AccountClaims SyncStore Config
begin

text \<open>
  \<open>cli.py\<close>: what the administrative commands do to the database and print. What is typed at a prompt,
  the random bytes and the clock are arguments; the files are in \<open>KeyFiles\<close>, the argument parser and the
  server loop are not modelled. A result is the exit status and the lines on the two outputs; \<open>None\<close> is an exception
  nothing catches. A dash U+2014 of the source stands as two hyphens.
\<close>

definition MINIMUM_PASSWORD_LENGTH :: nat where "MINIMUM_PASSWORD_LENGTH = 12"

record cli_result =
  xr_status :: int
  xr_out :: "str list"
  xr_err :: "str list"

definition finished :: "str list \<Rightarrow> cli_result" where
  "finished lines = \<lparr>xr_status = 0, xr_out = lines, xr_err = []\<rparr>"

definition stopped :: "str \<Rightarrow> cli_result" where
  "stopped message = \<lparr>xr_status = 1, xr_out = [], xr_err = [message]\<rparr>"

subsection \<open>Times and columns\<close>

text \<open>The civil date of a day, counted from 1970-01-01, in the proleptic Gregorian calendar: year, month, day.\<close>

definition civil_date :: "int \<Rightarrow> int \<times> int \<times> int" where
  "civil_date days =
     (let z = days + 719468;
          era = z div 146097;
          doe = z mod 146097;
          yoe = (doe - doe div 1460 + doe div 36524 - doe div 146096) div 365;
          doy = doe - (365 * yoe + yoe div 4 - yoe div 100);
          mp = (5 * doy + 2) div 153;
          m = (if mp < 10 then mp + 3 else mp - 9)
      in (yoe + era * 400 + (if m \<le> 2 then 1 else 0), m, doy - (153 * mp + 2) div 5 + 1))"

definition two_digits :: "int \<Rightarrow> str" where
  "two_digits n = (if n < 10 then CHR ''0'' # show_int n else show_int n)"

definition time_text :: "int \<Rightarrow> str option" where
  "time_text milliseconds =
     (let seconds = milliseconds div 1000;
          (y, m, d) = civil_date (seconds div 86400);
          s = seconds mod 86400
      in if y < 1 \<or> 9999 < y then None
         else Some (show_int y @ ''-'' @ two_digits m @ ''-'' @ two_digits d @ '' '' @
           two_digits (s div 3600) @ '':'' @ two_digits (s div 60 mod 60) @ '':'' @ two_digits (s mod 60) @ ''Z''))"

definition pad_right :: "nat \<Rightarrow> str \<Rightarrow> str" where
  "pad_right width s = s @ replicate (width - length s) (CHR '' '')"

definition pad_left :: "nat \<Rightarrow> str \<Rightarrow> str" where
  "pad_left width s = replicate (width - length s) (CHR '' '') @ s"

definition widest :: "str list \<Rightarrow> nat" where
  "widest names = fold max (map length names) 0"

subsection \<open>Accounts\<close>

text \<open>The password: as given, or typed twice.\<close>

definition chosen_password :: "str option \<Rightarrow> str \<Rightarrow> str \<Rightarrow> str option" where
  "chosen_password given first again =
     (case given of Some p \<Rightarrow> Some p | None \<Rightarrow> if first = again then Some first else None)"

definition cmd_account_add ::
  "str \<Rightarrow> str option \<Rightarrow> str \<Rightarrow> str \<Rightarrow> account_random \<Rightarrow> int \<Rightarrow> database \<Rightarrow> cli_result option \<times> database" where
  "cmd_account_add email given first again rnd now_ms db =
     (case chosen_password given first again of
        None \<Rightarrow> (Some (stopped ''passwords do not match''), db)
      | Some password \<Rightarrow>
          if length password < MINIMUM_PASSWORD_LENGTH then
            (Some (stopped (''password must be at least 12 characters: it is the '' @
               ''only thing protecting the Sync encryption key'')), db)
          else
            (case provision_with_password email password None rnd now_ms db of
               (Inr a, db') \<Rightarrow> (Some (finished [''created '' @ acc_email a @ '' (uid '' @ acc_uid a @ '')'']), db')
             | (Inl (Fxa e), db') \<Rightarrow> (Some (stopped (fe_message e)), db')
             | (Inl FxaCrash, db') \<Rightarrow> (None, db')))"

definition account_line :: "nat \<Rightarrow> database \<Rightarrow> account \<Rightarrow> str option" where
  "account_line width db a =
     map_option (\<lambda>created.
       pad_right width (acc_email a) @ ''  '' @ acc_uid a @ ''  created '' @ created @ ''  '' @
       show_int (int (length (session_tokens (acc_uid a) db))) @ '' session(s), '' @
       show_int (int (length (devices (acc_uid a) db))) @ '' device(s)'') (time_text (acc_created_at a))"

definition cmd_account_list :: "database \<Rightarrow> cli_result option" where
  "cmd_account_list db =
     (let rows = accounts db
      in if rows = [] then Some (finished [''no accounts; add one with `fxa-lite account add <email>`''])
         else map_option finished (those (map (account_line (widest (map acc_email rows)) db) rows)))"

definition confirmed :: "bool \<Rightarrow> str \<Rightarrow> bool" where
  "confirmed force answer \<longleftrightarrow> force \<or> lower (strip answer) \<in> {''y'', ''yes''}"

definition cmd_account_remove :: "str \<Rightarrow> bool \<Rightarrow> str \<Rightarrow> database \<Rightarrow> cli_result \<times> database" where
  "cmd_account_remove email force answer db =
     (case account_by_email email db of
        None \<Rightarrow> (stopped (''no such account: '' @ email), db)
      | Some a \<Rightarrow>
          if confirmed force answer then (finished [''deleted '' @ acc_email a], snd (delete_account (acc_uid a) db))
          else (\<lparr>xr_status = 1, xr_out = [''cancelled''], xr_err = []\<rparr>, db))"

subsection \<open>What is in Sync storage\<close>

definition collection_line :: "nat \<Rightarrow> (str \<times> int) list \<Rightarrow> str \<times> int \<Rightarrow> str option" where
  "collection_line width counts entry =
     (let (name, modified) = entry;
          count = (case map_of counts name of None \<Rightarrow> 0 | Some n \<Rightarrow> n)
      in map_option (\<lambda>written.
           ''    '' @ pad_right width name @ ''  '' @ pad_left 6 (show_int count) @ '' record(s)  last written '' @ written @
           (if name \<in> {''tabs'', ''clients''} then ''  <- one per device'' else [])) (time_text modified))"

definition collections_report :: "sync_store \<Rightarrow> database \<Rightarrow> str list option" where
  "collections_report s db =
     Option.bind (collection_timestamps s db) (\<lambda>timestamps.
       if timestamps = [] then Some [''    (no collections)'']
       else Option.bind (collection_counts s db) (\<lambda>counts.
         those (map (collection_line (widest (map fst timestamps)) counts) (sort_key fst timestamps))))"

definition user_state :: "sync_user \<Rightarrow> str option" where
  "user_state u =
     (case su_replaced_at u of None \<Rightarrow> Some ''live'' | Some t \<Rightarrow> map_option (\<lambda>w. ''replaced '' @ w) (time_text t))"

definition print_sync_user :: "sync_user \<Rightarrow> int \<Rightarrow> database \<Rightarrow> str list option" where
  "print_sync_user u now_ms db =
     Option.bind (user_state u) (\<lambda>state.
     Option.bind (time_text (su_created_at u)) (\<lambda>created.
       map_option (\<lambda>report.
         (''  sync uid '' @ show_int (su_uid u) @ ''  client state '' @ su_client_state u @ ''  created '' @ created @
          ''  ('' @ state @ '')'') # report)
         (collections_report \<lparr>ss_uid = su_uid u, ss_now = quantize now_ms\<rparr> db)))"

definition account_report :: "int \<Rightarrow> database \<Rightarrow> account \<Rightarrow> str list option" where
  "account_report now_ms db a =
     (let users = sync_users (acc_uid a) db
      in map_option (\<lambda>reports. (acc_email a @ ''  '' @ acc_uid a) # concat reports)
           (if users = [] then Some [[''  no Sync storage yet -- this account has never synced'']]
            else those (map (\<lambda>u. print_sync_user u now_ms db) users)))"

text \<open>A blank line stands between two accounts.\<close>

fun separated :: "str list list \<Rightarrow> str list" where
  "separated [] = []"
| "separated [r] = r"
| "separated (r # rs) = r @ [] # separated rs"

definition cmd_sync_inspect :: "int \<Rightarrow> database \<Rightarrow> cli_result option" where
  "cmd_sync_inspect now_ms db =
     (let rows = accounts db
      in if rows = [] then Some (finished [''no accounts; add one with `fxa-lite account add <email>`''])
         else map_option (\<lambda>reports. finished (separated reports)) (those (map (account_report now_ms db) rows)))"

subsection \<open>Keys and serving\<close>

text \<open>\<open>cmd_keygen\<close>'s refusal to replace a key: the destination, and whether it may be written.\<close>

definition keygen_destination :: "str option \<Rightarrow> config \<Rightarrow> str" where
  "keygen_destination output c = (case output of Some p \<Rightarrow> p | None \<Rightarrow> pc_signing_key (cf_paths c))"

definition keygen_allowed :: "bool \<Rightarrow> bool \<Rightarrow> bool" where
  "keygen_allowed there force \<longleftrightarrow> \<not> there \<or> force"

text \<open>What \<open>cmd_serve\<close> runs with: a level, a host and a port, each from the command line if it is given.\<close>

definition serve_settings :: "config \<Rightarrow> str option \<Rightarrow> str option \<Rightarrow> int option \<Rightarrow> str \<times> str \<times> int" where
  "serve_settings c level host port =
     ((case level of Some (x # xs) \<Rightarrow> x # xs | _ \<Rightarrow> cf_log_level c),
      (case host of Some (x # xs) \<Rightarrow> x # xs | _ \<Rightarrow> cf_host c),
      (case port of Some n \<Rightarrow> if n = 0 then cf_port c else n | None \<Rightarrow> cf_port c))"

subsection \<open>What the commands guarantee\<close>

text \<open>A command that stops with a message about the password has changed nothing.\<close>

lemma account_add_refusals:
  "chosen_password given first again = None \<Longrightarrow> cmd_account_add email given first again rnd now_ms db = (Some r, db') \<Longrightarrow>
     xr_status r = 1 \<and> db' = db"
  "chosen_password given first again = Some p \<Longrightarrow> length p < 12 \<Longrightarrow>
     cmd_account_add email given first again rnd now_ms db = (Some r, db') \<Longrightarrow> xr_status r = 1 \<and> db' = db"
  unfolding cmd_account_add_def MINIMUM_PASSWORD_LENGTH_def stopped_def by clarsimp+

text \<open>Removing an account asks first, and leaves no trace of it and everybody else's rows.\<close>

lemma account_remove_exact:
  assumes "wf_db db" "account_by_email email db = Some a"
  shows "\<not> confirmed force answer \<Longrightarrow> snd (cmd_account_remove email force answer db) = db"
    and "confirmed force answer \<Longrightarrow> no_trace (acc_uid a) (snd (cmd_account_remove email force answer db)) \<and>
      keeps_others (acc_uid a) db (snd (cmd_account_remove email force answer db))"
  using assms(2) delete_account_effect [OF assms(1)] by (simp_all add: cmd_account_remove_def)

text \<open>The calendar at its corners: the epoch, leap days of 2000 and 2024, the end of 1900's February.\<close>

lemma civil_date_corners:
  "civil_date 0 = (1970, 1, 1)" "civil_date 11016 = (2000, 2, 29)" "civil_date 11017 = (2000, 3, 1)"
  "civil_date 19782 = (2024, 2, 29)" "civil_date 19783 = (2024, 3, 1)" "civil_date (- 25509) = (1900, 2, 28)"
  "civil_date (- 25508) = (1900, 3, 1)" "civil_date (- 1) = (1969, 12, 31)"
  by code_simp+

lemma time_text_sample: "time_text 1709210096789 = Some ''2024-02-29 12:34:56Z''"
  by code_simp

end
