(* ===== verification/KeyFiles.thy ===== *)
theory KeyFiles
  imports Cli OauthResource
begin

unbundle bit_operations_syntax

text \<open>
  The files that hold key material, and who may read them: \<open>write_private_jwk\<close>, \<open>cmd_keygen\<close>,
  \<open>cmd_serve\<close> and \<open>main\<close> of \<open>cli.py\<close>, \<open>_warn_if_readable\<close> of \<open>oauth/keys.py\<close>, \<open>_restrict\<close> of \<open>db.py\<close>
  and \<open>key_id\<close> of \<open>crypto/jose.py\<close>. A file system is a map from paths to files, a file its
  permission bits and its text; opening, renaming, unlinking and changing a mode are what POSIX
  says of them. Directories and links are not modelled, a path is its text.
\<close>

type_synonym mode = "12 word"

record key_file =
  fl_mode :: mode
  fl_text :: str

type_synonym files = "str \<Rightarrow> key_file option"

definition OWNER_ONLY :: mode where "OWNER_ONLY = 0x180"
definition GROUP_OTHER :: mode where "GROUP_OTHER = 0x3F"

text \<open>No bit for the group or for others.\<close>

definition owner_only :: "mode \<Rightarrow> bool" where
  "owner_only m \<longleftrightarrow> m AND GROUP_OTHER = 0"

subsection \<open>Calls to the system\<close>

text \<open>\<open>os.open(path, O_WRONLY | O_CREAT | O_TRUNC, mode)\<close>: the mode is that of a new file only.\<close>

definition open_truncated :: "mode \<Rightarrow> mode \<Rightarrow> str \<Rightarrow> files \<Rightarrow> files" where
  "open_truncated umask m path fs =
     fs(path \<mapsto> (case fs path of None \<Rightarrow> \<lparr>fl_mode = m AND NOT umask, fl_text = []\<rparr> | Some f \<Rightarrow> f\<lparr>fl_text := []\<rparr>))"

definition write_text :: "str \<Rightarrow> str \<Rightarrow> files \<Rightarrow> files" where
  "write_text path s fs = (case fs path of None \<Rightarrow> fs | Some f \<Rightarrow> fs(path \<mapsto> f\<lparr>fl_text := s\<rparr>))"

definition rename_file :: "str \<Rightarrow> str \<Rightarrow> files \<Rightarrow> files" where
  "rename_file a b fs = (case fs a of None \<Rightarrow> fs | Some f \<Rightarrow> (fs(a := None))(b \<mapsto> f))"

subsection \<open>Writing a key\<close>

definition temporary_of :: "str \<Rightarrow> str" where
  "temporary_of path = path @ ''.tmp''"

text \<open>\<open>None\<close> for the text is a write that fails. The answer is whether the key was written.\<close>

definition write_private_jwk :: "mode \<Rightarrow> str \<Rightarrow> str option \<Rightarrow> files \<Rightarrow> bool \<times> files" where
  "write_private_jwk umask destination dumped fs =
     (let temporary = temporary_of destination;
          opened = open_truncated umask OWNER_ONLY temporary fs
      in case dumped of
           None \<Rightarrow> (False, opened(temporary := None))
         | Some s \<Rightarrow> (True, rename_file temporary destination (write_text temporary (s @ [newline]) opened)))"

definition signing_key_id :: "bytes \<Rightarrow> int \<Rightarrow> str" where
  "signing_key_id pem now =
     (let (y, m, d) = civil_date (now div 86400)
      in show_int y @ two_digits m @ two_digits d @ ''-'' @ take 8 (hex_of (sha256 pem)))"

text \<open>What ends a command early: the three exceptions \<open>main\<close> catches, and any other.\<close>

datatype cli_exn = ConfigFailed str | DatabaseFailed str | FxaFailed str | Uncaught

definition main_result :: "cli_exn + cli_result \<Rightarrow> cli_result option" where
  "main_result r =
     (case r of
        Inr x \<Rightarrow> Some x
      | Inl (ConfigFailed m) \<Rightarrow> Some \<lparr>xr_status = 2, xr_out = [], xr_err = [''config error: '' @ m]\<rparr>
      | Inl (DatabaseFailed m) \<Rightarrow> Some \<lparr>xr_status = 2, xr_out = [], xr_err = [''database error: '' @ m]\<rparr>
      | Inl (FxaFailed m) \<Rightarrow> Some \<lparr>xr_status = 1, xr_out = [], xr_err = [m]\<rparr>
      | Inl Uncaught \<Rightarrow> None)"

text \<open>
  The configuration is loaded only if no output is given. \<open>dump\<close> is \<open>json.dump\<close> with an indent of
  two, onto a disk that may be full.
\<close>

definition keygen_path :: "str option \<Rightarrow> cli_exn + config \<Rightarrow> cli_exn + str" where
  "keygen_path output loaded =
     (case output of Some p \<Rightarrow> Inr p | None \<Rightarrow> bindr loaded (\<lambda>c. Inr (keygen_destination None c)))"

definition cmd_keygen ::
  "str option \<Rightarrow> bool \<Rightarrow> cli_exn + config \<Rightarrow> rsa_numbers \<Rightarrow> bytes \<Rightarrow> int \<Rightarrow> (json \<Rightarrow> str option) \<Rightarrow> mode \<Rightarrow> files
     \<Rightarrow> (cli_exn + cli_result) \<times> files" where
  "cmd_keygen output force loaded key pem now dump umask fs =
     (case keygen_path output loaded of
        Inl e \<Rightarrow> (Inl e, fs)
      | Inr destination \<Rightarrow>
          if \<not> keygen_allowed (fs destination \<noteq> None) force then
            (Inr (stopped (destination @ '' already exists; pass --force to replace it '' @
               ''(every token signed by the old key stops verifying)'')), fs)
          else
            (let kid = signing_key_id pem now;
                 jwk = private_key_to_jwk key kid (now div 3600 * 3600);
                 (ok, fs') = write_private_jwk umask destination (dump (JObj jwk)) fs
             in (if ok then Inr (finished [''signing key written to '' @ destination @ '' (kid '' @ kid @ '')''])
                 else Inl Uncaught, fs')))"

text \<open>\<open>cmd_serve\<close> up to the server loop: \<open>opened\<close> is what \<open>open_database\<close> makes of the database.\<close>

definition cmd_serve ::
  "str \<Rightarrow> str option \<Rightarrow> str option \<Rightarrow> int option \<Rightarrow> cli_exn + config \<Rightarrow> cli_exn + unit \<Rightarrow> files \<Rightarrow> cli_exn + cli_result" where
  "cmd_serve version level host port loaded opened fs =
     bindr loaded (\<lambda>c.
     let (lv, h, p) = serve_settings c level host port in
     if fs (pc_signing_key (cf_paths c)) = None then
       Inr (stopped (''no signing key at '' @ pc_signing_key (cf_paths c) @ ''; run `fxa-lite keygen` first''))
     else bindr opened (\<lambda>_.
       Inr \<lparr>xr_status = 0,
         xr_out = [''fxa-lite '' @ version @ '' serving '' @ cf_public_url c @ '' on '' @ h @ '':'' @ show_int p],
         xr_err = (if lv = ''debug''
           then [''tracing request and response bodies; credentials are redacted, '' @
             ''but treat the output as sensitive''] else [])\<rparr>))"

subsection \<open>Who may read a file\<close>

text \<open>\<open>_warn_if_readable\<close>: whether the log says so. A file that is gone is not warned about.\<close>

definition warn_if_readable :: "str \<Rightarrow> files \<Rightarrow> bool" where
  "warn_if_readable path fs = (case fs path of None \<Rightarrow> False | Some f \<Rightarrow> \<not> owner_only (fl_mode f))"

text \<open>\<open>_restrict\<close>: \<open>may\<close> is whether \<open>chmod\<close> works there. The answer is whether it warns.\<close>

definition restrict_file :: "bool \<Rightarrow> str \<Rightarrow> files \<Rightarrow> bool \<times> files" where
  "restrict_file may path fs =
     (case fs path of
        None \<Rightarrow> (False, fs)
      | Some f \<Rightarrow>
          if owner_only (fl_mode f) then (False, fs)
          else if may then (False, fs(path \<mapsto> f\<lparr>fl_mode := OWNER_ONLY\<rparr>))
          else (True, fs))"

lemma temporary_apart [simp]: "temporary_of path \<noteq> path" "path \<noteq> temporary_of path"
  by (simp_all add: temporary_of_def)

lemma owner_only_created: "owner_only (OWNER_ONLY AND m)"
proof -
  have "OWNER_ONLY AND GROUP_OTHER = 0" by (simp add: OWNER_ONLY_def GROUP_OTHER_def)
  then show ?thesis unfolding owner_only_def by (metis and.assoc and.commute and_zero_eq)
qed

text \<open>The destination after a write, and every other file.\<close>

lemma write_private_jwk_effect:
  "write_private_jwk umask destination (Some s) fs = (True, fs') \<Longrightarrow>
    fs' destination = Some \<lparr>fl_mode = (case fs (temporary_of destination) of None \<Rightarrow> OWNER_ONLY AND NOT umask | Some f \<Rightarrow> fl_mode f),
      fl_text = s @ [newline]\<rparr> \<and> fs' (temporary_of destination) = None \<and>
    (\<forall>path. path \<notin> {destination, temporary_of destination} \<longrightarrow> fs' path = fs path)"
  by (auto simp: write_private_jwk_def Let_def open_truncated_def write_text_def rename_file_def split: option.splits)

lemma write_always: "\<exists>fs'. write_private_jwk umask destination (Some s) fs = (True, fs')"
  by (simp add: write_private_jwk_def Let_def)

text \<open>A write that fails leaves every file but the temporary one as it was, the old key among them.\<close>

lemma failed_write_keeps_key:
  "write_private_jwk umask destination None fs = (ok, fs') \<Longrightarrow>
    \<not> ok \<and> (\<forall>path. path \<noteq> temporary_of destination \<longrightarrow> fs' path = fs path)"
  by (auto simp: write_private_jwk_def Let_def open_truncated_def)

text \<open>Whatever the umask, a key is its owner's alone, when no temporary file was left behind.\<close>

lemma written_key_is_private:
  assumes "fs (temporary_of destination) = None" "write_private_jwk umask destination (Some s) fs = (True, fs')"
  shows "\<not> warn_if_readable destination fs'"
  using write_private_jwk_effect [OF assms(2)] assms(1) owner_only_created by (simp add: warn_if_readable_def)

text \<open>One that was left behind keeps its mode, and the key that replaces it has that mode.\<close>

lemma stale_temporary_keeps_mode:
  assumes "fs (temporary_of destination) = Some f" "\<not> owner_only (fl_mode f)"
    and "write_private_jwk umask destination (Some s) fs = (True, fs')"
  shows "warn_if_readable destination fs'"
  using write_private_jwk_effect [OF assms(3)] assms(1,2) by (simp add: warn_if_readable_def)

lemma stale_temporary_sample:
  "let fs = [''key.json.tmp'' \<mapsto> \<lparr>fl_mode = 0x1A4, fl_text = []\<rparr>];
       (ok, fs') = write_private_jwk 0x3F ''key.json'' (Some ''{}'') fs
   in ok \<and> map_option fl_mode (fs' ''key.json'') = Some 0x1A4"
  by (simp add: write_private_jwk_def open_truncated_def write_text_def rename_file_def temporary_of_def)

text \<open>Narrowing: nothing is widened, a mode that cannot be narrowed is reported, twice is once.\<close>

lemma restrict_file_effect:
  assumes "restrict_file may path fs = (warned, fs')"
  shows "may \<Longrightarrow> \<not> warn_if_readable path fs' \<and> \<not> warned" "warned \<longleftrightarrow> \<not> may \<and> warn_if_readable path fs"
    "warned \<Longrightarrow> fs' = fs" "q \<noteq> path \<Longrightarrow> fs' q = fs q" "restrict_file may path fs' = (warned, fs')"
proof -
  have o: "owner_only OWNER_ONLY" by (simp add: owner_only_def OWNER_ONLY_def GROUP_OTHER_def)
  show "may \<Longrightarrow> \<not> warn_if_readable path fs' \<and> \<not> warned" "warned \<longleftrightarrow> \<not> may \<and> warn_if_readable path fs"
    "warned \<Longrightarrow> fs' = fs" "q \<noteq> path \<Longrightarrow> fs' q = fs q" "restrict_file may path fs' = (warned, fs')"
    using assms o by (auto simp: restrict_file_def warn_if_readable_def split: option.splits if_splits)
qed

text \<open>Without \<open>--force\<close> no key is lost: a file that is there is left, and the command stops with 1.\<close>

lemma keygen_refuses:
  assumes "keygen_path output loaded = Inr destination" "fs destination \<noteq> None"
  shows "snd (cmd_keygen output False loaded key pem now dump umask fs) = fs \<and>
    (\<exists>r. fst (cmd_keygen output False loaded key pem now dump umask fs) = Inr r \<and> xr_status r = 1)"
  using assms by (simp add: cmd_keygen_def keygen_allowed_def stopped_def)

text \<open>
  A key that was generated is a key the server can load: under the id that was printed, private to
  its owner, and verifying under its own numbers.
\<close>

lemma keygen_then_load:
  assumes p: "keygen_path output loaded = Inr destination" "fs (temporary_of destination) = None"
      "force \<or> fs destination = None"
    and kid: "kid = signing_key_id pem now" "jwk = private_key_to_jwk key kid (now div 3600 * 3600)"
    and dump: "dump (JObj jwk) = Some s"
  shows "\<exists>r fs'. cmd_keygen output force loaded key pem now dump umask fs = (Inr r, fs') \<and> xr_status r = 0 \<and>
    map_option fl_text (fs' destination) = Some (s @ [newline]) \<and> \<not> warn_if_readable destination fs' \<and>
    (\<exists>l. load_keys jwk None = Some l \<and> lk_private l = key \<and> lk_kid l = kid \<and>
      lk_verifiers l = [(JStr kid, (rsa_n key, rsa_e key))])"
proof -
  obtain fs' where w: "write_private_jwk umask destination (Some s) fs = (True, fs')" using write_always by blast
  have allowed: "keygen_allowed (fs destination \<noteq> None) force" using p(3) by (auto simp: keygen_allowed_def)
  have run: "cmd_keygen output force loaded key pem now dump umask fs =
      (Inr (finished [''signing key written to '' @ destination @ '' (kid '' @ kid @ '')'']), fs')"
    using p(1) allowed w dump kid by (simp add: cmd_keygen_def Let_def)
  have "kid \<noteq> []" by (simp add: kid(1) signing_key_id_def split_beta)
  then obtain c k where ck: "kid = c # k" by (cases kid) auto
  have j: "jwk_to_private_key jwk = Some key" "\<exists>pub. public_jwk jwk = Some pub" "obj_get jwk ''kid'' = JStr kid"
    using published_jwk [of key kid "now div 3600 * 3600"] unfolding kid(2)
    by (auto simp: private_key_to_jwk_def obj_get_def)
  then have "\<exists>l. load_keys jwk None = Some l \<and> lk_private l = key \<and> lk_kid l = kid \<and>
      lk_verifiers l = [(JStr kid, (rsa_n key, rsa_e key))]"
    unfolding load_keys_def by (auto simp: ck Let_def)
  then show ?thesis
    using run write_private_jwk_effect [OF w] written_key_is_private [OF p(2) w] by (simp add: finished_def)
qed

end
