(* ===== verification/Migrate.thy ===== *)
theory Migrate
  imports Prelude
begin

text \<open>
  \<open>Database.migrate\<close>: the schema version of a file and the DDL steps it has had. A step and its version
  stamp are one SQLite transaction, so a process that dies in the middle of one leaves the file as
  before that step; \<open>survives\<close> is how many steps it lives through. The DDL of a step is its number.
\<close>

record schema_file =
  sf_user_version :: int
  sf_applied :: "nat list"

definition new_file :: schema_file where
  "new_file = \<lparr>sf_user_version = 0, sf_applied = []\<rparr>"

definition MIGRATIONS :: "nat list" where "MIGRATIONS = [1, 2, 3, 4]"

definition SCHEMA_VERSION :: int where "SCHEMA_VERSION = int (length MIGRATIONS)"

text \<open>\<open>MIGRATIONS[version:]\<close>: a negative start counts from the end.\<close>

definition slice_from :: "int \<Rightarrow> 'a list \<Rightarrow> 'a list" where
  "slice_from n xs = drop (nat (if n < 0 then int (length xs) + n else n)) xs"

definition apply_step :: "int \<times> nat \<Rightarrow> schema_file \<Rightarrow> schema_file" where
  "apply_step sd f = f\<lparr>sf_user_version := fst sd, sf_applied := sf_applied f @ [snd sd]\<rparr>"

definition pending :: "schema_file \<Rightarrow> (int \<times> nat) list" where
  "pending f = (let ddls = slice_from (sf_user_version f) MIGRATIONS
     in zip (map (\<lambda>i. sf_user_version f + 1 + int i) [0..<length ddls]) ddls)"

text \<open>\<open>None\<close> is the \<open>DatabaseError\<close> for a file a newer program wrote; it is not touched then.\<close>

definition migrate :: "nat \<Rightarrow> schema_file \<Rightarrow> schema_file option" where
  "migrate survives f =
     (if SCHEMA_VERSION < sf_user_version f then None
      else Some (fold apply_step (take survives (pending f)) f))"

text \<open>A file some run of this program, or of an older one, has left.\<close>

inductive migrated :: "schema_file \<Rightarrow> bool" where
  migrated_new: "migrated new_file"
| migrated_run: "migrated f \<Longrightarrow> migrate survives f = Some f' \<Longrightarrow> migrated f'"

text \<open>A file at version \<open>n\<close> has had exactly the first \<open>n\<close> steps, once each and in order.\<close>

definition file_ok :: "schema_file \<Rightarrow> bool" where
  "file_ok f \<longleftrightarrow> 0 \<le> sf_user_version f \<and> sf_user_version f \<le> SCHEMA_VERSION \<and>
     sf_applied f = take (nat (sf_user_version f)) MIGRATIONS"

lemma pending_ok:
  assumes "file_ok f"
  shows "pending f = map (\<lambda>i. (int (Suc i), MIGRATIONS ! i)) [nat (sf_user_version f)..<length MIGRATIONS]"
proof -
  define n where "n = nat (sf_user_version f)"
  have n: "sf_user_version f = int n" "n \<le> length MIGRATIONS"
    using assms by (auto simp: file_ok_def n_def SCHEMA_VERSION_def nat_le_iff)
  show ?thesis
    unfolding pending_def n(1) by (rule nth_equalityI) (use n in \<open>simp_all add: slice_from_def\<close>)
qed

lemma apply_steps_ok:
  assumes "file_ok f" "n = nat (sf_user_version f)" "n + k \<le> length MIGRATIONS"
  shows "fold apply_step (map (\<lambda>i. (int (Suc i), MIGRATIONS ! i)) [n..<n + k]) f =
    f\<lparr>sf_user_version := int (n + k), sf_applied := take (n + k) MIGRATIONS\<rparr>"
  using assms(3)
proof (induction k)
  case 0
  then show ?case using assms(1,2) by (simp add: file_ok_def)
next
  case (Suc k)
  then show ?case by (simp add: apply_step_def take_Suc_conv_app_nth)
qed

lemma migrate_exact:
  assumes "file_ok f"
  shows "migrate survives f = Some (let v = min (nat (sf_user_version f) + survives) (length MIGRATIONS)
    in f\<lparr>sf_user_version := int v, sf_applied := take v MIGRATIONS\<rparr>)"
proof -
  define n where "n = nat (sf_user_version f)"
  define k where "k = min survives (length MIGRATIONS - n)"
  have n: "n \<le> length MIGRATIONS" using assms by (auto simp: file_ok_def n_def SCHEMA_VERSION_def nat_le_iff)
  have "take survives [n..<length MIGRATIONS] = [n..<n + k]"
    by (rule nth_equalityI) (auto simp: k_def)
  then have "take survives (pending f) = map (\<lambda>i. (int (Suc i), MIGRATIONS ! i)) [n..<n + k]"
    unfolding pending_ok [OF assms] n_def [symmetric] take_map by simp
  moreover have "min (n + survives) (length MIGRATIONS) = n + k" using n unfolding k_def by linarith
  moreover have "n + k \<le> length MIGRATIONS" using n by (simp add: k_def)
  ultimately show ?thesis
    using assms apply_steps_ok [OF assms n_def, of k] unfolding migrate_def n_def [symmetric]
    by (simp add: file_ok_def)
qed

lemma migrated_ok: "migrated f \<Longrightarrow> file_ok f"
proof (induction rule: migrated.induct)
  case migrated_new
  show ?case by (simp add: file_ok_def new_file_def SCHEMA_VERSION_def MIGRATIONS_def)
next
  case (migrated_run f survives f')
  then show ?case by (auto simp: migrate_exact file_ok_def SCHEMA_VERSION_def Let_def)
qed

text \<open>
  However often a migration was cut short and begun again, the file has had the first steps, once each,
  and a migration that is let run brings it to the current schema; a file from a newer program is refused.
\<close>

lemma interrupted_migrations_converge:
  assumes "migrated f"
  shows "file_ok f" "migrate (length MIGRATIONS) f = Some \<lparr>sf_user_version = 4, sf_applied = [1, 2, 3, 4]\<rparr>"
  using migrated_ok [OF assms] migrate_exact [OF migrated_ok [OF assms], of "length MIGRATIONS"]
  by (cases f; simp add: MIGRATIONS_def)+

lemma newer_file_refused: "SCHEMA_VERSION < sf_user_version f \<Longrightarrow> migrate survives f = None"
  by (simp add: migrate_def)

end
