(* ===== verification/Statements.thy ===== *)
theory Statements
  imports OauthCodes OauthTokenserver AttachedProps AccountClaims DeviceProps Cli
begin

text \<open>
  What holds of every statement holds of every handler. The locale \<open>statement_law\<close> is the contract
  between \<open>db.py\<close> and the handlers of the accounts tier: a predicate on databases that every
  statement those handlers execute keeps. \<open>oauth_law\<close> extends it with the statements of the OAuth
  routes and with the writes of the tokenserver. Inside them each handler keeps the predicate,
  whatever it answers; the predicates themselves come later.
\<close>

subsection \<open>Sequencing\<close>

lemma andthen_keeps:
  assumes "P (snd r)" and "\<And>a. fst r = Inr a \<Longrightarrow> P (snd r) \<Longrightarrow> P (snd (f a (snd r)))"
  shows "P (snd (andthen r f))"
  using assms by (cases r; cases "fst r") auto

lemma insert_row_keeps:
  assumes "P db" and "\<And>db'. r = Inr db' \<Longrightarrow> P db'"
  shows "P (snd (insert_row r db))"
  using assms by (cases r) auto

lemma on_db_snd: "snd (on_db r th) = (snd r, th)"
  by (cases r) (simp add: on_db_def)

lemma hex_of_eq_Nil: "hex_of bs = [] \<longleftrightarrow> bs = []"
  using hex_of_shape(2) [of bs] by (metis length_0_conv mult_is_0 zero_neq_numeral)

text \<open>A token id is never empty: an id is 32 derived bytes in hex, a hash a digest in hex.\<close>

lemma token_id_named: "derive_token_keys t d = Some k \<Longrightarrow> hex_of (tk_id k) \<noteq> []"
  using derive_total [of 96 d "token_type_id t" "[]"]
  by (auto simp: derive_token_keys_def hex_of_eq_Nil split: if_splits)

lemma hash_token_named: "hash_token x = Some h \<Longrightarrow> h \<noteq> []"
  by (auto simp: hash_token_def hex_of_eq_Nil) (metis length_0_conv sha256_length zero_neq_numeral)

subsection \<open>The accounts tier\<close>

locale statement_law =
  fixes I :: "database \<Rightarrow> bool"
  assumes create_account: "I db \<Longrightarrow> create_account a db = Some db' \<Longrightarrow> I db'"
    and create_session: "I db \<Longrightarrow> st_token_id tok \<noteq> [] \<Longrightarrow> create_session_token tok db = Inr db' \<Longrightarrow> I db'"
    and touch_session: "I db \<Longrightarrow> I (touch_session_token i now db)"
    and reauthenticate: "I db \<Longrightarrow> I (reauthenticate_session_token i now db)"
    and delete_session: "I db \<Longrightarrow> I (snd (delete_session_token i db))"
    and create_key_fetch: "I db \<Longrightarrow> create_key_fetch_token kf db = Inr db' \<Longrightarrow> I db'"
    and delete_key_fetch: "I db \<Longrightarrow> I (snd (delete_key_fetch_token i db))"
    and upsert_dev: "I db \<Longrightarrow> upsert_device d db = Inr db' \<Longrightarrow> I db'"
    and delete_dev: "I db \<Longrightarrow> I (snd (delete_device uid i db))"
    and delete_acc: "I db \<Longrightarrow> I (snd (delete_account uid db))"
begin

lemmas db_step = andthen_keeps [where P = I]
lemmas row_step = insert_row_keeps [where P = I]
lemmas state_step = andthen_keeps [where P = "\<lambda>s. I (fst s)"]

lemma provision_keeps: "I db \<Longrightarrow> I (snd (provision email pw locale rnd now db))"
  unfolding provision_def Let_def
  by (intro db_step) (auto intro: create_account split: option.split)

lemma provision_password_keeps: "I db \<Longrightarrow> I (snd (provision_with_password email password locale rnd now db))"
  unfolding provision_with_password_def
  by (intro db_step) (auto intro: provision_keeps)

lemma start_session_keeps: "I db \<Longrightarrow> I (snd (start_session a ua auth_at now rnd db))"
  unfolding start_session_def Let_def
  by (intro db_step row_step)
    (auto intro: create_session [rotated 2] simp: new_session_def of_option_eq_Inr token_id_named)

lemma start_key_fetch_keeps: "I db \<Longrightarrow> I (snd (start_key_fetch a stretched now rnd db))"
  unfolding start_key_fetch_def
  by (intro db_step row_step) (auto intro: create_key_fetch)

lemma with_key_fetch_keeps: "I db \<Longrightarrow> I (snd (with_key_fetch keys a stretched now rnd resp db))"
  unfolding with_key_fetch_def
  by (auto intro!: db_step start_key_fetch_keeps)

lemma password_authenticated_keeps: "I (fst s) \<Longrightarrow> I (fst (snd (password_authenticated email pw chk f s)))"
  unfolding password_authenticated_def
  by (rule state_step) (auto split: prod.split)

lemma account_create_keeps: "I db \<Longrightarrow> I (snd (account_create reg p keys lang ua now rnd toks db))"
  unfolding account_create_def
  by (intro db_step)
    (auto intro!: db_step provision_keeps start_session_keeps with_key_fetch_keeps split: prod.split)

lemma account_login_keeps: "I (fst s) \<Longrightarrow> I (fst (snd (account_login p keys ua now chk f toks s)))"
  unfolding account_login_def
  by (rule state_step, erule password_authenticated_keeps)
    (auto simp: on_db_snd split: prod.split intro!: db_step start_session_keeps with_key_fetch_keeps)

lemma account_keys_keeps: "I db \<Longrightarrow> I (snd (account_keys header db))"
  unfolding account_keys_def by (intro db_step) (auto intro: delete_key_fetch)

lemma account_destroy_keeps: "I (fst s) \<Longrightarrow> I (fst (snd (account_destroy header email pw chk f s)))"
  unfolding account_destroy_def
  by (intro state_step)
    (auto split: prod.split intro!: state_step password_authenticated_keeps delete_acc)

lemma session_destroy_keeps: "I db \<Longrightarrow> I (snd (session_destroy header custom db))"
  unfolding session_destroy_def by (intro db_step) (auto intro: delete_session)

lemma session_duplicate_keeps: "I db \<Longrightarrow> I (snd (session_duplicate header ua now rnd db))"
  unfolding session_duplicate_def Let_def
  by (intro db_step row_step)
    (auto intro: create_session [rotated 2] simp: of_option_eq_Inr token_id_named)

lemma session_reauth_keeps: "I (fst s) \<Longrightarrow> I (fst (snd (session_reauth header p keys now chk f rnd s)))"
  unfolding session_reauth_def
  by (intro state_step)
    (auto split: prod.split simp: on_db_snd
      intro!: state_step password_authenticated_keeps with_key_fetch_keeps reauthenticate)

lemma device_register_keeps: "I db \<Longrightarrow> I (snd (device_register reg header p ua now rnd db))"
  unfolding device_register_def Let_def
  by (intro db_step row_step) (auto intro: upsert_dev)

lemma device_list_keeps: "I db \<Longrightarrow> I (snd (device_list reg header idle now db))"
  unfolding device_list_def Let_def touch_caller_def
  by (intro db_step) (auto intro: touch_session split: option.split)

lemma device_destroy_keeps: "I db \<Longrightarrow> I (snd (device_destroy reg header i db))"
proof -
  assume I: "I db"
  have "I (snd (case delete_device uid i db of (None, db') \<Rightarrow> (Inl (Fxa unknown_device), db')
        | (Some _, db') \<Rightarrow> (Inr (JObj []), db')))" for uid
    using delete_dev [OF I, of uid i] by (auto split: prod.split option.split)
  then show ?thesis using I unfolding device_destroy_def by (intro db_step) auto
qed

lemma attached_clients_keeps: "I db \<Longrightarrow> I (snd (attached_clients reg header idle now db))"
  unfolding attached_clients_def Let_def by (intro db_step) (auto intro: touch_session)

lemma attached_oauth_keeps: "I db \<Longrightarrow> I (snd (attached_oauth_clients reg header now db))"
  unfolding attached_oauth_clients_def Let_def by (intro db_step) (auto intro: touch_session)

lemma account_add_keeps: "I db \<Longrightarrow> I (snd (cmd_account_add email given first again rnd now db))"
proof -
  assume "I db"
  then have "I d" if "provision_with_password email pw None rnd now db = (x, d)" for pw x d
    using provision_password_keeps [of db email pw None rnd now] that by simp
  with \<open>I db\<close> show ?thesis
    unfolding cmd_account_add_def by (auto split: option.split prod.split sum.split fxa_exn.split)
qed

lemma account_remove_keeps: "I db \<Longrightarrow> I (snd (cmd_account_remove email force answer db))"
  by (auto simp: cmd_account_remove_def intro: delete_acc split: option.split)

lemmas account_keeps =
  account_create_keeps account_login_keeps account_keys_keeps account_destroy_keeps session_destroy_keeps
  session_duplicate_keeps session_reauth_keeps device_register_keeps device_list_keeps device_destroy_keeps
  attached_clients_keeps attached_oauth_keeps account_add_keeps account_remove_keeps

end

subsection \<open>The OAuth tier and the tokenserver\<close>

locale oauth_law = statement_law +
  assumes create_code: "I db \<Longrightarrow> create_oauth_code c db = Inr db' \<Longrightarrow> I db'"
    and delete_code: "I db \<Longrightarrow> I (snd (delete_oauth_code i db))"
    and sweep_codes: "I db \<Longrightarrow> I (snd (delete_expired_oauth_codes cutoff db))"
    and create_refresh: "I db \<Longrightarrow> rt_token_id tok \<noteq> [] \<Longrightarrow> create_refresh_token tok db = Inr db' \<Longrightarrow> I db'"
    and touch_refresh: "I db \<Longrightarrow> I (touch_refresh_token i now db)"
    and delete_refresh: "I db \<Longrightarrow> I (snd (delete_refresh_token i db))"
begin

lemma authorization_keeps:
  assumes "I db" "oauth_authorization env header p now code db = (r, db')"
  shows "I db'"
  using assms(2) by (cases rule: authorization_state) (use assms(1) in \<open>auto intro: sweep_codes create_code\<close>)

lemma grant_keeps: "I db \<Longrightarrow> grant_for env header c p now db = (r, db') \<Longrightarrow> I db'"
  using grant_for_state delete_code touch_refresh by metis

lemma token_keeps:
  assumes "I db" "oauth_token env header p now jti fresh db = (r, db')"
  shows "I db'"
  using assms(2)
proof (cases rule: oauth_token_state)
  case same
  then show ?thesis using assms(1) by simp
next
  case (refused c x)
  then show ?thesis using grant_keeps [OF assms(1)] by blast
next
  case (granted c g db1)
  have "I db1" by (rule grant_keeps [OF assms(1) granted(2)])
  with granted(3) show ?thesis
    by (cases rule: generate_tokens_state) (auto intro: create_refresh dest: hash_token_named)
qed

lemma revoke_keeps: "I db \<Longrightarrow> I (snd (revoke found i db))"
  unfolding revoke_def by (auto intro!: db_step delete_refresh split: option.split)

lemma oauth_destroy_keeps: "I db \<Longrightarrow> I (snd (oauth_destroy p db))"
  unfolding oauth_destroy_def by (intro db_step) (auto intro: revoke_keeps)

lemma legacy_destroy_keeps: "I db \<Longrightarrow> I (snd (legacy_destroy p db))"
  unfolding legacy_destroy_def by (auto intro!: db_step revoke_keeps)

end

text \<open>
  The tokenserver writes one table. \<open>users_emptied\<close> is the rest of the database.
\<close>

definition users_emptied :: "database \<Rightarrow> database" where
  "users_emptied db = db\<lparr>db_sync_users := [], db_sync_users_seq := 0\<rparr>"

lemma insert_user_rest: "insert_user auth g k now db = (r, db') \<Longrightarrow> users_emptied db' = users_emptied db"
  by (auto simp: insert_user_def create_sync_user_def users_emptied_def Let_def split: if_splits sum.splits)

lemma reconcile_rest: "users_emptied (reconcile c h db) = users_emptied db"
  unfolding reconcile_def by (induction h arbitrary: db) (simp_all add: users_emptied_def replace_sync_user_def)

lemma current_user_rest: "current_user db auth now = (r, db') \<Longrightarrow> users_emptied db' = users_emptied db"
  using insert_user_rest reconcile_rest
  by (fastforce simp: current_user_def split: list.splits if_splits prod.splits sum.splits)

lemma apply_update_rest: "apply_update db auth u now = (r, db') \<Longrightarrow> users_emptied db' = users_emptied db"
  using insert_user_rest
  by (fastforce simp: apply_update_def Let_def update_sync_user_def replace_other_sync_users_def users_emptied_def
      split: if_splits prod.splits sum.splits)

lemma allocate_rest: "allocate db auth now = (r, db') \<Longrightarrow> users_emptied db' = users_emptied db"
  using current_user_rest apply_update_rest
  by (fastforce simp: allocate_def split: prod.splits sum.splits)

end
