(* ===== verification/Server.thy ===== *)
theory Server
  imports Statements SyncDelta
begin

text \<open>
  The server as one state machine: the database and the throttle, and every request, command and
  accident that changes them. The contracts of \<open>Statements\<close> are met here by the invariants the
  components rest on, so each of them holds however the server has been used.
\<close>

subsection \<open>The invariants meet the contracts\<close>

lemma ts_inv_same:
  assumes "ts_inv db" "wf_db db'" "db_sync_users db' = db_sync_users db"
  shows "ts_inv db'"
proof -
  have "users_of f db' = users_of f db" "sync_users f db' = sync_users f db" for f
    using assms(3) by (simp_all add: users_of_def sync_users_def)
  then show ?thesis using assms(1,2) by (simp add: ts_inv_def users_inv_def)
qed

lemma ts_inv_delete_account:
  assumes "ts_inv db" shows "ts_inv (snd (delete_account uid db))"
proof -
  let ?d = "snd (delete_account uid db)"
  have wf: "wf_db db" "wf_db ?d" using assms delete_account_wf by (auto simp: ts_inv_def)
  have gone: "users_of uid ?d = {}"
    by (auto simp: users_of_def delete_account_def Let_def cascade_sync_users_def cascade_session_tokens_def)
  have kept: "users_of f ?d = users_of f db" if "f \<noteq> uid" for f
    using that wf_uniq_users [OF wf(1)] uniq_eq [of su_uid "db_sync_users db"]
    by (auto simp: users_of_def delete_account_def Let_def cascade_sync_users_def cascade_session_tokens_def)
  have "users_inv f ?d" for f
  proof (cases "f = uid")
    case True
    then show ?thesis using gone sync_users_Nil [of uid ?d] by (simp add: users_inv_def)
  next
    case False
    have "users_inv f db" using assms by (simp add: ts_inv_def)
    then show ?thesis using users_untouched [OF wf kept [OF False]] by simp
  qed
  then show ?thesis using wf(2) by (simp add: ts_inv_def)
qed

lemma delete_device_users: "db_sync_users (snd (delete_device uid i db)) = db_sync_users db"
  by (auto simp: delete_device_def Let_def delete_session_token_def delete_refresh_token_def
      cascade_session_tokens_def split: option.split)

lemmas insert_defs =
  create_account_def create_session_token_def create_key_fetch_token_def upsert_device_def
  create_oauth_code_def create_refresh_token_def
lemmas change_defs =
  touch_session_token_def reauthenticate_session_token_def delete_session_token_def cascade_session_tokens_def
  delete_key_fetch_token_def delete_oauth_code_def delete_expired_oauth_codes_def touch_refresh_token_def
  delete_refresh_token_def

lemma ts_inv_step:
  "ts_inv db \<Longrightarrow> (wf_db db \<Longrightarrow> wf_db db') \<Longrightarrow> db_sync_users db' = db_sync_users db \<Longrightarrow> ts_inv db'"
  using ts_inv_same by (simp add: ts_inv_def)

interpretation users: oauth_law ts_inv
  by unfold_locales
    (erule ts_inv_delete_account | erule ts_inv_step,
      (erule (1) statement_wf | erule statement_wf),
      (auto simp: insert_defs change_defs delete_device_users split: if_splits)[1])+

subsection \<open>Delta sync\<close>

lemma sync_inv_delete_account:
  assumes "sync_inv db" shows "sync_inv (snd (delete_account uid db))"
proof -
  have "row_stamped (delete_where (\<lambda>u. uc_uid u \<in> uids) (db_user_collections db)) r"
    if "r \<in> set (db_bso db)" "br_uid r \<notin> uids" for r uids
    using assms that by (fastforce simp: sync_inv_def row_stamped_def uc_key_def)
  then show ?thesis
    using assms by (auto simp: sync_inv_def delete_account_def Let_def cascade_sync_users_def cascade_session_tokens_def)
qed

lemma delete_device_storage:
  "db_bso (snd (delete_device uid i db)) = db_bso db"
  "db_user_collections (snd (delete_device uid i db)) = db_user_collections db"
  by (auto simp: delete_device_def Let_def delete_session_token_def delete_refresh_token_def
      cascade_session_tokens_def split: option.split)

lemma sync_inv_step:
  "sync_inv db \<Longrightarrow> db_bso db' = db_bso db \<and> db_user_collections db' = db_user_collections db \<Longrightarrow> sync_inv db'"
  using sync_inv_cong by blast

interpretation stamps: oauth_law sync_inv
  by unfold_locales
    (erule sync_inv_delete_account | erule sync_inv_step,
      (auto simp: insert_defs change_defs delete_device_storage split: if_splits)[1])+

subsection \<open>Named tokens, and what OAuth stores\<close>

lemma named_sub:
  assumes "named_tokens db" "st_token_id ` set (db_session_tokens db') \<subseteq> st_token_id ` set (db_session_tokens db)"
    and "rt_token_id ` set (db_refresh_tokens db') \<subseteq> rt_token_id ` set (db_refresh_tokens db)"
  shows "named_tokens db'"
  using assms by (fastforce simp: named_tokens_def list_all_iff)

lemma named_append:
  "named_tokens db \<Longrightarrow> st_token_id t \<noteq> [] \<Longrightarrow> named_tokens (db\<lparr>db_session_tokens := db_session_tokens db @ [t]\<rparr>)"
  "named_tokens db \<Longrightarrow> rt_token_id r \<noteq> [] \<Longrightarrow> named_tokens (db\<lparr>db_refresh_tokens := db_refresh_tokens db @ [r]\<rparr>)"
  by (simp_all add: named_tokens_def)

lemma device_deletion_tokens:
  "set (db_session_tokens (snd (delete_device uid i db))) \<subseteq> set (db_session_tokens db)"
  "set (db_refresh_tokens (snd (delete_device uid i db))) \<subseteq> set (db_refresh_tokens db)"
  "db_oauth_codes (snd (delete_device uid i db)) = db_oauth_codes db"
  by (auto simp: delete_device_def Let_def delete_session_token_def delete_refresh_token_def
      cascade_session_tokens_def split: option.splits)

lemma account_deletion_sessions:
  "set (db_session_tokens (snd (delete_account uid db))) \<subseteq> set (db_session_tokens db)"
  by (auto simp: delete_account_def Let_def cascade_sync_users_def cascade_session_tokens_def)

interpretation named: oauth_law named_tokens
proof unfold_locales
  fix db uid i now
  assume n: "named_tokens db"
  show "named_tokens (snd (delete_device uid i db))" "named_tokens (snd (delete_account uid db))"
    using device_deletion_tokens [of uid i db] account_deletion_sessions [of uid db] tokens_delete_account [of uid db]
    by (auto intro!: named_sub [OF n] image_mono)
  show "named_tokens (touch_session_token i now db)" "named_tokens (reauthenticate_session_token i now db)"
    "named_tokens (touch_refresh_token i now db)"
    by (auto intro!: named_sub [OF n] simp: change_defs set_update_where)
qed (auto simp: insert_defs change_defs named_append intro: named_sub split: if_splits)

lemma oauth_elsewhere:
  "oauth_reachable env db \<Longrightarrow> db_oauth_codes db' = db_oauth_codes db \<and> db_refresh_tokens db' = db_refresh_tokens db \<Longrightarrow>
     oauth_reachable env db'"
  using oauth_reachable.step oauth_step.elsewhere by blast

interpretation grants_ok: statement_law "oauth_reachable env" for env :: "'key oauth_env"
  by unfold_locales
    (erule oauth_reachable.step, rule oauth_step.account_deletion oauth_step.device_deletion | erule oauth_elsewhere,
      (auto simp: insert_defs change_defs split: if_splits)[1])+

subsection \<open>The storage tier and the tokenserver\<close>

definition server_inv :: "'key oauth_env \<Rightarrow> database \<Rightarrow> bool" where
  "server_inv env db \<longleftrightarrow> ts_inv db \<and> sync_inv db \<and> named_tokens db \<and> oauth_reachable env db"

lemma users_emptied_fields:
  "db_bso (users_emptied db) = db_bso db" "db_user_collections (users_emptied db) = db_user_collections db"
  "db_session_tokens (users_emptied db) = db_session_tokens db"
  "db_refresh_tokens (users_emptied db) = db_refresh_tokens db"
  "db_oauth_codes (users_emptied db) = db_oauth_codes db"
  by (simp_all add: users_emptied_def)

lemma users_emptied_same:
  assumes "users_emptied db' = users_emptied db"
  shows "db_bso db' = db_bso db"
    "db_user_collections db' = db_user_collections db"
    "db_session_tokens db' = db_session_tokens db"
    "db_refresh_tokens db' = db_refresh_tokens db"
    "db_oauth_codes db' = db_oauth_codes db"
  using arg_cong [OF assms, of db_bso]
    arg_cong [OF assms, of db_user_collections]
    arg_cong [OF assms, of db_session_tokens]
    arg_cong [OF assms, of db_refresh_tokens]
    arg_cong [OF assms, of db_oauth_codes]
  unfolding users_emptied_fields by simp_all

lemma users_only_inv:
  assumes "server_inv env db" "users_emptied db' = users_emptied db" "ts_inv db'"
  shows "server_inv env db'"
proof -
  note same = users_emptied_same [OF assms(2)]
  have "sync_inv db'" by (rule sync_inv_step) (use assms(1) same in \<open>simp_all add: server_inv_def\<close>)
  moreover have "oauth_reachable env db'" by (rule oauth_elsewhere) (use assms(1) same in \<open>simp_all add: server_inv_def\<close>)
  ultimately show ?thesis using assms(1,3) same by (simp add: server_inv_def named_tokens_def)
qed

lemma token_step_rest:
  assumes "token_step db db'" shows "users_emptied db' = users_emptied db"
  using assms
proof cases
  case request
  then show ?thesis using allocate_rest by blast
next
  case crash
  then show ?thesis using insert_user_rest reconcile_rest by metis
qed

lemma token_step_inv:
  assumes "token_step db db'" "server_inv env db" shows "server_inv env db'"
  using users_only_inv [OF assms(2) token_step_rest [OF assms(1)]] token_step_ok [OF assms(1)] assms(2)
  by (simp add: server_inv_def step_ok_def)

lemma token_endpoint_step:
  assumes "token_endpoint cf app v rq now salt db = (r, db')"
    and "\<And>auth. auth_data_of cf (now div 1000) rq = Inr auth \<Longrightarrow> ad_generation auth \<noteq> None"
  shows "db' = db \<or> token_step db db'"
proof (cases "auth_data_of cf (now div 1000) rq")
  case (Inl e)
  then show ?thesis using assms(1) by (auto simp: token_endpoint_def split: if_splits)
next
  case (Inr auth)
  obtain x d where a: "allocate db auth now = (x, d)" by fastforce
  then have "db' = db \<or> db' = d"
    using assms(1) Inr by (auto simp: token_endpoint_def split: if_splits sum.splits)
  then show ?thesis using token_step.request [OF assms(2) [OF Inr] a] by blast
qed

lemma storage_emptied_fields:
  "db_sync_users (storage_emptied db) = db_sync_users db" "db_session_tokens (storage_emptied db) = db_session_tokens db"
  "db_refresh_tokens (storage_emptied db) = db_refresh_tokens db" "db_oauth_codes (storage_emptied db) = db_oauth_codes db"
  by (simp_all add: storage_emptied_def)

lemma storage_emptied_same:
  assumes "storage_emptied db' = storage_emptied db"
  shows "db_sync_users db' = db_sync_users db"
    "db_session_tokens db' = db_session_tokens db"
    "db_refresh_tokens db' = db_refresh_tokens db"
    "db_oauth_codes db' = db_oauth_codes db"
  using arg_cong [OF assms, of db_sync_users]
    arg_cong [OF assms, of db_session_tokens]
    arg_cong [OF assms, of db_refresh_tokens]
    arg_cong [OF assms, of db_oauth_codes]
  unfolding storage_emptied_fields by simp_all

lemma serve_inv:
  assumes "server_inv env db" "0 \<le> en_now_ms en" "en_now_ms en < 2 ^ 62"
  shows "server_inv env (snd (serve en rt rq db))"
proof (cases "authenticate_request (en_auth en) (en_now_ms en) rq db")
  case (Inl e)
  have "snd (serve en rt rq db) = db" by (rule serve_cases [of en rt rq db]) (use Inl in auto)
  with assms(1) show ?thesis by simp
next
  case (Inr s)
  have "instant (ss_now s)"
    using assms(2,3) quantize_nonneg [of "en_now_ms en"] quantize_le [of "en_now_ms en"]
      authenticate_request_Inr(2) [OF Inr] by (simp add: instant_def sql_int_def)
  then have k: "storage_emptied (snd (serve en rt rq db)) = storage_emptied db"
    "wf_db (snd (serve en rt rq db))" "sync_inv (snd (serve en rt rq db))"
    using serve_kept [OF Inr, of rt] assms(1) by (simp_all add: kept_def store_frame_def server_inv_def ts_inv_def)
  note same = storage_emptied_same [OF k(1)]
  have "ts_inv (snd (serve en rt rq db))"
    by (rule ts_inv_same [OF _ k(2) same(1)]) (use assms(1) in \<open>simp add: server_inv_def\<close>)
  moreover have "oauth_reachable env (snd (serve en rt rq db))"
    by (rule oauth_elsewhere) (use assms(1) same in \<open>simp_all add: server_inv_def\<close>)
  ultimately show ?thesis using assms(1) k(3) same by (simp add: server_inv_def named_tokens_def)
qed

subsection \<open>The machine\<close>

text \<open>
  A state is the database and the throttle. A step is one handler, answered or refused, from any
  request at any time with any random bytes; a tokenserver request that dies between its writes;
  an administrative command; or a restart, which keeps the file and forgets the counts. A token the
  tokenserver accepts carries \<open>fxa-generation\<close>, as every token of this server does. Routes
  that only read are not steps: they leave the state as it is.
\<close>

inductive server_step :: "'key oauth_env \<Rightarrow> auth_state \<Rightarrow> auth_state \<Rightarrow> bool" for env where
  storage: "0 \<le> en_now_ms en \<Longrightarrow> en_now_ms en < 2 ^ 62 \<Longrightarrow> serve en rt rq db = (a, db') \<Longrightarrow>
    server_step env (db, th) (db', th)"
| tokenserver: "(\<And>auth. auth_data_of cf (now div 1000) rq = Inr auth \<Longrightarrow> ad_generation auth \<noteq> None) \<Longrightarrow>
    token_endpoint (cf :: 'key ts_config) app v rq now salt db = (t, db') \<Longrightarrow> server_step env (db, th) (db', th)"
| rotation_cut: "token_step db db' \<Longrightarrow> server_step env (db, th) (db', th)"
| authorization: "oauth_authorization env header p now code db = (o1, db') \<Longrightarrow> server_step env (db, th) (db', th)"
| token: "oauth_token env header q now jti fresh db = (o2, db') \<Longrightarrow> server_step env (db, th) (db', th)"
| revocation: "oauth_destroy d db = (u, db') \<Longrightarrow> server_step env (db, th) (db', th)"
| legacy_revocation: "legacy_destroy l db = (u, db') \<Longrightarrow> server_step env (db, th) (db', th)"
| create: "account_create reg lr keys lang ua now rnd toks db = (j, db') \<Longrightarrow> server_step env (db, th) (db', th)"
| login: "account_login lr keys ua now chk f toks s = (j, s') \<Longrightarrow> server_step env s s'"
| key_fetch: "account_keys header db = (j, db') \<Longrightarrow> server_step env (db, th) (db', th)"
| deletion: "account_destroy header email pw chk f s = (j, s') \<Longrightarrow> server_step env s s'"
| sign_out: "session_destroy header custom db = (j, db') \<Longrightarrow> server_step env (db, th) (db', th)"
| duplicate: "session_duplicate header ua now rb db = (j, db') \<Longrightarrow> server_step env (db, th) (db', th)"
| reauth: "session_reauth header lr keys now chk f rb s = (j, s') \<Longrightarrow> server_step env s s'"
| registration: "device_register (oe_clients env) header dr ua now rb db = (j, db') \<Longrightarrow> server_step env (db, th) (db', th)"
| device_listing: "device_list (oe_clients env) header idle now db = (j, db') \<Longrightarrow> server_step env (db, th) (db', th)"
| disconnect: "device_destroy (oe_clients env) header i db = (j, db') \<Longrightarrow> server_step env (db, th) (db', th)"
| attached: "attached_clients (oe_clients env) header idle now db = (cs, db') \<Longrightarrow> server_step env (db, th) (db', th)"
| attached_oauth: "attached_oauth_clients (oe_clients env) header now db = (j, db') \<Longrightarrow> server_step env (db, th) (db', th)"
| command_add: "cmd_account_add email given first again rnd now db = (x, db') \<Longrightarrow> server_step env (db, th) (db', th)"
| command_remove: "cmd_account_remove email force answer db = (y, db') \<Longrightarrow> server_step env (db, th) (db', th)"
| restart: "server_step env (db, th) (db, th')"

lemmas account_kept = users.account_keeps stamps.account_keeps named.account_keeps grants_ok.account_keeps
lemma server_invI:
  assumes "server_inv env db" and "ts_inv db \<Longrightarrow> ts_inv db'" "sync_inv db \<Longrightarrow> sync_inv db'"
    "named_tokens db \<Longrightarrow> named_tokens db'" and "oauth_step env db db'"
  shows "server_inv env db'"
  using assms oauth_reachable.step by (auto simp: server_inv_def)

lemma sndI: "r = (a, d) \<Longrightarrow> P (snd r) \<Longrightarrow> P d"
  by simp

lemma server_step_inv:
  assumes "server_step env s s'" "server_inv env (fst s)"
  shows "server_inv env (fst s')"
  using assms
proof (induction rule: server_step.induct)
  case (storage en rt rq db a db' th)
  then show ?case using serve_inv [of env db en rt rq] by simp
next
  case (tokenserver cf now rq app v salt db t db' th)
  then show ?case using token_endpoint_step [OF tokenserver(2,1)] token_step_inv by fastforce
next
  case (rotation_cut db db' th)
  then show ?case using token_step_inv by simp
next
  case (authorization header p now code db o1 db' th)
  from authorization(2) have "server_inv env db" by simp
  then show ?case
    unfolding fst_conv
    by (rule server_invI)
      (rule users.authorization_keeps stamps.authorization_keeps named.authorization_keeps oauth_step.authorization, (assumption | rule authorization(1))+)+
next
  case (token header q now jti fresh db o2 db' th)
  from token(2) have "server_inv env db" by simp
  then show ?case
    unfolding fst_conv
    by (rule server_invI)
      (rule users.token_keeps stamps.token_keeps named.token_keeps oauth_step.token, (assumption | rule token(1))+)+
next
  case (revocation d db u db' th)
  from revocation(2) have "server_inv env db" by simp
  then show ?case
    unfolding fst_conv
    by (rule server_invI)
      (rule sndI [OF revocation(1)], erule users.oauth_destroy_keeps stamps.oauth_destroy_keeps named.oauth_destroy_keeps | rule oauth_step.revocation, rule revocation(1))+
next
  case (legacy_revocation l db u db' th)
  from legacy_revocation(2) have "server_inv env db" by simp
  then show ?case
    unfolding fst_conv
    by (rule server_invI)
      (rule sndI [OF legacy_revocation(1)], erule users.legacy_destroy_keeps stamps.legacy_destroy_keeps named.legacy_destroy_keeps | rule oauth_step.legacy_revocation, rule legacy_revocation(1))+
qed (auto simp: server_inv_def intro: account_kept elim!: sndI)

lemma server_steps_inv:
  assumes "(server_step env)\<^sup>*\<^sup>* s s'" "server_inv env (fst s)"
  shows "server_inv env (fst s')"
  using assms by (induction rule: rtranclp_induct) (blast intro: server_step_inv)+

lemma empty_server_inv: "server_inv (env :: 'key oauth_env) empty_database"
  using empty_database_wf
  by (auto simp: server_inv_def ts_inv_def users_inv_def users_of_def sync_users_def sync_inv_def named_tokens_def
      empty_database_def intro: oauth_reachable.start [unfolded empty_database_def])

text \<open>A server on which one account has signed up.\<close>

lemma signed_up_server:
  obtains db where "server_step env (empty_database, th) (db, th)" "db_accounts db \<noteq> []" "db_session_tokens db \<noteq> []"
proof -
  obtain h where h: "verify_hash (stretch [9] (rn_auth_salt signing_random)) = Some h" using verify_hash_total by blast
  obtain k where k: "derive_token_keys SESSION (tr_session signing_tokens) = Some k"
    by (rule derive_token_keys_Some [of "tr_session signing_tokens" SESSION]) (simp_all add: signing_tokens_def)
  let ?a = "new_account ''A@x'' None signing_random h 5"
  let ?tok = "new_session ?a [] None 5 k"
  let ?db1 = "empty_database\<lparr>db_accounts := [?a]\<rparr>"
  let ?db2 = "?db1\<lparr>db_session_tokens := [?tok]\<rparr>"
  have p: "provision ''A@x'' [9] None signing_random 5 empty_database = (Inr (?a, stretch [9] (rn_auth_salt signing_random)), ?db1)"
    using h by (simp add: provision_Inr create_account_def has_key_def empty_database_def)
  have "st_uid ?tok = acc_uid ?a" by (simp add: new_session_def)
  then have "create_session_token ?tok ?db1 = Inr ?db2"
    by (simp add: create_session_token_def has_account_def has_key_def empty_database_def)
  then have s: "start_session ?a [] None 5 (tr_session signing_tokens) ?db1 = (Inr (k, ?tok), ?db2)"
    by (simp add: start_session_def k Let_def)
  have "auth_pw_of (lg_authPW signing_login) = Inr [9]" "lg_email signing_login = ''A@x''"
    by (simp_all add: auth_pw_of_def signing_login_def fromhex_hex_of bytes_ok_def)
  then have "snd (account_create True signing_login False None None 5 signing_random signing_tokens empty_database) = ?db2"
    using p s by (simp add: account_create_def with_key_fetch_def)
  then have "server_step env (empty_database, th) (?db2, th)"
    by (intro server_step.create) (rule prod_eqI [of _ "(_, _)"], auto)
  then show thesis by (rule that) simp_all
qed

text \<open>
  C2: However the server is used, from an empty database on, every invariant its components rest on
  holds: the schema's constraints, one live row per Sync account and no client state twice, no
  record newer than the stamp of its collection, no unnamed token, and no stored scope beyond the
  registration of its client. Every handler, on every branch, errors and crashes included, keeps all of them.
\<close>

theorem server_keeps_invariants:
  assumes "(server_step env)\<^sup>*\<^sup>* (empty_database, th0) (db, th)" "registry_ok (oe_clients env)"
  shows "wf_db db \<and> (\<forall>f. users_inv f db) \<and> sync_inv db \<and> named_tokens db \<and> oauth_inv env db"
proof -
  have "server_inv env db" using server_steps_inv [OF assms(1)] empty_server_inv [of env] by simp
  then show ?thesis using reachable_inv [OF _ assms(2)] by (simp add: server_inv_def ts_inv_def)
qed

theorem server_keeps_invariants_witness:
  "\<exists>db th. (server_step sample_env)\<^sup>*\<^sup>* (empty_database, th) (db, th) \<and> db_accounts db \<noteq> [] \<and>
     db_session_tokens db \<noteq> [] \<and> wf_db db \<and> sync_inv db \<and> named_tokens db \<and> oauth_inv sample_env db"
proof -
  obtain db where s: "server_step sample_env (empty_database, new_throttle 1 900) (db, new_throttle 1 900)"
    and rows: "db_accounts db \<noteq> []" "db_session_tokens db \<noteq> []" by (rule signed_up_server)
  then have r: "(server_step sample_env)\<^sup>*\<^sup>* (empty_database, new_throttle 1 900) (db, new_throttle 1 900)" by blast
  show ?thesis using server_keeps_invariants [OF r sample_registry] r rows by blast
qed

end
