(* ===== verification/SyncFront.thy ===== *)
theory SyncFront
  imports SyncAuth Config SyncHttp
begin

text \<open>
  What the storage tier hands to \<open>credentials.authenticate\<close> (\<open>_authenticate\<close>, \<open>_signed_target\<close> and
  \<open>_mount_relative\<close> of \<open>syncstorage/__init__.py\<close>): the target as the client put it on the wire, the
  path below the mount, and the body on the two routes that read one. With it the routes of
  \<open>SyncHttp\<close> run under the authenticator of the code itself. The bytes of \<open>application/newlines\<close> are
  here too (\<open>_newlines\<close>), and the origin (\<open>credentials.py\<close>).
\<close>

subsection \<open>The origin a client signs\<close>

text \<open>
  \<open>Origin.parse\<close> of \<open>syncstorage/credentials.py\<close>: host and port, read off \<open>public_url\<close> for every request.
  \<open>SplitResult.hostname\<close> and \<open>SplitResult.port\<close> are written out for a host without brackets, which is
  all \<open>urlsplit\<close> lets through here.
\<close>

definition host_info :: "str \<Rightarrow> str \<times> str option" where
  "host_info netloc =
     (let info = rev (takeWhile (\<lambda>c. c \<noteq> CHR ''@'') (rev netloc));
          (host, _, port) = partition CHR '':'' info
      in (host, if port = [] then None else Some port))"

definition url_hostname :: "str \<Rightarrow> str option" where
  "url_hostname netloc =
     (let (host, _) = host_info netloc;
          (name, percent, zone) = partition (CHR ''%'') host
      in if host = [] then None else Some (lower name @ (if percent then CHR ''%'' # zone else [])))"

text \<open>The port of a URL; \<open>None\<close> is the \<open>ValueError\<close> of text that is not a port number.\<close>

definition url_port :: "str \<Rightarrow> int option option" where
  "url_port netloc =
     (case snd (host_info netloc) of
        None \<Rightarrow> Some None
      | Some text \<Rightarrow>
          if list_all is_digit text then
            (case py_int text of
               None \<Rightarrow> None
             | Some n \<Rightarrow> if n \<le> 65535 then Some (Some n) else None)
          else None)"

definition origin_parse :: "str \<Rightarrow> origin option" where
  "origin_parse url =
     Option.bind (urlsplit url) (\<lambda>parts.
     Option.bind (url_port (url_netloc parts)) (\<lambda>port.
       Some \<lparr>og_host = (case url_hostname (url_netloc parts) of None \<Rightarrow> ''localhost'' | Some h \<Rightarrow> h),
             og_port = (case port of Some n \<Rightarrow> n | None \<Rightarrow> if url_scheme parts = ''https'' then 443 else 80)\<rparr>))"

text \<open>A plain host: no character that ends or splits an authority, and no capital letter.\<close>

definition plain_host_char :: "char \<Rightarrow> bool" where
  "plain_host_char c \<longleftrightarrow> 97 \<le> ord c \<and> ord c \<le> 122 \<or> is_digit c \<or> c = CHR ''.'' \<or> c = CHR ''-''"

definition plain_host :: "str \<Rightarrow> bool" where
  "plain_host h \<longleftrightarrow> h \<noteq> [] \<and> list_all plain_host_char h"

definition netloc_char :: "char \<Rightarrow> bool" where
  "netloc_char c \<longleftrightarrow> 32 < ord c \<and> c \<notin> {CHR ''@'', CHR ''%'', CHR ''['', CHR '']'', CHR ''/'', CHR ''?'', CHR ''#''}"

lemma plain_host_netloc: "plain_host_char c \<Longrightarrow> netloc_char c \<and> c \<noteq> CHR '':'' \<and> lower_char c = c"
  by (auto simp: plain_host_char_def netloc_char_def is_digit_def lower_char_def ord_def)

lemma digit_netloc: "is_digit c \<Longrightarrow> netloc_char c"
  by (auto simp: netloc_char_def is_digit_def ord_def)

lemma netloc_absent:
  assumes "list_all netloc_char s"
  shows "CHR ''@'' \<notin> set s" "CHR ''%'' \<notin> set s" "CHR ''['' \<notin> set s" "CHR '']'' \<notin> set s"
  using assms by (auto simp: list_all_iff netloc_char_def)

lemma urlsplit_plain:
  assumes "scheme \<in> {''http'', ''https''}" "list_all netloc_char netloc"
  shows "urlsplit (scheme @ ''://'' @ netloc) =
    Some \<lparr>url_scheme = scheme, url_netloc = netloc, url_path = [], url_query = [], url_fragment = []\<rparr>"
proof -
  let ?url = "scheme @ ''://'' @ netloc"
  have n: "\<forall>c \<in> set netloc. 32 < ord c \<and> c \<notin> {CHR ''/'', CHR ''?'', CHR ''#''}"
    using assms(2) by (auto simp: list_all_iff netloc_char_def)
  have "list_all (\<lambda>c. 32 < ord c) (''http'' @ ''://'')" "list_all (\<lambda>c. 32 < ord c) (''https'' @ ''://'')" by code_simp+
  then have "list_all (\<lambda>c. 32 < ord c) (scheme @ ''://'')" using assms(1) by auto
  then have u: "\<forall>c \<in> set ?url. 32 < ord c" using n by (auto simp: list_all_iff)
  have "?url \<noteq> []" by simp
  then have "lstrip_by (\<lambda>c. ord c \<le> 32) ?url = ?url"
    unfolding lstrip_by_def using u by (metis dropWhile_eq_self_iff hd_in_set linorder_not_le)
  moreover have "filter (\<lambda>c. ord c \<notin> {9, 10, 13}) ?url = ?url" by (rule filter_True) (use u in fastforce)
  ultimately have "filter (\<lambda>c. ord c \<notin> {9, 10, 13}) (lstrip_by (\<lambda>c. ord c \<le> 32) ?url) = ?url" by simp
  moreover have "split_scheme ?url = (scheme, ''//'' @ netloc)"
  proof -
    have sch: "CHR '':'' \<notin> set scheme" "scheme \<noteq> []" using assms(1) by auto
    have "is_alpha (hd ''http'') \<and> list_all is_scheme_char ''http'' \<and> lower ''http'' = ''http''"
      "is_alpha (hd ''https'') \<and> list_all is_scheme_char ''https'' \<and> lower ''https'' = ''https''" by code_simp+
    then have "is_alpha (hd scheme)" "list_all is_scheme_char scheme" "lower scheme = scheme" using assms(1) by auto
    then show ?thesis
      using partition_append [OF sch(1), of "''//'' @ netloc"] sch(2) by (simp add: split_scheme_def)
  qed
  moreover have "split_netloc (''//'' @ netloc) = (netloc, [])"
  proof -
    let ?in = "\<lambda>c. c \<notin> {CHR ''/'', CHR ''?'', CHR ''#''}"
    have "takeWhile ?in netloc = netloc" "dropWhile ?in netloc = []"
      using n by (simp_all only: takeWhile_eq_all_conv dropWhile_eq_Nil_conv) blast+
    moreover have "startswith (''//'' @ netloc) ''//''" by (rule startswith_append)
    moreover have "drop 2 (''//'' @ netloc) = netloc" by simp
    ultimately show ?thesis by (simp only: split_netloc_def Let_def if_True)
  qed
  ultimately show ?thesis
    using netloc_absent(3,4) [OF assms(2)] by (simp add: urlsplit_def partition_def)
qed

text \<open>The origin of a plain URL is its host and its port, or the default port of its scheme.\<close>

lemma origin_of_plain_url:
  assumes "scheme \<in> {''http'', ''https''}" "plain_host h"
  shows "0 \<le> n \<Longrightarrow> n \<le> 65535 \<Longrightarrow>
      origin_parse (scheme @ ''://'' @ h @ CHR '':'' # show_int n) = Some \<lparr>og_host = h, og_port = n\<rparr>"
    and "origin_parse (scheme @ ''://'' @ h) =
      Some \<lparr>og_host = h, og_port = (if scheme = ''https'' then 443 else 80)\<rparr>"
proof -
  have h: "list_all netloc_char h" "CHR '':'' \<notin> set h" "lower h = h" "h \<noteq> []"
    using assms(2) plain_host_netloc by (auto simp: plain_host_def list_all_iff lower_def intro: map_idI)
  have name: "url_hostname netloc = Some h" if "fst (host_info netloc) = h" for netloc
    using that h partition_absent [OF netloc_absent(2) [OF h(1)]] by (simp add: url_hostname_def split_beta)
  have info: "rev (takeWhile (\<lambda>c. c \<noteq> CHR ''@'') (rev netloc)) = netloc" if "list_all netloc_char netloc" for netloc
    using netloc_absent(1) [OF that] by (subst takeWhile_eq_all_conv [THEN iffD2]) auto
  show "origin_parse (scheme @ ''://'' @ h) = Some \<lparr>og_host = h, og_port = (if scheme = ''https'' then 443 else 80)\<rparr>"
  proof -
    have "host_info h = (h, None)" using partition_absent [OF h(2)] info [OF h(1)] by (simp add: host_info_def)
    then show ?thesis using urlsplit_plain [OF assms(1) h(1)] name by (simp add: origin_parse_def url_port_def)
  qed
  assume n: "0 \<le> n" "n \<le> 65535"
  let ?netloc = "h @ CHR '':'' # show_int n"
  have digits: "list_all is_digit (show_int n)" "show_int n \<noteq> []"
    using n show_nat_digits by (simp_all add: show_int_def list_all_iff)
  have nc: "list_all netloc_char ?netloc"
    using h(1) digits(1) digit_netloc by (auto simp: list_all_iff netloc_char_def ord_def)
  moreover have "host_info ?netloc = (h, Some (show_int n))"
    unfolding host_info_def info [OF nc] using digits(2) by (simp add: partition_append [OF h(2)])
  moreover have "py_int (show_int n) = Some n" using n by (intro py_int_show_int) simp_all
  ultimately show "origin_parse (scheme @ ''://'' @ ?netloc) = Some \<lparr>og_host = h, og_port = n\<rparr>"
    using urlsplit_plain [OF assms(1)] name n digits(1) by (simp add: origin_parse_def url_port_def)
qed

text \<open>A port that is no number passes the configuration checks and fails every storage request.\<close>

lemma unusable_port:
  "read_public_url ''https://h:x'' = Inr ''https://h:x'' \<and> origin_parse ''https://h:x'' = None"
  by code_simp

subsection \<open>What is authenticated\<close>

text \<open>
  The parts of an ASGI scope that name the target. \<open>tg_path\<close> is what the server has decoded,
  \<open>tg_raw_path\<close> the bytes it received, which a server need not supply.
\<close>

record request_target =
  tg_method :: str
  tg_raw_path :: "bytes option"
  tg_path :: str
  tg_root_path :: "str option"
  tg_query :: str

text \<open>\<open>raw.decode("latin-1")\<close>: every byte is the character of its number.\<close>

definition decode_latin1 :: "bytes \<Rightarrow> str" where
  "decode_latin1 bs = map char_of bs"

definition signed_target :: "request_target \<Rightarrow> str" where
  "signed_target tg = (case tg_raw_path tg of None \<Rightarrow> tg_path tg | Some raw \<Rightarrow> decode_latin1 raw)"

definition mount_relative :: "request_target \<Rightarrow> str" where
  "mount_relative tg =
     (let root = (case tg_root_path tg of None \<Rightarrow> [] | Some r \<Rightarrow> r); path = tg_path tg
      in if root \<noteq> [] \<and> startswith path root then drop (length root) path else path)"

text \<open>What the tier is configured with: \<open>public_url\<close> and the secret it shares with the tokenserver.\<close>

record storage_config =
  sg_public_url :: str
  sg_secret :: str
  sg_json :: json_lib

text \<open>The routes that authenticate with \<open>read_body=True\<close>.\<close>

definition reads_body :: "route \<Rightarrow> bool" where
  "reads_body rt = (case rt of PostCollection _ \<Rightarrow> True | PutBso _ _ \<Rightarrow> True | _ \<Rightarrow> False)"

definition sync_attempt_of :: "request_target \<Rightarrow> bool \<Rightarrow> int \<Rightarrow> http_request \<Rightarrow> sync_attempt" where
  "sync_attempt_of tg read_body now_ms rq =
     \<lparr>at_method = tg_method tg,
      at_resource = signed_target tg @ (if tg_query tg \<noteq> [] then CHR ''?'' # tg_query tg else []),
      at_path = mount_relative tg,
      at_now = now_ms div 1000,
      at_body = (if read_body then Some (rq_body rq) else None),
      at_content_type = (case header_get (rq_headers rq) ''content-type'' of None \<Rightarrow> [] | Some t \<Rightarrow> t)\<rparr>"

text \<open>The uid a request is signed for. An unusable \<open>public_url\<close> is a \<open>ValueError\<close> here.\<close>

definition storage_authenticator ::
  "storage_config \<Rightarrow> request_target \<Rightarrow> bool \<Rightarrow> int \<Rightarrow> http_request \<Rightarrow> sync_exn + int" where
  "storage_authenticator sg tg read_body now_ms rq =
     bindr (of_option Crash (origin_parse (sg_public_url sg))) (\<lambda>og.
     bindr (authenticate (sg_json sg) (sg_secret sg) og (sync_attempt_of tg read_body now_ms rq)
         (header_get (rq_headers rq) ''authorization'')) (\<lambda>c. Inr (sc_uid c)))"

definition storage_env ::
  "(bso_row list \<Rightarrow> bso_row list) \<Rightarrow> codec \<Rightarrow> storage_config \<Rightarrow> request_target \<Rightarrow> route \<Rightarrow> int \<Rightarrow> env" where
  "storage_env scan cd sg tg rt now_ms =
     \<lparr>en_scan = scan, en_codec = cd,
      en_auth = storage_authenticator sg tg (reads_body rt) now_ms, en_now_ms = now_ms\<rparr>"

lemma storage_env_fields [simp]:
  "en_scan (storage_env scan cd sg tg rt now) = scan" "en_codec (storage_env scan cd sg tg rt now) = cd"
  "en_auth (storage_env scan cd sg tg rt now) = storage_authenticator sg tg (reads_body rt) now"
  "en_now_ms (storage_env scan cd sg tg rt now) = now"
  by (simp_all add: storage_env_def)

subsection \<open>The target\<close>

lemma startswith_own [simp]: "startswith (r @ p) r"
  by (induction r) simp_all

text \<open>A mount is taken off once, and a path outside it is left alone.\<close>

lemma mount_relative_mounted:
  "tg_root_path tg = Some r \<Longrightarrow> tg_path tg = r @ p \<Longrightarrow> mount_relative tg = p"
  by (simp add: mount_relative_def Let_def)

lemma mount_relative_bare:
  "tg_root_path tg \<in> {None, Some []} \<Longrightarrow> mount_relative tg = tg_path tg"
  by (auto simp: mount_relative_def Let_def)

text \<open>Latin-1 loses nothing: two targets that differ on the wire are signed differently.\<close>

lemma decode_latin1_inj:
  assumes "bytes_ok a" "bytes_ok b" shows "decode_latin1 a = decode_latin1 b \<longleftrightarrow> a = b"
proof
  have code: "map of_char (decode_latin1 bs) = bs" if "bytes_ok bs" for bs
    using that by (auto simp: decode_latin1_def bytes_ok_def intro: map_idI)
  assume "decode_latin1 a = decode_latin1 b"
  then show "a = b" using code assms by metis
qed simp

subsection \<open>The request\<close>

text \<open>The uid of the path and of the token agree, and the database has it, or the request is refused.\<close>

lemma authenticated_as:
  assumes "origin_parse (sg_public_url sg) = Some og"
    and "header_get (rq_headers rq) ''authorization'' = Some header"
    and "authenticate (sg_json sg) (sg_secret sg) og (sync_attempt_of tg rb now rq) (Some header) = Inr c"
    and "sql_int (sc_uid c)" "get_sync_user (sc_uid c) db \<noteq> None"
  shows "authenticate_request (storage_authenticator sg tg rb now) now rq db =
    (if rq_uid rq = sc_uid c then Inr \<lparr>ss_uid = sc_uid c, ss_now = quantize now\<rparr>
     else Inl (Http sync_unauthorized))"
  using assms by (auto simp: authenticate_request_def storage_authenticator_def)

lemma unsigned_is_refused:
  assumes "origin_parse (sg_public_url sg) = Some og"
    and "header_get (rq_headers rq) ''authorization'' \<in> {None, Some []}"
  shows "authenticate_request (storage_authenticator sg tg rb now) now rq db = Inl (Http sync_unauthorized)"
  using assms by (auto simp: authenticate_request_def storage_authenticator_def authenticate_def)

lemma unusable_url_crashes:
  "origin_parse (sg_public_url sg) = None \<Longrightarrow>
    authenticate_request (storage_authenticator sg tg rb now) now rq db = Inl Crash"
  by (simp add: authenticate_request_def storage_authenticator_def)

text \<open>Past the authentication a request runs as the store's own.\<close>

lemma authenticated_runs:
  "authenticate_request (en_auth en) (en_now_ms en) rq db = Inr s \<Longrightarrow> authenticated en rq db f = f s"
  by (simp add: authenticated_def before_def)

subsection \<open>Records, one to a line\<close>

text \<open>\<open>replace("\n", "\\u000a")\<close>\<close>

definition escape_newlines :: "str \<Rightarrow> str" where
  "escape_newlines s = concat (map (\<lambda>c. if c = CHR 0x0A then CHR 0x5C # ''u000a'' else [c]) s)"

definition newlines_body :: "(pyfloat \<Rightarrow> str) \<Rightarrow> json list \<Rightarrow> str" where
  "newlines_body show_float items =
     concat (map (\<lambda>item. escape_newlines (json_dumps show_float True item) @ [CHR 0x0A]) items)"

lemma escape_newlines_none: "CHR 0x0A \<notin> set (escape_newlines s)"
  by (auto simp: escape_newlines_def)

lemma escape_newlines_id: "CHR 0x0A \<notin> set s \<Longrightarrow> escape_newlines s = s"
  unfolding escape_newlines_def by (induction s) auto

lemma hex_byte_one_line: "CHR 0x0A \<notin> set (hex_of_byte n)"
proof -
  have "list_all (\<lambda>c. CHR 0x0A \<noteq> c) hex_digits" "length hex_digits = 16" by code_simp+
  then have "CHR 0x0A \<noteq> hex_digits ! (m mod 16)" for m by (simp add: list_all_length)
  then show ?thesis by (simp add: hex_of_byte_def)
qed

lemma json_string_one_line: "CHR 0x0A \<notin> set (json_string ea s)"
proof -
  have "CHR 0x0A \<notin> set (json_escape ea c)" for c
    using hex_byte_one_line by (auto simp: json_escape_def ord_def)
  then show ?thesis by (auto simp: json_string_def)
qed

lemma join_one_line: "\<forall>w \<in> set ws. c \<notin> set w \<Longrightarrow> c \<notin> set sep \<Longrightarrow> c \<notin> set (join sep ws)"
  by (induction sep ws rule: join.induct) auto

text \<open>\<open>json.dumps\<close> writes one line already, so the replacement never has anything to do.\<close>

lemma json_dumps_one_line:
  assumes "\<And>x. CHR 0x0A \<notin> set (show_float x)"
  shows "CHR 0x0A \<notin> set (json_dumps show_float ea v)"
  using assms
proof (induction show_float ea v rule: json_dumps.induct)
  case (3 f ea n)
  have "CHR 0x0A \<notin> set (show_nat m)" for m using show_nat_digits by (fastforce simp: is_digit_def ord_def)
  then show ?case by (simp add: show_int_def)
next
  case (6 f ea vs)
  then have "CHR 0x0A \<notin> set (join '','' (map (json_dumps f ea) vs))" by (intro join_one_line) auto
  then show ?case by simp
next
  case (7 f ea kvs)
  then have "CHR 0x0A \<notin> set (join '','' (map (\<lambda>(k, v). json_string ea k @ '':'' @ json_dumps f ea v) kvs))"
    using json_string_one_line by (intro join_one_line) auto
  then show ?case by simp
qed (simp_all add: json_string_one_line)

text \<open>What a client reads: cut at the newlines, the body is its records and nothing else.\<close>

lemma newlines_body_records:
  "split CHR 0x0A (newlines_body show_float items) =
     map (\<lambda>v. escape_newlines (json_dumps show_float True v)) items @ [[]]"
  unfolding newlines_body_def by (induction items) (simp_all add: split_append escape_newlines_none)

lemma newlines_body_dumps:
  assumes "\<And>x. CHR 0x0A \<notin> set (show_float x)"
  shows "split CHR 0x0A (newlines_body show_float items) = map (json_dumps show_float True) items @ [[]]"
  using json_dumps_one_line [OF assms] by (simp add: newlines_body_records escape_newlines_id)

end
