(* ===== verification/SignIn.thy ===== *)
theory SignIn
  imports Server SyncFront
begin

text \<open>
  The tiers composed, from a session to the storage: the access token the OAuth tier answers with
  buys a credential from the tokenserver, and a request signed with the credential is served by the
  storage tier as the account's own Sync user. The tiers share the public URL, the keys and a secret.
\<close>

text \<open>What the browser sends to the tokenserver: the token, and the id of the Sync key it derived.\<close>

definition key_request :: "str \<Rightarrow> str \<Rightarrow> ts_request" where
  "key_request token kid =
     \<lparr>tr_headers = [(''authorization'', ''Bearer '' @ token), (''x-keyid'', kid)], tr_params = []\<rparr>"

definition first_auth :: "account \<Rightarrow> bytes \<Rightarrow> int \<Rightarrow> auth_data" where
  "first_auth a kb stamp =
     \<lparr>ad_fxa_uid = acc_uid a, ad_client_state = client_state_of kb,
      ad_generation = Some (acc_verifier_set_at a), ad_keys_changed_at = Some stamp\<rparr>"

lemma key_request_headers:
  "header_get (tr_headers (key_request t kid)) ''authorization'' = Some (''Bearer '' @ t)"
  "header_get (tr_headers (key_request t kid)) ''x-keyid'' = Some kid"
  "header_get (tr_headers (key_request t kid)) ''x-client-state'' = None"
  by (simp_all add: key_request_def header_get_def)

subsection \<open>The session buys an access token\<close>

lemma session_grant:
  assumes "session_of (Some h) db = Inr \<lparr>sc_token = tok, sc_account = a\<rparr>"
    and "fxa_credentials_grant (Some h) c p db = Inr g" "scope_ok (cl_allowed_scopes c)"
  shows "gr_client g = c" "gr_uid g = acc_uid a" "gr_generation g = acc_verifier_set_at a" "scope_ok (gr_scope g)"
proof -
  let ?cred = "\<lparr>sc_token = tok, sc_account = a\<rparr>"
  obtain scope acc asked where s: "parse_scope asked ''scope'' = Inr scope"
    "validate_requested_grant (claims_for_session (sc_account ?cred) (sc_token ?cred)) c
       \<lparr>gq_scope = scope, gq_access_type = acc, gq_keys_jwe = None\<rparr> = Inr g"
    using assms(2) unfolding fxa_credentials_grant_def session_of_def [symmetric] assms(1) bindr_eq_Inr
    by (elim exE conjE) (rule that; simp)
  note v = validated_parts [OF s(2)]
  show "gr_client g = c" "gr_uid g = acc_uid a" using v(4,6) by (simp_all add: claims_for_session_def)
  show "gr_generation g = acc_verifier_set_at a"
    using s(2) by (auto simp: validate_requested_grant_def bindr_eq_Inr claims_for_session_def)
  have "scope_ok scope" using s(1) by (auto simp: parse_scope_def of_option_eq_Inr dest: from_string_Some(1))
  then show "scope_ok (gr_scope g)" using validated_scope(1) [OF s(2)] assms(3) by simp
qed

lemma session_token_issued:
  assumes "client_get (oe_clients env) (tq_client_id p) = Some c" "tq_grant_type p = GRANT_FXA_CREDENTIALS"
    and "fxa_credentials_grant (Some h) c p db = Inr g" "\<not> gr_offline g"
  shows "\<exists>r. oauth_token env (Some h) p now jti fresh db = (Inr r, db) \<and>
    tk_access_token r = access_token env g (token_ttl env p) now jti"
proof -
  have "GRANT_FXA_CREDENTIALS \<noteq> GRANT_AUTHORIZATION_CODE" "GRANT_FXA_CREDENTIALS \<noteq> GRANT_REFRESH_TOKEN" by code_simp+
  then have "grant_for env (Some h) c p now db = (Inr g, db)" using assms(2,3) by (simp add: grant_for_def)
  then show ?thesis
    using assms(1,2,4) by (simp add: oauth_token_def find_client_def generate_tokens_def Let_def)
qed

subsection \<open>The token and the key id\<close>

lemma kid_ascii:
  assumes "legacy_sync_key scope kb stamp = Some sk" "0 \<le> stamp"
  shows "isascii (sk_kid sk)"
proof -
  let ?s = "take 16 (sha256 kb)"
  have kid: "sk_kid sk = show_int stamp @ [CHR ''-''] @ b64u_encode ?s"
    using assms(1) by (auto simp: legacy_sync_key_def)
  have "is_ascii c" if "is_b64url c" for c
    using that by (auto simp: is_b64url_def is_ascii_def is_alnum_def is_alpha_def is_digit_def ord_def)
  moreover have "list_all is_b64url (b64u_encode ?s)" by (rule b64u_encode_digits(1)) (simp add: bytes_ok_take)
  moreover have "\<forall>c \<in> set (show_int stamp). is_ascii c"
    using show_nat_digits assms(2) by (fastforce simp: show_int_def is_digit_def is_ascii_def)
  moreover have "is_ascii CHR ''-''" by code_simp
  ultimately show ?thesis by (auto simp: isascii_def list_all_iff kid)
qed

lemma key_request_id:
  assumes "legacy_sync_key scope kb stamp = Some sk" "10 ^ 12 \<le> stamp" "stamp < 10 ^ 13"
  shows "key_id (key_request t (sk_kid sk)) = Inr (stamp, client_state_of kb)"
proof -
  have "0 \<le> stamp" using assms(2) by (rule order_trans [rotated]) simp
  then show ?thesis
    using sync_key_id_roundtrip [OF assms] kid_ascii [OF assms(1)]
    by (simp add: key_id_def key_request_headers x_client_state_def)
qed

subsection \<open>The first request of an account\<close>

lemma first_allocation:
  assumes "sync_users (ad_fxa_uid auth) db = []" "has_account (ad_fxa_uid auth) db"
    and "ad_generation auth = Some g" "ad_keys_changed_at auth = Some k" "sql_int g" "sql_int k"
  shows "\<exists>db'. allocate db auth now = (Inr (db_sync_users_seq db + 1, g, Some k), db')"
proof -
  have acc: "get_account (ad_fxa_uid auth) db \<noteq> None"
    using assms(2) by (simp add: has_account_def get_account_def has_key_lookup)
  obtain u db' where i: "insert_user auth g (Some k) now db = (Inr u, db')"
    and u: "su_uid u = db_sync_users_seq db + 1" "su_client_state u = ad_client_state auth"
      "su_generation u = g" "su_keys_changed_at u = Some k"
    using assms(2,5,6) by (auto simp: insert_user_def create_sync_user_def opt_int_ok_def Let_def)
  have "validate auth u [] = Inr ()"
    using u assms(3,4) by (simp add: validate_def opt_gt_def opt_lt_def opt_le_def Let_def)
  then show ?thesis
    using assms(1,3,4) acc i u
    by (simp add: allocate_def current_user_def apply_update_def next_generation_def next_keys_changed_at_def Let_def)
qed

text \<open>The tokenserver answers it, with a credential for a Sync user of the account.\<close>

lemma first_token:
  assumes v: "verified_access_token cf (now div 1000) (key_request t (sk_kid sk)) = Inr claims"
    and claims: "obj_get claims ''sub'' = JStr (acc_uid a)" "obj_get claims ''fxa-generation'' = JInt (acc_verifier_set_at a)"
    and key: "legacy_sync_key scope kb stamp = Some sk" "10 ^ 12 \<le> stamp" "stamp < 10 ^ 13"
    and db: "sync_users (acc_uid a) db = []" "has_account (acc_uid a) db"
    and g: "acc_verifier_set_at a \<noteq> 0" "sql_int (acc_verifier_set_at a)"
  shows "\<exists>db' resp. allocate db (first_auth a kb stamp) now =
        (Inr (db_sync_users_seq db + 1, acc_verifier_set_at a, Some stamp), db') \<and>
      mint cf (key_request t (sk_kid sk)) (first_auth a kb stamp) now salt
        (db_sync_users_seq db + 1, acc_verifier_set_at a, Some stamp) = Inr resp \<and>
      token_endpoint cf ''sync'' ''1.5'' (key_request t (sk_kid sk)) now salt db = (Inr resp, db')"
proof -
  let ?auth = "first_auth a kb stamp" and ?rq = "key_request t (sk_kid sk)"
    and ?facts = "(db_sync_users_seq db + 1, acc_verifier_set_at a, Some stamp)"
  have f: "ad_fxa_uid ?auth = acc_uid a" "ad_generation ?auth = Some (acc_verifier_set_at a)"
    "ad_keys_changed_at ?auth = Some stamp" "ad_client_state ?auth = client_state_of kb"
    by (simp_all add: first_auth_def)
  have stamp: "stamp \<noteq> 0" "sql_int stamp" using key(2,3) by (auto simp: sql_int_def)
  have auth: "auth_data_of cf (now div 1000) ?rq = Inr ?auth"
    using v key_request_id [OF key, of t] claims g(1) stamp(1)
    by (simp add: auth_data_of_def first_auth_def none_if_zero_def)
  obtain db' where al: "allocate db ?auth now = (Inr ?facts, db')"
    using first_allocation [of ?auth db _ stamp now] db g(2) stamp(2) f by auto
  have "fxa_kid stamp (client_state_of kb) \<noteq> None" using sync_key_id_roundtrip [OF key] by simp
  then obtain resp where m: "mint cf ?rq ?auth now salt ?facts = Inr resp"
    using mint_total [where cf = cf and rq = ?rq and now = now and salt = salt and auth = ?auth and
        uid = "db_sync_users_seq db + 1" and g = "acc_verifier_set_at a" and k = "Some stamp"] f(4) by auto
  have "token_endpoint cf ''sync'' ''1.5'' ?rq now salt db = (Inr resp, db')"
    using auth al m by (simp add: token_endpoint_def APPLICATION_def TS_VERSION_def)
  then show ?thesis using al m by blast
qed

lemma answered_is_user:
  assumes "answered auth (uid, g, k) db" "ts_inv db"
  shows "\<exists>u. get_sync_user uid db = Some u \<and> su_fxa_uid u = ad_fxa_uid auth"
proof -
  obtain c h where c: "sync_users (ad_fxa_uid auth) db = c # h" "su_uid c = uid"
    using assms(1) by (auto simp: answered_def)
  then have "c \<in> set (db_sync_users db)" "su_fxa_uid c = ad_fxa_uid auth"
    using sync_users_ConsD(1) [OF c(1)] by (simp_all add: users_of_def)
  moreover have "uniq su_uid (db_sync_users db)" using assms(2) wf_uniq_users by (simp add: ts_inv_def)
  ultimately have "lookup_key su_uid (su_uid c) (db_sync_users db) = Some c" by (intro lookup_key_in)
  then show ?thesis using c(2) \<open>su_fxa_uid c = ad_fxa_uid auth\<close> by (intro exI [of _ c]) (simp add: get_sync_user_def)
qed

lemma allocated_inv:
  assumes "ts_inv db" "ad_generation auth \<noteq> None" "allocate db auth now = (r, db')"
  shows "ts_inv db'"
  using allocate_step [OF assms(1) _ assms(3)] assms(2) by (auto simp: step_ok_def)

text \<open>The storage tier, which shares the secret, opens the store of the user to its credential.\<close>

lemma credential_opens:
  assumes a: "allocate db auth now_ms = (Inr (uid, g, k), db')" "ad_generation auth \<noteq> None" "ts_inv db"
    and m: "mint cf rq0 auth now_ms salt (uid, g, k) = Inr resp"
    and lib: "reads_payload (tc_json cf) (minted_claims cf rq0 auth now_ms (uid, g, k)) salt"
    and clock: "0 \<le> now_ms" "0 < tc_ttl cf" "now_ms div 1000 + tc_ttl cf < 2 ^ 53"
    and shared: "sg_json sg = tc_json cf" "sg_secret sg = tc_secret cf" "origin_parse (sg_public_url sg) = Some og"
    and r: "client_header (tp_id resp) (tp_key resp) (request_of og (sync_attempt_of tg rb now rq)) ts nonce hash ext = Some header"
      "signable (sync_attempt_of tg rb now rq) ts nonce hash ext" "header_get (rq_headers rq) ''authorization'' = Some header"
      "now div 1000 < now_ms div 1000 + tp_duration resp"
    and uid: "sql_int uid"
  shows "authenticate_request (storage_authenticator sg tg rb now) now rq db' =
    (if rq_uid rq = uid then Inr \<lparr>ss_uid = uid, ss_now = quantize now\<rparr> else Inl (Http sync_unauthorized))"
proof -
  have "at_now (sync_attempt_of tg rb now rq) = now div 1000" by (simp add: sync_attempt_of_def)
  then obtain creds where c: "authenticate (tc_json cf) (tc_secret cf) og (sync_attempt_of tg rb now rq) (Some header) = Inr creds"
    "sc_uid creds = uid" "get_sync_user uid db' \<noteq> None"
    using credential_decides [OF a m lib clock r(1,2)] r(4) by auto
  show ?thesis
    using authenticated_as [where c = creds and rb = rb and tg = tg and now = now and db = db', OF shared(3) r(3)] c uid
    by (simp add: shared(1,2))
qed

subsection \<open>The whole way\<close>

text \<open>
  C3: A session reaches its storage. In any database the server can be in, an account that has
  never synced and a client that its session may grant the Sync scope: the token endpoint answers
  with an access token; the tokenserver, shown that token in time with the id of the key the browser
  derived, answers with a credential for a new Sync user of that account; and until it expires the storage tier
  opens that user's store to every request signed with the credential over its own target and body,
  and refuses the request if its path names anyone else.
\<close>

theorem session_reaches_storage:
  fixes env :: "'key oauth_env" and cf :: "'key ts_config"
  assumes shared: "tc_public_url cf = oe_public_url env" "tc_json cf = oe_json env" "tc_rsa cf = oe_rsa env"
      "tc_verifiers cf = oe_verifiers env" "registry_ok (oe_clients env)" "sg_json sg = tc_json cf"
      "sg_secret sg = tc_secret cf" "origin_parse (sg_public_url sg) = Some og"
    and rsa: "rsa_signs (oe_rsa env) pub" "map_of (oe_verifiers env) (oe_kid env) = Some pub"
    and db: "ts_inv db" "sync_users (acc_uid a) db = []"
      "session_of (Some h) db = Inr \<lparr>sc_token = tok, sc_account = a\<rparr>" "acc_uid a \<noteq> []"
      "acc_verifier_set_at a \<noteq> 0" "sql_int (acc_verifier_set_at a)" "sql_int (db_sync_users_seq db + 1)"
    and p: "client_get (oe_clients env) (tq_client_id p) = Some c" "tq_grant_type p = GRANT_FXA_CREDENTIALS"
      "fxa_credentials_grant (Some h) c p db = Inr g" "\<not> gr_offline g" "covers_oldsync (gr_scope g)"
    and bearer_def: "bearer = access_token env g (token_ttl env p) t1 jti"
    and lib: "lib_reads (oe_json env) (jwt_header ACCESS_TOKEN_TYP (oe_kid env))"
      "lib_reads (oe_json env) (access_claims env g (token_ttl env p) t1 jti)" "length bearer \<le> MAX_JWT_LENGTH"
    and key: "legacy_sync_key OLDSYNC_SCOPE kb stamp = Some sk" "10 ^ 12 \<le> stamp" "stamp < 10 ^ 13"
    and clock: "0 \<le> t2" "t2 div 1000 < t1 div 1000 + token_ttl env p" "0 < tc_ttl cf" "t2 div 1000 + tc_ttl cf < 2 ^ 53"
    and payload: "reads_payload (tc_json cf) (minted_claims cf (key_request bearer (sk_kid sk)) (first_auth a kb stamp) t2
        (db_sync_users_seq db + 1, acc_verifier_set_at a, Some stamp)) salt"
  shows "\<exists>r resp db'. oauth_token env (Some h) p t1 jti fresh db = (Inr r, db) \<and> tk_access_token r = bearer \<and>
    token_endpoint cf ''sync'' ''1.5'' (key_request bearer (sk_kid sk)) t2 salt db = (Inr resp, db') \<and>
    get_sync_user (tp_uid resp) db = None \<and>
    (\<exists>u. get_sync_user (tp_uid resp) db' = Some u \<and> su_fxa_uid u = acc_uid a) \<and>
    (\<forall>tg rb now rq ts nonce hash ext header.
       client_header (tp_id resp) (tp_key resp) (request_of og (sync_attempt_of tg rb now rq)) ts nonce hash ext = Some header \<longrightarrow>
       signable (sync_attempt_of tg rb now rq) ts nonce hash ext \<longrightarrow>
       header_get (rq_headers rq) ''authorization'' = Some header \<longrightarrow> now div 1000 < t2 div 1000 + tp_duration resp \<longrightarrow>
       authenticate_request (storage_authenticator sg tg rb now) now rq db' =
         (if rq_uid rq = tp_uid resp then Inr \<lparr>ss_uid = tp_uid resp, ss_now = quantize now\<rparr>
          else Inl (Http sync_unauthorized)))"
proof -
  let ?ttl = "token_ttl env p" and ?rq = "key_request bearer (sk_kid sk)" and ?auth = "first_auth a kb stamp"
  let ?claims = "access_claims env g ?ttl t1 jti"
  have c: "scope_ok (cl_allowed_scopes c)" "client_id_ok (cl_id c)"
    using registry_client(1) [OF shared(5) p(1)] client_getD [OF p(1)] shared(5) by (auto simp: registry_ok_def)
  note g = session_grant [OF db(3) p(3) c(1)]
  obtain r where r: "oauth_token env (Some h) p t1 jti fresh db = (Inr r, db)" "tk_access_token r = bearer"
    using session_token_issued [OF p(1-4), of t1 jti fresh] bearer_def by blast
  have v: "verified_access_token cf (t2 div 1000) ?rq = Inr ?claims"
    using access_token_verified [OF bearer_def refl shared(1-4) lib(1,2) rsa lib(3) g(4) _ _ key_request_headers(1)]
      g(1,2) c(2) db(4) clock(2) p(5) by simp
  have f: "obj_get ?claims ''sub'' = JStr (acc_uid a)" "obj_get ?claims ''fxa-generation'' = JInt (acc_verifier_set_at a)"
    using g(2,3) db(5) by (simp_all add: access_claims_def Let_def obj_get_def when_set_def)
  obtain i where "get_account i db = Some a"
    using db(3) by (auto simp: session_of_def optional_session_def bindr_eq_Inr of_option_eq_Inr split: option.splits)
  then have acc: "has_account (acc_uid a) db"
    by (auto simp: get_account_def has_account_def has_key_iff dest!: lookup_key_Some)
  obtain db' resp where t: "allocate db ?auth t2 = (Inr (db_sync_users_seq db + 1, acc_verifier_set_at a, Some stamp), db')"
    "mint cf ?rq ?auth t2 salt (db_sync_users_seq db + 1, acc_verifier_set_at a, Some stamp) = Inr resp"
    "token_endpoint cf ''sync'' ''1.5'' ?rq t2 salt db = (Inr resp, db')"
    using first_token [OF v f key db(2) acc db(5,6)] by blast
  have uid: "tp_uid resp = db_sync_users_seq db + 1" by (rule mint_Inr(2) [OF t(2)])
  have gen: "ad_generation ?auth \<noteq> None" by (simp add: first_auth_def)
  have user: "\<exists>u. get_sync_user (tp_uid resp) db' = Some u \<and> su_fxa_uid u = acc_uid a"
    using answered_is_user [OF answered_current [OF db(1) gen t(1)] allocated_inv [OF db(1) gen t(1)]] unfolding uid
    by (simp add: first_auth_def)
  have opens: "authenticate_request (storage_authenticator sg tg rb now) now rq db' =
      (if rq_uid rq = tp_uid resp then Inr \<lparr>ss_uid = tp_uid resp, ss_now = quantize now\<rparr>
       else Inl (Http sync_unauthorized))"
    if r: "client_header (tp_id resp) (tp_key resp) (request_of og (sync_attempt_of tg rb now rq)) ts nonce hash ext = Some header"
      "signable (sync_attempt_of tg rb now rq) ts nonce hash ext" "header_get (rq_headers rq) ''authorization'' = Some header"
      "now div 1000 < t2 div 1000 + tp_duration resp" for tg rb now rq ts nonce hash ext header
    using credential_opens [OF t(1) gen db(1) t(2) payload clock(1,3,4) shared(6-8) r] db(7) uid by simp
  have new: "get_sync_user (tp_uid resp) db = None"
    using wf_sync_users_seq [of db] db(1) unfolding uid ts_inv_def get_sync_user_def lookup_key_None by force
  show ?thesis
    using r t(3) new user opens by (intro exI [of _ r] exI [of _ resp] exI [of _ db']) blast
qed

subsection \<open>One sign-in\<close>

lemma sync_scope_parses: "from_string OLDSYNC_SCOPE = Some (scope_constant [OLDSYNC_SCOPE])"
  "from_array [OLDSYNC_SCOPE] = Some (scope_constant [OLDSYNC_SCOPE])"
proof -
  have "filter (\<lambda>w. w \<noteq> []) (split CHR '' '' OLDSYNC_SCOPE) = [OLDSYNC_SCOPE]" by code_simp
  then show "from_string OLDSYNC_SCOPE = Some (scope_constant [OLDSYNC_SCOPE])"
    "from_array [OLDSYNC_SCOPE] = Some (scope_constant [OLDSYNC_SCOPE])"
    using oldsync_valid by (simp_all add: from_string_def scope_constant_def from_array_def add_values_all)
qed

lemma fenix_syncs: "grants (cl_allowed_scopes fenix) OLDSYNC_SCOPE"
proof -
  have "list_all (\<lambda>v. implicants v \<noteq> None) [OLDSYNC_SCOPE, SESSION_SCOPE, ECOSYSTEM_TELEMETRY_SCOPE]" by code_simp
  then have a: "from_array [OLDSYNC_SCOPE, SESSION_SCOPE, ECOSYSTEM_TELEMETRY_SCOPE] =
      Some (scope_constant [OLDSYNC_SCOPE, SESSION_SCOPE, ECOSYSTEM_TELEMETRY_SCOPE])"
    by (simp add: scope_constant_def from_array_def add_values_all)
  have "implies OLDSYNC_SCOPE OLDSYNC_SCOPE" using oldsync_valid implies_self by blast
  then show ?thesis unfolding browser_def client.simps from_array_Some(2) [OF a] by auto
qed

text \<open>The browser asks for a token that lives 100 seconds.\<close>

definition sync_request :: token_request where
  "sync_request = (credentials_request OLDSYNC_SCOPE ''online'')\<lparr>tq_ttl := Some 100\<rparr>"

lemma sample_sync_grant:
  obtains g where "fxa_credentials_grant (Some sample_header) fenix sync_request
      session_database = Inr g" "\<not> gr_offline g" "scope_values (gr_scope g) = [OLDSYNC_SCOPE]"
    "gr_client g = fenix" "gr_uid g = ''u1''" "gr_generation g = 1" "gr_profile_changed_at g = 1" "gr_aal g = 1"
    "gr_auth_at g = 5"
proof -
  let ?claims = "claims_for_session sample_account sample_session" and ?s = "scope_constant [OLDSYNC_SCOPE]"
  let ?rq = "\<lparr>gq_scope = ?s, gq_access_type = ''online'', gq_keys_jwe = None\<rparr>"
  have "key_bearing_of ?s = [OLDSYNC_SCOPE]" by (simp add: key_bearing_of_def sync_scope KEY_BEARING_SCOPES_def)
  then have k: "key_bearing_ok fenix ?s = Inr ()"
    using difference_scopes(2) [OF scope_constant_ok, of "[OLDSYNC_SCOPE]"] fenix_syncs
    by (simp add: key_bearing_ok_def sync_scope_parses is_empty_values sync_scope Let_def)
  let ?f = "filtered ?s (registration fenix)"
  have f: "scope_values ?f = [OLDSYNC_SCOPE]"
    using filtered_scopes(2) [OF scope_constant_ok, of "[OLDSYNC_SCOPE]"] fenix_syncs
    by (simp add: sync_scope registration_grants)
  then have "trusted_trim fenix ?s = Inr ?f"
    by (simp add: trusted_trim_def Let_def is_empty_values registration_def handful_def)
  moreover have "untrusted_ok fenix ?s = Inr ()" by (simp add: untrusted_ok_def Let_def)
  ultimately obtain g where v: "validate_requested_grant ?claims fenix ?rq = Inr g" and fs: "gr_scope g = ?f"
    using k by (simp add: validate_requested_grant_def)
  have "last_auth_at sample_session = 5" by code_simp
  then have g: "\<not> gr_offline g" "gr_client g = fenix" "gr_uid g = ''u1''" "gr_generation g = 1" "gr_profile_changed_at g = 1"
    "gr_aal g = 1" "gr_auth_at g = 5"
    using v by (auto simp: validate_requested_grant_def bindr_eq_Inr claims_for_session_def sample_account_def)
  have "fxa_credentials_grant (Some sample_header) fenix sync_request session_database = Inr g"
    using v by (simp add: fxa_credentials_grant_def sync_request_def credentials_request_def sample_session_of parse_scope_def
        sync_scope_parses truthy_def)
  then show thesis using that g f fs by simp
qed

text \<open>A library that reads what this sign-in writes: two segments of the access token and one payload.\<close>

definition flow_lib :: "(str \<times> json) list list \<Rightarrow> (str \<times> json) list \<Rightarrow> bytes \<Rightarrow> json_lib" where
  "flow_lib vs payload salt =
     (sample_lib vs)\<lparr>json_loads := (\<lambda>b.
        if b = token_payload (sample_lib []) payload (hex_of salt)
        then Some (JObj (dict_set ''salt'' (JStr (hex_of salt)) payload)) else json_loads (sample_lib vs) b)\<rparr>"

abbreviation flow_stamp :: int where "flow_stamp \<equiv> 1510726318123"

definition flow_payload :: "(str \<times> json) list" where
  "flow_payload = minted_claims (sample_config (sample_lib [])) (key_request [] []) (first_auth sample_account [1, 2, 3] flow_stamp)
     9000 (1, 1, Some flow_stamp)"

definition flow_env :: "bool oauth_env" where
  "flow_env = sample_env\<lparr>oe_json := flow_lib [jwt_header ACCESS_TOKEN_TYP ''k1'', sync_claims] flow_payload [1, 2, 3],
     oe_public_url := ''https://x.org''\<rparr>"

definition flow_config :: "bool ts_config" where
  "flow_config = sample_config (oe_json flow_env)"

definition flow_storage :: storage_config where
  "flow_storage = \<lparr>sg_public_url = ''https://x.org'', sg_secret = ''s'', sg_json = oe_json flow_env\<rparr>"

definition flow_origin :: origin where
  "flow_origin = \<lparr>og_host = ''x.org'', og_port = 443\<rparr>"

lemma flow_storage_fields [simp]:
  "sg_secret flow_storage = ''s''" "sg_json flow_storage = oe_json flow_env"
  "origin_parse (sg_public_url flow_storage) = Some flow_origin"
proof -
  show "sg_secret flow_storage = ''s''" "sg_json flow_storage = oe_json flow_env" by (simp_all add: flow_storage_def)
  have "origin_parse ''https://x.org'' = Some \<lparr>og_host = ''x.org'', og_port = 443\<rparr>" by code_simp
  then show "origin_parse (sg_public_url flow_storage) = Some flow_origin" by (simp add: flow_storage_def flow_origin_def)
qed

lemma flow_env_fields [simp]:
  "oe_rsa flow_env = sample_rsa" "oe_kid flow_env = ''k1''" "oe_verifiers flow_env = [(''k1'', True)]"
  "oe_public_url flow_env = ''https://x.org''" "oe_clients flow_env = oe_clients sample_env" "oe_access_ttl flow_env = 21600"
  by (simp_all add: flow_env_def sample_env_def)

lemma flow_json: "oe_json flow_env = flow_lib [jwt_header ACCESS_TOKEN_TYP ''k1'', sync_claims] flow_payload [1, 2, 3]"
  by (simp add: flow_env_def)

lemma flow_config_fields [simp]:
  "tc_public_url flow_config = ''https://x.org''" "tc_json flow_config = oe_json flow_env" "tc_rsa flow_config = sample_rsa"
  "tc_verifiers flow_config = [(''k1'', True)]" "tc_ttl flow_config = 300" "tc_secret flow_config = ''s''"
  by (simp_all add: flow_config_def sample_config_def)

lemma flow_claims_signed:
  assumes "scope_values (gr_scope g) = [OLDSYNC_SCOPE]" "gr_client g = fenix" "gr_uid g = ''u1''" "gr_generation g = 1"
    "gr_profile_changed_at g = 1" "gr_aal g = 1" "gr_auth_at g = 5"
  shows "covers_oldsync (gr_scope g)" "access_claims flow_env g 100 9000 ''j'' = sync_claims"
proof -
  have "implies OLDSYNC_SCOPE OLDSYNC_SCOPE" using oldsync_valid implies_self by blast
  then show c: "covers_oldsync (gr_scope g)" by (simp add: covers_oldsync_grants grants_def assms(1))
  have "''AAL'' @ show_int 1 = ''AAL1''" by code_simp
  moreover have "config_url ''https://x.org'' ''/token'' = ''https://x.org/token''" by code_simp
  moreover have "scope_str (gr_scope g) = OLDSYNC_SCOPE" by (simp add: scope_str_def assms(1))
  ultimately show "access_claims flow_env g 100 9000 ''j'' = sync_claims"
    using c assms by (simp add: access_claims_def token_audience_def oe_tokenserver_url_def sync_claims_def Let_def when_set_def)
qed

text \<open>The payload opens with another key than either segment, so the library tells them apart.\<close>

lemma flow_payload_node: "\<exists>v rest. dict_set ''salt'' x flow_payload = (''node'', v) # rest"
  by (simp add: flow_payload_def minted_claims_def token_claims_def Let_def)

lemma dumps_open: "\<exists>t. json_dumps f ea (JObj ((k, v) # kvs)) = CHR ''{'' # json_string ea k @ t"
  by (cases kvs) simp_all

lemma flow_payload_apart:
  "encode_utf8 (json_dumps f ea (JObj ((''alg'', v) # kvs))) \<noteq> token_payload (sample_lib []) flow_payload salt"
  "encode_utf8 (json_dumps f ea (JObj ((''aud'', v) # kvs))) \<noteq> token_payload (sample_lib []) flow_payload salt"
proof -
  obtain w rest where p: "dict_set ''salt'' (JStr salt) flow_payload = (''node'', w) # rest" using flow_payload_node by blast
  obtain t where t: "json_dumps (\<lambda>_. []) True (JObj ((''node'', w) # rest)) = CHR ''{'' # json_string True ''node'' @ t"
    using dumps_open by blast
  have payload: "token_payload (sample_lib []) flow_payload salt = encode_utf8 (CHR ''{'' # json_string True ''node'' @ t)"
    by (simp only: token_payload_def p) (simp add: sample_lib_def t del: json_dumps.simps)
  have esc: "json_escape b CHR ''a'' = ''a''" "json_escape b CHR ''n'' = ''n''" for b
    by (simp_all add: json_escape_def ord_def)
  have "json_dumps f ea (JObj ((CHR ''a'' # k, v) # kvs)) \<noteq> CHR ''{'' # json_string True ''node'' @ t" for k
    using dumps_open [of f ea "CHR ''a'' # k" v kvs] by (auto simp: json_string_def esc)
  then show "encode_utf8 (json_dumps f ea (JObj ((''alg'', v) # kvs))) \<noteq> token_payload (sample_lib []) flow_payload salt"
    "encode_utf8 (json_dumps f ea (JObj ((''aud'', v) # kvs))) \<noteq> token_payload (sample_lib []) flow_payload salt"
    unfolding payload using encode_utf8_inj by blast+
qed

lemma flow_lib_reads:
  "lib_reads (oe_json flow_env) (jwt_header ACCESS_TOKEN_TYP ''k1'')" "lib_reads (oe_json flow_env) sync_claims"
  "reads_payload (oe_json flow_env) flow_payload [1, 2, 3]"
proof -
  show "lib_reads (oe_json flow_env) (jwt_header ACCESS_TOKEN_TYP ''k1'')" "lib_reads (oe_json flow_env) sync_claims"
    using flow_payload_apart sync_dumps_apart
    by (simp_all add: lib_reads_def flow_json flow_lib_def sample_lib_def jwt_header_def sync_claims_def del: json_dumps.simps)
  show "reads_payload (oe_json flow_env) flow_payload [1, 2, 3]"
    by (simp add: reads_payload_def flow_json flow_lib_def token_payload_def sample_lib_def)
qed

lemma flow_token_short: "length (sign_jwt (oe_json flow_env) sample_rsa sync_claims ''k1'' ACCESS_TOKEN_TYP) \<le> MAX_JWT_LENGTH"
  by (rule sync_token_short) (simp add: flow_json flow_lib_def sample_lib_def)

lemma session_database_signed_in:
  "ts_inv session_database" "sync_users ''u1'' session_database = []" "db_sync_users_seq session_database = 0"
  "session_of (Some sample_header) session_database = Inr \<lparr>sc_token = sample_session, sc_account = sample_account\<rparr>"
proof -
  have "db_sync_users session_database = []" "db_sync_users_seq session_database = 0"
    by (simp_all add: session_database_def empty_database_def)
  then show "ts_inv session_database" "sync_users ''u1'' session_database = []" "db_sync_users_seq session_database = 0"
    using session_database_ok by (simp_all add: ts_inv_def users_inv_def users_of_def sync_users_def)
  show "session_of (Some sample_header) session_database = Inr \<lparr>sc_token = sample_session, sc_account = sample_account\<rparr>"
    by (simp add: session_of_def sample_session_of)
qed

theorem session_reaches_storage_witness:
  "\<exists>(sk :: scoped_key) r resp db'. oauth_token flow_env (Some sample_header) sync_request 9000 ''j'' ''f''
       session_database = (Inr r, session_database) \<and>
     token_endpoint flow_config ''sync'' ''1.5'' (key_request (tk_access_token r) (sk_kid sk)) 9000 [1, 2, 3] session_database =
       (Inr resp, db') \<and> get_sync_user (tp_uid resp) session_database = None \<and>
     (\<exists>u. get_sync_user (tp_uid resp) db' = Some u \<and> su_fxa_uid u = ''u1'')"
proof -
  let ?p = sync_request
  obtain g where g: "fxa_credentials_grant (Some sample_header) fenix ?p session_database = Inr g" "\<not> gr_offline g"
    "scope_values (gr_scope g) = [OLDSYNC_SCOPE]" "gr_client g = fenix" "gr_uid g = ''u1''" "gr_generation g = 1"
    "gr_profile_changed_at g = 1" "gr_aal g = 1" "gr_auth_at g = 5" by (rule sample_sync_grant)
  let ?tok = "access_token flow_env g 100 9000 ''j''"
  note c = flow_claims_signed [OF g(3-9)]
  have p: "tq_client_id ?p = FENIX_CLIENT_ID" "tq_grant_type ?p = GRANT_FXA_CREDENTIALS" "token_ttl flow_env ?p = 100"
    by (simp_all add: sync_request_def credentials_request_def token_ttl_def)
  have tok: "access_token flow_env g 100 9000 ''j'' = sign_jwt (oe_json flow_env) sample_rsa sync_claims ''k1'' ACCESS_TOKEN_TYP"
    by (simp add: access_token_def c(2))
  obtain km where "hkdf [1, 2, 3] (encode_utf8 (NAMESPACE @ ''oldsync'')) [] 64 = Some km"
    by (rule hkdf_total [of 64 "[1, 2, 3]" "encode_utf8 (NAMESPACE @ ''oldsync'')" "[]"]) simp_all
  then obtain sk where sk: "legacy_sync_key OLDSYNC_SCOPE [1, 2, 3] flow_stamp = Some sk" by (simp add: legacy_sync_key_def)
  have payload: "minted_claims flow_config (key_request t k) (first_auth sample_account [1, 2, 3] flow_stamp) 9000
      (db_sync_users_seq session_database + 1, acc_verifier_set_at sample_account, Some flow_stamp) = flow_payload" for t k
    by (simp add: flow_payload_def minted_claims_def token_claims_def session_database_signed_in(3) sample_account_def
        sample_config_def key_request_def duration_of_def Let_def)
  have a: "acc_uid sample_account = ''u1''" "acc_verifier_set_at sample_account = 1" by (simp_all add: sample_account_def)
  have "\<exists>r resp db'. oauth_token flow_env (Some sample_header) ?p 9000 ''j'' ''f'' session_database = (Inr r, session_database) \<and>
      tk_access_token r = ?tok \<and>
      token_endpoint flow_config ''sync'' ''1.5'' (key_request ?tok (sk_kid sk)) 9000 [1, 2, 3] session_database = (Inr resp, db') \<and>
      get_sync_user (tp_uid resp) session_database = None \<and>
      (\<exists>u. get_sync_user (tp_uid resp) db' = Some u \<and> su_fxa_uid u = acc_uid sample_account) \<and>
      (\<forall>tg rb now rq ts nonce hash ext header.
         client_header (tp_id resp) (tp_key resp) (request_of flow_origin (sync_attempt_of tg rb now rq)) ts nonce hash ext
           = Some header \<longrightarrow>
         signable (sync_attempt_of tg rb now rq) ts nonce hash ext \<longrightarrow>
         header_get (rq_headers rq) ''authorization'' = Some header \<longrightarrow> now div 1000 < 9000 div 1000 + tp_duration resp \<longrightarrow>
         authenticate_request (storage_authenticator flow_storage tg rb now) now rq db' =
           (if rq_uid rq = tp_uid resp then Inr \<lparr>ss_uid = tp_uid resp, ss_now = quantize now\<rparr>
            else Inl (Http sync_unauthorized)))"
    by (rule session_reaches_storage [where pub = True and tok = sample_session and c = fenix and g = g and kb = "[1, 2, 3]" and
          stamp = flow_stamp])
      (use flow_lib_reads flow_token_short session_database_signed_in g(1,2) c sk payload a p tok sample_registry sample_client
        in \<open>simp_all add: sql_int_def\<close>)
  then obtain r resp db' where w:
    "oauth_token flow_env (Some sample_header) ?p 9000 ''j'' ''f'' session_database = (Inr r, session_database)"
    "tk_access_token r = ?tok"
    "token_endpoint flow_config ''sync'' ''1.5'' (key_request ?tok (sk_kid sk)) 9000 [1, 2, 3] session_database = (Inr resp, db')"
    "get_sync_user (tp_uid resp) session_database = None" "\<exists>u. get_sync_user (tp_uid resp) db' = Some u \<and> su_fxa_uid u = ''u1''"
    using a(1) by auto
  show ?thesis
    by (intro exI [of _ sk] exI [of _ r] exI [of _ resp] exI [of _ db']) (use w in simp)
qed

end
