(* ===== verification/DivergenceScan.thy ===== *)
theory DivergenceScan
  imports PyInt "HOL-Library.Product_Lexorder" "HOL-Library.Multiset"
begin

text \<open>
  \<open>docs/_ext/divergence_scan.py\<close>: the \<open># DIVERGENCE:\<close> markers of the source tree, read into the
  entries of the provenance chapter. A file is a list of lines; the files of a scan and their order
  are a parameter. The em dash of a header, which the model's characters do not reach, stands at
  \<open>0x97\<close>, its place in the Windows code page. A \<open>MarkerError\<close> is its message.
\<close>

definition EM_DASH :: char where "EM_DASH = CHR 0x97"

definition FIELDS :: "str list" where "FIELDS = [''upstream'', ''fxa-lite'', ''why'', ''cost'']"

definition TIERS :: "(str \<times> str) list" where
  "TIERS = [(''auth'', ''Accounts API''), (''oauth'', ''OAuth''), (''profile'', ''Profile''),
     (''content'', ''Content server''), (''tokenserver'', ''Sync tokenserver''),
     (''syncstorage'', ''Sync storage''), (''crypto'', ''Crypto core''), ([], ''Across the process'')]"

subsection \<open>The patterns\<close>

abbreviation lspace :: "str \<Rightarrow> str" where "lspace \<equiv> lstrip_by is_space"

definition is_slug_char :: "char \<Rightarrow> bool" where
  "is_slug_char c \<longleftrightarrow> 97 \<le> ord c \<and> ord c \<le> 122 \<or> is_digit c \<or> c = CHR ''-''"

definition is_dash :: "char \<Rightarrow> bool" where
  "is_dash c \<longleftrightarrow> c = EM_DASH \<or> c = CHR ''-''"

text \<open>
  What follows a slug of \<open>k\<close> characters: a dash and a title. The regular expression tries the
  longest slug first and gives characters back until the rest matches.
\<close>

definition title_after :: "nat \<Rightarrow> str \<Rightarrow> str option" where
  "title_after k s =
     (case lspace (drop k s) of
        [] \<Rightarrow> None
      | d # t \<Rightarrow> if is_dash d \<and> lspace t \<noteq> [] then Some (lspace t) else None)"

fun slug_title :: "nat \<Rightarrow> str \<Rightarrow> (str \<times> str) option" where
  "slug_title 0 s = None"
| "slug_title (Suc k) s =
     (case title_after (Suc k) s of Some t \<Rightarrow> Some (take (Suc k) s, t) | None \<Rightarrow> slug_title k s)"

text \<open>\<open>_HEADER_RE\<close>, \<open>_FIELD_RE\<close> and \<open>_CONTINUATION_RE\<close>, on a line without outer white space.\<close>

definition header_match :: "str \<Rightarrow> (str \<times> str) option" where
  "header_match s =
     (if startswith s ''#'' \<and> startswith (lspace (drop 1 s)) ''DIVERGENCE:'' then
        (let rest = lspace (drop (length ''DIVERGENCE:'') (lspace (drop 1 s)))
         in slug_title (length (takeWhile is_slug_char rest)) rest)
      else None)"

definition after_space :: "str \<Rightarrow> str option" where
  "after_space s =
     (case s of
        h # c # t \<Rightarrow> if h = CHR ''#'' \<and> is_space c then Some (lspace t) else None
      | _ \<Rightarrow> None)"

definition field_match :: "str \<Rightarrow> (str \<times> str) option" where
  "field_match s =
     (case after_space s of
        None \<Rightarrow> None
      | Some t \<Rightarrow>
          (case find (\<lambda>name. startswith t (name @ '':'')) FIELDS of
             None \<Rightarrow> None
           | Some name \<Rightarrow> Some (name, lspace (drop (length name + 1) t))))"

definition continuation_match :: "str \<Rightarrow> str option" where
  "continuation_match s = (case after_space s of None \<Rightarrow> None | Some t \<Rightarrow> if t = [] then None else Some t)"

subsection \<open>One file\<close>

record divergence =
  dv_slug :: str
  dv_title :: str
  dv_fields :: "(str \<times> str) list"
  dv_path :: str
  dv_line :: nat

type_synonym gathered = "(str \<times> str list) list"

definition marker_error :: "str \<Rightarrow> nat \<Rightarrow> str \<Rightarrow> str \<Rightarrow> str" where
  "marker_error path line slug what =
     path @ '':'' @ show_nat line @ '': '' @ slug @ what"

text \<open>One comment line under a header: the fields gathered and the one that is open.\<close>

definition marker_line ::
  "str \<Rightarrow> nat \<Rightarrow> str \<Rightarrow> str \<Rightarrow> gathered \<times> str option \<Rightarrow> str + gathered \<times> str option" where
  "marker_line path line slug s st =
     (let (gathered, current) = st in
      case field_match s of
        Some (name, txt) \<Rightarrow>
          if map_of gathered name \<noteq> None
          then Inl (marker_error path line slug ('' names '' @ name @ '' twice''))
          else Inr (gathered @ [(name, if txt = [] then [] else [txt])], Some name)
      | None \<Rightarrow>
          (case (continuation_match s, current) of
             (Some txt, Some name) \<Rightarrow>
               Inr (map (\<lambda>(n, ts). (n, if n = name then ts @ [txt] else ts)) gathered, current)
           | _ \<Rightarrow>
               Inl (marker_error path line slug
                 ('' has a line before its first field, or a field name that is not one of '' @
                  join '', '' FIELDS))))"

text \<open>The lines of a marker, and how many there are: to the first that is no comment or opens another.\<close>

fun marker_body ::
  "str \<Rightarrow> nat \<Rightarrow> str \<Rightarrow> str list \<Rightarrow> gathered \<times> str option \<Rightarrow> str + nat \<times> gathered" where
  "marker_body path i slug [] st = Inr (0, fst st)"
| "marker_body path i slug (l # ls) st =
     (if \<not> startswith (strip l) ''#'' \<or> header_match (strip l) \<noteq> None then Inr (0, fst st)
      else
        bindr (marker_line path (i + 1) slug (strip l) st) (\<lambda>st'.
        bindr (marker_body path (i + 1) slug ls st') (\<lambda>(n, gathered). Inr (n + 1, gathered))))"

definition missing_fields :: "gathered \<Rightarrow> str list" where
  "missing_fields gathered = filter (\<lambda>name. map_of gathered name \<in> {None, Some []}) FIELDS"

definition field_texts :: "gathered \<Rightarrow> (str \<times> str) list" where
  "field_texts gathered = map (\<lambda>name. (name, join '' '' (the (map_of gathered name)))) FIELDS"

text \<open>\<open>i\<close> lines are behind.\<close>

function parse_lines :: "str \<Rightarrow> nat \<Rightarrow> str list \<Rightarrow> str + divergence list" where
  "parse_lines path i [] = Inr []"
| "parse_lines path i (l # ls) =
     (case header_match (strip l) of
        None \<Rightarrow> parse_lines path (i + 1) ls
      | Some (slug, title) \<Rightarrow>
          bindr (marker_body path (i + 1) slug ls ([], None)) (\<lambda>(n, gathered).
            if missing_fields gathered \<noteq> []
            then Inl (marker_error path (i + 1) slug ('' is missing '' @ join '', '' (missing_fields gathered)))
            else
              bindr (parse_lines path (i + 1 + n) (drop n ls)) (\<lambda>found.
                Inr (\<lparr>dv_slug = slug, dv_title = title, dv_fields = field_texts gathered,
                       dv_path = path, dv_line = i + 1\<rparr> # found))))"
  by pat_completeness auto
termination by (relation "measure (\<lambda>(path, i, ls). length ls)") auto

definition parse_markers :: "str \<Rightarrow> str \<Rightarrow> str + divergence list" where
  "parse_markers contents path = parse_lines path 0 (splitlines contents)"

subsection \<open>The tree\<close>

text \<open>\<open>Path(path).parts\<close> of a relative path.\<close>

definition path_parts :: "str \<Rightarrow> str list" where
  "path_parts path = filter (\<lambda>p. p \<noteq> [] \<and> p \<noteq> ''.'') (split CHR ''/'' path)"

definition tier_of :: "divergence \<Rightarrow> str" where
  "tier_of d =
     (let parts = path_parts (dv_path d);
          component = (if 3 < length parts then parts ! 2 else [])
      in case map_of TIERS component of Some name \<Rightarrow> name | None \<Rightarrow> snd (last TIERS))"

fun position :: "'a list \<Rightarrow> 'a \<Rightarrow> nat" where
  "position [] x = 0"
| "position (y # ys) x = (if x = y then 0 else position ys x + 1)"

definition tier_position :: "divergence \<Rightarrow> nat" where
  "tier_position d = position (map snd TIERS) (tier_of d)"

definition scan_key :: "divergence \<Rightarrow> nat \<times> str" where
  "scan_key d = (tier_position d, dv_slug d)"

fun collect_markers :: "(str \<times> str) list \<Rightarrow> str + divergence list" where
  "collect_markers [] = Inr []"
| "collect_markers ((path, contents) # files) =
     bindr (parse_markers contents path) (\<lambda>ds. bindr (collect_markers files) (\<lambda>rest. Inr (ds @ rest)))"

definition duplicate_slugs :: "divergence list \<Rightarrow> str list" where
  "duplicate_slugs found =
     (let slugs = map dv_slug found in sort (remdups (filter (\<lambda>s. 1 < count_list slugs s) slugs)))"

definition scan_markers :: "(str \<times> str) list \<Rightarrow> str + divergence list" where
  "scan_markers files =
     bindr (collect_markers files) (\<lambda>ds.
       let found = sort_key scan_key ds
       in if duplicate_slugs found \<noteq> []
          then Inl (''duplicate divergence slugs: '' @ join '', '' (duplicate_slugs found))
          else Inr found)"

subsection \<open>Every marker is read whole\<close>

text \<open>The header lines of a file, with their numbers.\<close>

fun file_headers :: "nat \<Rightarrow> str list \<Rightarrow> (nat \<times> str \<times> str) list" where
  "file_headers i [] = []"
| "file_headers i (l # ls) =
     (case header_match (strip l) of None \<Rightarrow> [] | Some (slug, title) \<Rightarrow> [(i + 1, slug, title)]) @
     file_headers (i + 1) ls"

lemma file_headers_skip:
  "n \<le> length ls \<Longrightarrow> \<forall>l \<in> set (take n ls). header_match (strip l) = None \<Longrightarrow>
    file_headers (i + n) (drop n ls) = file_headers i ls"
proof (induction n arbitrary: i ls)
  case (Suc n)
  then show ?case using Suc.IH [of "tl ls" "i + 1"] by (cases ls) auto
qed simp

text \<open>A text is gathered only when there is something of it.\<close>

definition gathered_ok :: "gathered \<Rightarrow> bool" where
  "gathered_ok g \<longleftrightarrow> (\<forall>e \<in> set g. [] \<notin> set (snd e))"

lemma marker_line_ok:
  assumes "marker_line path i slug s st = Inr st'" "gathered_ok (fst st)"
  shows "gathered_ok (fst st')"
proof -
  obtain g cur where st: "st = (g, cur)" by (cases st)
  show ?thesis
    using assms unfolding st marker_line_def gathered_ok_def continuation_match_def
    by (fastforce split: option.splits if_splits)
qed

lemma marker_body_Inr:
  assumes "marker_body path i slug ls st = Inr (n, g)" "gathered_ok (fst st)"
  shows "n \<le> length ls \<and> (\<forall>l \<in> set (take n ls). header_match (strip l) = None) \<and> gathered_ok g"
  using assms
proof (induction path i slug ls st arbitrary: n g rule: marker_body.induct)
  case (2 path i slug l ls st)
  show ?case
  proof (cases "\<not> startswith (strip l) ''#'' \<or> header_match (strip l) \<noteq> None")
    case True
    then show ?thesis using "2.prems" by auto
  next
    case False
    then obtain st' m where m: "marker_line path (i + 1) slug (strip l) st = Inr st'"
      "marker_body path (i + 1) slug ls st' = Inr (m, g)" "n = m + 1"
      using "2.prems"(1) by (auto simp: bindr_eq_Inr)
    moreover have "header_match (strip l) = None" using False by blast
    ultimately show ?thesis using "2.IH" [OF False m(2) marker_line_ok [OF m(1) "2.prems"(2)]] by simp
  qed
qed simp

text \<open>What an entry carries: its file, the four fields in their order, and something in each.\<close>

definition entry_ok :: "str \<Rightarrow> divergence \<Rightarrow> bool" where
  "entry_ok path d \<longleftrightarrow>
     dv_path d = path \<and> map fst (dv_fields d) = FIELDS \<and> (\<forall>e \<in> set (dv_fields d). snd e \<noteq> [])"

lemma join_nonempty: "ws \<noteq> [] \<Longrightarrow> [] \<notin> set ws \<Longrightarrow> join sep ws \<noteq> []"
  by (induction sep ws rule: join.induct) auto

lemma field_texts_ok:
  assumes "missing_fields g = []" "gathered_ok g"
  shows "map fst (field_texts g) = FIELDS" "\<forall>e \<in> set (field_texts g). snd e \<noteq> []"
proof -
  show "map fst (field_texts g) = FIELDS" by (simp add: field_texts_def comp_def)
  have "join '' '' (the (map_of g name)) \<noteq> []" if "name \<in> set FIELDS" for name
  proof -
    have "map_of g name \<notin> {None, Some []}"
      using assms(1) that unfolding missing_fields_def filter_empty_conv by blast
    then obtain ts where ts: "map_of g name = Some ts" "ts \<noteq> []" by auto
    then have "[] \<notin> set ts" using assms(2) map_of_SomeD [OF ts(1)] unfolding gathered_ok_def by force
    then show ?thesis using ts by (simp add: join_nonempty)
  qed
  then show "\<forall>e \<in> set (field_texts g). snd e \<noteq> []" by (auto simp: field_texts_def)
qed

text \<open>A file that parses gives one entry for each header line, in order, and every entry is whole.\<close>

lemma parse_lines_Inr:
  "parse_lines path i ls = Inr ds \<Longrightarrow>
    map (\<lambda>d. (dv_line d, dv_slug d, dv_title d)) ds = file_headers i ls \<and> (\<forall>d \<in> set ds. entry_ok path d)"
proof (induction path i ls arbitrary: ds rule: parse_lines.induct)
  case (2 path i l ls)
  show ?case
  proof (cases "header_match (strip l)")
    case None
    then show ?thesis using 2 by simp
  next
    case (Some h)
    obtain slug title where h: "h = (slug, title)" by (cases h)
    obtain n g where b: "marker_body path (i + 1) slug ls ([], None) = Inr (n, g)"
      using "2.prems" Some h by (auto simp: bindr_eq_Inr)
    have none: "missing_fields g = []" using "2.prems" Some h b by (auto split: if_splits)
    then obtain rest where r: "parse_lines path (i + 1 + n) (drop n ls) = Inr rest"
      "ds = \<lparr>dv_slug = slug, dv_title = title, dv_fields = field_texts g, dv_path = path, dv_line = i + 1\<rparr> # rest"
      using "2.prems" Some h b by (auto simp: bindr_eq_Inr)
    have IH: "map (\<lambda>d. (dv_line d, dv_slug d, dv_title d)) rest = file_headers (i + 1 + n) (drop n ls) \<and>
        (\<forall>d \<in> set rest. entry_ok path d)"
      using "2.IH"(2) [OF Some h [symmetric] _ r(1)] none by simp
    have n: "n \<le> length ls" "\<forall>l \<in> set (take n ls). header_match (strip l) = None" "gathered_ok g"
      using marker_body_Inr [OF b] by (simp_all add: gathered_ok_def)
    then show ?thesis
      using IH file_headers_skip [OF n(1,2), of "i + 1"] Some h r(2) field_texts_ok [OF none n(3)]
      by (simp add: entry_ok_def)
  qed
qed simp

lemma parse_markers_whole:
  assumes "parse_markers contents path = Inr ds"
  shows "map (\<lambda>d. (dv_line d, dv_slug d, dv_title d)) ds = file_headers 0 (splitlines contents)"
    and "\<forall>d \<in> set ds. entry_ok path d"
  using parse_lines_Inr assms unfolding parse_markers_def by blast+

subsection \<open>The chapter\<close>

lemma tier_known: "tier_of d \<in> set (map snd TIERS)"
proof -
  have "snd (last TIERS) \<in> set (map snd TIERS)" by (simp add: TIERS_def)
  then show ?thesis by (auto simp: tier_of_def Let_def split: option.split dest!: map_of_SomeD intro: rev_image_eqI)
qed

lemma position_nth: "x \<in> set ys \<Longrightarrow> position ys x < length ys \<and> ys ! position ys x = x"
  by (induction ys) auto

text \<open>So the order of the tiers has a place for every marker, and its place names its tier.\<close>

lemma tier_position_names:
  "tier_position d < length TIERS" "map snd TIERS ! tier_position d = tier_of d"
  using position_nth [OF tier_known] by (simp_all add: tier_position_def del: nth_map)

lemma distinct_counts: "distinct xs \<longleftrightarrow> filter (\<lambda>x. 1 < count_list xs x) xs = []"
proof -
  have "distinct xs \<longleftrightarrow> (\<forall>x \<in> set xs. count_list xs x \<le> 1)"
  proof (induction xs)
    case (Cons x xs)
    have "(\<forall>y \<in> set (x # xs). count_list (x # xs) y \<le> 1) \<longleftrightarrow>
        count_list xs x = 0 \<and> (\<forall>y \<in> set xs. count_list xs y \<le> 1)"
      by (auto simp: le_Suc_eq)
    then show ?case using Cons by (simp add: count_list_0_iff)
  qed simp
  then show ?thesis by (simp add: filter_empty_conv not_less)
qed

lemma duplicate_slugs_none: "duplicate_slugs found = [] \<longleftrightarrow> distinct (map dv_slug found)"
proof -
  have "sort ws = [] \<longleftrightarrow> ws = []" for ws :: "str list" by (metis length_0_conv length_sort)
  then show ?thesis by (simp only: duplicate_slugs_def Let_def distinct_counts remdups_eq_nil_iff)
qed

text \<open>
  A scan that succeeds shows every marker once, tier by tier and by slug within a tier; it fails as
  soon as one file does or two markers share a slug.
\<close>

lemma scan_markers_Inr:
  "scan_markers files = Inr found \<longleftrightarrow>
    (\<exists>ds. collect_markers files = Inr ds \<and> found = sort_key scan_key ds \<and> distinct (map dv_slug ds))"
proof -
  have "distinct (map dv_slug (sort_key scan_key ds)) = distinct (map dv_slug ds)" for ds
    by (intro mset_eq_imp_distinct_iff) simp
  then show ?thesis by (auto simp: scan_markers_def bindr_eq_Inr Let_def duplicate_slugs_none)
qed

lemma scan_markers_order:
  assumes "scan_markers files = Inr found"
  shows "sorted (map scan_key found)" "distinct (map dv_slug found)"
    "\<exists>ds. collect_markers files = Inr ds \<and> mset found = mset ds"
proof -
  obtain ds where ds: "collect_markers files = Inr ds" "found = sort_key scan_key ds" "distinct (map dv_slug ds)"
    using assms unfolding scan_markers_Inr by blast
  then show "sorted (map scan_key found)" "\<exists>ds. collect_markers files = Inr ds \<and> mset found = mset ds" by auto
  show "distinct (map dv_slug found)" using ds(2,3) by (metis mset_eq_imp_distinct_iff mset_map mset_sort)
qed

lemma collect_markers_whole:
  "collect_markers files = Inr ds \<Longrightarrow> d \<in> set ds \<Longrightarrow> \<exists>path. path \<in> fst ` set files \<and> entry_ok path d"
proof (induction files arbitrary: ds rule: collect_markers.induct)
  case (2 path contents files)
  then obtain ds1 ds2 where p: "parse_markers contents path = Inr ds1" "collect_markers files = Inr ds2" "ds = ds1 @ ds2"
    by (auto simp: bindr_eq_Inr)
  show ?case
  proof (cases "d \<in> set ds1")
    case True
    then show ?thesis using parse_markers_whole(2) [OF p(1)] by (intro exI [of _ path]) simp
  next
    case False
    then show ?thesis using "2.IH" [OF p(2)] "2.prems"(2) p(3) by auto
  qed
qed simp

subsection \<open>Writing a marker\<close>

definition trimmed :: "str \<Rightarrow> bool" where
  "trimmed s \<longleftrightarrow> s \<noteq> [] \<and> \<not> is_space (hd s) \<and> \<not> is_space (last s)"

definition field_line :: "str \<times> str \<Rightarrow> str" where
  "field_line e = ''#   '' @ fst e @ '': '' @ snd e"

definition marker_lines :: "divergence \<Rightarrow> str list" where
  "marker_lines d =
     (''# DIVERGENCE: '' @ dv_slug d @ '' '' @ [EM_DASH] @ '' '' @ dv_title d) # map field_line (dv_fields d)"

definition writable :: "divergence \<Rightarrow> bool" where
  "writable d \<longleftrightarrow> dv_slug d \<noteq> [] \<and> list_all is_slug_char (dv_slug d) \<and> trimmed (dv_title d) \<and>
     map fst (dv_fields d) = FIELDS \<and> (\<forall>e \<in> set (dv_fields d). trimmed (snd e))"

lemma spaces [simp]: "is_space CHR '' ''" "\<not> is_space CHR ''#''" "\<not> is_space EM_DASH"
  by code_simp+

lemma lspace_simps [simp]: "lspace [] = []" "lspace (CHR '' '' # s) = lspace s" "\<not> is_space c \<Longrightarrow> lspace (c # s) = c # s"
  by (simp_all add: lstrip_by_def)

lemma lspace_trimmed: "trimmed s \<Longrightarrow> lspace s = s"
  by (cases s) (simp_all add: trimmed_def)

lemma header_written:
  assumes "slug \<noteq> []" "list_all is_slug_char slug" "trimmed title"
  shows "header_match (''# DIVERGENCE: '' @ slug @ '' '' @ [EM_DASH] @ '' '' @ title) = Some (slug, title)"
proof -
  let ?rest = "slug @ CHR '' '' # EM_DASH # CHR '' '' # title"
  have c: "\<not> is_space c" if "is_slug_char c" for c
    using that by (auto simp: is_slug_char_def is_digit_def is_space_def ord_def)
  have "\<not> is_space (hd slug)" using assms(1,2) c by (simp add: list_all_iff)
  then have l: "lspace ?rest = ?rest" using assms(1) by (cases slug) simp_all
  have d: "\<not> is_space CHR ''D''" "\<not> is_slug_char CHR '' ''" by code_simp+
  have t: "takeWhile is_slug_char ?rest = slug" using assms(2) d by (simp add: list_all_iff)
  obtain k where k: "length slug = Suc k" using assms(1) by (cases slug) auto
  have "title_after (length slug) ?rest = Some title"
    using assms(3) lspace_trimmed [OF assms(3)] by (simp add: title_after_def is_dash_def trimmed_def)
  then have "slug_title (length slug) ?rest = Some (slug, title)" by (simp add: k)
  then show ?thesis using l t d by (simp add: header_match_def Let_def)
qed

lemma field_written:
  assumes "name \<in> set FIELDS" "trimmed t"
  shows "field_match (field_line (name, t)) = Some (name, t)" "header_match (field_line (name, t)) = None"
proof -
  have n: "\<not> is_space CHR ''u''" "\<not> is_space CHR ''f''" "\<not> is_space CHR ''w''" "\<not> is_space CHR ''c''" by code_simp+
  moreover have name: "name = ''upstream'' \<or> name = ''fxa-lite'' \<or> name = ''why'' \<or> name = ''cost''"
    using assms(1) by (simp only: FIELDS_def list.set insert_iff empty_iff) blast
  ultimately obtain c r where c: "name = c # r" "\<not> is_space c" "c \<noteq> CHR ''D''" by (elim disjE) simp_all
  then show "header_match (field_line (name, t)) = None"
    by (simp add: field_line_def header_match_def)
  have "find (\<lambda>n. startswith (name @ '': '' @ t) (n @ '':'')) FIELDS = Some name"
    using name by (elim disjE) (simp_all add: FIELDS_def)
  moreover have "after_space (field_line (name, t)) = Some (name @ '': '' @ t)"
    using c by (simp add: field_line_def after_space_def)
  ultimately show "field_match (field_line (name, t)) = Some (name, t)"
    using lspace_trimmed [OF assms(2)] by (simp add: field_match_def)
qed

lemma strip_written: "trimmed t \<Longrightarrow> strip (CHR ''#'' # s @ t) = CHR ''#'' # s @ t"
  by (rule strip_id) (auto simp: trimmed_def)

lemma field_line_stripped:
  assumes "trimmed t" shows "strip (field_line (name, t)) = field_line (name, t)" "startswith (field_line (name, t)) ''#''"
  using strip_written [OF assms, of "''   '' @ name @ '': ''"] by (simp_all add: field_line_def)

text \<open>Where a marker ends.\<close>

definition ends_marker :: "str list \<Rightarrow> bool" where
  "ends_marker ls \<longleftrightarrow> ls = [] \<or> \<not> startswith (strip (hd ls)) ''#'' \<or> header_match (strip (hd ls)) \<noteq> None"

lemma body_written:
  assumes "ends_marker ls" "\<forall>e \<in> set es. fst e \<in> set FIELDS \<and> trimmed (snd e)" "distinct (map fst g @ map fst es)"
  shows "marker_body path i slug (map field_line es @ ls) (g, cur) =
    Inr (length es, g @ map (\<lambda>e. (fst e, [snd e])) es)"
  using assms(2,3)
proof (induction es arbitrary: i g cur)
  case Nil
  then show ?case using assms(1) by (cases ls) (auto simp: ends_marker_def)
next
  case (Cons e es)
  obtain name t where e: "e = (name, t)" by (cases e)
  have et: "name \<in> set FIELDS" "trimmed t" using Cons.prems(1) e by auto
  note f = field_written [OF et] field_line_stripped [OF et(2), of name]
  have "map_of g name = None" "t \<noteq> []" using Cons.prems(2) e et(2) by (auto simp: map_of_eq_None_iff trimmed_def)
  then have "marker_line path (i + 1) slug (field_line (name, t)) (g, cur) = Inr (g @ [(name, [t])], Some name)"
    by (simp add: marker_line_def f)
  moreover have "marker_body path (i + 1) slug (map field_line es @ ls) (g @ [(name, [t])], Some name) =
      Inr (length es, (g @ [(name, [t])]) @ map (\<lambda>e. (fst e, [snd e])) es)"
    using Cons.prems e by (intro Cons.IH) auto
  ultimately show ?case by (simp add: e f)
qed

lemma texts_written:
  assumes "map fst es = FIELDS"
  shows "missing_fields (map (\<lambda>e. (fst e, [snd e])) es) = []" "field_texts (map (\<lambda>e. (fst e, [snd e])) es) = es"
proof -
  have d: "distinct (map fst es)" unfolding assms by code_simp
  have m: "map_of (map (\<lambda>e. (fst e, [snd e])) es) (fst e) = Some [snd e]" if "e \<in> set es" for e
    using that d by (intro map_of_is_SomeI) (auto simp: comp_def)
  show "missing_fields (map (\<lambda>e. (fst e, [snd e])) es) = []"
    unfolding missing_fields_def assms [symmetric] using m by (auto simp: filter_empty_conv)
  show "field_texts (map (\<lambda>e. (fst e, [snd e])) es) = es"
    unfolding field_texts_def assms [symmetric] map_map using m by (intro map_idI) simp
qed

text \<open>A marker that is written is the marker that is read, and what follows it is read as before.\<close>

lemma marker_roundtrip:
  assumes "writable d" "dv_path d = path" "dv_line d = i + 1" "ends_marker ls"
  shows "parse_lines path i (marker_lines d @ ls) =
    bindr (parse_lines path (i + 5) ls) (\<lambda>found. Inr (d # found))"
proof -
  have w: "dv_slug d \<noteq> []" "list_all is_slug_char (dv_slug d)" "trimmed (dv_title d)" "map fst (dv_fields d) = FIELDS"
    "\<forall>e \<in> set (dv_fields d). trimmed (snd e)"
    using assms(1) by (simp_all add: writable_def)
  let ?h = "''# DIVERGENCE: '' @ dv_slug d @ '' '' @ [EM_DASH] @ '' '' @ dv_title d"
  have h: "header_match (strip ?h) = Some (dv_slug d, dv_title d)"
    using header_written [OF w(1-3)] strip_written [OF w(3), of "'' DIVERGENCE: '' @ dv_slug d @ '' '' @ [EM_DASH] @ '' ''"]
    by simp
  have "length FIELDS = 4" "distinct FIELDS" by code_simp+
  then have n: "length (dv_fields d) = 4" "distinct (map fst (dv_fields d))" unfolding w(4) [symmetric] by simp_all
  have "\<forall>e \<in> set (dv_fields d). fst e \<in> set FIELDS \<and> trimmed (snd e)"
    using w(5) unfolding w(4) [symmetric] by simp
  then have b: "marker_body path (i + 1) (dv_slug d) (map field_line (dv_fields d) @ ls) ([], None) =
      Inr (4, map (\<lambda>e. (fst e, [snd e])) (dv_fields d))"
    using body_written [OF assms(4), of "dv_fields d" "[]" path "i + 1" "dv_slug d" None] n by simp
  have "\<lparr>dv_slug = dv_slug d, dv_title = dv_title d, dv_fields = dv_fields d, dv_path = path, dv_line = i + 1\<rparr> = d"
    using assms(2,3) by simp
  then show ?thesis
    using h b texts_written [OF w(4)] n by (simp add: marker_lines_def add.commute [of 5])
qed

end
