(* ===== verification/DocTables.thy ===== *)
theory DocTables
  imports DivergenceScan Json
begin

text \<open>
  \<open>docs/_ext/divergences.py\<close> and \<open>docs/_ext/upstream.py\<close>: the two generated chapters of the
  documentation. A docutils node is a text or an element with its tag, its classes and its
  children; the labels a page registers come beside its nodes. The em dash stands at \<open>0x97\<close>, as in
  \<open>DivergenceScan\<close>. Sphinx itself, and reading the files, are outside.
\<close>

datatype node = Text str | Elem str "str list" "node list"

text \<open>\<open>nodes.literal(s, s)\<close> and \<open>nodes.strong(text=s)\<close>\<close>

definition literal :: "str \<Rightarrow> node" where "literal s = Elem ''literal'' [] [Text s]"
definition strong :: "str \<Rightarrow> node" where "strong s = Elem ''strong'' [] [Text s]"

definition DASH :: str where "DASH = '' '' @ [EM_DASH] @ '' ''"

subsection \<open>Inline literals\<close>

abbreviation tick :: char where "tick \<equiv> CHR 0x60"

text \<open>\<open>inline\<close>: \<open>acc\<close> is the prose since the last literal, in reverse.\<close>

definition prose :: "str \<Rightarrow> node list" where
  "prose acc = (if acc = [] then [] else [Text (rev acc)])"

function inline_from :: "str \<Rightarrow> str \<Rightarrow> node list" where
  "inline_from acc [] = prose acc"
| "inline_from acc (c # s) =
     (let body = takeWhile (\<lambda>x. x \<noteq> tick) s; rest = dropWhile (\<lambda>x. x \<noteq> tick) s
      in if c = tick \<and> body \<noteq> [] \<and> rest \<noteq> []
         then prose acc @ literal body # inline_from [] (tl rest)
         else inline_from (c # acc) s)"
  by pat_completeness auto
termination
proof (relation "measure (\<lambda>(acc, s). length s)")
  fix acc c s body rest
  assume "rest = dropWhile (\<lambda>x. x \<noteq> tick) s"
  then have "length rest \<le> length s" by (simp add: length_dropWhile_le)
  then show "(([], tl rest), acc, c # s) \<in> measure (\<lambda>(acc, s). length s)" by simp
qed simp_all

definition inline :: "str \<Rightarrow> node list" where "inline s = inline_from [] s"

text \<open>What a node of \<open>inline\<close> was written as.\<close>

fun written :: "node \<Rightarrow> str" where
  "written (Text s) = s"
| "written (Elem tag cls kids) = tick # concat (map written kids) @ [tick]"

lemma inline_from_written: "concat (map written (inline_from acc s)) = rev acc @ s"
proof (induction acc s rule: inline_from.induct)
  case (2 acc c s)
  let ?body = "takeWhile (\<lambda>x. x \<noteq> tick) s" and ?rest = "dropWhile (\<lambda>x. x \<noteq> tick) s"
  show ?case
  proof (cases "c = tick \<and> ?body \<noteq> [] \<and> ?rest \<noteq> []")
    case True
    then have "?rest = tick # tl ?rest" using hd_dropWhile [of "\<lambda>x. x \<noteq> tick" s] by (cases ?rest) auto
    then have "s = ?body @ tick # tl ?rest" by (metis takeWhile_dropWhile_id)
    moreover have "concat (map written (inline_from [] (tl ?rest))) = tl ?rest"
      using 2(1) [OF refl refl True] by simp
    ultimately show ?thesis using True by (simp add: literal_def prose_def Let_def)
  next
    case False
    then have "inline_from acc (c # s) = inline_from (c # acc) s" by (simp only: inline_from.simps Let_def if_False)
    then show ?thesis using 2(2) [OF refl refl False] by simp
  qed
qed (simp add: prose_def)

text \<open>Nothing of a text is lost or added: its nodes, written out, are the text.\<close>

lemma inline_written: "concat (map written (inline s)) = s"
  using inline_from_written [of "[]" s] by (simp add: inline_def)

subsection \<open>The divergences\<close>

definition LABELS :: "(str \<times> str) list" where
  "LABELS = [(''upstream'', ''Upstream''), (''fxa-lite'', ''fxa-lite''), (''why'', ''Why''),
     (''cost'', ''What it costs'')]"

definition label_of :: "divergence \<Rightarrow> str" where
  "label_of d = ''divergence-'' @ dv_slug d"

definition location_of :: "divergence \<Rightarrow> str" where
  "location_of d = dv_path d @ '':'' @ show_nat (dv_line d)"

text \<open>One entry; \<open>note_explicit_target\<close> registers its label.\<close>

definition divergence_entry :: "divergence \<Rightarrow> node \<times> str" where
  "divergence_entry d =
     (Elem ''container'' [''divergence'']
        (Elem ''rubric'' [] (inline (dv_title d)) #
         map (\<lambda>name. Elem ''paragraph'' [''divergence-field'']
            (strong (the (map_of LABELS name)) # Text DASH # inline (the (map_of (dv_fields d) name)))) FIELDS @
         [Elem ''paragraph'' [''divergence-source'']
            [Text ''Marked at '', literal (location_of d), Text ('', slug '' @ dv_slug d @ ''.'')]]),
      label_of d)"

definition tier_heading :: "str \<Rightarrow> node" where
  "tier_heading tier = Elem ''rubric'' [''divergence-tier''] [Text tier]"

text \<open>The loop of \<open>DivergenceTable.run\<close>: a heading wherever the tier changes.\<close>

fun table_entries :: "str option \<Rightarrow> divergence list \<Rightarrow> node list \<times> str list" where
  "table_entries tier [] = ([], [])"
| "table_entries tier (d # ds) =
     (let heading = (if tier = Some (tier_of d) then [] else [tier_heading (tier_of d)]);
          (entry, label) = divergence_entry d;
          (nodes, labels) = table_entries (Some (tier_of d)) ds
      in (heading @ entry # nodes, label # labels))"

definition NO_MARKERS :: str where "NO_MARKERS = ''no DIVERGENCE markers found under src/''"

definition divergence_table :: "(str \<times> str) list \<Rightarrow> str + node list \<times> str list" where
  "divergence_table files =
     bindr (scan_markers files) (\<lambda>found.
       let page = table_entries None found in if fst page = [] then Inl NO_MARKERS else Inr page)"

fun headings :: "node list \<Rightarrow> str list" where
  "headings [] = []"
| "headings (Elem tag cls kids # ns) =
     (if cls = [''divergence-tier''] then (case kids of Text s # _ \<Rightarrow> s # headings ns | _ \<Rightarrow> headings ns) else headings ns)"
| "headings (Text s # ns) = headings ns"

lemma headings_simps [simp]:
  "headings (tier_heading t # ns) = t # headings ns" "headings (fst (divergence_entry d) # ns) = headings ns"
  by (simp_all add: tier_heading_def divergence_entry_def)

lemma table_entries_labels: "snd (table_entries tier ds) = map label_of ds"
  by (induction tier ds rule: table_entries.induct) (simp_all add: Let_def split_beta divergence_entry_def)

text \<open>The headings are the tiers of the entries, without the ones already open.\<close>

lemma table_headings:
  "headings (fst (table_entries tier ds)) =
    (case tier of None \<Rightarrow> remdups_adj (map tier_of ds) | Some t \<Rightarrow> tl (remdups_adj (t # map tier_of ds)))"
proof (induction tier ds rule: table_entries.induct)
  case (2 tier d ds)
  have IH: "headings (fst (table_entries (Some (tier_of d)) ds)) = tl (remdups_adj (tier_of d # map tier_of ds))"
    using 2 [OF refl refl prod.collapse] by simp
  have head: "tier_of d # tl (remdups_adj (tier_of d # map tier_of ds)) = remdups_adj (tier_of d # map tier_of ds)"
    by (metis hd_remdups_adj list.collapse list.distinct(1) list.sel(1) remdups_adj_Nil_iff)
  show ?case
    by (cases tier) (auto simp: Let_def split_beta IH head)
qed (simp split: option.split)

lemma remdups_adj_sorted:
  fixes f :: "'a \<Rightarrow> nat"
  assumes "sorted (map f xs)" "inj_on f (set xs)"
  shows "sorted (map f (remdups_adj xs)) \<and> distinct (remdups_adj xs)"
  using assms
proof (induction xs rule: remdups_adj.induct)
  case (3 x y xs)
  show ?case
  proof (cases "x = y")
    case True
    then show ?thesis using 3 by simp
  next
    case False
    then have "f x < f y" using 3 by (auto simp: inj_on_def order_less_le)
    then have "\<forall>z \<in> set (y # xs). f x < f z" using "3.prems"(1) by auto
    moreover have "sorted (map f (remdups_adj (y # xs))) \<and> distinct (remdups_adj (y # xs))"
      using 3(2) [OF False] "3.prems" by simp
    moreover have "remdups_adj (x # y # xs) = x # remdups_adj (y # xs)" using False by simp
    ultimately show ?thesis by (auto simp: less_imp_le simp del: remdups_adj.simps)
  qed
qed simp_all

text \<open>A page shows every tier under one heading, in the order of the architecture, and no label twice.\<close>

lemma divergence_table_page:
  assumes "divergence_table files = Inr (nodes, labels)"
  shows "distinct labels" "distinct (headings nodes)" "sorted (map (position (map snd TIERS)) (headings nodes))"
proof -
  obtain found where f: "scan_markers files = Inr found" "table_entries None found = (nodes, labels)"
    using assms by (auto simp: divergence_table_def bindr_eq_Inr Let_def split: if_splits)
  note o = scan_markers_order [OF f(1)]
  have "labels = map label_of found" using table_entries_labels [of None found] f(2) by simp
  moreover have "map label_of found = map ((@) ''divergence-'') (map dv_slug found)" by (simp add: label_of_def)
  ultimately show "distinct labels" using o(2) by (simp only: distinct_map) (auto simp: inj_on_def)
  let ?f = "position (map snd TIERS)"
  have h: "headings nodes = remdups_adj (map tier_of found)" using table_headings [of None found] f(2) by simp
  have "sorted (map tier_position found)"
    using o(1) by (auto simp: sorted_wrt_map scan_key_def less_eq_prod_def elim!: sorted_wrt_mono_rel [rotated])
  then have s: "sorted (map ?f (map tier_of found))" by (simp add: tier_position_def [abs_def] comp_def)
  have "inj_on ?f (set (map snd TIERS))" using position_nth by (metis inj_onI)
  then have i: "inj_on ?f (set (map tier_of found))" using tier_known by (auto intro: inj_on_subset)
  show "distinct (headings nodes)" "sorted (map ?f (headings nodes))"
    unfolding h using remdups_adj_sorted [OF s i] by blast+
qed

subsection \<open>The checkouts\<close>

text \<open>One line of \<open>UPSTREAM.toml\<close>: the directory, whether a path list is open, the comments pending.\<close>

record note_state =
  nt_collected :: "((str \<times> str) \<times> str) list"
  nt_current :: str
  nt_inside :: bool
  nt_pending :: "str list"

definition strip_quotes :: "str \<Rightarrow> str" where
  "strip_quotes s = rstrip_by (\<lambda>c. c = CHR 0x22) (lstrip_by (\<lambda>c. c = CHR 0x22) s)"

definition note_line :: "str \<Rightarrow> note_state \<Rightarrow> note_state" where
  "note_line line st =
     (let s = strip line in
      if startswith s ''dir = '' then
        st\<lparr>nt_current := strip_quotes (strip (snd (snd (partition CHR ''='' s))))\<rparr>
      else if startswith s ''paths = ['' then st\<lparr>nt_inside := True, nt_pending := []\<rparr>
      else if \<not> nt_inside st then st
      else if startswith s '']'' then st\<lparr>nt_inside := False\<rparr>
      else if startswith s ''#'' then
        st\<lparr>nt_pending := nt_pending st @ [strip (lstrip_by (\<lambda>c. c = CHR ''#'') s)]\<rparr>
      else
        (let path = strip_quotes (rstrip_by (\<lambda>c. c = CHR '','') s) in
         if path = [] then st
         else st\<lparr>nt_collected := dict_set (nt_current st, path) (join '' '' (nt_pending st)) (nt_collected st),
                nt_pending := []\<rparr>))"

definition path_notes :: "str \<Rightarrow> ((str \<times> str) \<times> str) list" where
  "path_notes raw =
     nt_collected (fold note_line (splitlines raw)
       \<lparr>nt_collected = [], nt_current = [], nt_inside = False, nt_pending = []\<rparr>)"

definition KINDS :: "(str \<times> str) list" where
  "KINDS = [(''repo'', ''tracked'' @ DASH @ ''`upstream-diff.sh` follows the paths below''),
     (''reference'', ''read once, pinned so a claim can cite it; not tracked, no paths'')]"

text \<open>
  A node of the table of a checkout. A field that is missing is a \<open>KeyError\<close> and one that is no text
  an error of docutils; both end the build, and are \<open>None\<close>.
\<close>

type_synonym checkout = "(str \<times> json) list"

definition checkout_text :: "checkout \<Rightarrow> str \<Rightarrow> str option" where
  "checkout_text repo name = (case map_of repo name of Some (JStr s) \<Rightarrow> Some s | _ \<Rightarrow> None)"

definition checkout_paths :: "checkout \<Rightarrow> str list option" where
  "checkout_paths repo =
     (case map_of repo ''paths'' of
        None \<Rightarrow> Some []
      | Some (JArr vs) \<Rightarrow> those (map (\<lambda>v. case v of JStr s \<Rightarrow> Some s | _ \<Rightarrow> None) vs)
      | Some v \<Rightarrow> None)"

definition field_node :: "str \<times> str \<Rightarrow> node" where
  "field_node = (\<lambda>(label, v).
     Elem ''field'' []
       [Elem ''field_name'' [] [Text label],
        Elem ''field_body'' []
          [Elem ''paragraph'' []
             (if label = ''Repository'' then [Elem ''reference'' [] [Text v]]
              else if label = ''Commit'' then [literal v]
              else if label = ''Kind'' then inline v
              else [Text v])]])"

definition path_item :: "((str \<times> str) \<times> str) list \<Rightarrow> str \<Rightarrow> str \<Rightarrow> node" where
  "path_item comments dir path =
     (let note = (case map_of comments (dir, path) of None \<Rightarrow> [] | Some t \<Rightarrow> t) in
      Elem ''list_item'' []
        [Elem ''paragraph'' [] (literal path # (if note = [] then [] else Text DASH # inline note))])"

definition checkout_nodes ::
  "checkout \<Rightarrow> ((str \<times> str) \<times> str) list \<Rightarrow> str \<Rightarrow> node list option" where
  "checkout_nodes repo comments kind =
     Option.bind (checkout_text repo ''dir'') (\<lambda>dir.
     Option.bind (those (map (checkout_text repo) [''url'', ''branch'', ''commit'', ''date'', ''license''])) (\<lambda>vs.
     Option.bind (map_of KINDS kind) (\<lambda>promise.
     Option.bind (checkout_text repo ''took'') (\<lambda>took.
     Option.bind (checkout_paths repo) (\<lambda>paths.
       Some ([Elem ''rubric'' [''upstream-repo'', ''upstream-'' @ kind] [Text dir],
              Elem ''field_list'' []
                (map field_node (zip [''Repository'', ''Branch'', ''Commit'', ''Read on'', ''Licence'', ''Kind'']
                  (vs @ [promise]))),
              Elem ''paragraph'' [] (strong ''What was taken: '' # inline took)] @
             (if paths = [] then []
              else [Elem ''bullet_list'' [''upstream-paths''] (map (path_item comments dir) paths)])))))))"

text \<open>\<open>UpstreamTable.run\<close>: what \<open>tomllib\<close> read, beside the text it was read from.\<close>

definition upstream_table :: "(str \<times> checkout list) list \<Rightarrow> str \<Rightarrow> node list option" where
  "upstream_table table raw =
     map_option concat (those (concat (map (\<lambda>kind.
       map (\<lambda>repo. checkout_nodes repo (path_notes raw) kind)
         (case map_of table kind of None \<Rightarrow> [] | Some repos \<Rightarrow> repos)) [''repo'', ''reference''])))"

lemma note_line_outside:
  "\<not> nt_inside st \<Longrightarrow> nt_collected (note_line l st) = nt_collected st"
  by (simp add: note_line_def Let_def)

text \<open>Inside a list, the comments above a path become its note, and the path after it has none.\<close>

definition comment_line :: "str \<Rightarrow> str" where "comment_line c = ''# '' @ c"
definition path_line :: "str \<Rightarrow> str" where "path_line p = CHR 0x22 # p @ [CHR 0x22, CHR '','']"

definition plain_path :: "str \<Rightarrow> bool" where
  "plain_path p \<longleftrightarrow> p \<noteq> [] \<and> list_all (\<lambda>c. c \<noteq> CHR 0x22) p"

lemma comment_noted:
  assumes "nt_inside st" "trimmed c" "hd c \<noteq> CHR ''#''"
  shows "note_line (comment_line c) st = st\<lparr>nt_pending := nt_pending st @ [c]\<rparr>"
proof -
  have l: "strip (comment_line c) = comment_line c"
    using strip_written [OF assms(2), of "'' ''"] by (simp add: comment_line_def)
  have "lstrip_by (\<lambda>x. x = CHR ''#'') (comment_line c) = CHR '' '' # c"
    by (simp add: comment_line_def lstrip_by_def)
  moreover have "strip (CHR '' '' # c) = c"
    using assms(2) strip_id [of c] by (simp add: strip_def trimmed_def)
  ultimately show ?thesis using assms(1) l by (simp add: note_line_def Let_def) (simp add: comment_line_def)
qed

lemma path_noted:
  assumes "nt_inside st" "plain_path p"
  shows "note_line (path_line p) st =
    st\<lparr>nt_collected := dict_set (nt_current st, p) (join '' '' (nt_pending st)) (nt_collected st), nt_pending := []\<rparr>"
proof -
  have q: "\<not> is_space CHR 0x22" "\<not> is_space CHR '',''" by code_simp+
  have l: "strip (path_line p) = path_line p" using q by (intro strip_id) (simp add: path_line_def)
  have "rstrip_by (\<lambda>c. c = CHR '','') (path_line p) = CHR 0x22 # p @ [CHR 0x22]"
    by (simp add: path_line_def rstrip_by_def)
  moreover have "strip_quotes (CHR 0x22 # p @ [CHR 0x22]) = p"
  proof -
    have p: "p \<noteq> []" "hd p \<noteq> CHR 0x22" "last p \<noteq> CHR 0x22" using assms(2) by (auto simp: plain_path_def list_all_iff)
    then have "dropWhile (\<lambda>c. c = CHR 0x22) (p @ [CHR 0x22]) = p @ [CHR 0x22]" by (cases p) simp_all
    moreover have "dropWhile (\<lambda>c. c = CHR 0x22) (rev p) = rev p" using p by (simp add: dropWhile_eq_self_iff hd_rev)
    ultimately show ?thesis by (simp add: strip_quotes_def lstrip_by_def rstrip_by_def)
  qed
  ultimately show ?thesis
    using assms l by (simp add: note_line_def Let_def plain_path_def) (simp add: path_line_def)
qed

lemma comments_noted:
  assumes "nt_inside st" "\<forall>c \<in> set cs. trimmed c \<and> hd c \<noteq> CHR ''#''"
  shows "fold note_line (map comment_line cs) st = st\<lparr>nt_pending := nt_pending st @ cs\<rparr>"
  using assms by (induction cs arbitrary: st) (simp_all add: comment_noted)

text \<open>One note above two paths: the second path is left without it.\<close>

lemma second_path_has_no_note:
  assumes "nt_inside st" "nt_pending st = []" "\<forall>c \<in> set cs. trimmed c \<and> hd c \<noteq> CHR ''#''"
    and "plain_path p" "plain_path q" "p \<noteq> q"
  shows "let d = nt_collected (fold note_line (map comment_line cs @ [path_line p, path_line q]) st) in
    map_of d (nt_current st, p) = Some (join '' '' cs) \<and> map_of d (nt_current st, q) = Some []"
  using assms by (simp add: comments_noted path_noted map_of_dict_set Let_def)

end
