(* ===== verification/Findings.thy ===== *)
theory Findings
  imports AppProps SyncStoreProps AccountProps Scopes SyncAuth OauthCodes
begin

text \<open>Concrete inputs on which the code and what it says of itself differ, evaluated in the model.\<close>

text \<open>
  The throttle is asked before the password is looked at: while it holds, the right password is refused
  like any other, whatever the documents say of a client that knows it.
\<close>

lemma throttle_precedes_password:
  assumes "account_by_email email db = Some a" "fst (th_check (normalize_email email) now th) = Inl e"
  shows "fst (accounts_authenticate email auth_pw now later db (Some th)) = Inl e"
proof -
  obtain th' where "th_check (normalize_email email) now th = (Inl e, th')" using assms(2) by (cases "th_check (normalize_email email) now th") simp
  then show ?thesis using assms(1) by (simp add: accounts_authenticate_def opt_check_def andthen_def Let_def)
qed

text \<open>A trailing newline passes an anchored pattern that is only matched.\<close>

lemma newline_ids:
  "validate_bso_id (''abc'' @ [newline]) = Inr (''abc'' @ [newline])"
  "COLLECTION_RE (''bookmarks'' @ [newline])" "CLIENT_STATE_RE (replicate 32 (CHR ''a'') @ [newline])"
  by code_simp+

text \<open>A length that is not a number, without a transfer encoding, is not counted at all.\<close>

lemma malformed_length_is_not_counted:
  "limit_decision_of bl \<lparr>sc_type = ''http'', sc_method = ''POST'', sc_path = p, sc_query = [],
     sc_headers = [(''content-length'', ''12x'')]\<rparr> ins = Some (Start ins)"
proof -
  have "lower ''content-length'' = ''content-length''" "py_int ''12x'' = None" by code_simp+
  then show ?thesis by (simp add: limit_decision_of_def content_length_def has_body_def asgi_header_def Let_def)
qed

text \<open>A public URL is stored as it was written: blanks the URL parser drops stay in it, and so does an empty query.\<close>

lemma public_url_is_not_normalized:
  "read_public_url '' https://x'' = Inr '' https://x''" "read_public_url ''https://x?'' = Inr ''https://x?''"
  by code_simp+

text \<open>All leading slashes are stripped, not one, before the exemption from expiry is decided.\<close>

lemma exemption_strips_all_slashes: "exempt_from_expiry ''///1.5/7/info/collections''"
  by code_simp

text \<open>A token that expires at a NaN never does.\<close>

lemma nan_never_expires: "\<not> date_past now leeway (JFloat PNaN)"
  by simp

text \<open>A scope with an empty user, or an empty port, is accepted.\<close>

lemma empty_userinfo_accepted: "url_implicants ''https://@x/a'' \<noteq> None" "url_implicants ''https://x:/a'' \<noteq> None"
  by code_simp+

text \<open>A token that is not ASCII cannot be hashed: revoking it crashes.\<close>

lemma nonascii_token_crashes: "hash_token [CHR 0xE9] = None"
  by (simp add: hash_token_def encode_ascii_def isascii_def is_ascii_def ord_def)

end
