(* ===== verification/Spec2Isabelle.thy ===== *)
theory Spec2Isabelle
  imports SyncDelta SyncModels ScopeProps Jwe TokenserverProps OauthCodes OauthTokenserver
    AccountClaims AuthModels AttachedProps DeviceProps Profile AppProps KeyFiles Migrate SignIn DocTables Findings
begin

text \<open>
  A verification library for fxa-lite, a self-hosted Mozilla Accounts and Sync server in Python
  (\<open>src/fxa_lite\<close>): accounts, OAuth, profile, tokenserver and Sync storage in one process over one
  SQLite file.

  \<^bold>\<open>The program and the theories.\<close> A request meets three middlewares and then a route of one of the
  tiers. The tiers share the database and a secret, and a sign-in walks through all of them: a password
  gives a session token (accounts), a session an access token (OAuth), an access token a HAWK
  credential (tokenserver), and the credential opens the storage.

  \<^item> \<open>Prelude\<close>, \<open>PyStr\<close>, \<open>PyInt\<close>, \<open>PyFloat\<close>, \<open>Json\<close>, \<open>Base64\<close>, \<open>Base64Url\<close>, \<open>Sha256\<close>, \<open>Kdf\<close>, \<open>Urls\<close>: results that may
  raise, and what the source uses of Python's strings, integers, doubles, JSON values, base64, SHA-256,
  HMAC, HKDF, PBKDF2, scrypt and URL splitting.
  \<^item> \<open>Sql\<close>, \<open>Db\<close>, \<open>DbFacts\<close>, \<open>Migrate\<close> (\<open>db.py\<close>): tables as lists of rows, a statement interface stated as
  locales and interpreted on every table, every statement of \<open>Database\<close> with its constraints and
  cascades, the invariant \<open>wf_db\<close> (keys, uniqueness, references) and its preservation, schema steps.
  \<^item> \<open>SyncErrors\<close>, \<open>Timestamps\<close>, \<open>SyncStore\<close>, \<open>SyncModels\<close>, \<open>SyncHttp\<close> (\<open>syncstorage\<close>): the store's operations,
  the parsing of queries, headers and bodies, and the routes with their transaction wrapper.
  \<open>SyncStoreFacts\<close>, \<open>SyncInvariant\<close>, \<open>SyncHttpFacts\<close> hold the frame and invariant lemmas, \<open>SyncPaging\<close> the
  refinement of paging to one sorted list, \<open>SyncStoreProps\<close> and \<open>SyncDelta\<close> writes, wipes and what a client
  syncing by timestamps sees.
  \<^item> \<open>Hawk\<close>, \<open>SyncAuth\<close>, \<open>SyncFront\<close> (\<open>syncstorage/hawk.py\<close>, \<open>credentials.py\<close>, \<open>_authenticate\<close>),
  \<open>Tokenlib\<close>, \<open>Tokenserver\<close>, \<open>TokenserverFacts\<close>, \<open>TokenserverProps\<close> (\<open>tokenserver\<close>): the MAC, the token, the reconciliation of an account's rows and the rules
  on generations and client states, up to a minted credential opening the storage.
  \<^item> \<open>Crypto\<close>, \<open>Jose\<close>, \<open>Jwe\<close> (\<open>crypto\<close>): password stretching, token derivation, scoped keys, signed tokens and
  envelopes.
  \<^item> \<open>Scopes\<close>, \<open>ScopeProps\<close>, \<open>OauthClients\<close>, \<open>OauthGrant\<close>, \<open>OauthResource\<close>, \<open>OauthRoutes\<close>, \<open>Requests\<close>, \<open>OauthFacts\<close>,
  \<open>OauthProps\<close>, \<open>OauthClaims\<close>, \<open>OauthCodes\<close>, \<open>OauthTokenserver\<close> (\<open>oauth\<close>): the scope algebra against its reference
  order, grants, the token endpoint, and the states reachable by its requests.
  \<^item> \<open>FxaErrors\<close>, \<open>Throttle\<close>, \<open>ThrottleProps\<close>, \<open>Accounts\<close>, \<open>AuthCredentials\<close>, \<open>AuthRoutes\<close>, \<open>AuthModels\<close>, \<open>AuthProps\<close>, \<open>AccountProps\<close>,
  \<open>AccountClaims\<close> (\<open>errors.py\<close>, \<open>throttle.py\<close>, \<open>accounts.py\<close>, \<open>auth\<close>): sign-in and the throttle, keys, destruction.
  \<^item> \<open>Devices\<close>, \<open>DeviceProps\<close>, \<open>AttachedClients\<close>, \<open>AttachedProps\<close> (\<open>auth/devices.py\<close>, \<open>user_agent.py\<close>,
  \<open>attached_clients.py\<close>), \<open>Profile\<close> (\<open>profile\<close>).
  \<^item> \<open>Config\<close>, \<open>ConfigProps\<close> (\<open>config.py\<close>), \<open>Asgi\<close>, \<open>Tracing\<close>, \<open>Middleware\<close>, \<open>MiddlewareProps\<close> (\<open>tracing.py\<close>,
  \<open>middleware.py\<close>), \<open>Content\<close>, \<open>App\<close>, \<open>AppProps\<close> (\<open>content\<close>, \<open>wellknown.py\<close>, \<open>app.py\<close>), \<open>Cli\<close>, \<open>KeyFiles\<close>
  (\<open>cli.py\<close>): what the commands print and do, and who may read the files that hold keys.
  \<^item> \<open>Statements\<close>, \<open>Server\<close>: the contract between \<open>db.py\<close> and the handlers as a locale (what every statement
  keeps, every handler keeps), interpreted on the invariants of the components; the server as one step
  relation over database and throttle, in which all of them hold.
  \<^item> \<open>SignIn\<close>: the tiers composed, from a session through an access token and a credential to the storage.
  \<^item> \<open>DivergenceScan\<close>, \<open>DocTables\<close> (\<open>docs/_ext\<close>): the markers of deliberate divergences, read and ordered, and the
  generated chapters of the documentation.
  \<^item> \<open>Findings\<close>: inputs on which the code and its documents differ.

  \<^bold>\<open>How the code is read.\<close> A function that may raise returns a sum: \<open>Inl\<close> is the exception. A handler
  takes the database and returns it beside its result, so a failed request's effect is explicit: a
  storage request runs in a transaction, an accounts or OAuth request does not. A crash (a 500) is an
  exception of its own, never confused with an answer. Clock readings and random bytes are arguments. Texts
  are lists of 8-bit characters; what needs other characters is a parameter or a stand-in that the theory
  names. Integers are Python's; where SQLite's 64 bits bound them the overflow is a branch. Floats are
  rationals rounded to doubles, with infinities and NaN where the code meets them.

  \<^bold>\<open>Parameters.\<close> \<open>json.loads\<close> and the printing of floats and containers (\<open>json_lib\<close>, \<open>codec\<close>), \<open>parse_qsl\<close>,
  RSA, elliptic curves and AES-GCM (records of functions), punycode, the order in which SQLite visits rows a
  statement leaves tied (\<open>scan\<close>), files and their bytes, and the routes below the middlewares. Hypotheses on
  them state documented behaviour (a signature verifies what was signed, \<open>loads\<close> reads what \<open>dumps\<close> wrote, AES-GCM
  opens what it sealed, the server delivers no more body than was declared) and each has a witness on a concrete instance.

  \<^bold>\<open>What the lemmas show.\<close> Each tier has an invariant of its state that its operations keep, and
  properties over sequences of requests: paging visits every record once; a client that syncs by
  timestamps misses nothing; other users' storage is untouched; a
  retired key never comes back; tokens stay within a client's registration; a code is redeemed once; a
  revoked token, a disconnected device and a destroyed account are dead; guesses are bounded, also when they
  run side by side, and an announced wait is enough; the body limit bounds what an application reads and never hangs; the log
  does not tell secrets apart. \<open>minted_credential_opens_storage\<close>, \<open>issued_token_opens_tokenserver\<close> and
  \<open>oversized_request_reaches_no_route\<close> compose components; \<open>server_keeps_invariants\<close> holds of every state the whole
  server can reach, and \<open>session_reaches_storage\<close> walks a session through all the tiers.

  \<^bold>\<open>Bounds and termination.\<close> No definition uses fuel. Loops are structural or have a measure; the one that
  may run for ever, the buffering of a chunked body, is a partial function whose results are characterised
  exactly (\<open>body_limit_terminates\<close>). Retries of \<open>create_batch\<close> are bounded by the source's own constant.

  \<^bold>\<open>Not modelled.\<close> Connections, threads and interleaving inside a handler (a statement is atomic; the
  findings name the races this leaves; the two halves of a password check, which share the throttle, are
  interleaved in \<open>AccountProps\<close>), routing and request validation beyond the checks the models
  state, reading files, the argument parser, logging set-up, Sphinx, the pages' JavaScript, hosts in brackets in
  URLs (refused by the model). A host's or an email's non-ASCII domain goes through a parameter.
\<close>

end
